(* ===== verification/Op_Prelude.thy ===== *)
theory Op_Prelude
  imports Main "HOL-Library.Multiset" "HOL-Library.List_Lexorder" "HOL-Library.Char_ord"
begin

text \<open>
  Shared vocabulary of the development.

  \<^item> Errors. A Go error is an \<open>err\<close>: what the callers test of it (the
    \<^verbatim>\<open>apierrors.Is...\<close> predicates, \<^verbatim>\<open>recon.ErrReSync\<close>) and its text.
    A panic is an \<open>err\<close> of kind \<open>Panic\<close> that no \<open>if err != nil\<close> sees; a loop
    that does not end is \<open>NoReturn\<close>, which nothing after it sees either.
  \<^item> The reconcile monad \<open>('s, 'a) rm\<close>: a handler reads and writes a state \<open>'s\<close>
    (the object held by \<^verbatim>\<open>recon.Context\<close> and the outside world) and returns a value
    or an error, the state written so far being kept in both cases, as in Go.
  \<^item> Go maps with string keys (\<open>gomap\<close>, \<open>None\<close> is the nil map), the
    \<open>int32\<close> conversion, durations, and the order facts the comparators share.
  \<^item> A small Hoare logic for the monad (\<open>validR\<close>) and its rule collection
    \<open>wpR\<close>.
\<close>

named_theorems wpR "Hoare rules of the reconcile monad"
named_theorems monad_simps "equations that run the reconcile monad on a state"

section \<open>Errors\<close>

datatype err_kind =
    NotFound
  | Conflict
  | AlreadyExists
  | Invalid
  | ReSync int
  | Plain
  | Panic
  | NoReturn

datatype err = Err (ekind: err_kind) (emsg: string)

definition IsNotFound :: "err \<Rightarrow> bool" where
  "IsNotFound e \<longleftrightarrow> ekind e = NotFound"

definition IsConflict :: "err \<Rightarrow> bool" where
  "IsConflict e \<longleftrightarrow> ekind e = Conflict"

definition isPanic :: "err \<Rightarrow> bool" where
  "isPanic e \<longleftrightarrow> ekind e = Panic \<or> ekind e = NoReturn"

text \<open>\<^verbatim>\<open>errors.WrapPrefix\<close> keeps the wrapped error (so \<^verbatim>\<open>errors.As\<close> still
  finds its kind) and puts a prefix before its text.\<close>

definition wrapPrefix :: "string \<Rightarrow> err \<Rightarrow> err" where
  "wrapPrefix p e = Err (ekind e) (p @ '': '' @ emsg e)"

text \<open>\<^verbatim>\<open>strings.Contains(s, sub)\<close>.\<close>

fun hasPrefix :: "string \<Rightarrow> string \<Rightarrow> bool" where
  "hasPrefix [] s = True"
| "hasPrefix (p # ps) [] = False"
| "hasPrefix (p # ps) (c # cs) = (p = c \<and> hasPrefix ps cs)"

fun strContains :: "string \<Rightarrow> string \<Rightarrow> bool" where
  "strContains [] sub = hasPrefix sub []"
| "strContains (c # cs) sub = (hasPrefix sub (c # cs) \<or> strContains cs sub)"

lemma ekind_wrapPrefix [simp]: "ekind (wrapPrefix p e) = ekind e"
  by (simp add: wrapPrefix_def)

lemma isPanic_wrapPrefix [simp]: "isPanic (wrapPrefix p e) = isPanic e"
  by (simp add: isPanic_def)

lemma hasPrefix_append: "hasPrefix p (p @ s)"
  by (induction p) auto

lemma hasPrefix_conv: "hasPrefix p s \<longleftrightarrow> (\<exists>t. s = p @ t)"
  by (induction p s rule: hasPrefix.induct) auto

lemma strContains_conv: "strContains s sub \<longleftrightarrow> (\<exists>a b. s = a @ sub @ b)"
proof (induction s)
  case Nil
  then show ?case by (simp add: hasPrefix_conv)
next
  case (Cons c cs)
  show ?case
  proof
    assume "strContains (c # cs) sub"
    then consider (here) "hasPrefix sub (c # cs)" | (later) "strContains cs sub" by auto
    then show "\<exists>a b. c # cs = a @ sub @ b"
    proof cases
      case here
      then have "\<exists>b. c # cs = [] @ sub @ b" by (simp add: hasPrefix_conv)
      then show ?thesis by blast
    next
      case later
      then obtain a b where "c # cs = (c # a) @ sub @ b" using Cons.IH by auto
      then show ?thesis by blast
    qed
  next
    assume "\<exists>a b. c # cs = a @ sub @ b"
    then obtain a b where ab: "c # cs = a @ sub @ b" by blast
    show "strContains (c # cs) sub"
    proof (cases a)
      case Nil
      with ab have "hasPrefix sub (c # cs)" by (auto simp: hasPrefix_conv)
      then show ?thesis by simp
    next
      case (Cons d ds)
      with ab have "cs = ds @ sub @ b" by simp
      with \<open>strContains cs sub = (\<exists>a b. cs = a @ sub @ b)\<close> have "strContains cs sub" by blast
      then show ?thesis by simp
    qed
  qed
qed

lemma strContains_wrapPrefix: "strContains (emsg e) sub \<Longrightarrow> strContains (emsg (wrapPrefix p e)) sub"
proof -
  assume "strContains (emsg e) sub"
  then obtain a b where "emsg e = a @ sub @ b" by (auto simp: strContains_conv)
  then have "emsg (wrapPrefix p e) = (p @ '': '' @ a) @ sub @ b" by (simp add: wrapPrefix_def)
  then show ?thesis unfolding strContains_conv by blast
qed

section \<open>The reconcile monad\<close>

type_synonym ('s, 'a) rm = "'s \<Rightarrow> (err + 'a) \<times> 's"

definition ret :: "'a \<Rightarrow> ('s, 'a) rm" where
  "ret x s = (Inr x, s)"

definition throw :: "err \<Rightarrow> ('s, 'a) rm" where
  "throw e s = (Inl e, s)"

definition bindR :: "('s, 'a) rm \<Rightarrow> ('a \<Rightarrow> ('s, 'b) rm) \<Rightarrow> ('s, 'b) rm" where
  "bindR m f s = (case m s of (Inl e, s') \<Rightarrow> (Inl e, s') | (Inr x, s') \<Rightarrow> f x s')"

text \<open>\<open>x, err := m\<close> with the error inspected by the caller; a panic is not an error value.\<close>

definition attempt :: "('s, 'a) rm \<Rightarrow> ('s, err + 'a) rm" where
  "attempt m s = (case m s of
      (Inl e, s') \<Rightarrow> (if isPanic e then (Inl e, s') else (Inr (Inl e), s'))
    | (Inr x, s') \<Rightarrow> (Inr (Inr x), s'))"

text \<open>\<open>if err := m; err != nil { return errors.WrapPrefix(err, p, 0) }\<close>.\<close>

definition wrapE :: "string \<Rightarrow> ('s, 'a) rm \<Rightarrow> ('s, 'a) rm" where
  "wrapE p m s = (case m s of (Inl e, s') \<Rightarrow> (Inl (wrapPrefix p e), s') | (Inr x, s') \<Rightarrow> (Inr x, s'))"

definition getS :: "('s, 's) rm" where
  "getS s = (Inr s, s)"

definition modifyS :: "('s \<Rightarrow> 's) \<Rightarrow> ('s, unit) rm" where
  "modifyS f s = (Inr (), f s)"

fun forR :: "('a \<Rightarrow> ('s, unit) rm) \<Rightarrow> 'a list \<Rightarrow> ('s, unit) rm" where
  "forR f [] = ret ()"
| "forR f (x # xs) = bindR (f x) (\<lambda>_. forR f xs)"

lemma ret_run [monad_simps]: "ret x s = (Inr x, s)"
  by (simp add: ret_def)

lemma throw_run [monad_simps]: "throw e s = (Inl e, s)"
  by (simp add: throw_def)

lemma getS_run [monad_simps]: "getS s = (Inr s, s)"
  by (simp add: getS_def)

lemma modifyS_run [monad_simps]: "modifyS f s = (Inr (), f s)"
  by (simp add: modifyS_def)

lemmas bindR_run [monad_simps] = bindR_def
lemmas attempt_run [monad_simps] = attempt_def
lemmas wrapE_run [monad_simps] = wrapE_def

lemma bindR_ret [simp]: "bindR (ret x) f = f x"
  by (rule ext) (simp add: monad_simps)

lemma bindR_throw [simp]: "bindR (throw e) f = throw e"
  by (rule ext) (simp add: monad_simps)

lemma bindR_ret_right [simp]: "bindR m ret = m"
  by (rule ext) (simp add: monad_simps split: prod.splits sum.splits)

lemma bindR_assoc: "bindR (bindR m f) g = bindR m (\<lambda>x. bindR (f x) g)"
  by (rule ext) (simp add: monad_simps split: prod.splits sum.splits)

text \<open>One step of a run, and the inversion of a run that returned.\<close>

lemma bindR_Inr: "m s = (Inr x, s1) \<Longrightarrow> bindR m f s = f x s1"
  by (simp add: monad_simps)

lemma bindR_Inl: "m s = (Inl e, s1) \<Longrightarrow> bindR m f s = (Inl e, s1)"
  by (simp add: monad_simps)

lemma bindR_InrE:
  assumes "bindR m f s = (Inr y, s')"
  obtains x s1 where "m s = (Inr x, s1)" and "f x s1 = (Inr y, s')"
  using assms by (auto simp: monad_simps split: prod.splits sum.splits)

lemma bindR_cases:
  assumes "bindR m f s = (r, s')"
  obtains (err) e where "m s = (Inl e, s')" and "r = Inl e"
  | (ok) x s1 where "m s = (Inr x, s1)" and "f x s1 = (r, s')"
  using assms by (auto simp: monad_simps split: prod.splits sum.splits)

lemma wrapE_Inr_iff [simp]: "wrapE p m s = (Inr x, s') \<longleftrightarrow> m s = (Inr x, s')"
  by (auto simp: monad_simps split: prod.splits sum.splits)

lemma attempt_Inr_iff: "attempt m s = (Inr (Inr x), s') \<longleftrightarrow> m s = (Inr x, s')"
  by (auto simp: monad_simps split: prod.splits sum.splits)

section \<open>Hoare triples\<close>

text \<open>\<open>validR P m Q E\<close>: from a state in \<open>P\<close>, a normal return satisfies \<open>Q\<close> and an
  error return (or a panic) satisfies \<open>E\<close>.\<close>

definition validR ::
  "('s \<Rightarrow> bool) \<Rightarrow> ('s, 'a) rm \<Rightarrow> ('a \<Rightarrow> 's \<Rightarrow> bool) \<Rightarrow> (err \<Rightarrow> 's \<Rightarrow> bool) \<Rightarrow> bool" where
  "validR P m Q E \<longleftrightarrow> (\<forall>s. P s \<longrightarrow> (case m s of (Inl e, s') \<Rightarrow> E e s' | (Inr x, s') \<Rightarrow> Q x s'))"

definition preservesR :: "('s \<Rightarrow> bool) \<Rightarrow> ('s, 'a) rm \<Rightarrow> bool" where
  "preservesR I m \<longleftrightarrow> validR I m (\<lambda>_. I) (\<lambda>_. I)"

lemma validR_ret: "(\<And>s. P s \<Longrightarrow> Q x s) \<Longrightarrow> validR P (ret x) Q E"
  by (simp add: validR_def monad_simps)

lemma validR_bind:
  assumes "validR P m R E" and "\<And>x. validR (R x) (f x) Q E"
  shows "validR P (bindR m f) Q E"
  unfolding validR_def
proof (intro allI impI)
  fix s assume P: "P s"
  obtain r s1 where m: "m s = (r, s1)" by fastforce
  show "case bindR m f s of (Inl e, s') \<Rightarrow> E e s' | (Inr x, s') \<Rightarrow> Q x s'"
  proof (cases r)
    case (Inl e)
    with assms(1) P m show ?thesis by (auto simp: validR_def monad_simps)
  next
    case (Inr x)
    with assms(1) P m have "R x s1" by (auto simp: validR_def)
    with assms(2)[of x] m Inr show ?thesis by (auto simp: validR_def monad_simps)
  qed
qed

lemma validR_run: "validR P m Q E \<Longrightarrow> P s \<Longrightarrow> m s = (Inr x, s') \<Longrightarrow> Q x s'"
  by (force simp: validR_def)

lemma validR_err: "validR P m Q E \<Longrightarrow> P s \<Longrightarrow> m s = (Inl e, s') \<Longrightarrow> E e s'"
  by (force simp: validR_def)

lemma preservesR_run: "preservesR I m \<Longrightarrow> I s \<Longrightarrow> m s = (r, s') \<Longrightarrow> I s'"
  by (cases r) (auto simp: preservesR_def dest: validR_run validR_err)

lemma preservesRI: "(\<And>s r s'. I s \<Longrightarrow> m s = (r, s') \<Longrightarrow> I s') \<Longrightarrow> preservesR I m"
  by (auto simp: preservesR_def validR_def split: prod.splits sum.splits)

lemma preservesR_ret [wpR]: "preservesR I (ret x)"
  by (rule preservesRI) (simp add: monad_simps)

lemma preservesR_throw [wpR]: "preservesR I (throw e)"
  by (rule preservesRI) (simp add: monad_simps)

lemma preservesR_getS [wpR]: "preservesR I getS"
  by (rule preservesRI) (simp add: monad_simps)

lemma preservesR_modifyS [wpR]: "(\<And>s. I s \<Longrightarrow> I (f s)) \<Longrightarrow> preservesR I (modifyS f)"
  by (rule preservesRI) (auto simp: monad_simps)

lemma preservesR_bind [wpR]:
  "preservesR I m \<Longrightarrow> (\<And>x. preservesR I (f x)) \<Longrightarrow> preservesR I (bindR m f)"
  unfolding preservesR_def by (rule validR_bind)

lemma preservesR_attempt [wpR]: "preservesR I m \<Longrightarrow> preservesR I (attempt m)"
  by (rule preservesRI) (auto simp: monad_simps dest: preservesR_run split: prod.splits sum.splits if_splits)

lemma preservesR_wrapE [wpR]: "preservesR I m \<Longrightarrow> preservesR I (wrapE p m)"
  by (rule preservesRI) (auto simp: monad_simps dest: preservesR_run split: prod.splits sum.splits)

lemma preservesR_if [wpR]:
  "(b \<Longrightarrow> preservesR I m) \<Longrightarrow> (\<not> b \<Longrightarrow> preservesR I n) \<Longrightarrow> preservesR I (if b then m else n)"
  by simp

lemma preservesR_option [wpR]:
  "(x = None \<Longrightarrow> preservesR I m) \<Longrightarrow> (\<And>y. x = Some y \<Longrightarrow> preservesR I (f y))
    \<Longrightarrow> preservesR I (case x of None \<Rightarrow> m | Some y \<Rightarrow> f y)"
  by (cases x) auto

lemma preservesR_sum [wpR]:
  "(\<And>e. x = Inl e \<Longrightarrow> preservesR I (f e)) \<Longrightarrow> (\<And>y. x = Inr y \<Longrightarrow> preservesR I (g y))
    \<Longrightarrow> preservesR I (case x of Inl e \<Rightarrow> f e | Inr y \<Rightarrow> g y)"
  by (cases x) auto

lemma preservesR_list [wpR]:
  "(x = [] \<Longrightarrow> preservesR I m) \<Longrightarrow> (\<And>y ys. x = y # ys \<Longrightarrow> preservesR I (f y ys))
    \<Longrightarrow> preservesR I (case x of [] \<Rightarrow> m | y # ys \<Rightarrow> f y ys)"
  by (cases x) auto

lemma preservesR_forR [wpR]: "(\<And>x. x \<in> set xs \<Longrightarrow> preservesR I (f x)) \<Longrightarrow> preservesR I (forR f xs)"
  by (induction xs) (auto intro!: preservesR_ret preservesR_bind)

section \<open>Go maps with string keys\<close>

type_synonym gomap = "(string \<rightharpoonup> string) option"

definition gget :: "gomap \<Rightarrow> string \<Rightarrow> string option" where
  "gget m k = (case m of None \<Rightarrow> None | Some f \<Rightarrow> f k)"

text \<open>\<open>m[k]\<close>: the zero value for an absent key.\<close>

definition gstr :: "gomap \<Rightarrow> string \<Rightarrow> string" where
  "gstr m k = (case gget m k of None \<Rightarrow> [] | Some v \<Rightarrow> v)"

text \<open>\<open>m[k] = v\<close>: a write to the nil map panics, which is \<open>None\<close> here.\<close>

definition gput :: "string \<Rightarrow> string \<Rightarrow> gomap \<Rightarrow> gomap option" where
  "gput k v m = (case m of None \<Rightarrow> None | Some f \<Rightarrow> Some (Some (f(k \<mapsto> v))))"

text \<open>\<open>for k, v := range src { m[k] = v }\<close>: no write, and no panic, when \<open>src\<close> is empty.\<close>

definition gputAll :: "gomap \<Rightarrow> gomap \<Rightarrow> gomap option" where
  "gputAll src m = (case src of None \<Rightarrow> Some m
     | Some f \<Rightarrow> if dom f = {} then Some m
        else (case m of None \<Rightarrow> None | Some g \<Rightarrow> Some (Some (g ++ f))))"

definition gdel :: "string \<Rightarrow> gomap \<Rightarrow> gomap" where
  "gdel k m = map_option (\<lambda>f. f(k := None)) m"

text \<open>\<open>for k := range src { delete(m, k) }\<close>.\<close>

definition gdelAll :: "gomap \<Rightarrow> gomap \<Rightarrow> gomap" where
  "gdelAll src m = (case src of None \<Rightarrow> m | Some f \<Rightarrow> map_option (\<lambda>g. g |` (- dom f)) m)"

text \<open>\<open>if m == nil { m = map[string]string{} }\<close>.\<close>

definition gmake :: "gomap \<Rightarrow> gomap" where
  "gmake m = (case m of None \<Rightarrow> Some Map.empty | Some f \<Rightarrow> Some f)"

definition gdom :: "gomap \<Rightarrow> string set" where
  "gdom m = (case m of None \<Rightarrow> {} | Some f \<Rightarrow> dom f)"

lemma gget_nil [simp]: "gget None k = None"
  by (simp add: gget_def)

lemma gget_Some [simp]: "gget (Some f) k = f k"
  by (simp add: gget_def)

lemma gstr_nil [simp]: "gstr None k = []"
  by (simp add: gstr_def)

lemma gstr_Some [simp]: "gstr (Some f) k = (case f k of None \<Rightarrow> [] | Some v \<Rightarrow> v)"
  by (simp add: gstr_def)

lemma gget_gdel [simp]: "gget (gdel k m) j = (if j = k then None else gget m j)"
  by (cases m) (auto simp: gdel_def)

lemma gget_gdelAll [simp]: "gget (gdelAll src m) j = (if j \<in> gdom src then None else gget m j)"
  by (cases m; cases src) (auto simp: gdelAll_def gdom_def restrict_map_def)

lemma gmake_neq_nil [simp]: "gmake m \<noteq> None"
  by (cases m) (auto simp: gmake_def)

lemma gget_gmake [simp]: "gget (gmake m) k = gget m k"
  by (cases m) (auto simp: gmake_def)

lemma gput_Some [simp]: "gput k v (Some f) = Some (Some (f(k \<mapsto> v)))"
  by (simp add: gput_def)

lemma gput_nil [simp]: "gput k v None = None"
  by (simp add: gput_def)

lemma gputAll_Some [simp]: "gputAll src (Some g) = Some (Some (case src of None \<Rightarrow> g | Some f \<Rightarrow> g ++ f))"
  by (auto simp: gputAll_def split: option.splits)

lemma gdel_Some [simp]: "gdel k (Some f) = Some (f(k := None))"
  by (simp add: gdel_def)

lemma gdelAll_Some [simp]:
  "gdelAll src (Some g) = Some (case src of None \<Rightarrow> g | Some f \<Rightarrow> g |` (- dom f))"
  by (auto simp: gdelAll_def split: option.splits)

section \<open>Integers, durations, order\<close>

text \<open>Conversion to and arithmetic at Go's \<open>int32\<close> (two's complement). Go's \<open>int\<close> and
  \<open>int64\<close> are 64 bits wide; the quantities kept in them here (lengths, ordinals, seconds)
  stay far below that bound and are \<open>int\<close>.\<close>

definition int32 :: "int \<Rightarrow> int" where
  "int32 x = (x + 2 ^ 31) mod 2 ^ 32 - 2 ^ 31"

definition fits32 :: "int \<Rightarrow> bool" where
  "fits32 x \<longleftrightarrow> - (2 ^ 31) \<le> x \<and> x < 2 ^ 31"

lemma int32_fits [simp]: "fits32 x \<Longrightarrow> int32 x = x"
  by (simp add: int32_def fits32_def)

lemma fits32_int32 [simp]: "fits32 (int32 x)"
proof -
  have "0 \<le> (x + 2 ^ 31) mod 2 ^ 32" and "(x + 2 ^ 31) mod 2 ^ 32 < (2::int) ^ 32"
    by simp_all
  then show ?thesis by (simp add: int32_def fits32_def)
qed

text \<open>Instants and durations are nanoseconds. \<open>int(d.Seconds())\<close> truncates to zero.\<close>

type_synonym time = int

definition second :: int where
  "second = 1000000000"

definition intSeconds :: "int \<Rightarrow> int" where
  "intSeconds d = sgn d * (\<bar>d\<bar> div second)"

lemma second_pos [simp]: "0 < second"
  by (simp add: second_def)

lemma second_neq0 [simp]: "second \<noteq> 0"
  by (simp add: second_def)

lemma intSeconds_neg: "intSeconds (- d) = - intSeconds d"
  by (simp add: intSeconds_def)

text \<open>\<^verbatim>\<open>strconv.ParseInt(s, 10, bits)\<close> and \<^verbatim>\<open>strconv.Atoi\<close> (\<open>bits = 64\<close>): an optional sign, at
  least one digit, the value in range; \<open>None\<close> is the error. \<^verbatim>\<open>strconv.Itoa\<close> prints.\<close>

definition digitOf :: "char \<Rightarrow> nat option" where
  "digitOf c = (let n = of_char c :: nat in if 48 \<le> n \<and> n \<le> 57 then Some (n - 48) else None)"

fun digitsVal :: "nat \<Rightarrow> string \<Rightarrow> nat option" where
  "digitsVal acc [] = Some acc"
| "digitsVal acc (c # cs) = (case digitOf c of None \<Rightarrow> None | Some d \<Rightarrow> digitsVal (10 * acc + d) cs)"

definition parseUnsigned :: "string \<Rightarrow> nat option" where
  "parseUnsigned s = (if s = [] then None else digitsVal 0 s)"

definition goParseInt :: "nat \<Rightarrow> string \<Rightarrow> int option" where
  "goParseInt bits s =
     (let neg = (s \<noteq> [] \<and> hd s = CHR ''-'');
          ds = (if s \<noteq> [] \<and> (hd s = CHR ''-'' \<or> hd s = CHR ''+'') then tl s else s)
      in case parseUnsigned ds of
           None \<Rightarrow> None
         | Some n \<Rightarrow> if neg then (if n \<le> 2 ^ (bits - 1) then Some (- int n) else None)
                     else (if n < 2 ^ (bits - 1) then Some (int n) else None))"

fun showNat :: "nat \<Rightarrow> string" where
  "showNat n = (if n < 10 then [char_of (48 + n)] else showNat (n div 10) @ [char_of (48 + n mod 10)])"

declare showNat.simps [simp del]

definition goItoa :: "int \<Rightarrow> string" where
  "goItoa i = (if i < 0 then CHR ''-'' # showNat (nat (- i)) else showNat (nat i))"

lemma digitOf_char: "d < 10 \<Longrightarrow> digitOf (char_of (48 + d)) = Some d"
  by (simp add: digitOf_def Let_def)

lemma digitsVal_append:
  "digitsVal acc (xs @ ys) = Option.bind (digitsVal acc xs) (\<lambda>a. digitsVal a ys)"
  by (induction acc xs rule: digitsVal.induct) (auto split: option.splits)

lemma digitsVal_showNat: "\<exists>k. \<forall>acc. digitsVal acc (showNat n) = Some (acc * 10 ^ k + n)"
proof (induction n rule: showNat.induct)
  case (1 n)
  show ?case
  proof (cases "n < 10")
    case True
    then show ?thesis by (intro exI[of _ 1]) (simp add: showNat.simps[of n] digitOf_char)
  next
    case False
    with 1 obtain k where k: "\<And>acc. digitsVal acc (showNat (n div 10)) = Some (acc * 10 ^ k + n div 10)" by blast
    have "10 * (acc * 10 ^ k + n div 10) + n mod 10 = acc * 10 ^ Suc k + n" for acc
      by (simp add: algebra_simps)
    with False k show ?thesis
      by (intro exI[of _ "Suc k"]) (simp add: showNat.simps[of n] digitsVal_append digitOf_char)
  qed
qed

lemma showNat_nonempty [simp]: "showNat n \<noteq> []"
  by (subst showNat.simps) simp

lemma showNat_hd: "hd (showNat n) \<noteq> CHR ''-''" "hd (showNat n) \<noteq> CHR ''+''"
proof -
  have "\<exists>d :: nat. d < 10 \<and> hd (showNat n) = char_of (48 + d)"
  proof (induction n rule: showNat.induct)
    case (1 n)
    then show ?case by (cases "n < 10") (auto simp: showNat.simps[of n])
  qed
  then obtain d :: nat where d: "d < 10" "hd (showNat n) = char_of (48 + d)" by blast
  have "digitOf (hd (showNat n)) \<noteq> None" using d digitOf_char by simp
  moreover have "digitOf CHR ''-'' = None" "digitOf CHR ''+'' = None" by (simp_all add: digitOf_def)
  ultimately show "hd (showNat n) \<noteq> CHR ''-''" "hd (showNat n) \<noteq> CHR ''+''" by metis+
qed

text \<open>Round trip: what \<^verbatim>\<open>Itoa\<close> prints, \<^verbatim>\<open>ParseInt\<close> reads back when it fits.\<close>

lemma goParseInt_Itoa:
  assumes "- (2 ^ (bits - 1)) \<le> i" and "i < 2 ^ (bits - 1)"
  shows "goParseInt bits (goItoa i) = Some i"
proof -
  have read: "parseUnsigned (showNat n) = Some n" for n
    using digitsVal_showNat[of n] by (auto simp: parseUnsigned_def)
  show ?thesis
  proof (cases "i < 0")
    case True
    then have "nat (- i) \<le> 2 ^ (bits - 1)" using assms(1) by (simp add: nat_le_iff)
    with True read show ?thesis by (simp add: goParseInt_def goItoa_def Let_def)
  next
    case False
    then have "nat i < 2 ^ (bits - 1)" using assms(2) by (simp add: nat_less_iff)
    with False read showNat_hd show ?thesis by (simp add: goParseInt_def goItoa_def Let_def)
  qed
qed

text \<open>Lexicographic composition of three-way comparison results: the first that is not 0.\<close>

definition cmpThen :: "int \<Rightarrow> int \<Rightarrow> int" where
  "cmpThen a b = (if a \<noteq> 0 then a else b)"

section \<open>Comparators and sorting\<close>

text \<open>The contract \<^verbatim>\<open>slices.SortFunc\<close> asks of its comparator on the elements it sorts: a strict weak
  order given by the sign of the result.\<close>

definition weak_order_on :: "'a set \<Rightarrow> ('a \<Rightarrow> 'a \<Rightarrow> int) \<Rightarrow> bool" where
  "weak_order_on A cmp \<longleftrightarrow>
     (\<forall>a \<in> A. \<forall>b \<in> A. cmp a b < 0 \<longleftrightarrow> 0 < cmp b a) \<and>
     (\<forall>a \<in> A. \<forall>b \<in> A. \<forall>c \<in> A. cmp a b \<le> 0 \<longrightarrow> cmp b c \<le> 0 \<longrightarrow> cmp a c \<le> 0)"

definition sorted_by :: "('a \<Rightarrow> 'a \<Rightarrow> int) \<Rightarrow> 'a list \<Rightarrow> bool" where
  "sorted_by cmp xs \<longleftrightarrow> sorted_wrt (\<lambda>a b. cmp a b \<le> 0) xs"

text \<open>What \<^verbatim>\<open>slices.SortFunc\<close> promises: a sorted permutation, nothing about ties.\<close>

definition sorts :: "(('a \<Rightarrow> 'a \<Rightarrow> int) \<Rightarrow> 'a list \<Rightarrow> 'a list) \<Rightarrow> bool" where
  "sorts srt \<longleftrightarrow> (\<forall>cmp xs. weak_order_on (set xs) cmp \<longrightarrow> mset (srt cmp xs) = mset xs \<and> sorted_by cmp (srt cmp xs))"

text \<open>The routine the library runs on slices of at most 12 elements: insertion sort.\<close>

fun insertBy :: "('a \<Rightarrow> 'a \<Rightarrow> int) \<Rightarrow> 'a \<Rightarrow> 'a list \<Rightarrow> 'a list" where
  "insertBy cmp x [] = [x]"
| "insertBy cmp x (y # ys) = (if cmp x y \<le> 0 then x # y # ys else y # insertBy cmp x ys)"

fun insertionSort :: "('a \<Rightarrow> 'a \<Rightarrow> int) \<Rightarrow> 'a list \<Rightarrow> 'a list" where
  "insertionSort cmp [] = []"
| "insertionSort cmp (x # xs) = insertBy cmp x (insertionSort cmp xs)"

lemma mset_insertBy: "mset (insertBy cmp x xs) = add_mset x (mset xs)"
  by (induction xs) auto

lemma set_insertBy [simp]: "set (insertBy cmp x xs) = insert x (set xs)"
  by (induction xs) auto

lemma mset_insertionSort [simp]: "mset (insertionSort cmp xs) = mset xs"
  by (induction xs) (auto simp: mset_insertBy)

lemma set_insertionSort [simp]: "set (insertionSort cmp xs) = set xs"
  by (induction xs) auto

lemma weak_order_on_subset: "weak_order_on A cmp \<Longrightarrow> B \<subseteq> A \<Longrightarrow> weak_order_on B cmp"
  unfolding weak_order_on_def by blast

text \<open>The clients of a comparator rely on these facts only.\<close>

locale comparator =
  fixes A :: "'a set" and cmp :: "'a \<Rightarrow> 'a \<Rightarrow> int"
  assumes weak: "weak_order_on A cmp"
begin

lemma cmp_total: "a \<in> A \<Longrightarrow> b \<in> A \<Longrightarrow> cmp a b \<le> 0 \<or> cmp b a \<le> 0"
  using weak unfolding weak_order_on_def by (meson linorder_not_less less_imp_le)

lemma cmp_trans: "a \<in> A \<Longrightarrow> b \<in> A \<Longrightarrow> c \<in> A \<Longrightarrow> cmp a b \<le> 0 \<Longrightarrow> cmp b c \<le> 0 \<Longrightarrow> cmp a c \<le> 0"
  using weak unfolding weak_order_on_def by blast

lemma sorted_insertBy:
  "x \<in> A \<Longrightarrow> set xs \<subseteq> A \<Longrightarrow> sorted_by cmp xs \<Longrightarrow> sorted_by cmp (insertBy cmp x xs)"
proof (induction xs)
  case Nil
  then show ?case by (simp add: sorted_by_def)
next
  case (Cons y ys)
  show ?case
  proof (cases "cmp x y \<le> 0")
    case True
    with Cons.prems show ?thesis
      by (auto simp: sorted_by_def intro: cmp_trans)
  next
    case False
    then have "cmp y x \<le> 0" using cmp_total Cons.prems by auto
    with False Cons show ?thesis
      by (auto simp: sorted_by_def)
  qed
qed

lemma sorted_insertionSort: "set xs \<subseteq> A \<Longrightarrow> sorted_by cmp (insertionSort cmp xs)"
proof (induction xs)
  case Nil
  then show ?case by (simp add: sorted_by_def)
next
  case (Cons x xs)
  then show ?case by (simp add: sorted_insertBy)
qed

text \<open>Whatever the sort does with ties, it permutes, and a prefix of its result precedes the rest.\<close>

lemma sorts_result:
  "sorts srt \<Longrightarrow> set xs \<subseteq> A \<Longrightarrow> mset (srt cmp xs) = mset xs \<and> sorted_by cmp (srt cmp xs)"
  using weak_order_on_subset[OF weak] unfolding sorts_def by blast

lemma prefix_least:
  assumes "sorts srt" and "set xs \<subseteq> A"
    and "a \<in> set (take n (srt cmp xs))" and "b \<in> set (drop n (srt cmp xs))"
  shows "cmp a b \<le> 0"
proof -
  have "sorted_by cmp (take n (srt cmp xs) @ drop n (srt cmp xs))"
    using sorts_result[OF assms(1,2)] by simp
  then show ?thesis using assms(3,4)
    unfolding sorted_by_def sorted_wrt_append by blast
qed

lemma sort_set: "sorts srt \<Longrightarrow> set xs \<subseteq> A \<Longrightarrow> set (srt cmp xs) = set xs"
  using sorts_result by (metis mset_eq_setD)

lemma sort_length: "sorts srt \<Longrightarrow> set xs \<subseteq> A \<Longrightarrow> length (srt cmp xs) = length xs"
  using sorts_result by (metis mset_eq_length)

end

lemma sorts_insertionSort [simp]: "sorts insertionSort"
  unfolding sorts_def using comparator.sorted_insertionSort[OF comparator.intro] by fastforce

text \<open>How the comparators of the controllers are built: a difference of scores, then a
  tie-breaker.\<close>

lemma weak_order_score: "weak_order_on A (\<lambda>a b. f a - f b)"
  unfolding weak_order_on_def by (intro conjI ballI impI iffI) linarith+

lemma weak_order_sgn:
  assumes "weak_order_on A g" and "\<And>a b. a \<in> A \<Longrightarrow> b \<in> A \<Longrightarrow> sgn (f a b) = sgn (g a b)"
  shows "weak_order_on A f"
proof -
  have "f a b < 0 \<longleftrightarrow> g a b < 0" "0 < f a b \<longleftrightarrow> 0 < g a b" "f a b \<le> 0 \<longleftrightarrow> g a b \<le> 0" if "a \<in> A" "b \<in> A" for a b
    using assms(2)[OF that] by (auto simp: sgn_if split: if_splits)
  note eqs = this
  show ?thesis unfolding weak_order_on_def
  proof (intro conjI ballI impI)
    fix a b assume A: "a \<in> A" "b \<in> A"
    then have "g a b < 0 \<longleftrightarrow> 0 < g b a" using assms(1) unfolding weak_order_on_def by blast
    with A show "f a b < 0 \<longleftrightarrow> 0 < f b a" by (simp add: eqs)
  next
    fix a b c assume A: "a \<in> A" "b \<in> A" "c \<in> A" and "f a b \<le> 0" "f b c \<le> 0"
    then have "g a b \<le> 0" "g b c \<le> 0" by (simp_all add: eqs)
    with A assms(1) have "g a c \<le> 0" unfolding weak_order_on_def by blast
    with A show "f a c \<le> 0" by (simp add: eqs)
  qed
qed

lemma weak_order_cmpThen:
  assumes "weak_order_on A c1" and "weak_order_on A c2"
  shows "weak_order_on A (\<lambda>a b. cmpThen (c1 a b) (c2 a b))"
proof -
  have s1: "c1 a b < 0 \<longleftrightarrow> 0 < c1 b a" and s2: "c2 a b < 0 \<longleftrightarrow> 0 < c2 b a" if "a \<in> A" "b \<in> A" for a b
    using assms that by (auto simp: weak_order_on_def)
  have z1: "c1 a b = 0 \<longleftrightarrow> c1 b a = 0" if "a \<in> A" "b \<in> A" for a b
    using s1[OF that] s1[OF that(2,1)] by linarith
  have t1: "c1 a b \<le> 0 \<Longrightarrow> c1 b c \<le> 0 \<Longrightarrow> c1 a c \<le> 0" if "a \<in> A" "b \<in> A" "c \<in> A" for a b c
    using assms(1) that unfolding weak_order_on_def by blast
  have t2: "c2 a b \<le> 0 \<Longrightarrow> c2 b c \<le> 0 \<Longrightarrow> c2 a c \<le> 0" if "a \<in> A" "b \<in> A" "c \<in> A" for a b c
    using assms(2) that unfolding weak_order_on_def by blast
  have sign: "cmpThen (c1 a b) (c2 a b) < 0 \<longleftrightarrow> 0 < cmpThen (c1 b a) (c2 b a)" if "a \<in> A" "b \<in> A" for a b
    using s1[OF that] s2[OF that] z1[OF that] by (auto simp: cmpThen_def)
  have trans: "cmpThen (c1 a c) (c2 a c) \<le> 0"
    if A: "a \<in> A" "b \<in> A" "c \<in> A"
      and ab: "cmpThen (c1 a b) (c2 a b) \<le> 0" and bc: "cmpThen (c1 b c) (c2 b c) \<le> 0" for a b c
  proof -
    have le: "c1 a c \<le> 0" using t1[OF A] ab bc by (auto simp: cmpThen_def split: if_splits)
    show ?thesis
    proof (cases "c1 a c = 0")
      case False
      with le show ?thesis by (simp add: cmpThen_def)
    next
      case True
      have "c1 a b = 0"
        using t1[OF A(2,3,1)] True z1[OF A(1,3)] z1[OF A(1,2)] s1[OF A(1,2)] ab bc
        by (fastforce simp: cmpThen_def split: if_splits)
      moreover have "c1 b c = 0"
        using t1[OF A(3,1,2)] True z1[OF A(1,3)] z1[OF A(2,3)] s1[OF A(2,3)] ab bc
        by (fastforce simp: cmpThen_def split: if_splits)
      ultimately show ?thesis using True t2[OF A] ab bc by (simp add: cmpThen_def)
    qed
  qed
  show ?thesis unfolding weak_order_on_def using sign trans by blast
qed

text \<open>\<open>-int(a.CreationTimestamp.Sub(b.CreationTimestamp.Time).Seconds())\<close> is a weak order when
  the stamps are whole seconds, as serialised creation timestamps are.\<close>

definition wholeSeconds :: "time \<Rightarrow> bool" where
  "wholeSeconds t \<longleftrightarrow> t mod second = 0"

lemma intSeconds_whole:
  assumes "wholeSeconds a" and "wholeSeconds b"
  shows "intSeconds (a - b) = a div second - b div second"
proof -
  obtain i j where ij: "a = second * i" "b = second * j"
    using assms unfolding wholeSeconds_def by (metis mult_div_mod_eq add.right_neutral)
  then have "a - b = second * (i - j)" by (simp add: algebra_simps)
  then have "intSeconds (a - b) = sgn (i - j) * \<bar>i - j\<bar>"
    using second_pos by (simp add: intSeconds_def abs_mult sgn_mult abs_of_pos del: second_pos)
  then show ?thesis using ij by (simp add: sgn_mult_abs)
qed

lemma weak_order_newer_first:
  "weak_order_on {x. wholeSeconds (f x)} (\<lambda>a b. - intSeconds (f a - f b))"
  by (rule weak_order_sgn[OF weak_order_score[of _ "\<lambda>x. - (f x div second)"]]) (simp add: intSeconds_whole)

end
