(* ===== verification/Kube_Objects.thy ===== *)
theory Kube_Objects
  imports Op_Prelude
begin

text \<open>
  The objects the controllers read and write, and the interfaces they call.

  The structs of \<^verbatim>\<open>api/core/v1alpha1\<close> are records with the fields the controllers use.
  Code outside the repository (the Kubernetes API and its informer cache, the
  \<^verbatim>\<open>recon\<close> framework, HAKeeper, the query service, the clock, hash functions) is the
  record \<open>'w env\<close>: every definition that calls it takes an \<open>env\<close> and threads the
  state \<open>'w\<close> of that outside world. Nothing is assumed about an \<open>env\<close> here; a
  property that relies on the behaviour of such code names what it relies on as a hypothesis.
\<close>

section \<open>Label and annotation keys\<close>

definition CNPodPhaseLabel :: string where
  "CNPodPhaseLabel = ''pool.matrixorigin.io/phase''"
definition PodClaimedByLabel :: string where
  "PodClaimedByLabel = ''pool.matrixorigin.io/claimed-by''"
definition PoolNameLabel :: string where
  "PoolNameLabel = ''pool.matrixorigin.io/pool-name''"
definition PodManagementPolicyAnno :: string where
  "PodManagementPolicyAnno = ''pool.matrixorigin.io/management-policy''"
definition DirectPodLabel :: string where
  "DirectPodLabel = ''pool.matrixorigin.io/direct-pod''"
definition PodOwnerNameLabel :: string where
  "PodOwnerNameLabel = ''matrixorigin.io/owner''"
definition ClaimSetNameLabel :: string where
  "ClaimSetNameLabel = ''matrixorigin.io/claimset''"
definition DeleteOnReclaimAnno :: string where
  "DeleteOnReclaimAnno = ''matrixorigin.io/delete-on-reclaim''"
definition PodLastOwnerLabel :: string where
  "PodLastOwnerLabel = ''matrixorigin.io/last-owner''"
definition PodOutdatedLabel :: string where
  "PodOutdatedLabel = ''matrixorigin.io/outdated''"
definition ClaimInstanceIDLabel :: string where
  "ClaimInstanceIDLabel = ''claim.matrixorigin.io/instance-id''"
definition InstanceLabelKey :: string where
  "InstanceLabelKey = ''matrixorigin.io/instance''"
definition ComponentLabelKey :: string where
  "ComponentLabelKey = ''matrixorigin.io/component''"
definition CNUUIDLabelKey :: string where
  "CNUUIDLabelKey = ''matrixone.cloud/cn-uuid''"
definition LabelManagedBy :: string where
  "LabelManagedBy = ''matrixorigin.io/managed-by''"
definition LabelOwnerUID :: string where
  "LabelOwnerUID = ''matrixorigin.io/owner-uid''"
definition StoreDrainingStartAnno :: string where
  "StoreDrainingStartAnno = ''matrixorigin.io/store-draining-start''"
definition StoreConnectionAnno :: string where
  "StoreConnectionAnno = ''matrixorigin.io/connections''"
definition StoreScoreAnno :: string where
  "StoreScoreAnno = ''matrixorigin.io/score''"
definition StoreCordonAnno :: string where
  "StoreCordonAnno = ''matrixorigin.io/store-cordon''"
definition ReclaimedAt :: string where
  "ReclaimedAt = ''matrixorigin.io/reclaimed-at''"
definition CNStateAnno :: string where
  "CNStateAnno = ''matrixorigin.io/cn-state''"
definition SemanticVersionAnno :: string where
  "SemanticVersionAnno = ''matrixorigin.io/semantic-version''"
definition DeletionCostAnno :: string where
  "DeletionCostAnno = ''controller.kubernetes.io/pod-deletion-cost''"
definition CNLabelAnnotation :: string where
  "CNLabelAnnotation = ''matrixone.cloud/cn-label''"
definition LockRestartSet :: string where
  "LockRestartSet = ''matrixorigin.io/lock-restart''"
definition diagnosDrainingAnno :: string where
  "diagnosDrainingAnno = ''matrixorigin.io/diagnos-draining''"
definition CNDrainingFinalizer :: string where
  "CNDrainingFinalizer = ''matrixorigin.io/cn-draining''"
definition CNStoreReadiness :: string where
  "CNStoreReadiness = ''matrixorigin.io/cn-store''"

text \<open>Keys and values of OpenKruise the sources name by its constants.\<close>

definition LifecycleStateKey :: string where
  "LifecycleStateKey = ''lifecycle.apps.kruise.io/state''"
definition SpecifiedDeleteKey :: string where
  "SpecifiedDeleteKey = ''apps.kruise.io/specified-delete''"
definition LifecycleStateNormal :: string where
  "LifecycleStateNormal = ''Normal''"
definition LifecycleStatePreparingUpdate :: string where
  "LifecycleStatePreparingUpdate = ''PreparingUpdate''"
definition LifecycleStatePreparingDelete :: string where
  "LifecycleStatePreparingDelete = ''PreparingDelete''"

definition CNPodPhaseBound :: string where
  "CNPodPhaseBound = ''Bound''"
definition CNPodPhaseIdle :: string where
  "CNPodPhaseIdle = ''Idle''"
definition CNPodPhaseDraining :: string where
  "CNPodPhaseDraining = ''Draining''"
definition CNPodPhaseUnknown :: string where
  "CNPodPhaseUnknown = ''Unknown''"
definition CNPodPhaseTerminating :: string where
  "CNPodPhaseTerminating = ''Terminating''"
definition PodManagementPolicyPooling :: string where
  "PodManagementPolicyPooling = ''Pooling''"

lemmas label_key_defs =
  CNPodPhaseLabel_def PodClaimedByLabel_def PoolNameLabel_def DirectPodLabel_def
  PodOwnerNameLabel_def ClaimSetNameLabel_def PodLastOwnerLabel_def PodOutdatedLabel_def
  ClaimInstanceIDLabel_def InstanceLabelKey_def ComponentLabelKey_def CNUUIDLabelKey_def
  LabelManagedBy_def LabelOwnerUID_def LifecycleStateKey_def SpecifiedDeleteKey_def

lemmas anno_key_defs =
  PodManagementPolicyAnno_def DeleteOnReclaimAnno_def StoreDrainingStartAnno_def
  StoreConnectionAnno_def StoreScoreAnno_def StoreCordonAnno_def ReclaimedAt_def
  CNStateAnno_def SemanticVersionAnno_def DeletionCostAnno_def CNLabelAnnotation_def
  LockRestartSet_def diagnosDrainingAnno_def

lemmas pod_phase_defs =
  CNPodPhaseBound_def CNPodPhaseIdle_def CNPodPhaseDraining_def CNPodPhaseUnknown_def
  CNPodPhaseTerminating_def

lemma label_keys_distinct:
  "distinct [CNPodPhaseLabel, PodClaimedByLabel, PoolNameLabel, DirectPodLabel, PodOwnerNameLabel,
     ClaimSetNameLabel, PodLastOwnerLabel, PodOutdatedLabel, ClaimInstanceIDLabel,
     InstanceLabelKey, ComponentLabelKey, CNUUIDLabelKey, LabelManagedBy, LabelOwnerUID,
     LifecycleStateKey, SpecifiedDeleteKey]"
  by (simp add: label_key_defs)

lemma label_keys_distinct_rev:
  "distinct [SpecifiedDeleteKey, LifecycleStateKey, LabelOwnerUID, LabelManagedBy, CNUUIDLabelKey,
     ComponentLabelKey, InstanceLabelKey, ClaimInstanceIDLabel, PodOutdatedLabel,
     PodLastOwnerLabel, ClaimSetNameLabel, PodOwnerNameLabel, DirectPodLabel,
     PoolNameLabel, PodClaimedByLabel, CNPodPhaseLabel]"
  by (simp add: label_key_defs)

lemmas label_keys_neq [simp] =
  label_keys_distinct [unfolded distinct.simps list.set insert_iff de_Morgan_disj empty_iff, simplified]
  label_keys_distinct_rev [unfolded distinct.simps list.set insert_iff de_Morgan_disj empty_iff, simplified]

lemma anno_keys_distinct:
  "distinct [PodManagementPolicyAnno, DeleteOnReclaimAnno, StoreDrainingStartAnno,
     StoreConnectionAnno, StoreScoreAnno, StoreCordonAnno, ReclaimedAt, CNStateAnno,
     SemanticVersionAnno, DeletionCostAnno, CNLabelAnnotation, LockRestartSet,
     diagnosDrainingAnno]"
  by (simp add: anno_key_defs)

lemma anno_keys_distinct_rev:
  "distinct [diagnosDrainingAnno, LockRestartSet, CNLabelAnnotation, DeletionCostAnno,
     SemanticVersionAnno, CNStateAnno, ReclaimedAt, StoreCordonAnno, StoreScoreAnno,
     StoreConnectionAnno, StoreDrainingStartAnno, DeleteOnReclaimAnno,
     PodManagementPolicyAnno]"
  by (simp add: anno_key_defs)

lemmas anno_keys_neq [simp] =
  anno_keys_distinct [unfolded distinct.simps list.set insert_iff de_Morgan_disj empty_iff, simplified]
  anno_keys_distinct_rev [unfolded distinct.simps list.set insert_iff de_Morgan_disj empty_iff, simplified]

lemma pod_phases_distinct:
  "distinct [CNPodPhaseBound, CNPodPhaseIdle, CNPodPhaseDraining, CNPodPhaseUnknown,
     CNPodPhaseTerminating]"
  by (simp add: pod_phase_defs)

lemma pod_phases_distinct_rev:
  "distinct [CNPodPhaseTerminating, CNPodPhaseUnknown, CNPodPhaseDraining, CNPodPhaseIdle,
     CNPodPhaseBound]"
  by (simp add: pod_phase_defs)

lemmas pod_phases_neq [simp] =
  pod_phases_distinct [unfolded distinct.simps list.set insert_iff de_Morgan_disj empty_iff, simplified]
  pod_phases_distinct_rev [unfolded distinct.simps list.set insert_iff de_Morgan_disj empty_iff, simplified]

lemma pod_phases_nonempty [simp]:
  "CNPodPhaseBound \<noteq> []" "CNPodPhaseIdle \<noteq> []" "CNPodPhaseDraining \<noteq> []"
  "CNPodPhaseUnknown \<noteq> []" "CNPodPhaseTerminating \<noteq> []"
  by (simp_all add: pod_phase_defs)

section \<open>Selectors and list options\<close>

text \<open>\<^verbatim>\<open>metav1.LabelSelector\<close>, and a \<^verbatim>\<open>labels.Selector\<close> as the sources build it: the
  selector it was made from and the requirements added to it. What a selector matches is the
  API's business (\<open>list\<close> and \<open>selectorMatches\<close> of \<open>env\<close>).\<close>

record label_selector =
  matchLabels :: "(string \<times> string) list"
  matchExpressions :: "(string \<times> string \<times> string list) list"

datatype sel_op = SelEquals | SelDoesNotExist

datatype requirement = Requirement (rkey: string) (rop: sel_op) (rvals: "string list")

datatype selector = Selector (selBase: "label_selector option") (selAdded: "requirement list")

fun selAdd :: "selector \<Rightarrow> requirement \<Rightarrow> selector" where
  "selAdd (Selector b rs) r = Selector b (rs @ [r])"

datatype list_opt =
    MatchingLabels "(string \<times> string) list"
  | MatchingLabelsSelector selector
  | MatchingFields string string

section \<open>Pods\<close>

datatype pod_phase =
    PodPending | PodRunning | PodSucceeded | PodFailed | PodUnknown | PodPhaseOther string

datatype condition_status = ConditionTrue | ConditionFalse | ConditionUnknown

record pod_condition =
  cond_type :: string
  cond_status :: condition_status
  cond_message :: string
  cond_lastTransition :: time

record container_status =
  ct_name :: string
  ct_running :: "time option"

text \<open>\<open>pod_rv\<close> is the resource version the API server gave the object; the controllers never
  look at it, the server compares it on \<open>Update\<close>.\<close>

record pod =
  pod_name :: string
  pod_ns :: string
  pod_rv :: nat
  pod_labels :: gomap
  pod_annos :: gomap
  pod_finalizers :: "string list"
  pod_deleted :: "time option"
  pod_created :: time
  pod_nodeName :: string
  pod_subdomain :: string
  pod_status_phase :: pod_phase
  pod_conditions :: "pod_condition list"
  pod_containers :: "container_status list"

definition podKey :: "pod \<Rightarrow> string \<times> string" where
  "podKey p = (pod_ns p, pod_name p)"

text \<open>\<open>pod.Labels[k]\<close>.\<close>

abbreviation podLabel :: "pod \<Rightarrow> string \<Rightarrow> string" where
  "podLabel p k \<equiv> gstr (pod_labels p) k"

section \<open>CNClaim\<close>

datatype claim_phase =
    CNClaimPhaseNone
  | CNClaimPhasePending
  | CNClaimPhaseBound
  | CNClaimPhaseLost
  | CNClaimPhaseOutdated
  | CNClaimPhaseOther string

record cn_label =
  lbl_key :: string
  lbl_values :: "string list"

datatype work_state = WorkState_Unknown | WorkState_Working | WorkState_Draining | WorkState_Drained

record claim_pod_ref =
  ref_podName :: string
  ref_nodeName :: string

record cn_store_status =
  st_serviceID :: string
  st_lockServiceAddress :: string
  st_pipelineServiceAddress :: string
  st_sqlAddress :: string
  st_queryAddress :: string
  st_workState :: work_state
  st_labels :: "cn_label list"
  st_podName :: string
  st_boundTime :: "time option"

record workload =
  wl_connections :: int
  wl_pipelines :: int
  wl_replicas :: int

record cnclaim_spec =
  cs_podName :: string
  cs_nodeName :: string
  cs_sourcePod :: "claim_pod_ref option"
  cs_selector :: "label_selector option"
  cs_cnLabels :: "cn_label list"
  cs_ownerName :: "string option"
  cs_additionalPodLabels :: gomap
  cs_poolName :: string

record cnclaim_status =
  ct_phase :: claim_phase
  ct_store :: cn_store_status
  ct_boundTime :: "time option"
  ct_migrate :: "workload option"

record cnclaim =
  cl_name :: string
  cl_ns :: string
  cl_rv :: nat
  cl_labels :: gomap
  cl_annos :: gomap
  cl_deleted :: "time option"
  cl_created :: time
  cl_spec :: cnclaim_spec
  cl_status :: cnclaim_status

abbreviation cl_podName :: "cnclaim \<Rightarrow> string" where
  "cl_podName c \<equiv> cs_podName (cl_spec c)"

abbreviation cl_phase :: "cnclaim \<Rightarrow> claim_phase" where
  "cl_phase c \<equiv> ct_phase (cl_status c)"

definition setPhase :: "claim_phase \<Rightarrow> cnclaim \<Rightarrow> cnclaim" where
  "setPhase ph c = c\<lparr>cl_status := (cl_status c)\<lparr>ct_phase := ph\<rparr>\<rparr>"

definition claimIsReady :: "cnclaim \<Rightarrow> bool" where
  "claimIsReady c \<longleftrightarrow> cl_phase c = CNClaimPhaseBound \<or> cl_phase c = CNClaimPhaseOutdated"

definition claimIsUpdated :: "cnclaim \<Rightarrow> bool" where
  "claimIsUpdated c \<longleftrightarrow> cl_phase c = CNClaimPhaseBound"

section \<open>CNClaimSet\<close>

text \<open>\<^verbatim>\<open>EmbeddedMetadata\<close> and \<^verbatim>\<open>CNClaimTemplate\<close>.\<close>

record cnclaim_template =
  tp_labels :: gomap
  tp_annos :: gomap
  tp_spec :: cnclaim_spec

record cnclaimset =
  set_name :: string
  set_ns :: string
  set_replicas :: int
  set_template :: cnclaim_template
  set_selector :: "label_selector option"
  set_statusReplicas :: int
  set_statusReadyReplicas :: int
  set_statusClaims :: "cnclaim_status list"
  set_statusLabelSelector :: selector

text \<open>\<^verbatim>\<open>ClaimAndPod\<close>: a claim and the pod it is bound to, if there is one.\<close>

record claim_and_pod =
  cp_claim :: cnclaim
  cp_pod :: "pod option"

section \<open>CNSet and CNPool\<close>

record overlay =
  ov_podLabels :: gomap
  ov_podAnnos :: gomap
  ov_other :: string

record scaling_config =
  sc_storeDrainEnabled :: "bool option"
  sc_storeDrainTimeout :: "int option"
  sc_minDelaySeconds :: "int option"

definition GetStoreDrainEnabled :: "scaling_config \<Rightarrow> bool" where
  "GetStoreDrainEnabled s = (case sc_storeDrainEnabled s of None \<Rightarrow> False | Some b \<Rightarrow> b)"

definition GetStoreDrainTimeout :: "scaling_config \<Rightarrow> int" where
  "GetStoreDrainTimeout s = (case sc_storeDrainTimeout s of None \<Rightarrow> 0 | Some d \<Rightarrow> d)"

definition defaultMinDelaySeconds :: int where
  "defaultMinDelaySeconds = 15"

definition GetMinDelayDuration :: "scaling_config \<Rightarrow> int" where
  "GetMinDelayDuration s = (case sc_minDelaySeconds s of
      None \<Rightarrow> defaultMinDelaySeconds * second
    | Some n \<Rightarrow> n * second)"

text \<open>\<^verbatim>\<open>CNSetSpec\<close>. The parts of the pod set and of the CN configuration that no controller
  modelled here looks into (resources, volumes, sidecars) are the serialised fields
  \<open>sp_podSetOther\<close> and \<open>sp_cnConfig\<close>; a \<^verbatim>\<open>TomlConfig\<close> serialises as a string.\<close>

record cnset_spec =
  sp_image :: string
  sp_config :: "string option"
  sp_replicas :: int
  sp_overlay :: "overlay option"
  sp_semanticVersion :: "string option"
  sp_operatorVersion :: "string option"
  sp_podSetOther :: string
  sp_cnConfig :: string
  sp_serviceType :: string
  sp_serviceAnnotations :: gomap
  sp_nodePort :: "int option"
  sp_labels :: "cn_label list"
  sp_scalingConfig :: scaling_config
  sp_maxSurge :: "int option"
  sp_maxUnavailable :: "int option"
  sp_terminationPolicy :: "string option"
  sp_podManagementPolicy :: "string option"
  sp_podsToDelete :: "string list"
  sp_pauseUpdate :: bool
  sp_reusePVC :: "bool option"

definition GetReusePVC :: "cnset_spec \<Rightarrow> bool" where
  "GetReusePVC s = (case sp_reusePVC s of None \<Rightarrow> False | Some b \<Rightarrow> b)"

definition CNSetTerminationPolicyDelete :: string where
  "CNSetTerminationPolicyDelete = ''Delete''"

definition CNSetTerminationPolicyDrain :: string where
  "CNSetTerminationPolicyDrain = ''Drain''"

definition GetTerminationPolicy :: "cnset_spec \<Rightarrow> string" where
  "GetTerminationPolicy s = (case sp_terminationPolicy s of
      None \<Rightarrow> CNSetTerminationPolicyDelete | Some p \<Rightarrow> p)"

text \<open>References to other objects: namespace and name.\<close>

type_synonym obj_key = "string \<times> string"

record cnset =
  cn_name :: string
  cn_ns :: string
  cn_rv :: nat
  cn_labels :: gomap
  cn_deleted :: "time option"
  cn_spec :: cnset_spec
  cn_depLogSet :: "obj_key option"
  cn_depDNSet :: "obj_key option"
  cn_statusReplicas :: int
  cn_statusLabelSelector :: string

record cnpool =
  pl_name :: string
  pl_ns :: string
  pl_kind :: string
  pl_uid :: string
  pl_template :: cnset_spec
  pl_podLabels :: gomap
  pl_depLogSet :: "obj_key option"
  pl_depDNSet :: "obj_key option"
  pl_maxIdle :: int
  pl_maxPods :: "int option"

definition maxInt32 :: int where
  "maxInt32 = 2147483647"

definition GetMaxPods :: "cnpool \<Rightarrow> int" where
  "GetMaxPods p = (case pl_maxPods p of None \<Rightarrow> maxInt32 | Some n \<Rightarrow> n)"

record logset_ref =
  lr_name :: string
  lr_ns :: string
  lr_uid :: string

section \<open>HAKeeper and the query service\<close>

text \<open>Store labels: the Go map \<^verbatim>\<open>map[string]metadata.LabelList\<close> as an association list whose
  keys are distinct, in the (unspecified) order an iteration would visit them.\<close>

type_synonym store_labels = "(string \<times> string list) list"

record cn_service =
  sv_serviceID :: string
  sv_pipelineServiceAddress :: string
  sv_sqlAddress :: string
  sv_lockServiceAddress :: string
  sv_queryAddress :: string
  sv_workState :: work_state
  sv_labels :: "store_labels option"

record cn_state_label =
  sl_uuid :: string
  sl_state :: work_state
  sl_labels :: "store_labels option"

record session =
  ss_account :: string
  ss_fromProxy :: bool

text \<open>\<^verbatim>\<open>common.StoreScore\<close>.\<close>

record store_score =
  sc_sessionCount :: int
  sc_pipelineCount :: int
  sc_replicaCount :: int
  sc_sessionObserved :: bool
  sc_pipelineObserved :: bool
  sc_replicaObserved :: bool
  sc_startedTime :: "time option"

text \<open>\<^verbatim>\<open>semver.Version\<close>, the fields the sources compare.\<close>

record semver =
  Major :: nat
  Minor :: nat
  Patch :: nat

section \<open>The outside world\<close>

text \<open>The typed client of one kind of object. Every call may advance the world. \<open>api_patch o o'\<close>
  sends the difference of the mutated \<open>o'\<close> to the \<open>o\<close> read before; a call that
  returns an object returns the server's answer, which refreshes the caller's copy.\<close>

record ('o, 'w) kind_api =
  api_get :: "obj_key \<Rightarrow> 'w \<Rightarrow> (err + 'o) \<times> 'w"
  api_list :: "string \<Rightarrow> list_opt \<Rightarrow> 'w \<Rightarrow> (err + 'o list) \<times> 'w"
  api_create :: "'o \<Rightarrow> 'w \<Rightarrow> (err + 'o) \<times> 'w"
  api_update :: "'o \<Rightarrow> 'w \<Rightarrow> (err + 'o) \<times> 'w"
  api_patch :: "'o \<Rightarrow> 'o \<Rightarrow> 'w \<Rightarrow> (err + 'o) \<times> 'w"
  api_updateStatus :: "'o \<Rightarrow> 'w \<Rightarrow> (err + 'o) \<times> 'w"
  api_patchStatus :: "'o \<Rightarrow> 'o \<Rightarrow> 'w \<Rightarrow> (err + 'o) \<times> 'w"
  api_delete :: "'o \<Rightarrow> 'w \<Rightarrow> (err + unit) \<times> 'w"

text \<open>The clients of one MatrixOne cluster (\<^verbatim>\<open>mocli.ClientSet\<close>, named by a handle) and the
  query client.\<close>

record 'w mo_api =
  mo_getClient :: "logset_ref \<Rightarrow> 'w \<Rightarrow> (err + string) \<times> 'w"
  mo_patchCNStore :: "string \<Rightarrow> cn_state_label \<Rightarrow> 'w \<Rightarrow> (err + unit) \<times> 'w"
  mo_updateCNLabel :: "string \<Rightarrow> string \<Rightarrow> store_labels option \<Rightarrow> 'w \<Rightarrow> (err + unit) \<times> 'w"
  mo_deleteCNStore :: "string \<Rightarrow> string \<Rightarrow> 'w \<Rightarrow> (err + unit) \<times> 'w"
  mo_getCN :: "string \<Rightarrow> string \<Rightarrow> 'w \<Rightarrow> cn_service option \<times> 'w"
  mo_canRestartCN :: "string \<Rightarrow> string \<Rightarrow> 'w \<Rightarrow> (err + bool) \<times> 'w"
  mo_setRestartCN :: "string \<Rightarrow> string \<Rightarrow> 'w \<Rightarrow> (err + bool) \<times> 'w"
  mo_remainTxnCount :: "string \<Rightarrow> string \<Rightarrow> 'w \<Rightarrow> (err + int) \<times> 'w"
  q_showProcessList :: "string \<Rightarrow> 'w \<Rightarrow> (err + session list) \<times> 'w"
  q_getPipelineInfo :: "string \<Rightarrow> 'w \<Rightarrow> (err + int) \<times> 'w"
  q_getReplicaCount :: "string \<Rightarrow> 'w \<Rightarrow> (err + int) \<times> 'w"

text \<open>\<^verbatim>\<open>recon.CreateOwnedOrUpdate(ctx, obj, mutate)\<close> is two calls around \<open>mutate\<close>: \<open>e_ownedBegin obj\<close>
  returns the object \<open>mutate\<close> is applied to (the stored one, or \<open>obj\<close> if there is none), and
  \<open>e_ownedCommit old new\<close> creates or updates it and returns the server's answer.\<close>

record 'w env =
  e_pods :: "(pod, 'w) kind_api"
  e_claims :: "(cnclaim, 'w) kind_api"
  e_claimsNoCache :: "(cnclaim, 'w) kind_api"
  e_pools :: "(cnpool, 'w) kind_api"
  e_cnsets :: "(cnset, 'w) kind_api"
  e_ownedBegin :: "cnset \<Rightarrow> 'w \<Rightarrow> (err + cnset) \<times> 'w"
  e_ownedCommit :: "cnset \<Rightarrow> cnset \<Rightarrow> 'w \<Rightarrow> (err + cnset) \<times> 'w"
  e_deleteAllCNSets :: "string \<Rightarrow> list_opt \<Rightarrow> 'w \<Rightarrow> (err + unit) \<times> 'w"
  e_logsets :: "(logset_ref, 'w) kind_api"
  e_getOther :: "string \<Rightarrow> obj_key \<Rightarrow> 'w \<Rightarrow> (err + unit) \<times> 'w"
  e_mo :: "'w mo_api"
  e_now :: "'w \<Rightarrow> time \<times> 'w"
  e_randString :: "nat \<Rightarrow> 'w \<Rightarrow> string \<times> 'w"
  \<comment> \<open>pure functions of other libraries\<close>
  e_asSelector :: "label_selector option \<Rightarrow> err option"
  e_newRequirement :: "requirement \<Rightarrow> err option"
  e_selectorMatches :: "selector \<Rightarrow> gomap \<Rightarrow> bool"
  e_parseLabelSelector :: "string \<Rightarrow> err + (string \<times> string) list"
  e_isPodReady :: "pod \<Rightarrow> bool"
  e_isReady :: "logset_ref \<Rightarrow> bool"
  e_sha256hex :: "string \<Rightarrow> string"
  e_hashSpec :: "cnset_spec \<Rightarrow> err + string"
  e_parseVersion :: "string \<Rightarrow> semver option"
  e_parseTolerant :: "string \<Rightarrow> semver option"
  e_formatTime :: "time \<Rightarrow> string"
  e_parseTime :: "string \<Rightarrow> err + time"
  e_marshalScore :: "store_score \<Rightarrow> err + string"
  e_unmarshalScore :: "string \<Rightarrow> err + store_score"
  e_unmarshalLabels :: "string \<Rightarrow> err + cn_label list"
  e_sortPods :: "(pod \<Rightarrow> pod \<Rightarrow> int) \<Rightarrow> pod list \<Rightarrow> pod list"
  e_sortClaims :: "(claim_and_pod \<Rightarrow> claim_and_pod \<Rightarrow> int) \<Rightarrow> claim_and_pod list \<Rightarrow> claim_and_pod list"

section \<open>The reconcile context\<close>

text \<open>\<^verbatim>\<open>recon.Context\<close>: the object under reconciliation, which the handlers mutate in place,
  and the world the client reaches.\<close>

record ('o, 'w) ctx =
  Obj :: 'o
  world :: 'w

definition callW :: "('w \<Rightarrow> (err + 'a) \<times> 'w) \<Rightarrow> (('o, 'w) ctx, 'a) rm" where
  "callW f s = (case f (world s) of (r, w) \<Rightarrow> (r, s\<lparr>world := w\<rparr>))"

definition readW :: "('w \<Rightarrow> 'a \<times> 'w) \<Rightarrow> (('o, 'w) ctx, 'a) rm" where
  "readW f s = (case f (world s) of (x, w) \<Rightarrow> (Inr x, s\<lparr>world := w\<rparr>))"

definition getObj :: "(('o, 'w) ctx, 'o) rm" where
  "getObj s = (Inr (Obj s), s)"

definition modObj :: "('o \<Rightarrow> 'o) \<Rightarrow> (('o, 'w) ctx, unit) rm" where
  "modObj f s = (Inr (), s\<lparr>Obj := f (Obj s)\<rparr>)"

text \<open>\<open>ctx.Patch(ctx.Obj, mutate)\<close>: the object is mutated in place, the difference is sent, the
  answer refreshes the object. \<open>ctx.Update(ctx.Obj)\<close> sends the object as it is.\<close>

definition patchObj :: "('o \<Rightarrow> 'o \<Rightarrow> 'w \<Rightarrow> (err + 'o) \<times> 'w) \<Rightarrow> ('o \<Rightarrow> 'o) \<Rightarrow> (('o, 'w) ctx, unit) rm" where
  "patchObj send f s = (case send (Obj s) (f (Obj s)) (world s) of
      (Inl e, w) \<Rightarrow> (Inl e, s\<lparr>Obj := f (Obj s), world := w\<rparr>)
    | (Inr o', w) \<Rightarrow> (Inr (), s\<lparr>Obj := o', world := w\<rparr>))"

definition updateObj :: "('o \<Rightarrow> 'w \<Rightarrow> (err + 'o) \<times> 'w) \<Rightarrow> (('o, 'w) ctx, unit) rm" where
  "updateObj send s = (case send (Obj s) (world s) of
      (Inl e, w) \<Rightarrow> (Inl e, s\<lparr>world := w\<rparr>)
    | (Inr o', w) \<Rightarrow> (Inr (), s\<lparr>Obj := o', world := w\<rparr>))"

text \<open>A write to a nil map: \<open>panic: assignment to entry in nil map\<close>.\<close>

definition nilMapPanic :: err where
  "nilMapPanic = Err Panic ''assignment to entry in nil map''"

definition orPanic :: "'a option \<Rightarrow> ('s, 'a) rm" where
  "orPanic x = (case x of None \<Rightarrow> throw nilMapPanic | Some y \<Rightarrow> ret y)"

definition errorf :: "string \<Rightarrow> ('s, 'a) rm" where
  "errorf msg = throw (Err Plain msg)"

definition ErrReSync :: "string \<Rightarrow> int \<Rightarrow> ('s, 'a) rm" where
  "ErrReSync msg d = throw (Err (ReSync d) msg)"

lemmas ctx_simps [monad_simps] =
  callW_def readW_def getObj_def modObj_def patchObj_def updateObj_def orPanic_def errorf_def ErrReSync_def

lemma isPanic_nilMapPanic [simp]: "isPanic nilMapPanic"
  by (simp add: nilMapPanic_def isPanic_def)

end
