(* ===== verification/Semver.thy ===== *)
theory Semver
  imports Kube_Objects
begin

text \<open>
  Version gates: \<^verbatim>\<open>api/core/v1alpha1/semver.go\<close> and \<^verbatim>\<open>operator_version.go\<close>.
  Which MatrixOne feature a version has (\<open>HasMOFeature\<close>), which behaviour an operator
  version selects (\<open>GateEnabled\<close>). The lemmas say that a gate, once open on a major
  branch, stays open on it, and give each gate's exact region.
\<close>

section \<open>Definitions\<close>

datatype mo_feature =
    MOFeaturePipelineInfo
  | MOFeatureSessionSource
  | MOFeatureLockMigration
  | MOFeatureDiscoveryFixed
  | MOFeatureShardingMigration

abbreviation mkVersion :: "nat \<Rightarrow> nat \<Rightarrow> nat \<Rightarrow> semver" where
  "mkVersion a b c \<equiv> \<lparr>Major = a, Minor = b, Patch = c\<rparr>"

fun featureVersions :: "mo_feature \<Rightarrow> semver list" where
  "featureVersions MOFeaturePipelineInfo =
     [mkVersion 1 1 2, mkVersion 1 2 0, mkVersion 2 0 0, mkVersion 3 0 0, mkVersion 4 0 0]"
| "featureVersions MOFeatureSessionSource = [mkVersion 1 1 2, mkVersion 1 2 0, mkVersion 2 0 0]"
| "featureVersions MOFeatureLockMigration = [mkVersion 1 2 0, mkVersion 2 0 0]"
| "featureVersions MOFeatureShardingMigration = [mkVersion 2 0 0]"
| "featureVersions MOFeatureDiscoveryFixed = []"

fun featureGlobalMinVersions :: "mo_feature \<Rightarrow> semver option" where
  "featureGlobalMinVersions MOFeatureDiscoveryFixed = Some (mkVersion 2 0 0)"
| "featureGlobalMinVersions _ = None"

definition MinimalVersion :: semver where
  "MinimalVersion = mkVersion 0 0 0"

definition versionPrecedes :: "semver \<Rightarrow> semver \<Rightarrow> bool" where
  "versionPrecedes baseVersion current =
     (if Major baseVersion \<noteq> Major current then False
      else if Patch baseVersion = 0 \<and> Minor baseVersion \<le> Minor current then True
      else Minor baseVersion = Minor current \<and> Patch baseVersion \<le> Patch current)"

definition versionPrecedesCrossMajor :: "semver \<Rightarrow> semver \<Rightarrow> bool" where
  "versionPrecedesCrossMajor baseVersion current =
     (if Major current \<noteq> Major baseVersion then Major baseVersion < Major current
      else if Patch baseVersion = 0 \<and> Minor baseVersion \<le> Minor current then True
      else Minor baseVersion = Minor current \<and> Patch baseVersion \<le> Patch current)"

definition HasMOFeature :: "semver \<Rightarrow> mo_feature \<Rightarrow> bool" where
  "HasMOFeature v f =
     (case featureGlobalMinVersions f of
        Some minVer \<Rightarrow> if versionPrecedesCrossMajor minVer v then True
                       else (\<exists>minVersion \<in> set (featureVersions f). versionPrecedes minVersion v)
      | None \<Rightarrow> (\<exists>minVersion \<in> set (featureVersions f). versionPrecedes minVersion v))"

datatype gate = GateInplaceConfigmapUpdate | GateInplacePoolRollingUpdate

fun gateVersions :: "gate \<Rightarrow> semver list" where
  "gateVersions GateInplaceConfigmapUpdate = [mkVersion 1 3 0]"
| "gateVersions GateInplacePoolRollingUpdate = [mkVersion 1 3 0]"

definition GateEnabled :: "gate \<Rightarrow> semver \<Rightarrow> bool" where
  "GateEnabled g v = (\<exists>minVersion \<in> set (gateVersions g). versionPrecedes minVersion v)"

definition OpVersion1_2_0 :: semver where
  "OpVersion1_2_0 = mkVersion 1 2 0"

definition OpVersion1_3_0 :: semver where
  "OpVersion1_3_0 = mkVersion 1 3 0"

definition LatestOpVersion :: semver where
  "LatestOpVersion = OpVersion1_3_0"

definition FirstOpVersion :: semver where
  "FirstOpVersion = OpVersion1_2_0"

text \<open>\<^verbatim>\<open>PodSet.GetOperatorVersion\<close> and \<^verbatim>\<open>common.GetSemanticVersion\<close>; the parsers are
  those of the semver package.\<close>

definition GetOperatorVersion :: "'w env \<Rightarrow> cnset_spec \<Rightarrow> semver" where
  "GetOperatorVersion E p = (case sp_operatorVersion p of
      None \<Rightarrow> FirstOpVersion
    | Some s \<Rightarrow> (case e_parseTolerant E s of None \<Rightarrow> FirstOpVersion | Some v \<Rightarrow> v))"

definition GetSemanticVersion :: "'w env \<Rightarrow> gomap \<Rightarrow> semver" where
  "GetSemanticVersion E annos = (case gget annos SemanticVersionAnno of
      None \<Rightarrow> MinimalVersion
    | Some s \<Rightarrow> (case e_parseVersion E s of None \<Rightarrow> MinimalVersion | Some v \<Rightarrow> v))"

section \<open>Version order\<close>

text \<open>Later on the same major branch.\<close>

definition laterOnBranch :: "semver \<Rightarrow> semver \<Rightarrow> bool" where
  "laterOnBranch v v' \<longleftrightarrow> Major v' = Major v \<and>
     (Minor v < Minor v' \<or> Minor v = Minor v' \<and> Patch v \<le> Patch v')"

definition laterVersion :: "semver \<Rightarrow> semver \<Rightarrow> bool" where
  "laterVersion v v' \<longleftrightarrow> Major v < Major v' \<or> laterOnBranch v v'"

text \<open>What a gate promises its clients: an order on versions along which it never closes.\<close>

locale version_gate =
  fixes enabled :: "semver \<Rightarrow> bool" and later :: "semver \<Rightarrow> semver \<Rightarrow> bool"
  assumes stays_open: "enabled v \<Longrightarrow> later v v' \<Longrightarrow> enabled v'"
begin

text \<open>An upgrade path that ends closed was closed all the way.\<close>

lemma closed_before: "sorted_wrt later (vs @ [v]) \<Longrightarrow> \<not> enabled v \<Longrightarrow> u \<in> set vs \<Longrightarrow> \<not> enabled u"
  using stays_open by (auto simp: sorted_wrt_append)

end

lemma versionPrecedes_iff:
  "versionPrecedes b v \<longleftrightarrow> Major b = Major v \<and>
     (Patch b = 0 \<and> Minor b \<le> Minor v \<or> Minor b = Minor v \<and> Patch b \<le> Patch v)"
  by (auto simp: versionPrecedes_def)

lemma PipelineInfo_region:
  "HasMOFeature v MOFeaturePipelineInfo \<longleftrightarrow>
     Major v \<in> {2, 3, 4} \<or> Major v = 1 \<and> (2 \<le> Minor v \<or> Minor v = 1 \<and> 2 \<le> Patch v)"
  by (auto simp: HasMOFeature_def versionPrecedes_iff)

lemma SessionSource_region:
  "HasMOFeature v MOFeatureSessionSource \<longleftrightarrow>
     Major v = 2 \<or> Major v = 1 \<and> (2 \<le> Minor v \<or> Minor v = 1 \<and> 2 \<le> Patch v)"
  by (auto simp: HasMOFeature_def versionPrecedes_iff)

lemma LockMigration_region:
  "HasMOFeature v MOFeatureLockMigration \<longleftrightarrow> Major v = 2 \<or> Major v = 1 \<and> 2 \<le> Minor v"
  by (auto simp: HasMOFeature_def versionPrecedes_iff)

lemma ShardingMigration_region: "HasMOFeature v MOFeatureShardingMigration \<longleftrightarrow> Major v = 2"
  by (auto simp: HasMOFeature_def versionPrecedes_iff)

lemma DiscoveryFixed_region: "HasMOFeature v MOFeatureDiscoveryFixed \<longleftrightarrow> 2 \<le> Major v"
  by (auto simp: HasMOFeature_def versionPrecedesCrossMajor_def)

lemmas feature_regions =
  PipelineInfo_region SessionSource_region LockMigration_region ShardingMigration_region
  DiscoveryFixed_region

lemma GateEnabled_region: "GateEnabled g v \<longleftrightarrow> Major v = 1 \<and> 3 \<le> Minor v"
  by (cases g) (auto simp: GateEnabled_def versionPrecedes_iff)

interpretation feature_gate: version_gate "\<lambda>v. HasMOFeature v f" laterOnBranch for f
  by unfold_locales (cases f; auto simp: feature_regions laterOnBranch_def)

interpretation discovery_gate: version_gate "\<lambda>v. HasMOFeature v MOFeatureDiscoveryFixed" laterVersion
  by unfold_locales (auto simp: feature_regions laterVersion_def laterOnBranch_def)

interpretation operator_gate: version_gate "GateEnabled g" laterOnBranch for g
  by unfold_locales (auto simp: GateEnabled_region laterOnBranch_def)

end
