(* ===== verification/CN_Common.thy ===== *)
theory CN_Common
  imports Semver "HOL-Library.AList"
begin

text \<open>
  What the CN controllers share: \<^verbatim>\<open>pkg/controllers/common\<close> (\<^verbatim>\<open>cnstore.go\<close>,
  \<^verbatim>\<open>selector.go\<close>) and the pod helpers of \<^verbatim>\<open>api/core/v1alpha1\<close>: selectors, the
  owner of a pod, store labels, the store score that decides whether a CN may be reclaimed.
\<close>

section \<open>Selectors\<close>

definition nowR :: "'w env \<Rightarrow> (('o, 'w) ctx, time) rm" where
  "nowR E = readW (e_now E)"

definition ListPods :: "'w env \<Rightarrow> string \<Rightarrow> list_opt \<Rightarrow> (('o, 'w) ctx, pod list) rm" where
  "ListPods E ns opt = callW (api_list (e_pods E) ns opt)"

definition panicR :: "string \<Rightarrow> err \<Rightarrow> ('s, 'a) rm" where
  "panicR p e = throw (Err Panic (emsg (wrapPrefix p e)))"

definition MustAsSelector :: "'w env \<Rightarrow> label_selector option \<Rightarrow> ('s, selector) rm" where
  "MustAsSelector E ps = (case e_asSelector E ps of
      Some e \<Rightarrow> panicR ''impossible path: LabelSelectorAsSelector failed'' e
    | None \<Rightarrow> ret (Selector ps []))"

definition MustNewRequirement :: "'w env \<Rightarrow> string \<Rightarrow> sel_op \<Rightarrow> string list \<Rightarrow> ('s, requirement) rm" where
  "MustNewRequirement E key op vals = (case e_newRequirement E (Requirement key op vals) of
      Some e \<Rightarrow> panicR ''impossible path: new requirement failed'' e
    | None \<Rightarrow> ret (Requirement key op vals))"

definition MustEqual :: "'w env \<Rightarrow> string \<Rightarrow> string \<Rightarrow> ('s, requirement) rm" where
  "MustEqual E key val = MustNewRequirement E key SelEquals [val]"

definition MustNotHave :: "'w env \<Rightarrow> string \<Rightarrow> ('s, requirement) rm" where
  "MustNotHave E key = MustNewRequirement E key SelDoesNotExist []"

section \<open>Pod helpers\<close>

definition IsPoolingPolicy :: "pod \<Rightarrow> bool" where
  "IsPoolingPolicy p \<longleftrightarrow> gstr (pod_annos p) PodManagementPolicyAnno = PodManagementPolicyPooling"

text \<open>\<^verbatim>\<open>%x\<close> of a \<open>uint16\<close>: lower-case hexadecimal without leading zeros.\<close>

definition hexDigit :: "nat \<Rightarrow> char" where
  "hexDigit n = ''0123456789abcdef'' ! (n mod 16)"

fun hexStr :: "nat \<Rightarrow> string" where
  "hexStr n = (if n < 16 then [hexDigit n] else hexStr (n div 16) @ [hexDigit n])"

declare hexStr.simps [simp del]

text \<open>\<^verbatim>\<open>binary.LittleEndian.Uint16\<close> of two bytes.\<close>

definition leUint16 :: "char \<Rightarrow> char \<Rightarrow> nat" where
  "leUint16 b0 b1 = of_char b0 + 256 * of_char b1"

text \<open>\<^verbatim>\<open>GetCNPodUUID\<close>: the words \<open>s[0..7]\<close> of the first 16 characters of the digest, printed
  in UUID groups. The slice expressions panic on a shorter digest, which SHA-256 never gives.\<close>

definition podUUIDBy :: "(string \<Rightarrow> string) \<Rightarrow> pod \<Rightarrow> string" where
  "podUUIDBy sha256hex p =
     (let addr = pod_name p @ ''.'' @ pod_subdomain p @ ''.'' @ pod_ns p @ ''.svc'' @ [CHR 0x0A];
          h = sha256hex addr;
          s = (\<lambda>i. hexStr (leUint16 (h ! (2 * i)) (h ! (2 * i + 1))))
      in s 0 @ s 1 @ ''-'' @ s 2 @ ''-'' @ s 3 @ ''-'' @ s 4 @ ''-'' @ s 5 @ s 6 @ s 7)"

definition GetCNPodUUID :: "'w env \<Rightarrow> pod \<Rightarrow> string" where
  "GetCNPodUUID E p = podUUIDBy (e_sha256hex E) p"

definition GetReadinessCondition :: "pod \<Rightarrow> string \<Rightarrow> pod_condition option" where
  "GetReadinessCondition p ty = find (\<lambda>c. cond_type c = ty) (pod_conditions p)"

definition NewCNReadinessCondition :: "condition_status \<Rightarrow> string \<Rightarrow> time \<Rightarrow> pod_condition" where
  "NewCNReadinessCondition st msg now =
     \<lparr>cond_type = CNStoreReadiness, cond_status = st, cond_message = msg, cond_lastTransition = now\<rparr>"

definition ContainerMain :: string where
  "ContainerMain = ''main''"

fun startedTimeOf :: "container_status list \<Rightarrow> time option" where
  "startedTimeOf [] = None"
| "startedTimeOf (c # cs) =
     (if ct_name c = ContainerMain
      then (case ct_running c of Some t \<Rightarrow> Some t | None \<Rightarrow> startedTimeOf cs)
      else startedTimeOf cs)"

definition GetCNStartedTime :: "pod \<Rightarrow> time option" where
  "GetCNStartedTime p = startedTimeOf (pod_containers p)"

section \<open>The owner of a pod\<close>

datatype owner = OwnerCNSet cnset | OwnerOther string

definition ResolveOwner :: "'w env \<Rightarrow> pod \<Rightarrow> (('o, 'w) ctx, owner) rm" where
  "ResolveOwner E p =
     (case gget (pod_labels p) ComponentLabelKey of
        None \<Rightarrow> errorf ''cannot resolve logset of non-mo pod''
      | Some kind \<Rightarrow>
          if gstr (pod_labels p) InstanceLabelKey = []
          then errorf ''cannot find isstance name for pod, instance label is empty''
          else (let key = (pod_ns p, gstr (pod_labels p) InstanceLabelKey) in
            if kind = ''CNSet'' then
              bindR (wrapE ''error get owner set'' (callW (api_get (e_cnsets E) key)))
                (\<lambda>cs. ret (OwnerCNSet cs))
            else if kind \<in> {''DNSet'', ''LogSet'', ''ProxySet''} then
              bindR (wrapE ''error get owner set'' (callW (e_getOther E kind key)))
                (\<lambda>_. ret (OwnerOther kind))
            else errorf (''unknown component '' @ kind)))"

definition ResolveCNSet :: "'w env \<Rightarrow> pod \<Rightarrow> (('o, 'w) ctx, cnset) rm" where
  "ResolveCNSet E p =
     bindR (wrapE ''error resolve CNSet'' (ResolveOwner E p)) (\<lambda>ow.
     case ow of OwnerCNSet cs \<Rightarrow> ret cs | OwnerOther _ \<Rightarrow> errorf ''pod is not a CN Pod'')"

definition ResolveLogSet :: "'w env \<Rightarrow> cnset \<Rightarrow> (('o, 'w) ctx, logset_ref) rm" where
  "ResolveLogSet E cs = (case cn_depLogSet cs of
      None \<Rightarrow> errorf ''cannot get logset of CNSet, logset dep is nil''
    | Some key \<Rightarrow> wrapE ''error get logset'' (callW (api_get (e_logsets E) key)))"

section \<open>Store labels\<close>

text \<open>\<^verbatim>\<open>ToStoreLabels\<close>: a fresh map, never nil; a later entry overwrites an earlier one with
  its key.\<close>

definition ToStoreLabels :: "cn_label list \<Rightarrow> store_labels" where
  "ToStoreLabels ls = foldl (\<lambda>lm l. AList.update (lbl_key l) (lbl_values l) lm) [] ls"

lemma distinct_foldl_update:
  "distinct (map fst acc) \<Longrightarrow>
   distinct (map fst (foldl (\<lambda>lm l. AList.update (lbl_key l) (lbl_values l) lm) acc ls))"
  by (induction ls arbitrary: acc) (auto simp: distinct_update)

lemma distinct_ToStoreLabels [simp]: "distinct (map fst (ToStoreLabels ls))"
  by (simp add: ToStoreLabels_def distinct_foldl_update)

lemma map_of_foldl_update:
  "map_of (foldl (\<lambda>lm l. AList.update (lbl_key l) (lbl_values l) lm) acc ls) =
     map_of acc ++ map_of (rev (map (\<lambda>l. (lbl_key l, lbl_values l)) ls))"
proof (induction ls arbitrary: acc)
  case Nil
  then show ?case by simp
next
  case (Cons l ls)
  then show ?case
    by (simp add: update_conv' map_add_def fun_eq_iff split: option.splits)
qed

lemma map_of_ToStoreLabels:
  "map_of (ToStoreLabels ls) = map_of (rev (map (\<lambda>l. (lbl_key l, lbl_values l)) ls))"
  by (simp add: ToStoreLabels_def map_of_foldl_update)

section \<open>Store score\<close>

definition GenDeletionCost :: "store_score \<Rightarrow> int" where
  "GenDeletionCost s = sc_sessionCount s"

definition IsSafeToReclaim :: "store_score \<Rightarrow> bool" where
  "IsSafeToReclaim s \<longleftrightarrow> sc_sessionObserved s \<and> sc_pipelineObserved s \<and> sc_replicaObserved s \<and>
     sc_sessionCount s = 0 \<and> sc_pipelineCount s = 0 \<and> sc_replicaCount s = 0"

definition BeginObservation :: "time \<Rightarrow> store_score \<Rightarrow> store_score" where
  "BeginObservation startedTime s =
     (let s = s\<lparr>sc_sessionObserved := False, sc_pipelineObserved := False, sc_replicaObserved := False\<rparr>
      in if sc_startedTime s \<noteq> Some startedTime
         then s\<lparr>sc_sessionCount := 0, sc_pipelineCount := 0, sc_replicaCount := 0,
                sc_startedTime := Some startedTime\<rparr>
         else s)"

definition emptyScore :: store_score where
  "emptyScore = \<lparr>sc_sessionCount = 0, sc_pipelineCount = 0, sc_replicaCount = 0,
     sc_sessionObserved = False, sc_pipelineObserved = False, sc_replicaObserved = False,
     sc_startedTime = None\<rparr>"

definition GetStoreScore :: "'w env \<Rightarrow> pod \<Rightarrow> err + store_score" where
  "GetStoreScore E p = (case gget (pod_annos p) StoreScoreAnno of
      None \<Rightarrow> Inl (Err Plain ''cannot find connection count for CN pod, connection annotation is empty'')
    | Some str \<Rightarrow>
        if str = [] then Inr emptyScore
        else (case e_unmarshalScore E str of
            Inl e \<Rightarrow> (case goParseInt 64 str of
                None \<Rightarrow> Inl (wrapPrefix ''error parsing connection anno'' e)
              | Some n \<Rightarrow> Inr (emptyScore\<lparr>sc_sessionCount := n\<rparr>))
          | Inr s \<Rightarrow> Inr s))"

definition SetStoreScore :: "'w env \<Rightarrow> store_score \<Rightarrow> pod \<Rightarrow> err + pod" where
  "SetStoreScore E s p = (case e_marshalScore E s of
      Inl e \<Rightarrow> Inl (wrapPrefix ''error marshal connection info'' e)
    | Inr b \<Rightarrow> Inr (p\<lparr>pod_annos := Some ((the (gmake (pod_annos p)))(StoreScoreAnno \<mapsto> b))\<rparr>))"

text \<open>A result of a pure function that may fail, in the monad.\<close>

definition liftE :: "err + 'a \<Rightarrow> ('s, 'a) rm" where
  "liftE r = (case r of Inl e \<Rightarrow> throw e | Inr x \<Rightarrow> ret x)"

text \<open>The interface between the controller that observes a CN and the ones that reclaim it: an
  observation round starts empty, each observation records one count, and a CN may be reclaimed
  only on complete evidence that nothing runs on it.\<close>

datatype stat = StatSession | StatPipeline | StatReplica

fun observed :: "store_score \<Rightarrow> stat \<Rightarrow> int option" where
  "observed s StatSession = (if sc_sessionObserved s then Some (sc_sessionCount s) else None)"
| "observed s StatPipeline = (if sc_pipelineObserved s then Some (sc_pipelineCount s) else None)"
| "observed s StatReplica = (if sc_replicaObserved s then Some (sc_replicaCount s) else None)"

fun recordStat :: "stat \<Rightarrow> int \<Rightarrow> store_score \<Rightarrow> store_score" where
  "recordStat StatSession n s = s\<lparr>sc_sessionCount := n, sc_sessionObserved := True\<rparr>"
| "recordStat StatPipeline n s = s\<lparr>sc_pipelineCount := n, sc_pipelineObserved := True\<rparr>"
| "recordStat StatReplica n s = s\<lparr>sc_replicaCount := n, sc_replicaObserved := True\<rparr>"

locale observation_round =
  fixes start :: "'s \<Rightarrow> 's"
    and rec_obs :: "'k \<Rightarrow> int \<Rightarrow> 's \<Rightarrow> 's"
    and obs :: "'s \<Rightarrow> 'k \<Rightarrow> int option"
    and safe :: "'s \<Rightarrow> bool"
  assumes obs_start: "obs (start s) k = None"
    and obs_record: "obs (rec_obs k n s) = (obs s)(k \<mapsto> n)"
    and safe_obs: "safe s \<longleftrightarrow> (\<forall>k. obs s k = Some 0)"
begin

lemma obs_fold: "obs (fold (\<lambda>(k, n). rec_obs k n) os s) = obs s ++ map_of (rev os)"
  by (induction os arbitrary: s) (auto simp: obs_record map_add_def fun_eq_iff split: option.splits)

text \<open>A round authorises reclaim exactly when every statistic was observed in it, last as 0.\<close>

lemma round_safe_iff:
  "safe (fold (\<lambda>(k, n). rec_obs k n) os (start s)) \<longleftrightarrow> (\<forall>k. map_of (rev os) k = Some 0)"
proof -
  have "obs (start s) = Map.empty" by (rule ext) (simp add: obs_start)
  then show ?thesis by (simp add: safe_obs obs_fold)
qed

lemma start_unsafe: "\<not> safe (start s)"
  by (simp add: safe_obs obs_start)

end

lemma stat_all: "(\<forall>k. P k) \<longleftrightarrow> P StatSession \<and> P StatPipeline \<and> P StatReplica"
  by (metis stat.exhaust)

interpretation score: observation_round "BeginObservation t" recordStat observed IsSafeToReclaim for t
proof unfold_locales
  fix s k show "observed (BeginObservation t s) k = None"
    by (cases k) (auto simp: BeginObservation_def Let_def)
next
  fix k n s show "observed (recordStat k n s) = (observed s)(k \<mapsto> n)"
  proof
    fix j show "observed (recordStat k n s) j = ((observed s)(k \<mapsto> n)) j"
      by (cases j; cases k) auto
  qed
next
  fix s show "IsSafeToReclaim s \<longleftrightarrow> (\<forall>k. observed s k = Some 0)"
    unfolding stat_all by (auto simp: IsSafeToReclaim_def)
qed

text \<open>Annotations written before the observed flags existed never authorise reclaim.\<close>

lemma legacy_unsafe [simp]: "\<not> IsSafeToReclaim (emptyScore\<lparr>sc_sessionCount := n\<rparr>)" "\<not> IsSafeToReclaim emptyScore"
  by (auto simp: IsSafeToReclaim_def emptyScore_def)

end
