(* ===== verification/Log_Objects.thy ===== *)
theory Log_Objects
  imports CN_Common
begin

text \<open>
  The objects around the log service and the object storage of a cluster: \<^verbatim>\<open>LogSet\<close>, \<^verbatim>\<open>BucketClaim\<close>,
  the cleaning \<^verbatim>\<open>Job\<close> and its \<^verbatim>\<open>ConfigMap\<close>, with the getters of \<^verbatim>\<open>logset_types.go\<close>, the defaults of
  \<^verbatim>\<open>logset_helpers.go\<close> and the store status kept for failover (\<^verbatim>\<open>common/failover.go\<close>).

  \<open>'w lenv\<close> is the outside world of these controllers, as \<open>'w env\<close> is that of the CN controllers.
\<close>

section \<open>Log sets\<close>

datatype retention_policy = PVCRetentionPolicyDelete | PVCRetentionPolicyRetain | OtherRetentionPolicy string

record s3_provider =
  s3_path :: string
  s3_type :: "string option"
  s3_region :: string
  s3_endpoint :: string
  s3_secretRef :: "string option"
  s3_certificateRef :: "(string \<times> string list) option"
  s3_retention :: "retention_policy option"

datatype failed_pod_strategy = FailedPodStrategyOrphan | FailedPodStrategyDelete | OtherStrategy string

record initial_config =
  ic_logShards :: "int option"
  ic_dnShards :: "int option"
  ic_logShardReplicas :: "int option"
  ic_restoreFrom :: "string option"

record logset_spec =
  lg_replicas :: int
  lg_s3 :: "s3_provider option"
  lg_initialConfig :: initial_config
  lg_storeFailureTimeout :: "int option"
  lg_failedPodStrategy :: "failed_pod_strategy option"
  lg_pvcRetention :: "retention_policy option"

definition StorePhaseUp :: string where
  "StorePhaseUp = ''Up''"

definition StorePhaseDown :: string where
  "StorePhaseDown = ''Down''"

record store =
  sr_podName :: string
  sr_phase :: string
  sr_lastTransition :: time

record failover_status =
  fo_available :: "store list"
  fo_failed :: "store list"

record logset =
  lgs_name :: string
  lgs_ns :: string
  lgs_uid :: string
  lgs_annos :: gomap
  lgs_spec :: logset_spec
  lgs_failover :: failover_status

definition defaultStoreFailureTimeout :: int where
  "defaultStoreFailureTimeout = 10 * 60 * second"

definition GetFailedPodStrategy :: "logset_spec \<Rightarrow> failed_pod_strategy" where
  "GetFailedPodStrategy l = (case lg_failedPodStrategy l of None \<Rightarrow> FailedPodStrategyDelete | Some x \<Rightarrow> x)"

definition GetStoreFailureTimeout :: "logset_spec \<Rightarrow> int" where
  "GetStoreFailureTimeout l = (case lg_storeFailureTimeout l of None \<Rightarrow> defaultStoreFailureTimeout | Some d \<Rightarrow> d)"

definition GetPVCRetentionPolicy :: "logset_spec \<Rightarrow> retention_policy" where
  "GetPVCRetentionPolicy l = (case lg_pvcRetention l of
      Some p \<Rightarrow> p
    | None \<Rightarrow> (case Option.bind (lg_s3 l) s3_retention of
        Some p \<Rightarrow> p
      | None \<Rightarrow> PVCRetentionPolicyDelete))"

definition GetS3RetentionPolicy :: "logset_spec \<Rightarrow> retention_policy option" where
  "GetS3RetentionPolicy l = (case lg_s3 l of
      None \<Rightarrow> None
    | Some s3 \<Rightarrow> (case s3_retention s3 of
        Some p \<Rightarrow> Some p
      | None \<Rightarrow> (case lg_pvcRetention l of
          Some p \<Rightarrow> Some p
        | None \<Rightarrow> Some PVCRetentionPolicyDelete)))"

text \<open>The defaulting of \<^verbatim>\<open>setDefaultRetentionPolicy\<close>, in \<^verbatim>\<open>logset_helpers.go\<close> and in the webhook.\<close>

definition setDefaultRetentionPolicy :: "logset_spec \<Rightarrow> logset_spec" where
  "setDefaultRetentionPolicy l =
     (case lg_s3 l of
        None \<Rightarrow> if lg_pvcRetention l = None then l\<lparr>lg_pvcRetention := Some PVCRetentionPolicyDelete\<rparr> else l
      | Some s3 \<Rightarrow>
          (case (lg_pvcRetention l, s3_retention s3) of
             (Some _, Some _) \<Rightarrow> l
           | (None, None) \<Rightarrow> l\<lparr>lg_pvcRetention := Some PVCRetentionPolicyDelete,
                 lg_s3 := Some (s3\<lparr>s3_retention := Some PVCRetentionPolicyDelete\<rparr>)\<rparr>
           | (Some p, None) \<Rightarrow> l\<lparr>lg_s3 := Some (s3\<lparr>s3_retention := Some p\<rparr>)\<rparr>
           | (None, Some p) \<Rightarrow> l\<lparr>lg_pvcRetention := Some p\<rparr>))"

text \<open>\<^verbatim>\<open>setDefaultRetentionPolicy\<close>: defaulting the retention policies writes down what the getters already
  return. Both getters give the same policy before and after, the fields then hold exactly these values,
  a policy that was set is not changed, and defaulting again changes nothing.\<close>

theorem retention_defaults:
  "GetPVCRetentionPolicy (setDefaultRetentionPolicy l) = GetPVCRetentionPolicy l \<and>
   GetS3RetentionPolicy (setDefaultRetentionPolicy l) = GetS3RetentionPolicy l \<and>
   lg_pvcRetention (setDefaultRetentionPolicy l) = Some (GetPVCRetentionPolicy l) \<and>
   map_option s3_retention (lg_s3 (setDefaultRetentionPolicy l)) = map_option (\<lambda>_. GetS3RetentionPolicy l) (lg_s3 l) \<and>
   lg_pvcRetention l \<in> {None, lg_pvcRetention (setDefaultRetentionPolicy l)} \<and>
   setDefaultRetentionPolicy (setDefaultRetentionPolicy l) = setDefaultRetentionPolicy l"
  by (cases "lg_s3 l"; cases "lg_pvcRetention l"; cases "s3_retention (the (lg_s3 l))")
    (simp_all add: setDefaultRetentionPolicy_def GetPVCRetentionPolicy_def GetS3RetentionPolicy_def)

section \<open>Bucket claims, jobs and config maps\<close>

datatype bucket_state = StatusUnset | StatusInUse | StatusReleased | StatusDeleting

record container =
  cr_name :: string
  cr_image :: string
  cr_command :: "string list"
  cr_args :: "string list"
  cr_resources :: string
  cr_mounts :: "(string \<times> string) list"

record pod_template =
  pt_labels :: gomap
  pt_containers :: "container list"
  pt_restartPolicy :: string
  pt_volumes :: "(string \<times> string \<times> int) list"

record condition =
  cd_type :: string
  cd_status :: condition_status
  cd_reason :: string
  cd_message :: string
  cd_lastTransition :: time

text \<open>\<open>bk_deleted\<close>: the deletion timestamp is set.\<close>

record bucket_claim =
  bk_name :: string
  bk_ns :: string
  bk_finalizers :: "string list"
  bk_labels :: gomap
  bk_annos :: gomap
  bk_s3 :: "s3_provider option"
  bk_template :: pod_template
  bk_bindTo :: string
  bk_state :: bucket_state
  bk_conditions :: "condition list"
  bk_deleted :: bool

record job =
  jb_name :: string
  jb_ns :: string
  jb_template :: pod_template
  jb_conditions :: "(string \<times> condition_status) list"
  jb_succeeded :: int

record config_map =
  cm_name :: string
  cm_ns :: string
  cm_data :: "(string \<times> string) list"

text \<open>The stateful set of the log pods (OpenKruise): \<^verbatim>\<open>ReserveOrdinals\<close> are the ordinals it skips.\<close>

record stateful_set =
  ss_name :: string
  ss_ns :: string
  ss_replicas :: int
  ss_reserveOrdinals :: "int list"
  ss_template :: pod_template

section \<open>Their world\<close>

text \<open>\<open>l_cmBegin\<close> and \<open>l_cmCommit\<close> are \<^verbatim>\<open>CreateOwnedOrUpdate\<close> of a config map before and after the closure;
  \<open>l_podOrdinal\<close> and \<open>l_upsert\<close> are \<^verbatim>\<open>util.PodOrdinal\<close> and \<^verbatim>\<open>util.Upsert\<close>; the pair of codecs is the JSON
  of the bootstrap decision. Services are named by their key.\<close>

record 'w lenv =
  l_buckets :: "(bucket_claim, 'w) kind_api"
  l_logsets :: "(logset, 'w) kind_api"
  l_jobs :: "(job, 'w) kind_api"
  l_cms :: "(config_map, 'w) kind_api"
  l_sts :: "(stateful_set, 'w) kind_api"
  l_pods :: "(pod, 'w) kind_api"
  l_services :: "(obj_key, 'w) kind_api"
  l_cmBegin :: "config_map \<Rightarrow> 'w \<Rightarrow> (err + config_map) \<times> 'w"
  l_cmCommit :: "config_map \<Rightarrow> config_map \<Rightarrow> 'w \<Rightarrow> (err + config_map) \<times> 'w"
  l_now :: "'w \<Rightarrow> time \<times> 'w"
  l_s3Reclaim :: bool
  l_sha1hex :: "string \<Rightarrow> string"
  l_findFirst :: "container list \<Rightarrow> (container \<Rightarrow> bool) \<Rightarrow> container option"
  l_podOrdinal :: "string \<Rightarrow> err + int"
  l_upsert :: "int list \<Rightarrow> int \<Rightarrow> int list"
  l_marshalReplicas :: "(int \<times> int) list \<Rightarrow> err + string"
  l_unmarshalReplicas :: "string \<Rightarrow> err + (int \<times> int) list"

section \<open>Store status\<close>

text \<open>The loop of \<^verbatim>\<open>CollectStoreStatus\<close> for one pod; \<open>up\<close> is \<^verbatim>\<open>util.IsPodAvailable\<close> with the readiness
  window, \<open>now\<close> the time read for the pod. The log set passes no further functions.\<close>

definition minReadySeconds :: int where
  "minReadySeconds = 15"

definition previousStore :: "failover_status \<Rightarrow> string \<Rightarrow> store option" where
  "previousStore st n = map_of (map (\<lambda>x. (sr_podName x, x)) (rev (fo_failed st @ fo_available st))) n"

definition storeOf :: "failover_status \<Rightarrow> bool \<Rightarrow> time \<Rightarrow> string \<Rightarrow> store" where
  "storeOf st up now n =
     (let x = \<lparr>sr_podName = n, sr_phase = (if up then StorePhaseUp else StorePhaseDown), sr_lastTransition = now\<rparr>
      in case previousStore st n of
           Some prev \<Rightarrow> if sr_phase prev = sr_phase x then x\<lparr>sr_lastTransition := sr_lastTransition prev\<rparr> else x
         | None \<Rightarrow> x)"

fun collectStores :: "failover_status \<Rightarrow> (string \<times> bool \<times> time) list \<Rightarrow> store list \<times> store list" where
  "collectStores st [] = ([], [])"
| "collectStores st ((n, up, now) # pods) =
     (let x = storeOf st up now n; (av, fl) = collectStores st pods
      in if sr_phase x = StorePhaseUp then (x # av, fl) else (av, x # fl))"

definition CollectStoreStatus :: "failover_status \<Rightarrow> (string \<times> bool \<times> time) list \<Rightarrow> failover_status" where
  "CollectStoreStatus st pods = (case collectStores st pods of (av, fl) \<Rightarrow> \<lparr>fo_available = av, fo_failed = fl\<rparr>)"

end
