(* ===== verification/Toml_Config.thy ===== *)
theory Toml_Config
  imports Kube_Objects "HOL-Library.AList" "HOL-Library.Sublist"
begin

text \<open>
  The configuration tree of the MatrixOne services: \<^verbatim>\<open>api/core/v1alpha1/toml_config.go\<close>. A tree is
  read and written by key paths, merged with a user's tree, and serialised through the TOML and JSON
  libraries, which are parameters here. Trees are values: that a nested map put into two trees would
  be shared between them is not modelled.
\<close>

section \<open>Definitions\<close>

text \<open>\<^verbatim>\<open>interface{}\<close> as the sources inspect it. A \<^verbatim>\<open>map[string]interface{}\<close> is an association list with
  distinct keys, in the unspecified order an iteration would visit them; \<open>VMaps\<close> is the typed slice
  \<^verbatim>\<open>[]map[string]interface{}\<close>, \<open>VStrs\<close> is \<^verbatim>\<open>[]string\<close> and \<open>VList\<close> is \<^verbatim>\<open>[]interface{}\<close>.\<close>

datatype int_kind =
    KInt | KInt8 | KInt16 | KInt32 | KInt64 | KUint | KUint8 | KUint16 | KUint32 | KUint64

datatype tval =
    VNil
  | VStr string
  | VInt int_kind int
  | VMap "(string \<times> tval) list"
  | VMaps "(string \<times> tval) list list"
  | VList "tval list"
  | VStrs "string list"
  | VOther string

type_synonym tmap = "(string \<times> tval) list"

text \<open>\<^verbatim>\<open>TomlConfig\<close>: \<open>None\<close> is a nil \<^verbatim>\<open>MP\<close>.\<close>

record toml_config =
  MP :: "tmap option"

definition NewTomlConfig :: "tmap option \<Rightarrow> toml_config" where
  "NewTomlConfig m = \<lparr>MP = m\<rparr>"

subsection \<open>Paths\<close>

text \<open>A lookup of an absent key gives the nil interface.\<close>

definition mapGet :: "tmap \<Rightarrow> string \<Rightarrow> tval" where
  "mapGet m k = (case map_of m k of None \<Rightarrow> VNil | Some v \<Rightarrow> v)"

fun get :: "tmap \<Rightarrow> string list \<Rightarrow> tval" where
  "get m [] = VMap m"
| "get m [k] = mapGet m k"
| "get m (k # p) = (case map_of m k of
      Some (VMap n) \<Rightarrow> get n p
    | _ \<Rightarrow> VNil)"

fun setPath :: "tmap \<Rightarrow> tval \<Rightarrow> string list \<Rightarrow> tmap" where
  "setPath m v [] = m"
| "setPath m v [k] = AList.update k v m"
| "setPath m v (k # p) = (case map_of m k of
      Some (VMap n) \<Rightarrow> AList.update k (VMap (setPath n v p)) m
    | _ \<Rightarrow> AList.update k (VMap (setPath [] v p)) m)"

text \<open>\<^verbatim>\<open>Get\<close> returns nil for a path that is not there, a \<^verbatim>\<open>Value\<close> otherwise.\<close>

definition Get :: "toml_config \<Rightarrow> string list \<Rightarrow> tval option" where
  "Get c path = (case MP c of
      None \<Rightarrow> None
    | Some m \<Rightarrow> (case get m path of VNil \<Rightarrow> None | v \<Rightarrow> Some v))"

definition SetPath :: "toml_config \<Rightarrow> string list \<Rightarrow> tval \<Rightarrow> toml_config" where
  "SetPath c path v = c\<lparr>MP := Some (setPath (case MP c of None \<Rightarrow> [] | Some m \<Rightarrow> m) v path)\<rparr>"

definition keyPath :: "string \<Rightarrow> string list \<Rightarrow> string list" where
  "keyPath key1 keyN = key1 # keyN"

text \<open>The parent map is changed in place, so the tree is rebuilt along the path.\<close>

fun delPath :: "tmap \<Rightarrow> string list \<Rightarrow> tmap" where
  "delPath m [] = m"
| "delPath m [k] = AList.delete k m"
| "delPath m (k # p) = (case map_of m k of
      Some (VMap n) \<Rightarrow> AList.update k (VMap (delPath n p)) m
    | _ \<Rightarrow> m)"

definition Del :: "toml_config \<Rightarrow> string \<Rightarrow> string list \<Rightarrow> toml_config" where
  "Del c key1 keyN = (case MP c of
      None \<Rightarrow> c
    | Some m \<Rightarrow> c\<lparr>MP := Some (delPath m (keyPath key1 keyN))\<rparr>)"

definition Merge :: "toml_config \<Rightarrow> tmap \<Rightarrow> toml_config" where
  "Merge c mp = fold (\<lambda>(k, v) c. SetPath c [k] v) mp c"

subsection \<open>Deep merge\<close>

fun asMap :: "tval \<Rightarrow> tmap option" where
  "asMap (VMap m) = Some m"
| "asMap _ = None"

fun allMaps :: "tval list \<Rightarrow> tmap list option" where
  "allMaps [] = Some []"
| "allMaps (v # vs) = (case asMap v of None \<Rightarrow> None
     | Some m \<Rightarrow> (case allMaps vs of None \<Rightarrow> None | Some ms \<Rightarrow> Some (m # ms)))"

definition named :: "tmap list \<Rightarrow> tmap list option" where
  "named ms = (case ms of
      [] \<Rightarrow> None
    | m # _ \<Rightarrow> if map_of m ''name'' = None then None else Some ms)"

fun toNamedMapSlice :: "tval \<Rightarrow> tmap list option" where
  "toNamedMapSlice (VMaps ms) = named ms"
| "toNamedMapSlice (VList vs) = (case allMaps vs of None \<Rightarrow> None | Some ms \<Rightarrow> named ms)"
| "toNamedMapSlice _ = None"

definition nameOf :: "tmap \<Rightarrow> string option" where
  "nameOf m = (case map_of m ''name'' of Some (VStr n) \<Rightarrow> Some n | _ \<Rightarrow> None)"

text \<open>\<^verbatim>\<open>baseByName\<close>: a later entry with the same name wins.\<close>

fun baseByName :: "tmap list \<Rightarrow> nat \<Rightarrow> string \<Rightarrow> nat option" where
  "baseByName [] i n = None"
| "baseByName (m # ms) i n = (case baseByName ms (Suc i) n of
      Some j \<Rightarrow> Some j
    | None \<Rightarrow> if nameOf m = Some n then Some i else None)"

definition matchIdx :: "tmap list \<Rightarrow> tmap \<Rightarrow> nat option" where
  "matchIdx base oe = (case nameOf oe of
      None \<Rightarrow> None
    | Some n \<Rightarrow> if n = [] then None else baseByName base 0 n)"

definition unmatched :: "tmap list \<Rightarrow> tmap list \<Rightarrow> tmap list" where
  "unmatched base override =
     map (\<lambda>i. base ! i) (filter (\<lambda>i. \<not> list_ex (\<lambda>oe. matchIdx base oe = Some i) override) [0..<length base])"

lemma allMaps_size: "allMaps vs = Some ms \<Longrightarrow> m \<in> set ms \<Longrightarrow> size_list (size_prod (\<lambda>_. 0) size) m < size_list size vs"
proof (induction vs arbitrary: ms)
  case Nil
  then show ?case by simp
next
  case (Cons v vs)
  then show ?case by (cases v) (fastforce split: option.splits)+
qed

lemma toNamed_size:
  "toNamedMapSlice v = Some ms \<Longrightarrow> m \<in> set ms \<Longrightarrow> size_list (size_prod (\<lambda>_. 0) size) m < size v"
proof (cases v)
  case (VMaps xs)
  assume a: "toNamedMapSlice v = Some ms" "m \<in> set ms"
  with VMaps have "m \<in> set xs" by (auto simp: named_def split: list.splits if_splits)
  then have "size_list (size_prod (\<lambda>_. 0) size) m \<le> size_list (size_list (size_prod (\<lambda>_. 0) size)) xs"
    by (rule size_list_estimation') simp
  with VMaps show ?thesis by simp
next
  case (VList xs)
  assume a: "toNamedMapSlice v = Some ms" "m \<in> set ms"
  with VList have "allMaps xs = Some ms" by (auto simp: named_def split: list.splits if_splits option.splits)
  from allMaps_size[OF this a(2)] VList show ?thesis by simp
qed auto

lemma asMap_size: "asMap v = Some m \<Longrightarrow> size_list (size_prod (\<lambda>_. 0) size) m < size v"
  by (cases v) auto

function deepMergeMap :: "tmap \<Rightarrow> tmap \<Rightarrow> tmap" and mergeVal :: "tval \<Rightarrow> tval \<Rightarrow> tval" where
  "deepMergeMap base [] = base"
| "deepMergeMap base ((k, v) # override) = deepMergeMap (AList.update k
     (case map_of base k of None \<Rightarrow> v | Some b \<Rightarrow> mergeVal b v) base) override"
| "mergeVal b v = (case (asMap b, asMap v) of
      (Some bm, Some om) \<Rightarrow> VMap (deepMergeMap bm om)
    | _ \<Rightarrow> (case (toNamedMapSlice b, toNamedMapSlice v) of
        (Some bs, Some os) \<Rightarrow> VMaps (map (\<lambda>oe. case matchIdx bs oe of
            None \<Rightarrow> oe | Some i \<Rightarrow> deepMergeMap (bs ! i) oe) os @ unmatched bs os)
      | _ \<Rightarrow> v))"
  by pat_completeness auto
termination
  by (relation "measure (case_sum (\<lambda>(b, ov). size_list (size_prod (\<lambda>_. 0) size) ov) (\<lambda>(b, v). size v))")
     (auto dest: asMap_size[OF sym] toNamed_size[OF sym] simp del: toNamedMapSlice.simps asMap.simps)

declare deepMergeMap.simps [simp del] mergeVal.simps [simp del]

definition MergeDeep :: "toml_config \<Rightarrow> tmap \<Rightarrow> toml_config" where
  "MergeDeep c mp = c\<lparr>MP := Some (deepMergeMap (case MP c of None \<Rightarrow> [] | Some m \<Rightarrow> m) mp)\<rparr>"

text \<open>\<^verbatim>\<open>mergeNamedMapSlice\<close> on its own: the override entries in order, each merged into the base entry of
  its name, then the base entries nothing was merged into.\<close>

definition mergeNamedMapSlice :: "tmap list \<Rightarrow> tmap list \<Rightarrow> tmap list" where
  "mergeNamedMapSlice base override =
     map (\<lambda>oe. case matchIdx base oe of None \<Rightarrow> oe | Some i \<Rightarrow> deepMergeMap (base ! i) oe) override
     @ unmatched base override"

subsection \<open>Values\<close>

text \<open>The conversion \<^verbatim>\<open>int64(x)\<close>; only the unsigned 64-bit kinds can lie outside its range.\<close>

definition int64 :: "int \<Rightarrow> int" where
  "int64 x = (x + 2 ^ 63) mod 2 ^ 64 - 2 ^ 63"

fun AsString :: "tval \<Rightarrow> err + string" where
  "AsString (VStr s) = Inr s"
| "AsString _ = Inl (Err Plain ''type is not string'')"

fun AsInt :: "tval \<Rightarrow> err + int" where
  "AsInt (VInt k n) = Inr (int64 n)"
| "AsInt _ = Inl (Err Plain ''type is not integer'')"

fun strItems :: "tval list \<Rightarrow> string list option" where
  "strItems [] = Some []"
| "strItems (VStr s # vs) = map_option (Cons s) (strItems vs)"
| "strItems (_ # vs) = None"

fun AsStringSlice :: "tval \<Rightarrow> err + string list" where
  "AsStringSlice (VStrs ss) = Inr ss"
| "AsStringSlice (VList vs) = (case strItems vs of
      None \<Rightarrow> Inl (Err Plain ''can not be string slice'') | Some ss \<Rightarrow> Inr ss)"
| "AsStringSlice _ = Inl (Err Plain ''invalid type'')"

fun AsToml :: "tval \<Rightarrow> err + toml_config" where
  "AsToml (VMap m) = Inr (NewTomlConfig (Some m))"
| "AsToml _ = Inl (Err Plain ''type is not map'')"

text \<open>The \<^verbatim>\<open>Must\<close> variants panic on the error.\<close>

definition must :: "err + 'a \<Rightarrow> err + 'a" where
  "must r = (case r of Inl e \<Rightarrow> Inl (Err Panic (emsg e)) | Inr x \<Rightarrow> Inr x)"

definition MustString :: "tval \<Rightarrow> err + string" where
  "MustString v = must (AsString v)"
definition MustInt :: "tval \<Rightarrow> err + int" where
  "MustInt v = must (AsInt v)"
definition MustStringSlice :: "tval \<Rightarrow> err + string list" where
  "MustStringSlice v = must (AsStringSlice v)"
definition MustToml :: "tval \<Rightarrow> err + toml_config" where
  "MustToml v = must (AsToml v)"

subsection \<open>Serialisation\<close>

text \<open>The TOML and JSON libraries: \<open>td_json\<close> decodes into an untyped value, \<open>td_jsonMap\<close> into a map.\<close>

datatype json_val = JStr string | JMap | JOther

record codec =
  tc_encode :: "tmap option \<Rightarrow> err + string"
  tc_decode :: "string \<Rightarrow> err + tmap option"
  tj_string :: "string \<Rightarrow> string"
  tj_value :: "string \<Rightarrow> err + json_val"
  tj_map :: "string \<Rightarrow> err + tmap option"

text \<open>A nil receiver is \<open>None\<close>.\<close>

definition MarshalTOML :: "codec \<Rightarrow> toml_config option \<Rightarrow> err + string" where
  "MarshalTOML L c = (case c of None \<Rightarrow> Inr [] | Some c \<Rightarrow> tc_encode L (MP c))"

definition UnmarshalTOML :: "codec \<Rightarrow> string \<Rightarrow> err + toml_config" where
  "UnmarshalTOML L s = (case tc_decode L s of Inl e \<Rightarrow> Inl e | Inr m \<Rightarrow> Inr \<lparr>MP = m\<rparr>)"

definition ToString :: "codec \<Rightarrow> toml_config option \<Rightarrow> err + string" where
  "ToString L c = MarshalTOML L c"

definition MarshalJSON :: "codec \<Rightarrow> toml_config option \<Rightarrow> err + string" where
  "MarshalJSON L c = (case MarshalTOML L c of Inl e \<Rightarrow> Inl e | Inr s \<Rightarrow> Inr (tj_string L s))"

definition UnmarshalJSON :: "codec \<Rightarrow> string \<Rightarrow> err + toml_config" where
  "UnmarshalJSON L data = (case tj_value L data of
      Inl e \<Rightarrow> Inl e
    | Inr (JStr s) \<Rightarrow> UnmarshalTOML L s
    | Inr JMap \<Rightarrow> (case tj_map L data of Inl e \<Rightarrow> Inl e | Inr m \<Rightarrow> Inr \<lparr>MP = m\<rparr>)
    | Inr JOther \<Rightarrow> Inl (Err Plain ''unknown type''))"

section \<open>Reading and writing paths\<close>

lemma mapGet_update [simp]: "mapGet (AList.update k v m) j = (if j = k then v else mapGet m j)"
  by (simp add: mapGet_def update_conv')

lemma get_Cons: "p \<noteq> [] \<Longrightarrow> get m (k # p) = (case map_of m k of Some (VMap n) \<Rightarrow> get n p | _ \<Rightarrow> VNil)"
  by (cases p) auto

lemma setPath_Cons:
  "p \<noteq> [] \<Longrightarrow> setPath m v (k # p) =
     AList.update k (VMap (setPath (case map_of m k of Some (VMap n) \<Rightarrow> n | _ \<Rightarrow> []) v p)) m"
  by (cases p) (auto split: option.splits tval.splits)

lemma delPath_Cons:
  "p \<noteq> [] \<Longrightarrow> delPath m (k # p) = (case map_of m k of Some (VMap n) \<Rightarrow> AList.update k (VMap (delPath n p)) m | _ \<Rightarrow> m)"
  by (cases p) auto

lemma get_empty: "p \<noteq> [] \<Longrightarrow> get [] p = VNil"
  by (cases p; cases "tl p") (auto simp: mapGet_def)

lemma get_setPath: "p \<noteq> [] \<Longrightarrow> get (setPath m v p) p = v"
proof (induction m v p rule: setPath.induct)
  case (3 m v k k' p)
  then show ?case by (auto simp: update_conv' split: option.splits tval.splits)
qed auto

text \<open>Two paths that part ways.\<close>

abbreviation diverge :: "string list \<Rightarrow> string list \<Rightarrow> bool" where
  "diverge p q \<equiv> \<not> prefix p q \<and> \<not> prefix q p"

lemma diverge_nonempty: "diverge p q \<Longrightarrow> p \<noteq> [] \<and> q \<noteq> []"
  by auto

lemma get_setPath_other: "diverge p q \<Longrightarrow> get (setPath m v p) q = get m q"
proof (induction p arbitrary: m q)
  case Nil
  then show ?case by simp
next
  case (Cons k p)
  then obtain j q' where q: "q = j # q'" by (cases q) auto
  show ?case
  proof (cases "j = k")
    case False
    then have "map_of (setPath m v (k # p)) j = map_of m j"
      by (cases "p = []") (auto simp: setPath_Cons update_conv')
    then show ?thesis using q by (cases "q' = []") (auto simp: get_Cons mapGet_def)
  next
    case True
    with Cons.prems q have d: "diverge p q'" by simp
    with diverge_nonempty have ne: "p \<noteq> []" "q' \<noteq> []" by blast+
    let ?n = "case map_of m k of Some (VMap n) \<Rightarrow> n | _ \<Rightarrow> []"
    have "get (setPath m v (k # p)) q = get (setPath ?n v p) q'"
      using ne q True by (simp add: setPath_Cons get_Cons update_conv')
    also have "\<dots> = get ?n q'" by (rule Cons.IH[OF d])
    also have "\<dots> = get m q" using ne q True by (auto simp: get_Cons get_empty split: option.splits tval.splits)
    finally show ?thesis .
  qed
qed

text \<open>\<^verbatim>\<open>Set\<close>, \<^verbatim>\<open>Get\<close>: what is written at a path is read back there, intermediate maps being made as
  needed, and every path that is neither above nor below it reads as before.\<close>

theorem toml_set_get:
  assumes "p \<noteq> []"
  shows "Get (SetPath c p v) p = (if v = VNil then None else Some v) \<and>
    (\<forall>q. diverge p q \<longrightarrow> Get (SetPath c p v) q = Get c q)"
proof -
  have same: "(case get (setPath m v p) p of VNil \<Rightarrow> None | w \<Rightarrow> Some w) = (if v = VNil then None else Some v)" for m
    using get_setPath[OF assms] by (simp split: tval.split)
  have other: "get (setPath (case MP c of None \<Rightarrow> [] | Some m \<Rightarrow> m) v p) q = get (case MP c of None \<Rightarrow> [] | Some m \<Rightarrow> m) q"
    if "diverge p q" for q using that by (rule get_setPath_other)
  show ?thesis
    using same other diverge_nonempty[of p]
    by (auto simp: Get_def SetPath_def get_empty split: option.split)
qed

theorem toml_set_get_witness:
  "Get (SetPath \<lparr>MP = Some [(''a'', VStr ''x'')]\<rparr> [''a'', ''b''] (VStr ''y'')) [''a'', ''b''] = Some (VStr ''y'')"
  using toml_set_get[of "[''a'', ''b'']" "\<lparr>MP = Some [(''a'', VStr ''x'')]\<rparr>" "VStr ''y''"] by simp

section \<open>Deep merge\<close>

lemma mergeVal_eq:
  "mergeVal b v = (case (asMap b, asMap v) of
      (Some bm, Some om) \<Rightarrow> VMap (deepMergeMap bm om)
    | _ \<Rightarrow> (case (toNamedMapSlice b, toNamedMapSlice v) of
        (Some bs, Some os) \<Rightarrow> VMaps (mergeNamedMapSlice bs os)
      | _ \<Rightarrow> v))"
  unfolding mergeNamedMapSlice_def by (rule mergeVal.simps)

lemma mergeVal_maps [simp]: "mergeVal (VMap bm) (VMap om) = VMap (deepMergeMap bm om)"
  by (simp add: mergeVal_eq)

lemma mergeVal_plain: "asMap v = None \<Longrightarrow> toNamedMapSlice v = None \<Longrightarrow> mergeVal b v = v"
  by (auto simp: mergeVal_eq split: option.splits)

lemma mergeVal_over_plain: "asMap b = None \<Longrightarrow> mergeVal b (VMap om) = VMap om"
  by (auto simp: mergeVal_eq split: option.splits)

text \<open>The reference: a merge as an operation on the lookup functions.\<close>

lemma map_of_deepMergeMap:
  "distinct (map fst ov) \<Longrightarrow> map_of (deepMergeMap base ov) k =
     (case map_of ov k of
        None \<Rightarrow> map_of base k
      | Some v \<Rightarrow> Some (case map_of base k of None \<Rightarrow> v | Some b \<Rightarrow> mergeVal b v))"
proof (induction ov arbitrary: base)
  case Nil
  then show ?case by (simp add: deepMergeMap.simps)
next
  case (Cons kv ov)
  obtain j v where kv: "kv = (j, v)" by fastforce
  with Cons.prems have "map_of ov j = None" by (simp add: map_of_eq_None_iff)
  with Cons kv show ?case by (auto simp: deepMergeMap.simps update_conv' split: option.split)
qed

text \<open>Well-formed trees: the keys of every map are distinct.\<close>

fun wft :: "tval \<Rightarrow> bool" and wfm :: "tmap \<Rightarrow> bool" where
  "wft (VMap m) = (distinct (map fst m) \<and> wfm m)"
| "wft (VMaps ms) = (\<forall>m \<in> set ms. distinct (map fst m) \<and> wfm m)"
| "wft (VList vs) = (\<forall>v \<in> set vs. wft v)"
| "wft v = True"
| "wfm [] = True"
| "wfm ((k, v) # m) = (wft v \<and> wfm m)"

lemma wfm_iff: "wfm m \<longleftrightarrow> (\<forall>(k, v) \<in> set m. wft v)"
  by (induction m) auto

text \<open>The override tree says nothing about a path: a key of it is missing on the way.\<close>

fun untouched :: "tmap \<Rightarrow> string list \<Rightarrow> bool" where
  "untouched ov [] = False"
| "untouched ov (k # p) = (case map_of ov k of
      None \<Rightarrow> True
    | Some (VMap n) \<Rightarrow> untouched n p
    | _ \<Rightarrow> False)"

lemma untouched_get: "untouched ov p \<Longrightarrow> get ov p = VNil"
proof (induction ov p rule: untouched.induct)
  case (2 ov k p)
  then show ?case
    by (cases "p = []") (auto simp: get_Cons mapGet_def split: option.splits tval.splits)
qed simp

lemma wft_lookup: "wfm m \<Longrightarrow> map_of m k = Some v \<Longrightarrow> wft v"
  by (auto simp: wfm_iff dest: map_of_SomeD)

lemma get_deepMergeMap_keeps:
  "untouched ov p \<Longrightarrow> wft (VMap ov) \<Longrightarrow> get (deepMergeMap base ov) p = get base p"
proof (induction p arbitrary: base ov)
  case Nil
  then show ?case by simp
next
  case (Cons k p)
  note lookup = map_of_deepMergeMap[of ov base k]
  show ?case
  proof (cases "map_of ov k")
    case None
    with lookup Cons.prems show ?thesis by (cases "p = []") (auto simp: get_Cons mapGet_def)
  next
    case (Some v)
    with Cons.prems obtain n where n: "map_of ov k = Some (VMap n)" and u: "untouched n p"
      by (cases v) auto
    from u have p: "p \<noteq> []" by auto
    have wf: "wft (VMap n)" using wft_lookup[OF _ n] Cons.prems by simp
    show ?thesis
    proof (cases "map_of base k")
      case None
      with lookup n p untouched_get[OF u] Cons.prems show ?thesis by (simp add: get_Cons)
    next
      case (Some b)
      show ?thesis
      proof (cases "asMap b")
        case None
        with lookup n p untouched_get[OF u] Cons.prems Some show ?thesis
          by (cases b) (auto simp: get_Cons mergeVal_over_plain)
      next
        case (Some bm)
        then have "b = VMap bm" by (cases b) auto
        with lookup n p Cons.prems \<open>map_of base k = Some b\<close> Cons.IH[OF u wf, of bm] show ?thesis by (simp add: get_Cons)
      qed
    qed
  qed
qed

lemma get_deepMergeMap_wins:
  "get ov p = v \<Longrightarrow> p \<noteq> [] \<Longrightarrow> v \<noteq> VNil \<Longrightarrow> asMap v = None \<Longrightarrow> toNamedMapSlice v = None \<Longrightarrow> wft (VMap ov) \<Longrightarrow>
     get (deepMergeMap base ov) p = v"
proof (induction p arbitrary: base ov)
  case Nil
  then show ?case by simp
next
  case (Cons k p)
  note lookup = map_of_deepMergeMap[of ov base k]
  show ?case
  proof (cases "p = []")
    case True
    with Cons.prems have "map_of ov k = Some v" by (auto simp: mapGet_def split: option.splits)
    with lookup Cons.prems True show ?thesis
      by (auto simp: mapGet_def mergeVal_plain split: option.splits)
  next
    case False
    with Cons.prems obtain n where n: "map_of ov k = Some (VMap n)" and g: "get n p = v"
      by (auto simp: get_Cons split: option.splits tval.splits)
    have wf: "wft (VMap n)" using wft_lookup[OF _ n] Cons.prems by simp
    note IH = Cons.IH[OF g False Cons.prems(3,4,5) wf]
    show ?thesis
    proof (cases "map_of base k")
      case None
      with lookup n g False Cons.prems show ?thesis by (simp add: get_Cons)
    next
      case (Some b)
      show ?thesis
      proof (cases "asMap b")
        case None
        with lookup n g False Cons.prems Some show ?thesis by (simp add: get_Cons mergeVal_over_plain)
      next
        case (Some bm)
        then have "b = VMap bm" by (cases b) auto
        with lookup n False Cons.prems \<open>map_of base k = Some b\<close> IH[of bm] show ?thesis by (simp add: get_Cons)
      qed
    qed
  qed
qed

lemma baseByName_bound: "baseByName ms i n = Some j \<Longrightarrow> i \<le> j \<and> j < i + length ms \<and> nameOf (ms ! (j - i)) = Some n"
proof (induction ms arbitrary: i)
  case Nil
  then show ?case by simp
next
  case (Cons m ms)
  show ?case
  proof (cases "baseByName ms (Suc i) n")
    case None
    with Cons.prems show ?thesis by (auto split: if_splits)
  next
    case (Some l)
    with Cons.prems have "baseByName ms (Suc i) n = Some j" by simp
    from Cons.IH[OF this] have "Suc i \<le> j" "j < Suc i + length ms" "nameOf (ms ! (j - Suc i)) = Some n" by auto
    moreover from \<open>Suc i \<le> j\<close> have "j - i = Suc (j - Suc i)" by simp
    ultimately show ?thesis by simp
  qed
qed

lemma baseByName_None: "baseByName ms i n = None \<longleftrightarrow> (\<forall>m \<in> set ms. nameOf m \<noteq> Some n)"
proof (induction ms arbitrary: i)
  case (Cons m ms)
  show ?case using Cons.IH[of "Suc i"] by (cases "baseByName ms (Suc i) n") auto
qed simp

lemma matchIdx_Some: "matchIdx base oe = Some i \<Longrightarrow> i < length base \<and> nameOf oe = nameOf (base ! i) \<and> nameOf oe \<noteq> None"
  using baseByName_bound[of base 0] by (fastforce simp: matchIdx_def split: option.splits if_splits)

lemma toNamed_wf: "toNamedMapSlice v = Some ms \<Longrightarrow> wft v \<Longrightarrow> m \<in> set ms \<Longrightarrow> wft (VMap m)"
proof (cases v)
  case (VMaps xs)
  assume "toNamedMapSlice v = Some ms" "wft v" "m \<in> set ms"
  with VMaps show ?thesis by (auto simp: named_def split: list.splits if_splits)
next
  case (VList xs)
  assume a: "toNamedMapSlice v = Some ms" "wft v" "m \<in> set ms"
  with VList have "allMaps xs = Some ms" by (auto simp: named_def split: list.splits if_splits option.splits)
  then have "set (map VMap ms) \<subseteq> set xs"
  proof (induction xs arbitrary: ms)
    case (Cons x xs)
    then show ?case by (cases x) (fastforce split: option.splits)+
  qed simp
  with a(3) have "VMap m \<in> set xs" by auto
  with a(2) VList show ?thesis by auto
qed auto

lemma set_update: "set (AList.update k v m) \<subseteq> insert (k, v) (set m)"
  by (induction m) auto

lemma wft_update: "wft (VMap m) \<Longrightarrow> wft v \<Longrightarrow> wft (VMap (AList.update k v m))"
  using set_update[of k v m] by (auto simp: distinct_update wfm_iff)

lemma unmatched_subset: "set (unmatched base ov) \<subseteq> set base"
  by (auto simp: unmatched_def)

text \<open>Merging keeps trees well formed.\<close>

lemma wf_merge:
  "wft (VMap base) \<Longrightarrow> wft (VMap ov) \<Longrightarrow> wft (VMap (deepMergeMap base ov))"
  "wft b \<Longrightarrow> wft v \<Longrightarrow> wft (mergeVal b v)"
proof (induction base ov and b v rule: deepMergeMap_mergeVal.induct)
  case (1 base)
  then show ?case by (simp add: deepMergeMap.simps)
next
  case (2 base k v ov)
  have v: "wft v" and ov: "wft (VMap ov)" using "2.prems" by auto
  have "wft (case map_of base k of None \<Rightarrow> v | Some b \<Rightarrow> mergeVal b v)"
    using v "2.IH"(1) wft_lookup[of base k] "2.prems"(1) by (auto split: option.split)
  from "2.IH"(2)[OF wft_update[OF "2.prems"(1) this] ov] show ?case by (simp add: deepMergeMap.simps)
next
  case (3 b v)
  show ?case
  proof (cases "asMap b \<noteq> None \<and> asMap v \<noteq> None")
    case True
    then obtain bm om where "b = VMap bm" "v = VMap om" by (cases b; cases v) auto
    with 3 show ?thesis by simp
  next
    case False
    then have eq: "mergeVal b v = (case (toNamedMapSlice b, toNamedMapSlice v) of
        (Some bs, Some os) \<Rightarrow> VMaps (mergeNamedMapSlice bs os) | _ \<Rightarrow> v)"
      by (auto simp: mergeVal_eq split: option.split)
    have "wft (VMaps (mergeNamedMapSlice bs os))" if bo: "toNamedMapSlice b = Some bs" "toNamedMapSlice v = Some os" for bs os
    proof -
      have "wft (VMap m)" if "m \<in> set (mergeNamedMapSlice bs os)" for m
      proof -
        have ih: "wft (VMap (deepMergeMap (bs ! i) oe))"
          if "oe \<in> set os" "matchIdx bs oe = Some i" for oe i
        proof -
          have wf: "wft (VMap (bs ! i))" "wft (VMap oe)"
            using that toNamed_wf bo "3.prems" matchIdx_Some[of bs oe i] nth_mem by blast+
          show ?thesis
          proof (cases "asMap b")
            case None
            from "3.IH"(1)[OF refl None refl bo that wf] show ?thesis .
          next
            case (Some bm)
            with False have "asMap v = None" by simp
            from "3.IH"(2)[OF refl Some this refl bo that wf] show ?thesis .
          qed
        qed
        from that consider oe where "oe \<in> set os" "m = (case matchIdx bs oe of None \<Rightarrow> oe | Some i \<Rightarrow> deepMergeMap (bs ! i) oe)"
          | "m \<in> set (unmatched bs os)" by (auto simp: mergeNamedMapSlice_def)
        then show ?thesis
        proof cases
          case (1 oe)
          with ih toNamed_wf[OF bo(2) "3.prems"(2)] show ?thesis by (auto split: option.splits)
        next
          case 2
          with unmatched_subset toNamed_wf[OF bo(1) "3.prems"(1)] show ?thesis by blast
        qed
      qed
      then show ?thesis by auto
    qed
    with eq "3.prems" show ?thesis by (auto split: option.split)
  qed
qed

text \<open>\<^verbatim>\<open>MergeDeep\<close>: how a user's configuration and the one the operator generates are combined. A
  plain value of the override (not a map, not a list of named maps) is found at its path; a path the
  override says nothing about reads as in the base; the result is again a tree with distinct keys.\<close>

theorem toml_merge_deep:
  assumes base: "wft (VMap base)" and ov: "wft (VMap ov)"
  shows "wft (VMap (deepMergeMap base ov)) \<and>
    (\<forall>p v. p \<noteq> [] \<longrightarrow> get ov p = v \<longrightarrow> v \<noteq> VNil \<longrightarrow> asMap v = None \<longrightarrow> toNamedMapSlice v = None \<longrightarrow>
       get (deepMergeMap base ov) p = v) \<and>
    (\<forall>p. untouched ov p \<longrightarrow> get (deepMergeMap base ov) p = get base p)"
  using wf_merge(1)[OF base ov] get_deepMergeMap_wins[OF _ _ _ _ _ ov] get_deepMergeMap_keeps[OF _ ov] by blast

theorem toml_merge_deep_witness:
  "let base = [(''log'', VMap [(''level'', VStr ''info''), (''file'', VStr ''f'')])];
       ov = [(''log'', VMap [(''level'', VStr ''debug'')])]
   in get (deepMergeMap base ov) [''log'', ''level''] = VStr ''debug'' \<and>
      get (deepMergeMap base ov) [''log'', ''file''] = VStr ''f''"
proof -
  let ?base = "[(''log'', VMap [(''level'', VStr ''info''), (''file'', VStr ''f'')])]"
  let ?ov = "[(''log'', VMap [(''level'', VStr ''debug'')])]"
  have "wft (VMap ?base)" "wft (VMap ?ov)" by simp_all
  note merged = toml_merge_deep[OF this]
  have "get (deepMergeMap ?base ?ov) [''log'', ''level''] = VStr ''debug''"
    by (rule merged[THEN conjunct2, THEN conjunct1, rule_format]) (simp_all add: mapGet_def)
  moreover have "get (deepMergeMap ?base ?ov) [''log'', ''file''] = get ?base [''log'', ''file'']"
    by (rule merged[THEN conjunct2, THEN conjunct2, rule_format]) simp
  ultimately show ?thesis by (simp add: mapGet_def)
qed

text \<open>\<^verbatim>\<open>mergeNamedMapSlice\<close>: lists of named sections (the file services) are merged entry by entry.
  When the base has no two entries of the same name, each override entry that has the name of a base
  entry is merged into that entry, each other override entry is taken as it is, and each base entry
  that no override entry names is kept.\<close>

theorem toml_named_merge:
  assumes uniq: "\<forall>i j. i < length base \<longrightarrow> j < length base \<longrightarrow> nameOf (base ! i) = nameOf (base ! j) \<longrightarrow>
      nameOf (base ! i) \<noteq> None \<longrightarrow> i = j"
  shows "(\<forall>oe \<in> set ov. \<forall>b \<in> set base. nameOf oe = nameOf b \<longrightarrow> nameOf b \<noteq> None \<longrightarrow> nameOf b \<noteq> Some [] \<longrightarrow>
        deepMergeMap b oe \<in> set (mergeNamedMapSlice base ov)) \<and>
    (\<forall>oe \<in> set ov. (\<forall>b \<in> set base. nameOf b \<noteq> nameOf oe) \<longrightarrow> oe \<in> set (mergeNamedMapSlice base ov)) \<and>
    (\<forall>b \<in> set base. (\<forall>oe \<in> set ov. nameOf oe \<noteq> nameOf b) \<longrightarrow> b \<in> set (mergeNamedMapSlice base ov))"
proof (intro conjI ballI impI)
  fix oe b assume oe: "oe \<in> set ov" and b: "b \<in> set base" and n: "nameOf oe = nameOf b" "nameOf b \<noteq> None" "nameOf b \<noteq> Some []"
  then obtain x where x: "nameOf oe = Some x" "x \<noteq> []" by auto
  with b n obtain i where i: "matchIdx base oe = Some i"
    using baseByName_None[of base 0 x] by (cases "baseByName base 0 x") (auto simp: matchIdx_def)
  obtain j where j: "j < length base" "base ! j = b" using b by (auto simp: in_set_conv_nth)
  from matchIdx_Some[OF i] j n uniq have "i = j" by auto
  with i j oe show "deepMergeMap b oe \<in> set (mergeNamedMapSlice base ov)"
    by (force simp: mergeNamedMapSlice_def)
next
  fix oe assume oe: "oe \<in> set ov" and free: "\<forall>b \<in> set base. nameOf b \<noteq> nameOf oe"
  then have "matchIdx base oe = None"
    using matchIdx_Some[of base oe] by (cases "matchIdx base oe") auto
  with oe show "oe \<in> set (mergeNamedMapSlice base ov)" by (force simp: mergeNamedMapSlice_def)
next
  fix b assume b: "b \<in> set base" and free: "\<forall>oe \<in> set ov. nameOf oe \<noteq> nameOf b"
  obtain j where j: "j < length base" "base ! j = b" using b by (auto simp: in_set_conv_nth)
  then have "\<not> list_ex (\<lambda>oe. matchIdx base oe = Some j) ov"
    using free matchIdx_Some[of base _ j] by (auto simp: list_ex_iff)
  with j show "b \<in> set (mergeNamedMapSlice base ov)" by (force simp: mergeNamedMapSlice_def unmatched_def)
qed

theorem toml_named_merge_witness:
  "[(''name'', VStr ''S3''), (''key'', VStr ''k'')] \<in>
     set (mergeNamedMapSlice [[(''name'', VStr ''S3''), (''key'', VStr ''k'')]] [[(''name'', VStr ''LOCAL'')]])"
  using toml_named_merge[of "[[(''name'', VStr ''S3''), (''key'', VStr ''k'')]]" "[[(''name'', VStr ''LOCAL'')]]"]
  by (auto simp: nameOf_def)

end
