(* ===== verification/Set_Objects.thy ===== *)
theory Set_Objects
  imports Log_Objects Toml_Config
begin

text \<open>
  The pods and sets the operator builds: the pod template with its containers and volumes, the overlay and the
  pod set of the specifications, the CN and DN set, the clone set, stateful set, service and volume claims behind them.
  \<open>'w senv\<close> is the outside world of the set controllers.
\<close>

section \<open>Objects\<close>

text \<open>Parts of Kubernetes objects that the operator only copies (probes, tolerations, affinity, resources) are
  strings.\<close>

datatype env_source = EnvValue string | EnvFieldRef string | EnvSecretKey string string | EnvOther string

record env_var =
  ev_name :: string
  ev_src :: env_source

record mount =
  mt_name :: string
  mt_path :: string
  mt_readOnly :: bool

datatype vol_source = VolConfigMap string | VolSecret string | VolEmptyMemory int | VolOther string

record volume =
  vo_name :: string
  vo_source :: vol_source

record pvc =
  pvc_name :: string
  pvc_ns :: string
  pvc_labels :: gomap
  pvc_size :: int
  pvc_class :: "string option"

record ctr =
  kc_name :: string
  kc_image :: string
  kc_resources :: string
  kc_command :: "string list"
  kc_args :: "string list"
  kc_env :: "env_var list"
  kc_envFrom :: "string list"
  kc_mounts :: "mount list"
  kc_pullPolicy :: "string option"
  kc_readiness :: "string option"
  kc_liveness :: "string option"
  kc_startup :: "string option"
  kc_lifecycle :: "string option"
  kc_security :: "string option"

datatype topology = TopoSpread string gomap | TopoOther string

record pod_spec =
  ps_volumes :: "volume list"
  ps_containers :: "ctr list"
  ps_init :: "ctr list"
  ps_gates :: "string list"
  ps_nodeSelector :: gomap
  ps_topology :: "topology list"
  ps_subdomain :: string
  ps_affinity :: "string option"
  ps_serviceAccount :: string
  ps_security :: "string option"
  ps_pullSecrets :: "string list"
  ps_tolerations :: "string list"
  ps_priorityClass :: string
  ps_grace :: "int option"
  ps_hostAliases :: "string list"
  ps_runtimeClass :: "string option"
  ps_dnsConfig :: "string option"
  ps_shareProcess :: "bool option"

record pod_tpl =
  pm_labels :: gomap
  pm_annos :: gomap
  pm_spec :: pod_spec

text \<open>\<^verbatim>\<open>MainContainerOverlay\<close> and \<^verbatim>\<open>Overlay\<close>; \<open>None\<close> is nil.\<close>

record main_overlay =
  oc_command :: "string list option"
  oc_args :: "string list option"
  oc_envFrom :: "string list option"
  oc_env :: "env_var list option"
  oc_pullPolicy :: "string option"
  oc_mounts :: "mount list option"
  oc_liveness :: "string option"
  oc_readiness :: "string option"
  oc_startup :: "string option"
  oc_lifecycle :: "string option"
  oc_security :: "string option"

record pod_overlay =
  po_main :: main_overlay
  po_volumes :: "volume list option"
  po_claims :: "pvc list"
  po_init :: "ctr list option"
  po_sidecars :: "ctr list option"
  po_serviceAccount :: string
  po_security :: "string option"
  po_pullSecrets :: "string list option"
  po_affinity :: "string option"
  po_tolerations :: "string list option"
  po_priorityClass :: string
  po_grace :: "int option"
  po_hostAliases :: "string list option"
  po_topology :: "topology list option"
  po_runtimeClass :: "string option"
  po_dnsConfig :: "string option"
  po_labels :: gomap
  po_annos :: gomap
  po_shareProcess :: "bool option"

datatype prom_scheme = PromDiscoverySchemePod | PromDiscoverySchemeService | PromDiscoveryOther string

text \<open>\<^verbatim>\<open>PodSet\<close>; \<open>pd_memLimit\<close> and \<open>pd_memRequest\<close> are the \<^verbatim>\<open>Value()\<close> of the memory limit and request, 0 when there is none.\<close>

record pod_set =
  pd_image :: string
  pd_resources :: string
  pd_memLimit :: int
  pd_memRequest :: int
  pd_overlay :: "pod_overlay option"
  pd_replicas :: int
  pd_topology :: "string list option"
  pd_nodeSelector :: gomap
  pd_config :: "toml_config option"
  pd_dnsIdentity :: "bool option"
  pd_clusterDomain :: string
  pd_serviceArgs :: "string list"
  pd_memLimitPercent :: "int option"
  pd_exportProm :: "bool option"
  pd_promScheme :: "prom_scheme option"
  pd_semVersion :: "string option"
  pd_opVersion :: "string option"
  pd_memoryFs :: "int option"

record shared_storage =
  sh_s3 :: "s3_provider option"
  sh_fs :: "string option"

text \<open>\<^verbatim>\<open>SharedStorageCache\<close>: the sizes of the memory and of the disk cache.\<close>

record storage_cache =
  sk_memory :: "int option"
  sk_disk :: "int option"

section \<open>CN sets and DN sets\<close>

text \<open>\<^verbatim>\<open>Volume\<close>, \<^verbatim>\<open>PythonUdfSidecar\<close> and the whole \<^verbatim>\<open>CNSetSpec\<close>, of which the pool controller sees a part
  (\<open>cnset_spec\<close>).\<close>

record vol_claim =
  vc_size :: int
  vc_class :: "string option"

record udf_sidecar =
  us_enabled :: bool
  us_port :: int
  us_image :: string
  us_resources :: string
  us_overlay :: "main_overlay option"

record cn_spec =
  cns_pod :: pod_set
  cns_cacheVolume :: "vol_claim option"
  cns_cache :: storage_cache
  cns_sidecar :: udf_sidecar
  cns_serviceType :: string
  cns_serviceAnnos :: gomap
  cns_nodePort :: "int option"
  cns_role :: string
  cns_labels :: "cn_label list"
  cns_scaling :: scaling_config
  cns_maxSurge :: "int option"
  cns_maxUnavailable :: "int option"
  cns_termination :: "string option"
  cns_podManagement :: "string option"
  cns_podsToDelete :: "string list"
  cns_pauseUpdate :: bool
  cns_reusePVC :: "bool option"

record dn_spec =
  dns_pod :: pod_set
  dns_cacheVolume :: "vol_claim option"
  dns_cache :: storage_cache

section \<open>Libraries\<close>

text \<open>The library \<^verbatim>\<open>util\<close> of \<^verbatim>\<open>matrixorigin/controller-runtime\<close>, the version library, JSON, xxhash and the text
  templates of the start scripts.\<close>

record tools =
  u_findContainer :: "ctr list \<Rightarrow> (ctr \<Rightarrow> bool) \<Rightarrow> ctr option"
  u_findEnv :: "env_var list \<Rightarrow> (env_var \<Rightarrow> bool) \<Rightarrow> env_var option"
  u_findVolume :: "volume list \<Rightarrow> (volume \<Rightarrow> bool) \<Rightarrow> volume option"
  u_upsertVolume :: "volume list \<Rightarrow> volume \<Rightarrow> volume list"
  u_upsertVolumes :: "volume list \<Rightarrow> volume list \<Rightarrow> volume list"
  u_upsertEnv :: "env_var list \<Rightarrow> env_var \<Rightarrow> env_var list"
  u_upsertEnvs :: "env_var list \<Rightarrow> env_var list \<Rightarrow> env_var list"
  u_upsertMount :: "mount list \<Rightarrow> mount \<Rightarrow> mount list"
  u_upsertMounts :: "mount list \<Rightarrow> mount list \<Rightarrow> mount list"
  u_fieldRef :: "string \<Rightarrow> string \<Rightarrow> env_var"
  u_configMapVolume :: "string \<Rightarrow> vol_source"
  u_parseTolerant :: "string \<Rightarrow> semver option"
  u_verString :: "semver \<Rightarrow> string"
  u_verGT :: "semver \<Rightarrow> semver \<Rightarrow> bool"
  u_quantityStr :: "int \<Rightarrow> string"
  u_marshalLabels :: "cn_label list \<Rightarrow> err + string"
  u_marshalData :: "(string \<times> string) list \<Rightarrow> err + string"
  u_xxhash :: "string \<Rightarrow> nat"
  u_script :: "string \<Rightarrow> bool \<Rightarrow> bool \<Rightarrow> string \<Rightarrow> err + string"

section \<open>What runs the pods\<close>

text \<open>A life cycle hook of OpenKruise.\<close>

record hook =
  hk_finalizers :: "string list"
  hk_markNotReady :: bool

record clone_set =
  ks_name :: string
  ks_ns :: string
  ks_labels :: gomap
  ks_annos :: gomap
  ks_replicas :: "int option"
  ks_podsToDelete :: "string list"
  ks_disablePVCReuse :: bool
  ks_scaleMaxUnavailable :: "int option"
  ks_updateType :: string
  ks_maxUnavailable :: "int option"
  ks_maxSurge :: "int option"
  ks_minReadySeconds :: int
  ks_preDelete :: "hook option"
  ks_inPlaceUpdate :: "hook option"
  ks_selector :: gomap
  ks_template :: pod_tpl
  ks_claims :: "pvc list"
  ks_statusReplicas :: int
  ks_statusReady :: int
  ks_statusUpdatedReady :: int
  ks_statusSelector :: string

record kruise_sts =
  kt_name :: string
  kt_ns :: string
  kt_labels :: gomap
  kt_serviceName :: string
  kt_replicas :: "int option"
  kt_reserveOrdinals :: "int list"
  kt_whenDeleted :: string
  kt_whenScaled :: string
  kt_selector :: gomap
  kt_template :: pod_tpl
  kt_claims :: "pvc list"
  kt_statusUpdatedReady :: int

record svc_port =
  spt_name :: string
  spt_port :: int
  spt_nodePort :: int

record service =
  vs_name :: string
  vs_ns :: string
  vs_labels :: gomap
  vs_annos :: gomap
  vs_controller :: "string option"
  vs_selector :: gomap
  vs_type :: string
  vs_ports :: "svc_port list"
  vs_headless :: bool

text \<open>The log set a CN or DN set depends on, as the framework resolved it (\<^verbatim>\<open>ctx.Dep.Deps.LogSet\<close>): its shared storage and
  the discovery address of its status.\<close>

record log_dep =
  ld_logset :: logset
  ld_storage :: shared_storage
  ld_discovery :: "(string \<times> int) option"

text \<open>\<open>cns_depLog\<close> is the reference in the object (namespace and name), \<open>cns_dep\<close> the resolved dependency: \<open>None\<close> is a nil
  \<^verbatim>\<open>ctx.Dep\<close>, \<open>Some None\<close> a nil log set in it.\<close>

record cn_store =
  cst_uuid :: string
  cst_pod :: string
  cst_state :: string

record cn_set =
  cno_name :: string
  cno_ns :: string
  cno_uid :: string
  cno_kind :: string
  cno_spec :: cn_spec
  cno_depLog :: "obj_key option"
  cno_dep :: "log_dep option option"
  cno_conditions :: "condition list"
  cno_stores :: "cn_store list"
  cno_statusReplicas :: int
  cno_statusReady :: int
  cno_statusSelector :: string
  cno_host :: string
  cno_port :: int

record dn_set =
  dno_name :: string
  dno_ns :: string
  dno_uid :: string
  dno_kind :: string
  dno_spec :: dn_spec
  dno_depLog :: "obj_key option"
  dno_dep :: "log_dep option option"
  dno_conditions :: "condition list"
  dno_failover :: failover_status

text \<open>The owner references of an object a controller watches.\<close>

record owner_ref =
  or_controller :: "bool option"
  or_apiVersion :: string
  or_kind :: string
  or_name :: string

datatype watched = WatchedSts (wt_ns: string) (wt_name: string) (wt_owners: "owner_ref list") (wt_reserve: "int list") | WatchedOther

text \<open>\<open>s_l\<close> holds what is shared with the log set controller: config maps, pods, buckets and the stateful sets of log sets.
  \<open>s_dryRun\<close> is an update with \<^verbatim>\<open>client.DryRunAll\<close>: the object as the server would store it. \<open>s_setCondition\<close> is
  \<^verbatim>\<open>meta.SetStatusCondition\<close> and \<open>s_isReady\<close> is \<^verbatim>\<open>recon.IsReady\<close>.\<close>

record 'w senv =
  s_l :: "'w lenv"
  s_clonesets :: "(clone_set, 'w) kind_api"
  s_csBegin :: "clone_set \<Rightarrow> 'w \<Rightarrow> (err + clone_set) \<times> 'w"
  s_csCommit :: "clone_set \<Rightarrow> clone_set \<Rightarrow> 'w \<Rightarrow> (err + clone_set) \<times> 'w"
  s_stss :: "(kruise_sts, 'w) kind_api"
  s_svcs :: "(service, 'w) kind_api"
  s_svcBegin :: "service \<Rightarrow> 'w \<Rightarrow> (err + service) \<times> 'w"
  s_svcCommit :: "service \<Rightarrow> service \<Rightarrow> 'w \<Rightarrow> (err + service) \<times> 'w"
  s_pvcs :: "(pvc, 'w) kind_api"
  s_dryRunCloneSet :: "clone_set \<Rightarrow> 'w \<Rightarrow> (err + clone_set) \<times> 'w"
  s_dryRunSts :: "kruise_sts \<Rightarrow> 'w \<Rightarrow> (err + kruise_sts) \<times> 'w"
  s_setControllerRef :: "string \<Rightarrow> service \<Rightarrow> err + service"
  s_setCondition :: "condition list \<Rightarrow> condition \<Rightarrow> 'w \<Rightarrow> condition list \<times> 'w"
  s_isReady :: "condition list \<Rightarrow> bool"
  s_sha256hex :: "string \<Rightarrow> string"
  s_podUp :: "pod \<Rightarrow> 'w \<Rightarrow> bool \<times> 'w"

end
