(* ===== verification/Kube_Laws.thy ===== *)
theory Kube_Laws
  imports Set_Objects
begin

text \<open>
  How the theorems speak about the outside world.

  \<^item> \<open>logged E\<close> runs on any environment \<open>E\<close> and keeps, beside its world, the list of
    the writes sent to it, newest first. A theorem over \<open>logged E\<close> says what a handler can
    send, whatever the API server, HAKeeper and the clock answer.
  \<^item> The laws of the Kubernetes API a theorem may name as a hypothesis: an update is accepted only
    on the current resource version (optimistic concurrency), a cached list returns versions that
    existed and match the query, a version has one content.
\<close>

named_theorems sendsR "what a handler can send"
named_theorems fromR "what a handler can send from a given object"

section \<open>Logged environments\<close>

datatype 'o kwrite =
    WCreate 'o
  | WUpdate 'o
  | WPatch 'o 'o
  | WUpdateStatus 'o
  | WPatchStatus 'o 'o
  | WDelete 'o

datatype event =
    PodW "pod kwrite"
  | ClaimW "cnclaim kwrite"
  | PoolW "cnpool kwrite"
  | CNSetW "cnset kwrite"
  | LogSetW "logset_ref kwrite"
  | CNSetOwnedW cnset cnset
  | CNSetDeleteAllW string list_opt
  | StoreW string cn_state_label
  | StoreLabelW string string "store_labels option"
  | StoreDeleteW string string
  | RestartW string string
  | BucketW "bucket_claim kwrite"
  | LogSetObjW "logset kwrite"
  | JobW "job kwrite"
  | ConfigMapW "config_map kwrite"
  | ConfigMapOwnedW config_map config_map
  | StsW "stateful_set kwrite"
  | ServiceW "obj_key kwrite"
  | CloneSetW "clone_set kwrite"
  | CloneSetOwnedW clone_set clone_set
  | KruiseStsW "kruise_sts kwrite"
  | SvcW "service kwrite"
  | SvcOwnedW service service
  | PvcW "pvc kwrite"

text \<open>The log of a controller can have events of any type \<open>'e\<close>.\<close>

type_synonym ('w, 'e) elog = "'w \<times> 'e list"

type_synonym 'w lworld = "('w, event) elog"

text \<open>A read leaves the log alone, a write is logged when it is sent, whether or not it succeeds.\<close>

definition readL :: "('w \<Rightarrow> 'r \<times> 'w) \<Rightarrow> ('w, 'e) elog \<Rightarrow> 'r \<times> ('w, 'e) elog" where
  "readL f x = (case f (fst x) of (r, w) \<Rightarrow> (r, (w, snd x)))"

definition writeL :: "'e \<Rightarrow> ('w \<Rightarrow> 'r \<times> 'w) \<Rightarrow> ('w, 'e) elog \<Rightarrow> 'r \<times> ('w, 'e) elog" where
  "writeL e f x = (case f (fst x) of (r, w) \<Rightarrow> (r, (w, e # snd x)))"

definition logKind :: "('o kwrite \<Rightarrow> 'e) \<Rightarrow> ('o, 'w) kind_api \<Rightarrow> ('o, ('w, 'e) elog) kind_api" where
  "logKind ev a =
     \<lparr>api_get = (\<lambda>k. readL (api_get a k)),
      api_list = (\<lambda>ns opt. readL (api_list a ns opt)),
      api_create = (\<lambda>x. writeL (ev (WCreate x)) (api_create a x)),
      api_update = (\<lambda>x. writeL (ev (WUpdate x)) (api_update a x)),
      api_patch = (\<lambda>x y. writeL (ev (WPatch x y)) (api_patch a x y)),
      api_updateStatus = (\<lambda>x. writeL (ev (WUpdateStatus x)) (api_updateStatus a x)),
      api_patchStatus = (\<lambda>x y. writeL (ev (WPatchStatus x y)) (api_patchStatus a x y)),
      api_delete = (\<lambda>x. writeL (ev (WDelete x)) (api_delete a x))\<rparr>"

definition logMO :: "'w mo_api \<Rightarrow> 'w lworld mo_api" where
  "logMO m =
     \<lparr>mo_getClient = (\<lambda>l. readL (mo_getClient m l)),
      mo_patchCNStore = (\<lambda>h r. writeL (StoreW h r) (mo_patchCNStore m h r)),
      mo_updateCNLabel = (\<lambda>h u l. writeL (StoreLabelW h u l) (mo_updateCNLabel m h u l)),
      mo_deleteCNStore = (\<lambda>h u. writeL (StoreDeleteW h u) (mo_deleteCNStore m h u)),
      mo_getCN = (\<lambda>h u. readL (mo_getCN m h u)),
      mo_canRestartCN = (\<lambda>h u. readL (mo_canRestartCN m h u)),
      mo_setRestartCN = (\<lambda>h u. writeL (RestartW h u) (mo_setRestartCN m h u)),
      mo_remainTxnCount = (\<lambda>h u. readL (mo_remainTxnCount m h u)),
      q_showProcessList = (\<lambda>a. readL (q_showProcessList m a)),
      q_getPipelineInfo = (\<lambda>a. readL (q_getPipelineInfo m a)),
      q_getReplicaCount = (\<lambda>a. readL (q_getReplicaCount m a))\<rparr>"

definition logged :: "'w env \<Rightarrow> 'w lworld env" where
  "logged E =
     \<lparr>e_pods = logKind PodW (e_pods E),
      e_claims = logKind ClaimW (e_claims E),
      e_claimsNoCache = logKind ClaimW (e_claimsNoCache E),
      e_pools = logKind PoolW (e_pools E),
      e_cnsets = logKind CNSetW (e_cnsets E),
      e_ownedBegin = (\<lambda>x. readL (e_ownedBegin E x)),
      e_ownedCommit = (\<lambda>x y. writeL (CNSetOwnedW x y) (e_ownedCommit E x y)),
      e_deleteAllCNSets = (\<lambda>ns opt. writeL (CNSetDeleteAllW ns opt) (e_deleteAllCNSets E ns opt)),
      e_logsets = logKind LogSetW (e_logsets E),
      e_getOther = (\<lambda>k x. readL (e_getOther E k x)),
      e_mo = logMO (e_mo E),
      e_now = readL (e_now E),
      e_randString = (\<lambda>n. readL (e_randString E n)),
      e_asSelector = e_asSelector E,
      e_newRequirement = e_newRequirement E,
      e_selectorMatches = e_selectorMatches E,
      e_parseLabelSelector = e_parseLabelSelector E,
      e_isPodReady = e_isPodReady E,
      e_isReady = e_isReady E,
      e_sha256hex = e_sha256hex E,
      e_hashSpec = e_hashSpec E,
      e_parseVersion = e_parseVersion E,
      e_parseTolerant = e_parseTolerant E,
      e_formatTime = e_formatTime E,
      e_parseTime = e_parseTime E,
      e_marshalScore = e_marshalScore E,
      e_unmarshalScore = e_unmarshalScore E,
      e_unmarshalLabels = e_unmarshalLabels E,
      e_sortPods = e_sortPods E,
      e_sortClaims = e_sortClaims E\<rparr>"

definition loggedL :: "'w lenv \<Rightarrow> 'w lworld lenv" where
  "loggedL L =
     \<lparr>l_buckets = logKind BucketW (l_buckets L),
      l_logsets = logKind LogSetObjW (l_logsets L),
      l_jobs = logKind JobW (l_jobs L),
      l_cms = logKind ConfigMapW (l_cms L),
      l_sts = logKind StsW (l_sts L),
      l_pods = logKind PodW (l_pods L),
      l_services = logKind ServiceW (l_services L),
      l_cmBegin = (\<lambda>x. readL (l_cmBegin L x)),
      l_cmCommit = (\<lambda>x y. writeL (ConfigMapOwnedW x y) (l_cmCommit L x y)),
      l_now = readL (l_now L),
      l_s3Reclaim = l_s3Reclaim L,
      l_sha1hex = l_sha1hex L,
      l_findFirst = l_findFirst L,
      l_podOrdinal = l_podOrdinal L,
      l_upsert = l_upsert L,
      l_marshalReplicas = l_marshalReplicas L,
      l_unmarshalReplicas = l_unmarshalReplicas L\<rparr>"

definition loggedS :: "'w senv \<Rightarrow> 'w lworld senv" where
  "loggedS S =
     \<lparr>s_l = loggedL (s_l S),
      s_clonesets = logKind CloneSetW (s_clonesets S),
      s_csBegin = (\<lambda>x. readL (s_csBegin S x)),
      s_csCommit = (\<lambda>x y. writeL (CloneSetOwnedW x y) (s_csCommit S x y)),
      s_stss = logKind KruiseStsW (s_stss S),
      s_svcs = logKind SvcW (s_svcs S),
      s_svcBegin = (\<lambda>x. readL (s_svcBegin S x)),
      s_svcCommit = (\<lambda>x y. writeL (SvcOwnedW x y) (s_svcCommit S x y)),
      s_pvcs = logKind PvcW (s_pvcs S),
      s_dryRunCloneSet = (\<lambda>x. readL (s_dryRunCloneSet S x)),
      s_dryRunSts = (\<lambda>x. readL (s_dryRunSts S x)),
      s_setControllerRef = s_setControllerRef S,
      s_setCondition = (\<lambda>cs c. readL (s_setCondition S cs c)),
      s_isReady = s_isReady S,
      s_sha256hex = s_sha256hex S,
      s_podUp = (\<lambda>p. readL (s_podUp S p))\<rparr>"

abbreviation logOf :: "('o, ('w, 'e) elog) ctx \<Rightarrow> 'e list" where
  "logOf s \<equiv> snd (world s)"

text \<open>\<open>onlySends P ok m\<close>: run on an object that satisfies \<open>P\<close>, the handler keeps \<open>P\<close>, and
  every event it adds to the log satisfies \<open>ok\<close>.\<close>

definition onlySends :: "('o \<Rightarrow> bool) \<Rightarrow> ('e \<Rightarrow> bool) \<Rightarrow> (('o, ('w, 'e) elog) ctx, 'a) rm \<Rightarrow> bool" where
  "onlySends P ok m \<longleftrightarrow> (\<forall>s r s'. P (Obj s) \<longrightarrow> m s = (r, s') \<longrightarrow>
     P (Obj s') \<and> (\<exists>es. logOf s' = es @ logOf s \<and> (\<forall>e \<in> set es. ok e)))"

lemma onlySendsD:
  assumes "onlySends P ok m" and "P (Obj s)" and "m s = (r, s')"
  obtains es where "logOf s' = es @ logOf s" and "\<forall>e \<in> set es. ok e" and "P (Obj s')"
  using assms unfolding onlySends_def by blast

lemma onlySendsI:
  "(\<And>s r s'. P (Obj s) \<Longrightarrow> m s = (r, s') \<Longrightarrow>
      P (Obj s') \<and> (\<exists>es. logOf s' = es @ logOf s \<and> (\<forall>e \<in> set es. ok e))) \<Longrightarrow> onlySends P ok m"
  unfolding onlySends_def by blast

lemma onlySends_quiet:
  "(\<And>s. P (Obj s) \<Longrightarrow> logOf (snd (m s)) = logOf s \<and> P (Obj (snd (m s)))) \<Longrightarrow> onlySends P ok m"
proof (rule onlySendsI)
  fix s r s' assume q: "\<And>s. P (Obj s) \<Longrightarrow> logOf (snd (m s)) = logOf s \<and> P (Obj (snd (m s)))"
    and s: "P (Obj s)" "m s = (r, s')"
  then have "logOf s' = [] @ logOf s \<and> P (Obj s')" using q[of s] by simp
  then show "P (Obj s') \<and> (\<exists>es. logOf s' = es @ logOf s \<and> (\<forall>e \<in> set es. ok e))" by fastforce
qed

lemma onlySends_one:
  "(\<And>s. P (Obj s) \<Longrightarrow> logOf (snd (m s)) = e s # logOf s \<and> P (Obj (snd (m s))) \<and> ok (e s)) \<Longrightarrow> onlySends P ok m"
proof (rule onlySendsI)
  fix s r s' assume q: "\<And>s. P (Obj s) \<Longrightarrow> logOf (snd (m s)) = e s # logOf s \<and> P (Obj (snd (m s))) \<and> ok (e s)"
    and s: "P (Obj s)" "m s = (r, s')"
  then have "logOf s' = [e s] @ logOf s \<and> P (Obj s') \<and> (\<forall>x \<in> set [e s]. ok x)" using q[of s] by simp
  then show "P (Obj s') \<and> (\<exists>es. logOf s' = es @ logOf s \<and> (\<forall>e \<in> set es. ok e))" by blast
qed

lemma onlySends_ret [sendsR]: "onlySends P ok (ret x)"
  by (rule onlySends_quiet) (simp add: monad_simps)

lemma onlySends_throw [sendsR]: "onlySends P ok (throw e)"
  by (rule onlySends_quiet) (simp add: monad_simps)

lemma onlySends_errorf [sendsR]: "onlySends P ok (errorf m)" "onlySends P ok (ErrReSync m d)"
  by (rule onlySends_quiet, simp add: monad_simps)+

lemma onlySends_modObj [sendsR]: "(\<And>c. P c \<Longrightarrow> P (f c)) \<Longrightarrow> onlySends P ok (modObj f)"
  by (rule onlySends_quiet) (simp add: monad_simps)

lemma onlySends_orPanic [sendsR]: "onlySends P ok (orPanic x)"
  by (cases x) (auto simp: orPanic_def intro: sendsR)

lemma onlySends_liftE [sendsR]: "onlySends P ok (liftE x)"
  by (cases x) (auto simp: liftE_def intro: sendsR)

text \<open>The result of \<open>getObj\<close> satisfies \<open>P\<close>; what another step returned may be used as well
  (\<open>onlySends_bind_run\<close>).\<close>

lemma onlySends_bind_run:
  assumes m: "onlySends P ok m"
    and f: "\<And>s x s1. P (Obj s) \<Longrightarrow> m s = (Inr x, s1) \<Longrightarrow> onlySends P ok (f x)"
  shows "onlySends P ok (bindR m f)"
proof (rule onlySendsI)
  fix s r s' assume P: "P (Obj s)" and run: "bindR m f s = (r, s')"
  from run show "P (Obj s') \<and> (\<exists>es. logOf s' = es @ logOf s \<and> (\<forall>e \<in> set es. ok e))"
  proof (cases rule: bindR_cases)
    case (err e)
    then show ?thesis using m P by (meson onlySendsD)
  next
    case (ok x s1)
    obtain es where es: "logOf s1 = es @ logOf s" "\<forall>e \<in> set es. ok e" "P (Obj s1)"
      using m P ok(1) by (rule onlySendsD)
    obtain es' where es': "logOf s' = es' @ logOf s1" "\<forall>e \<in> set es'. ok e" "P (Obj s')"
      using f[OF P ok(1)] es(3) ok(2) by (rule onlySendsD)
    have "logOf s' = (es' @ es) @ logOf s" using es es' by simp
    moreover have "\<forall>e \<in> set (es' @ es). ok e" using es es' by auto
    ultimately show ?thesis using es' by blast
  qed
qed

lemma onlySends_getObj [sendsR]: "(\<And>c. P c \<Longrightarrow> onlySends P ok (f c)) \<Longrightarrow> onlySends P ok (bindR getObj f)"
  by (rule onlySends_bind_run) (auto simp: monad_simps intro: onlySends_quiet)

lemma onlySends_bind_orPanic [sendsR]:
  "(\<And>y. x = Some y \<Longrightarrow> onlySends P ok (f y)) \<Longrightarrow> onlySends P ok (bindR (orPanic x) f)"
  by (cases x) (auto simp: orPanic_def intro: sendsR)

lemma onlySends_bind [sendsR]:
  "onlySends P ok m \<Longrightarrow> (\<And>x. onlySends P ok (f x)) \<Longrightarrow> onlySends P ok (bindR m f)"
  by (rule onlySends_bind_run)

lemma onlySends_attempt [sendsR]: "onlySends P ok m \<Longrightarrow> onlySends P ok (attempt m)"
  unfolding onlySends_def by (fastforce simp: monad_simps split: prod.splits sum.splits if_splits)

lemma onlySends_wrapE [sendsR]: "onlySends P ok m \<Longrightarrow> onlySends P ok (wrapE p m)"
  unfolding onlySends_def by (fastforce simp: monad_simps split: prod.splits sum.splits)

lemma onlySends_if [sendsR]:
  "(b \<Longrightarrow> onlySends P ok m) \<Longrightarrow> (\<not> b \<Longrightarrow> onlySends P ok n) \<Longrightarrow> onlySends P ok (if b then m else n)"
  by simp

lemma onlySends_option [sendsR]:
  "(x = None \<Longrightarrow> onlySends P ok m) \<Longrightarrow> (\<And>y. x = Some y \<Longrightarrow> onlySends P ok (f y))
    \<Longrightarrow> onlySends P ok (case x of None \<Rightarrow> m | Some y \<Rightarrow> f y)"
  by (cases x) auto

lemma onlySends_sum [sendsR]:
  "(\<And>e. x = Inl e \<Longrightarrow> onlySends P ok (f e)) \<Longrightarrow> (\<And>y. x = Inr y \<Longrightarrow> onlySends P ok (g y))
    \<Longrightarrow> onlySends P ok (case x of Inl e \<Rightarrow> f e | Inr y \<Rightarrow> g y)"
  by (cases x) auto

lemma onlySends_list [sendsR]:
  "(x = [] \<Longrightarrow> onlySends P ok m) \<Longrightarrow> (\<And>y ys. x = y # ys \<Longrightarrow> onlySends P ok (f y ys))
    \<Longrightarrow> onlySends P ok (case x of [] \<Rightarrow> m | y # ys \<Rightarrow> f y ys)"
  by (cases x) auto

lemma onlySends_forR: "(\<And>x. x \<in> set xs \<Longrightarrow> onlySends P ok (f x)) \<Longrightarrow> onlySends P ok (forR f xs)"
  by (induction xs) (auto intro!: onlySends_ret onlySends_bind)

lemma onlySends_readW [sendsR]: "onlySends P ok (readW (readL f))"
  by (rule onlySends_quiet) (simp add: monad_simps readL_def split: prod.splits)

lemma onlySends_callW_read [sendsR]: "onlySends P ok (callW (readL f))"
  by (rule onlySends_quiet) (simp add: monad_simps readL_def split: prod.splits)

lemma onlySends_callW_write [sendsR]: "ok e \<Longrightarrow> onlySends P ok (callW (writeL e f))"
  by (rule onlySends_one[where e = "\<lambda>_. e"]) (simp add: monad_simps writeL_def split: prod.splits)

text \<open>Writes of the object under reconciliation: the event depends on the object, and the answer of
  the server is unknown.\<close>

lemma onlySends_updateObj [sendsR]:
  "(\<And>x. P x) \<Longrightarrow> (\<And>x. ok (e x)) \<Longrightarrow> onlySends P ok (updateObj (\<lambda>x. writeL (e x) (f x)))"
  by (rule onlySends_one[where e = "\<lambda>s. e (Obj s)"])
    (auto simp: monad_simps writeL_def split: prod.splits sum.splits)

lemma onlySends_patchObj [sendsR]:
  "(\<And>x. P x) \<Longrightarrow> (\<And>x. ok (e x (g x))) \<Longrightarrow> onlySends P ok (patchObj (\<lambda>x y. writeL (e x y) (f x y)) g)"
  by (rule onlySends_one[where e = "\<lambda>s. e (Obj s) (g (Obj s))"])
    (auto simp: monad_simps writeL_def split: prod.splits sum.splits)

text \<open>The same with an invariant of the object that the answers keep.\<close>

lemma onlySends_updateObj_inv:
  assumes "\<And>x. P x \<Longrightarrow> ok (e x)" and "\<And>x w y w'. P x \<Longrightarrow> f x w = (Inr y, w') \<Longrightarrow> P y"
  shows "onlySends P ok (updateObj (\<lambda>x. writeL (e x) (f x)))"
  by (rule onlySends_one[where e = "\<lambda>s. e (Obj s)"])
    (auto simp: monad_simps writeL_def assms(1) intro: assms(2) split: prod.splits sum.splits)

lemma onlySends_patchObj_inv:
  assumes "\<And>x. P x \<Longrightarrow> ok (e x (g x))" and "\<And>x. P x \<Longrightarrow> P (g x)"
    and "\<And>x w y w'. P x \<Longrightarrow> f x (g x) w = (Inr y, w') \<Longrightarrow> P y"
  shows "onlySends P ok (patchObj (\<lambda>x y. writeL (e x y) (f x y)) g)"
  by (rule onlySends_one[where e = "\<lambda>s. e (Obj s) (g (Obj s))"])
    (auto simp: monad_simps writeL_def assms(1,2) intro: assms(3) split: prod.splits sum.splits)

lemma logged_simps [simp]:
  "e_pods (logged E) = logKind PodW (e_pods E)"
  "e_claims (logged E) = logKind ClaimW (e_claims E)"
  "e_claimsNoCache (logged E) = logKind ClaimW (e_claimsNoCache E)"
  "e_pools (logged E) = logKind PoolW (e_pools E)"
  "e_cnsets (logged E) = logKind CNSetW (e_cnsets E)"
  "e_ownedBegin (logged E) = (\<lambda>x. readL (e_ownedBegin E x))"
  "e_ownedCommit (logged E) = (\<lambda>x y. writeL (CNSetOwnedW x y) (e_ownedCommit E x y))"
  "e_deleteAllCNSets (logged E) = (\<lambda>ns opt. writeL (CNSetDeleteAllW ns opt) (e_deleteAllCNSets E ns opt))"
  "e_logsets (logged E) = logKind LogSetW (e_logsets E)"
  "e_getOther (logged E) = (\<lambda>k x. readL (e_getOther E k x))"
  "e_mo (logged E) = logMO (e_mo E)"
  "e_now (logged E) = readL (e_now E)"
  "e_randString (logged E) = (\<lambda>n. readL (e_randString E n))"
  "e_asSelector (logged E) = e_asSelector E"
  "e_newRequirement (logged E) = e_newRequirement E"
  "e_selectorMatches (logged E) = e_selectorMatches E"
  "e_parseLabelSelector (logged E) = e_parseLabelSelector E"
  "e_isPodReady (logged E) = e_isPodReady E"
  "e_isReady (logged E) = e_isReady E"
  "e_sha256hex (logged E) = e_sha256hex E"
  "e_hashSpec (logged E) = e_hashSpec E"
  "e_parseVersion (logged E) = e_parseVersion E"
  "e_parseTolerant (logged E) = e_parseTolerant E"
  "e_formatTime (logged E) = e_formatTime E"
  "e_parseTime (logged E) = e_parseTime E"
  "e_marshalScore (logged E) = e_marshalScore E"
  "e_unmarshalScore (logged E) = e_unmarshalScore E"
  "e_unmarshalLabels (logged E) = e_unmarshalLabels E"
  "e_sortPods (logged E) = e_sortPods E"
  "e_sortClaims (logged E) = e_sortClaims E"
  by (simp_all add: logged_def)

lemma logKind_simps [simp]:
  "api_get (logKind ev a) = (\<lambda>k. readL (api_get a k))"
  "api_list (logKind ev a) = (\<lambda>ns opt. readL (api_list a ns opt))"
  "api_create (logKind ev a) = (\<lambda>x. writeL (ev (WCreate x)) (api_create a x))"
  "api_update (logKind ev a) = (\<lambda>x. writeL (ev (WUpdate x)) (api_update a x))"
  "api_patch (logKind ev a) = (\<lambda>x y. writeL (ev (WPatch x y)) (api_patch a x y))"
  "api_updateStatus (logKind ev a) = (\<lambda>x. writeL (ev (WUpdateStatus x)) (api_updateStatus a x))"
  "api_patchStatus (logKind ev a) = (\<lambda>x y. writeL (ev (WPatchStatus x y)) (api_patchStatus a x y))"
  "api_delete (logKind ev a) = (\<lambda>x. writeL (ev (WDelete x)) (api_delete a x))"
  by (simp_all add: logKind_def)

lemma loggedL_simps [simp]:
  "l_buckets (loggedL L) = logKind BucketW (l_buckets L)"
  "l_logsets (loggedL L) = logKind LogSetObjW (l_logsets L)"
  "l_jobs (loggedL L) = logKind JobW (l_jobs L)"
  "l_cms (loggedL L) = logKind ConfigMapW (l_cms L)"
  "l_now (loggedL L) = readL (l_now L)"
  "l_s3Reclaim (loggedL L) = l_s3Reclaim L"
  "l_sha1hex (loggedL L) = l_sha1hex L"
  "l_findFirst (loggedL L) = l_findFirst L"
  "l_sts (loggedL L) = logKind StsW (l_sts L)"
  "l_pods (loggedL L) = logKind PodW (l_pods L)"
  "l_services (loggedL L) = logKind ServiceW (l_services L)"
  "l_cmBegin (loggedL L) = (\<lambda>x. readL (l_cmBegin L x))"
  "l_cmCommit (loggedL L) = (\<lambda>x y. writeL (ConfigMapOwnedW x y) (l_cmCommit L x y))"
  "l_podOrdinal (loggedL L) = l_podOrdinal L"
  "l_upsert (loggedL L) = l_upsert L"
  "l_marshalReplicas (loggedL L) = l_marshalReplicas L"
  "l_unmarshalReplicas (loggedL L) = l_unmarshalReplicas L"
  by (simp_all add: loggedL_def)

lemma loggedS_simps [simp]:
  "s_l (loggedS S) = loggedL (s_l S)"
  "s_clonesets (loggedS S) = logKind CloneSetW (s_clonesets S)"
  "s_csBegin (loggedS S) = (\<lambda>x. readL (s_csBegin S x))"
  "s_csCommit (loggedS S) = (\<lambda>x y. writeL (CloneSetOwnedW x y) (s_csCommit S x y))"
  "s_stss (loggedS S) = logKind KruiseStsW (s_stss S)"
  "s_svcs (loggedS S) = logKind SvcW (s_svcs S)"
  "s_svcBegin (loggedS S) = (\<lambda>x. readL (s_svcBegin S x))"
  "s_svcCommit (loggedS S) = (\<lambda>x y. writeL (SvcOwnedW x y) (s_svcCommit S x y))"
  "s_pvcs (loggedS S) = logKind PvcW (s_pvcs S)"
  "s_dryRunCloneSet (loggedS S) = (\<lambda>x. readL (s_dryRunCloneSet S x))"
  "s_dryRunSts (loggedS S) = (\<lambda>x. readL (s_dryRunSts S x))"
  "s_setControllerRef (loggedS S) = s_setControllerRef S"
  "s_setCondition (loggedS S) = (\<lambda>cs c. readL (s_setCondition S cs c))"
  "s_isReady (loggedS S) = s_isReady S"
  "s_sha256hex (loggedS S) = s_sha256hex S"
  "s_podUp (loggedS S) = (\<lambda>p. readL (s_podUp S p))"
  by (simp_all add: loggedS_def)

lemma logMO_simps [simp]:
  "mo_getClient (logMO m) = (\<lambda>l. readL (mo_getClient m l))"
  "mo_patchCNStore (logMO m) = (\<lambda>h r. writeL (StoreW h r) (mo_patchCNStore m h r))"
  "mo_updateCNLabel (logMO m) = (\<lambda>h u l. writeL (StoreLabelW h u l) (mo_updateCNLabel m h u l))"
  "mo_deleteCNStore (logMO m) = (\<lambda>h u. writeL (StoreDeleteW h u) (mo_deleteCNStore m h u))"
  "mo_getCN (logMO m) = (\<lambda>h u. readL (mo_getCN m h u))"
  "mo_canRestartCN (logMO m) = (\<lambda>h u. readL (mo_canRestartCN m h u))"
  "mo_setRestartCN (logMO m) = (\<lambda>h u. writeL (RestartW h u) (mo_setRestartCN m h u))"
  "mo_remainTxnCount (logMO m) = (\<lambda>h u. readL (mo_remainTxnCount m h u))"
  "q_showProcessList (logMO m) = (\<lambda>a. readL (q_showProcessList m a))"
  "q_getPipelineInfo (logMO m) = (\<lambda>a. readL (q_getPipelineInfo m a))"
  "q_getReplicaCount (logMO m) = (\<lambda>a. readL (q_getReplicaCount m a))"
  by (simp_all add: logMO_def)

lemma onlySends_mono: "onlySends P ok m \<Longrightarrow> (\<And>e. ok e \<Longrightarrow> ok' e) \<Longrightarrow> onlySends P ok' m"
  unfolding onlySends_def by metis

lemma quiet_run:
  assumes "\<And>c. onlySends (\<lambda>x. x = c) (\<lambda>_. False) m" and "m s = (r, s')"
  shows "Obj s' = Obj s" and "logOf s' = logOf s"
proof -
  obtain es where "logOf s' = es @ logOf s" and "\<forall>e \<in> set es. False" and "Obj s' = Obj s"
    using assms(1) refl assms(2) by (rule onlySendsD)
  then show "Obj s' = Obj s" and "logOf s' = logOf s" by simp_all
qed

text \<open>The step of a run that sent the first event of a kind \<open>Q\<close>: a prefix that cannot send one
  returned, and the rest starts from a log without one.\<close>

definition clean :: "('e \<Rightarrow> bool) \<Rightarrow> ('o, ('w, 'e) elog) ctx \<Rightarrow> bool" where
  "clean Q s \<longleftrightarrow> (\<forall>e \<in> set (logOf s). \<not> Q e)"

abbreviation never :: "('e \<Rightarrow> bool) \<Rightarrow> (('o, ('w, 'e) elog) ctx, 'a) rm \<Rightarrow> bool" where
  "never Q m \<equiv> onlySends (\<lambda>_. True) (\<lambda>e. \<not> Q e) m"

lemma clean_run: "never Q m \<Longrightarrow> clean Q s \<Longrightarrow> m s = (r, s') \<Longrightarrow> clean Q s'"
  unfolding clean_def by (erule onlySendsD) auto

lemma clean_bind:
  assumes "never Q m" and "clean Q s" and "bindR m f s = (r, s')" and "\<not> clean Q s'"
  obtains x s1 where "m s = (Inr x, s1)" and "clean Q s1" and "f x s1 = (r, s')"
  using assms(3)
proof (cases rule: bindR_cases)
  case (err e)
  with assms clean_run show thesis by blast
next
  case (ok x s1)
  with assms that clean_run show thesis by blast
qed

lemma clean_bindE:
  assumes "bindR m f s = (r, s')" and "\<not> clean Q s'" and "clean Q s" and "never Q m"
    and "\<And>x s1. m s = (Inr x, s1) \<Longrightarrow> clean Q s1 \<Longrightarrow> f x s1 = (r, s') \<Longrightarrow> thesis"
  shows thesis
  using clean_bind[OF assms(4,3,1,2)] assms(5) by blast

lemma onlySends_bind_liftE:
  "(\<And>y. x = Inr y \<Longrightarrow> onlySends P ok (f y)) \<Longrightarrow> onlySends P ok (bindR (liftE x) f)"
  by (cases x) (auto simp: liftE_def intro: sendsR)

text \<open>What a handler sends when it starts on an object that satisfies \<open>P\<close>, which it may leave.\<close>

definition sendsFrom :: "('o \<Rightarrow> bool) \<Rightarrow> ('e \<Rightarrow> bool) \<Rightarrow> (('o, ('w, 'e) elog) ctx, 'a) rm \<Rightarrow> bool" where
  "sendsFrom P ok m \<longleftrightarrow> (\<forall>s r s'. P (Obj s) \<longrightarrow> m s = (r, s') \<longrightarrow>
     (\<exists>es. logOf s' = es @ logOf s \<and> (\<forall>e \<in> set es. ok e)))"

lemma onlySends_sendsFrom: "onlySends P ok m \<Longrightarrow> sendsFrom P ok m"
  unfolding onlySends_def sendsFrom_def by metis

lemma sendsFrom_any: "onlySends (\<lambda>_. True) ok m \<Longrightarrow> sendsFrom P ok m"
  unfolding onlySends_def sendsFrom_def by metis

lemma onlySends_from: "(\<And>p. sendsFrom (\<lambda>x. x = p) ok m) \<Longrightarrow> onlySends (\<lambda>_. True) ok m"
  unfolding onlySends_def sendsFrom_def by metis

lemma sendsFrom_then:
  assumes m: "sendsFrom P ok m" and f: "\<And>x s s1. m s = (Inr x, s1) \<Longrightarrow> P (Obj s) \<Longrightarrow> sendsFrom (\<lambda>y. y = Obj s1) ok (f x)"
  shows "sendsFrom P ok (bindR m f)"
  unfolding sendsFrom_def
proof (intro allI impI)
  fix s r s' assume P: "P (Obj s)" and run: "bindR m f s = (r, s')"
  from run show "\<exists>es. logOf s' = es @ logOf s \<and> (\<forall>e \<in> set es. ok e)"
  proof (cases rule: bindR_cases)
    case (err e)
    then show ?thesis using m P unfolding sendsFrom_def by blast
  next
    case (ok x s1)
    obtain es where es: "logOf s1 = es @ logOf s" "\<forall>e \<in> set es. ok e"
      using m P ok(1) unfolding sendsFrom_def by blast
    obtain es' where es': "logOf s' = es' @ logOf s1" "\<forall>e \<in> set es'. ok e"
      using f[OF ok(1) P] ok(2) unfolding sendsFrom_def by blast
    have "logOf s' = (es' @ es) @ logOf s" using es es' by simp
    moreover have "\<forall>e \<in> set (es' @ es). ok e" using es es' by auto
    ultimately show ?thesis by blast
  qed
qed

lemma sendsFrom_weaken: "sendsFrom P ok m \<Longrightarrow> (\<And>x. Q x \<Longrightarrow> P x) \<Longrightarrow> sendsFrom Q ok m"
  unfolding sendsFrom_def by blast

lemma sendsFrom_bind:
  assumes m: "onlySends P ok m" and f: "\<And>x. sendsFrom P ok (f x)"
  shows "sendsFrom P ok (bindR m f)"
proof (rule sendsFrom_then[OF onlySends_sendsFrom[OF m]])
  fix x s s1 assume "m s = (Inr x, s1)" "P (Obj s)"
  then have "P (Obj s1)" using m unfolding onlySends_def by blast
  then show "sendsFrom (\<lambda>y. y = Obj s1) ok (f x)" by (intro sendsFrom_weaken[OF f]) simp
qed

lemma sendsFrom_last:
  "sendsFrom P ok m \<Longrightarrow> (\<And>x. onlySends (\<lambda>_. True) ok (f x)) \<Longrightarrow> sendsFrom P ok (bindR m f)"
  by (rule sendsFrom_then) (simp_all add: sendsFrom_any)

lemma sendsFrom_getObj [fromR]:
  "(\<And>p. P p \<Longrightarrow> sendsFrom P ok (f p)) \<Longrightarrow> sendsFrom P ok (bindR getObj f)"
  unfolding sendsFrom_def by (simp add: bindR_Inr[of getObj, OF getObj_def])

lemma sendsFrom_cases [fromR]:
  "(b \<Longrightarrow> sendsFrom P ok m) \<Longrightarrow> (\<not> b \<Longrightarrow> sendsFrom P ok n) \<Longrightarrow> sendsFrom P ok (if b then m else n)"
  "(x = None \<Longrightarrow> sendsFrom P ok m) \<Longrightarrow> (\<And>y. x = Some y \<Longrightarrow> sendsFrom P ok (g y))
    \<Longrightarrow> sendsFrom P ok (case x of None \<Rightarrow> m | Some y \<Rightarrow> g y)"
  "(\<And>e. z = Inl e \<Longrightarrow> sendsFrom P ok (h e)) \<Longrightarrow> (\<And>y. z = Inr y \<Longrightarrow> sendsFrom P ok (h' y))
    \<Longrightarrow> sendsFrom P ok (case z of Inl e \<Rightarrow> h e | Inr y \<Rightarrow> h' y)"
  by (auto split: option.splits sum.splits)

lemma sendsFrom_bind_liftE:
  "(\<And>y. x = Inr y \<Longrightarrow> sendsFrom P ok (f y)) \<Longrightarrow> sendsFrom P ok (bindR (liftE x) f)"
  by (cases x) (auto simp: liftE_def intro!: onlySends_sendsFrom sendsR)

lemma sendsFrom_wrapE [fromR]: "sendsFrom P ok m \<Longrightarrow> sendsFrom P ok (wrapE msg m)"
  unfolding sendsFrom_def by (fastforce simp: monad_simps split: prod.splits sum.splits)

lemma sendsFrom_modObj:
  assumes "\<And>x. P x \<Longrightarrow> Q (f x)" and m: "sendsFrom Q ok m"
  shows "sendsFrom P ok (bindR (modObj f) (\<lambda>_. m))"
proof (rule sendsFrom_then, unfold sendsFrom_def)
  fix u s s1 assume "modObj f s = (Inr u, s1)" and "P (Obj s)"
  then have "Q (Obj s1)" using assms(1) by (auto simp: modObj_def)
  then show "\<forall>s r s'. Obj s = Obj s1 \<longrightarrow> m s = (r, s') \<longrightarrow> (\<exists>es. logOf s' = es @ logOf s \<and> (\<forall>e \<in> set es. ok e))"
    using m unfolding sendsFrom_def by metis
qed (auto simp: modObj_def intro: exI[of _ "[]"])

lemma sendsFrom_updateObj [fromR]:
  assumes "\<And>x. P x \<Longrightarrow> ok (e x)"
  shows "sendsFrom P ok (updateObj (\<lambda>x. writeL (e x) (f x)))"
  unfolding sendsFrom_def
proof (intro allI impI)
  fix s r s' assume P: "P (Obj s)" and run: "updateObj (\<lambda>x. writeL (e x) (f x)) s = (r, s')"
  then have "logOf s' = [e (Obj s)] @ logOf s"
    by (auto simp: updateObj_def writeL_def split: prod.splits sum.splits)
  with assms[OF P] show "\<exists>es. logOf s' = es @ logOf s \<and> (\<forall>e \<in> set es. ok e)"
    by (intro exI[of _ "[e (Obj s)]"]) simp
qed

lemmas send_simps = Let_def logged_simps loggedL_simps loggedS_simps logKind_simps logMO_simps

lemma GetCNPodUUID_logged [simp]: "GetCNPodUUID (logged E) p = GetCNPodUUID E p"
  by (simp add: GetCNPodUUID_def)

lemma onlySends_owner [sendsR]:
  "(\<And>c. onlySends P ok (f c)) \<Longrightarrow> (\<And>k. onlySends P ok (g k))
    \<Longrightarrow> onlySends P ok (case x of OwnerCNSet c \<Rightarrow> f c | OwnerOther k \<Rightarrow> g k)"
  by (cases x) auto

text \<open>The shared helpers only read.\<close>

lemma onlySends_shared [sendsR]:
  "onlySends P ok (nowR (logged E))"
  "onlySends P ok (ListPods (logged E) ns opt)"
  "onlySends P ok (panicR p e)"
  "onlySends P ok (MustAsSelector (logged E) ps)"
  "onlySends P ok (MustEqual (logged E) k v)"
  "onlySends P ok (MustNotHave (logged E) k)"
  by (simp_all add: nowR_def ListPods_def panicR_def MustAsSelector_def MustEqual_def MustNotHave_def
      MustNewRequirement_def sendsR split: option.splits)

lemma onlySends_ResolveCNSet [sendsR]: "onlySends P ok (ResolveCNSet (logged E) p)"
  unfolding ResolveCNSet_def ResolveOwner_def
  by (rule sendsR | simp only: send_simps)+

lemma onlySends_ResolveLogSet [sendsR]: "onlySends P ok (ResolveLogSet (logged E) cs)"
  unfolding ResolveLogSet_def by (rule sendsR | simp only: send_simps)+

section \<open>Laws of the Kubernetes API\<close>

text \<open>What the API server stores of the pods: the contents every resource version of an object
  had, and the current version. Objects are named by namespace and name.\<close>

record 'w pod_view =
  pv_hist :: "'w \<Rightarrow> obj_key \<Rightarrow> nat \<Rightarrow> pod option"
  pv_cur :: "'w \<Rightarrow> obj_key \<Rightarrow> nat option"

text \<open>A version keeps its content: later worlds know every earlier version.\<close>

definition histGrows :: "'w pod_view \<Rightarrow> 'w \<Rightarrow> 'w \<Rightarrow> bool" where
  "histGrows V w w' \<longleftrightarrow> (\<forall>k r p. pv_hist V w k r = Some p \<longrightarrow> pv_hist V w' k r = Some p)"

definition podsSame :: "'w pod_view \<Rightarrow> 'w \<Rightarrow> 'w \<Rightarrow> bool" where
  "podsSame V w w' \<longleftrightarrow> pv_hist V w' = pv_hist V w \<and> pv_cur V w' = pv_cur V w"

text \<open>The write of \<open>p\<close> was accepted: \<open>p\<close> was based on the current version, and the server gave
  the object a new one.\<close>

definition podWritten :: "'w pod_view \<Rightarrow> pod \<Rightarrow> pod \<Rightarrow> 'w \<Rightarrow> 'w \<Rightarrow> bool" where
  "podWritten V p p' w w' \<longleftrightarrow>
     pv_cur V w (podKey p) = Some (pod_rv p) \<and>
     p' = p\<lparr>pod_rv := pod_rv p'\<rparr> \<and>
     pv_hist V w (podKey p) (pod_rv p') = None \<and>
     pv_cur V w' = (pv_cur V w)(podKey p \<mapsto> pod_rv p') \<and>
     pv_hist V w' = (pv_hist V w)(podKey p := (pv_hist V w (podKey p))(pod_rv p' \<mapsto> p'))"

text \<open>\<open>Update\<close> with optimistic concurrency. A conflict changes nothing; after any other error
  (a lost answer) the write may or may not have happened.\<close>

definition optimisticUpdate :: "'w pod_view \<Rightarrow> 'w env \<Rightarrow> bool" where
  "optimisticUpdate V E \<longleftrightarrow>
     (\<forall>w k r. pv_cur V w k = Some r \<longrightarrow> pv_hist V w k r \<noteq> None) \<and>
     (\<forall>p w. case api_update (e_pods E) p w of
        (Inr p', w') \<Rightarrow> podWritten V p p' w w'
      | (Inl e, w') \<Rightarrow> podsSame V w w' \<or> \<not> IsConflict e \<and> (\<exists>p'. podWritten V p p' w w'))"

definition reqMatches :: "requirement \<Rightarrow> gomap \<Rightarrow> bool" where
  "reqMatches r ls = (case rop r of
      SelEquals \<Rightarrow> (\<exists>v \<in> set (rvals r). gget ls (rkey r) = Some v)
    | SelDoesNotExist \<Rightarrow> gget ls (rkey r) = None)"

fun optMatches :: "'w env \<Rightarrow> list_opt \<Rightarrow> gomap \<Rightarrow> bool" where
  "optMatches E (MatchingLabels kvs) ls = (\<forall>(k, v) \<in> set kvs. gget ls k = Some v)"
| "optMatches E (MatchingLabelsSelector sel) ls =
     (e_selectorMatches E (Selector (selBase sel) []) ls \<and> (\<forall>r \<in> set (selAdded sel). reqMatches r ls))"
| "optMatches E (MatchingFields f v) ls = True"

text \<open>A list, served from a cache, returns versions the objects had, in the namespace and matching
  the options; meanwhile others may write.\<close>

definition cachedPodList :: "'w pod_view \<Rightarrow> 'w env \<Rightarrow> bool" where
  "cachedPodList V E \<longleftrightarrow>
     (\<forall>ns opt w. case api_list (e_pods E) ns opt w of
        (Inr ps, w') \<Rightarrow> histGrows V w w' \<and>
           (\<forall>p \<in> set ps. pod_ns p = ns \<and> pv_hist V w' (podKey p) (pod_rv p) = Some p \<and>
              optMatches E opt (pod_labels p))
      | (Inl e, w') \<Rightarrow> histGrows V w w')"

text \<open>Pods some list returned, or none.\<close>

definition listedPods :: "'w env \<Rightarrow> pod list \<Rightarrow> bool" where
  "listedPods E ps \<longleftrightarrow> ps = [] \<or> (\<exists>ns opt w w'. api_list (e_pods E) ns opt w = (Inr ps, w'))"

lemma listedPods_logged:
  fixes E :: "'w env"
  assumes "listedPods (logged E) ps"
  shows "listedPods E ps"
proof (cases "ps = []")
  case False
  with assms obtain ns opt and x x' :: "'w lworld" where "readL (api_list (e_pods E) ns opt) x = (Inr ps, x')"
    by (auto simp: listedPods_def)
  then have "api_list (e_pods E) ns opt (fst x) = (Inr ps, fst x')" by (auto simp: readL_def split: prod.splits)
  then show ?thesis unfolding listedPods_def by blast
qed (simp add: listedPods_def)

definition claimListKeepsHist :: "'w pod_view \<Rightarrow> 'w env \<Rightarrow> bool" where
  "claimListKeepsHist V E \<longleftrightarrow>
     (\<forall>ns opt w. histGrows V w (snd (api_list (e_claims E) ns opt w)))"

lemma histGrows_refl [simp]: "histGrows V w w"
  by (simp add: histGrows_def)

lemma histGrows_trans: "histGrows V w w' \<Longrightarrow> histGrows V w' w'' \<Longrightarrow> histGrows V w w''"
  by (auto simp: histGrows_def)

lemma histGrowsD: "histGrows V w w' \<Longrightarrow> pv_hist V w k r = Some p \<Longrightarrow> pv_hist V w' k r = Some p"
  unfolding histGrows_def by blast

lemma podsSame_grows: "podsSame V w w' \<Longrightarrow> histGrows V w w'"
  by (simp add: podsSame_def histGrows_def)

lemma podWritten_grows: "podWritten V p p' w w' \<Longrightarrow> histGrows V w w'"
  by (auto simp: podWritten_def histGrows_def)

text \<open>An accepted write supersedes the version it was based on.\<close>

lemma podWritten_newVersion:
  assumes "optimisticUpdate V E" and "podWritten V p p' w w'"
  shows "pod_rv p' \<noteq> pod_rv p"
  using assms unfolding optimisticUpdate_def podWritten_def by metis

lemma update_cases:
  assumes "optimisticUpdate V E" and "api_update (e_pods E) p w = (r, w')"
  obtains (written) p' where "r = Inr p'" and "podWritten V p p' w w'"
  | (conflict) e where "r = Inl e" and "podsSame V w w'"
  | (lost) e p' where "r = Inl e" and "\<not> IsConflict e" and "podWritten V p p' w w'"
proof -
  have law: "case api_update (e_pods E) p w of (Inr p', w') \<Rightarrow> podWritten V p p' w w'
      | (Inl e, w') \<Rightarrow> podsSame V w w' \<or> \<not> IsConflict e \<and> (\<exists>p'. podWritten V p p' w w')"
    using assms(1)[unfolded optimisticUpdate_def, THEN conjunct2, rule_format] .
  show thesis
  proof (cases r)
    case (Inl e)
    with law assms(2) that(2,3) show thesis by auto
  next
    case (Inr p')
    with law assms(2) that(1) show thesis by auto
  qed
qed

text \<open>The objects as stored now.\<close>

definition stored :: "'w pod_view \<Rightarrow> 'w \<Rightarrow> obj_key \<Rightarrow> pod option" where
  "stored V w k = Option.bind (pv_cur V w k) (pv_hist V w k)"

lemma podsSame_stored: "podsSame V w w' \<Longrightarrow> stored V w' = stored V w"
  by (rule ext) (simp add: podsSame_def stored_def)

lemma podWritten_stored: "podWritten V p p' w w' \<Longrightarrow> stored V w' = (stored V w)(podKey p \<mapsto> p')"
  by (rule ext) (auto simp: podWritten_def stored_def)

lemma podWritten_before:
  "podWritten V p p' w w' \<Longrightarrow> pv_hist V w (podKey p) (pod_rv p) = Some q \<Longrightarrow> stored V w (podKey p) = Some q"
  by (simp add: podWritten_def stored_def)

lemma podKey_labels [simp]: "podKey (p\<lparr>pod_labels := ls\<rparr>) = podKey p"
  by (simp add: podKey_def)

lemma cachedPodListD:
  assumes "cachedPodList V E" and "api_list (e_pods E) ns opt w = (Inr ps, w')" and "p \<in> set ps"
  shows "pod_ns p = ns" and "pv_hist V w' (podKey p) (pod_rv p) = Some p" and "optMatches E opt (pod_labels p)"
proof -
  note law = assms(1)[unfolded cachedPodList_def, THEN spec[of _ ns], THEN spec[of _ opt], THEN spec[of _ w]]
  show "pod_ns p = ns" and "pv_hist V w' (podKey p) (pod_rv p) = Some p" and "optMatches E opt (pod_labels p)"
    using law assms(2,3) by simp_all
qed

section \<open>Random strings\<close>

text \<open>The n-th string drawn from a world on.\<close>

fun draw :: "'w env \<Rightarrow> nat \<Rightarrow> 'w \<Rightarrow> nat \<Rightarrow> string" where
  "draw E len w 0 = fst (e_randString E len w)"
| "draw E len w (Suc n) = draw E len (snd (e_randString E len w)) n"

text \<open>The generator leaves every set of fewer than \<open>k\<close> strings sooner or later.\<close>

definition randReaches :: "nat \<Rightarrow> nat \<Rightarrow> 'w env \<Rightarrow> bool" where
  "randReaches k len E \<longleftrightarrow> (\<forall>w U. finite U \<longrightarrow> card U < k \<longrightarrow> (\<exists>n. draw E len w n \<notin> U))"

end
