(* ===== verification/Mem_World.thy ===== *)
theory Mem_World
  imports Kube_Laws
begin

text \<open>
  An in-memory outside world: an API server that keeps every version of a pod and checks resource
  versions on update, a HAKeeper, a clock that stands still, insertion sort. It satisfies the laws
  of \<^verbatim>\<open>Kube_Laws\<close>, and the concrete runs of the development are evaluated in it.
\<close>

record mem =
  m_podVers :: "pod list"
  m_claims :: "cnclaim list"
  m_pools :: "cnpool list"
  m_cnsets :: "cnset list"
  m_logsets :: "logset_ref list"
  m_cns :: "cn_service list"
  m_sessions :: "session list"
  m_pipelines :: int
  m_shards :: int
  m_now :: time
  m_rand :: nat

section \<open>The API server\<close>

definition notFoundErr :: err where
  "notFoundErr = Err NotFound ''not found''"

definition conflictErr :: err where
  "conflictErr = Err Conflict ''the object has been modified''"

fun curPods :: "pod list \<Rightarrow> pod list" where
  "curPods [] = []"
| "curPods (p # ps) = p # filter (\<lambda>q. podKey q \<noteq> podKey p) (curPods ps)"

definition memReq :: "requirement \<Rightarrow> gomap \<Rightarrow> bool" where
  "memReq r ls = (case rop r of
      SelEquals \<Rightarrow> list_ex (\<lambda>v. gget ls (rkey r) = Some v) (rvals r)
    | SelDoesNotExist \<Rightarrow> gget ls (rkey r) = None)"

definition memSelMatches :: "selector \<Rightarrow> gomap \<Rightarrow> bool" where
  "memSelMatches sel ls =
     ((case selBase sel of None \<Rightarrow> False
       | Some b \<Rightarrow> list_all (\<lambda>(k, v). gget ls k = Some v) (matchLabels b)) \<and>
      list_all (\<lambda>r. memReq r ls) (selAdded sel))"

fun memMatches :: "list_opt \<Rightarrow> gomap \<Rightarrow> bool" where
  "memMatches (MatchingLabels kvs) ls = list_all (\<lambda>(k, v). gget ls k = Some v) kvs"
| "memMatches (MatchingLabelsSelector sel) ls = memSelMatches sel ls"
| "memMatches (MatchingFields f v) ls = True"

definition writePod :: "pod \<Rightarrow> mem \<Rightarrow> (err + pod) \<times> mem" where
  "writePod p w =
     (let p' = p\<lparr>pod_rv := Suc (sum_list (map pod_rv (m_podVers w)))\<rparr>
      in (Inr p', w\<lparr>m_podVers := p' # m_podVers w\<rparr>))"

text \<open>Creation stamps are served in whole seconds.\<close>

definition wholeStamp :: "pod \<Rightarrow> pod" where
  "wholeStamp p = p\<lparr>pod_created := pod_created p - pod_created p mod second\<rparr>"

definition memGetPod :: "obj_key \<Rightarrow> mem \<Rightarrow> (err + pod) \<times> mem" where
  "memGetPod k w = (case find (\<lambda>p. podKey p = k) (m_podVers w) of
      None \<Rightarrow> (Inl notFoundErr, w) | Some p \<Rightarrow> (Inr (wholeStamp p), w))"

definition memUpdatePod :: "pod \<Rightarrow> mem \<Rightarrow> (err + pod) \<times> mem" where
  "memUpdatePod p w = (case find (\<lambda>q. podKey q = podKey p) (m_podVers w) of
      None \<Rightarrow> (Inl notFoundErr, w)
    | Some q \<Rightarrow> if pod_rv q = pod_rv p then writePod p w else (Inl conflictErr, w))"

definition memPatchPod :: "pod \<Rightarrow> pod \<Rightarrow> mem \<Rightarrow> (err + pod) \<times> mem" where
  "memPatchPod p p' w = (case find (\<lambda>q. podKey q = podKey p) (m_podVers w) of
      None \<Rightarrow> (Inl notFoundErr, w) | Some q \<Rightarrow> writePod p' w)"

definition memPods :: "(pod, mem) kind_api" where
  "memPods =
     \<lparr>api_get = memGetPod,
      api_list = (\<lambda>ns opt w. (Inr (filter (\<lambda>p. pod_ns p = ns \<and> memMatches opt (pod_labels p))
                                     (curPods (m_podVers w))), w)),
      api_create = writePod,
      api_update = memUpdatePod,
      api_patch = memPatchPod,
      api_updateStatus = memUpdatePod,
      api_patchStatus = memPatchPod,
      api_delete = (\<lambda>p w. (Inr (), w\<lparr>m_podVers := filter (\<lambda>q. podKey q \<noteq> podKey p) (m_podVers w)\<rparr>))\<rparr>"

definition claimKey :: "cnclaim \<Rightarrow> obj_key" where
  "claimKey c = (cl_ns c, cl_name c)"

text \<open>The main resource keeps the stored status, the status subresource keeps the stored rest.\<close>

definition memClaimWrite :: "(cnclaim \<Rightarrow> cnclaim) \<Rightarrow> obj_key \<Rightarrow> mem \<Rightarrow> (err + cnclaim) \<times> mem" where
  "memClaimWrite f k w = (case find (\<lambda>c. claimKey c = k) (m_claims w) of
      None \<Rightarrow> (Inl notFoundErr, w)
    | Some c \<Rightarrow> let c' = (f c)\<lparr>cl_rv := Suc (cl_rv c)\<rparr> in
        (Inr c', w\<lparr>m_claims := map (\<lambda>d. if claimKey d = k then c' else d) (m_claims w)\<rparr>))"

definition memClaims :: "(cnclaim, mem) kind_api" where
  "memClaims =
     \<lparr>api_get = (\<lambda>k w. case find (\<lambda>c. claimKey c = k) (m_claims w) of
          None \<Rightarrow> (Inl notFoundErr, w) | Some c \<Rightarrow> (Inr c, w)),
      api_list = (\<lambda>ns opt w. (Inr (filter (\<lambda>c. cl_ns c = ns \<and> (case opt of
             MatchingFields f v \<Rightarrow> cl_podName c = v | _ \<Rightarrow> memMatches opt (cl_labels c))) (m_claims w)), w)),
      api_create = (\<lambda>c w. (Inr c, w\<lparr>m_claims := m_claims w @ [c]\<rparr>)),
      api_update = (\<lambda>c. memClaimWrite (\<lambda>d. c\<lparr>cl_status := cl_status d\<rparr>) (claimKey c)),
      api_patch = (\<lambda>c c'. memClaimWrite (\<lambda>d. c'\<lparr>cl_status := cl_status d\<rparr>) (claimKey c)),
      api_updateStatus = (\<lambda>c. memClaimWrite (\<lambda>d. d\<lparr>cl_status := cl_status c\<rparr>) (claimKey c)),
      api_patchStatus = (\<lambda>c c'. memClaimWrite (\<lambda>d. d\<lparr>cl_status := cl_status c'\<rparr>) (claimKey c)),
      api_delete = (\<lambda>c w. (Inr (), w\<lparr>m_claims := filter (\<lambda>d. claimKey d \<noteq> claimKey c) (m_claims w)\<rparr>))\<rparr>"

text \<open>Kinds that are only read, or written whole.\<close>

definition memKind :: "('o \<Rightarrow> obj_key) \<Rightarrow> ('o \<Rightarrow> gomap) \<Rightarrow> ('v \<Rightarrow> 'o list) \<Rightarrow> ('o list \<Rightarrow> 'v \<Rightarrow> 'v) \<Rightarrow> ('o, 'v) kind_api" where
  "memKind key lbls sel upd =
     (let put = (\<lambda>x w. (Inr x, upd (map (\<lambda>y. if key y = key x then x else y) (sel w)) w)) in
     \<lparr>api_get = (\<lambda>k w. case find (\<lambda>x. key x = k) (sel w) of None \<Rightarrow> (Inl notFoundErr, w) | Some x \<Rightarrow> (Inr x, w)),
      api_list = (\<lambda>ns opt w. (Inr (filter (\<lambda>x. fst (key x) = ns \<and> memMatches opt (lbls x)) (sel w)), w)),
      api_create = (\<lambda>x w. (Inr x, upd (sel w @ [x]) w)),
      api_update = put,
      api_patch = (\<lambda>x. put),
      api_updateStatus = put,
      api_patchStatus = (\<lambda>x. put),
      api_delete = (\<lambda>x w. (Inr (), upd (filter (\<lambda>y. key y \<noteq> key x) (sel w)) w))\<rparr>)"

section \<open>HAKeeper and the rest\<close>

definition memMO :: "mem mo_api" where
  "memMO =
     \<lparr>mo_getClient = (\<lambda>l w. (Inr ''hakeeper'', w)),
      mo_patchCNStore = (\<lambda>h r w. (Inr (), w\<lparr>m_cns := map (\<lambda>s. if sv_serviceID s = sl_uuid r
          then s\<lparr>sv_workState := sl_state r\<rparr> else s) (m_cns w)\<rparr>)),
      mo_updateCNLabel = (\<lambda>h u ls w. (Inr (), w\<lparr>m_cns := map (\<lambda>s. if sv_serviceID s = u
          then s\<lparr>sv_labels := ls\<rparr> else s) (m_cns w)\<rparr>)),
      mo_deleteCNStore = (\<lambda>h u w. (Inr (), w\<lparr>m_cns := filter (\<lambda>s. sv_serviceID s \<noteq> u) (m_cns w)\<rparr>)),
      mo_getCN = (\<lambda>h u w. (find (\<lambda>s. sv_serviceID s = u) (m_cns w), w)),
      mo_canRestartCN = (\<lambda>h u w. (Inr True, w)),
      mo_setRestartCN = (\<lambda>h u w. (Inr True, w)),
      mo_remainTxnCount = (\<lambda>h u w. (Inr 0, w)),
      q_showProcessList = (\<lambda>a w. (Inr (m_sessions w), w)),
      q_getPipelineInfo = (\<lambda>a w. (Inr (m_pipelines w), w)),
      q_getReplicaCount = (\<lambda>a w. (Inr (m_shards w), w))\<rparr>"

definition memEnv :: "mem env" where
  "memEnv =
     \<lparr>e_pods = memPods,
      e_claims = memClaims,
      e_claimsNoCache = memClaims,
      e_pools = memKind (\<lambda>x. (pl_ns x, pl_name x)) (\<lambda>x. None) m_pools (\<lambda>xs w. w\<lparr>m_pools := xs\<rparr>),
      e_cnsets = memKind (\<lambda>x. (cn_ns x, cn_name x)) cn_labels m_cnsets (\<lambda>xs w. w\<lparr>m_cnsets := xs\<rparr>),
      e_ownedBegin = (\<lambda>x w. (Inr (case find (\<lambda>y. cn_ns y = cn_ns x \<and> cn_name y = cn_name x) (m_cnsets w) of None \<Rightarrow> x | Some y \<Rightarrow> y), w)),
      e_ownedCommit = (\<lambda>x y w. (Inr y, w\<lparr>m_cnsets := y # filter (\<lambda>z. \<not> (cn_ns z = cn_ns y \<and> cn_name z = cn_name y)) (m_cnsets w)\<rparr>)),
      e_deleteAllCNSets = (\<lambda>ns opt w. (Inr (), w\<lparr>m_cnsets := filter (\<lambda>z. \<not> (cn_ns z = ns \<and> memMatches opt (cn_labels z))) (m_cnsets w)\<rparr>)),
      e_logsets = memKind (\<lambda>x. (lr_ns x, lr_name x)) (\<lambda>x. None) m_logsets (\<lambda>xs w. w\<lparr>m_logsets := xs\<rparr>),
      e_getOther = (\<lambda>k x w. (Inl notFoundErr, w)),
      e_mo = memMO,
      e_now = (\<lambda>w. (m_now w, w)),
      e_randString = (\<lambda>n w. (replicate (m_rand w) CHR ''x'', w\<lparr>m_rand := Suc (m_rand w)\<rparr>)),
      e_asSelector = (\<lambda>_. None),
      e_newRequirement = (\<lambda>_. None),
      e_selectorMatches = memSelMatches,
      e_parseLabelSelector = (\<lambda>_. Inr []),
      e_isPodReady = (\<lambda>p. pod_status_phase p = PodRunning),
      e_isReady = (\<lambda>_. True),
      e_sha256hex = (\<lambda>_. ''0123456789abcdef''),
      e_hashSpec = (\<lambda>s. Inr (sp_image s)),
      e_parseVersion = (\<lambda>_. Some \<lparr>Major = 2, Minor = 0, Patch = 0\<rparr>),
      e_parseTolerant = (\<lambda>_. Some \<lparr>Major = 1, Minor = 3, Patch = 0\<rparr>),
      e_formatTime = (\<lambda>t. hexStr (nat t)),
      e_parseTime = (\<lambda>_. Inr 0),
      e_marshalScore = (\<lambda>s. Inr ''score''),
      e_unmarshalScore = (\<lambda>s. Inr emptyScore),
      e_unmarshalLabels = (\<lambda>_. Inr []),
      e_sortPods = insertionSort,
      e_sortClaims = insertionSort\<rparr>"

lemma memEnv_sel:
  "e_pods memEnv = (memPods)"
  "e_claims memEnv = (memClaims)"
  "e_claimsNoCache memEnv = (memClaims)"
  "e_pools memEnv = (memKind (\<lambda>x. (pl_ns x, pl_name x)) (\<lambda>x. None) m_pools (\<lambda>xs w. w\<lparr>m_pools := xs\<rparr>))"
  "e_cnsets memEnv = (memKind (\<lambda>x. (cn_ns x, cn_name x)) cn_labels m_cnsets (\<lambda>xs w. w\<lparr>m_cnsets := xs\<rparr>))"
  "e_ownedBegin memEnv = (\<lambda>x w. (Inr (case find (\<lambda>y. cn_ns y = cn_ns x \<and> cn_name y = cn_name x) (m_cnsets w) of None \<Rightarrow> x | Some y \<Rightarrow> y), w))"
  "e_ownedCommit memEnv = (\<lambda>x y w. (Inr y, w\<lparr>m_cnsets := y # filter (\<lambda>z. \<not> (cn_ns z = cn_ns y \<and> cn_name z = cn_name y)) (m_cnsets w)\<rparr>))"
  "e_deleteAllCNSets memEnv = (\<lambda>ns opt w. (Inr (), w\<lparr>m_cnsets := filter (\<lambda>z. \<not> (cn_ns z = ns \<and> memMatches opt (cn_labels z))) (m_cnsets w)\<rparr>))"
  "e_logsets memEnv = (memKind (\<lambda>x. (lr_ns x, lr_name x)) (\<lambda>x. None) m_logsets (\<lambda>xs w. w\<lparr>m_logsets := xs\<rparr>))"
  "e_getOther memEnv = ((\<lambda>k x w. (Inl notFoundErr, w)))"
  "e_mo memEnv = (memMO)"
  "e_now memEnv = ((\<lambda>w. (m_now w, w)))"
  "e_randString memEnv = ((\<lambda>n w. (replicate (m_rand w) CHR ''x'', w\<lparr>m_rand := Suc (m_rand w)\<rparr>)))"
  "e_asSelector memEnv = ((\<lambda>_. None))"
  "e_newRequirement memEnv = ((\<lambda>_. None))"
  "e_selectorMatches memEnv = (memSelMatches)"
  "e_parseLabelSelector memEnv = ((\<lambda>_. Inr []))"
  "e_isPodReady memEnv = ((\<lambda>p. pod_status_phase p = PodRunning))"
  "e_isReady memEnv = ((\<lambda>_. True))"
  "e_sha256hex memEnv = ((\<lambda>_. ''0123456789abcdef''))"
  "e_hashSpec memEnv = ((\<lambda>s. Inr (sp_image s)))"
  "e_parseVersion memEnv = ((\<lambda>_. Some \<lparr>Major = 2, Minor = 0, Patch = 0\<rparr>))"
  "e_parseTolerant memEnv = ((\<lambda>_. Some \<lparr>Major = 1, Minor = 3, Patch = 0\<rparr>))"
  "e_formatTime memEnv = ((\<lambda>t. hexStr (nat t)))"
  "e_parseTime memEnv = ((\<lambda>_. Inr 0))"
  "e_marshalScore memEnv = ((\<lambda>s. Inr ''score''))"
  "e_unmarshalScore memEnv = ((\<lambda>s. Inr emptyScore))"
  "e_unmarshalLabels memEnv = ((\<lambda>_. Inr []))"
  "e_sortPods memEnv = (insertionSort)"
  "e_sortClaims memEnv = (insertionSort)"
  by (simp_all add: memEnv_def)

lemmas mem_defs =
  memEnv_sel memPods_def memClaims_def memKind_def memMO_def writePod_def memGetPod_def
  memUpdatePod_def memPatchPod_def memClaimWrite_def claimKey_def podKey_def memReq_def
  memSelMatches_def notFoundErr_def conflictErr_def wholeStamp_def

section \<open>It obeys the laws\<close>

definition memView :: "mem pod_view" where
  "memView =
     \<lparr>pv_hist = (\<lambda>w k r. find (\<lambda>p. podKey p = k \<and> pod_rv p = r) (m_podVers w)),
      pv_cur = (\<lambda>w k. map_option pod_rv (find (\<lambda>p. podKey p = k) (m_podVers w)))\<rparr>"

lemma find_version:
  "find (\<lambda>p. podKey p = k) vs = Some q \<Longrightarrow> find (\<lambda>p. podKey p = k \<and> pod_rv p = pod_rv q) vs = Some q"
  by (induction vs) (auto split: if_splits)

lemma find_fresh: "find (\<lambda>p. podKey p = k \<and> pod_rv p = Suc (sum_list (map pod_rv vs))) vs = None"
proof -
  have "pod_rv p \<le> sum_list (map pod_rv vs)" if "p \<in> set vs" for p
    using that by (simp add: member_le_sum_list)
  then show ?thesis by (fastforce simp: find_None_iff)
qed

lemma curPods_find: "p \<in> set (curPods vs) \<Longrightarrow> find (\<lambda>q. podKey q = podKey p) vs = Some p"
  by (induction vs) auto

lemma writePod_written:
  assumes "find (\<lambda>q. podKey q = podKey p) (m_podVers w) = Some q" and "pod_rv q = pod_rv p"
  shows "case writePod p w of (Inr p', w') \<Rightarrow> podWritten memView p p' w w' | (Inl e, w') \<Rightarrow> False"
proof -
  let ?r = "Suc (sum_list (map pod_rv (m_podVers w)))"
  have key: "podKey (p\<lparr>pod_rv := ?r\<rparr>) = podKey p" by (simp add: podKey_def)
  show ?thesis using assms find_fresh[of "podKey p" "m_podVers w"] key
    by (auto simp: writePod_def Let_def podWritten_def memView_def fun_eq_iff)
qed

lemma mem_optimisticUpdate: "optimisticUpdate memView memEnv"
proof -
  have cur: "pv_hist memView w k r \<noteq> None" if "pv_cur memView w k = Some r" for w k r
    using that find_version by (fastforce simp: memView_def)
  have upd: "case memUpdatePod p w of
        (Inr p', w') \<Rightarrow> podWritten memView p p' w w'
      | (Inl e, w') \<Rightarrow> podsSame memView w w' \<or> \<not> IsConflict e \<and> (\<exists>p'. podWritten memView p p' w w')" for p w
    using writePod_written[of p w]
    by (auto simp: memUpdatePod_def podsSame_def writePod_def Let_def split: option.splits)
  show ?thesis unfolding optimisticUpdate_def using cur upd by (simp add: memEnv_def memPods_def)
qed

lemma memMatches_opt: "memMatches opt ls \<Longrightarrow> optMatches memEnv opt ls"
  by (cases opt) (auto simp: memEnv_def memSelMatches_def memReq_def reqMatches_def list_all_iff
      list_ex_iff split: option.splits sel_op.splits)

lemma mem_listPods:
  "api_list (e_pods memEnv) ns opt w =
     (Inr (filter (\<lambda>p. pod_ns p = ns \<and> memMatches opt (pod_labels p)) (curPods (m_podVers w))), w)"
  by (simp add: memEnv_def memPods_def)

lemma curPods_hist: "p \<in> set (curPods (m_podVers w)) \<Longrightarrow> pv_hist memView w (podKey p) (pod_rv p) = Some p"
  by (simp add: memView_def curPods_find find_version)

lemma mem_cachedPodList: "cachedPodList memView memEnv"
  by (simp add: cachedPodList_def mem_listPods curPods_hist memMatches_opt)

lemma mem_claimListKeepsHist: "claimListKeepsHist memView memEnv"
  by (simp add: claimListKeepsHist_def memEnv_def memClaims_def)

lemmas mem_laws = mem_optimisticUpdate mem_cachedPodList mem_claimListKeepsHist

lemma mem_draw: "draw memEnv len w n = replicate (m_rand w + n) CHR ''x''"
  by (induction n arbitrary: w) (simp_all add: memEnv_sel)

lemma mem_randReaches: "randReaches k len memEnv"
  unfolding randReaches_def
proof (intro allI impI)
  fix w and U :: "string set" assume U: "finite U"
  have "inj (draw memEnv len w)" by (simp add: inj_def mem_draw)
  then have "infinite (range (draw memEnv len w))" by (simp add: finite_image_iff)
  then show "\<exists>n. draw memEnv len w n \<notin> U" using U by (meson finite_subset image_subsetI)
qed

section \<open>Sample objects\<close>

definition memUUID :: string where
  "memUUID = ''31303332-3534-3736-3938-626164636665''"

lemma mem_uuid [simp]: "GetCNPodUUID memEnv p = memUUID"
  by (simp add: GetCNPodUUID_def podUUIDBy_def memEnv_def memUUID_def leUint16_def hexStr.simps hexDigit_def)

definition sampleStore :: cn_store_status where
  "sampleStore = \<lparr>st_serviceID = [], st_lockServiceAddress = [], st_pipelineServiceAddress = [],
     st_sqlAddress = [], st_queryAddress = [], st_workState = WorkState_Unknown, st_labels = [],
     st_podName = [], st_boundTime = None\<rparr>"

definition sampleClaimSpec :: cnclaim_spec where
  "sampleClaimSpec = \<lparr>cs_podName = [], cs_nodeName = [], cs_sourcePod = None,
     cs_selector = Some \<lparr>matchLabels = [], matchExpressions = []\<rparr>, cs_cnLabels = [], cs_ownerName = Some ''alice'',
     cs_additionalPodLabels = Some [''team'' \<mapsto> ''blue''], cs_poolName = ''pool''\<rparr>"

definition sampleClaim :: "string \<Rightarrow> cnclaim" where
  "sampleClaim n = \<lparr>cl_name = n, cl_ns = ''ns'', cl_rv = 1, cl_labels = None, cl_annos = None,
     cl_deleted = None, cl_created = 0, cl_spec = sampleClaimSpec,
     cl_status = \<lparr>ct_phase = CNClaimPhaseNone, ct_store = sampleStore, ct_boundTime = None, ct_migrate = None\<rparr>\<rparr>"

definition idleLabels :: gomap where
  "idleLabels = Some [CNPodPhaseLabel \<mapsto> CNPodPhaseIdle, PoolNameLabel \<mapsto> ''pool'',
     InstanceLabelKey \<mapsto> ''cn'', ComponentLabelKey \<mapsto> ''CNSet'', LifecycleStateKey \<mapsto> LifecycleStateNormal]"

definition samplePod :: "string \<Rightarrow> pod" where
  "samplePod n = \<lparr>pod_name = n, pod_ns = ''ns'', pod_rv = 1, pod_labels = idleLabels, pod_annos = None,
     pod_finalizers = [], pod_deleted = None, pod_created = 0, pod_nodeName = ''node'', pod_subdomain = ''sub'',
     pod_status_phase = PodRunning, pod_conditions = [], pod_containers = []\<rparr>"

definition sampleCNSetSpec :: cnset_spec where
  "sampleCNSetSpec = \<lparr>sp_image = ''mo:2'', sp_config = None, sp_replicas = 1, sp_overlay = None,
     sp_semanticVersion = None, sp_operatorVersion = None, sp_podSetOther = [], sp_cnConfig = [],
     sp_serviceType = [], sp_serviceAnnotations = None, sp_nodePort = None, sp_labels = [],
     sp_scalingConfig = \<lparr>sc_storeDrainEnabled = Some True, sc_storeDrainTimeout = Some (60 * second), sc_minDelaySeconds = None\<rparr>,
     sp_maxSurge = None, sp_maxUnavailable = None, sp_terminationPolicy = None, sp_podManagementPolicy = None,
     sp_podsToDelete = [], sp_pauseUpdate = False, sp_reusePVC = None\<rparr>"

definition sampleCNSet :: cnset where
  "sampleCNSet = \<lparr>cn_name = ''cn'', cn_ns = ''ns'', cn_rv = 1, cn_labels = None, cn_deleted = None,
     cn_spec = sampleCNSetSpec, cn_depLogSet = Some (''ns'', ''log''), cn_depDNSet = None,
     cn_statusReplicas = 1, cn_statusLabelSelector = []\<rparr>"

definition sampleLogSet :: logset_ref where
  "sampleLogSet = \<lparr>lr_name = ''log'', lr_ns = ''ns'', lr_uid = ''u''\<rparr>"

definition sampleCN :: cn_service where
  "sampleCN = \<lparr>sv_serviceID = memUUID, sv_pipelineServiceAddress = ''p'', sv_sqlAddress = ''s'',
     sv_lockServiceAddress = ''l'', sv_queryAddress = ''q'', sv_workState = WorkState_Working, sv_labels = None\<rparr>"

definition sampleWorld :: "pod list \<Rightarrow> cnclaim list \<Rightarrow> mem" where
  "sampleWorld ps cs = \<lparr>m_podVers = ps, m_claims = cs, m_pools = [], m_cnsets = [sampleCNSet],
     m_logsets = [sampleLogSet], m_cns = [sampleCN], m_sessions = [], m_pipelines = 0, m_shards = 0,
     m_now = 100 * second, m_rand = 0\<rparr>"

lemma team_neq [simp]:
  "''team'' \<noteq> CNPodPhaseLabel" "CNPodPhaseLabel \<noteq> ''team''"
  "''team'' \<noteq> PodClaimedByLabel" "PodClaimedByLabel \<noteq> ''team''"
  "''team'' \<noteq> PoolNameLabel" "PoolNameLabel \<noteq> ''team''"
  "''team'' \<noteq> DirectPodLabel" "DirectPodLabel \<noteq> ''team''"
  "''team'' \<noteq> PodOwnerNameLabel" "PodOwnerNameLabel \<noteq> ''team''"
  "''team'' \<noteq> ClaimSetNameLabel" "ClaimSetNameLabel \<noteq> ''team''"
  "''team'' \<noteq> PodLastOwnerLabel" "PodLastOwnerLabel \<noteq> ''team''"
  "''team'' \<noteq> PodOutdatedLabel" "PodOutdatedLabel \<noteq> ''team''"
  "''team'' \<noteq> ClaimInstanceIDLabel" "ClaimInstanceIDLabel \<noteq> ''team''"
  "''team'' \<noteq> InstanceLabelKey" "InstanceLabelKey \<noteq> ''team''"
  "''team'' \<noteq> ComponentLabelKey" "ComponentLabelKey \<noteq> ''team''"
  "''team'' \<noteq> LifecycleStateKey" "LifecycleStateKey \<noteq> ''team''"
  by (simp_all add: label_key_defs)

lemmas sample_defs =
  sampleStore_def sampleClaimSpec_def sampleClaim_def idleLabels_def samplePod_def sampleCNSetSpec_def
  sampleCNSet_def sampleLogSet_def sampleCN_def sampleWorld_def

end
