(* ===== verification/CNClaim.thy ===== *)
theory CNClaim
  imports Mem_World
begin

text \<open>
  The CNClaim controller: \<^verbatim>\<open>pkg/controllers/cnclaim\<close> (\<^verbatim>\<open>controller.go\<close>,
  \<^verbatim>\<open>migrate.go\<close>). A claim is bound to an idle CN pod of a pool, kept bound, moved to another
  pod, and its pod handed over or drained when the claim goes away. \<open>'w\<close> is the outside
  world, the context object is the claim.
\<close>

section \<open>Definitions\<close>

type_synonym 'w claim_ctx = "(cnclaim, 'w) ctx"

definition waitCacheTimeout :: int where
  "waitCacheTimeout = 10 * second"

definition retryBindInterval :: int where
  "retryBindInterval = 5 * second"

definition retryPatchInterval :: int where
  "retryPatchInterval = 15 * second"

definition propagationDelay :: int where
  "propagationDelay = 15 * second"

definition migrationResyncInterval :: int where
  "migrationResyncInterval = 10 * second"

subsection \<open>Talking to HAKeeper\<close>

definition patchStore :: "'w env \<Rightarrow> pod \<Rightarrow> cn_state_label \<Rightarrow> (('o, 'w) ctx, cn_service) rm" where
  "patchStore E p req =
     bindR (wrapE ''error resolve CNSet'' (ResolveCNSet E p)) (\<lambda>cs.
     bindR (wrapE ''error resolve LogSet'' (ResolveLogSet E cs)) (\<lambda>ls.
     bindR (wrapE ''error get HAKeeper client'' (callW (mo_getClient (e_mo E) ls))) (\<lambda>hc.
     let uid = GetCNPodUUID E p; req = req\<lparr>sl_uuid := uid\<rparr> in
     bindR (callW (mo_patchCNStore (e_mo E) hc req)) (\<lambda>_.
     bindR (readW (mo_getCN (e_mo E) hc uid)) (\<lambda>found.
     case found of
       None \<Rightarrow> errorf (''store not found in cache: '' @ uid)
     | Some cn \<Rightarrow>
         let cn = cn\<lparr>sv_labels := sl_labels req, sv_workState := sl_state req\<rparr> in
         if sl_labels req = None
         then bindR (callW (mo_updateCNLabel (e_mo E) hc uid None)) (\<lambda>_.
              ret (cn\<lparr>sv_labels := None\<rparr>))
         else ret cn)))))"

text \<open>\<^verbatim>\<open>toStoreStatus\<close>: the label map is visited in any order, then sorted by key.\<close>

definition toStoreStatus :: "cn_service \<Rightarrow> pod \<Rightarrow> cn_store_status" where
  "toStoreStatus cn p =
     \<lparr>st_serviceID = sv_serviceID cn,
      st_lockServiceAddress = sv_lockServiceAddress cn,
      st_pipelineServiceAddress = sv_pipelineServiceAddress cn,
      st_sqlAddress = sv_sqlAddress cn,
      st_queryAddress = sv_queryAddress cn,
      st_workState = sv_workState cn,
      st_labels = sort_key lbl_key
        (map (\<lambda>(k, vs). \<lparr>lbl_key = k, lbl_values = vs\<rparr>)
          (case sv_labels cn of None \<Rightarrow> [] | Some ls \<Rightarrow> ls)),
      st_podName = pod_name p,
      st_boundTime = None\<rparr>"

subsection \<open>Taking ownership of a pod\<close>

definition ownershipLabels :: "cnclaim \<Rightarrow> gomap \<Rightarrow> gomap option" where
  "ownershipLabels c ls =
     Option.bind (gputAll (cs_additionalPodLabels (cl_spec c)) ls) (\<lambda>ls.
     Option.bind (gput CNPodPhaseLabel CNPodPhaseBound ls) (\<lambda>ls.
     Option.bind (gput PodClaimedByLabel (cl_name c) ls) (\<lambda>ls.
     let csName = gstr (cl_labels c) ClaimSetNameLabel in
     Option.bind (if csName \<noteq> [] then gput ClaimSetNameLabel csName ls else Some ls) (\<lambda>ls.
     case cs_ownerName (cl_spec c) of
       None \<Rightarrow> Some ls
     | Some ow \<Rightarrow> gput PodOwnerNameLabel ow ls))))"

definition ensureOwnership :: "'w env \<Rightarrow> pod \<Rightarrow> ('w claim_ctx, pod) rm" where
  "ensureOwnership E p =
     bindR getObj (\<lambda>c.
     bindR (orPanic (ownershipLabels c (pod_labels p))) (\<lambda>ls.
     callW (api_update (e_pods E) (p\<lparr>pod_labels := ls\<rparr>))))"

text \<open>The spec patch, the status fields and the store status of \<^verbatim>\<open>syncBindPod\<close>.\<close>

definition bindSpec :: "pod \<Rightarrow> cnclaim \<Rightarrow> cnclaim" where
  "bindSpec p c =
     (let pool = gstr (pod_labels p) PoolNameLabel in
      c\<lparr>cl_spec := (cl_spec c)\<lparr>cs_podName := pod_name p, cs_nodeName := pod_nodeName p, cs_poolName := pool\<rparr>,
        cl_labels := Some ((the (gmake (cl_labels c)))(PoolNameLabel \<mapsto> pool))\<rparr>)"

definition recordBind :: "'w env \<Rightarrow> cn_service \<Rightarrow> pod \<Rightarrow> ('w claim_ctx, unit) rm" where
  "recordBind E store p =
     bindR getObj (\<lambda>c.
     bindR (if ct_boundTime (cl_status c) = None
            then bindR (nowR E) (\<lambda>t. modObj (\<lambda>c. c\<lparr>cl_status := (cl_status c)\<lparr>ct_boundTime := Some t\<rparr>\<rparr>))
            else ret ()) (\<lambda>_.
     bindR (if cl_phase c = CNClaimPhaseNone \<or> cl_phase c = CNClaimPhasePending
            then modObj (setPhase CNClaimPhaseBound) else ret ()) (\<lambda>_.
     let newStore = toStoreStatus store p in
     bindR (if st_podName (ct_store (cl_status c)) \<noteq> st_podName newStore
            then bindR (nowR E) (\<lambda>t. ret (newStore\<lparr>st_boundTime := Some t\<rparr>))
            else ret (newStore\<lparr>st_boundTime := st_boundTime (ct_store (cl_status c))\<rparr>)) (\<lambda>newStore.
     bindR (modObj (\<lambda>c. c\<lparr>cl_status := (cl_status c)\<lparr>ct_store := newStore\<rparr>\<rparr>)) (\<lambda>_.
     wrapE ''error update claim status'' (updateObj (api_updateStatus (e_claims E))))))))"

definition syncBindPod :: "'w env \<Rightarrow> pod \<Rightarrow> ('w claim_ctx, unit) rm" where
  "syncBindPod E p =
     (if gget (pod_labels p) DirectPodLabel = None \<and> gstr (pod_labels p) LifecycleStateKey \<noteq> LifecycleStateNormal
      then ErrReSync ''pod is not in normal state, wait'' retryPatchInterval
      else
      bindR getObj (\<lambda>c.
      bindR (patchStore E p \<lparr>sl_uuid = [], sl_state = WorkState_Working,
               sl_labels = Some (ToStoreLabels (cs_cnLabels (cl_spec c)))\<rparr>) (\<lambda>store.
      bindR (wrapE ''error update claim spec'' (patchObj (api_patch (e_claims E)) (bindSpec p))) (\<lambda>_.
      recordBind E store p))))"

subsection \<open>Choosing a pod\<close>

definition previouslyOwned :: "cnclaim \<Rightarrow> pod \<Rightarrow> int" where
  "previouslyOwned c p = (case cs_ownerName (cl_spec c) of
      Some ow \<Rightarrow> if gstr (pod_labels p) PodLastOwnerLabel = ow then 0 else 1
    | None \<Rightarrow> 1)"

text \<open>\<^verbatim>\<open>Time.Second()\<close>: the second within the minute, 0 to 59.\<close>

definition secondOfMinute :: "time \<Rightarrow> int" where
  "secondOfMinute t = (t div second) mod 60"

definition priorityFunc :: "cnclaim \<Rightarrow> pod \<Rightarrow> pod \<Rightarrow> int" where
  "priorityFunc c a b =
     (let ownedA = previouslyOwned c a; ownedB = previouslyOwned c b in
      if ownedA \<noteq> ownedB then ownedA - ownedB
      else secondOfMinute (pod_created a) - secondOfMinute (pod_created b))"

definition sortCNByPriority :: "'w env \<Rightarrow> cnclaim \<Rightarrow> pod list \<Rightarrow> pod list" where
  "sortCNByPriority E c pods = e_sortPods E (priorityFunc c) pods"

text \<open>The index from pod name to the claims that reference it. Go's map of slices is a function
  with the nil slice as its default.\<close>

definition indexClaim :: "string \<Rightarrow> (string \<Rightarrow> cnclaim list) \<Rightarrow> cnclaim \<Rightarrow> (string \<Rightarrow> cnclaim list)" where
  "indexClaim excludeClaim idx cl =
     (if cl_name cl = excludeClaim \<or> cl_deleted cl \<noteq> None \<or> cl_podName cl = [] then idx
      else idx(cl_podName cl := idx (cl_podName cl) @ [cl]))"

definition claimIndexOf :: "string \<Rightarrow> cnclaim list \<Rightarrow> (string \<Rightarrow> cnclaim list)" where
  "claimIndexOf excludeClaim cls = foldl (indexClaim excludeClaim) (\<lambda>_. []) cls"

definition buildPodClaimIndex :: "'w env \<Rightarrow> string \<Rightarrow> string \<Rightarrow> (('o, 'w) ctx, string \<Rightarrow> cnclaim list) rm" where
  "buildPodClaimIndex E ns excludeClaim =
     bindR (callW (api_list (e_claims E) ns (MatchingLabels []))) (\<lambda>cls.
     ret (claimIndexOf excludeClaim cls))"

fun claimedByOthersIn :: "string \<Rightarrow> string \<Rightarrow> cnclaim list \<Rightarrow> bool" where
  "claimedByOthersIn podName excludeClaim [] = False"
| "claimedByOthersIn podName excludeClaim (cl # cls) =
     (if cl_name cl = excludeClaim \<or> cl_deleted cl \<noteq> None then claimedByOthersIn podName excludeClaim cls
      else if cl_podName cl = podName then True
      else claimedByOthersIn podName excludeClaim cls)"

definition podClaimedByOthers :: "'w env \<Rightarrow> string \<Rightarrow> string \<Rightarrow> string \<Rightarrow> (('o, 'w) ctx, bool) rm" where
  "podClaimedByOthers E ns podName excludeClaim =
     bindR (callW (api_list (e_claims E) ns (MatchingLabels []))) (\<lambda>cls.
     ret (claimedByOthersIn podName excludeClaim cls))"

definition claimNames :: "cnclaim list \<Rightarrow> string list" where
  "claimNames cls = sort (map cl_name cls)"

text \<open>The loop of \<^verbatim>\<open>selectCN\<close> over the sorted idle pods.\<close>

fun tryClaim :: "'w env \<Rightarrow> (string \<Rightarrow> cnclaim list) \<Rightarrow> pod list \<Rightarrow> ('w claim_ctx, pod option) rm" where
  "tryClaim E claimIndex [] = ret None"
| "tryClaim E claimIndex (p # ps) =
     (if claimIndex (pod_name p) \<noteq> [] then tryClaim E claimIndex ps
      else bindR (attempt (ensureOwnership E p)) (\<lambda>r. case r of
          Inl e \<Rightarrow> if IsConflict e then tryClaim E claimIndex ps
                   else throw (wrapPrefix ''error claim Pod'' e)
        | Inr p' \<Rightarrow> ret (Some p')))"

text \<open>\<open>if err != nil && !apierrors.IsNotFound(err) { return ... }\<close>: a NotFound list is empty.\<close>

definition listIgnoreNotFound :: "string \<Rightarrow> ('s, pod list) rm \<Rightarrow> ('s, pod list) rm" where
  "listIgnoreNotFound msg m =
     bindR (attempt m) (\<lambda>r. case r of
       Inl e \<Rightarrow> if IsNotFound e then ret [] else throw (wrapPrefix msg e)
     | Inr ps \<Rightarrow> ret ps)"

definition idleSelector :: "'w env \<Rightarrow> cnclaim \<Rightarrow> ('s, selector) rm" where
  "idleSelector E c =
     bindR (MustAsSelector E (cs_selector (cl_spec c))) (\<lambda>base.
     bindR (MustEqual E CNPodPhaseLabel CNPodPhaseIdle) (\<lambda>r1.
     let sel = selAdd base r1 in
     bindR (if cs_poolName (cl_spec c) \<noteq> []
            then bindR (MustEqual E PoolNameLabel (cs_poolName (cl_spec c))) (\<lambda>r2. ret (selAdd sel r2))
            else ret sel) (\<lambda>sel.
     bindR (MustNotHave E PodOutdatedLabel) (\<lambda>r3.
     ret (selAdd sel r3)))))"

definition selectCN :: "'w env \<Rightarrow> pod list \<Rightarrow> ('w claim_ctx, pod option) rm" where
  "selectCN E orphans =
     (case orphans of
        p # _ \<Rightarrow> ret (Some p)
      | [] \<Rightarrow>
        bindR getObj (\<lambda>c.
        bindR (idleSelector E c) (\<lambda>sel.
        bindR (listIgnoreNotFound ''error list idle Pods''
                 (ListPods E (cl_ns c) (MatchingLabelsSelector sel))) (\<lambda>idleCNs.
        let idleCNs = sortCNByPriority E c idleCNs in
        bindR (wrapE ''error building pod claim index''
                 (buildPodClaimIndex E (cl_ns c) (cl_name c))) (\<lambda>claimIndex.
        tryClaim E claimIndex idleCNs)))))"

definition claimCN :: "'w env \<Rightarrow> pod list \<Rightarrow> ('w claim_ctx, pod option) rm" where
  "claimCN E orphans =
     bindR (wrapE ''error claim CN'' (selectCN E orphans)) (\<lambda>claimed.
     case claimed of
       None \<Rightarrow> ret None
     | Some p \<Rightarrow> bindR (syncBindPod E p) (\<lambda>_. ret (Some p)))"

subsection \<open>Bind\<close>

definition ownedByClaim :: "cnclaim \<Rightarrow> list_opt" where
  "ownedByClaim c = MatchingLabels [(CNPodPhaseLabel, CNPodPhaseBound), (PodClaimedByLabel, cl_name c)]"

definition bindToPool :: "cnpool \<Rightarrow> cnclaim \<Rightarrow> cnclaim" where
  "bindToPool pool c =
     c\<lparr>cl_spec := (cl_spec c)\<lparr>cs_poolName := pl_name pool\<rparr>,
       cl_labels := Some ((the (gmake (cl_labels c)))(PoolNameLabel \<mapsto> pl_name pool))\<rparr>"

definition nominatePool :: "'w env \<Rightarrow> ('w claim_ctx, unit) rm" where
  "nominatePool E =
     bindR getObj (\<lambda>c.
     bindR (wrapE ''error get list CN pools'' (callW (api_list (e_pools E) (cl_ns c) (MatchingLabels [])))) (\<lambda>pools.
     bindR (MustAsSelector E (cs_selector (cl_spec c))) (\<lambda>sl.
     case find (\<lambda>pool. e_selectorMatches E sl (pl_podLabels pool)) pools of
       None \<Rightarrow> ErrReSync ''cannot find matching pool, requeue'' retryBindInterval
     | Some pool \<Rightarrow>
         bindR (modObj (bindToPool pool)) (\<lambda>_.
         wrapE ''error bind claim to pool'' (updateObj (api_update (e_claims E)))))))"

definition Bind :: "'w env \<Rightarrow> ('w claim_ctx, unit) rm" where
  "Bind E =
     bindR (modObj (setPhase CNClaimPhasePending)) (\<lambda>_.
     bindR getObj (\<lambda>c.
     bindR (listIgnoreNotFound ''error get potential orphan CNs''
              (ListPods E (cl_ns c) (ownedByClaim c))) (\<lambda>orphanCNs.
     bindR (wrapE ''error claim idle CN'' (claimCN E orphanCNs)) (\<lambda>claimedPod.
     bindR getObj (\<lambda>c.
     bindR (if claimedPod = None \<and> cs_poolName (cl_spec c) = [] then nominatePool E else ret ()) (\<lambda>_.
     ErrReSync ''wait pod to bound'' retryBindInterval))))))"

subsection \<open>Reclaiming a pod\<close>

definition deleteOnReclaim :: "pod \<Rightarrow> pod" where
  "deleteOnReclaim p = p\<lparr>pod_annos := Some ((the (gmake (pod_annos p)))(DeleteOnReclaimAnno \<mapsto> ''y''))\<rparr>"

definition reclaimLabels :: "cnclaim \<Rightarrow> gomap \<Rightarrow> gomap option" where
  "reclaimLabels c ls =
     Option.bind (gput CNPodPhaseLabel CNPodPhaseDraining ls) (\<lambda>ls.
     let ls = gdel PodClaimedByLabel ls in
     Option.bind (case gget ls PodOwnerNameLabel of
         None \<Rightarrow> Some ls
       | Some v \<Rightarrow> gput PodLastOwnerLabel v (gdel PodOwnerNameLabel ls)) (\<lambda>ls.
     Some (gdelAll (cs_additionalPodLabels (cl_spec c)) ls)))"

definition isNotExistMsg :: "err \<Rightarrow> bool" where
  "isNotExistMsg e \<longleftrightarrow> strContains (emsg e) ''does not exist''"

definition reclaimCN :: "'w env \<Rightarrow> pod \<Rightarrow> (pod \<Rightarrow> pod) list \<Rightarrow> ('w claim_ctx, pod) rm" where
  "reclaimCN E p opts =
     bindR getObj (\<lambda>c.
     bindR (attempt (patchStore E p \<lparr>sl_uuid = [], sl_state = WorkState_Draining, sl_labels = None\<rparr>)) (\<lambda>r.
     bindR (case r of Inl e \<Rightarrow> if isNotExistMsg e then ret () else throw e | Inr _ \<Rightarrow> ret ()) (\<lambda>_.
     bindR (orPanic (reclaimLabels c (pod_labels p))) (\<lambda>ls.
     bindR (nowR E) (\<lambda>t.
     let annos = Some ((the (gmake (pod_annos p)))(ReclaimedAt \<mapsto> e_formatTime E t));
         p' = fold (\<lambda>opt q. opt q) opts (p\<lparr>pod_labels := ls, pod_annos := annos\<rparr>)
     in callW (api_patch (e_pods E) p p'))))))"

subsection \<open>Migration\<close>

definition completeMigration :: "'w env \<Rightarrow> ('w claim_ctx, unit) rm" where
  "completeMigration E =
     bindR (modObj (\<lambda>c. c\<lparr>cl_status := (cl_status c)\<lparr>ct_migrate := None\<rparr>\<rparr>)) (\<lambda>_.
     bindR (updateObj (api_updateStatus (e_claims E))) (\<lambda>_.
     bindR (modObj (\<lambda>c. c\<lparr>cl_spec := (cl_spec c)\<lparr>cs_sourcePod := None\<rparr>\<rparr>)) (\<lambda>_.
     updateObj (api_update (e_claims E)))))"

definition reportProgress :: "'w env \<Rightarrow> pod \<Rightarrow> ('w claim_ctx, unit) rm" where
  "reportProgress E source =
     bindR (liftE (GetStoreScore E source)) (\<lambda>score.
     patchObj (api_patchStatus (e_claims E))
       (\<lambda>c. c\<lparr>cl_status := (cl_status c)\<lparr>ct_migrate :=
          Some \<lparr>wl_connections = sc_sessionCount score, wl_pipelines = sc_pipelineCount score,
                wl_replicas = sc_replicaCount score\<rparr>\<rparr>\<rparr>))"

text \<open>The switch of \<^verbatim>\<open>migrate\<close> on the phase of the source pod, then \<^verbatim>\<open>migrate\<close> itself.\<close>

definition migrateSource :: "'w env \<Rightarrow> pod \<Rightarrow> ('w claim_ctx, unit) rm" where
  "migrateSource E source =
     (let phase = podLabel source CNPodPhaseLabel in
      if phase = CNPodPhaseDraining then
        bindR (reportProgress E source) (\<lambda>_.
        ErrReSync ''source pod is still draining, requeue'' migrationResyncInterval)
      else if phase = CNPodPhaseBound then
        bindR (reclaimCN E source []) (\<lambda>source.
        bindR (reportProgress E source) (\<lambda>_.
        ErrReSync ''source pod start draining, requeue'' migrationResyncInterval))
      else if phase = CNPodPhaseTerminating \<or> phase = CNPodPhaseIdle then completeMigration E
      else errorf (''unknown pod phase: '' @ phase))"

definition migrate :: "'w env \<Rightarrow> ('w claim_ctx, unit) rm" where
  "migrate E =
     bindR getObj (\<lambda>c.
     case cs_sourcePod (cl_spec c) of
       None \<Rightarrow> completeMigration E
     | Some src \<Rightarrow>
       bindR (attempt (callW (api_get (e_pods E) (cl_ns c, ref_podName src)))) (\<lambda>r. case r of
         Inl e \<Rightarrow> if IsNotFound e then completeMigration E else throw (wrapPrefix ''error get source Pod'' e)
       | Inr source \<Rightarrow>
         (case st_boundTime (ct_store (cl_status c)) of
            None \<Rightarrow> errorf ''claim store bound time is nil''
          | Some bt \<Rightarrow>
            bindR (nowR E) (\<lambda>t.
            if t - bt < propagationDelay
            then ErrReSync ''target pod is not ready to accept traffic, delay'' propagationDelay
            else migrateSource E source))))"

subsection \<open>Sync and Observe\<close>

definition clearPodRef :: "cnclaim \<Rightarrow> cnclaim" where
  "clearPodRef c = c\<lparr>cl_spec := (cl_spec c)\<lparr>cs_podName := [], cs_nodeName := []\<rparr>\<rparr>"

definition markLost :: "'w env \<Rightarrow> ('w claim_ctx, unit) rm" where
  "markLost E =
     bindR (wrapE ''error clearing lost claim spec'' (patchObj (api_patch (e_claims E)) clearPodRef)) (\<lambda>_.
     modObj (setPhase CNClaimPhaseLost))"

definition ClaimSync :: "'w env \<Rightarrow> ('w claim_ctx, unit) rm" where
  "ClaimSync E =
     bindR getObj (\<lambda>c.
     bindR (attempt (callW (api_get (e_pods E) (cl_ns c, cl_podName c)))) (\<lambda>r. case r of
       Inl e \<Rightarrow>
         if IsNotFound e then
           (case ct_boundTime (cl_status c) of
              None \<Rightarrow> markLost E
            | Some bt \<Rightarrow> bindR (nowR E) (\<lambda>t.
                if t - bt < waitCacheTimeout
                then ErrReSync ''pod status may be not update to date, wait'' waitCacheTimeout
                else markLost E))
         else throw (wrapPrefix ''error get claimed Pod'' e)
     | Inr p \<Rightarrow>
         if pod_status_phase p = PodSucceeded \<or> pod_status_phase p = PodUnknown
         then modObj (setPhase CNClaimPhaseLost)
         else
           bindR (ensureOwnership E p) (\<lambda>p.
           bindR (attempt (syncBindPod E p)) (\<lambda>r. case r of
             Inl _ \<Rightarrow> ErrReSync ''error keep bound CN working'' retryPatchInterval
           | Inr _ \<Rightarrow> bindR getObj (\<lambda>c.
               if cs_sourcePod (cl_spec c) \<noteq> None then migrate E else ret ())))))"

datatype claim_action = ActBind

definition ClaimObserve :: "'w env \<Rightarrow> ('w claim_ctx, claim_action option) rm" where
  "ClaimObserve E =
     bindR getObj (\<lambda>c.
     if cl_phase c = CNClaimPhaseLost then ret None
     else if cl_podName c = [] then ret (Some ActBind)
     else bindR (ClaimSync E) (\<lambda>_. ret None))"

subsection \<open>Finalize\<close>

definition transferLabels :: "cnclaim \<Rightarrow> cnclaim \<Rightarrow> gomap \<Rightarrow> gomap" where
  "transferLabels from to ls =
     (let ls = gmake ls;
          ls = gdelAll (cs_additionalPodLabels (cl_spec from)) ls;
          ls = the (gputAll (cs_additionalPodLabels (cl_spec to)) ls);
          ls = the (gput CNPodPhaseLabel CNPodPhaseBound ls);
          ls = the (gput PodClaimedByLabel (cl_name to) ls);
          claimSetName = gstr (cl_labels to) ClaimSetNameLabel;
          ls = (if claimSetName \<noteq> [] then the (gput ClaimSetNameLabel claimSetName ls)
                else gdel ClaimSetNameLabel ls)
      in case cs_ownerName (cl_spec to) of
           Some ow \<Rightarrow> the (gput PodOwnerNameLabel ow ls)
         | None \<Rightarrow> gdel PodOwnerNameLabel ls)"

definition transferPodOwnership :: "'w env \<Rightarrow> pod \<Rightarrow> cnclaim \<Rightarrow> cnclaim \<Rightarrow> (('o, 'w) ctx, pod) rm" where
  "transferPodOwnership E p from to =
     callW (api_patch (e_pods E) p (p\<lparr>pod_labels := transferLabels from to (pod_labels p)\<rparr>))"

fun finalizeOwned :: "'w env \<Rightarrow> cnclaim \<Rightarrow> (string \<Rightarrow> cnclaim list) \<Rightarrow> pod list \<Rightarrow> ('w claim_ctx, bool) rm" where
  "finalizeOwned E c claimIndex [] = ret False"
| "finalizeOwned E c claimIndex (cn # cns) =
     (case claimIndex (pod_name cn) of
        [] \<Rightarrow> bindR (reclaimCN E cn []) (\<lambda>_. finalizeOwned E c claimIndex cns)
      | [holder] \<Rightarrow>
          if \<not> claimIsReady holder then ret False
          else bindR (wrapE ''error transferring pod ownership'' (transferPodOwnership E cn c holder)) (\<lambda>_.
               finalizeOwned E c claimIndex cns)
      | _ # _ # _ \<Rightarrow> errorf (''cannot transfer pod '' @ pod_name cn @ '' ownership: multiple CNClaims reference it''))"

definition ClaimFinalize :: "'w env \<Rightarrow> ('w claim_ctx, bool) rm" where
  "ClaimFinalize E =
     bindR getObj (\<lambda>c.
     bindR (listIgnoreNotFound ''error get owned CNs'' (ListPods E (cl_ns c) (ownedByClaim c))) (\<lambda>ownedCNs.
     if ownedCNs = [] then ret True
     else
       bindR (wrapE ''error building pod claim index''
                (buildPodClaimIndex E (cl_ns c) (cl_name c))) (\<lambda>claimIndex.
       finalizeOwned E c claimIndex ownedCNs)))"

subsection \<open>Pod events\<close>

definition indexClaimByPodName :: "cnclaim \<Rightarrow> string list" where
  "indexClaimByPodName cl = (if cl_podName cl = [] then [] else [cl_podName cl])"

definition claimPodNameField :: string where
  "claimPodNameField = ''spec.podName''"

definition containsRequest :: "obj_key list \<Rightarrow> obj_key \<Rightarrow> bool" where
  "containsRequest reqs req \<longleftrightarrow> (\<exists>r \<in> set reqs. r = req)"

fun addRequests :: "string \<Rightarrow> obj_key list \<Rightarrow> cnclaim list \<Rightarrow> obj_key list" where
  "addRequests ns requests [] = requests"
| "addRequests ns requests (cl # cls) =
     (let req = (ns, cl_name cl) in
      addRequests ns (if containsRequest requests req then requests else requests @ [req]) cls)"

definition requestsForPod :: "'w env \<Rightarrow> pod \<Rightarrow> 'w \<Rightarrow> obj_key list \<times> 'w" where
  "requestsForPod E p w =
     (let requests = (if gstr (pod_labels p) PodClaimedByLabel \<noteq> []
                      then [(pod_ns p, gstr (pod_labels p) PodClaimedByLabel)] else [])
      in case api_list (e_claims E) (pod_ns p) (MatchingFields claimPodNameField (pod_name p)) w of
           (Inl e, w') \<Rightarrow> (requests, w')
         | (Inr cls, w') \<Rightarrow> (addRequests (pod_ns p) requests cls, w'))"

section \<open>Pod labels\<close>

text \<open>The labels a claim manages on its pod, as one partial function over the labels before.\<close>

definition ownedLabel :: "cnclaim \<Rightarrow> gomap \<Rightarrow> string \<Rightarrow> string option" where
  "ownedLabel c ls k =
     (if k = PodOwnerNameLabel \<and> cs_ownerName (cl_spec c) \<noteq> None then cs_ownerName (cl_spec c)
      else if k = ClaimSetNameLabel \<and> gstr (cl_labels c) ClaimSetNameLabel \<noteq> []
        then Some (gstr (cl_labels c) ClaimSetNameLabel)
      else if k = PodClaimedByLabel then Some (cl_name c)
      else if k = CNPodPhaseLabel then Some CNPodPhaseBound
      else case gget (cs_additionalPodLabels (cl_spec c)) k of Some v \<Rightarrow> Some v | None \<Rightarrow> gget ls k)"

lemma ownershipLabels_spec:
  "ownershipLabels c (Some f) = Some (Some (ownedLabel c (Some f)))"
  by (cases "cs_additionalPodLabels (cl_spec c)"; cases "cs_ownerName (cl_spec c)")
    (auto simp: ownershipLabels_def ownedLabel_def Let_def fun_eq_iff map_add_def split: option.splits)

lemma ownershipLabels_nil [simp]: "ownershipLabels c None = None"
  by (cases "gputAll (cs_additionalPodLabels (cl_spec c)) None")
    (auto simp: ownershipLabels_def gputAll_def split: option.splits if_splits)

lemma ownershipLabels_None_iff: "ownershipLabels c ls = None \<longleftrightarrow> ls = None"
  by (cases ls) (simp_all add: ownershipLabels_spec)

lemma ownershipLabels_SomeD:
  "ownershipLabels c ls = Some ls' \<Longrightarrow> gget ls' k = ownedLabel c ls k"
  by (cases ls) (auto simp: ownershipLabels_spec)

lemma reclaimLabels_nil [simp]: "reclaimLabels c None = None"
  by (simp add: reclaimLabels_def)

definition reclaimedLabel :: "cnclaim \<Rightarrow> gomap \<Rightarrow> string \<Rightarrow> string option" where
  "reclaimedLabel c ls k =
     (if k \<in> gdom (cs_additionalPodLabels (cl_spec c)) then None
      else if k = CNPodPhaseLabel then Some CNPodPhaseDraining
      else if k = PodClaimedByLabel \<or> k = PodOwnerNameLabel then None
      else if k = PodLastOwnerLabel \<and> gget ls PodOwnerNameLabel \<noteq> None then gget ls PodOwnerNameLabel
      else gget ls k)"

lemma reclaimLabels_spec:
  "reclaimLabels c (Some f) = Some (Some (reclaimedLabel c (Some f)))"
  by (cases "cs_additionalPodLabels (cl_spec c)"; cases "f PodOwnerNameLabel")
    (auto simp: reclaimLabels_def reclaimedLabel_def Let_def fun_eq_iff gdom_def restrict_map_def)

lemma reclaimLabels_SomeD:
  "reclaimLabels c ls = Some ls' \<Longrightarrow> gget ls' k = reclaimedLabel c ls k"
  by (cases ls) (auto simp: reclaimLabels_spec)

text \<open>\<^verbatim>\<open>transferPodOwnership\<close>: after a transfer the pod carries exactly the labels of the
  claim it goes to. Every label the leaving claim managed is gone or replaced: the claimed-by,
  claim set and owner labels are those of the new claim (absent when it has none), its additional
  labels are set, the additional labels only the leaving claim had are removed, and every other
  label is untouched. A pod without a label map gets one.\<close>

theorem transferLabels_exact:
  "gget (transferLabels from to ls) k =
     (if k = PodOwnerNameLabel then cs_ownerName (cl_spec to)
      else if k = ClaimSetNameLabel then
        (if gstr (cl_labels to) ClaimSetNameLabel = [] then None
         else Some (gstr (cl_labels to) ClaimSetNameLabel))
      else if k = PodClaimedByLabel then Some (cl_name to)
      else if k = CNPodPhaseLabel then Some CNPodPhaseBound
      else if gget (cs_additionalPodLabels (cl_spec to)) k \<noteq> None
        then gget (cs_additionalPodLabels (cl_spec to)) k
      else if k \<in> gdom (cs_additionalPodLabels (cl_spec from)) then None
      else gget ls k)"
proof -
  obtain f where f: "gmake ls = Some f" using gmake_neq_nil by blast
  then have ls: "gget ls j = f j" for j by (metis gget_Some gget_gmake)
  show ?thesis
    by (cases "cs_additionalPodLabels (cl_spec from)"; cases "cs_additionalPodLabels (cl_spec to)";
        cases "cs_ownerName (cl_spec to)")
      (auto simp: transferLabels_def Let_def f ls gdom_def restrict_map_def map_add_def split: option.splits)
qed

text \<open>\<^verbatim>\<open>ensureOwnership\<close>, \<^verbatim>\<open>reclaimCN\<close>: reclaiming a pod undoes taking it. From any
  label map, taking the pod and then reclaiming it for the same claim leaves it Draining, with no
  claimed-by and no owner label and none of the claim's additional labels; the owner, if any, is
  remembered as the last owner, and every label the claim does not manage has its first value.\<close>

theorem reclaim_undoes_ownership:
  assumes "ownershipLabels c ls = Some ls1" and "reclaimLabels c ls1 = Some ls2"
    and "CNPodPhaseLabel \<notin> gdom (cs_additionalPodLabels (cl_spec c))"
    and "PodLastOwnerLabel \<notin> gdom (cs_additionalPodLabels (cl_spec c))"
    and "PodOwnerNameLabel \<notin> gdom (cs_additionalPodLabels (cl_spec c))"
  shows "gget ls2 CNPodPhaseLabel = Some CNPodPhaseDraining \<and>
     gget ls2 PodClaimedByLabel = None \<and> gget ls2 PodOwnerNameLabel = None \<and>
     (\<forall>k \<in> gdom (cs_additionalPodLabels (cl_spec c)). gget ls2 k = None) \<and>
     gget ls2 PodLastOwnerLabel = (case cs_ownerName (cl_spec c) of
        Some ow \<Rightarrow> Some ow
      | None \<Rightarrow> (case gget ls PodOwnerNameLabel of Some v \<Rightarrow> Some v | None \<Rightarrow> gget ls PodLastOwnerLabel)) \<and>
     (\<forall>k. k \<notin> gdom (cs_additionalPodLabels (cl_spec c)) \<longrightarrow>
        k \<notin> {CNPodPhaseLabel, PodClaimedByLabel, PodOwnerNameLabel, PodLastOwnerLabel, ClaimSetNameLabel} \<longrightarrow>
        gget ls2 k = gget ls k)"
proof -
  have dom: "gget (cs_additionalPodLabels (cl_spec c)) k = None"
    if "k \<notin> gdom (cs_additionalPodLabels (cl_spec c))" for k
    using that by (cases "cs_additionalPodLabels (cl_spec c)") (auto simp: gdom_def)
  show ?thesis
    using assms(3-5) dom
    by (auto simp: reclaimLabels_SomeD[OF assms(2)] ownershipLabels_SomeD[OF assms(1)]
        reclaimedLabel_def ownedLabel_def split: option.splits)
qed

theorem reclaim_undoes_ownership_witness:
  "let c = sampleClaim ''c''; ls2 = the (reclaimLabels c (the (ownershipLabels c idleLabels)))
   in gget ls2 PodLastOwnerLabel = Some ''alice'' \<and> gget ls2 ''team'' = None \<and>
      gget ls2 PoolNameLabel = Some ''pool''"
proof -
  let ?c = "sampleClaim ''c''"
  let ?l1 = "the (ownershipLabels ?c idleLabels)"
  have own: "ownershipLabels ?c idleLabels = Some ?l1" and rec: "reclaimLabels ?c ?l1 = Some (the (reclaimLabels ?c ?l1))"
    by (simp_all add: idleLabels_def ownershipLabels_spec reclaimLabels_spec)
  show ?thesis
    using reclaim_undoes_ownership[OF own rec]
    by (simp add: Let_def sampleClaim_def sampleClaimSpec_def gdom_def label_key_defs idleLabels_def)
qed

section \<open>The claim index\<close>

text \<open>What the users of the index rely on: a pod's entry lists, in list order, the claims other
  than the excluded one that are not being deleted and name the pod.\<close>

locale claim_index =
  fixes index_of :: "string \<Rightarrow> cnclaim list \<Rightarrow> string \<Rightarrow> cnclaim list"
  assumes index_entry: "n \<noteq> [] \<Longrightarrow>
      index_of x cls n = filter (\<lambda>d. cl_name d \<noteq> x \<and> cl_deleted d = None \<and> cl_podName d = n) cls"
begin

lemma free_iff:
  "n \<noteq> [] \<Longrightarrow> index_of x cls n = [] \<longleftrightarrow>
     (\<forall>d \<in> set cls. cl_name d \<noteq> x \<longrightarrow> cl_deleted d = None \<longrightarrow> cl_podName d \<noteq> n)"
  by (auto simp: index_entry filter_empty_conv)

lemma holder_iff:
  "n \<noteq> [] \<Longrightarrow> d \<in> set (index_of x cls n) \<longleftrightarrow>
     d \<in> set cls \<and> cl_name d \<noteq> x \<and> cl_deleted d = None \<and> cl_podName d = n"
  by (auto simp: index_entry)

lemma index_append:
  "n \<noteq> [] \<Longrightarrow> index_of x (cls @ cls') n = index_of x cls n @ index_of x cls' n"
  by (simp add: index_entry)

end

lemma foldl_indexClaim:
  "n \<noteq> [] \<Longrightarrow> foldl (indexClaim x) idx cls n =
     idx n @ filter (\<lambda>d. cl_name d \<noteq> x \<and> cl_deleted d = None \<and> cl_podName d = n) cls"
  by (induction cls arbitrary: idx) (auto simp: indexClaim_def)

interpretation claims: claim_index claimIndexOf
  by unfold_locales (simp add: claimIndexOf_def foldl_indexClaim)

lemma claimedByOthersIn_iff:
  "claimedByOthersIn n x cls \<longleftrightarrow> (\<exists>d \<in> set cls. cl_name d \<noteq> x \<and> cl_deleted d = None \<and> cl_podName d = n)"
  by (induction cls) auto

text \<open>\<^verbatim>\<open>buildPodClaimIndex\<close>, \<^verbatim>\<open>podClaimedByOthers\<close>: the index built once agrees with the
  per-pod scan. For every pod name, the scan says "claimed by others" exactly when the index has
  an entry; both fail with the list error, and both leave the same world.\<close>

theorem index_agrees_with_scan:
  assumes "n \<noteq> []"
  shows "podClaimedByOthers E ns n x s =
    bindR (buildPodClaimIndex E ns x) (\<lambda>idx. ret (idx n \<noteq> [])) s"
proof -
  have "claimedByOthersIn n x cls \<longleftrightarrow> claimIndexOf x cls n \<noteq> []" for cls
    using claims.free_iff[OF assms, of x cls] claimedByOthersIn_iff[of n x cls] by auto
  then show ?thesis
    by (simp add: podClaimedByOthers_def buildPodClaimIndex_def monad_simps split: prod.splits sum.splits)
qed

theorem index_agrees_with_scan_witness:
  "podClaimedByOthers memEnv ''ns'' ''p0'' ''c''
     \<lparr>Obj = (), world = sampleWorld [] [bindSpec (samplePod ''p0'') (sampleClaim ''d'')]\<rparr> =
   (Inr True, \<lparr>Obj = (), world = sampleWorld [] [bindSpec (samplePod ''p0'') (sampleClaim ''d'')]\<rparr>)"
  by (subst index_agrees_with_scan)
    (simp_all add: buildPodClaimIndex_def monad_simps mem_defs sample_defs bindSpec_def gmake_def
      claimIndexOf_def indexClaim_def Let_def)

section \<open>Choosing and taking a pod\<close>

lemma priorityFunc_cmp:
  "priorityFunc c = (\<lambda>a b. cmpThen (previouslyOwned c a - previouslyOwned c b)
     (secondOfMinute (pod_created a) - secondOfMinute (pod_created b)))"
  by (auto simp: priorityFunc_def cmpThen_def fun_eq_iff Let_def)

interpretation priority: comparator UNIV "priorityFunc c" for c
  by unfold_locales (simp add: priorityFunc_cmp weak_order_cmpThen weak_order_score)

lemma ensureOwnership_InrE:
  assumes "ensureOwnership E p s = (Inr p', s')"
  obtains ls where "ownershipLabels (Obj s) (pod_labels p) = Some ls"
    and "api_update (e_pods E) (p\<lparr>pod_labels := ls\<rparr>) (world s) = (Inr p', world s')" and "Obj s' = Obj s"
  using assms by (auto simp: ensureOwnership_def monad_simps split: option.splits prod.splits sum.splits)

lemma ensureOwnership_InlE:
  assumes "ensureOwnership E p s = (Inl e, s')"
  obtains (nil) "pod_labels p = None" and "s' = s" and "e = nilMapPanic"
  | (rejected) ls where "ownershipLabels (Obj s) (pod_labels p) = Some ls"
    and "api_update (e_pods E) (p\<lparr>pod_labels := ls\<rparr>) (world s) = (Inl e, world s')" and "Obj s' = Obj s"
  using assms
  by (auto simp: ensureOwnership_def monad_simps ownershipLabels_None_iff split: option.splits prod.splits sum.splits)

text \<open>The loop passes over pods that are held or whose update conflicts, neither of which changes
  the stored pods, and stops at the first update that succeeds.\<close>

lemma tryClaim_SomeE:
  assumes "optimisticUpdate V E" and "tryClaim E idx ps s = (Inr (Some p'), s')"
  obtains p ls w where "p \<in> set ps" and "idx (pod_name p) = []" and "podsSame V (world s) w"
    and "ownershipLabels (Obj s) (pod_labels p) = Some ls"
    and "podWritten V (p\<lparr>pod_labels := ls\<rparr>) p' w (world s')" and "Obj s' = Obj s"
  using assms(2)
proof (induction ps arbitrary: s thesis)
  case Nil
  then show ?case by (simp add: monad_simps)
next
  case (Cons p ps)
  show ?case
  proof (cases "idx (pod_name p) = []")
    case False
    with Cons.prems(2) have "tryClaim E idx ps s = (Inr (Some p'), s')" by simp
    with Cons.IH[of s] Cons.prems(1) show ?thesis by (metis list.set_intros(2))
  next
    case True
    obtain r s1 where r: "ensureOwnership E p s = (r, s1)" by fastforce
    show ?thesis
    proof (cases r)
      case (Inr q)
      with r True Cons.prems(2) have q: "q = p'" "s1 = s'" by (simp_all add: monad_simps)
      obtain ls where ls: "ownershipLabels (Obj s) (pod_labels p) = Some ls"
          "api_update (e_pods E) (p\<lparr>pod_labels := ls\<rparr>) (world s) = (Inr p', world s')" "Obj s' = Obj s"
        using r Inr q by (auto elim: ensureOwnership_InrE)
      then have "podWritten V (p\<lparr>pod_labels := ls\<rparr>) p' (world s) (world s')"
        using assms(1) by (auto elim: update_cases)
      with ls True Cons.prems(1)[of p "world s" ls] show ?thesis by (simp add: podsSame_def)
    next
      case (Inl e)
      with r True Cons.prems(2)
      have e: "IsConflict e" "tryClaim E idx ps s1 = (Inr (Some p'), s')" "\<not> isPanic e"
        by (auto simp: monad_simps split: if_splits)
      obtain ls where "api_update (e_pods E) (p\<lparr>pod_labels := ls\<rparr>) (world s) = (Inl e, world s1)"
          and obj: "Obj s1 = Obj s"
        using r Inl e(3) by (auto elim!: ensureOwnership_InlE)
      then have same: "podsSame V (world s) (world s1)"
        using assms(1) e(1) by (auto elim: update_cases)
      obtain p0 ls0 w0 where p0: "p0 \<in> set ps" "idx (pod_name p0) = []" "podsSame V (world s1) w0"
          "ownershipLabels (Obj s1) (pod_labels p0) = Some ls0"
          "podWritten V (p0\<lparr>pod_labels := ls0\<rparr>) p' w0 (world s')" "Obj s' = Obj s1"
        using Cons.IH[OF _ e(2)] by blast
      have "podsSame V (world s) w0" using same p0(3) by (simp add: podsSame_def)
      with p0 obj Cons.prems(1)[of p0 w0 ls0] show ?thesis by simp
    qed
  qed
qed

lemma idleSelector_InrD:
  assumes "idleSelector E c s = (Inr sel, s')"
  shows "s' = s" and "selBase sel = cs_selector (cl_spec c)"
    and "set (selAdded sel) = {Requirement CNPodPhaseLabel SelEquals [CNPodPhaseIdle],
           Requirement PodOutdatedLabel SelDoesNotExist []} \<union>
         (if cs_poolName (cl_spec c) = [] then {}
          else {Requirement PoolNameLabel SelEquals [cs_poolName (cl_spec c)]})"
  using assms
  by (auto simp: idleSelector_def MustAsSelector_def MustEqual_def MustNotHave_def MustNewRequirement_def
      panicR_def monad_simps Let_def split: option.splits if_splits)

lemma listIgnoreNotFound_InrD:
  "listIgnoreNotFound msg m s = (Inr ps, s') \<Longrightarrow>
     m s = (Inr ps, s') \<or> ps = [] \<and> (\<exists>e. m s = (Inl e, s') \<and> IsNotFound e)"
  by (auto simp: listIgnoreNotFound_def monad_simps split: prod.splits sum.splits if_splits)

text \<open>The requirements of the idle query, read back from a matching label map.\<close>

lemma idle_match:
  assumes "idleSelector E c s = (Inr sel, s')" and "optMatches E (MatchingLabelsSelector sel) ls"
  shows "gget ls CNPodPhaseLabel = Some CNPodPhaseIdle \<and> gget ls PodOutdatedLabel = None \<and>
    e_selectorMatches E (Selector (cs_selector (cl_spec c)) []) ls \<and>
    (cs_poolName (cl_spec c) = [] \<or> gget ls PoolNameLabel = Some (cs_poolName (cl_spec c)))"
  using assms(2) idleSelector_InrD[OF assms(1)] by (auto simp: reqMatches_def split: if_splits)

lemma selectCN_NilE:
  assumes "sorts (e_sortPods E)" and "selectCN E [] s = (Inr (Some p'), s')"
  obtains sel idle w1 cls s2 where "idleSelector E (Obj s) s = (Inr sel, s)"
    and "api_list (e_pods E) (cl_ns (Obj s)) (MatchingLabelsSelector sel) (world s) = (Inr idle, w1)"
    and "api_list (e_claims E) (cl_ns (Obj s)) (MatchingLabels []) w1 = (Inr cls, world s2)"
    and "tryClaim E (claimIndexOf (cl_name (Obj s)) cls) (sortCNByPriority E (Obj s) idle) s2 = (Inr (Some p'), s')"
    and "Obj s2 = Obj s"
proof -
  let ?c = "Obj s"
  from assms(2) obtain sel s0 idle s1 idx s2 where sel: "idleSelector E ?c s = (Inr sel, s0)"
    and l: "listIgnoreNotFound ''error list idle Pods''
        (ListPods E (cl_ns ?c) (MatchingLabelsSelector sel)) s0 = (Inr idle, s1)"
    and b: "buildPodClaimIndex E (cl_ns ?c) (cl_name ?c) s1 = (Inr idx, s2)"
    and t: "tryClaim E idx (sortCNByPriority E ?c idle) s2 = (Inr (Some p'), s')"
    by (auto simp: selectCN_def getObj_def bindR_def[of getObj] Let_def elim!: bindR_InrE)
  have s0: "s0 = s" using sel by (rule idleSelector_InrD)
  have "sortCNByPriority E ?c [] = []"
    using priority.sort_length[OF assms(1), of "[]" ?c] by (simp add: sortCNByPriority_def)
  then have "idle \<noteq> []" using t by (auto simp: monad_simps)
  then have "api_list (e_pods E) (cl_ns ?c) (MatchingLabelsSelector sel) (world s) = (Inr idle, world s1)"
    and "Obj s1 = ?c"
    using listIgnoreNotFound_InrD[OF l] s0 by (auto simp: ListPods_def monad_simps split: prod.splits)
  moreover from b obtain cls where
    "api_list (e_claims E) (cl_ns ?c) (MatchingLabels []) (world s1) = (Inr cls, world s2)"
    and "idx = claimIndexOf (cl_name ?c) cls" and "Obj s2 = Obj s1"
    by (auto simp: buildPodClaimIndex_def monad_simps split: prod.splits sum.splits)
  ultimately show thesis using that[of sel idle "world s1" cls s2] sel s0 t by simp
qed

text \<open>Without an orphan an Idle pod is taken.\<close>

lemma selectCN_idle:
  assumes upd: "optimisticUpdate V E" and lst: "cachedPodList V E" and clst: "claimListKeepsHist V E"
    and srt: "sorts (e_sortPods E)"
    and run: "selectCN E [] s = (Inr (Some p'), s')" and name: "pod_name p' \<noteq> []"
  shows "\<exists>p w1 cls w2. stored V w2 (podKey p) = Some p \<and> pod_ns p = cl_ns (Obj s) \<and>
     gget (pod_labels p) CNPodPhaseLabel = Some CNPodPhaseIdle \<and> gget (pod_labels p) PodOutdatedLabel = None \<and>
     e_selectorMatches E (Selector (cs_selector (cl_spec (Obj s))) []) (pod_labels p) \<and>
     (cs_poolName (cl_spec (Obj s)) = [] \<or> gget (pod_labels p) PoolNameLabel = Some (cs_poolName (cl_spec (Obj s)))) \<and>
     api_list (e_claims E) (cl_ns (Obj s)) (MatchingLabels []) w1 = (Inr cls, w2) \<and>
     (\<forall>d \<in> set cls. cl_name d \<noteq> cl_name (Obj s) \<longrightarrow> cl_deleted d = None \<longrightarrow> cl_podName d \<noteq> pod_name p) \<and>
     p' = p\<lparr>pod_labels := pod_labels p', pod_rv := pod_rv p'\<rparr> \<and>
     (\<forall>k. gget (pod_labels p') k = ownedLabel (Obj s) (pod_labels p) k) \<and>
     stored V (world s') = (stored V w2)(podKey p \<mapsto> p') \<and> Obj s' = Obj s"
proof -
  obtain sel idle w1 cls s2 where sel: "idleSelector E (Obj s) s = (Inr sel, s)"
    and l: "api_list (e_pods E) (cl_ns (Obj s)) (MatchingLabelsSelector sel) (world s) = (Inr idle, w1)"
    and c: "api_list (e_claims E) (cl_ns (Obj s)) (MatchingLabels []) w1 = (Inr cls, world s2)"
    and t: "tryClaim E (claimIndexOf (cl_name (Obj s)) cls) (sortCNByPriority E (Obj s) idle) s2 = (Inr (Some p'), s')"
    and o2: "Obj s2 = Obj s"
    using srt run by (rule selectCN_NilE)
  obtain p ls w where p: "p \<in> set (sortCNByPriority E (Obj s) idle)"
    and free: "claimIndexOf (cl_name (Obj s)) cls (pod_name p) = []" and same: "podsSame V (world s2) w"
    and ls: "ownershipLabels (Obj s) (pod_labels p) = Some ls"
    and wr: "podWritten V (p\<lparr>pod_labels := ls\<rparr>) p' w (world s')" and o': "Obj s' = Obj s"
    by (rule tryClaim_SomeE[OF upd t]) (simp add: o2)
  have "p \<in> set idle" using p priority.sort_set[OF srt] by (simp add: sortCNByPriority_def)
  then have p1: "pod_ns p = cl_ns (Obj s)" "pv_hist V w1 (podKey p) (pod_rv p) = Some p"
      "optMatches E (MatchingLabelsSelector sel) (pod_labels p)"
    using cachedPodListD[OF lst l] by blast+
  have "histGrows V w1 (world s2)"
    using clst c unfolding claimListKeepsHist_def by (metis snd_conv)
  then have "pv_hist V (world s2) (podKey p) (pod_rv p) = Some p" using p1(2) by (rule histGrowsD)
  then have "pv_hist V w (podKey p) (pod_rv p) = Some p" using same by (simp add: podsSame_def)
  then have "stored V w (podKey p) = Some p" using podWritten_before[OF wr] by simp
  then have st: "stored V (world s2) (podKey p) = Some p" using podsSame_stored[OF same] by simp
  have st': "stored V (world s') = (stored V (world s2))(podKey p \<mapsto> p')"
    using podWritten_stored[OF wr] podsSame_stored[OF same] by simp
  have p': "p' = p\<lparr>pod_labels := ls, pod_rv := pod_rv p'\<rparr>" using wr by (simp add: podWritten_def)
  then have "pod_labels p' = ls" and nm: "pod_name p' = pod_name p" by (metis pod.select_convs pod.update_convs pod.surjective)+
  moreover have "\<forall>d \<in> set cls. cl_name d \<noteq> cl_name (Obj s) \<longrightarrow> cl_deleted d = None \<longrightarrow> cl_podName d \<noteq> pod_name p"
    using free claims.free_iff name nm by simp
  ultimately show ?thesis
    using st p1(1) idle_match[OF sel p1(3)] c ownershipLabels_SomeD[OF ls] st' p' o' by blast
qed

text \<open>C2 (\<^verbatim>\<open>selectCN\<close>): the pod a claim gets was its own or was free. Under the API laws, when \<open>selectCN\<close> returns
  a pod it is the first orphan, a pod that already carries this claim's labels when \<open>Bind\<close> lists them, and
  nothing is written; or there is no orphan, and then the pod as stored at that moment was an Idle, not
  outdated pod of the claim's namespace and pool that matches its selector; no other live claim of the
  listing names it; and the one change to the stored pods is that this pod now carries the claim's
  labels, Bound and claimed by this claim.\<close>

theorem selectCN_takes_free_pod:
  assumes upd: "optimisticUpdate V E" and lst: "cachedPodList V E" and clst: "claimListKeepsHist V E"
    and srt: "sorts (e_sortPods E)"
    and run: "selectCN E orphans s = (Inr (Some p'), s')" and name: "pod_name p' \<noteq> []"
  shows "case orphans of q # _ \<Rightarrow> p' = q \<and> s' = s | [] \<Rightarrow>
     (\<exists>p w1 cls w2. stored V w2 (podKey p) = Some p \<and> pod_ns p = cl_ns (Obj s) \<and>
     gget (pod_labels p) CNPodPhaseLabel = Some CNPodPhaseIdle \<and> gget (pod_labels p) PodOutdatedLabel = None \<and>
     e_selectorMatches E (Selector (cs_selector (cl_spec (Obj s))) []) (pod_labels p) \<and>
     (cs_poolName (cl_spec (Obj s)) = [] \<or> gget (pod_labels p) PoolNameLabel = Some (cs_poolName (cl_spec (Obj s)))) \<and>
     api_list (e_claims E) (cl_ns (Obj s)) (MatchingLabels []) w1 = (Inr cls, w2) \<and>
     (\<forall>d \<in> set cls. cl_name d \<noteq> cl_name (Obj s) \<longrightarrow> cl_deleted d = None \<longrightarrow> cl_podName d \<noteq> pod_name p) \<and>
     p' = p\<lparr>pod_labels := pod_labels p', pod_rv := pod_rv p'\<rparr> \<and>
     (\<forall>k. gget (pod_labels p') k = ownedLabel (Obj s) (pod_labels p) k) \<and>
     stored V (world s') = (stored V w2)(podKey p \<mapsto> p') \<and> Obj s' = Obj s)"
proof (cases orphans)
  case Nil
  show ?thesis unfolding Nil list.case
    by (rule selectCN_idle[OF upd lst clst srt run[unfolded Nil] name])
next
  case (Cons q rest)
  with run show ?thesis by (auto simp: selectCN_def ret_def)
qed

theorem selectCN_takes_free_pod_witness:
  "\<exists>p' s' p w2. selectCN memEnv []
        \<lparr>Obj = sampleClaim ''c'', world = sampleWorld [samplePod ''p0'', samplePod ''p1'']
           [bindSpec (samplePod ''p0'') (sampleClaim ''d'')]\<rparr> = (Inr (Some p'), s') \<and>
     stored memView w2 (podKey p) = Some p \<and> gget (pod_labels p) CNPodPhaseLabel = Some CNPodPhaseIdle \<and>
     gget (pod_labels p') PodClaimedByLabel = Some ''c'' \<and>
     stored memView (world s') = (stored memView w2)(podKey p \<mapsto> p')"
proof -
  let ?s = "\<lparr>Obj = sampleClaim ''c'', world = sampleWorld [samplePod ''p0'', samplePod ''p1'']
           [bindSpec (samplePod ''p0'') (sampleClaim ''d'')]\<rparr>"
  have "\<exists>p' s'. selectCN memEnv [] ?s = (Inr (Some p'), s') \<and> pod_name p' \<noteq> []"
    by (simp add: selectCN_def idleSelector_def MustAsSelector_def MustEqual_def MustNotHave_def
        MustNewRequirement_def listIgnoreNotFound_def ListPods_def sortCNByPriority_def priorityFunc_def
        previouslyOwned_def secondOfMinute_def buildPodClaimIndex_def claimIndexOf_def indexClaim_def
        ensureOwnership_def ownershipLabels_def bindSpec_def gmake_def Let_def monad_simps mem_defs sample_defs)
  then obtain p' s' where run: "selectCN memEnv [] ?s = (Inr (Some p'), s')" and "pod_name p' \<noteq> []" by blast
  with selectCN_takes_free_pod[OF mem_laws, of "[]" ?s p' s'] show ?thesis
    by (fastforce simp: memEnv_def ownedLabel_def sampleClaim_def)
qed

text \<open>Claims that all hold the same copy of a pod and try to take it one after another, with
  arbitrary writes of others (\<open>g\<close>) in between.\<close>

fun claimAll :: "'w env \<Rightarrow> pod \<Rightarrow> (cnclaim \<times> ('w \<Rightarrow> 'w)) list \<Rightarrow> 'w \<Rightarrow> cnclaim list" where
  "claimAll E p [] w = []"
| "claimAll E p ((c, g) # cs) w =
     (case ensureOwnership E p \<lparr>Obj = c, world = w\<rparr> of
        (Inr _, s) \<Rightarrow> c # claimAll E p cs (g (world s))
      | (Inl _, s) \<Rightarrow> claimAll E p cs (g (world s)))"

text \<open>Others never give an object a version number it already had.\<close>

definition interference :: "'w pod_view \<Rightarrow> ('w \<Rightarrow> 'w) \<Rightarrow> bool" where
  "interference V g \<longleftrightarrow> (\<forall>w. histGrows V w (g w) \<and>
     (\<forall>k r. pv_cur V (g w) k = Some r \<longrightarrow> pv_cur V w k = Some r \<or> pv_hist V w k r = None))"

definition superseded :: "'w pod_view \<Rightarrow> pod \<Rightarrow> 'w \<Rightarrow> bool" where
  "superseded V p w \<longleftrightarrow> pv_hist V w (podKey p) (pod_rv p) \<noteq> None \<and> pv_cur V w (podKey p) \<noteq> Some (pod_rv p)"

lemma superseded_interference: "interference V g \<Longrightarrow> superseded V p w \<Longrightarrow> superseded V p (g w)"
  unfolding interference_def superseded_def by (metis histGrowsD not_None_eq)

lemma superseded_fails:
  assumes "optimisticUpdate V E" and "superseded V p w"
    and "ensureOwnership E p \<lparr>Obj = c, world = w\<rparr> = (r, s)"
  shows "(\<exists>e. r = Inl e) \<and> superseded V p (world s)"
proof (cases "ownershipLabels c (pod_labels p)")
  case None
  with assms show ?thesis by (auto simp: ensureOwnership_def monad_simps)
next
  case (Some ls)
  have no: "\<not> podWritten V (p\<lparr>pod_labels := ls\<rparr>) p' w w'" for p' w'
    using assms(2) by (auto simp: superseded_def podWritten_def)
  have "api_update (e_pods E) (p\<lparr>pod_labels := ls\<rparr>) w = (r, world s)"
    using assms(3) Some by (auto simp: ensureOwnership_def monad_simps split: prod.splits)
  with assms(1) show ?thesis
  proof (cases rule: update_cases)
    case (conflict e)
    then show ?thesis using assms(2) by (simp add: superseded_def podsSame_def)
  qed (use no in blast)+
qed

lemma claimAll_superseded:
  assumes "optimisticUpdate V E" and "\<forall>(c, g) \<in> set cs. interference V g" and "superseded V p w"
  shows "claimAll E p cs w = []"
  using assms(2,3)
proof (induction cs arbitrary: w)
  case (Cons cg cs)
  obtain c g where cg: "cg = (c, g)" by fastforce
  obtain r s where r: "ensureOwnership E p \<lparr>Obj = c, world = w\<rparr> = (r, s)" by fastforce
  with superseded_fails[OF assms(1) Cons.prems(2)] obtain e where "r = Inl e" "superseded V p (world s)" by blast
  with Cons r cg superseded_interference show ?case by fastforce
qed simp

lemma success_supersedes:
  assumes "optimisticUpdate V E" and "ensureOwnership E p \<lparr>Obj = c, world = w\<rparr> = (Inr p', s)"
  shows "superseded V p (world s)"
proof -
  obtain ls where "api_update (e_pods E) (p\<lparr>pod_labels := ls\<rparr>) w = (Inr p', world s)"
    using assms(2) by (auto elim: ensureOwnership_InrE)
  then have wr: "podWritten V (p\<lparr>pod_labels := ls\<rparr>) p' w (world s)"
    using assms(1) by (auto elim: update_cases)
  have "pod_rv p' \<noteq> pod_rv p" using podWritten_newVersion[OF assms(1) wr] by simp
  moreover have "pv_hist V w (podKey p) (pod_rv p) \<noteq> None"
    using assms(1) wr unfolding optimisticUpdate_def podWritten_def by (metis podKey_labels pod.select_convs(3) pod.update_convs(4) pod.surjective)
  ultimately show ?thesis
    using wr podWritten_grows[OF wr] unfolding superseded_def podWritten_def by (auto dest: histGrowsD)
qed

text \<open>C1 (\<^verbatim>\<open>ensureOwnership\<close>: "atomic operation with optimistic concurrency control, succeed means
  claimed"): of any number of claims that try to take the same copy of a pod, in any order and
  whatever others write to the API server in between, at most one succeeds.\<close>

theorem claim_race_one_winner:
  assumes "optimisticUpdate V E" and "\<forall>(c, g) \<in> set cs. interference V g"
  shows "length (claimAll E p cs w) \<le> 1"
  using assms(2)
proof (induction cs arbitrary: w)
  case (Cons cg cs)
  obtain c g where cg: "cg = (c, g)" by fastforce
  obtain r s where r: "ensureOwnership E p \<lparr>Obj = c, world = w\<rparr> = (r, s)" by fastforce
  show ?case
  proof (cases r)
    case (Inl e)
    with Cons r cg show ?thesis by simp
  next
    case (Inr p')
    then have "superseded V p (g (world s))"
      using r cg Cons.prems success_supersedes[OF assms(1)] superseded_interference by fastforce
    then have "claimAll E p cs (g (world s)) = []"
      using claimAll_superseded[OF assms(1)] Cons.prems by simp
    with r cg Inr show ?thesis by simp
  qed
qed simp

theorem claim_race_one_winner_witness:
  "let cs = [(sampleClaim ''a'', id), (sampleClaim ''b'', id)];
       ws = claimAll memEnv (samplePod ''p0'') cs (sampleWorld [samplePod ''p0''] [])
   in length ws \<le> 1 \<and> map cl_name ws = [''a'']"
proof -
  let ?cs = "[(sampleClaim ''a'', id), (sampleClaim ''b'', id)]"
  have "\<forall>(c, g) \<in> set ?cs. interference memView g"
    by (simp add: interference_def)
  from claim_race_one_winner[OF mem_optimisticUpdate this, of "samplePod ''p0''" "sampleWorld [samplePod ''p0''] []"]
  show ?thesis
    by (simp add: Let_def ensureOwnership_def ownershipLabels_def monad_simps mem_defs sample_defs)
qed

section \<open>Finalize\<close>

lemma patchStore_sends [sendsR]:
  assumes "\<And>h. ok (StoreW h (req\<lparr>sl_uuid := GetCNPodUUID E p\<rparr>))"
    and "\<And>h. sl_labels req = None \<Longrightarrow> ok (StoreLabelW h (GetCNPodUUID E p) None)"
  shows "onlySends P ok (patchStore (logged E) p req)"
  unfolding patchStore_def by (rule sendsR assms | simp only: send_simps GetCNPodUUID_logged | simp)+

text \<open>What \<^verbatim>\<open>reclaimCN\<close> may send: the HAKeeper is told to drain the store and to drop its labels,
  then the pod is patched to the reclaimed labels.\<close>

lemma reclaimCN_sends:
  assumes "\<And>h req. sl_state req = WorkState_Draining \<Longrightarrow> sl_uuid req = GetCNPodUUID E p \<Longrightarrow> ok (StoreW h req)"
    and "\<And>h. ok (StoreLabelW h (GetCNPodUUID E p) None)"
    and "\<And>c ls p'. P c \<Longrightarrow> reclaimLabels c (pod_labels p) = Some ls \<Longrightarrow> pod_labels p' = ls \<Longrightarrow> ok (PodW (WPatch p p'))"
  shows "onlySends P ok (reclaimCN (logged E) p [])"
  unfolding reclaimCN_def by (rule sendsR assms | simp only: send_simps | simp)+

text \<open>What \<^verbatim>\<open>Finalize\<close> of claim \<open>c\<close> may send, given the pods it owns and the index of the other
  live claims: drain a pod nobody else names, hand a pod over to the only other claim that names
  it, and that only when this claim is ready.\<close>

definition drainable :: "(string \<Rightarrow> cnclaim list) \<Rightarrow> pod list \<Rightarrow> pod \<Rightarrow> bool" where
  "drainable idx owned p \<longleftrightarrow> p \<in> set owned \<and> idx (pod_name p) = []"

fun finalizeEvent :: "'w env \<Rightarrow> cnclaim \<Rightarrow> (string \<Rightarrow> cnclaim list) \<Rightarrow> pod list \<Rightarrow> event \<Rightarrow> bool" where
  "finalizeEvent E c idx owned (PodW (WPatch p p')) =
     (drainable idx owned p \<and> reclaimLabels c (pod_labels p) = Some (pod_labels p') \<or>
      (\<exists>holder. p \<in> set owned \<and> idx (pod_name p) = [holder] \<and> claimIsReady holder \<and>
         p' = p\<lparr>pod_labels := transferLabels c holder (pod_labels p)\<rparr>))"
| "finalizeEvent E c idx owned (StoreW h req) =
     (\<exists>p. drainable idx owned p \<and> sl_uuid req = GetCNPodUUID E p \<and> sl_state req = WorkState_Draining)"
| "finalizeEvent E c idx owned (StoreLabelW h u ls) =
     (\<exists>p. drainable idx owned p \<and> u = GetCNPodUUID E p \<and> ls = None)"
| "finalizeEvent E c idx owned _ = False"

lemma finalizeOwned_sends:
  "set cns \<subseteq> set owned \<Longrightarrow>
   onlySends (\<lambda>x. x = c) (finalizeEvent E c idx owned) (finalizeOwned (logged E) c idx cns)"
proof (induction cns)
  case Nil
  then show ?case by (simp add: sendsR)
next
  case (Cons p ps)
  then have IH: "onlySends (\<lambda>x. x = c) (finalizeEvent E c idx owned) (finalizeOwned (logged E) c idx ps)"
    and p: "p \<in> set owned" by simp_all
  have drain: "onlySends (\<lambda>x. x = c) (finalizeEvent E c idx owned) (reclaimCN (logged E) p [])"
    if "idx (pod_name p) = []"
    using that p by (intro reclaimCN_sends) (auto simp: drainable_def)
  have hand: "onlySends (\<lambda>x. x = c) (finalizeEvent E c idx owned) (transferPodOwnership (logged E) p c h)"
    if "idx (pod_name p) = [h]" and "claimIsReady h" for h
    unfolding transferPodOwnership_def using that p
    by (simp only: send_simps) (rule sendsR, auto)
  show ?case unfolding finalizeOwned.simps(2)
    by (rule sendsR drain hand IH | simp)+
qed

lemma ListPods_logged:
  "ListPods (logged E) ns opt s = (case api_list (e_pods E) ns opt (fst (world s)) of
     (r, w) \<Rightarrow> (r, s\<lparr>world := (w, logOf s)\<rparr>))"
  by (simp add: ListPods_def monad_simps readL_def split: prod.splits)

lemma buildPodClaimIndex_logged:
  "buildPodClaimIndex (logged E) ns x s =
     (case api_list (e_claims E) ns (MatchingLabels []) (fst (world s)) of
        (Inr cls, w) \<Rightarrow> (Inr (claimIndexOf x cls), s\<lparr>world := (w, logOf s)\<rparr>)
      | (Inl e, w) \<Rightarrow> (Inl e, s\<lparr>world := (w, logOf s)\<rparr>))"
  by (simp add: buildPodClaimIndex_def monad_simps readL_def split: prod.splits sum.splits)

text \<open>C3 (\<^verbatim>\<open>Finalize\<close>): deleting a claim never drains a pod that another live claim names. Whatever
  the API server, HAKeeper and the clock answer, every write sent is of one of these kinds: a pod
  of the claim that no other live claim names is drained (its store set to Draining with its
  labels dropped, its pod labels reclaimed); a pod of the claim that exactly one other live claim
  names, and that claim is ready, is handed to it. A pod that two or more others name is not
  touched, and neither is any other object.\<close>

theorem finalize_sends:
  assumes "api_list (e_pods E) (cl_ns c) (ownedByClaim c) w = (Inr owned, w1)"
    and "api_list (e_claims E) (cl_ns c) (MatchingLabels []) w1 = (Inr cls, w2)"
    and "ClaimFinalize (logged E) \<lparr>Obj = c, world = (w, [])\<rparr> = (r, s')"
  shows "\<forall>e \<in> set (logOf s'). finalizeEvent E c (claimIndexOf (cl_name c) cls) owned e"
proof (cases "owned = []")
  case True
  with assms(1,3) show ?thesis
    by (auto simp: ClaimFinalize_def listIgnoreNotFound_def ListPods_logged monad_simps)
next
  case False
  let ?s2 = "\<lparr>Obj = c, world = (w2, [])\<rparr>"
  have "finalizeOwned (logged E) c (claimIndexOf (cl_name c) cls) owned ?s2 = (r, s')"
    using assms False
    by (simp add: ClaimFinalize_def listIgnoreNotFound_def ListPods_logged buildPodClaimIndex_logged monad_simps)
  moreover have "onlySends (\<lambda>x. x = c) (finalizeEvent E c (claimIndexOf (cl_name c) cls) owned)
      (finalizeOwned (logged E) c (claimIndexOf (cl_name c) cls) owned)"
    by (simp add: finalizeOwned_sends)
  ultimately show ?thesis by (auto elim!: onlySendsD)
qed

text \<open>A claim of the sample world that owns the pods \<open>ns\<close>, and another bound claim that names
  the first of them.\<close>

definition boundLabels :: gomap where
  "boundLabels = the (ownershipLabels (sampleClaim ''c'') idleLabels)"

definition boundPod :: "string \<Rightarrow> pod" where
  "boundPod n = (samplePod n)\<lparr>pod_labels := boundLabels\<rparr>"

definition holderClaim :: cnclaim where
  "holderClaim = setPhase CNClaimPhaseBound (bindSpec (samplePod ''p0'') (sampleClaim ''d''))"

definition finalizeSample :: "(cnclaim, mem lworld) ctx" where
  "finalizeSample = \<lparr>Obj = sampleClaim ''c'', world = (sampleWorld [boundPod ''p0''] [holderClaim], [])\<rparr>"

lemmas finalizeSample_defs =
  finalizeSample_def holderClaim_def boundPod_def boundLabels_def bindSpec_def setPhase_def
  ownershipLabels_def ownedByClaim_def gmake_def

lemma sample_lists:
  "api_list (e_pods memEnv) ''ns'' (ownedByClaim (sampleClaim ''c'')) (sampleWorld [boundPod ''p0''] [holderClaim]) =
     (Inr [boundPod ''p0''], sampleWorld [boundPod ''p0''] [holderClaim])"
  "api_list (e_claims memEnv) ''ns'' (MatchingLabels []) (sampleWorld [boundPod ''p0''] [holderClaim]) =
     (Inr [holderClaim], sampleWorld [boundPod ''p0''] [holderClaim])"
  by (simp_all add: mem_listPods finalizeSample_defs sample_defs Let_def)
    (simp add: mem_defs)

theorem finalize_sends_witness:
  "list_all (finalizeEvent memEnv (sampleClaim ''c'') (claimIndexOf ''c'' [holderClaim]) [boundPod ''p0''])
     (logOf (snd (ClaimFinalize (logged memEnv) finalizeSample))) \<and>
   logOf (snd (ClaimFinalize (logged memEnv) finalizeSample)) =
     [PodW (WPatch (boundPod ''p0'') ((boundPod ''p0'')\<lparr>pod_labels :=
        transferLabels (sampleClaim ''c'') holderClaim boundLabels\<rparr>))]"
proof -
  let ?run = "ClaimFinalize (logged memEnv) finalizeSample"
  have ns: "cl_ns (sampleClaim ''c'') = ''ns''" "cl_name (sampleClaim ''c'') = ''c''"
    by (simp_all add: sampleClaim_def)
  have "logOf (snd ?run) = [PodW (WPatch (boundPod ''p0'') ((boundPod ''p0'')\<lparr>pod_labels :=
        transferLabels (sampleClaim ''c'') holderClaim boundLabels\<rparr>))]"
  proof -
    have idx: "claimIndexOf ''c'' [holderClaim] (pod_name (boundPod ''p0'')) = [holderClaim]"
      and ready: "claimIsReady holderClaim" and lbl: "pod_labels (boundPod ''p0'') = boundLabels"
      by (simp_all add: claimIndexOf_def indexClaim_def finalizeSample_defs sample_defs claimIsReady_def Let_def)
    show ?thesis
      by (simp add: ClaimFinalize_def finalizeSample_def listIgnoreNotFound_def ListPods_logged
          buildPodClaimIndex_logged ns sample_lists idx ready lbl transferPodOwnership_def writeL_def monad_simps
          split: prod.splits sum.splits)
  qed
  moreover have "\<forall>e \<in> set (logOf (snd ?run)).
      finalizeEvent memEnv (sampleClaim ''c'') (claimIndexOf (cl_name (sampleClaim ''c'')) [holderClaim]) [boundPod ''p0''] e"
    by (rule finalize_sends[where r = "fst ?run" and w = "sampleWorld [boundPod ''p0''] [holderClaim]"
          and ?w1.0 = "sampleWorld [boundPod ''p0''] [holderClaim]" and ?w2.0 = "sampleWorld [boundPod ''p0''] [holderClaim]"])
      (simp_all add: ns(1) sample_lists finalizeSample_def)
  ultimately show ?thesis by (simp add: ns list_all_iff)
qed

lemma finalizeOwned_not_done: "finalizeOwned E c idx cns s \<noteq> (Inr True, s')"
proof (induction cns arbitrary: s)
  case Nil
  then show ?case by (simp add: monad_simps)
next
  case (Cons p ps)
  show ?case
  proof
    assume run: "finalizeOwned E c idx (p # ps) s = (Inr True, s')"
    then show False
    proof (cases "idx (pod_name p)")
      case Nil
      with run Cons.IH show False by (auto elim!: bindR_InrE)
    next
      case (Cons h hs)
      with run \<open>\<And>s. finalizeOwned E c idx ps s \<noteq> (Inr True, s')\<close> show False
        by (cases hs) (auto simp: monad_simps elim!: bindR_InrE split: if_splits prod.splits sum.splits)
    qed
  qed
qed

text \<open>\<^verbatim>\<open>Finalize\<close>: "keep the finalizer for one more reconciliation": a claim is done, and its
  finalizer dropped, exactly when the list of Bound pods labelled as its own came back empty (or
  NotFound); a pass that moved or drained a pod is never the last one.\<close>

theorem finalize_done_iff:
  "fst (ClaimFinalize E s) = Inr True \<longleftrightarrow>
     (case fst (api_list (e_pods E) (cl_ns (Obj s)) (ownedByClaim (Obj s)) (world s)) of
        Inr owned \<Rightarrow> owned = [] | Inl e \<Rightarrow> IsNotFound e)"
proof -
  let ?c = "Obj s"
  obtain r w1 where l: "api_list (e_pods E) (cl_ns ?c) (ownedByClaim ?c) (world s) = (r, w1)" by fastforce
  show ?thesis
  proof (cases r)
    case (Inl e)
    then show ?thesis
      using l by (auto simp: ClaimFinalize_def listIgnoreNotFound_def ListPods_def monad_simps isPanic_def IsNotFound_def)
  next
    case (Inr owned)
    then have owned: "listIgnoreNotFound m (ListPods E (cl_ns ?c) (ownedByClaim ?c)) s = (Inr owned, s\<lparr>world := w1\<rparr>)" for m
      using l by (simp add: listIgnoreNotFound_def ListPods_def monad_simps)
    have "fst (ClaimFinalize E s) = Inr True \<longleftrightarrow> owned = []"
    proof (cases "owned = []")
      case True
      with owned show ?thesis by (simp add: ClaimFinalize_def getObj_def bindR_Inr ret_def)
    next
      case False
      with owned have "ClaimFinalize E s = bindR (wrapE ''error building pod claim index''
          (buildPodClaimIndex E (cl_ns ?c) (cl_name ?c))) (\<lambda>idx. finalizeOwned E ?c idx owned) (s\<lparr>world := w1\<rparr>)"
        by (simp add: ClaimFinalize_def getObj_def bindR_Inr)
      then have "ClaimFinalize E s \<noteq> (Inr True, s')" for s'
        by (auto simp: finalizeOwned_not_done elim!: bindR_InrE)
      with False show ?thesis by (metis prod.collapse)
    qed
    with l Inr show ?thesis by simp
  qed
qed

section \<open>Keeping a claim bound\<close>

text \<open>\<^verbatim>\<open>Sync\<close>: a claim whose pod is gone. Within \<open>waitCacheTimeout\<close> of the bound time
  nothing is written, the claim keeps its pod and its phase, and the reconcile is retried after
  that timeout. Later, exactly one write is sent, the patch that clears the pod reference; if it
  succeeds the claim is Lost on top of the server's answer, otherwise it is not marked Lost and
  the error is returned.\<close>

theorem sync_missing_pod:
  assumes get: "api_get (e_pods E) (cl_ns c, cl_podName c) w = (Inl e, w1)" and nf: "IsNotFound e"
    and now: "e_now E w1 = (t, w2)"
    and run: "ClaimSync (logged E) \<lparr>Obj = c, world = (w, [])\<rparr> = (r, s')"
  shows "if (\<exists>bt. ct_boundTime (cl_status c) = Some bt \<and> t - bt < waitCacheTimeout)
     then logOf s' = [] \<and> Obj s' = c \<and> (\<exists>msg. r = Inl (Err (ReSync waitCacheTimeout) msg))
     else logOf s' = [ClaimW (WPatch c (clearPodRef c))] \<and>
       (case fst (api_patch (e_claims E) c (clearPodRef c) (if ct_boundTime (cl_status c) = None then w1 else w2)) of
          Inr c' \<Rightarrow> r = Inr () \<and> Obj s' = setPhase CNClaimPhaseLost c'
        | Inl e' \<Rightarrow> Obj s' = clearPodRef c \<and> r = Inl (wrapPrefix ''error clearing lost claim spec'' e'))"
proof -
  have np: "\<not> isPanic e" using nf by (simp add: isPanic_def IsNotFound_def)
  have step: "ClaimSync (logged E) \<lparr>Obj = c, world = (w, [])\<rparr> =
      (case ct_boundTime (cl_status c) of
         None \<Rightarrow> markLost (logged E)
       | Some bt \<Rightarrow> bindR (nowR (logged E)) (\<lambda>t.
           if t - bt < waitCacheTimeout
           then ErrReSync ''pod status may be not update to date, wait'' waitCacheTimeout
           else markLost (logged E))) \<lparr>Obj = c, world = (w1, [])\<rparr>"
    using get nf np by (simp add: ClaimSync_def getObj_def bindR_Inr attempt_def callW_def readL_def)
  have lost: "logOf s1 = [ClaimW (WPatch c (clearPodRef c))] \<and>
       (case fst (api_patch (e_claims E) c (clearPodRef c) v) of
          Inr c' \<Rightarrow> q = Inr () \<and> Obj s1 = setPhase CNClaimPhaseLost c'
        | Inl e' \<Rightarrow> Obj s1 = clearPodRef c \<and> q = Inl (wrapPrefix ''error clearing lost claim spec'' e'))"
    if "markLost (logged E) \<lparr>Obj = c, world = (v, [])\<rparr> = (q, s1)" for q s1 v
  proof -
    obtain a b where "api_patch (e_claims E) c (clearPodRef c) v = (a, b)" by fastforce
    with that show ?thesis by (cases a) (auto simp: markLost_def monad_simps writeL_def)
  qed
  have tm: "nowR (logged E) \<lparr>Obj = c, world = (w1, [])\<rparr> = (Inr t, \<lparr>Obj = c, world = (w2, [])\<rparr>)"
    using now by (simp add: nowR_def readW_def readL_def)
  show ?thesis
  proof (cases "ct_boundTime (cl_status c)")
    case None
    with run step lost[of w1 r s'] show ?thesis by simp
  next
    case (Some bt)
    with run step have "(if t - bt < waitCacheTimeout
        then ErrReSync ''pod status may be not update to date, wait'' waitCacheTimeout
        else markLost (logged E)) \<lparr>Obj = c, world = (w2, [])\<rparr> = (r, s')"
      by (simp add: bindR_Inr tm)
    with Some lost[of w2 r s'] show ?thesis by (auto simp: ErrReSync_def throw_def split: if_splits)
  qed
qed

theorem sync_missing_pod_witness:
  "let c = setPhase CNClaimPhaseBound (bindSpec (samplePod ''gone'') (sampleClaim ''c''));
       s' = snd (ClaimSync (logged memEnv) \<lparr>Obj = c, world = (sampleWorld [] [c], [])\<rparr>)
   in cl_phase (Obj s') = CNClaimPhaseLost \<and> cl_podName (Obj s') = [] \<and> length (logOf s') = 1"
proof -
  let ?c = "setPhase CNClaimPhaseBound (bindSpec (samplePod ''gone'') (sampleClaim ''c''))"
  let ?w = "sampleWorld [] [?c]"
  let ?run = "ClaimSync (logged memEnv) \<lparr>Obj = ?c, world = (?w, [])\<rparr>"
  have get: "api_get (e_pods memEnv) (cl_ns ?c, cl_podName ?c) ?w = (Inl notFoundErr, ?w)"
    and now: "e_now memEnv ?w = (100 * second, ?w)"
    by (simp_all add: memEnv_def memPods_def memGetPod_def sampleWorld_def)
  have bt: "ct_boundTime (cl_status ?c) = None"
    by (simp add: setPhase_def bindSpec_def sample_defs Let_def)
  have patch: "\<exists>c'. fst (api_patch (e_claims memEnv) ?c (clearPodRef ?c) ?w) = Inr c' \<and> cl_podName c' = []"
    by (simp add: mem_defs sample_defs setPhase_def bindSpec_def clearPodRef_def Let_def)
  from sync_missing_pod[OF get _ now, where r = "fst ?run" and s' = "snd ?run"] bt patch
  show ?thesis
    by (auto simp: Let_def IsNotFound_def notFoundErr_def setPhase_def)
qed

section \<open>Migration\<close>

text \<open>The writes that start draining the pod \<open>p\<close>, and the writes of the claim itself.\<close>

fun drainEvent :: "'w env \<Rightarrow> pod \<Rightarrow> event \<Rightarrow> bool" where
  "drainEvent E p (PodW (WPatch q q')) = (q = p)"
| "drainEvent E p (StoreW h req) = (sl_uuid req = GetCNPodUUID E p \<and> sl_state req = WorkState_Draining)"
| "drainEvent E p (StoreLabelW h u ls) = (u = GetCNPodUUID E p \<and> ls = None)"
| "drainEvent E p _ = False"

fun isClaimW :: "event \<Rightarrow> bool" where
  "isClaimW (ClaimW x) = True"
| "isClaimW _ = False"

lemma completeMigration_sends: "onlySends (\<lambda>_. True) isClaimW (completeMigration (logged E))"
  unfolding completeMigration_def by (rule sendsR | simp only: send_simps | simp)+

lemma reportProgress_sends: "onlySends (\<lambda>_. True) isClaimW (reportProgress (logged E) p)"
  unfolding reportProgress_def by (rule sendsR | simp only: send_simps | simp)+

lemma migrateSource_sends:
  "onlySends (\<lambda>_. True) (\<lambda>e. isClaimW e \<or> drainEvent E p e) (migrateSource (logged E) p)"
  unfolding migrateSource_def Let_def
  by (rule sendsR reclaimCN_sends onlySends_mono[OF reportProgress_sends] onlySends_mono[OF completeMigration_sends] | simp)+

lemma migrateSource_quiet:
  "podLabel p CNPodPhaseLabel \<noteq> CNPodPhaseBound \<Longrightarrow> onlySends (\<lambda>_. True) isClaimW (migrateSource (logged E) p)"
  by (simp add: migrateSource_def Let_def sendsR reportProgress_sends completeMigration_sends)

definition drainAllowed :: "'w env \<Rightarrow> cnclaim \<Rightarrow> 'w \<Rightarrow> pod \<Rightarrow> bool" where
  "drainAllowed E c w source \<longleftrightarrow> (\<exists>src w1 bt.
     cs_sourcePod (cl_spec c) = Some src \<and>
     api_get (e_pods E) (cl_ns c, ref_podName src) w = (Inr source, w1) \<and>
     st_boundTime (ct_store (cl_status c)) = Some bt \<and>
     propagationDelay \<le> fst (e_now E w1) - bt \<and>
     podLabel source CNPodPhaseLabel = CNPodPhaseBound)"

text \<open>\<^verbatim>\<open>migrate\<close>: during a migration the source pod starts to drain only when it is still
  Bound and the claim has been bound to its new pod for at least \<open>propagationDelay\<close>. Every other
  write of a migration step is a write of the claim.\<close>

theorem migrate_drains_after_delay:
  assumes run: "migrate (logged E) \<lparr>Obj = c, world = (w, [])\<rparr> = (r, s')"
    and e: "e \<in> set (logOf s')" and not: "\<not> isClaimW e"
  shows "\<exists>source. drainAllowed E c w source \<and> drainEvent E source e"
proof -
  let ?s = "\<lparr>Obj = c, world = (w, [])\<rparr>"
  have quiet: False if "onlySends (\<lambda>_. True) isClaimW m" and "m t = (r, s')" and "logOf t = []" for m t
    using that e not by (auto elim!: onlySendsD)
  show ?thesis
  proof (cases "cs_sourcePod (cl_spec c)")
    case None
    with run quiet[OF completeMigration_sends, of E ?s] show ?thesis
      by (simp add: migrate_def getObj_def bindR_Inr)
  next
    case (Some src)
    obtain a w1 where get: "api_get (e_pods E) (cl_ns c, ref_podName src) w = (a, w1)" by fastforce
    let ?s1 = "\<lparr>Obj = c, world = (w1, [])\<rparr>"
    show ?thesis
    proof (cases a)
      case (Inl err)
      with run Some get quiet[OF completeMigration_sends, of E ?s1] e show ?thesis
        by (cases "isPanic err") (auto simp: migrate_def getObj_def bindR_Inr bindR_Inl attempt_def callW_def readL_def throw_def
            split: if_splits)
    next
      case (Inr source)
      obtain t w2 where now: "e_now E w1 = (t, w2)" by fastforce
      let ?s2 = "\<lparr>Obj = c, world = (w2, [])\<rparr>"
      have tm: "nowR (logged E) ?s1 = (Inr t, ?s2)" using now by (simp add: nowR_def readW_def readL_def)
      from run Some get Inr obtain bt where bt: "st_boundTime (ct_store (cl_status c)) = Some bt"
        using e by (auto simp: migrate_def getObj_def bindR_Inr attempt_def callW_def readL_def errorf_def throw_def
            split: option.splits)
      have step: "(if t - bt < propagationDelay
            then ErrReSync ''target pod is not ready to accept traffic, delay'' propagationDelay
            else migrateSource (logged E) source) ?s2 = (r, s')"
        using run Some get Inr bt tm
        by (simp add: migrate_def getObj_def bindR_Inr attempt_def callW_def readL_def split: if_splits)
      then have late: "propagationDelay \<le> t - bt" and sw: "migrateSource (logged E) source ?s2 = (r, s')"
        using e by (auto simp: ErrReSync_def throw_def split: if_splits)
      have "podLabel source CNPodPhaseLabel = CNPodPhaseBound"
        using quiet[OF migrateSource_quiet, of source E ?s2] sw by auto
      then have "drainAllowed E c w source"
        using Some get Inr bt now late by (auto simp: drainAllowed_def)
      moreover have "isClaimW e \<or> drainEvent E source e"
        using migrateSource_sends[of E source] _ sw by (rule onlySendsD) (use e in auto)
      ultimately show ?thesis using not by blast
    qed
  qed
qed

text \<open>A claim bound to \<open>p1\<close> 100 seconds ago whose source pod \<open>p0\<close> is still Bound.\<close>

definition migratingClaim :: cnclaim where
  "migratingClaim = (let c = bindSpec (samplePod ''p1'') (sampleClaim ''c'') in
     c\<lparr>cl_spec := (cl_spec c)\<lparr>cs_sourcePod := Some \<lparr>ref_podName = ''p0'', ref_nodeName = ''n''\<rparr>\<rparr>,
       cl_status := (cl_status c)\<lparr>ct_store := sampleStore\<lparr>st_boundTime := Some 0\<rparr>\<rparr>\<rparr>)"

definition migrateSample :: "(cnclaim, mem lworld) ctx" where
  "migrateSample = \<lparr>Obj = migratingClaim, world = (sampleWorld [boundPod ''p0''] [migratingClaim], [])\<rparr>"

theorem migrate_drains_after_delay_witness:
  "\<exists>h req. StoreW h req \<in> set (logOf (snd (migrate (logged memEnv) migrateSample))) \<and>
     (\<exists>source. drainAllowed memEnv migratingClaim (sampleWorld [boundPod ''p0''] [migratingClaim]) source \<and>
        drainEvent memEnv source (StoreW h req))"
proof -
  have "\<exists>h req. StoreW h req \<in> set (logOf (snd (migrate (logged memEnv) migrateSample)))"
    by (simp add: migrate_def migrateSource_def migrateSample_def migratingClaim_def boundPod_def boundLabels_def bindSpec_def
        ownershipLabels_def reclaimCN_def patchStore_def ResolveCNSet_def ResolveOwner_def ResolveLogSet_def
        nowR_def readL_def writeL_def reclaimLabels_def reportProgress_def GetStoreScore_def liftE_def
        propagationDelay_def second_def gmake_def Let_def monad_simps mem_defs sample_defs)
  then obtain h req where ev: "StoreW h req \<in> set (logOf (snd (migrate (logged memEnv) migrateSample)))" by blast
  have "\<exists>source. drainAllowed memEnv migratingClaim (sampleWorld [boundPod ''p0''] [migratingClaim]) source \<and>
        drainEvent memEnv source (StoreW h req)"
    by (rule migrate_drains_after_delay[where r = "fst (migrate (logged memEnv) migrateSample)"
          and s' = "snd (migrate (logged memEnv) migrateSample)"])
      (use ev in \<open>simp_all add: migrateSample_def\<close>)
  with ev show ?thesis by blast
qed

section \<open>Binding\<close>

lemma patchStore_effects:
  assumes run: "patchStore (logged E) p req s = (Inr store, s1)" and lbl: "sl_labels req \<noteq> None"
  shows "\<exists>h. logOf s1 = StoreW h (req\<lparr>sl_uuid := GetCNPodUUID E p\<rparr>) # logOf s" and "Obj s1 = Obj s"
proof -
  from run lbl obtain cs sa ls sb h sc sd u found where
    a: "ResolveCNSet (logged E) p s = (Inr cs, sa)" and b: "ResolveLogSet (logged E) cs sa = (Inr ls, sb)"
    and c: "callW (mo_getClient (e_mo (logged E)) ls) sb = (Inr h, sc)"
    and d: "callW (mo_patchCNStore (e_mo (logged E)) h (req\<lparr>sl_uuid := GetCNPodUUID E p\<rparr>)) sc = (Inr u, sd)"
    and e: "readW (mo_getCN (e_mo (logged E)) h (GetCNPodUUID E p)) sd = (Inr found, s1)"
    by (auto simp: patchStore_def Let_def errorf_def throw_def ret_def
        elim!: bindR_InrE split: option.splits)
  note q = quiet_run[OF onlySends_ResolveCNSet a] quiet_run[OF onlySends_ResolveLogSet b]
  have "logOf sc = logOf sb" "Obj sc = Obj sb" "logOf s1 = logOf sd" "Obj s1 = Obj sd"
    using c e by (auto simp: callW_def readW_def readL_def split: prod.splits)
  moreover have "logOf sd = StoreW h (req\<lparr>sl_uuid := GetCNPodUUID E p\<rparr>) # logOf sc" "Obj sd = Obj sc"
    using d by (auto simp: callW_def writeL_def split: prod.splits)
  ultimately show "\<exists>h. logOf s1 = StoreW h (req\<lparr>sl_uuid := GetCNPodUUID E p\<rparr>) # logOf s" "Obj s1 = Obj s"
    using q by simp_all
qed

text \<open>The status written by \<^verbatim>\<open>syncBindPod\<close> on top of the claim \<open>c1\<close>.\<close>

definition boundStatus :: "cn_service \<Rightarrow> pod \<Rightarrow> cnclaim \<Rightarrow> cnclaim \<Rightarrow> bool" where
  "boundStatus store p c1 c2 \<longleftrightarrow>
      c2 = c1\<lparr>cl_status := cl_status c2\<rparr> \<and>
      ct_store (cl_status c2) = (toStoreStatus store p)\<lparr>st_boundTime := st_boundTime (ct_store (cl_status c2))\<rparr> \<and>
      cl_phase c2 = (if cl_phase c1 \<in> {CNClaimPhaseNone, CNClaimPhasePending} then CNClaimPhaseBound else cl_phase c1) \<and>
      ct_boundTime (cl_status c2) \<noteq> None \<and>
      (ct_boundTime (cl_status c1) \<noteq> None \<longrightarrow> ct_boundTime (cl_status c2) = ct_boundTime (cl_status c1)) \<and>
      (if st_podName (ct_store (cl_status c1)) = pod_name p
       then st_boundTime (ct_store (cl_status c2)) = st_boundTime (ct_store (cl_status c1))
       else st_boundTime (ct_store (cl_status c2)) \<noteq> None)"

lemma updateStatus_effects:
  "updateObj (api_updateStatus (e_claims (logged E))) s = (Inr u, s') \<Longrightarrow>
     logOf s' = ClaimW (WUpdateStatus (Obj s)) # logOf s"
  by (cases "api_updateStatus (e_claims E) (Obj s) (fst (world s))")
    (auto simp: updateObj_def writeL_def split: sum.splits)

lemma boundTime_same:
  "ct_boundTime (cl_status c) = bt \<Longrightarrow> c\<lparr>cl_status := (cl_status c)\<lparr>ct_boundTime := bt\<rparr>\<rparr> = c"
  by (rule cnclaim.equality) (auto intro: cnclaim_status.equality)

lemma recordBind_effects:
  assumes run: "recordBind (logged E) store p s = (Inr (), s')"
  shows "\<exists>c2. logOf s' = ClaimW (WUpdateStatus c2) # logOf s \<and> boundStatus store p (Obj s) c2"
proof -
  let ?c = "Obj s"
  from run obtain sa sb st sc where
    a: "(if ct_boundTime (cl_status ?c) = None
         then bindR (nowR (logged E)) (\<lambda>t. modObj (\<lambda>c. c\<lparr>cl_status := (cl_status c)\<lparr>ct_boundTime := Some t\<rparr>\<rparr>))
         else ret ()) s = (Inr (), sa)"
    and b: "(if cl_phase ?c = CNClaimPhaseNone \<or> cl_phase ?c = CNClaimPhasePending
         then modObj (setPhase CNClaimPhaseBound) else ret ()) sa = (Inr (), sb)"
    and c: "(if st_podName (ct_store (cl_status ?c)) \<noteq> st_podName (toStoreStatus store p)
         then bindR (nowR (logged E)) (\<lambda>t. ret ((toStoreStatus store p)\<lparr>st_boundTime := Some t\<rparr>))
         else ret ((toStoreStatus store p)\<lparr>st_boundTime := st_boundTime (ct_store (cl_status ?c))\<rparr>)) sb = (Inr st, sc)"
    and d: "updateObj (api_updateStatus (e_claims (logged E)))
         (sc\<lparr>Obj := (Obj sc)\<lparr>cl_status := (cl_status (Obj sc))\<lparr>ct_store := st\<rparr>\<rparr>\<rparr>) = (Inr (), s')"
    unfolding recordBind_def getObj_def Let_def by (auto simp: bindR_Inr modObj_def elim!: bindR_InrE)
  have nowq: "Obj s1 = Obj s0 \<and> logOf s1 = logOf s0" if "nowR (logged E) s0 = (Inr t, s1)" for s0 s1 t
    using quiet_run[OF onlySends_shared(1) that] by simp
  obtain bt where A: "Obj sa = ?c\<lparr>cl_status := (cl_status ?c)\<lparr>ct_boundTime := Some bt\<rparr>\<rparr>" "logOf sa = logOf s"
      "ct_boundTime (cl_status ?c) \<noteq> None \<longrightarrow> ct_boundTime (cl_status ?c) = Some bt"
  proof (cases "ct_boundTime (cl_status ?c)")
    case None
    with a obtain t s1 where "nowR (logged E) s = (Inr t, s1)"
      "sa = s1\<lparr>Obj := (Obj s1)\<lparr>cl_status := (cl_status (Obj s1))\<lparr>ct_boundTime := Some t\<rparr>\<rparr>\<rparr>"
      by (auto simp: modObj_def elim!: bindR_InrE)
    with None nowq[of s t s1] that[of t] show thesis by simp
  next
    case (Some bt)
    with a have "sa = s" by (simp add: ret_def)
    moreover have "?c = ?c\<lparr>cl_status := (cl_status ?c)\<lparr>ct_boundTime := Some bt\<rparr>\<rparr>"
      by (rule boundTime_same[symmetric]) (rule Some)
    ultimately show thesis using that[of bt] Some by metis
  qed
  have B: "logOf sb = logOf sa" "Obj sb = setPhase (if cl_phase ?c \<in> {CNClaimPhaseNone, CNClaimPhasePending}
      then CNClaimPhaseBound else cl_phase ?c) (Obj sa)"
    using b A(1) by (auto simp: modObj_def ret_def setPhase_def split: if_splits)
  have C: "logOf sc = logOf sb" "Obj sc = Obj sb"
      "st = (toStoreStatus store p)\<lparr>st_boundTime := st_boundTime st\<rparr>"
      "if st_podName (ct_store (cl_status ?c)) = pod_name p
       then st_boundTime st = st_boundTime (ct_store (cl_status ?c)) else st_boundTime st \<noteq> None"
    using c by (auto simp: ret_def toStoreStatus_def elim!: bindR_InrE dest: nowq split: if_splits)
  show ?thesis
    using updateStatus_effects[OF d] A B C by (auto simp: boundStatus_def setPhase_def)
qed

text \<open>\<^verbatim>\<open>syncBindPod\<close>: the order of effects of a bind. When it succeeds, exactly three writes
  were sent: first HAKeeper was told that the pod's store is Working with the claim's labels, then
  the claim's spec was patched to name the pod, its node and its pool, then the claim's status was
  written. The status written is on top of the server's answer \<open>c1\<close> to the patch; it names the
  pod; a None or Pending claim becomes Bound and any other phase is kept; a bound time already set
  is kept; and the store's bound time is the old one exactly when the pod did not change.\<close>

theorem syncBindPod_effects:
  assumes run: "syncBindPod (logged E) p \<lparr>Obj = c, world = (w, [])\<rparr> = (Inr (), s')"
  shows "\<exists>h store c1 c2 w1. logOf s' =
        [ClaimW (WUpdateStatus c2), ClaimW (WPatch c (bindSpec p c)),
         StoreW h \<lparr>sl_uuid = GetCNPodUUID E p, sl_state = WorkState_Working,
                   sl_labels = Some (ToStoreLabels (cs_cnLabels (cl_spec c)))\<rparr>] \<and>
      fst (api_patch (e_claims E) c (bindSpec p c) w1) = Inr c1 \<and>
      boundStatus store p c1 c2"
proof -
  let ?req = "\<lparr>sl_uuid = [], sl_state = WorkState_Working, sl_labels = Some (ToStoreLabels (cs_cnLabels (cl_spec c)))\<rparr>"
  let ?s = "\<lparr>Obj = c, world = (w, [])\<rparr>"
  from run obtain store s1 s2 where ps: "patchStore (logged E) p ?req ?s = (Inr store, s1)"
    and pt: "patchObj (api_patch (e_claims (logged E))) (bindSpec p) s1 = (Inr (), s2)"
    and rb: "recordBind (logged E) store p s2 = (Inr (), s')"
    by (auto simp: syncBindPod_def getObj_def ErrReSync_def throw_def elim!: bindR_InrE split: if_splits)
  obtain h where h: "logOf s1 = [StoreW h (?req\<lparr>sl_uuid := GetCNPodUUID E p\<rparr>)]" and o1: "Obj s1 = c"
    using patchStore_effects[OF ps] by auto
  obtain a b where ab: "api_patch (e_claims E) c (bindSpec p c) (fst (world s1)) = (a, b)" by fastforce
  with pt o1 have "logOf s2 = ClaimW (WPatch c (bindSpec p c)) # logOf s1" and "a = Inr (Obj s2)"
    by (auto simp: patchObj_def writeL_def split: sum.splits)
  then have "logOf s2 = ClaimW (WPatch c (bindSpec p c)) # logOf s1"
    and "fst (api_patch (e_claims E) c (bindSpec p c) (fst (world s1))) = Inr (Obj s2)" using ab by simp_all
  moreover obtain c2 where "logOf s' = ClaimW (WUpdateStatus c2) # logOf s2" "boundStatus store p (Obj s2) c2"
    using recordBind_effects[OF rb] by blast
  ultimately show ?thesis using h by auto
qed

theorem syncBindPod_effects_witness:
  "let c = sampleClaim ''c'';
       run = syncBindPod (logged memEnv) (boundPod ''p0'') \<lparr>Obj = c, world = (sampleWorld [boundPod ''p0''] [c], [])\<rparr>
   in fst run = Inr () \<and> (\<exists>h store c1 c2 req. boundStatus store (boundPod ''p0'') c1 c2 \<and>
        logOf (snd run) = [ClaimW (WUpdateStatus c2), ClaimW (WPatch c (bindSpec (boundPod ''p0'') c)), StoreW h req])"
proof -
  let ?c = "sampleClaim ''c''"
  let ?run = "syncBindPod (logged memEnv) (boundPod ''p0'') \<lparr>Obj = ?c, world = (sampleWorld [boundPod ''p0''] [?c], [])\<rparr>"
  have ok: "fst ?run = Inr ()"
    by (simp add: syncBindPod_def recordBind_def boundPod_def boundLabels_def bindSpec_def ownershipLabels_def
        patchStore_def ResolveCNSet_def ResolveOwner_def ResolveLogSet_def setPhase_def toStoreStatus_def
        ToStoreLabels_def nowR_def readL_def writeL_def gmake_def Let_def monad_simps mem_defs sample_defs)
  then have "?run = (Inr (), snd ?run)" by (metis prod.collapse)
  from syncBindPod_effects[OF this] ok show ?thesis unfolding Let_def by blast
qed

section \<open>Pod events\<close>

lemma set_addRequests: "set (addRequests ns reqs cls) = set reqs \<union> {(ns, cl_name d) | d. d \<in> set cls}"
  by (induction cls arbitrary: reqs) (auto simp: Let_def containsRequest_def)

lemma distinct_addRequests: "distinct reqs \<Longrightarrow> distinct (addRequests ns reqs cls)"
  by (induction cls arbitrary: reqs) (auto simp: Let_def containsRequest_def)

text \<open>\<^verbatim>\<open>requestsForPod\<close>: a pod event wakes every claim concerned once. The requests have no
  duplicates; they are the claim the pod is labelled with (if any) and the claims whose
  \<open>spec.podName\<close> is the pod, all in the pod's namespace; if the list fails, the labelled claim is
  still requested.\<close>

theorem requestsForPod_complete:
  "distinct (fst (requestsForPod E p w)) \<and>
   set (fst (requestsForPod E p w)) =
     {(pod_ns p, n) | n. n = gstr (pod_labels p) PodClaimedByLabel \<and> n \<noteq> []} \<union>
     (case fst (api_list (e_claims E) (pod_ns p) (MatchingFields claimPodNameField (pod_name p)) w) of
        Inr cls \<Rightarrow> {(pod_ns p, cl_name d) | d. d \<in> set cls} | Inl e \<Rightarrow> {})"
  by (auto simp: requestsForPod_def Let_def set_addRequests distinct_addRequests split: prod.splits sum.splits)

section \<open>Priorities and store status\<close>

text \<open>\<^verbatim>\<open>sortCNByPriority\<close>: the pods tried are those listed, and the ones whose last owner is
  the claim's owner come first: no pod of another owner precedes one of them.\<close>

theorem priority_previous_owner_first:
  assumes "sorts (e_sortPods E)" and "i < j" and "j < length (sortCNByPriority E c pods)"
  shows "mset (sortCNByPriority E c pods) = mset pods \<and>
    previouslyOwned c (sortCNByPriority E c pods ! i) \<le> previouslyOwned c (sortCNByPriority E c pods ! j)"
proof -
  have "mset (sortCNByPriority E c pods) = mset pods" and "sorted_by (priorityFunc c) (sortCNByPriority E c pods)"
    using priority.sorts_result[OF assms(1)] by (simp_all add: sortCNByPriority_def)
  moreover from this(2) have "priorityFunc c (sortCNByPriority E c pods ! i) (sortCNByPriority E c pods ! j) \<le> 0"
    using assms(2,3) sorted_wrt_nth_less by (fastforce simp: sorted_by_def)
  ultimately show ?thesis by (auto simp: priorityFunc_def Let_def split: if_splits)
qed

theorem priority_previous_owner_first_witness:
  "let ps = [samplePod ''a'', (samplePod ''b'')\<lparr>pod_labels := Some [PodLastOwnerLabel \<mapsto> ''alice'']\<rparr>];
       qs = sortCNByPriority memEnv (sampleClaim ''c'') ps
   in mset qs = mset ps \<and> previouslyOwned (sampleClaim ''c'') (qs ! 0) \<le> previouslyOwned (sampleClaim ''c'') (qs ! 1) \<and>
      pod_name (qs ! 0) = ''b''"
proof -
  let ?ps = "[samplePod ''a'', (samplePod ''b'')\<lparr>pod_labels := Some [PodLastOwnerLabel \<mapsto> ''alice'']\<rparr>]"
  have "sorts (e_sortPods memEnv)" by (simp add: memEnv_sel)
  from priority_previous_owner_first[OF this, of 0 1 "sampleClaim ''c''" ?ps] show ?thesis
    by (simp add: Let_def sortCNByPriority_def priorityFunc_def previouslyOwned_def memEnv_sel sample_defs)
qed

text \<open>\<^verbatim>\<open>priorityFunc\<close>: "then we prefer older pod": the comparison uses the second within the
  minute, not the age. A pod created at second 59 of minute 0 is tried after one created at second
  0 of minute 1, although it is older; in general two pods of the same ownership class compare by
  their creation second modulo 60.\<close>

theorem priority_not_by_age:
  "\<exists>a b. pod_created a < pod_created b \<and> previouslyOwned c a = previouslyOwned c b \<and>
     priorityFunc c b a < 0 \<and> insertionSort (priorityFunc c) [a, b] = [b, a]"
proof -
  let ?a = "(samplePod ''a'')\<lparr>pod_created := 59 * second\<rparr>"
  let ?b = "(samplePod ''b'')\<lparr>pod_created := 60 * second\<rparr>"
  have "previouslyOwned c ?a = previouslyOwned c ?b"
    by (simp add: previouslyOwned_def samplePod_def split: option.splits)
  moreover from this have "priorityFunc c ?b ?a = - 59" "priorityFunc c ?a ?b = 59"
    by (simp_all add: priorityFunc_def Let_def secondOfMinute_def)
  moreover have "pod_created ?a < pod_created ?b" by (simp add: second_def)
  ultimately show ?thesis by (intro exI[of _ ?a] exI[of _ ?b]) simp
qed

text \<open>\<^verbatim>\<open>toStoreStatus\<close>: the store status does not depend on the order in which the label map is
  iterated, its labels are the map's, sorted by key.\<close>

theorem toStoreStatus_order_independent:
  assumes "distinct (map fst ls)" and "mset ls' = mset ls"
  shows "toStoreStatus (cn\<lparr>sv_labels := Some ls'\<rparr>) p = toStoreStatus (cn\<lparr>sv_labels := Some ls\<rparr>) p \<and>
    sorted (map lbl_key (st_labels (toStoreStatus (cn\<lparr>sv_labels := Some ls\<rparr>) p))) \<and>
    (\<forall>k. map_of (map (\<lambda>l. (lbl_key l, lbl_values l)) (st_labels (toStoreStatus (cn\<lparr>sv_labels := Some ls\<rparr>) p))) k
        = map_of ls k)"
proof -
  let ?f = "\<lambda>(k :: string, vs :: string list). \<lparr>lbl_key = k, lbl_values = vs\<rparr>"
  have inj: "inj_on lbl_key (set (map ?f ls))"
    using assms(1) by (auto simp: inj_on_def dest: eq_key_imp_eq_value)
  have "mset (map ?f ls') = mset (sort_key lbl_key (map ?f ls))" using assms(2) by simp
  moreover have inj': "inj_on lbl_key (set (map ?f ls'))"
    using inj mset_eq_setD[OF assms(2)] by simp
  ultimately have srt: "sort_key lbl_key (map ?f ls') = sort_key lbl_key (map ?f ls)"
    by (intro sort_key_inj_key_eq) simp_all
  have "map_of (map (\<lambda>l. (lbl_key l, lbl_values l)) (sort_key lbl_key (map ?f ls))) = map_of ls"
  proof (rule map_of_inject_set[THEN iffD2])
    show "set (map (\<lambda>l. (lbl_key l, lbl_values l)) (sort_key lbl_key (map ?f ls))) = set ls" by force
    have "mset (map fst (map (\<lambda>l. (lbl_key l, lbl_values l)) (sort_key lbl_key (map ?f ls)))) = mset (map fst ls)"
      by (simp add: image_mset.compositionality comp_def case_prod_beta)
    then show "distinct (map fst (map (\<lambda>l. (lbl_key l, lbl_values l)) (sort_key lbl_key (map ?f ls))))"
      using assms(1) mset_eq_imp_distinct_iff by blast
  qed (rule assms(1))
  with srt show ?thesis by (simp add: toStoreStatus_def)
qed

theorem toStoreStatus_order_independent_witness:
  "let f = (\<lambda>ls. toStoreStatus (sampleCN\<lparr>sv_labels := Some ls\<rparr>) (samplePod ''p0''))
   in f [(''b'', [''2'']), (''a'', [''1''])] = f [(''a'', [''1'']), (''b'', [''2''])] \<and>
      map lbl_key (st_labels (f [(''a'', [''1'']), (''b'', [''2''])])) = [''a'', ''b'']"
  using toStoreStatus_order_independent[of "[(''a'', [''1'']), (''b'', [''2''])]" "[(''b'', [''2'']), (''a'', [''1''])]"
      sampleCN "samplePod ''p0''"]
  by (simp add: Let_def toStoreStatus_def)

end
