(* ===== verification/CNClaimSet.thy ===== *)
theory CNClaimSet
  imports Mem_World
begin

text \<open>
  The CNClaimSet controller: \<^verbatim>\<open>pkg/controllers/cnclaimset/controller.go\<close>. A claim set keeps
  a number of CNClaims made from a template: it creates claims with fresh random identities, picks
  the claims to delete by an order that protects running pods, never deletes a claim in migration,
  and waits for the cache before it acts.
\<close>

section \<open>Definitions\<close>

type_synonym 'w set_ctx = "(cnclaimset, 'w) ctx"

definition LengthOfInstanceID :: nat where
  "LengthOfInstanceID = 5"

text \<open>Go maps with the zero value for an absent key.\<close>

fun podPhaseToOrdinal :: "pod_phase \<Rightarrow> int" where
  "podPhaseToOrdinal PodPending = 0"
| "podPhaseToOrdinal PodFailed = 1"
| "podPhaseToOrdinal PodRunning = 2"
| "podPhaseToOrdinal _ = 0"

fun claimPhaseToOrdinal :: "claim_phase \<Rightarrow> int" where
  "claimPhaseToOrdinal CNClaimPhasePending = 0"
| "claimPhaseToOrdinal CNClaimPhaseLost = 1"
| "claimPhaseToOrdinal CNClaimPhaseOutdated = 2"
| "claimPhaseToOrdinal CNClaimPhaseBound = 3"
| "claimPhaseToOrdinal _ = 0"

record owned_claims =
  oc_owned :: "cnclaim list"
  oc_lost :: "cnclaim list"

subsection \<open>Listing\<close>

definition isLost :: "cnclaim \<Rightarrow> bool" where
  "isLost c \<longleftrightarrow> cl_phase c = CNClaimPhaseLost \<or> gstr (cl_labels c) ClaimInstanceIDLabel = [] \<or> cl_deleted c \<noteq> None"

definition partitionClaims :: "cnclaim list \<Rightarrow> owned_claims" where
  "partitionClaims cs = foldl (\<lambda>res c.
      if isLost c then res\<lparr>oc_lost := oc_lost res @ [c]\<rparr> else res\<lparr>oc_owned := oc_owned res @ [c]\<rparr>)
    \<lparr>oc_owned = [], oc_lost = []\<rparr> cs"

definition listOwnedClaims :: "'w env \<Rightarrow> (cnclaim, 'w) kind_api \<Rightarrow> cnclaimset \<Rightarrow> (('o, 'w) ctx, owned_claims) rm" where
  "listOwnedClaims E cli s =
     bindR (MustAsSelector E (set_selector s)) (\<lambda>sel.
     bindR (callW (api_list cli (set_ns s) (MatchingLabelsSelector sel))) (\<lambda>cs.
     ret (partitionClaims cs)))"

subsection \<open>Fresh identities\<close>

text \<open>The loop of \<^verbatim>\<open>genAvailableID\<close> ends when the generator leaves the used set; \<open>None\<close> is a
  run that does not end.\<close>

partial_function (option) genAvailableID :: "'w env \<Rightarrow> string list \<Rightarrow> 'w \<Rightarrow> (string \<times> 'w) option" where
  "genAvailableID E used w =
     (case e_randString E LengthOfInstanceID w of (iid, w') \<Rightarrow>
        if iid \<in> set used then genAvailableID E used w' else Some (iid, w'))"

fun genIds :: "'w env \<Rightarrow> nat \<Rightarrow> string list \<Rightarrow> 'w \<Rightarrow> (string list \<times> 'w) option" where
  "genIds E 0 used w = Some ([], w)"
| "genIds E (Suc n) used w =
     Option.bind (genAvailableID E used w) (\<lambda>(iid, w1).
     Option.bind (genIds E n (iid # used) w1) (\<lambda>(ids, w2). Some (iid # ids, w2)))"

definition genAvailableIds :: "'w env \<Rightarrow> int \<Rightarrow> string list \<Rightarrow> 'w \<Rightarrow> (string list \<times> 'w) option" where
  "genAvailableIds E num used w = genIds E (nat num) used w"

text \<open>A computation that may not return, in the monad.\<close>

definition loopR :: "('w \<Rightarrow> ('a \<times> 'w) option) \<Rightarrow> (('o, 'w) ctx, 'a) rm" where
  "loopR f s = (case f (world s) of
      None \<Rightarrow> (Inl (Err NoReturn []), s) | Some (x, w) \<Rightarrow> (Inr x, s\<lparr>world := w\<rparr>))"

subsection \<open>Scaling out\<close>

definition newClaimStatus :: cnclaim_status where
  "newClaimStatus = \<lparr>ct_phase = CNClaimPhaseNone,
     ct_store = \<lparr>st_serviceID = [], st_lockServiceAddress = [], st_pipelineServiceAddress = [],
        st_sqlAddress = [], st_queryAddress = [], st_workState = WorkState_Unknown, st_labels = [],
        st_podName = [], st_boundTime = None\<rparr>,
     ct_boundTime = None, ct_migrate = None\<rparr>"

text \<open>\<^verbatim>\<open>makeClaim\<close> writes into the label map of the template, which the claim set keeps: the
  second component is that map after the call, and \<open>None\<close> the panic on a nil map.\<close>

definition makeClaim :: "cnclaimset \<Rightarrow> string \<Rightarrow> (cnclaim \<times> gomap) option" where
  "makeClaim cs iid =
     (let tpl = set_template cs in
      Option.bind (gput ClaimSetNameLabel (set_name cs) (tp_labels tpl)) (\<lambda>labels.
      Option.bind (gput ClaimInstanceIDLabel iid labels) (\<lambda>labels.
      let spec = (if cs_ownerName (tp_spec tpl) = None
                  then (tp_spec tpl)\<lparr>cs_ownerName := Some (set_name cs)\<rparr> else tp_spec tpl)
      in Some (\<lparr>cl_name = set_name cs @ ''-'' @ iid, cl_ns = set_ns cs, cl_rv = 0, cl_labels = labels,
           cl_annos = tp_annos tpl, cl_deleted = None, cl_created = 0, cl_spec = spec,
           cl_status = newClaimStatus\<rparr>, labels))))"

definition setTemplateLabels :: "gomap \<Rightarrow> cnclaimset \<Rightarrow> cnclaimset" where
  "setTemplateLabels ls cs = cs\<lparr>set_template := (set_template cs)\<lparr>tp_labels := ls\<rparr>\<rparr>"

fun createClaims :: "'w env \<Rightarrow> owned_claims \<Rightarrow> string list \<Rightarrow> ('w set_ctx, owned_claims) rm" where
  "createClaims E oc [] = ret oc"
| "createClaims E oc (iid # ids) =
     bindR getObj (\<lambda>cs.
     bindR (orPanic (makeClaim cs iid)) (\<lambda>(claim, labels).
     bindR (modObj (setTemplateLabels labels)) (\<lambda>_.
     bindR (wrapE ''error create new Claim'' (callW (api_create (e_claims E) claim))) (\<lambda>claim.
     createClaims E (oc\<lparr>oc_owned := oc_owned oc @ [claim]\<rparr>) ids))))"

definition usedIds :: "owned_claims \<Rightarrow> string list" where
  "usedIds oc = map (\<lambda>c. gstr (cl_labels c) ClaimInstanceIDLabel) (oc_owned oc @ oc_lost oc)"

definition scaleOut :: "'w env \<Rightarrow> owned_claims \<Rightarrow> int \<Rightarrow> ('w set_ctx, owned_claims) rm" where
  "scaleOut E oc n =
     bindR (loopR (genAvailableIds E n (usedIds oc))) (\<lambda>ids. createClaims E oc ids)"

subsection \<open>Scaling in\<close>

definition getClaimedPod :: "'w env \<Rightarrow> cnclaim \<Rightarrow> (('o, 'w) ctx, pod option) rm" where
  "getClaimedPod E c =
     (if cl_podName c = [] \<or> cl_phase c = CNClaimPhaseLost then ret None
      else bindR (attempt (callW (api_get (e_pods E) (cl_ns c, cl_podName c)))) (\<lambda>r. case r of
          Inl e \<Rightarrow> if IsNotFound e then ret None else throw (wrapPrefix ''error get claimed Pod'' e)
        | Inr p \<Rightarrow> ret (Some p)))"

definition scoreHasPod :: "claim_and_pod \<Rightarrow> int" where
  "scoreHasPod c = (if cp_pod c \<noteq> None then 1 else 0)"

definition podDeletionCost :: "pod \<Rightarrow> int" where
  "podDeletionCost p = (case gget (pod_annos p) DeletionCostAnno of
      None \<Rightarrow> 0 | Some v \<Rightarrow> (case goParseInt 32 v of None \<Rightarrow> 0 | Some i \<Rightarrow> i))"

definition podDeletionOrder :: "'w env \<Rightarrow> pod \<Rightarrow> pod \<Rightarrow> int" where
  "podDeletionOrder E a b =
     (if pod_nodeName a \<noteq> pod_nodeName b \<and> (pod_nodeName a = [] \<or> pod_nodeName b = [])
      then int (length (pod_nodeName a)) - int (length (pod_nodeName b))
      else if podPhaseToOrdinal (pod_status_phase a) \<noteq> podPhaseToOrdinal (pod_status_phase b)
      then podPhaseToOrdinal (pod_status_phase a) - podPhaseToOrdinal (pod_status_phase b)
      else if e_isPodReady E a \<noteq> e_isPodReady E b then (if e_isPodReady E a then 1 else - 1)
      else let aCost = podDeletionCost a; bCost = podDeletionCost b in
        if aCost \<noteq> bCost then (if aCost - bCost < 0 then - 1 else 1)
        else - intSeconds (pod_created a - pod_created b))"

definition claimDeletionOrder :: "'w env \<Rightarrow> claim_and_pod \<Rightarrow> claim_and_pod \<Rightarrow> int" where
  "claimDeletionOrder E a b =
     (let hasPod = scoreHasPod a - scoreHasPod b in
      if hasPod \<noteq> 0 then hasPod
      else if claimPhaseToOrdinal (cl_phase (cp_claim a)) \<noteq> claimPhaseToOrdinal (cl_phase (cp_claim b))
      then claimPhaseToOrdinal (cl_phase (cp_claim a)) - claimPhaseToOrdinal (cl_phase (cp_claim b))
      else if scoreHasPod a = 1 then podDeletionOrder E (the (cp_pod a)) (the (cp_pod b))
      else - intSeconds (cl_created (cp_claim a) - cl_created (cp_claim b)))"

definition sortClaimsToDelete :: "'w env \<Rightarrow> claim_and_pod list \<Rightarrow> claim_and_pod list" where
  "sortClaimsToDelete E cps = e_sortClaims E (claimDeletionOrder E) cps"

fun collectClaims :: "'w env \<Rightarrow> cnclaim list \<Rightarrow> (('o, 'w) ctx, claim_and_pod list \<times> cnclaim list) rm" where
  "collectClaims E [] = ret ([], [])"
| "collectClaims E (c # cs) =
     (if cs_sourcePod (cl_spec c) \<noteq> None
      then bindR (collectClaims E cs) (\<lambda>(cps, migrating). ret (cps, c # migrating))
      else bindR (wrapE ''error get claimed Pod'' (getClaimedPod E c)) (\<lambda>p.
           bindR (collectClaims E cs) (\<lambda>(cps, migrating).
           ret (\<lparr>cp_claim = c, cp_pod = p\<rparr> # cps, migrating))))"

definition deleteIgnoreNotFound :: "'w env \<Rightarrow> cnclaim \<Rightarrow> (('o, 'w) ctx, unit) rm" where
  "deleteIgnoreNotFound E c =
     bindR (attempt (callW (api_delete (e_claims E) c))) (\<lambda>r. case r of
       Inl e \<Rightarrow> if IsNotFound e then ret () else throw e
     | Inr _ \<Rightarrow> ret ())"

definition scaleIn :: "'w env \<Rightarrow> owned_claims \<Rightarrow> int \<Rightarrow> (('o, 'w) ctx, owned_claims) rm" where
  "scaleIn E oc n =
     bindR (collectClaims E (oc_owned oc)) (\<lambda>(cps, migrating).
     let (n, cps) = (if n \<ge> int (length cps) then (int (length cps), cps)
                     else (n, sortClaimsToDelete E cps)) in
     bindR (forR (\<lambda>cp. deleteIgnoreNotFound E (cp_claim cp)) (take (nat n) cps)) (\<lambda>_.
     ret (oc\<lparr>oc_owned := map cp_claim (drop (nat n) cps) @ migrating\<rparr>)))"

subsection \<open>Sync and Finalize\<close>

definition readyCount :: "cnclaim list \<Rightarrow> int" where
  "readyCount cs = int (length (filter claimIsReady cs))"

definition updatedCount :: "cnclaim list \<Rightarrow> int" where
  "updatedCount cs = int (length (filter (\<lambda>c. claimIsReady c \<and> claimIsUpdated c) cs))"

definition outdatedCount :: "cnclaim list \<Rightarrow> int" where
  "outdatedCount cs = int (length (filter (\<lambda>c. claimIsReady c \<and> \<not> claimIsUpdated c) cs))"

definition scale :: "'w env \<Rightarrow> owned_claims \<Rightarrow> ('w set_ctx, owned_claims) rm" where
  "scale E oc =
     bindR getObj (\<lambda>s.
     let updated = updatedCount (oc_owned oc);
         outdated = outdatedCount (oc_owned oc);
         current = int (length (oc_owned oc));
         desiredReplicas = set_replicas s
     in
       if updated + outdated > desiredReplicas then scaleIn E oc (current - desiredReplicas)
       else
         let desiredReplicas = (if updated + outdated \<ge> desiredReplicas \<and> updated < desiredReplicas
                                then desiredReplicas + 1 else desiredReplicas) in
         if desiredReplicas > current then scaleOut E oc (desiredReplicas - current)
         else if desiredReplicas < current then scaleOut E oc (desiredReplicas - current)
         else ret oc)"

definition cleanClaims :: "'w env \<Rightarrow> cnclaim list \<Rightarrow> (('o, 'w) ctx, unit) rm" where
  "cleanClaims E cs = forR (\<lambda>c.
     if cl_deleted c \<noteq> None then ret ()
     else bindR (attempt (callW (api_delete (e_claims E) c))) (\<lambda>r. case r of
         Inl e \<Rightarrow> if IsNotFound e then ret () else throw (wrapPrefix ''error delete lost Claim'' e)
       | Inr _ \<Rightarrow> ret ())) cs"

definition setStatusOf :: "owned_claims \<Rightarrow> selector \<Rightarrow> cnclaimset \<Rightarrow> cnclaimset" where
  "setStatusOf oc sel s = s\<lparr>set_statusReadyReplicas := int32 (readyCount (oc_owned oc)),
     set_statusClaims := map cl_status (oc_owned oc), set_statusLabelSelector := sel\<rparr>"

definition boundPodsSelector :: "cnclaimset \<Rightarrow> label_selector" where
  "boundPodsSelector s = \<lparr>matchLabels = [(ClaimSetNameLabel, set_name s), (CNPodPhaseLabel, CNPodPhaseBound)],
     matchExpressions = []\<rparr>"

definition waitCacheSync :: "'w env \<Rightarrow> cnclaimset \<Rightarrow> owned_claims \<Rightarrow> (('o, 'w) ctx, unit) rm" where
  "waitCacheSync E s oc =
     (if int32 (int (length (oc_owned oc))) \<noteq> set_statusReplicas s
      then bindR (wrapE ''error list claims directly'' (listOwnedClaims E (e_claimsNoCache E) s)) (\<lambda>realC.
           if length (oc_owned oc) \<noteq> length (oc_owned realC) \<or> length (oc_lost oc) \<noteq> length (oc_lost realC)
           then ErrReSync ''wait cache sync'' second
           else ret ())
      else ret ())"

definition ClaimSetSync :: "'w env \<Rightarrow> ('w set_ctx, unit) rm" where
  "ClaimSetSync E =
     bindR getObj (\<lambda>s.
     bindR (wrapE ''error filter claims'' (listOwnedClaims E (e_claims E) s)) (\<lambda>oc.
     bindR (waitCacheSync E s oc) (\<lambda>_.
     bindR (wrapE ''error scale cnclaimset'' (scale E oc)) (\<lambda>oc.
     bindR (wrapE ''clean filter out claims'' (cleanClaims E (oc_lost oc))) (\<lambda>_.
     bindR (modObj (\<lambda>s. s\<lparr>set_statusReplicas := int32 (int (length (oc_owned oc)))\<rparr>)) (\<lambda>_.
     bindR (MustAsSelector E (Some (boundPodsSelector s))) (\<lambda>sel.
     modObj (setStatusOf oc sel))))))))"

definition ClaimSetFinalize :: "'w env \<Rightarrow> ('w set_ctx, bool) rm" where
  "ClaimSetFinalize E =
     bindR getObj (\<lambda>s.
     bindR (attempt (listOwnedClaims E (e_claims E) s)) (\<lambda>r. case r of
       Inl e \<Rightarrow> if IsNotFound e then ret True else throw (wrapPrefix ''error list claims'' e)
     | Inr oc \<Rightarrow>
         if oc_owned oc = [] \<and> oc_lost oc = [] then ret True
         else bindR (forR (deleteIgnoreNotFound E) (oc_owned oc @ oc_lost oc)) (\<lambda>_. ret False)))"

section \<open>Fresh identities\<close>

lemma genAvailableID_fresh:
  assumes "genAvailableID E used w = Some (iid, w')"
  shows "iid \<notin> set used"
proof -
  have "fst (iid, w') \<notin> set used"
  proof (rule genAvailableID.raw_induct[where P = "\<lambda>E used w r. fst r \<notin> set used", OF _ assms])
    fix f :: "'a env \<Rightarrow> string list \<Rightarrow> 'a \<Rightarrow> (string \<times> 'a) option" and E used w r
    assume IH: "\<And>E used w r. f E used w = Some r \<Longrightarrow> fst r \<notin> set used"
      and eq: "(case e_randString E LengthOfInstanceID w of
          (iid, w') \<Rightarrow> if iid \<in> set used then f E used w' else Some (iid, w')) = Some r"
    obtain i w1 where i: "e_randString E LengthOfInstanceID w = (i, w1)" by fastforce
    show "fst r \<notin> set used"
    proof (cases "i \<in> set used")
      case True
      with eq i have "f E used w1 = Some r" by simp
      then show ?thesis by (rule IH)
    next
      case False
      with eq i show ?thesis by auto
    qed
  qed
  then show ?thesis by simp
qed

lemma genAvailableID_returns:
  "draw E LengthOfInstanceID w n \<notin> set used \<Longrightarrow>
     \<exists>iid w'. genAvailableID E used w = Some (iid, w') \<and> iid \<notin> set used"
proof (induction n arbitrary: w)
  case 0
  then show ?case by (subst genAvailableID.simps) (auto split: prod.splits)
next
  case (Suc n)
  obtain i w1 where r: "e_randString E LengthOfInstanceID w = (i, w1)" by fastforce
  show ?case
  proof (cases "i \<in> set used")
    case True
    with Suc r show ?thesis by (subst genAvailableID.simps) simp
  next
    case False
    with r show ?thesis by (subst genAvailableID.simps) simp
  qed
qed

lemma genIds_spec:
  "genIds E n used w = Some (ids, w') \<Longrightarrow> length ids = n \<and> distinct ids \<and> set ids \<inter> set used = {}"
proof (induction n arbitrary: used w ids)
  case (Suc n)
  then obtain i w1 js where "genAvailableID E used w = Some (i, w1)" and "genIds E n (i # used) w1 = Some (js, w')"
    and "ids = i # js" by (auto simp: bind_eq_Some_conv)
  with Suc.IH[of "i # used" w1 js] genAvailableID_fresh[of E used w i w1] show ?case by auto
qed simp

lemma genIds_returns:
  "randReaches k LengthOfInstanceID E \<Longrightarrow> card (set used) + n \<le> k \<Longrightarrow> \<exists>r. genIds E n used w = Some r"
proof (induction n arbitrary: used w)
  case (Suc n)
  then have "card (set used) < k" by simp
  with Suc.prems(1) obtain m where "draw E LengthOfInstanceID w m \<notin> set used"
    unfolding randReaches_def by (meson List.finite_set)
  then obtain i w1 where i: "genAvailableID E used w = Some (i, w1)" using genAvailableID_returns by metis
  have "card (set (i # used)) + n \<le> k" using Suc.prems(2) by (simp add: card_insert_if)
  with Suc.IH[OF Suc.prems(1), of "i # used" w1] i show ?case by auto
qed simp

text \<open>C40 (\<^verbatim>\<open>genAvailableIds\<close>): the identities of new claims. If the random generator leaves every set
  of fewer than \<open>k\<close> strings sooner or later, and the used and the wanted identities together are
  at most \<open>k\<close>, the loop ends; it returns as many identities as asked (none for a negative number),
  pairwise distinct and all unused.\<close>

theorem genAvailableIds_fresh:
  assumes "randReaches k LengthOfInstanceID E" and "card (set used) + nat num \<le> k"
  shows "\<exists>ids w'. genAvailableIds E num used w = Some (ids, w') \<and> length ids = nat num \<and>
     distinct ids \<and> set ids \<inter> set used = {}"
proof -
  obtain ids w' where "genAvailableIds E num used w = Some (ids, w')"
    using genIds_returns[OF assms, of w] by (auto simp: genAvailableIds_def)
  then show ?thesis using genIds_spec[of E "nat num" used w ids w'] by (auto simp: genAvailableIds_def)
qed

theorem genAvailableIds_fresh_witness:
  "\<exists>ids w'. genAvailableIds memEnv 2 [''x''] (sampleWorld [] []) = Some (ids, w') \<and> length ids = 2 \<and>
     distinct ids \<and> set ids \<inter> {''x''} = {}"
  using genAvailableIds_fresh[OF mem_randReaches[of 3 LengthOfInstanceID], of "[''x'']" 2 "sampleWorld [] []"] by simp

section \<open>Deletion order\<close>

text \<open>The order as a chain of scores.\<close>

definition scheduledScore :: "pod \<Rightarrow> int" where
  "scheduledScore p = (if pod_nodeName p = [] then 0 else 1)"

definition readyScore :: "'w env \<Rightarrow> pod \<Rightarrow> int" where
  "readyScore E p = (if e_isPodReady E p then 1 else 0)"

definition stamped :: "claim_and_pod set" where
  "stamped = {x. wholeSeconds (cl_created (cp_claim x)) \<and> (\<forall>p. cp_pod x = Some p \<longrightarrow> wholeSeconds (pod_created p))}"

lemma podDeletionOrder_sgn:
  "sgn (podDeletionOrder E a b) =
     sgn (cmpThen (scheduledScore a - scheduledScore b)
         (cmpThen (podPhaseToOrdinal (pod_status_phase a) - podPhaseToOrdinal (pod_status_phase b))
         (cmpThen (readyScore E a - readyScore E b)
         (cmpThen (podDeletionCost a - podDeletionCost b) (- intSeconds (pod_created a - pod_created b))))))"
  by (auto simp: podDeletionOrder_def cmpThen_def scheduledScore_def readyScore_def Let_def sgn_if)

lemma weak_order_podDeletion: "weak_order_on {p. wholeSeconds (pod_created p)} (podDeletionOrder E)"
  by (rule weak_order_sgn[OF _ podDeletionOrder_sgn])
    (intro weak_order_cmpThen weak_order_score weak_order_newer_first)

lemma weak_order_map:
  "weak_order_on (f ` A) cmp \<Longrightarrow> weak_order_on A (\<lambda>a b. cmp (f a) (f b))"
  unfolding weak_order_on_def by blast

text \<open>With and without a pod the last criterion differs; elements of different kinds are separated
  before it.\<close>

lemma weak_order_split:
  assumes "weak_order_on {x \<in> A. P x} c1" and "weak_order_on {x \<in> A. \<not> P x} c2"
  shows "weak_order_on A (\<lambda>a b. cmpThen ((if P a then 1 else 0) - (if P b then 1 else 0))
     (if P a then c1 a b else c2 a b))"
proof -
  have s: "if P a then c1 a b < 0 \<longleftrightarrow> 0 < c1 b a else c2 a b < 0 \<longleftrightarrow> 0 < c2 b a"
    if "a \<in> A" "b \<in> A" "P a = P b" for a b
    using assms(1)[unfolded weak_order_on_def, THEN conjunct1, THEN bspec, THEN bspec, of a b]
      assms(2)[unfolded weak_order_on_def, THEN conjunct1, THEN bspec, THEN bspec, of a b] that by auto
  have t: "if P a then c1 a b \<le> 0 \<longrightarrow> c1 b c \<le> 0 \<longrightarrow> c1 a c \<le> 0 else c2 a b \<le> 0 \<longrightarrow> c2 b c \<le> 0 \<longrightarrow> c2 a c \<le> 0"
    if "a \<in> A" "b \<in> A" "c \<in> A" "P a = P b" "P b = P c" for a b c
    using assms(1)[unfolded weak_order_on_def, THEN conjunct2, THEN bspec, THEN bspec, THEN bspec, of a b c]
      assms(2)[unfolded weak_order_on_def, THEN conjunct2, THEN bspec, THEN bspec, THEN bspec, of a b c] that by auto
  show ?thesis unfolding weak_order_on_def
  proof (intro conjI ballI impI, goal_cases)
    case (1 a b)
    then show ?case using s[of a b] by (cases "P a"; cases "P b") (simp_all add: cmpThen_def)
  next
    case (2 a b c)
    then show ?case using t[of a b c] by (cases "P a"; cases "P b"; cases "P c") (simp_all add: cmpThen_def)
  qed
qed

lemma weak_order_tie:
  assumes "weak_order_on A c1" and "weak_order_on A (\<lambda>a b. cmpThen (c1 a b) (c2 a b))" and "weak_order_on A c"
  shows "weak_order_on A (\<lambda>a b. cmpThen (c1 a b) (cmpThen (c a b) (c2 a b)))"
  by (rule weak_order_sgn[OF weak_order_cmpThen[OF assms(1) weak_order_cmpThen[OF assms(3,2)]]])
    (auto simp: cmpThen_def)

lemma claimDeletionOrder_chain:
  "claimDeletionOrder E a b =
     cmpThen ((if cp_pod a \<noteq> None then 1 else 0) - (if cp_pod b \<noteq> None then 1 else 0))
      (cmpThen (claimPhaseToOrdinal (cl_phase (cp_claim a)) - claimPhaseToOrdinal (cl_phase (cp_claim b)))
        (if cp_pod a \<noteq> None then podDeletionOrder E (the (cp_pod a)) (the (cp_pod b))
         else - intSeconds (cl_created (cp_claim a) - cl_created (cp_claim b))))"
  by (simp add: claimDeletionOrder_def scoreHasPod_def cmpThen_def Let_def)

lemma weak_order_claimDeletion: "weak_order_on stamped (claimDeletionOrder E)"
proof -
  have pods: "weak_order_on {x \<in> stamped. cp_pod x \<noteq> None} (\<lambda>a b. podDeletionOrder E (the (cp_pod a)) (the (cp_pod b)))"
    by (rule weak_order_map[OF weak_order_on_subset[OF weak_order_podDeletion]]) (auto simp: stamped_def)
  have stamps: "weak_order_on {x \<in> stamped. \<not> cp_pod x \<noteq> None}
      (\<lambda>a b. - intSeconds (cl_created (cp_claim a) - cl_created (cp_claim b)))"
    by (rule weak_order_on_subset[OF weak_order_newer_first]) (auto simp: stamped_def)
  show ?thesis
    unfolding claimDeletionOrder_chain[abs_def]
    by (rule weak_order_tie) (intro weak_order_score weak_order_split[OF pods stamps])+
qed


text \<open>\<^verbatim>\<open>claimDeletionOrder\<close>: the deletion order is a strict weak order on claims whose
  creation stamps, and whose pods' stamps, are whole seconds, which is what \<^verbatim>\<open>slices.SortFunc\<close>
  needs. It deletes claims without a pod before claims with one, whatever else; among those alike
  in that, Pending before Lost before Outdated before Bound claims.\<close>

theorem claimDeletionOrder_weak_order:
  "weak_order_on stamped (claimDeletionOrder E) \<and>
   (\<forall>a b. cp_pod a = None \<and> cp_pod b \<noteq> None \<longrightarrow> claimDeletionOrder E a b < 0) \<and>
   (\<forall>a b. (cp_pod a = None \<longleftrightarrow> cp_pod b = None) \<and>
      claimPhaseToOrdinal (cl_phase (cp_claim a)) < claimPhaseToOrdinal (cl_phase (cp_claim b)) \<longrightarrow>
      claimDeletionOrder E a b < 0)"
  by (auto simp: weak_order_claimDeletion claimDeletionOrder_chain cmpThen_def)

theorem claimDeletionOrder_weak_order_witness:
  "claimDeletionOrder memEnv \<lparr>cp_claim = sampleClaim ''a'', cp_pod = None\<rparr>
     \<lparr>cp_claim = sampleClaim ''b'', cp_pod = Some (samplePod ''p'')\<rparr> < 0"
  using claimDeletionOrder_weak_order[of memEnv] by simp

section \<open>Scaling in\<close>

definition migratingClaims :: "cnclaim list \<Rightarrow> cnclaim list" where
  "migratingClaims cs = filter (\<lambda>c. cs_sourcePod (cl_spec c) \<noteq> None) cs"

definition settledClaims :: "cnclaim list \<Rightarrow> cnclaim list" where
  "settledClaims cs = filter (\<lambda>c. cs_sourcePod (cl_spec c) = None) cs"

lemma collectClaims_spec:
  "collectClaims E cs s = (Inr (cps, migrating), s') \<Longrightarrow>
     map cp_claim cps = settledClaims cs \<and> migrating = migratingClaims cs"
  by (induction cs arbitrary: s cps migrating)
    (auto simp: settledClaims_def migratingClaims_def ret_def elim!: bindR_InrE split: if_splits prod.splits)





lemma getClaimedPod_sends [sendsR]: "onlySends P ok (getClaimedPod (logged E) c)"
  unfolding getClaimedPod_def by (rule sendsR | simp only: send_simps)+


lemma sortClaimsToDelete_logged [simp]: "sortClaimsToDelete (logged E) = sortClaimsToDelete E"
proof -
  have "claimDeletionOrder (logged E) = claimDeletionOrder E"
    by (intro ext) (simp add: claimDeletionOrder_def podDeletionOrder_def)
  then show ?thesis by (intro ext) (simp add: sortClaimsToDelete_def)
qed

lemma deleteIgnoreNotFound_log:
  "deleteIgnoreNotFound (logged E) c s = (Inr u, s') \<Longrightarrow> logOf s' = ClaimW (WDelete c) # logOf s \<and> Obj s' = Obj s"
  by (cases "api_delete (e_claims E) c (fst (world s))")
    (auto simp: deleteIgnoreNotFound_def monad_simps writeL_def split: sum.splits if_splits)

lemma deleteAll_log:
  "forR (\<lambda>x. deleteIgnoreNotFound (logged E) (f x)) xs s = (Inr u, s') \<Longrightarrow>
     logOf s' = rev (map (\<lambda>x. ClaimW (WDelete (f x))) xs) @ logOf s \<and> Obj s' = Obj s"
  by (induction xs arbitrary: s) (auto simp: ret_def dest!: deleteIgnoreNotFound_log elim!: bindR_InrE)





section \<open>Scaling out\<close>

lemma makeClaim_SomeD:
  assumes "makeClaim cs iid = Some (c, ls)"
  shows "cl_name c = set_name cs @ ''-'' @ iid" and "cl_ns c = set_ns cs"
    and "gget (cl_labels c) ClaimInstanceIDLabel = Some iid" and "gget (cl_labels c) ClaimSetNameLabel = Some (set_name cs)"
    and "cs_ownerName (cl_spec c) \<noteq> None" and "cl_labels c = ls" and "\<not> isLost c \<longleftrightarrow> iid \<noteq> []"
  using assms
  by (cases "tp_labels (set_template cs)";
      auto simp: makeClaim_def Let_def newClaimStatus_def isLost_def)+

text \<open>What a claim set has in common with itself after its template's label map was written.\<close>

definition sameSet :: "cnclaimset \<Rightarrow> cnclaimset \<Rightarrow> bool" where
  "sameSet s s' \<longleftrightarrow> set_name s' = set_name s \<and> set_ns s' = set_ns s \<and> set_replicas s' = set_replicas s"

lemma createClaims_log:
  "createClaims (logged E) oc ids s = (Inr oc', s') \<Longrightarrow>
   \<exists>cs. logOf s' = rev (map (\<lambda>c. ClaimW (WCreate c)) cs) @ logOf s \<and>
     map cl_name cs = map (\<lambda>i. set_name (Obj s) @ ''-'' @ i) ids \<and>
     map (\<lambda>c. gget (cl_labels c) ClaimInstanceIDLabel) cs = map Some ids \<and>
     (\<forall>c \<in> set cs. gget (cl_labels c) ClaimSetNameLabel = Some (set_name (Obj s)) \<and> cl_ns c = set_ns (Obj s) \<and>
        cs_ownerName (cl_spec c) \<noteq> None) \<and>
     length (oc_owned oc') = length (oc_owned oc) + length ids \<and> oc_lost oc' = oc_lost oc"
proof (induction ids arbitrary: oc s)
  case Nil
  then show ?case by (auto simp: ret_def)
next
  case (Cons i ids)
  obtain c ls c' w' where mk: "makeClaim (Obj s) i = Some (c, ls)"
    and rest: "createClaims (logged E) (oc\<lparr>oc_owned := oc_owned oc @ [c']\<rparr>) ids
        (s\<lparr>Obj := setTemplateLabels ls (Obj s), world := (w', ClaimW (WCreate c) # logOf s)\<rparr>) = (Inr oc', s')"
    using Cons.prems
    by (auto simp: getObj_def orPanic_def modObj_def callW_def writeL_def ret_def throw_def
        elim!: bindR_InrE split: option.splits prod.splits)
  from Cons.IH[OF rest] obtain cs where cs: "logOf s' = rev (map (\<lambda>c. ClaimW (WCreate c)) cs) @ (ClaimW (WCreate c) # logOf s)"
      "map cl_name cs = map (\<lambda>i. set_name (Obj s) @ ''-'' @ i) ids"
      "map (\<lambda>c. gget (cl_labels c) ClaimInstanceIDLabel) cs = map Some ids"
      "\<forall>c \<in> set cs. gget (cl_labels c) ClaimSetNameLabel = Some (set_name (Obj s)) \<and> cl_ns c = set_ns (Obj s) \<and>
        cs_ownerName (cl_spec c) \<noteq> None"
      "length (oc_owned oc') = length (oc_owned oc) + Suc (length ids)" "oc_lost oc' = oc_lost oc"
    by (auto simp: setTemplateLabels_def)
  then show ?case using makeClaim_SomeD[OF mk] by (intro exI[of _ "c # cs"]) simp
qed

lemma loopR_logged:
  "loopR (genAvailableIds (logged E) n used) s = (Inr ids, s') \<Longrightarrow>
     length ids = nat n \<and> distinct ids \<and> set ids \<inter> set used = {} \<and> Obj s' = Obj s"
  using genIds_spec[of "logged E" "nat n" used "world s" ids]
  by (auto simp: loopR_def genAvailableIds_def split: option.splits)

text \<open>Drawing identities writes nothing.\<close>

lemma genAvailableID_logged:
  assumes "genAvailableID (logged E) used (w, l) = Some (i, x)"
  shows "snd x = l"
proof -
  have "logged E = logged E \<longrightarrow> snd (snd (i, x)) = snd (w, l)"
  proof (rule genAvailableID.raw_induct[where P = "\<lambda>F used x r. F = logged E \<longrightarrow> snd (snd r) = snd x", OF _ assms], rule impI)
    fix f F used x r
    assume IH: "\<And>F used x r. f F used x = Some r \<Longrightarrow> F = logged E \<longrightarrow> snd (snd r) = snd x"
      and eq: "(case e_randString F LengthOfInstanceID x of
          (iid, w') \<Rightarrow> if iid \<in> set used then f F used w' else Some (iid, w')) = Some r" and F: "F = logged E"
    obtain j v where "e_randString E LengthOfInstanceID (fst x) = (j, v)" by fastforce
    then have d: "e_randString F LengthOfInstanceID x = (j, (v, snd x))" by (simp add: F readL_def)
    show "snd (snd r) = snd x"
    proof (cases "j \<in> set used")
      case True
      with eq d IH[of F used "(v, snd x)" r] F show ?thesis by simp
    next
      case False
      with eq d show ?thesis by auto
    qed
  qed
  then show ?thesis by simp
qed

lemma genIds_logged: "genIds (logged E) n used x = Some (ids, x') \<Longrightarrow> snd x' = snd x"
proof (induction n arbitrary: used x ids)
  case (Suc n)
  then obtain i x1 js where "genAvailableID (logged E) used x = Some (i, x1)"
    and "genIds (logged E) n (i # used) x1 = Some (js, x')" by (auto simp: bind_eq_Some_conv)
  with Suc.IH[of "i # used" x1 js] genAvailableID_logged[of E used "fst x" "snd x" i x1] show ?case by simp
qed simp

lemma loopR_log: "loopR (genAvailableIds (logged E) n used) s = (r, s') \<Longrightarrow> logOf s' = logOf s"
  using genIds_logged by (fastforce simp: loopR_def genAvailableIds_def split: option.splits)

text \<open>\<^verbatim>\<open>scaleOut\<close>: a scale-out that returns has sent exactly \<open>count\<close> creations (none for a
  negative count) and nothing else. The new claims are named after the set and an identity; the
  identities are pairwise distinct and none is used by an owned or a lost claim; every new claim
  carries its identity, the name of the set, and an owner.\<close>

theorem scaleOut_creates:
  assumes run: "scaleOut (logged E) oc n s = (Inr oc', s')"
  shows "\<exists>cs ids. logOf s' = rev (map (\<lambda>c. ClaimW (WCreate c)) cs) @ logOf s \<and>
     length cs = nat n \<and> length (oc_owned oc') = length (oc_owned oc) + nat n \<and> oc_lost oc' = oc_lost oc \<and>
     map cl_name cs = map (\<lambda>i. set_name (Obj s) @ ''-'' @ i) ids \<and> distinct ids \<and> set ids \<inter> set (usedIds oc) = {} \<and>
     map (\<lambda>c. gget (cl_labels c) ClaimInstanceIDLabel) cs = map Some ids \<and>
     (\<forall>c \<in> set cs. gget (cl_labels c) ClaimSetNameLabel = Some (set_name (Obj s)) \<and> cl_ns c = set_ns (Obj s) \<and>
        cs_ownerName (cl_spec c) \<noteq> None)"
proof -
  from run obtain ids s1 where l: "loopR (genAvailableIds (logged E) n (usedIds oc)) s = (Inr ids, s1)"
    and c: "createClaims (logged E) oc ids s1 = (Inr oc', s')"
    by (auto simp: scaleOut_def elim!: bindR_InrE)
  have "length ids = nat n" and "distinct ids" and "set ids \<inter> set (usedIds oc) = {}" and "Obj s1 = Obj s"
    and "logOf s1 = logOf s"
    using loopR_logged[OF l] loopR_log[OF l] by auto
  moreover from this createClaims_log[OF c] obtain cs where cs: "logOf s' = rev (map (\<lambda>c. ClaimW (WCreate c)) cs) @ logOf s"
     "map cl_name cs = map (\<lambda>i. set_name (Obj s) @ ''-'' @ i) ids"
     "map (\<lambda>c. gget (cl_labels c) ClaimInstanceIDLabel) cs = map Some ids"
     "\<forall>c \<in> set cs. gget (cl_labels c) ClaimSetNameLabel = Some (set_name (Obj s)) \<and> cl_ns c = set_ns (Obj s) \<and>
        cs_ownerName (cl_spec c) \<noteq> None"
     "length (oc_owned oc') = length (oc_owned oc) + length ids" "oc_lost oc' = oc_lost oc"
    by auto
  moreover from cs(3) have "length cs = length ids" by (metis length_map)
  ultimately show ?thesis by (intro exI[of _ cs] exI[of _ ids]) simp
qed

text \<open>A claim set of the sample world that wants \<open>n\<close> replicas.\<close>

definition sampleSet :: "int \<Rightarrow> cnclaimset" where
  "sampleSet n = \<lparr>set_name = ''cs'', set_ns = ''ns'', set_replicas = n,
     set_template = \<lparr>tp_labels = Some Map.empty, tp_annos = None, tp_spec = sampleClaimSpec\<lparr>cs_ownerName := None\<rparr>\<rparr>,
     set_selector = Some \<lparr>matchLabels = [], matchExpressions = []\<rparr>, set_statusReplicas = 0,
     set_statusReadyReplicas = 0, set_statusClaims = [], set_statusLabelSelector = Selector None []\<rparr>"

theorem scaleOut_creates_witness:
  "let run = scaleOut (logged memEnv) \<lparr>oc_owned = [], oc_lost = []\<rparr> 2 \<lparr>Obj = sampleSet 2, world = (sampleWorld [] [], [])\<rparr>
   in \<exists>oc' s' cs. run = (Inr oc', s') \<and> logOf s' = rev (map (\<lambda>c. ClaimW (WCreate c)) cs) \<and> length cs = 2"
proof -
  let ?s = "\<lparr>Obj = sampleSet 2, world = (sampleWorld [] [], [])\<rparr>"
  have "\<exists>oc' s'. scaleOut (logged memEnv) \<lparr>oc_owned = [], oc_lost = []\<rparr> 2 ?s = (Inr oc', s')"
    by (simp add: scaleOut_def loopR_def genAvailableIds_def usedIds_def numeral_2_eq_2 genAvailableID.simps
        makeClaim_def setTemplateLabels_def sampleSet_def readL_def writeL_def Let_def monad_simps mem_defs sample_defs)
  then obtain oc' s' where run: "scaleOut (logged memEnv) \<lparr>oc_owned = [], oc_lost = []\<rparr> 2 ?s = (Inr oc', s')"
    by (elim exE) (rule that)
  from scaleOut_creates[OF this] obtain cs where "logOf s' = rev (map (\<lambda>c. ClaimW (WCreate c)) cs)" and "length cs = 2"
    by auto
  with run show ?thesis unfolding Let_def by (intro exI conjI)
qed

section \<open>Scaling\<close>

lemma ready_split: "updatedCount cs + outdatedCount cs = readyCount cs"
  by (induction cs) (auto simp: updatedCount_def outdatedCount_def readyCount_def)

lemma length_split: "length (settledClaims cs) + length (migratingClaims cs) = length cs"
  by (induction cs) (auto simp: settledClaims_def migratingClaims_def)

lemma scaleIn_length:
  assumes perm: "\<forall>cmp xs. mset (e_sortClaims E cmp xs) = mset xs" and n: "0 \<le> n"
    and run: "scaleIn E oc n s = (Inr oc', s')"
  shows "int (length (oc_owned oc')) = int (length (oc_owned oc)) - min n (int (length (settledClaims (oc_owned oc))))"
proof -
  from run obtain cps migrating s1 where
    c: "collectClaims E (oc_owned oc) s = (Inr (cps, migrating), s1)"
    and r: "oc' = oc\<lparr>oc_owned := map cp_claim (drop (if n \<ge> int (length cps) then length cps else nat n)
        (if n \<ge> int (length cps) then cps else sortClaimsToDelete E cps)) @ migrating\<rparr>"
    by (auto simp: scaleIn_def Let_def ret_def elim!: bindR_InrE split: if_splits prod.splits)
  have "length (sortClaimsToDelete E cps) = length cps"
    using perm unfolding sortClaimsToDelete_def by (metis mset_eq_length)
  moreover have "length cps = length (settledClaims (oc_owned oc))" and "migrating = migratingClaims (oc_owned oc)"
    using collectClaims_spec[OF c] by (metis length_map, simp)
  ultimately show ?thesis using r n length_split[of "oc_owned oc"] by (auto simp: min_def)
qed

lemma scaleOut_length:
  assumes "scaleOut E oc n s = (Inr oc', s')"
  shows "length (oc_owned oc') = length (oc_owned oc) + nat n"
proof -
  from assms obtain ids s1 where l: "loopR (genAvailableIds E n (usedIds oc)) s = (Inr ids, s1)"
    and c: "createClaims E oc ids s1 = (Inr oc', s')"
    by (auto simp: scaleOut_def elim!: bindR_InrE)
  have "length ids = nat n"
    using l genIds_spec[of E "nat n" "usedIds oc" "world s" ids]
    by (auto simp: loopR_def genAvailableIds_def split: option.splits)
  moreover have "createClaims E oc ids s1 = (Inr oc', s') \<Longrightarrow> length (oc_owned oc') = length (oc_owned oc) + length ids"
    by (induction ids arbitrary: oc s1) (auto simp: ret_def elim!: bindR_InrE)
  ultimately show ?thesis using c by simp
qed

text \<open>\<^verbatim>\<open>scale\<close>: the number of claims after a scale step that returns, for any sort that permutes.
  With more ready claims than wanted, the surplus over the wanted number goes, migrating claims
  excepted. With exactly as many ready claims as wanted, some of them outdated, one surge claim is
  allowed. Otherwise the set is filled up to the wanted number; it is never shrunk in this case,
  although the code calls it normal scaling: the call for \<open>desiredReplicas < current\<close> is a
  scale-out by a negative count, which does nothing.\<close>

theorem scale_size:
  assumes perm: "\<forall>cmp xs. mset (e_sortClaims E cmp xs) = mset xs"
    and run: "scale E oc s = (Inr oc', s')"
  shows "let ready = readyCount (oc_owned oc); updated = updatedCount (oc_owned oc);
        cur = int (length (oc_owned oc)); want = set_replicas (Obj s)
      in int (length (oc_owned oc')) =
         (if ready > want then cur - min (cur - want) (int (length (settledClaims (oc_owned oc))))
          else if ready = want \<and> updated < want then max cur (want + 1)
          else max cur want)"
proof -
  have le: "readyCount (oc_owned oc) \<le> int (length (oc_owned oc))"
    by (simp add: readyCount_def)
  show ?thesis
  proof (cases "readyCount (oc_owned oc) > set_replicas (Obj s)")
    case True
    with run le have "scaleIn E oc (int (length (oc_owned oc)) - set_replicas (Obj s)) s = (Inr oc', s')"
      by (simp add: scale_def getObj_def bindR_Inr Let_def ready_split)
    from scaleIn_length[OF perm _ this] True le show ?thesis by simp
  next
    case False
    from False run show ?thesis
      by (auto simp: scale_def getObj_def bindR_Inr Let_def ready_split max_def ret_def
          dest!: scaleOut_length split: if_splits)
  qed
qed

theorem scale_size_witness:
  "let oc = \<lparr>oc_owned = [sampleClaim ''a'', sampleClaim ''b'', sampleClaim ''c''], oc_lost = []\<rparr>;
       run = scale memEnv oc \<lparr>Obj = sampleSet 1, world = sampleWorld [] []\<rparr>
   in \<exists>oc' s'. run = (Inr oc', s') \<and> int (length (oc_owned oc')) = 3"
proof -
  let ?oc = "\<lparr>oc_owned = [sampleClaim ''a'', sampleClaim ''b'', sampleClaim ''c''], oc_lost = []\<rparr>"
  let ?s = "\<lparr>Obj = sampleSet 1, world = sampleWorld [] []\<rparr>"
  have z: "readyCount (oc_owned ?oc) = 0" "updatedCount (oc_owned ?oc) = 0" "outdatedCount (oc_owned ?oc) = 0"
    by (simp_all add: readyCount_def updatedCount_def outdatedCount_def claimIsReady_def sampleClaim_def)
  have "\<exists>oc' s'. scale memEnv ?oc ?s = (Inr oc', s')"
    using z by (simp add: scale_def scaleOut_def loopR_def genAvailableIds_def sampleSet_def monad_simps)
  then obtain oc' s' where run: "scale memEnv ?oc ?s = (Inr oc', s')" by (elim exE) (rule that)
  have "\<forall>cmp xs. mset (e_sortClaims memEnv cmp xs) = mset xs" by (simp add: memEnv_sel)
  from scale_size[OF this run] z have "int (length (oc_owned oc')) = 3" by (simp add: sampleSet_def)
  with run show ?thesis unfolding Let_def by (intro exI conjI)
qed

section \<open>Sync and Finalize\<close>

lemma partitionClaims_spec:
  "partitionClaims cs = \<lparr>oc_owned = filter (\<lambda>c. \<not> isLost c) cs, oc_lost = filter isLost cs\<rparr>"
proof -
  have "foldl (\<lambda>res c. if isLost c then res\<lparr>oc_lost := oc_lost res @ [c]\<rparr> else res\<lparr>oc_owned := oc_owned res @ [c]\<rparr>) acc cs =
      \<lparr>oc_owned = oc_owned acc @ filter (\<lambda>c. \<not> isLost c) cs, oc_lost = oc_lost acc @ filter isLost cs\<rparr>" for acc :: owned_claims
    by (induction cs arbitrary: acc) auto
  then show ?thesis by (simp add: partitionClaims_def)
qed

lemma listOwnedClaims_logged:
  assumes "e_asSelector E (set_selector cs) = None"
    and "api_list api (set_ns cs) (MatchingLabelsSelector (Selector (set_selector cs) [])) (fst (world s)) = (r, w)"
  shows "listOwnedClaims (logged E) (logKind ev api) cs s =
    (case r of Inl e \<Rightarrow> Inl e | Inr l \<Rightarrow> Inr (partitionClaims l), s\<lparr>world := (w, logOf s)\<rparr>)"
  using assms
  by (cases r) (simp_all add: listOwnedClaims_def MustAsSelector_def monad_simps readL_def)

text \<open>\<^verbatim>\<open>Sync\<close>: no action on a stale cache. If the cached list of owned claims disagrees in length
  with the recorded number of replicas, and the direct list then shows another number of owned or
  of lost claims, the reconcile writes nothing, leaves the claim set as it is, and is retried a
  second later.\<close>

theorem sync_waits_for_cache:
  assumes sel: "e_asSelector E (set_selector cs) = None"
    and cached: "api_list (e_claims E) (set_ns cs) (MatchingLabelsSelector (Selector (set_selector cs) [])) w = (Inr cl, w1)"
    and direct: "api_list (e_claimsNoCache E) (set_ns cs) (MatchingLabelsSelector (Selector (set_selector cs) [])) w1 = (Inr dl, w2)"
    and moved: "int32 (int (length (filter (\<lambda>c. \<not> isLost c) cl))) \<noteq> set_statusReplicas cs"
    and stale: "length (filter (\<lambda>c. \<not> isLost c) cl) \<noteq> length (filter (\<lambda>c. \<not> isLost c) dl) \<or>
      length (filter isLost cl) \<noteq> length (filter isLost dl)"
  shows "ClaimSetSync (logged E) \<lparr>Obj = cs, world = (w, [])\<rparr> =
    (Inl (Err (ReSync second) ''wait cache sync''), \<lparr>Obj = cs, world = (w2, [])\<rparr>)"
proof -
  let ?s = "\<lparr>Obj = cs, world = (w, [])\<rparr>" and ?s1 = "\<lparr>Obj = cs, world = (w1, [])\<rparr>" and ?s2 = "\<lparr>Obj = cs, world = (w2, [])\<rparr>"
  have l1: "listOwnedClaims (logged E) (e_claims (logged E)) cs ?s = (Inr (partitionClaims cl), ?s1)"
    using listOwnedClaims_logged[OF sel, of "e_claims E" ?s] cached by simp
  have l2: "listOwnedClaims (logged E) (e_claimsNoCache (logged E)) cs ?s1 = (Inr (partitionClaims dl), ?s2)"
    using listOwnedClaims_logged[OF sel, of "e_claimsNoCache E" ?s1] direct by simp
  have "waitCacheSync (logged E) cs (partitionClaims cl) ?s1 = (Inl (Err (ReSync second) ''wait cache sync''), ?s2)"
    using moved stale l2 by (auto simp: waitCacheSync_def partitionClaims_spec bindR_def wrapE_def ErrReSync_def throw_def)
  then show ?thesis
    using l1 unfolding ClaimSetSync_def by (simp add: getObj_def bindR_Inr bindR_Inl wrapE_def del: logged_simps)
qed

theorem sync_waits_for_cache_witness:
  "let stale = memEnv\<lparr>e_claims := memClaims\<lparr>api_list := (\<lambda>ns opt w. (Inr [], w))\<rparr>\<rparr>;
       c = (sampleClaim ''a'')\<lparr>cl_labels := Some [ClaimInstanceIDLabel \<mapsto> ''x'']\<rparr>;
       cs = (sampleSet 1)\<lparr>set_statusReplicas := 1\<rparr>;
       run = ClaimSetSync (logged stale) \<lparr>Obj = cs, world = (sampleWorld [] [c], [])\<rparr>
   in fst run = Inl (Err (ReSync second) ''wait cache sync'') \<and> logOf (snd run) = []"
proof -
  let ?E = "memEnv\<lparr>e_claims := memClaims\<lparr>api_list := (\<lambda>ns opt w. (Inr [], w))\<rparr>\<rparr>"
  let ?c = "(sampleClaim ''a'')\<lparr>cl_labels := Some [ClaimInstanceIDLabel \<mapsto> ''x'']\<rparr>"
  let ?cs = "(sampleSet 1)\<lparr>set_statusReplicas := 1\<rparr>"
  have "ClaimSetSync (logged ?E) \<lparr>Obj = ?cs, world = (sampleWorld [] [?c], [])\<rparr> =
    (Inl (Err (ReSync second) ''wait cache sync''), \<lparr>Obj = ?cs, world = (sampleWorld [] [?c], [])\<rparr>)"
    by (rule sync_waits_for_cache[where cl = "[]" and dl = "[?c]" and ?w1.0 = "sampleWorld [] [?c]"])
      (simp_all add: mem_defs sample_defs sampleSet_def int32_def isLost_def)
  then show ?thesis by (simp add: Let_def)
qed

text \<open>\<^verbatim>\<open>Sync\<close>: the status is consistent. After a successful reconcile the recorded replicas count
  the recorded claim statuses, the ready replicas count those that are Bound or Outdated, and, as
  long as the number fits 32 bits, ready replicas are between 0 and the replicas.\<close>

theorem sync_status:
  assumes run: "ClaimSetSync E s = (Inr (), s')"
  shows "set_statusReplicas (Obj s') = int32 (int (length (set_statusClaims (Obj s')))) \<and>
    set_statusReadyReplicas (Obj s') =
      int32 (int (length (filter (\<lambda>st. ct_phase st = CNClaimPhaseBound \<or> ct_phase st = CNClaimPhaseOutdated)
        (set_statusClaims (Obj s'))))) \<and>
    (length (set_statusClaims (Obj s')) < 2 ^ 31 \<longrightarrow>
       0 \<le> set_statusReadyReplicas (Obj s') \<and> set_statusReadyReplicas (Obj s') \<le> set_statusReplicas (Obj s'))"
proof -
  let ?ready = "\<lambda>st. ct_phase st = CNClaimPhaseBound \<or> ct_phase st = CNClaimPhaseOutdated"
  from run obtain oc sel c where o: "Obj s' = setStatusOf oc sel (c\<lparr>set_statusReplicas := int32 (int (length (oc_owned oc)))\<rparr>)"
    by (auto simp: ClaimSetSync_def getObj_def modObj_def MustAsSelector_def panicR_def ret_def throw_def
        elim!: bindR_InrE split: option.splits)
  let ?cl = "map cl_status (oc_owned oc)"
  have cl: "set_statusClaims (Obj s') = ?cl" using o by (simp add: setStatusOf_def)
  have rd: "length (filter ?ready ?cl) = length (filter claimIsReady (oc_owned oc))"
    unfolding filter_map length_map comp_def claimIsReady_def[abs_def] by (rule refl)
  have le: "length (filter ?ready ?cl) \<le> length ?cl" by (metis length_filter_le)
  have fit: "int32 (int n) = int n" if "n < 2 ^ 31" for n
    using that by (intro int32_fits) (simp add: fits32_def)
  have "0 \<le> int32 (int r) \<and> int32 (int r) \<le> int32 (int l)" if "r \<le> l" "l < 2 ^ 31" for r l
    using that fit[of r] fit[of l] by simp
  from this[OF le] o cl rd show ?thesis by (simp add: setStatusOf_def readyCount_def)
qed

theorem sync_status_witness:
  "\<exists>s'. ClaimSetSync memEnv \<lparr>Obj = sampleSet 0, world = sampleWorld [] []\<rparr> = (Inr (), s') \<and>
     set_statusReplicas (Obj s') = 0 \<and> set_statusReadyReplicas (Obj s') \<le> set_statusReplicas (Obj s')"
proof -
  let ?s = "\<lparr>Obj = sampleSet 0, world = sampleWorld [] []\<rparr>"
  have "\<exists>s'. ClaimSetSync memEnv ?s = (Inr (), s') \<and> set_statusClaims (Obj s') = []"
    by (simp add: ClaimSetSync_def listOwnedClaims_def partitionClaims_spec MustAsSelector_def waitCacheSync_def scale_def
        updatedCount_def outdatedCount_def cleanClaims_def setStatusOf_def int32_def sampleSet_def Let_def
        monad_simps mem_defs sample_defs)
  then obtain s' where run: "ClaimSetSync memEnv ?s = (Inr (), s')" and cl: "set_statusClaims (Obj s') = []"
    by (elim exE conjE) (rule that)
  from sync_status[OF run] cl have "set_statusReplicas (Obj s') = 0" "set_statusReadyReplicas (Obj s') \<le> set_statusReplicas (Obj s')"
    by (simp_all add: int32_def)
  with run show ?thesis by blast
qed

text \<open>\<^verbatim>\<open>Finalize\<close>: a claim set is gone only when no claim matches its selector any more; before
  that, a pass that returns has sent the deletion of every claim it found, and nothing else.\<close>

theorem claimset_finalize:
  assumes sel: "e_asSelector E (set_selector cs) = None"
    and list: "api_list (e_claims E) (set_ns cs) (MatchingLabelsSelector (Selector (set_selector cs) [])) w = (Inr cl, w1)"
    and run: "ClaimSetFinalize (logged E) \<lparr>Obj = cs, world = (w, [])\<rparr> = (Inr done, s')"
  shows "(done \<longleftrightarrow> cl = []) \<and>
    (\<exists>ds. mset ds = mset cl \<and> logOf s' = rev (map (\<lambda>c. ClaimW (WDelete c)) ds))"
proof -
  let ?s = "\<lparr>Obj = cs, world = (w, [])\<rparr>" and ?s1 = "\<lparr>Obj = cs, world = (w1, [])\<rparr>"
  let ?all = "filter (\<lambda>c. \<not> isLost c) cl @ filter isLost cl"
  have ms: "mset ?all = mset cl" by (induction cl) auto
  then have none: "filter (\<lambda>c. \<not> isLost c) cl = [] \<and> filter isLost cl = [] \<longleftrightarrow> cl = []"
    by (metis append_Nil filter.simps(1) mset_zero_iff_right)
  have l1: "listOwnedClaims (logged E) (e_claims (logged E)) cs ?s = (Inr (partitionClaims cl), ?s1)"
    using listOwnedClaims_logged[OF sel, of "e_claims E" ?s] list by simp
  have step: "(if cl = [] then ret True
      else bindR (forR (deleteIgnoreNotFound (logged E)) ?all) (\<lambda>_. ret False)) ?s1 = (Inr done, s')"
    using run l1 none unfolding ClaimSetFinalize_def
    by (simp add: getObj_def bindR_Inr attempt_def partitionClaims_spec del: logged_simps split: if_splits)
  show ?thesis
  proof (cases "cl = []")
    case True
    with step show ?thesis by (auto simp: ret_def)
  next
    case False
    with step obtain s2 where "forR (\<lambda>x. deleteIgnoreNotFound (logged E) x) ?all ?s1 = (Inr (), s2)" "s' = s2" "\<not> done"
      by (auto simp: ret_def elim!: bindR_InrE)
    with deleteAll_log[of E "\<lambda>x. x" ?all ?s1 "()" s2] False ms show ?thesis by (intro conjI exI[of _ ?all]) auto
  qed
qed

theorem claimset_finalize_witness:
  "let run = ClaimSetFinalize (logged memEnv) \<lparr>Obj = sampleSet 1, world = (sampleWorld [] [sampleClaim ''a''], [])\<rparr>
   in fst run = Inr False \<and> (\<exists>ds. mset ds = {#sampleClaim ''a''#} \<and> logOf (snd run) = rev (map (\<lambda>c. ClaimW (WDelete c)) ds))"
proof -
  let ?w = "sampleWorld [] [sampleClaim ''a'']"
  let ?run = "ClaimSetFinalize (logged memEnv) \<lparr>Obj = sampleSet 1, world = (?w, [])\<rparr>"
  have ff: "fst ?run = Inr False"
    by (simp add: ClaimSetFinalize_def listOwnedClaims_def partitionClaims_spec isLost_def MustAsSelector_def sampleSet_def
        deleteIgnoreNotFound_def readL_def writeL_def monad_simps mem_defs sample_defs)
  then have run: "?run = (Inr False, snd ?run)" by (metis prod.collapse)
  have "(False \<longleftrightarrow> [sampleClaim ''a''] = []) \<and>
    (\<exists>ds. mset ds = mset [sampleClaim ''a''] \<and> logOf (snd ?run) = rev (map (\<lambda>c. ClaimW (WDelete c)) ds))"
    by (rule claimset_finalize[OF _ _ run, where ?w1.0 = ?w]) (simp_all add: mem_defs sample_defs sampleSet_def)
  with ff show ?thesis by (simp add: Let_def)
qed

end
