(* ===== verification/CNStore.thy ===== *)
theory CNStore
  imports Mem_World
begin

text \<open>
  The CNStore controller: \<^verbatim>\<open>pkg/controllers/cnstore\<close> (\<^verbatim>\<open>controller.go\<close>, \<^verbatim>\<open>pooling.go\<close>).
  It follows one CN pod through its life: it refreshes the statistics that decide whether the pod
  may be given up, drains it before it stops, moves a pooled pod between the phases Unknown, Idle,
  Bound, Draining and Terminating, and removes the store from HAKeeper. The context object is the
  pod; the CN set it belongs to is a parameter (\<^verbatim>\<open>withCNSet\<close>).
\<close>

section \<open>Definitions\<close>

type_synonym 'w pod_ctx = "(pod, 'w) ctx"

definition messageCNCordon :: string where
  "messageCNCordon = ''CNStoreCordon''"
definition messageCNPrepareStop :: string where
  "messageCNPrepareStop = ''CNStorePrepareStop''"
definition messageCNStoreReady :: string where
  "messageCNStoreReady = ''CNStoreReady''"
definition messageCNStoreNotRegistered :: string where
  "messageCNStoreNotRegistered = ''CNStoreNotRegistered''"
definition CNStoreStateUp :: string where
  "CNStoreStateUp = ''Up''"
definition storeDrainTakesLongDuration :: int where
  "storeDrainTakesLongDuration = 300 * second"
definition retryInterval :: int where
  "retryInterval = 5 * second"
definition resyncInterval :: int where
  "resyncInterval = 30 * second"

text \<open>\<open>ctx.Patch\<close> with a mutation that may fail: nothing is sent then.\<close>

definition patchPodM :: "'w env \<Rightarrow> (pod \<Rightarrow> err + pod) \<Rightarrow> ('w pod_ctx, unit) rm" where
  "patchPodM E f s = (case f (Obj s) of
      Inl e \<Rightarrow> (Inl e, s)
    | Inr p' \<Rightarrow> patchObj (api_patch (e_pods E)) (\<lambda>_. p') s)"

definition putLabel :: "string \<Rightarrow> string \<Rightarrow> pod \<Rightarrow> err + pod" where
  "putLabel k v p = (case gput k v (pod_labels p) of
      None \<Rightarrow> Inl nilMapPanic | Some ls \<Rightarrow> Inr (p\<lparr>pod_labels := ls\<rparr>))"

definition putAnno :: "string \<Rightarrow> string \<Rightarrow> pod \<Rightarrow> err + pod" where
  "putAnno k v p = (case gput k v (pod_annos p) of
      None \<Rightarrow> Inl nilMapPanic | Some as \<Rightarrow> Inr (p\<lparr>pod_annos := as\<rparr>))"

definition ensureAnnos :: "pod \<Rightarrow> pod" where
  "ensureAnnos p = p\<lparr>pod_annos := gmake (pod_annos p)\<rparr>"

definition removeFinalizer :: "pod \<Rightarrow> pod" where
  "removeFinalizer p = p\<lparr>pod_finalizers := filter (\<lambda>f. f \<noteq> CNDrainingFinalizer) (pod_finalizers p)\<rparr>"

definition addFinalizer :: "pod \<Rightarrow> pod" where
  "addFinalizer p = (if CNDrainingFinalizer \<in> set (pod_finalizers p) then p
     else p\<lparr>pod_finalizers := pod_finalizers p @ [CNDrainingFinalizer]\<rparr>)"

definition withMOClientSet :: "'w env \<Rightarrow> cnset \<Rightarrow> (string \<Rightarrow> ('w pod_ctx, 'a) rm) \<Rightarrow> ('w pod_ctx, 'a) rm" where
  "withMOClientSet E cs fn =
     bindR getObj (\<lambda>p.
     bindR (wrapE ''error resolve logset'' (ResolveLogSet E cs)) (\<lambda>ls.
     if \<not> e_isReady E ls
     then ErrReSync (''logset is not ready for Pod '' @ pod_name p @ '', cannot update CN labels'') retryInterval
     else bindR (wrapE ''get HAKeeper client'' (callW (mo_getClient (e_mo E) ls))) fn))"

subsection \<open>Readiness\<close>

fun setFirstCond :: "condition_status \<Rightarrow> string \<Rightarrow> time \<Rightarrow> pod_condition list \<Rightarrow> pod_condition list" where
  "setFirstCond st msg now [] = []"
| "setFirstCond st msg now (c # cs) =
     (if cond_type c = CNStoreReadiness
      then (if cond_status c \<noteq> st then c\<lparr>cond_status := st, cond_lastTransition := now, cond_message := msg\<rparr>
            else c\<lparr>cond_message := msg\<rparr>) # cs
      else c # setFirstCond st msg now cs)"

definition setCNState :: "string \<Rightarrow> pod \<Rightarrow> pod" where
  "setCNState st p = p\<lparr>pod_annos := Some ((the (gmake (pod_annos p)))(CNStateAnno \<mapsto> st))\<rparr>"

definition readinessPatch :: "condition_status \<Rightarrow> string \<Rightarrow> time \<Rightarrow> pod \<Rightarrow> pod" where
  "readinessPatch st msg now p =
     setCNState CNStoreStateUp
       (case GetReadinessCondition p CNStoreReadiness of
          None \<Rightarrow> p\<lparr>pod_conditions := pod_conditions p @ [NewCNReadinessCondition st msg now]\<rparr>
        | Some _ \<Rightarrow> p\<lparr>pod_conditions := setFirstCond st msg now (pod_conditions p)\<rparr>)"

definition patchCNReadiness :: "'w env \<Rightarrow> condition_status \<Rightarrow> string \<Rightarrow> ('w pod_ctx, unit) rm" where
  "patchCNReadiness E st msg =
     bindR getObj (\<lambda>p.
     bindR (if (case GetReadinessCondition p CNStoreReadiness of None \<Rightarrow> True | Some c \<Rightarrow> cond_status c \<noteq> st)
            then nowR E else ret 0) (\<lambda>now.
     wrapE ''patch pod readiness'' (patchObj (api_patchStatus (e_pods E)) (readinessPatch st msg now))))"

subsection \<open>Deletion and draining\<close>

definition OnDeleted :: "'w env \<Rightarrow> ('w pod_ctx, unit) rm" where
  "OnDeleted E =
     bindR getObj (\<lambda>p.
     bindR (attempt (ResolveCNSet E p)) (\<lambda>r.
     bindR (case r of
         Inr cs \<Rightarrow> wrapE ''error remove CN store'' (withMOClientSet E cs (\<lambda>h.
                     callW (mo_deleteCNStore (e_mo E) h (GetCNPodUUID E p))))
       | Inl _ \<Rightarrow> ret ()) (\<lambda>_.
     patchObj (api_patch (e_pods E)) removeFinalizer)))"

definition clearDraining :: "pod \<Rightarrow> pod" where
  "clearDraining p = (removeFinalizer p)\<lparr>pod_annos :=
     gdel diagnosDrainingAnno (gdel LockRestartSet (gdel StoreDrainingStartAnno (pod_annos p)))\<rparr>"

definition completeDraining :: "'w env \<Rightarrow> ('w pod_ctx, unit) rm" where
  "completeDraining E =
     bindR (wrapE ''error removing CN draining finalizer'' (patchObj (api_patch (e_pods E)) clearDraining)) (\<lambda>_.
     bindR getObj (\<lambda>p.
     if gget (pod_labels p) DirectPodLabel \<noteq> None then callW (api_delete (e_pods E) p) else ret ()))"

definition diagnosisDraining :: "'w env \<Rightarrow> ('w pod_ctx, unit) rm" where
  "diagnosisDraining E =
     bindR (attempt (patchObj (api_patch (e_pods E))
       (\<lambda>p. p\<lparr>pod_annos := Some ((the (gmake (pod_annos p)))(diagnosDrainingAnno \<mapsto> ''y''))\<rparr>))) (\<lambda>_. ret ())"

definition handleConnectionDraining :: "'w env \<Rightarrow> string \<Rightarrow> string \<Rightarrow> ('w pod_ctx, bool) rm" where
  "handleConnectionDraining E uid h =
     bindR getObj (\<lambda>p.
     bindR (wrapE ''error set CN state draining'' (callW (mo_patchCNStore (e_mo E) h
         \<lparr>sl_uuid = uid, sl_state = WorkState_Draining, sl_labels = None\<rparr>))) (\<lambda>_.
     bindR (wrapE ''error get store connection count'' (liftE (GetStoreScore E p))) (\<lambda>sc.
     ret (IsSafeToReclaim sc))))"

definition handleLockMigration :: "'w env \<Rightarrow> string \<Rightarrow> string \<Rightarrow> ('w pod_ctx, bool) rm" where
  "handleLockMigration E uid h =
     bindR getObj (\<lambda>p.
     if HasMOFeature (GetSemanticVersion E (pod_annos p)) MOFeatureLockMigration then
       bindR (callW (mo_canRestartCN (e_mo E) h uid)) (\<lambda>ok.
       if ok then ret True
       else
         bindR (attempt (callW (mo_remainTxnCount (e_mo E) h uid))) (\<lambda>_.
         bindR (if gget (pod_annos p) LockRestartSet = None then
                  bindR (callW (mo_setRestartCN (e_mo E) h uid)) (\<lambda>ok.
                  if \<not> ok then errorf ''error set restart CN''
                  else patchObj (api_patch (e_pods E))
                    (\<lambda>p. p\<lparr>pod_annos := Some ((the (gmake (pod_annos p)))(LockRestartSet \<mapsto> ''true''))\<rparr>))
                else ret ()) (\<lambda>_.
         ret False)))
     else ret True)"

text \<open>The start of the drain: read from the annotation, or now and recorded.\<close>

definition drainStart :: "'w env \<Rightarrow> ('w pod_ctx, time) rm" where
  "drainStart E =
     bindR getObj (\<lambda>p.
     case gget (pod_annos p) StoreDrainingStartAnno of
       Some str \<Rightarrow> liftE (e_parseTime E str)
     | None \<Rightarrow>
         bindR (nowR E) (\<lambda>t.
         bindR (wrapE ''error patching store draining start time''
                  (patchPodM E (putAnno StoreDrainingStartAnno (e_formatTime E t)))) (\<lambda>_.
         ret t)))"

text \<open>The closure \<^verbatim>\<open>OnPreparingStop\<close> gives to \<^verbatim>\<open>withMOClientSet\<close>; it sets
  \<^verbatim>\<open>connAndShardMigrated\<close> and \<^verbatim>\<open>lockMigrated\<close>.\<close>

definition drainStep :: "'w env \<Rightarrow> scaling_config \<Rightarrow> time \<Rightarrow> string \<Rightarrow> string \<Rightarrow> ('w pod_ctx, bool \<times> bool) rm" where
  "drainStep E sc startTime uid h =
     bindR (handleConnectionDraining E uid h) (\<lambda>conn.
     bindR (nowR E) (\<lambda>t.
     if t - startTime < GetMinDelayDuration sc
     then ErrReSync ''wait min-delay for CN draining state get propagated'' (GetMinDelayDuration sc)
     else if \<not> conn then ret (False, False)
     else bindR (handleLockMigration E uid h) (\<lambda>lock. ret (True, lock))))"

definition notExists :: "err \<Rightarrow> bool" where
  "notExists e \<longleftrightarrow> strContains (emsg e) ''does not exist''"

text \<open>One round of \<^verbatim>\<open>OnPreparingStop\<close> once the start of the drain is known.\<close>

definition drainRound :: "'w env \<Rightarrow> cnset \<Rightarrow> string \<Rightarrow> time \<Rightarrow> ('w pod_ctx, unit) rm" where
  "drainRound E cs uid startTime =
     (let sc = sp_scalingConfig (cn_spec cs) in
       bindR (nowR E) (\<lambda>t.
       if t - startTime > GetStoreDrainTimeout sc then completeDraining E
       else
         bindR (attempt (withMOClientSet E cs (drainStep E sc startTime uid))) (\<lambda>r. case r of
           Inl e \<Rightarrow> if notExists e then completeDraining E else throw e
         | Inr (conn, lock) \<Rightarrow>
             if conn \<and> lock then completeDraining E
             else
               bindR (nowR E) (\<lambda>t.
               bindR (if t - startTime > storeDrainTakesLongDuration then diagnosisDraining E else ret ()) (\<lambda>_.
               ErrReSync ''wait for CN store draining'' retryInterval)))))"

definition OnPreparingStop :: "'w env \<Rightarrow> cnset \<Rightarrow> ('w pod_ctx, unit) rm" where
  "OnPreparingStop E cs =
     bindR getObj (\<lambda>p.
     bindR (modObj ensureAnnos) (\<lambda>_.
     bindR (wrapE ''patch pod readiness'' (patchCNReadiness E ConditionFalse messageCNPrepareStop)) (\<lambda>_.
     if \<not> GetStoreDrainEnabled (sp_scalingConfig (cn_spec cs)) then completeDraining E
     else bindR (drainStart E) (drainRound E cs (GetCNPodUUID E p)))))"

definition OnPreparingUpdate :: "'w env \<Rightarrow> cnset \<Rightarrow> ('w pod_ctx, unit) rm" where
  "OnPreparingUpdate E cs =
     (if sp_pauseUpdate (cn_spec cs) then completeDraining E else OnPreparingStop E cs)"

definition OnCordon :: "'w env \<Rightarrow> cnset \<Rightarrow> ('w pod_ctx, unit) rm" where
  "OnCordon E cs =
     bindR getObj (\<lambda>p.
     bindR (wrapE ''error cordon cn store'' (withMOClientSet E cs (\<lambda>h.
              callW (mo_patchCNStore (e_mo E) h
                \<lparr>sl_uuid = GetCNPodUUID E p, sl_state = WorkState_Draining, sl_labels = None\<rparr>)))) (\<lambda>_.
     patchCNReadiness E ConditionFalse messageCNCordon))"

subsection \<open>The pool life cycle\<close>

definition patchPhase :: "'w env \<Rightarrow> string \<Rightarrow> ('w pod_ctx, unit) rm" where
  "patchPhase E phase = wrapE ''error patch CN phase idle'' (patchPodM E (putLabel CNPodPhaseLabel phase))"

definition evictLabels :: "gomap \<Rightarrow> gomap" where
  "evictLabels ls =
     (let ls = (the (gmake ls))(CNPodPhaseLabel \<mapsto> CNPodPhaseTerminating) in
      Some (if gstr (Some ls) DirectPodLabel \<noteq> [] then ls(LifecycleStateKey \<mapsto> LifecycleStatePreparingDelete) else ls))"

text \<open>\<^verbatim>\<open>evictPoolPodGracefully\<close> patches a copy: the object of the context stays as it is.\<close>

definition evictPoolPodGracefully :: "'w env \<Rightarrow> pod \<Rightarrow> ('w pod_ctx, unit) rm" where
  "evictPoolPodGracefully E p =
     bindR (callW (api_patch (e_pods E) p (p\<lparr>pod_labels := evictLabels (pod_labels p)\<rparr>))) (\<lambda>_. ret ())"

definition recycleLabels :: "pod \<Rightarrow> err + pod" where
  "recycleLabels p = putLabel CNPodPhaseLabel CNPodPhaseIdle (p\<lparr>pod_annos := gdel ReclaimedAt (pod_annos p)\<rparr>)"

text \<open>The Draining case of \<^verbatim>\<open>poolingCNReconcile\<close>; the clock is read before each comparison.\<close>

definition poolDraining :: "'w env \<Rightarrow> cnset \<Rightarrow> pod \<Rightarrow> ('w pod_ctx, unit) rm" where
  "poolDraining E cs p =
     (case gget (pod_annos p) ReclaimedAt of
        None \<Rightarrow> patchPhase E CNPodPhaseIdle
      | Some timeStr \<Rightarrow>
        bindR (liftE (e_parseTime E timeStr)) (\<lambda>parsed.
        bindR (nowR E) (\<lambda>t1.
        if t1 - parsed > GetStoreDrainTimeout (sp_scalingConfig (cn_spec cs)) then evictPoolPodGracefully E p
        else
          bindR (nowR E) (\<lambda>t2.
          bindR (if t2 - parsed > storeDrainTakesLongDuration then diagnosisDraining E else ret ()) (\<lambda>_.
          bindR (nowR E) (\<lambda>t3.
          if t3 - parsed < GetMinDelayDuration (sp_scalingConfig (cn_spec cs))
          then ErrReSync ''wait min delay duration'' retryInterval
          else
            bindR getObj (\<lambda>p.
            bindR (wrapE ''error get store connection count'' (liftE (GetStoreScore E p))) (\<lambda>sc.
            if IsSafeToReclaim sc then
              (if gget (pod_annos p) DeleteOnReclaimAnno \<noteq> None then evictPoolPodGracefully E p
               else if gget (pod_labels p) DirectPodLabel \<noteq> None then evictPoolPodGracefully E p
               else patchPodM E recycleLabels)
            else ErrReSync ''store is still draining'' retryInterval)))))))) "

definition poolingCNReconcile :: "'w env \<Rightarrow> cnset \<Rightarrow> ('w pod_ctx, unit) rm" where
  "poolingCNReconcile E cs =
     bindR getObj (\<lambda>p.
     bindR (wrapE ''error call hakeeper'' (withMOClientSet E cs (\<lambda>h.
              bindR (readW (mo_getCN (e_mo E) h (GetCNPodUUID E p))) (\<lambda>r. ret (r \<noteq> None))))) (\<lambda>ready.
     let phase = podLabel p CNPodPhaseLabel in
     if phase = CNPodPhaseDraining then poolDraining E cs p
     else if phase = CNPodPhaseBound \<or> phase = CNPodPhaseIdle
     then patchCNReadiness E ConditionTrue messageCNStoreReady
     else if phase = CNPodPhaseUnknown then
       (if ready then
          bindR (wrapE ''error patch CN phase idle'' (patchPodM E (putLabel CNPodPhaseLabel CNPodPhaseIdle))) (\<lambda>_.
          patchCNReadiness E ConditionTrue messageCNStoreReady)
        else patchCNReadiness E ConditionFalse messageCNStoreNotRegistered)
     else if phase = CNPodPhaseTerminating then ret ()
     else errorf (''unkown CN phase '' @ phase)))"

definition defaultCNNormalReconcile :: "'w env \<Rightarrow> cnset \<Rightarrow> ('w pod_ctx, unit) rm" where
  "defaultCNNormalReconcile E cs =
     bindR getObj (\<lambda>p.
     let uid = GetCNPodUUID E p in
     bindR (case gget (pod_annos p) CNLabelAnnotation of
         None \<Rightarrow> ret []
       | Some str \<Rightarrow> wrapE ''unmarshal CNLabels'' (liftE (e_unmarshalLabels E str))) (\<lambda>cnLabels.
     bindR (attempt (withMOClientSet E cs (\<lambda>h.
         if GetStoreDrainEnabled (sp_scalingConfig (cn_spec cs))
         then callW (mo_patchCNStore (e_mo E) h
                \<lparr>sl_uuid = uid, sl_state = WorkState_Working, sl_labels = Some (ToStoreLabels cnLabels)\<rparr>)
         else callW (mo_updateCNLabel (e_mo E) h uid (Some (ToStoreLabels cnLabels)))))) (\<lambda>r. case r of
       Inl _ \<Rightarrow> ErrReSync ''update cn failed'' retryInterval
     | Inr _ \<Rightarrow> patchCNReadiness E ConditionTrue messageCNStoreReady)))"

text \<open>\<^verbatim>\<open>recon.ErrReSync\<close> without a duration is written with duration 0.\<close>

definition OnNormal :: "'w env \<Rightarrow> cnset \<Rightarrow> ('w pod_ctx, unit) rm" where
  "OnNormal E cs =
     bindR (wrapE ''ensure finalizers for CNStore Pod'' (patchObj (api_patch (e_pods E)) addFinalizer)) (\<lambda>_.
     bindR (modObj ensureAnnos) (\<lambda>_.
     bindR (wrapE ''removing CN draining start time'' (patchObj (api_patch (e_pods E))
              (\<lambda>p. p\<lparr>pod_annos := gdel StoreDrainingStartAnno (pod_annos p)\<rparr>))) (\<lambda>_.
     bindR getObj (\<lambda>p.
     if gget (pod_labels p) DirectPodLabel \<noteq> None \<and>
        (podLabel p CNPodPhaseLabel = CNPodPhaseIdle \<or> podLabel p SpecifiedDeleteKey \<noteq> [])
     then bindR (patchPodM E (putLabel LifecycleStateKey LifecycleStatePreparingDelete)) (\<lambda>_.
          ErrReSync ''direct pod is idle, transfer to preparing delete'' 0)
     else if IsPoolingPolicy p then poolingCNReconcile E cs
     else defaultCNNormalReconcile E cs))))"

subsection \<open>Statistics\<close>

definition countSession :: "semver \<Rightarrow> session \<Rightarrow> bool" where
  "countSession v ss =
     (if HasMOFeature v MOFeatureSessionSource then ss_fromProxy ss
      else ss_account ss \<noteq> [] \<and> ss_account ss \<noteq> ''sys'')"

definition getSessionCount :: "'w env \<Rightarrow> string \<Rightarrow> semver \<Rightarrow> (('o, 'w) ctx, int) rm" where
  "getSessionCount E addr v =
     bindR (wrapE ''show processlist'' (callW (q_showProcessList (e_mo E) addr))) (\<lambda>ss.
     ret (int (length (filter (countSession v) ss))))"

definition getPipelineCount :: "'w env \<Rightarrow> string \<Rightarrow> (('o, 'w) ctx, int) rm" where
  "getPipelineCount E addr = wrapE ''get pipeline info'' (callW (q_getPipelineInfo (e_mo E) addr))"

definition getReplicaCount :: "'w env \<Rightarrow> string \<Rightarrow> (('o, 'w) ctx, int) rm" where
  "getReplicaCount E addr = wrapE ''get replica count'' (callW (q_getReplicaCount (e_mo E) addr))"

text \<open>A count is recorded, with its observed flag, only when its query succeeded.\<close>

definition recordQuery :: "stat \<Rightarrow> (('o, 'w) ctx, int) rm \<Rightarrow> store_score \<Rightarrow> (('o, 'w) ctx, store_score) rm" where
  "recordQuery k m sc =
     bindR (attempt m) (\<lambda>r. case r of Inl _ \<Rightarrow> ret sc | Inr n \<Rightarrow> ret (recordStat k n sc))"

definition collectQueryStats :: "'w env \<Rightarrow> store_score \<Rightarrow> string \<Rightarrow> semver \<Rightarrow> (('o, 'w) ctx, store_score) rm" where
  "collectQueryStats E sc addr v =
     bindR (recordQuery StatSession (getSessionCount E addr v) sc) (\<lambda>sc.
     bindR (if HasMOFeature v MOFeaturePipelineInfo
            then recordQuery StatPipeline (getPipelineCount E addr) sc
            else ret (recordStat StatPipeline 0 sc)) (\<lambda>sc.
     if HasMOFeature v MOFeatureShardingMigration
     then recordQuery StatReplica (getReplicaCount E addr) sc
     else ret (recordStat StatReplica 0 sc)))"

definition statsPatch :: "'w env \<Rightarrow> store_score \<Rightarrow> pod \<Rightarrow> err + pod" where
  "statsPatch E sc p = (case SetStoreScore E sc p of
      Inl e \<Rightarrow> Inl e
    | Inr p \<Rightarrow> Inr (p\<lparr>
        pod_annos := Some ((the (gmake (pod_annos p)))
          (DeletionCostAnno \<mapsto> goItoa (GenDeletionCost sc),
           StoreConnectionAnno \<mapsto> goItoa (sc_pipelineCount sc + sc_sessionCount sc))),
        pod_labels := Some ((the (gmake (pod_labels p)))(CNUUIDLabelKey \<mapsto> GetCNPodUUID E p))\<rparr>))"

definition patchStoreStats :: "'w env \<Rightarrow> store_score \<Rightarrow> ('w pod_ctx, unit) rm" where
  "patchStoreStats E sc = wrapE ''error patch stats to pod anno'' (patchPodM E (statsPatch E sc))"

definition syncStats :: "'w env \<Rightarrow> cnset \<Rightarrow> ('w pod_ctx, unit) rm" where
  "syncStats E cs =
     bindR getObj (\<lambda>p.
     case GetCNStartedTime p of
       None \<Rightarrow> errorf ''CN not started''
     | Some startedTime \<Rightarrow>
       let previous = (case GetStoreScore E p of Inl _ \<Rightarrow> emptyScore | Inr s \<Rightarrow> s);
           sc = BeginObservation startedTime previous;
           uid = GetCNPodUUID E p;
           moVersion = GetSemanticVersion E (pod_annos p)
       in
         bindR (attempt (withMOClientSet E cs (\<lambda>h.
             bindR (readW (mo_getCN (e_mo E) h uid)) (\<lambda>r. case r of
               None \<Rightarrow> errorf (''CN with uuid '' @ uid @ '' not found'')
             | Some cn \<Rightarrow> ret (sv_queryAddress cn))))) (\<lambda>r. case r of
           Inl _ \<Rightarrow> patchStoreStats E sc
         | Inr queryAddress \<Rightarrow>
             bindR (collectQueryStats E sc queryAddress moVersion) (\<lambda>sc.
             patchStoreStats E sc)))"

subsection \<open>Observe\<close>

definition StoreObserve :: "'w env \<Rightarrow> ('w pod_ctx, unit) rm" where
  "StoreObserve E =
     bindR getObj (\<lambda>p.
     if pod_deleted p \<noteq> None then OnDeleted E
     else
       bindR (wrapE ''error resolve CNSet'' (ResolveCNSet E p)) (\<lambda>cs.
       bindR (attempt (syncStats E cs)) (\<lambda>_.
       bindR getObj (\<lambda>p.
       if gget (pod_annos p) StoreCordonAnno \<noteq> None then OnCordon E cs
       else if podLabel p LifecycleStateKey = LifecycleStatePreparingUpdate then OnPreparingUpdate E cs
       else if podLabel p LifecycleStateKey = LifecycleStatePreparingDelete then OnPreparingStop E cs
       else bindR (OnNormal E cs) (\<lambda>_. ErrReSync ''resync'' resyncInterval)))))"

definition StoreFinalize :: "'w env \<Rightarrow> ('w pod_ctx, bool) rm" where
  "StoreFinalize E = bindR (StoreObserve E) (\<lambda>_. ret True)"

subsection \<open>Which events are reconciled\<close>

text \<open>The new annotations as the list of pairs a \<^verbatim>\<open>range\<close> visits.\<close>

definition annotationChanged :: "gomap \<Rightarrow> (string \<times> string) list \<Rightarrow> bool" where
  "annotationChanged oldAnnos newAnnos = list_ex (\<lambda>(k, v).
     \<not> (k = DeletionCostAnno \<or> k = StoreConnectionAnno \<or> k = StoreScoreAnno) \<and> gstr oldAnnos k \<noteq> v) newAnnos"

definition deletedChanged :: "pod \<Rightarrow> pod \<Rightarrow> bool" where
  "deletedChanged oldP newP \<longleftrightarrow> pod_deleted newP \<noteq> pod_deleted oldP"

definition isCNPod :: "pod \<Rightarrow> bool" where
  "isCNPod p \<longleftrightarrow> gget (pod_labels p) ComponentLabelKey = Some ''CNSet''"

section \<open>What the handlers send\<close>

lemma patchPodM_log:
  fixes s :: "'w lworld pod_ctx"
  assumes "patchPodM (logged E) f s = (r, s')"
  obtains (failed) e where "f (Obj s) = Inl e" and "logOf s' = logOf s"
  | (sent) y where "f (Obj s) = Inr y" and "logOf s' = PodW (WPatch (Obj s) y) # logOf s"
proof (cases "f (Obj s)")
  case (Inl e)
  with assms failed show thesis by (simp add: patchPodM_def)
next
  case (Inr y)
  obtain a b where "api_patch (e_pods E) (Obj s) y (fst (world s)) = (a, b)" by fastforce
  with Inr assms have "logOf s' = PodW (WPatch (Obj s) y) # logOf s"
    by (cases a) (auto simp: patchPodM_def patchObj_def writeL_def)
  with Inr sent show thesis by blast
qed

lemma patchPodM_sends [sendsR]:
  assumes "\<And>x. P x" and "\<And>x y. f x = Inr y \<Longrightarrow> ok (PodW (WPatch x y))"
  shows "onlySends P ok (patchPodM (logged E) f)"
  by (rule onlySendsI, erule patchPodM_log) (auto simp: assms)

lemma withMOClientSet_sends [sendsR]:
  "(\<And>h. onlySends P ok (fn h)) \<Longrightarrow> onlySends P ok (withMOClientSet (logged E) cs fn)"
  unfolding withMOClientSet_def by (rule sendsR | simp only: send_simps | assumption)+

lemma patchCNReadiness_sends [sendsR]:
  "(\<And>x. P x) \<Longrightarrow> (\<And>x now. ok (PodW (WPatchStatus x (readinessPatch st msg now x)))) \<Longrightarrow>
     onlySends P ok (patchCNReadiness (logged E) st msg)"
  unfolding patchCNReadiness_def by (rule sendsR | simp only: send_simps | simp)+

text \<open>Letting a pod go: the draining finalizer is removed.\<close>

fun releases :: "event \<Rightarrow> bool" where
  "releases (PodW (WPatch p p')) =
     (CNDrainingFinalizer \<in> set (pod_finalizers p) \<and> CNDrainingFinalizer \<notin> set (pod_finalizers p'))"
| "releases _ = False"

fun restarts :: "event \<Rightarrow> bool" where
  "restarts (RestartW h u) = True"
| "restarts _ = False"

fun phaseChange :: "event \<Rightarrow> bool" where
  "phaseChange (PodW (WPatch p p')) = (podLabel p' CNPodPhaseLabel \<noteq> podLabel p CNPodPhaseLabel)"
| "phaseChange _ = False"

lemma putAnno_keeps: "putAnno k v p = Inr p' \<Longrightarrow> pod_finalizers p' = pod_finalizers p \<and> pod_labels p' = pod_labels p"
  by (auto simp: putAnno_def split: option.splits)

lemma handleConnectionDraining_sends:
  "never releases (handleConnectionDraining (logged E) uid h)" "never restarts (handleConnectionDraining (logged E) uid h)"
  unfolding handleConnectionDraining_def by (rule sendsR | simp only: send_simps | simp)+

lemma handleLockMigration_sends: "never releases (handleLockMigration (logged E) uid h)"
  unfolding handleLockMigration_def by (rule sendsR | simp only: send_simps | simp)+

lemma drainStart_sends: "never releases (drainStart (logged E))" "never restarts (drainStart (logged E))"
  unfolding drainStart_def by (rule sendsR | simp only: send_simps | simp | auto dest: putAnno_keeps)+

lemma diagnosisDraining_sends:
  "never releases (diagnosisDraining (logged E))" "never restarts (diagnosisDraining (logged E))"
  "never phaseChange (diagnosisDraining (logged E))"
  unfolding diagnosisDraining_def by (rule sendsR | simp only: send_simps | simp)+

lemma completeDraining_sends: "never restarts (completeDraining (logged E))"
  unfolding completeDraining_def by (rule sendsR | simp only: send_simps | simp)+

lemma drainStep_sends: "never releases (drainStep (logged E) sc t uid h)"
  unfolding drainStep_def
  by (rule sendsR handleConnectionDraining_sends handleLockMigration_sends | simp only: send_simps)+

section \<open>Statistics\<close>

lemma recordQuery_cases:
  assumes "recordQuery k m sc s = (Inr sc', s')"
  obtains (observed) n where "m s = (Inr n, s')" and "sc' = recordStat k n sc"
  | (failed) e where "m s = (Inl e, s')" and "sc' = sc"
  using assms by (auto simp: recordQuery_def monad_simps split: prod.splits sum.splits if_splits)

text \<open>The observations one query contributes.\<close>

definition obsOf :: "stat \<Rightarrow> err + int \<Rightarrow> (stat \<times> int) list" where
  "obsOf k r = (case r of Inl _ \<Rightarrow> [] | Inr n \<Rightarrow> [(k, n)])"

lemma recordQuery_obs:
  "recordQuery k m sc s = (Inr sc', s') \<Longrightarrow>
     sc' = fold (\<lambda>(k, n). recordStat k n) (obsOf k (fst (m s))) sc \<and> s' = snd (m s)"
  by (erule recordQuery_cases) (simp_all add: obsOf_def)

text \<open>\<^verbatim>\<open>collectQueryStats\<close>, \<^verbatim>\<open>IsSafeToReclaim\<close>: a CN may be reclaimed only on complete evidence of
  this round. A round started by \<^verbatim>\<open>BeginObservation\<close> authorises reclaim exactly when the process
  list was read and shows no session that counts, and the pipeline and replica counts were read as
  0, or are not needed because the version has no such feature; whatever the score said before.\<close>

theorem collect_safe_iff:
  assumes run: "collectQueryStats E (BeginObservation t sc0) addr v s = (Inr sc, s')"
  shows "IsSafeToReclaim sc \<longleftrightarrow>
    (\<exists>ss w1 w2. q_showProcessList (e_mo E) addr (world s) = (Inr ss, w1) \<and> filter (countSession v) ss = [] \<and>
       (if HasMOFeature v MOFeaturePipelineInfo
        then q_getPipelineInfo (e_mo E) addr w1 = (Inr 0, w2) else w2 = w1) \<and>
       (if HasMOFeature v MOFeatureShardingMigration
        then fst (q_getReplicaCount (e_mo E) addr w2) = Inr 0 else True))"
proof -
  let ?r1 = "getSessionCount E addr v s"
  let ?r2 = "if HasMOFeature v MOFeaturePipelineInfo then getPipelineCount E addr (snd ?r1) else (Inr 0, snd ?r1)"
  let ?r3 = "if HasMOFeature v MOFeatureShardingMigration then getReplicaCount E addr (snd ?r2) else (Inr 0, snd ?r2)"
  from run obtain sc1 s1 sc2 s2 where
    a: "recordQuery StatSession (getSessionCount E addr v) (BeginObservation t sc0) s = (Inr sc1, s1)"
    and b: "(if HasMOFeature v MOFeaturePipelineInfo then recordQuery StatPipeline (getPipelineCount E addr) sc1
             else ret (recordStat StatPipeline 0 sc1)) s1 = (Inr sc2, s2)"
    and c: "(if HasMOFeature v MOFeatureShardingMigration then recordQuery StatReplica (getReplicaCount E addr) sc2
             else ret (recordStat StatReplica 0 sc2)) s2 = (Inr sc, s')"
    by (auto simp: collectQueryStats_def elim!: bindR_InrE)
  have b': "sc2 = fold (\<lambda>(k, n). recordStat k n) (obsOf StatPipeline (fst ?r2)) sc1" "s2 = snd ?r2"
    using b recordQuery_obs[OF a] recordQuery_obs[of StatPipeline "getPipelineCount E addr" sc1 s1 sc2 s2]
    by (auto simp: ret_def obsOf_def split: if_splits)
  have c': "sc = fold (\<lambda>(k, n). recordStat k n) (obsOf StatReplica (fst ?r3)) sc2"
    using c b'(2) recordQuery_obs[of StatReplica "getReplicaCount E addr" sc2 s2 sc s']
    by (auto simp: ret_def obsOf_def split: if_splits)
  have "IsSafeToReclaim sc \<longleftrightarrow> fst ?r1 = Inr 0 \<and> fst ?r2 = Inr 0 \<and> fst ?r3 = Inr 0"
    using score.round_safe_iff[of "obsOf StatSession (fst ?r1) @ obsOf StatPipeline (fst ?r2) @ obsOf StatReplica (fst ?r3)" t sc0]
      recordQuery_obs[OF a] b' c'
    unfolding stat_all by (cases "fst ?r1"; cases "fst ?r2"; cases "fst ?r3") (simp_all add: obsOf_def)
  also have "\<dots> \<longleftrightarrow> (\<exists>ss w1 w2. q_showProcessList (e_mo E) addr (world s) = (Inr ss, w1) \<and> filter (countSession v) ss = [] \<and>
       (if HasMOFeature v MOFeaturePipelineInfo
        then q_getPipelineInfo (e_mo E) addr w1 = (Inr 0, w2) else w2 = w1) \<and>
       (if HasMOFeature v MOFeatureShardingMigration
        then fst (q_getReplicaCount (e_mo E) addr w2) = Inr 0 else True))"
    by (auto simp: getSessionCount_def getPipelineCount_def getReplicaCount_def monad_simps
        split: prod.splits sum.splits if_splits)
  finally show ?thesis .
qed

theorem collect_safe_iff_witness:
  "\<exists>sc s'. collectQueryStats memEnv (BeginObservation 5 emptyScore) ''q'' \<lparr>Major = 2, Minor = 0, Patch = 0\<rparr>
       \<lparr>Obj = samplePod ''p'', world = (sampleWorld [] [])\<lparr>m_sessions := [], m_pipelines := 0, m_shards := 0\<rparr>\<rparr> = (Inr sc, s') \<and>
     IsSafeToReclaim sc"
proof -
  let ?s = "\<lparr>Obj = samplePod ''p'', world = (sampleWorld [] [])\<lparr>m_sessions := [], m_pipelines := 0, m_shards := 0\<rparr>\<rparr>"
  let ?v = "\<lparr>Major = 2, Minor = 0, Patch = 0\<rparr>"
  obtain r s' where run: "collectQueryStats memEnv (BeginObservation 5 emptyScore) ''q'' ?v ?s = (r, s')" by fastforce
  moreover have "\<exists>sc. r = Inr sc" using run
    by (auto simp: collectQueryStats_def recordQuery_def getSessionCount_def getPipelineCount_def getReplicaCount_def
        monad_simps mem_defs split: if_splits)
  ultimately obtain sc where run: "collectQueryStats memEnv (BeginObservation 5 emptyScore) ''q'' ?v ?s = (Inr sc, s')" by blast
  with collect_safe_iff[OF run] show ?thesis by (auto simp: mem_defs)
qed

section \<open>Draining\<close>

text \<open>The drain was confirmed: the score on the pod is safe, the minimal delay has passed, and the
  lock service of the store agreed, in this order, before the state \<open>s'\<close>.\<close>

definition drainConfirmed :: "'w env \<Rightarrow> scaling_config \<Rightarrow> string \<Rightarrow> time \<Rightarrow> 'w pod_ctx \<Rightarrow> 'w pod_ctx \<Rightarrow> bool" where
  "drainConfirmed E sc uid start s s' \<longleftrightarrow>
     (\<exists>score. GetStoreScore E (Obj s) = Inr score \<and> IsSafeToReclaim score) \<and>
     (\<exists>h s1 s2 t s3. Obj s1 = Obj s \<and> handleConnectionDraining E uid h s1 = (Inr True, s2) \<and>
        nowR E s2 = (Inr t, s3) \<and> t - start \<ge> GetMinDelayDuration sc \<and>
        handleLockMigration E uid h s3 = (Inr True, s'))"

lemma handleConnectionDraining_safe:
  "handleConnectionDraining E uid h s = (Inr True, s') \<Longrightarrow> \<exists>score. GetStoreScore E (Obj s) = Inr score \<and> IsSafeToReclaim score"
  unfolding handleConnectionDraining_def
  by (auto simp: getObj_def ret_def liftE_def callW_def throw_def elim!: bindR_InrE split: prod.splits sum.splits)

lemma withMOClientSet_cases:
  fixes s :: "'w pod_ctx"
  assumes "withMOClientSet E cs fn s = (Inr x, s')"
  obtains h s1 where "fn h s1 = (Inr x, s')" and "Obj s1 = Obj s"
  using assms
  by (auto simp: withMOClientSet_def ResolveLogSet_def monad_simps split: prod.splits sum.splits if_splits option.splits)

lemma drainStep_done:
  fixes s :: "'w pod_ctx"
  assumes "withMOClientSet E cs (drainStep E sc start uid) s = (Inr (True, True), s')"
  shows "drainConfirmed E sc uid start s s'"
proof -
  from assms obtain h s1 where "drainStep E sc start uid h s1 = (Inr (True, True), s')" and O: "Obj s1 = Obj s"
    by (rule withMOClientSet_cases)
  then obtain conn s2 t s3 where c: "handleConnectionDraining E uid h s1 = (Inr conn, s2)" and n: "nowR E s2 = (Inr t, s3)"
    and rest: "(if t - start < GetMinDelayDuration sc
       then ErrReSync ''wait min-delay for CN draining state get propagated'' (GetMinDelayDuration sc)
       else if \<not> conn then ret (False, False)
       else bindR (handleLockMigration E uid h) (\<lambda>lock. ret (True, lock))) s3 = (Inr (True, True), s')"
    unfolding drainStep_def by (elim bindR_InrE)
  from rest have late: "t - start \<ge> GetMinDelayDuration sc" and conn: conn
    and lock: "handleLockMigration E uid h s3 = (Inr True, s')"
    by (auto simp: ErrReSync_def ret_def throw_def elim!: bindR_InrE split: if_splits)
  with c have c': "handleConnectionDraining E uid h s1 = (Inr True, s2)" by simp
  from handleConnectionDraining_safe[OF this] c' late lock n O show ?thesis
    unfolding drainConfirmed_def by metis
qed

lemma drainRound_releases:
  fixes s :: "'w lworld pod_ctx"
  assumes clean: "clean releases s" and run: "drainRound (logged E) cs uid start s = (r, s')" and dirty: "\<not> clean releases s'"
  shows "\<exists>t s1 s2. nowR (logged E) s = (Inr t, s1) \<and> completeDraining (logged E) s2 = (r, s') \<and>
       (t - start > GetStoreDrainTimeout (sp_scalingConfig (cn_spec cs)) \<and> s2 = s1 \<or>
        (\<exists>e. withMOClientSet (logged E) cs (drainStep (logged E) (sp_scalingConfig (cn_spec cs)) start uid) s1
             = (Inl e, s2) \<and> notExists e) \<or>
        drainConfirmed (logged E) (sp_scalingConfig (cn_spec cs)) uid start s1 s2)"
proof -
  let ?sc = "sp_scalingConfig (cn_spec cs)"
  let ?m = "withMOClientSet (logged E) cs (drainStep (logged E) ?sc start uid)"
  let ?k = "\<lambda>r. case r of
           Inl e \<Rightarrow> if notExists e then completeDraining (logged E) else throw e
         | Inr (conn, lock) \<Rightarrow>
             if conn \<and> lock then completeDraining (logged E)
             else
               bindR (nowR (logged E)) (\<lambda>t.
               bindR (if t - start > storeDrainTakesLongDuration then diagnosisDraining (logged E) else ret ()) (\<lambda>_.
               ErrReSync ''wait for CN store draining'' retryInterval))"
  from run obtain t s1 where n: "nowR (logged E) s = (Inr t, s1)" and c: "clean releases s1"
    and rest: "(if t - start > GetStoreDrainTimeout ?sc then completeDraining (logged E)
       else bindR (attempt ?m) ?k) s1 = (r, s')"
    unfolding drainRound_def Let_def by (elim clean_bindE[OF _ dirty]) (assumption | rule clean sendsR)+
  show ?thesis
  proof (cases "t - start > GetStoreDrainTimeout ?sc")
    case False
    with rest have "bindR (attempt ?m) ?k s1 = (r, s')" by simp
    then obtain x s2 where x: "attempt ?m s1 = (Inr x, s2)" and c2: "clean releases s2" and k: "?k x s2 = (r, s')"
      by (elim clean_bindE[OF _ dirty]) (assumption | rule c drainStep_sends sendsR)+
    show ?thesis
    proof (cases x)
      case (Inl e)
      with x have m: "?m s1 = (Inl e, s2)" by (auto simp: attempt_def split: prod.splits sum.splits if_splits)
      have "notExists e" "completeDraining (logged E) s2 = (r, s')"
        using k Inl c2 dirty by (auto simp: throw_def split: if_splits)
      with m n show ?thesis by blast
    next
      case (Inr cl)
      obtain conn lock where cl: "cl = (conn, lock)" by fastforce
      have wait: "never releases (bindR (nowR (logged E)) (\<lambda>t.
          bindR (if t - start > storeDrainTakesLongDuration then diagnosisDraining (logged E) else ret ()) (\<lambda>_.
          ErrReSync ''wait for CN store draining'' retryInterval)) :: ('w lworld pod_ctx, unit) rm)"
        by (rule sendsR diagnosisDraining_sends)+
      have conf: "conn \<and> lock" and fin: "completeDraining (logged E) s2 = (r, s')"
        using k Inr cl clean_run[OF wait c2] dirty by (auto split: if_splits)
      with x Inr cl have "?m s1 = (Inr (True, True), s2)" by (auto simp: attempt_Inr_iff)
      with n fin show ?thesis by (blast dest: drainStep_done)
    qed
  qed (use n rest in auto)
qed

text \<open>C5 (\<^verbatim>\<open>OnPreparingStop\<close>): a CN pod is let go, that is its draining finalizer is removed, only if
  draining is off for its CN set, or the drain has taken longer than the store drain timeout, or the
  drain step failed because the store does not exist, or the drain was confirmed: the score on the pod
  was safe to reclaim, then the minimal delay had passed, then the lock service agreed to the restart.
  The conclusion names the run: the states reached after the readiness patch, the start of the drain
  and the clock, and the state in which the finalizer was removed.\<close>

theorem preparing_stop_releases:
  fixes s :: "'w lworld pod_ctx"
  assumes clean: "clean releases s" and run: "OnPreparingStop (logged E) cs s = (r, s')" and dirty: "\<not> clean releases s'"
  shows "\<not> GetStoreDrainEnabled (sp_scalingConfig (cn_spec cs)) \<or>
    (\<exists>s1 start s2 t s3 s4.
       patchCNReadiness (logged E) ConditionFalse messageCNPrepareStop (s\<lparr>Obj := ensureAnnos (Obj s)\<rparr>) = (Inr (), s1) \<and>
       drainStart (logged E) s1 = (Inr start, s2) \<and> nowR (logged E) s2 = (Inr t, s3) \<and>
       completeDraining (logged E) s4 = (r, s') \<and>
       (t - start > GetStoreDrainTimeout (sp_scalingConfig (cn_spec cs)) \<and> s4 = s3 \<or>
        (\<exists>e. withMOClientSet (logged E) cs (drainStep (logged E) (sp_scalingConfig (cn_spec cs)) start
             (GetCNPodUUID (logged E) (Obj s))) s3 = (Inl e, s4) \<and> notExists e) \<or>
        drainConfirmed (logged E) (sp_scalingConfig (cn_spec cs)) (GetCNPodUUID (logged E) (Obj s)) start s3 s4))"
proof (cases "GetStoreDrainEnabled (sp_scalingConfig (cn_spec cs))")
  case True
  let ?uid = "GetCNPodUUID (logged E) (Obj s)"
  have ready: "never releases (patchCNReadiness (logged E) st msg)" for st msg by (rule sendsR | simp)+
  from run True obtain s0 s1 start s2 where m: "modObj ensureAnnos s = (Inr (), s0)"
    and p: "wrapE ''patch pod readiness'' (patchCNReadiness (logged E) ConditionFalse messageCNPrepareStop) s0 = (Inr (), s1)"
    and d: "drainStart (logged E) s1 = (Inr start, s2)" and c: "clean releases s2"
    and round: "drainRound (logged E) cs ?uid start s2 = (r, s')"
    unfolding OnPreparingStop_def bindR_Inr[of getObj, OF getObj_def] if_not_P[OF not_not[THEN iffD2, OF True]]
    by (elim clean_bindE[OF _ dirty])
       (assumption | rule clean drainStart_sends ready sendsR | simp)+
  have "patchCNReadiness (logged E) ConditionFalse messageCNPrepareStop (s\<lparr>Obj := ensureAnnos (Obj s)\<rparr>) = (Inr (), s1)"
    using m p by (simp add: modObj_def)
  with d drainRound_releases[OF c round dirty] show ?thesis by blast
qed simp

definition stoppingPod :: pod where
  "stoppingPod = (samplePod ''p'')\<lparr>pod_annos := Some [StoreDrainingStartAnno \<mapsto> ''0''], pod_finalizers := [CNDrainingFinalizer]\<rparr>"

definition stoppingSample :: "mem lworld pod_ctx" where
  "stoppingSample = \<lparr>Obj = stoppingPod, world = (sampleWorld [stoppingPod] [], [])\<rparr>"

theorem preparing_stop_releases_witness:
  "\<not> clean releases (snd (OnPreparingStop (logged memEnv) sampleCNSet stoppingSample)) \<and>
   (\<exists>s1 start s2 t s3. patchCNReadiness (logged memEnv) ConditionFalse messageCNPrepareStop
        (stoppingSample\<lparr>Obj := ensureAnnos stoppingPod\<rparr>) = (Inr (), s1) \<and>
      drainStart (logged memEnv) s1 = (Inr start, s2) \<and> nowR (logged memEnv) s2 = (Inr t, s3))"
proof -
  let ?run = "OnPreparingStop (logged memEnv) sampleCNSet stoppingSample"
  have clean: "clean releases stoppingSample" by (simp add: clean_def stoppingSample_def)
  have dirty: "\<not> clean releases (snd ?run)"
    by (simp add: clean_def OnPreparingStop_def stoppingSample_def stoppingPod_def patchCNReadiness_def readinessPatch_def
        setCNState_def GetReadinessCondition_def ensureAnnos_def drainStart_def drainRound_def completeDraining_def
        clearDraining_def removeFinalizer_def GetStoreDrainEnabled_def GetStoreDrainTimeout_def second_def liftE_def
        nowR_def readL_def writeL_def gmake_def Let_def monad_simps mem_defs sample_defs)
  have "GetStoreDrainEnabled (sp_scalingConfig (cn_spec sampleCNSet))" "Obj stoppingSample = stoppingPod"
    by (simp_all add: sample_defs GetStoreDrainEnabled_def stoppingSample_def)
  with preparing_stop_releases[OF clean surjective_pairing dirty] dirty show ?thesis by auto
qed

text \<open>\<^verbatim>\<open>handleLockMigration\<close>: the lock service of a CN is told to restart, which makes it refuse new
  transactions, only in a drain step whose pod had a score that is safe to reclaim.\<close>

theorem restart_after_safe_score:
  fixes s :: "'w lworld pod_ctx"
  assumes clean: "clean restarts s" and run: "drainStep (logged E) sc start uid h s = (r, s')" and dirty: "\<not> clean restarts s'"
  shows "\<exists>score s1 t s2. GetStoreScore (logged E) (Obj s) = Inr score \<and> IsSafeToReclaim score \<and>
     handleConnectionDraining (logged E) uid h s = (Inr True, s1) \<and>
     nowR (logged E) s1 = (Inr t, s2) \<and> t - start \<ge> GetMinDelayDuration sc"
proof -
  from run obtain conn s1 t s2 where c: "handleConnectionDraining (logged E) uid h s = (Inr conn, s1)"
    and n: "nowR (logged E) s1 = (Inr t, s2)" and c2: "clean restarts s2"
    and rest: "(if t - start < GetMinDelayDuration sc
       then ErrReSync ''wait min-delay for CN draining state get propagated'' (GetMinDelayDuration sc)
       else if \<not> conn then ret (False, False)
       else bindR (handleLockMigration (logged E) uid h) (\<lambda>lock. ret (True, lock))) s2 = (r, s')"
    unfolding drainStep_def
    by (elim clean_bindE[OF _ dirty]) (assumption | rule clean sendsR handleConnectionDraining_sends)+
  have "\<not> t - start < GetMinDelayDuration sc" and conn
    using rest c2 dirty by (auto simp: ErrReSync_def ret_def throw_def split: if_splits)
  with c n handleConnectionDraining_safe[of "logged E" uid h s s1] show ?thesis by fastforce
qed

text \<open>A lock service that has not yet been told to restart, and a pod with a safe score.\<close>

definition safeScore :: store_score where
  "safeScore = emptyScore\<lparr>sc_sessionObserved := True, sc_pipelineObserved := True, sc_replicaObserved := True\<rparr>"

definition drainEnv :: "mem env" where
  "drainEnv = memEnv\<lparr>e_unmarshalScore := (\<lambda>_. Inr safeScore),
     e_mo := memMO\<lparr>mo_canRestartCN := (\<lambda>h u w. (Inr False, w))\<rparr>\<rparr>"

definition scoredPod :: pod where
  "scoredPod = (samplePod ''p'')\<lparr>pod_annos := Some [StoreScoreAnno \<mapsto> ''s'', SemanticVersionAnno \<mapsto> ''2.0.0'']\<rparr>"

definition drainSample :: "mem lworld pod_ctx" where
  "drainSample = \<lparr>Obj = scoredPod, world = (sampleWorld [scoredPod] [], [])\<rparr>"

theorem restart_after_safe_score_witness:
  "\<not> clean restarts (snd (drainStep (logged drainEnv) (sp_scalingConfig sampleCNSetSpec) 0 ''u'' ''h'' drainSample)) \<and>
   (\<exists>score. GetStoreScore (logged drainEnv) scoredPod = Inr score \<and> IsSafeToReclaim score)"
proof -
  let ?run = "drainStep (logged drainEnv) (sp_scalingConfig sampleCNSetSpec) 0 ''u'' ''h'' drainSample"
  have clean: "clean restarts drainSample" by (simp add: clean_def drainSample_def)
  have dirty: "\<not> clean restarts (snd ?run)"
    by (simp add: clean_def drainStep_def drainSample_def scoredPod_def handleConnectionDraining_def GetStoreScore_def
        IsSafeToReclaim_def safeScore_def emptyScore_def drainEnv_def handleLockMigration_def GetSemanticVersion_def
        HasMOFeature_def versionPrecedes_def GetMinDelayDuration_def defaultMinDelaySeconds_def second_def liftE_def
        nowR_def readL_def writeL_def gmake_def Let_def monad_simps mem_defs sample_defs)
  have "Obj drainSample = scoredPod" by (simp add: drainSample_def)
  with restart_after_safe_score[OF clean surjective_pairing dirty] dirty show ?thesis by auto
qed

section \<open>The phases of a pooled pod\<close>

fun phaseTo :: "event \<Rightarrow> string option" where
  "phaseTo (PodW (WPatch p p')) =
     (if podLabel p' CNPodPhaseLabel \<noteq> podLabel p CNPodPhaseLabel then Some (podLabel p' CNPodPhaseLabel) else None)"
| "phaseTo _ = None"

abbreviation phasesTo :: "string set \<Rightarrow> event \<Rightarrow> bool" where
  "phasesTo T e \<equiv> phaseTo e \<in> insert None (Some ` T)"

lemma putLabel_phase: "putLabel CNPodPhaseLabel v x = Inr y \<Longrightarrow> podLabel y CNPodPhaseLabel = v"
  by (auto simp: putLabel_def gput_def split: option.splits)

lemma recycleLabels_phase: "recycleLabels x = Inr y \<Longrightarrow> podLabel y CNPodPhaseLabel = CNPodPhaseIdle"
  unfolding recycleLabels_def by (rule putLabel_phase)

lemma evictLabels_phase: "gstr (evictLabels ls) CNPodPhaseLabel = CNPodPhaseTerminating"
  by (simp add: evictLabels_def Let_def)

lemma patchPhase_sends:
  "onlySends (\<lambda>_. True) (phasesTo {v}) (wrapE m (patchPodM (logged E) (putLabel CNPodPhaseLabel v)))"
  by (rule sendsR | auto dest: putLabel_phase)+

lemma evict_sends: "onlySends (\<lambda>_. True) (phasesTo {CNPodPhaseTerminating}) (evictPoolPodGracefully (logged E) p)"
  unfolding evictPoolPodGracefully_def
  by (rule sendsR | simp only: send_simps | simp add: evictLabels_phase)+

lemma readiness_phase: "never (\<lambda>e. phaseTo e \<noteq> None) (patchCNReadiness (logged E) st msg)"
  by (rule sendsR | simp)+

lemma phase_clean:
  assumes "onlySends (\<lambda>_. True) (phasesTo T) m" and "clean (\<lambda>e. phaseTo e \<noteq> None) s" and "m s = (r, s')"
  shows "\<forall>e \<in> set (logOf s'). phasesTo T e"
  using assms unfolding clean_def by (elim onlySendsD) auto

text \<open>When \<^verbatim>\<open>poolingCNReconcile\<close> may move a Draining pod, and to which phases, in the run that reached
  the state \<open>s\<close>.\<close>

definition leaveDraining :: "'w env \<Rightarrow> cnset \<Rightarrow> pod \<Rightarrow> 'w pod_ctx \<Rightarrow> string set \<Rightarrow> bool" where
  "leaveDraining E cs p s T \<longleftrightarrow>
     gget (pod_annos p) ReclaimedAt = None \<and> T = {CNPodPhaseIdle} \<or>
     (\<exists>str reclaimed t1 s1. gget (pod_annos p) ReclaimedAt = Some str \<and> e_parseTime E str = Inr reclaimed \<and>
        nowR E s = (Inr t1, s1) \<and>
        (t1 - reclaimed > GetStoreDrainTimeout (sp_scalingConfig (cn_spec cs)) \<and> T = {CNPodPhaseTerminating} \<or>
         (\<exists>t2 s2 s3 t3 s4 score. nowR E s1 = (Inr t2, s2) \<and>
            (if t2 - reclaimed > storeDrainTakesLongDuration then diagnosisDraining E else ret ()) s2 = (Inr (), s3) \<and>
            nowR E s3 = (Inr t3, s4) \<and> t3 - reclaimed \<ge> GetMinDelayDuration (sp_scalingConfig (cn_spec cs)) \<and>
            GetStoreScore E (Obj s4) = Inr score \<and> IsSafeToReclaim score \<and>
            T = (if gget (pod_annos (Obj s4)) DeleteOnReclaimAnno \<noteq> None \<or> gget (pod_labels (Obj s4)) DirectPodLabel \<noteq> None
                 then {CNPodPhaseTerminating} else {CNPodPhaseIdle}))))"

lemma liftE_Inr: "liftE (Inr x) = ret x"
  by (simp add: liftE_def)

lemma diagnosis_phase: "never (\<lambda>e. phaseTo e \<noteq> None) (diagnosisDraining (logged E))"
  unfolding diagnosisDraining_def by (rule sendsR | simp only: send_simps | simp)+

lemma recycle_sends: "onlySends (\<lambda>_. True) (phasesTo {CNPodPhaseIdle}) (patchPodM (logged E) recycleLabels)"
  by (rule sendsR | auto dest: recycleLabels_phase)+

lemma poolDraining_phase:
  fixes s :: "'w lworld pod_ctx"
  assumes clean: "clean (\<lambda>e. phaseTo e \<noteq> None) s" and run: "poolDraining (logged E) cs p s = (r, s')"
    and dirty: "\<not> clean (\<lambda>e. phaseTo e \<noteq> None) s'"
  shows "\<exists>T. leaveDraining (logged E) cs p s T \<and> (\<forall>e \<in> set (logOf s'). phasesTo T e)"
proof (cases "gget (pod_annos p) ReclaimedAt")
  case None
  with run have "patchPhase (logged E) CNPodPhaseIdle s = (r, s')" by (simp add: poolDraining_def)
  from phase_clean[OF patchPhase_sends clean this[unfolded patchPhase_def]] None show ?thesis
    by (auto simp: leaveDraining_def)
next
  case (Some str)
  let ?sc = "sp_scalingConfig (cn_spec cs)"
  let ?safe = "\<lambda>p. bindR (wrapE ''error get store connection count'' (liftE (GetStoreScore (logged E) p))) (\<lambda>sc.
            if IsSafeToReclaim sc then
              (if gget (pod_annos p) DeleteOnReclaimAnno \<noteq> None then evictPoolPodGracefully (logged E) p
               else if gget (pod_labels p) DirectPodLabel \<noteq> None then evictPoolPodGracefully (logged E) p
               else patchPodM (logged E) recycleLabels)
            else ErrReSync ''store is still draining'' retryInterval)"
  note step = clean_bindE[OF _ dirty]
  note run = run[unfolded poolDraining_def Some option.case logged_simps]
  obtain reclaimed where parse: "e_parseTime E str = Inr reclaimed"
    using run clean dirty by (cases "e_parseTime E str") (auto simp: liftE_def throw_def monad_simps)
  from run[unfolded parse liftE_Inr bindR_ret] obtain t1 s1 where
    n1: "nowR (logged E) s = (Inr t1, s1)" and c1: "clean (\<lambda>e. phaseTo e \<noteq> None) s1"
    and rest: "(if t1 - reclaimed > GetStoreDrainTimeout ?sc then evictPoolPodGracefully (logged E) p
       else
          bindR (nowR (logged E)) (\<lambda>t2.
          bindR (if t2 - reclaimed > storeDrainTakesLongDuration then diagnosisDraining (logged E) else ret ()) (\<lambda>_.
          bindR (nowR (logged E)) (\<lambda>t3.
          if t3 - reclaimed < GetMinDelayDuration ?sc
          then ErrReSync ''wait min delay duration'' retryInterval
          else bindR getObj ?safe)))) s1 = (r, s')"
    by (elim step) (assumption | rule clean sendsR)+
  show ?thesis
  proof (cases "t1 - reclaimed > GetStoreDrainTimeout ?sc")
    case True
    with rest phase_clean[OF evict_sends c1] have "\<forall>e \<in> set (logOf s'). phasesTo {CNPodPhaseTerminating} e" by simp
    with True Some parse n1 show ?thesis unfolding leaveDraining_def by auto
  next
    case False
    with rest obtain t2 s2 s3 t3 s4 where n2: "nowR (logged E) s1 = (Inr t2, s2)"
      and d: "(if t2 - reclaimed > storeDrainTakesLongDuration then diagnosisDraining (logged E) else ret ()) s2 = (Inr (), s3)"
      and n3: "nowR (logged E) s3 = (Inr t3, s4)" and c4: "clean (\<lambda>e. phaseTo e \<noteq> None) s4"
      and rest: "(if t3 - reclaimed < GetMinDelayDuration ?sc
          then ErrReSync ''wait min delay duration'' retryInterval else bindR getObj ?safe) s4 = (r, s')"
      unfolding if_not_P[OF False]
      by (elim step) (assumption | rule c1 diagnosis_phase sendsR | simp)+
    have late: "t3 - reclaimed \<ge> GetMinDelayDuration ?sc" and "?safe (Obj s4) s4 = (r, s')"
      using rest c4 dirty by (auto simp: ErrReSync_def throw_def bindR_Inr[of getObj, OF getObj_def] split: if_splits)
    then obtain score where score: "GetStoreScore (logged E) (Obj s4) = Inr score"
      and rest: "(if IsSafeToReclaim score then
              (if gget (pod_annos (Obj s4)) DeleteOnReclaimAnno \<noteq> None then evictPoolPodGracefully (logged E) (Obj s4)
               else if gget (pod_labels (Obj s4)) DirectPodLabel \<noteq> None then evictPoolPodGracefully (logged E) (Obj s4)
               else patchPodM (logged E) recycleLabels)
            else ErrReSync ''store is still draining'' retryInterval) s4 = (r, s')"
      using c4 dirty by (auto simp: liftE_def monad_simps split: sum.splits prod.splits)
    let ?out = "gget (pod_annos (Obj s4)) DeleteOnReclaimAnno \<noteq> None \<or> gget (pod_labels (Obj s4)) DirectPodLabel \<noteq> None"
    have safe: "IsSafeToReclaim score" using rest c4 dirty by (auto simp: ErrReSync_def throw_def split: if_splits)
    have "\<forall>e \<in> set (logOf s'). phasesTo (if ?out then {CNPodPhaseTerminating} else {CNPodPhaseIdle}) e"
    proof (cases ?out)
      case True
      with rest safe phase_clean[OF evict_sends c4] show ?thesis by (auto split: if_splits)
    next
      case False
      with rest safe have "patchPodM (logged E) recycleLabels s4 = (r, s')" by simp
      from phase_clean[OF recycle_sends c4 this] False show ?thesis by simp
    qed
    moreover have "leaveDraining (logged E) cs p s (if ?out then {CNPodPhaseTerminating} else {CNPodPhaseIdle})"
    proof -
      have "e_parseTime (logged E) str = Inr reclaimed" using parse by simp
      with Some n1 n2 d n3 late score safe show ?thesis unfolding leaveDraining_def by blast
    qed
    ultimately show ?thesis by blast
  qed
qed

text \<open>C6 (\<^verbatim>\<open>poolingCNReconcile\<close>): the CN store controller changes the phase of a pooled pod only in
  two situations. A pod read as Unknown becomes Idle, and only if HAKeeper knows its store. A pod read
  as Draining becomes Idle if it carries no reclaim time, Terminating if the drain timed out, and
  otherwise, only after the minimal delay and on a score that is safe to reclaim, Terminating if it is
  to be deleted on reclaim or is a direct pod and Idle if not.\<close>

theorem pooling_phase_steps:
  fixes s :: "'w lworld pod_ctx"
  assumes clean: "clean (\<lambda>e. phaseTo e \<noteq> None) s" and run: "poolingCNReconcile (logged E) cs s = (r, s')"
    and dirty: "\<not> clean (\<lambda>e. phaseTo e \<noteq> None) s'"
  shows "\<exists>ready s1. withMOClientSet (logged E) cs (\<lambda>h.
        bindR (readW (mo_getCN (e_mo (logged E)) h (GetCNPodUUID (logged E) (Obj s)))) (\<lambda>r. ret (r \<noteq> None))) s = (Inr ready, s1) \<and>
     (podLabel (Obj s) CNPodPhaseLabel = CNPodPhaseUnknown \<and> ready \<and> (\<forall>e \<in> set (logOf s'). phasesTo {CNPodPhaseIdle} e) \<or>
      podLabel (Obj s) CNPodPhaseLabel = CNPodPhaseDraining \<and>
        (\<exists>T. leaveDraining (logged E) cs (Obj s) s1 T \<and> (\<forall>e \<in> set (logOf s'). phasesTo T e)))"
proof -
  let ?p = "Obj s" and ?phase = "podLabel (Obj s) CNPodPhaseLabel"
  let ?reg = "bindR (wrapE ''error patch CN phase idle'' (patchPodM (logged E) (putLabel CNPodPhaseLabel CNPodPhaseIdle))) (\<lambda>_.
          patchCNReadiness (logged E) ConditionTrue messageCNStoreReady)"
  from run obtain ready s1 where w: "withMOClientSet (logged E) cs (\<lambda>h.
        bindR (readW (mo_getCN (e_mo (logged E)) h (GetCNPodUUID (logged E) ?p))) (\<lambda>r. ret (r \<noteq> None))) s = (Inr ready, s1)"
    and c1: "clean (\<lambda>e. phaseTo e \<noteq> None) s1"
    and rest: "(if ?phase = CNPodPhaseDraining then poolDraining (logged E) cs ?p
     else if ?phase = CNPodPhaseBound \<or> ?phase = CNPodPhaseIdle
     then patchCNReadiness (logged E) ConditionTrue messageCNStoreReady
     else if ?phase = CNPodPhaseUnknown then
       (if ready then ?reg else patchCNReadiness (logged E) ConditionFalse messageCNStoreNotRegistered)
     else if ?phase = CNPodPhaseTerminating then ret ()
     else errorf (''unkown CN phase '' @ ?phase)) s1 = (r, s')"
    unfolding poolingCNReconcile_def Let_def bindR_Inr[of getObj, OF getObj_def]
    by (elim clean_bindE[OF _ dirty]) (assumption | rule clean sendsR | simp only: send_simps | simp)+
  have quiet: "patchCNReadiness (logged E) st msg s1 \<noteq> (r, s')" for st msg
    using clean_run[OF readiness_phase c1] dirty by blast
  have reg: "onlySends (\<lambda>_. True) (phasesTo {CNPodPhaseIdle}) (?reg :: ('w lworld pod_ctx, unit) rm)"
    by (rule onlySends_bind patchPhase_sends onlySends_mono[OF readiness_phase] | simp)+
  consider (draining) "?phase = CNPodPhaseDraining" | (unknown) "?phase = CNPodPhaseUnknown"
    using rest quiet c1 dirty by (auto simp: errorf_def throw_def ret_def split: if_splits)
  then show ?thesis
  proof cases
    case draining
    with rest poolDraining_phase[OF c1 _ dirty] w show ?thesis by auto
  next
    case unknown
    with rest quiet have ready and "?reg s1 = (r, s')" by (auto split: if_splits)
    with phase_clean[OF reg c1] w unknown show ?thesis by blast
  qed
qed

definition unknownPod :: pod where
  "unknownPod = (samplePod ''p'')\<lparr>pod_labels := Some [CNPodPhaseLabel \<mapsto> CNPodPhaseUnknown]\<rparr>"

definition poolingSample :: "mem lworld pod_ctx" where
  "poolingSample = \<lparr>Obj = unknownPod, world = (sampleWorld [unknownPod] [], [])\<rparr>"

theorem pooling_phase_steps_witness:
  "\<not> clean (\<lambda>e. phaseTo e \<noteq> None) (snd (poolingCNReconcile (logged memEnv) sampleCNSet poolingSample)) \<and>
   list_all (phasesTo {CNPodPhaseIdle}) (logOf (snd (poolingCNReconcile (logged memEnv) sampleCNSet poolingSample)))"
proof -
  let ?run = "poolingCNReconcile (logged memEnv) sampleCNSet poolingSample"
  have clean: "clean (\<lambda>e. phaseTo e \<noteq> None) poolingSample" by (simp add: clean_def poolingSample_def)
  have dirty: "\<not> clean (\<lambda>e. phaseTo e \<noteq> None) (snd ?run)"
    by (simp add: clean_def poolingCNReconcile_def poolingSample_def unknownPod_def withMOClientSet_def ResolveLogSet_def
        patchPodM_def putLabel_def patchCNReadiness_def readinessPatch_def
        setCNState_def GetReadinessCondition_def nowR_def readL_def writeL_def gmake_def Let_def monad_simps mem_defs sample_defs)
  have "podLabel (Obj poolingSample) CNPodPhaseLabel = CNPodPhaseUnknown" by (simp add: poolingSample_def unknownPod_def)
  with pooling_phase_steps[OF clean surjective_pairing dirty] dirty show ?thesis by (auto simp: list_all_iff)
qed

end
