(* ===== verification/CNPool.thy ===== *)
theory CNPool
  imports Mem_World
begin

text \<open>
  The CNPool controller: \<^verbatim>\<open>pkg/controllers/cnpool/controller.go\<close>. A pool keeps one CN set for its
  current template, with as many pods as are in use, asked for by pending claims and kept idle, and
  empties the CN sets of former templates as their pods are given back. The context object is the
  pool.
\<close>

section \<open>Definitions\<close>

type_synonym 'w pool_ctx = "(cnpool, 'w) ctx"

definition ControllerRevisionHashLabelKey :: string where
  "ControllerRevisionHashLabelKey = ''controller-revision-hash''"

text \<open>A loop whose body updates the variables of the enclosing function.\<close>

fun foldR :: "('a \<Rightarrow> 'b \<Rightarrow> ('s, 'b) rm) \<Rightarrow> 'a list \<Rightarrow> 'b \<Rightarrow> ('s, 'b) rm" where
  "foldR f [] acc = ret acc"
| "foldR f (x # xs) acc = bindR (f x acc) (foldR f xs)"

text \<open>\<^verbatim>\<open>recon.CreateOwnedOrUpdate\<close>; the answer of the server refreshes the object.\<close>

definition CreateOwnedOrUpdate :: "'w env \<Rightarrow> cnset \<Rightarrow> (cnset \<Rightarrow> (('o, 'w) ctx, cnset) rm) \<Rightarrow> (('o, 'w) ctx, cnset) rm" where
  "CreateOwnedOrUpdate E x mutateFn =
     bindR (callW (e_ownedBegin E x)) (\<lambda>cur.
     bindR (mutateFn cur) (\<lambda>new. callW (e_ownedCommit E cur new)))"

subsection \<open>The CN set of the pool\<close>

definition ownedLabels :: "cnpool \<Rightarrow> (string \<times> string) list" where
  "ownedLabels p = [(LabelManagedBy, pl_kind p @ ''-'' @ pl_name p), (LabelOwnerUID, pl_uid p)]"

definition emptyOverlay :: overlay where
  "emptyOverlay = \<lparr>ov_podLabels = None, ov_podAnnos = None, ov_other = []\<rparr>"

definition orEmptyOverlay :: "overlay option \<Rightarrow> overlay" where
  "orEmptyOverlay x = (case x of None \<Rightarrow> emptyOverlay | Some ov \<Rightarrow> ov)"

definition rangeOf :: "gomap \<Rightarrow> (string \<rightharpoonup> string)" where
  "rangeOf m = (case m of None \<Rightarrow> Map.empty | Some f \<Rightarrow> f)"

definition syncCNSetSpec :: "'w env \<Rightarrow> cnpool \<Rightarrow> cnset_spec \<Rightarrow> cnset_spec" where
  "syncCNSetSpec E p csSpec =
     (let ov = orEmptyOverlay (sp_overlay csSpec);
          podLabels = (rangeOf (ov_podLabels ov) ++ rangeOf (pl_podLabels p))
            (CNPodPhaseLabel \<mapsto> CNPodPhaseUnknown, PoolNameLabel \<mapsto> pl_name p)
      in csSpec\<lparr>
        sp_podManagementPolicy := Some PodManagementPolicyPooling,
        sp_pauseUpdate := \<not> GateEnabled GateInplacePoolRollingUpdate (GetOperatorVersion E (pl_template p)),
        sp_scalingConfig := (sp_scalingConfig csSpec)\<lparr>sc_storeDrainEnabled := Some True\<rparr>,
        sp_labels := [],
        sp_replicas := 0,
        sp_serviceType := [],
        sp_serviceAnnotations := None,
        sp_nodePort := None,
        sp_maxSurge := Some 0,
        sp_maxUnavailable := Some 1,
        sp_overlay := Some (ov\<lparr>ov_podLabels := Some podLabels\<rparr>)\<rparr>)"

text \<open>The template that is hashed: the pod set without what can be changed in place, and the
  configuration that changes the CN; every other field is zero. A nil overlay is dereferenced.\<close>

definition revisionTemplate :: "'w env \<Rightarrow> cnset_spec \<Rightarrow> err + cnset_spec" where
  "revisionTemplate E cn = (case sp_overlay cn of
      None \<Rightarrow> Inl (Err Panic ''nil pointer dereference'')
    | Some ov \<Rightarrow>
        let inplace = GateEnabled GateInplacePoolRollingUpdate (GetOperatorVersion E cn) in
        Inr \<lparr>sp_image = (if inplace then [] else sp_image cn),
             sp_config = (if inplace then None else sp_config cn),
             sp_replicas = sp_replicas cn,
             sp_overlay = Some (ov\<lparr>ov_podLabels := None, ov_podAnnos := None\<rparr>),
             sp_semanticVersion = sp_semanticVersion cn,
             sp_operatorVersion = sp_operatorVersion cn,
             sp_podSetOther = sp_podSetOther cn,
             sp_cnConfig = sp_cnConfig cn,
             sp_serviceType = [], sp_serviceAnnotations = None, sp_nodePort = None, sp_labels = [],
             sp_scalingConfig = \<lparr>sc_storeDrainEnabled = None, sc_storeDrainTimeout = None, sc_minDelaySeconds = None\<rparr>,
             sp_maxSurge = None, sp_maxUnavailable = None, sp_terminationPolicy = None,
             sp_podManagementPolicy = None, sp_podsToDelete = [], sp_pauseUpdate = False, sp_reusePVC = None\<rparr>)"

definition generateRevisionHash :: "'w env \<Rightarrow> cnset_spec \<Rightarrow> err + string" where
  "generateRevisionHash E cn = (case revisionTemplate E cn of Inl e \<Rightarrow> Inl e | Inr tpl \<Rightarrow> e_hashSpec E tpl)"

definition buildCNSet :: "'w env \<Rightarrow> cnpool \<Rightarrow> err + cnset" where
  "buildCNSet E p =
     (let csSpec = syncCNSetSpec E p (pl_template p) in
      case generateRevisionHash E csSpec of
        Inl e \<Rightarrow> Inl (wrapPrefix ''error generating hash'' e)
      | Inr hash \<Rightarrow> Inr
          \<lparr>cn_name = pl_name p @ ''-'' @ hash, cn_ns = pl_ns p, cn_rv = 0,
           cn_labels = Some ((map_of (ownedLabels p))(ControllerRevisionHashLabelKey \<mapsto> hash)),
           cn_deleted = None, cn_spec = csSpec, cn_depLogSet = pl_depLogSet p, cn_depDNSet = pl_depDNSet p,
           cn_statusReplicas = 0, cn_statusLabelSelector = []\<rparr>)"

subsection \<open>Pods\<close>

definition podInUse :: "pod \<Rightarrow> bool" where
  "podInUse pod \<longleftrightarrow> podLabel pod CNPodPhaseLabel = CNPodPhaseBound \<or> podLabel pod CNPodPhaseLabel = CNPodPhaseDraining"

definition podNames :: "pod list \<Rightarrow> string list" where
  "podNames pods = map pod_name pods"

definition deletionCost :: "pod \<Rightarrow> int" where
  "deletionCost pod =
     (let phase = podLabel pod CNPodPhaseLabel in
      (if phase = CNPodPhaseTerminating then 0
       else if phase = [] \<or> phase = CNPodPhaseUnknown then 2 ^ 8
       else if phase = CNPodPhaseIdle then 2 ^ 9
       else 2 ^ 10) +
      (if podLabel pod PodClaimedByLabel \<noteq> [] then 1 else 0))"

definition deletionOrder :: "pod \<Rightarrow> pod \<Rightarrow> int" where
  "deletionOrder a b =
     (let c = deletionCost a - deletionCost b in
      if c = 0 then - intSeconds (pod_created a - pod_created b) else c)"

definition sortPodByDeletionOrder :: "'w env \<Rightarrow> pod list \<Rightarrow> pod list" where
  "sortPodByDeletionOrder E pods = e_sortPods E deletionOrder pods"

text \<open>\<^verbatim>\<open>iterateCNSetLivePods\<close> and \<^verbatim>\<open>iterateDirectLivePods\<close> list first and then call back for each
  pod that is not deleted.\<close>

definition livePods :: "pod list \<Rightarrow> pod list" where
  "livePods pods = filter (\<lambda>p. pod_deleted p = None) pods"

definition iterateCNSetLivePods ::
  "'w env \<Rightarrow> cnset \<Rightarrow> (pod \<Rightarrow> 'b \<Rightarrow> (('o, 'w) ctx, 'b) rm) \<Rightarrow> 'b \<Rightarrow> (('o, 'w) ctx, 'b) rm" where
  "iterateCNSetLivePods E cs fn acc =
     (if cn_statusLabelSelector cs = [] then ret acc
      else case e_parseLabelSelector E (cn_statusLabelSelector cs) of
        Inl e \<Rightarrow> throw e
      | Inr matchLbls \<Rightarrow>
          bindR (callW (api_list (e_pods E) (cn_ns cs) (MatchingLabels matchLbls))) (\<lambda>pods.
          foldR fn (livePods pods) acc))"

definition iterateDirectLivePods ::
  "'w env \<Rightarrow> cnpool \<Rightarrow> (pod \<Rightarrow> 'b \<Rightarrow> (('o, 'w) ctx, 'b) rm) \<Rightarrow> 'b \<Rightarrow> (('o, 'w) ctx, 'b) rm" where
  "iterateDirectLivePods E p fn acc =
     bindR (callW (api_list (e_pods E) (pl_ns p)
              (MatchingLabels [(PoolNameLabel, pl_name p), (DirectPodLabel, ''y'')]))) (\<lambda>pods.
     foldR fn (livePods pods) acc)"

definition listNominatedClaims :: "'w env \<Rightarrow> cnpool \<Rightarrow> (('o, 'w) ctx, cnclaim list) rm" where
  "listNominatedClaims E p = callW (api_list (e_claims E) (pl_ns p) (MatchingLabels [(PoolNameLabel, pl_name p)]))"

subsection \<open>Former CN sets\<close>

definition reclaimLegacyCNClaim :: "'w env \<Rightarrow> pod \<Rightarrow> (('o, 'w) ctx, unit) rm" where
  "reclaimLegacyCNClaim E pod =
     (if podLabel pod CNPodPhaseLabel \<noteq> CNPodPhaseBound then ret ()
      else
        let claimName = podLabel pod PodClaimedByLabel in
        if claimName = [] then ret ()
        else
          bindR (attempt (callW (api_get (e_claims E) (pod_ns pod, claimName)))) (\<lambda>r. case r of
            Inl e \<Rightarrow> if IsNotFound e
                     then errorf (''CNClaim '' @ pod_ns pod @ ''/'' @ claimName @ '' not found while pod is bound'')
                     else throw (wrapPrefix ''error get claim'' e)
          | Inr claim \<Rightarrow>
              bindR (callW (api_patchStatus (e_claims E) claim (setPhase CNClaimPhaseOutdated claim))) (\<lambda>_. ret ())))"

text \<open>What \<^verbatim>\<open>syncLegacySet\<close> does with one pod of a former set: keep it if it is in use, name it for
  deletion if not.\<close>

definition legacyPod :: "'w env \<Rightarrow> pod \<Rightarrow> int \<times> string list \<Rightarrow> (('o, 'w) ctx, int \<times> string list) rm" where
  "legacyPod E pod acc =
     (if podInUse pod
      then bindR (reclaimLegacyCNClaim E pod) (\<lambda>_. ret (int32 (fst acc + 1), snd acc))
      else ret (fst acc, snd acc @ [pod_name pod]))"

definition legacySpec :: "int \<Rightarrow> string list \<Rightarrow> cnset \<Rightarrow> cnset" where
  "legacySpec n toDelete cs =
     (let ov = orEmptyOverlay (sp_overlay (cn_spec cs)) in
      cs\<lparr>cn_spec := (cn_spec cs)\<lparr>
        sp_replicas := n,
        sp_podsToDelete := toDelete,
        sp_overlay := Some (ov\<lparr>ov_podLabels := Some ((rangeOf (ov_podLabels ov))(PodOutdatedLabel \<mapsto> ''y''))\<rparr>)\<rparr>\<rparr>)"

definition syncLegacySet :: "'w env \<Rightarrow> cnset \<Rightarrow> (('o, 'w) ctx, int) rm" where
  "syncLegacySet E cnSet =
     bindR (iterateCNSetLivePods E cnSet (legacyPod E) (0, [])) (\<lambda>(n, toDelete).
     bindR (CreateOwnedOrUpdate E cnSet (\<lambda>cs. ret (legacySpec n toDelete cs))) (\<lambda>cnSet.
     bindR (callW (api_list (e_pods E) (cn_ns cnSet)
              (MatchingLabels [(InstanceLabelKey, cn_name cnSet), (DirectPodLabel, ''y'')]))) (\<lambda>directOrphans.
     if sp_replicas (cn_spec cnSet) = 0 \<and> cn_statusReplicas cnSet = 0 \<and> directOrphans = []
     then bindR (callW (api_delete (e_cnsets E) cnSet)) (\<lambda>_. ret n)
     else ret n)))"

subsection \<open>Scaling the current CN set\<close>

text \<open>The variables of \<^verbatim>\<open>Sync\<close> the closure given to \<^verbatim>\<open>CreateOwnedOrUpdate\<close> uses.\<close>

record pool_plan =
  pp_inUse :: int
  pp_pending :: int
  pp_idle :: "pod list"
  pp_terminating :: "pod list"
  pp_desired :: int
  pp_active :: int

text \<open>The classification of one live pod of the current set.\<close>

definition classifyPod :: "pod \<Rightarrow> int \<times> pod list \<times> pod list \<Rightarrow> int \<times> pod list \<times> pod list" where
  "classifyPod pod acc = (case acc of (inUse, idle, terminating) \<Rightarrow>
     if podInUse pod then (int32 (inUse + 1), idle, terminating)
     else if podLabel pod CNPodPhaseLabel = CNPodPhaseTerminating then (inUse, idle, terminating @ [pod])
     else (inUse, idle @ [pod], terminating))"

fun countPending :: "cnclaim list \<Rightarrow> int \<Rightarrow> int" where
  "countPending [] n = n"
| "countPending (c # cs) n = countPending cs (if cl_phase c = CNClaimPhasePending then int32 (n + 1) else n)"

text \<open>Set idle pods Terminating; a pod whose update fails (someone else wrote it) is left out.\<close>

fun terminateIdle :: "'w env \<Rightarrow> pod list \<Rightarrow> (('o, 'w) ctx, pod list) rm" where
  "terminateIdle E [] = ret []"
| "terminateIdle E (pod # pods) =
     bindR (orPanic (gput CNPodPhaseLabel CNPodPhaseTerminating (pod_labels pod))) (\<lambda>ls.
     bindR (attempt (callW (api_update (e_pods E) (pod\<lparr>pod_labels := ls\<rparr>)))) (\<lambda>r.
     bindR (terminateIdle E pods) (\<lambda>deleted.
     case r of Inl _ \<Rightarrow> ret deleted | Inr pod' \<Rightarrow> ret (pod' # deleted))))"

text \<open>\<^verbatim>\<open>idlePods[0:scaleInCount]\<close>: a negative bound panics.\<close>

definition scaleInPods :: "'w env \<Rightarrow> pod list \<Rightarrow> int \<Rightarrow> err + pod list" where
  "scaleInPods E idlePods scaleInCount =
     (let sorted = sortPodByDeletionOrder E idlePods in
      if int32 (int (length sorted)) > scaleInCount
      then (if scaleInCount < 0 then Inl (Err Panic ''slice bounds out of range'') else Inr (take (nat scaleInCount) sorted))
      else Inr sorted)"

definition dropOutdated :: "cnset \<Rightarrow> cnset" where
  "dropOutdated cs = cs\<lparr>cn_spec := (cn_spec cs)\<lparr>sp_overlay :=
     map_option (\<lambda>ov. ov\<lparr>ov_podLabels := gdel PodOutdatedLabel (ov_podLabels ov)\<rparr>) (sp_overlay (cn_spec cs))\<rparr>\<rparr>"

definition setReplicas :: "int \<Rightarrow> cnset \<Rightarrow> cnset" where
  "setReplicas n cs = cs\<lparr>cn_spec := (cn_spec cs)\<lparr>sp_replicas := n\<rparr>\<rparr>"

definition setPodsToDelete :: "string list \<Rightarrow> cnset \<Rightarrow> cnset" where
  "setPodsToDelete ns cs = cs\<lparr>cn_spec := (cn_spec cs)\<lparr>sp_podsToDelete := ns\<rparr>\<rparr>"

definition applyPlan :: "'w env \<Rightarrow> cnpool \<Rightarrow> pool_plan \<Rightarrow> cnset \<Rightarrow> (('o, 'w) ctx, cnset) rm" where
  "applyPlan E p pl desired =
     (let specReplicas = sp_replicas (cn_spec desired);
          desired = setPodsToDelete (podNames (pp_terminating pl))
            (setReplicas specReplicas (desired\<lparr>cn_spec := syncCNSetSpec E p (pl_template p)\<rparr>))
      in
      if pp_desired pl \<le> specReplicas then
        (if pp_pending pl > 0 then ret desired
         else
           bindR (liftE (scaleInPods E (pp_idle pl)
                    (max (int32 (pp_active pl - pp_desired pl)) (int32 (specReplicas - pp_desired pl))))) (\<lambda>victims.
           bindR (terminateIdle E victims) (\<lambda>deleted.
           ret (dropOutdated
             (setPodsToDelete (podNames (pp_terminating pl) @ podNames deleted)
               (setReplicas (max (int32 (specReplicas - int32 (int (length deleted)))) (pp_desired pl)) desired))))))
      else ret (dropOutdated (setReplicas (pp_desired pl) desired)))"

text \<open>The loop over the CN sets of the pool: the current one is remembered, the others are emptied.\<close>

definition syncSet :: "'w env \<Rightarrow> string \<Rightarrow> cnset \<Rightarrow> cnset option \<times> int \<Rightarrow> (('o, 'w) ctx, cnset option \<times> int) rm" where
  "syncSet E name cs acc =
     (if cn_name cs = name then ret (Some cs, snd acc)
      else bindR (syncLegacySet E cs) (\<lambda>legacyReplicas. ret (fst acc, int32 (snd acc + legacyReplicas))))"

text \<open>\<^verbatim>\<open>Sync\<close> up to the check of the pod limit: the former sets are emptied, the pods of the current
  set and the claims of the pool are counted. The result is the CN set built from the template, the
  number of pods the former sets keep, and the plan.\<close>

definition poolPlan :: "'w env \<Rightarrow> cnpool \<Rightarrow> ('w pool_ctx, cnset \<times> int \<times> pool_plan) rm" where
  "poolPlan E p =
     bindR (wrapE ''erros build CNSet'' (liftE (buildCNSet E p))) (\<lambda>desired.
     bindR (wrapE ''error list current sets''
              (callW (api_list (e_cnsets E) (pl_ns p) (MatchingLabels (ownedLabels p))))) (\<lambda>items.
     bindR (foldR (syncSet E (cn_name desired)) items (None, 0)) (\<lambda>(current, legacyPods).
     bindR (iterateDirectLivePods E p (\<lambda>pod _.
              if podLabel pod InstanceLabelKey \<noteq> cn_name desired then reclaimLegacyCNClaim E pod else ret ()) ()) (\<lambda>_.
     bindR (case current of None \<Rightarrow> ret (0, [], [])
            | Some cs \<Rightarrow> iterateCNSetLivePods E cs (\<lambda>pod acc. ret (classifyPod pod acc)) (0, [], [])) (\<lambda>(inUse, idle, terminating).
     bindR (listNominatedClaims E p) (\<lambda>claims.
     let pending = countPending claims 0 in
     ret (desired, legacyPods,
       \<lparr>pp_inUse = inUse, pp_pending = pending, pp_idle = idle, pp_terminating = terminating,
        pp_desired = int32 (int32 (inUse + pending) + pl_maxIdle p),
        pp_active = int32 (inUse + int32 (int (length idle)))\<rparr>)))))))"

definition PoolSync :: "'w env \<Rightarrow> ('w pool_ctx, unit) rm" where
  "PoolSync E =
     bindR getObj (\<lambda>p.
     bindR (poolPlan E p) (\<lambda>(desired, legacyPods, pl).
     let totalPods = int32 (legacyPods + pp_desired pl) in
     if totalPods > GetMaxPods p
     then ErrReSync (''Pool '' @ pl_name p @ '' has reached MaxPods limit '' @ goItoa totalPods
            @ '', total Pods: '' @ goItoa (GetMaxPods p) @ '', requeue'') (60 * second)
     else bindR (CreateOwnedOrUpdate E desired (applyPlan E p pl)) (\<lambda>_. ret ())))"

definition PoolObserve :: "'w env \<Rightarrow> ('w pool_ctx, unit) rm" where
  "PoolObserve E = PoolSync E"

definition PoolFinalize :: "'w env \<Rightarrow> ('w pool_ctx, bool) rm" where
  "PoolFinalize E =
     bindR getObj (\<lambda>p.
     bindR (attempt (callW (e_deleteAllCNSets E (pl_ns p) (MatchingLabels (ownedLabels p))))) (\<lambda>r. case r of
       Inl e \<Rightarrow> if IsNotFound e then ret True else throw e
     | Inr _ \<Rightarrow>
         bindR (attempt (callW (api_list (e_cnsets E) (pl_ns p) (MatchingLabels (ownedLabels p))))) (\<lambda>r. case r of
           Inl e \<Rightarrow> if IsNotFound e then ret True else throw e
         | Inr items \<Rightarrow> ret (length items < 1))))"

text \<open>The requests the watches of \<^verbatim>\<open>Start\<close> make of a pod and of a claim.\<close>

definition poolRequestsForPod :: "pod \<Rightarrow> obj_key list" where
  "poolRequestsForPod pod = (case gget (pod_labels pod) PoolNameLabel of None \<Rightarrow> [] | Some n \<Rightarrow> [(pod_ns pod, n)])"

definition poolRequestsForClaim :: "cnclaim \<Rightarrow> obj_key list" where
  "poolRequestsForClaim c = (if cs_poolName (cl_spec c) = [] then [] else [(cl_ns c, cs_poolName (cl_spec c))])"

section \<open>Which pods are counted\<close>

lemma foldR_ret: "foldR (\<lambda>x a. ret (f x a)) xs acc = ret (fold f xs acc)"
  by (induction xs arbitrary: acc) auto

definition idlePod :: "pod \<Rightarrow> bool" where
  "idlePod x \<longleftrightarrow> \<not> podInUse x \<and> podLabel x CNPodPhaseLabel \<noteq> CNPodPhaseTerminating"

definition terminatingPod :: "pod \<Rightarrow> bool" where
  "terminatingPod x \<longleftrightarrow> podLabel x CNPodPhaseLabel = CNPodPhaseTerminating"

lemma terminating_unused: "terminatingPod x \<Longrightarrow> \<not> podInUse x"
  by (auto simp: terminatingPod_def podInUse_def)

lemma int32_plus [simp]: "int32 (int32 a + b) = int32 (a + b)" "int32 (a + int32 b) = int32 (a + b)"
proof -
  have "(int32 a + b + 2 ^ 31) mod 2 ^ 32 = (a + b + 2 ^ 31) mod 2 ^ 32"
    by (simp add: int32_def mod_simps algebra_simps)
  then show "int32 (int32 a + b) = int32 (a + b)" by (simp add: int32_def)
  have "(a + int32 b + 2 ^ 31) mod 2 ^ 32 = (a + b + 2 ^ 31) mod 2 ^ 32"
    by (simp add: int32_def mod_simps algebra_simps)
  then show "int32 (a + int32 b) = int32 (a + b)" by (simp add: int32_def)
qed

lemma fold_classifyPod:
  "fits32 n \<Longrightarrow> fold classifyPod xs (n, i, t) =
     (int32 (n + int (length (filter podInUse xs))), i @ filter idlePod xs, t @ filter terminatingPod xs)"
proof (induction xs arbitrary: n i t)
  case Nil
  then show ?case by simp
next
  case (Cons x xs)
  then show ?case
    using terminating_unused[of x]
    by (auto simp: classifyPod_def idlePod_def terminatingPod_def algebra_simps)
qed

lemma countPending_eq:
  "fits32 n \<Longrightarrow> countPending cs n = int32 (n + int (length (filter (\<lambda>c. cl_phase c = CNClaimPhasePending) cs)))"
  by (induction cs arbitrary: n) (auto simp: algebra_simps)

lemma iterateCNSetLivePods_ret:
  assumes "iterateCNSetLivePods E cs (\<lambda>x a. ret (f x a)) acc s = (Inr r, s')"
  obtains pods where "r = fold f (livePods pods) acc" and "listedPods E pods"
proof (cases "cn_statusLabelSelector cs = []")
  case True
  with assms have "r = fold f (livePods []) acc" by (simp add: iterateCNSetLivePods_def livePods_def ret_def)
  with that show thesis by (simp add: listedPods_def)
next
  case False
  with assms obtain opt pods s1 where "callW (api_list (e_pods E) (cn_ns cs) opt) s = (Inr pods, s1)"
    and "r = fold f (livePods pods) acc"
    by (auto simp: iterateCNSetLivePods_def foldR_ret ret_def throw_def elim!: bindR_InrE split: sum.splits)
  then have "r = fold f (livePods pods) acc" and "\<exists>w'. api_list (e_pods E) (cn_ns cs) opt (world s) = (Inr pods, w')"
    by (auto simp: callW_def split: prod.splits)
  with that show thesis unfolding listedPods_def by blast
qed

text \<open>What the plan holds: the counts over the live pods of the current set and over the claims of
  the pool, in \<^verbatim>\<open>int32\<close>.\<close>

lemma poolPlan_spec:
  fixes E :: "'w env" and s :: "'w pool_ctx"
  assumes "poolPlan E p s = (Inr (desired, legacy, pl), s')"
  shows "buildCNSet E p = Inr desired"
    and "\<exists>pods claims. listedPods E pods \<and> pp_idle pl = filter idlePod (livePods pods) \<and>
      pp_terminating pl = filter terminatingPod (livePods pods) \<and>
      pp_inUse pl = int32 (int (length (filter podInUse (livePods pods)))) \<and>
      pp_pending pl = int32 (int (length (filter (\<lambda>c. cl_phase c = CNClaimPhasePending) claims)))"
    and "pp_desired pl = int32 (pp_inUse pl + pp_pending pl + pl_maxIdle p)"
    and "pp_active pl = int32 (pp_inUse pl + int (length (pp_idle pl)))"
proof -
  from assms obtain current and s1 :: "'w pool_ctx" and inUse idle terminating s2 claims where b: "buildCNSet E p = Inr desired"
    and c: "(case current of None \<Rightarrow> ret (0, [], [])
       | Some cs \<Rightarrow> iterateCNSetLivePods E cs (\<lambda>pod acc. ret (classifyPod pod acc)) (0, [], [])) s1
       = (Inr (inUse, idle, terminating), s2)"
    and pl: "pl = \<lparr>pp_inUse = inUse, pp_pending = countPending claims 0, pp_idle = idle, pp_terminating = terminating,
        pp_desired = int32 (int32 (inUse + countPending claims 0) + pl_maxIdle p),
        pp_active = int32 (inUse + int32 (int (length idle)))\<rparr>"
    unfolding poolPlan_def Let_def
    by (auto simp: liftE_def ret_def throw_def elim!: bindR_InrE split: sum.splits prod.splits)
  have "\<exists>pods. listedPods E pods \<and> (inUse, idle, terminating) = fold classifyPod (livePods pods) (0, [], [])"
  proof (cases current)
    case None
    with c show ?thesis by (auto simp: ret_def livePods_def listedPods_def intro!: exI[of _ "[]"])
  next
    case (Some cs)
    with c have "iterateCNSetLivePods E cs (\<lambda>pod acc. ret (classifyPod pod acc)) (0, [], []) s1 = (Inr (inUse, idle, terminating), s2)"
      by simp
    then show ?thesis by (rule iterateCNSetLivePods_ret) blast
  qed
  then obtain pods where "listedPods E pods"
    and "(inUse, idle, terminating) = fold classifyPod (livePods pods) (0, [], [])" by blast
  moreover have "fits32 0" by (simp add: fits32_def)
  ultimately show "\<exists>pods claims. listedPods E pods \<and> pp_idle pl = filter idlePod (livePods pods) \<and>
      pp_terminating pl = filter terminatingPod (livePods pods) \<and>
      pp_inUse pl = int32 (int (length (filter podInUse (livePods pods)))) \<and>
      pp_pending pl = int32 (int (length (filter (\<lambda>c. cl_phase c = CNClaimPhasePending) claims)))"
    using fold_classifyPod[of 0 "livePods pods" "[]" "[]"] countPending_eq[of 0 claims] pl by auto
  show "buildCNSet E p = Inr desired" "pp_desired pl = int32 (pp_inUse pl + pp_pending pl + pl_maxIdle p)"
    "pp_active pl = int32 (pp_inUse pl + int (length (pp_idle pl)))"
    using b pl by simp_all
qed

section \<open>What a pool sends\<close>

lemma onlySends_prod [sendsR]: "(\<And>a b. onlySends P ok (f a b)) \<Longrightarrow> onlySends P ok (case x of (a, b) \<Rightarrow> f a b)"
  by (cases x) auto

lemma onlySends_foldR [sendsR]:
  "(\<And>x acc. onlySends P ok (f x acc)) \<Longrightarrow> onlySends P ok (foldR f xs acc)"
  by (induction xs arbitrary: acc) (auto intro!: onlySends_ret onlySends_bind)

fun isPodW :: "event \<Rightarrow> bool" where
  "isPodW (PodW _) = True"
| "isPodW _ = False"

text \<open>Emptying former sets writes no pod: it marks claims Outdated and writes or deletes CN sets.\<close>

fun legacyEvent :: "event \<Rightarrow> bool" where
  "legacyEvent (ClaimW (WPatchStatus c c')) = (c' = setPhase CNClaimPhaseOutdated c)"
| "legacyEvent (CNSetOwnedW x y) = (gget (ov_podLabels (the (sp_overlay (cn_spec y)))) PodOutdatedLabel = Some ''y'')"
| "legacyEvent (CNSetW (WDelete x)) = (sp_replicas (cn_spec x) = 0 \<and> cn_statusReplicas x = 0)"
| "legacyEvent _ = False"

lemma reclaimLegacy_sends: "onlySends P legacyEvent (reclaimLegacyCNClaim (logged E) x)"
  unfolding reclaimLegacyCNClaim_def by (rule sendsR | simp only: send_simps | simp)+

lemma iterateCNSet_sends:
  "(\<And>x acc. onlySends P ok (f x acc)) \<Longrightarrow> onlySends P ok (iterateCNSetLivePods (logged E) cs f acc)"
  unfolding iterateCNSetLivePods_def by (rule sendsR | simp only: send_simps | assumption)+

lemma iterateDirect_sends:
  "(\<And>x acc. onlySends P ok (f x acc)) \<Longrightarrow> onlySends P ok (iterateDirectLivePods (logged E) p f acc)"
  unfolding iterateDirectLivePods_def by (rule sendsR | simp only: send_simps | assumption)+

lemma legacySpec_outdated: "gget (ov_podLabels (the (sp_overlay (cn_spec (legacySpec n d cs))))) PodOutdatedLabel = Some ''y''"
  by (simp add: legacySpec_def Let_def)

lemma syncLegacySet_sends: "onlySends P legacyEvent (syncLegacySet (logged E) cs)"
  unfolding syncLegacySet_def legacyPod_def CreateOwnedOrUpdate_def bindR_ret
  by (rule iterateCNSet_sends reclaimLegacy_sends sendsR | simp only: send_simps | simp add: legacySpec_outdated)+

lemma poolPlan_sends: "onlySends P legacyEvent (poolPlan (logged E) p)"
  unfolding poolPlan_def syncSet_def listNominatedClaims_def
  by (rule iterateCNSet_sends iterateDirect_sends syncLegacySet_sends reclaimLegacy_sends sendsR | simp only: send_simps)+

text \<open>\<^verbatim>\<open>slices.SortFunc\<close> works in place: whatever the comparator, it permutes.\<close>

definition permutes :: "(('a \<Rightarrow> 'a \<Rightarrow> int) \<Rightarrow> 'a list \<Rightarrow> 'a list) \<Rightarrow> bool" where
  "permutes srt \<longleftrightarrow> (\<forall>cmp xs. mset (srt cmp xs) = mset xs)"

lemma permutes_insertionSort [simp]: "permutes insertionSort"
  by (simp add: permutes_def)

lemma scaleInPods_subset:
  assumes "permutes (e_sortPods E)" and "scaleInPods E xs n = Inr ys"
  shows "set ys \<subseteq> set xs"
proof -
  have "set (sortPodByDeletionOrder E xs) = set xs"
    using assms(1) unfolding permutes_def sortPodByDeletionOrder_def by (metis mset_eq_setD)
  with assms(2) show ?thesis by (auto simp: scaleInPods_def Let_def split: if_splits dest: in_set_takeD)
qed

text \<open>The update that takes an idle pod out of the pool.\<close>

definition terminates :: "pod \<Rightarrow> pod kwrite \<Rightarrow> bool" where
  "terminates x e \<longleftrightarrow> (\<exists>ls. gput CNPodPhaseLabel CNPodPhaseTerminating (pod_labels x) = Some ls \<and>
     e = WUpdate (x\<lparr>pod_labels := ls\<rparr>))"

lemma terminateIdle_sends:
  "(\<And>x e. x \<in> set xs \<Longrightarrow> terminates x e \<Longrightarrow> ok (PodW e)) \<Longrightarrow> onlySends P ok (terminateIdle (logged E) xs)"
proof (induction xs)
  case Nil
  then show ?case by (simp add: sendsR)
next
  case (Cons x xs)
  have IH: "onlySends P ok (terminateIdle (logged E) xs)" by (rule Cons.IH) (auto intro: Cons.prems)
  show ?case
    by (auto intro!: onlySends_bind_orPanic IH onlySends_callW_write onlySends_bind onlySends_attempt onlySends_sum onlySends_ret
        Cons.prems[of x] simp: terminates_def)
qed

lemma applyPlan_sends:
  assumes "permutes (e_sortPods E)"
    and "\<And>x e. x \<in> set (pp_idle pl) \<Longrightarrow> pp_pending pl \<le> 0 \<Longrightarrow> terminates x e \<Longrightarrow> ok (PodW e)"
  shows "onlySends P ok (applyPlan (logged E) p pl cs)"
proof -
  have sub: "set ys \<subseteq> set (pp_idle pl)" if "scaleInPods (logged E) (pp_idle pl) n = Inr ys" for ys n
    using scaleInPods_subset[of "logged E"] that assms(1) by simp
  show ?thesis unfolding applyPlan_def Let_def
    by (rule onlySends_bind_liftE terminateIdle_sends sendsR | (drule sub, rule assms(2), blast, simp, assumption))+
qed

text \<open>C37 (\<^verbatim>\<open>Sync\<close>): scaling a pool in never touches a pod that is in use. Every write a reconcile sends
  to a pod is an update that sets the phase Terminating on a copy of a pod that was listed as live,
  neither Bound nor Draining, and not yet Terminating; it is sent only when no claim of the pool is
  pending and the pod limit is kept.\<close>

theorem pool_terminates_idle_only:
  fixes s :: "'w lworld pool_ctx"
  assumes perm: "permutes (e_sortPods E)" and run: "PoolSync (logged E) s = (r, s')" and log: "logOf s = []"
    and ev: "PodW e \<in> set (logOf s')"
  shows "\<exists>desired legacy pl s1 x. poolPlan (logged E) (Obj s) s = (Inr (desired, legacy, pl), s1) \<and>
     int32 (legacy + pp_desired pl) \<le> GetMaxPods (Obj s) \<and> pp_pending pl \<le> 0 \<and>
     x \<in> set (pp_idle pl) \<and> terminates x e \<and> pod_deleted x = None \<and> \<not> podInUse x \<and>
     podLabel x CNPodPhaseLabel \<noteq> CNPodPhaseTerminating"
proof -
  note run = run[unfolded PoolSync_def bindR_Inr[of getObj, OF getObj_def]]
  obtain q s1 where plan: "poolPlan (logged E) (Obj s) s = (q, s1)" by fastforce
  obtain es where "logOf s1 = es @ logOf s" and "\<forall>e \<in> set es. legacyEvent e"
    by (rule onlySendsD[OF poolPlan_sends TrueI plan])
  with log have s1: "PodW e \<notin> set (logOf s1)" by auto
  show ?thesis
  proof (cases q)
    case (Inl er)
    with run plan ev s1 show ?thesis by (auto simp: bindR_Inl)
  next
    case (Inr v)
    obtain desired legacy pl where v: "v = (desired, legacy, pl)" by (cases v) auto
    have le: "int32 (legacy + pp_desired pl) \<le> GetMaxPods (Obj s)"
      and rest: "bindR (CreateOwnedOrUpdate (logged E) desired (applyPlan (logged E) (Obj s) pl)) (\<lambda>_. ret ()) s1 = (r, s')"
      using run plan Inr v ev s1 by (auto simp: bindR_Inr Let_def ErrReSync_def throw_def split: if_splits)
    let ?ok = "\<lambda>e. \<forall>k. e = PodW k \<longrightarrow> (\<exists>x \<in> set (pp_idle pl). pp_pending pl \<le> 0 \<and> terminates x k)"
    have "onlySends (\<lambda>_. True) ?ok (bindR (CreateOwnedOrUpdate (logged E) desired (applyPlan (logged E) (Obj s) pl)) (\<lambda>_. ret ())
        :: ('w lworld pool_ctx, unit) rm)"
      unfolding CreateOwnedOrUpdate_def
      by (rule applyPlan_sends[OF perm] sendsR | simp only: send_simps | blast)+
    then obtain es where "logOf s' = es @ logOf s1" and "\<forall>e \<in> set es. ?ok e"
      using TrueI rest by (rule onlySendsD)
    with ev s1 obtain x where x: "x \<in> set (pp_idle pl)" "pp_pending pl \<le> 0" "terminates x e" by auto
    with poolPlan_spec(2)[OF plan[unfolded Inr v]] have "pod_deleted x = None" "idlePod x"
      by (auto simp: livePods_def)
    with x le plan Inr v show ?thesis by (auto simp: idlePod_def)
  qed
qed

section \<open>Scaling in\<close>

definition stampedPods :: "pod set" where
  "stampedPods = {p. wholeSeconds (pod_created p)}"

lemma deletionOrder_cmp:
  "deletionOrder a b = cmpThen (deletionCost a - deletionCost b) (- intSeconds (pod_created a - pod_created b))"
  by (simp add: deletionOrder_def cmpThen_def Let_def)

interpretation poolDeletion: comparator stampedPods deletionOrder
  unfolding deletionOrder_cmp[abs_def] stampedPods_def
  by unfold_locales (intro weak_order_cmpThen weak_order_score weak_order_newer_first)

text \<open>The answer to an update is the object that was sent, with a new version.\<close>

definition updateKeepsName :: "'w env \<Rightarrow> bool" where
  "updateKeepsName E \<longleftrightarrow> (\<forall>p w p' w'. api_update (e_pods E) p w = (Inr p', w') \<longrightarrow> pod_name p' = pod_name p)"

lemma terminateIdle_run:
  assumes "terminateIdle (logged E) xs s = (Inr del, s')" and "updateKeepsName E"
  shows "\<exists>ups. logOf s' = rev (map PodW ups) @ logOf s \<and> list_all2 terminates xs ups \<and>
    set (podNames del) \<subseteq> set (podNames xs) \<and> length del \<le> length xs"
  using assms(1)
proof (induction xs arbitrary: s del)
  case Nil
  then show ?case by (auto simp: ret_def)
next
  case (Cons x xs)
  from Cons.prems obtain ls r s1 del' where ls: "gput CNPodPhaseLabel CNPodPhaseTerminating (pod_labels x) = Some ls"
    and u: "attempt (callW (writeL (PodW (WUpdate (x\<lparr>pod_labels := ls\<rparr>))) (api_update (e_pods E) (x\<lparr>pod_labels := ls\<rparr>)))) s = (Inr r, s1)"
    and rest: "terminateIdle (logged E) xs s1 = (Inr del', s')"
    and del: "del = (case r of Inl _ \<Rightarrow> del' | Inr p \<Rightarrow> p # del')"
    by (auto simp: orPanic_def throw_def ret_def elim!: bindR_InrE split: option.splits sum.splits)
  obtain a w where a: "api_update (e_pods E) (x\<lparr>pod_labels := ls\<rparr>) (fst (world s)) = (a, w)" by fastforce
  with u have s1: "logOf s1 = PodW (WUpdate (x\<lparr>pod_labels := ls\<rparr>)) # logOf s" and "r = a"
    by (auto simp: attempt_def callW_def writeL_def split: sum.splits if_splits)
  with a assms(2) have name: "\<And>p. r = Inr p \<Longrightarrow> pod_name p = pod_name x"
    by (fastforce simp: updateKeepsName_def)
  from Cons.IH[OF rest] obtain ups where l: "logOf s' = rev (map PodW ups) @ logOf s1" "list_all2 terminates xs ups"
    and d: "set (podNames del') \<subseteq> set (podNames xs)" "length del' \<le> length xs" by blast
  have "terminates x (WUpdate (x\<lparr>pod_labels := ls\<rparr>))" unfolding terminates_def using ls by blast
  moreover have "set (podNames del) \<subseteq> set (podNames (x # xs)) \<and> length del \<le> length (x # xs)"
  proof (cases r)
    case (Inl e)
    with del d show ?thesis by (auto simp: podNames_def)
  next
    case (Inr p)
    with del d name[OF Inr] show ?thesis by (auto simp: podNames_def)
  qed
  ultimately show ?case using l s1 by (intro exI[of _ "WUpdate (x\<lparr>pod_labels := ls\<rparr>) # ups"]) simp
qed

lemma int32_diff: "fits32 (a - b) \<Longrightarrow> int32 (a - b) = a - b"
  by simp

lemma scaleInPods_run:
  assumes srt: "sorts (e_sortPods E)" and st: "set xs \<subseteq> stampedPods" and small: "int (length xs) < 2 ^ 31"
    and n: "0 \<le> n" and run: "scaleInPods E xs n = Inr victims"
  obtains kept where "mset victims + mset kept = mset xs" and "length victims = min (nat n) (length xs)"
    and "\<forall>a \<in> set victims. \<forall>b \<in> set kept. deletionOrder a b \<le> 0"
proof -
  let ?sorted = "e_sortPods E deletionOrder xs" and ?m = "min (nat n) (length xs)"
  note perm = poolDeletion.sorts_result[OF srt st]
  have len: "length ?sorted = length xs" using perm mset_eq_length by blast
  have "fits32 (int (length xs))" using small by (simp add: fits32_def)
  with run n len have v: "victims = take ?m ?sorted"
    by (auto simp: scaleInPods_def sortPodByDeletionOrder_def Let_def min_def split: if_splits)
  have "mset (take ?m ?sorted) + mset (drop ?m ?sorted) = mset xs"
    using perm by (metis append_take_drop_id mset_append)
  moreover have "length (take ?m ?sorted) = ?m" using len by simp
  moreover have "\<forall>a \<in> set (take ?m ?sorted). \<forall>b \<in> set (drop ?m ?sorted). deletionOrder a b \<le> 0"
    using poolDeletion.prefix_least[OF srt st] by blast
  ultimately show thesis using that v by simp
qed

text \<open>\<^verbatim>\<open>Sync\<close>, scale-in: which pods leave the pool, and what the CN set is told. The idle pods are
  cut at the number of pods above the wanted replicas, counted against the active pods or against the
  stored replicas, whichever is more; each pod before the cut is sent one update to Terminating and
  precedes or ties with each pod after it in the deletion order. Only the pods whose update was
  accepted are named for deletion, after those already Terminating, and the replicas go down by just
  their number, never below the wanted number.\<close>

theorem pool_scale_in_victims:
  fixes s :: "('o, 'w lworld) ctx"
  assumes srt: "sorts (e_sortPods E)" and names: "updateKeepsName E"
    and stamps: "\<forall>x \<in> set (pp_idle pl). wholeSeconds (pod_created x)"
    and range: "int (length (pp_idle pl)) < 2 ^ 31" "0 \<le> pp_desired pl" "0 \<le> pp_active pl" "fits32 (pp_active pl)"
      "fits32 (sp_replicas (cn_spec cur))"
    and scale: "pp_desired pl \<le> sp_replicas (cn_spec cur)" "pp_pending pl \<le> 0"
    and run: "applyPlan (logged E) p pl cur s = (Inr new, s')"
  shows "\<exists>victims kept deleted ups.
     mset victims + mset kept = mset (pp_idle pl) \<and>
     length victims = min (nat (max (pp_active pl) (sp_replicas (cn_spec cur)) - pp_desired pl)) (length (pp_idle pl)) \<and>
     (\<forall>a \<in> set victims. \<forall>b \<in> set kept. deletionOrder a b \<le> 0) \<and>
     logOf s' = rev (map PodW ups) @ logOf s \<and> list_all2 terminates victims ups \<and>
     set deleted \<subseteq> set (podNames victims) \<and> length deleted \<le> length victims \<and>
     sp_podsToDelete (cn_spec new) = podNames (pp_terminating pl) @ deleted \<and>
     sp_replicas (cn_spec new) = max (sp_replicas (cn_spec cur) - int (length deleted)) (pp_desired pl)"
proof -
  let ?r = "sp_replicas (cn_spec cur)" and ?d = "pp_desired pl"
  let ?n = "max (int32 (pp_active pl - ?d)) (int32 (?r - ?d))"
  have n: "?n = max (pp_active pl) ?r - ?d" and n0: "0 \<le> ?n"
    using range scale(1) by (auto simp: fits32_def int32_diff max_def)
  from run scale obtain victims del s1 where v: "scaleInPods (logged E) (pp_idle pl) ?n = Inr victims"
    and t: "terminateIdle (logged E) victims s1 = (Inr del, s')" and s1: "s1 = s"
    and new: "sp_podsToDelete (cn_spec new) = podNames (pp_terminating pl) @ podNames del"
      "sp_replicas (cn_spec new) = max (int32 (?r - int32 (int (length del)))) ?d"
    by (auto simp: applyPlan_def Let_def liftE_def ret_def throw_def dropOutdated_def setPodsToDelete_def setReplicas_def
        elim!: bindR_InrE split: sum.splits)
  have st: "set (pp_idle pl) \<subseteq> stampedPods" using stamps by (auto simp: stampedPods_def)
  have "sorts (e_sortPods (logged E))" using srt by simp
  from this st range(1) n0 v obtain kept where k: "mset victims + mset kept = mset (pp_idle pl)"
    "length victims = min (nat ?n) (length (pp_idle pl))" "\<forall>a \<in> set victims. \<forall>b \<in> set kept. deletionOrder a b \<le> 0"
    by (rule scaleInPods_run)
  from terminateIdle_run[OF t names] obtain ups where u: "logOf s' = rev (map PodW ups) @ logOf s" "list_all2 terminates victims ups"
    "set (podNames del) \<subseteq> set (podNames victims)" "length del \<le> length victims" using s1 by blast
  have len: "int (length del) < 2 ^ 31" using u(4) k(2) range(1) by linarith
  then have "int32 (int (length del)) = int (length del)" by (simp add: fits32_def)
  moreover have "fits32 (?r - int (length del))" using len range scale(1) by (simp add: fits32_def)
  ultimately have rep: "sp_replicas (cn_spec new) = max (?r - int (length del)) ?d" using new(2) by simp
  show ?thesis using k u n new(1) rep
    by (intro exI[of _ victims] exI[of _ kept] exI[of _ "podNames del"] exI[of _ ups]) (simp add: podNames_def)
qed

text \<open>\<^verbatim>\<open>Sync\<close>, pending claims: while a claim of the pool is pending, nothing is scaled in: no pod is
  written and the replicas of the CN set only go up, to the wanted number if that is more.\<close>

theorem pool_pending_no_scale_in:
  assumes "pp_pending pl > 0"
  shows "\<exists>new. applyPlan E p pl cur s = (Inr new, s) \<and>
     sp_replicas (cn_spec new) = max (sp_replicas (cn_spec cur)) (pp_desired pl) \<and>
     sp_podsToDelete (cn_spec new) = podNames (pp_terminating pl)"
  using assms by (auto simp: applyPlan_def Let_def ret_def setPodsToDelete_def setReplicas_def dropOutdated_def max_def)

section \<open>The pod limit\<close>

lemma terminateIdle_length: "terminateIdle E xs s = (Inr del, s') \<Longrightarrow> length del \<le> length xs"
  by (induction xs arbitrary: s del) (fastforce simp: ret_def elim!: bindR_InrE split: sum.splits)+

lemma scaleInPods_length:
  "permutes (e_sortPods E) \<Longrightarrow> scaleInPods E xs n = Inr ys \<Longrightarrow> length ys \<le> length xs"
  unfolding permutes_def scaleInPods_def sortPodByDeletionOrder_def Let_def
  by (auto split: if_splits) (metis size_mset order.refl nat_le_linear min.cobounded1 min.coboundedI1)+

lemma applyPlan_replicas:
  assumes perm: "permutes (e_sortPods E)" and small: "int (length (pp_idle pl)) < 2 ^ 31"
    and cur: "0 \<le> sp_replicas (cn_spec cur)" "fits32 (sp_replicas (cn_spec cur))"
    and run: "applyPlan E p pl cur s = (Inr new, s')"
  shows "sp_replicas (cn_spec new) \<le> sp_replicas (cn_spec cur) \<or> sp_replicas (cn_spec new) = pp_desired pl"
proof (cases "pp_desired pl \<le> sp_replicas (cn_spec cur) \<and> pp_pending pl \<le> 0")
  case True
  with run obtain n victims del s1 where v: "scaleInPods E (pp_idle pl) n = Inr victims"
    and t: "terminateIdle E victims s1 = (Inr del, s')"
    and new: "sp_replicas (cn_spec new) = max (int32 (sp_replicas (cn_spec cur) - int32 (int (length del)))) (pp_desired pl)"
    by (auto simp: applyPlan_def Let_def liftE_def ret_def throw_def dropOutdated_def setPodsToDelete_def setReplicas_def
        elim!: bindR_InrE split: sum.splits)
  have "int (length del) < 2 ^ 31"
    using terminateIdle_length[OF t] scaleInPods_length[OF perm v] small by linarith
  with cur new show ?thesis by (auto simp: fits32_def max_def)
next
  case False
  with run show ?thesis
    by (auto simp: applyPlan_def Let_def ret_def setPodsToDelete_def setReplicas_def dropOutdated_def split: if_splits)
qed

fun isOwnedW :: "event \<Rightarrow> bool" where
  "isOwnedW (CNSetOwnedW x y) = True"
| "isOwnedW _ = False"

lemma CreateOwnedOrUpdate_owned:
  fixes s :: "('o, 'w lworld) ctx"
  assumes clean: "\<And>cur. never isOwnedW (f cur :: (('o, 'w lworld) ctx, cnset) rm)"
    and run: "CreateOwnedOrUpdate (logged E) x f s = (r, s')"
  obtains (quiet) es where "logOf s' = es @ logOf s" and "\<forall>e \<in> set es. \<not> isOwnedW e"
  | (sent) cur new s1 s2 es where "f cur s1 = (Inr new, s2)" and "\<forall>e \<in> set es. \<not> isOwnedW e"
      and "logOf s' = CNSetOwnedW cur new # es @ logOf s"
proof -
  obtain q s1 where b: "callW (e_ownedBegin (logged E) x) s = (q, s1)" by fastforce
  then have l1: "logOf s1 = logOf s" by (auto simp: callW_def readL_def split: prod.splits)
  show thesis
  proof (cases q)
    case (Inl e)
    with run b l1 show thesis by (intro quiet[of "[]"]) (auto simp: CreateOwnedOrUpdate_def bindR_Inl)
  next
    case (Inr cur)
    obtain q2 s2 where m: "f cur s1 = (q2, s2)" by fastforce
    obtain es where es: "logOf s2 = es @ logOf s1" "\<forall>e \<in> set es. \<not> isOwnedW e"
      by (rule onlySendsD[OF clean TrueI m])
    show thesis
    proof (cases q2)
      case (Inl e)
      with run b \<open>q = Inr cur\<close> m es l1 show thesis
        by (intro quiet[of es]) (auto simp: CreateOwnedOrUpdate_def bindR_Inr bindR_Inl)
    next
      case (Inr new)
      with run b \<open>q = Inr cur\<close> m have "callW (e_ownedCommit (logged E) cur new) s2 = (r, s')"
        by (simp add: CreateOwnedOrUpdate_def bindR_Inr)
      then have "logOf s' = CNSetOwnedW cur new # logOf s2" by (auto simp: callW_def writeL_def split: prod.splits)
      with m Inr es l1 show thesis by (intro sent[of cur s1 new s2 es]) auto
    qed
  qed
qed

text \<open>C38 (\<^verbatim>\<open>Sync\<close>, \<^verbatim>\<open>MaxPods\<close>): a pool does not grow past its pod limit. If the pods kept by former sets
  and the wanted replicas together exceed \<^verbatim>\<open>MaxPods\<close>, the reconcile stops there, writes nothing more
  and asks to be retried in a minute. Otherwise it writes the current CN set at most once, and the
  replicas it writes are not more than the stored ones, or leave the total within the limit. The
  counts are assumed to fit 32 bits, and the stored replicas not to be negative.\<close>

theorem pool_max_pods:
  fixes s :: "'w lworld pool_ctx"
  assumes perm: "permutes (e_sortPods E)"
    and plan: "poolPlan (logged E) (Obj s) s = (Inr (desired, legacy, pl), s1)"
    and run: "PoolSync (logged E) s = (r, s')"
    and range: "fits32 (legacy + pp_desired pl)" "int (length (pp_idle pl)) < 2 ^ 31"
  shows "(legacy + pp_desired pl > GetMaxPods (Obj s) \<longrightarrow> (\<exists>msg. r = Inl (Err (ReSync (60 * second)) msg)) \<and> s' = s1) \<and>
    (\<exists>es. logOf s' = es @ logOf s1 \<and> length (filter isOwnedW es) \<le> 1 \<and>
       (\<forall>cur new. CNSetOwnedW cur new \<in> set es \<longrightarrow>
          0 \<le> sp_replicas (cn_spec cur) \<longrightarrow> fits32 (sp_replicas (cn_spec cur)) \<longrightarrow>
          sp_replicas (cn_spec new) \<le> sp_replicas (cn_spec cur) \<or>
          legacy + sp_replicas (cn_spec new) \<le> GetMaxPods (Obj s)))"
proof (cases "legacy + pp_desired pl > GetMaxPods (Obj s)")
  case True
  with run plan range(1) show ?thesis
    by (auto simp: PoolSync_def bindR_Inr[of getObj, OF getObj_def] bindR_Inr Let_def ErrReSync_def throw_def)
next
  case False
  let ?f = "applyPlan (logged E) (Obj s) pl :: cnset \<Rightarrow> ('w lworld pool_ctx, cnset) rm"
  have "bindR (CreateOwnedOrUpdate (logged E) desired ?f) (\<lambda>_. ret ()) s1 = (r, s')"
    using False run plan range(1) by (simp add: PoolSync_def bindR_Inr[of getObj, OF getObj_def] bindR_Inr Let_def)
  then obtain r1 where c: "CreateOwnedOrUpdate (logged E) desired ?f s1 = (r1, s')"
    by (cases rule: bindR_cases) (auto simp: ret_def)
  have "never isOwnedW (?f cur)" for cur
    by (rule applyPlan_sends[OF perm]) simp
  from this c show ?thesis
  proof (cases rule: CreateOwnedOrUpdate_owned)
    case (quiet es)
    then have "filter isOwnedW es = []" by (simp add: filter_empty_conv)
    with quiet False show ?thesis by (auto intro!: exI[of _ es])
  next
    case (sent cur new sa sb es)
    have perm': "permutes (e_sortPods (logged E))" using perm by simp
    have "sp_replicas (cn_spec new) \<le> sp_replicas (cn_spec cur) \<or> legacy + sp_replicas (cn_spec new) \<le> GetMaxPods (Obj s)"
      if "0 \<le> sp_replicas (cn_spec cur)" "fits32 (sp_replicas (cn_spec cur))"
      using applyPlan_replicas[OF perm' range(2) that sent(1)] False by auto
    moreover have "filter isOwnedW es = []" using sent(2) by (simp add: filter_empty_conv)
    moreover have "CNSetOwnedW a b \<notin> set es" for a b using sent(2) by force
    ultimately show ?thesis using sent(3) False by (intro conjI exI[of _ "CNSetOwnedW cur new # es"]) auto
  qed
qed

text \<open>\<^verbatim>\<open>generateRevisionHash\<close>: which changes of a pool's template roll out a new CN set. The hashed
  revision of two pools is the same exactly when they agree on the semantic and operator versions,
  the CN configuration and the rest of the pod set, and, unless the operator version updates pools in
  place, on the image and the configuration; labels, annotations, replicas, services and the fields
  the pool manages itself do not matter.\<close>

theorem pool_revision_iff:
  "revisionTemplate E (syncCNSetSpec E p (pl_template p)) = revisionTemplate E (syncCNSetSpec E q (pl_template q)) \<longleftrightarrow>
     sp_semanticVersion (pl_template p) = sp_semanticVersion (pl_template q) \<and>
     sp_operatorVersion (pl_template p) = sp_operatorVersion (pl_template q) \<and>
     sp_podSetOther (pl_template p) = sp_podSetOther (pl_template q) \<and>
     sp_cnConfig (pl_template p) = sp_cnConfig (pl_template q) \<and>
     ov_other (orEmptyOverlay (sp_overlay (pl_template p))) = ov_other (orEmptyOverlay (sp_overlay (pl_template q))) \<and>
     (GateEnabled GateInplacePoolRollingUpdate (GetOperatorVersion E (pl_template p)) \<or>
      sp_image (pl_template p) = sp_image (pl_template q) \<and> sp_config (pl_template p) = sp_config (pl_template q))"
proof -
  have op: "GetOperatorVersion E (syncCNSetSpec E p t) = GetOperatorVersion E t" for p t
    by (simp add: GetOperatorVersion_def syncCNSetSpec_def Let_def)
  have same: "GetOperatorVersion E (pl_template p) = GetOperatorVersion E (pl_template q)"
    if "sp_operatorVersion (pl_template p) = sp_operatorVersion (pl_template q)"
    using that by (simp add: GetOperatorVersion_def)
  have ov: "ov\<lparr>ov_podLabels := None, ov_podAnnos := None\<rparr> = ov'\<lparr>ov_podLabels := None, ov_podAnnos := None\<rparr> \<longleftrightarrow>
      ov_other ov = ov_other ov'" for ov ov' :: overlay
    by (cases ov; cases ov') simp
  show ?thesis unfolding revisionTemplate_def op
    using same ov by (auto simp: syncCNSetSpec_def Let_def)
qed

section \<open>Former CN sets\<close>

lemma foldR_legacyPod:
  "foldR (legacyPod E) xs (n, d) s = (Inr r, s') \<Longrightarrow> fits32 n \<Longrightarrow>
     r = (int32 (n + int (length (filter podInUse xs))), d @ podNames (filter (\<lambda>x. \<not> podInUse x) xs))"
proof (induction xs arbitrary: n d s)
  case Nil
  then show ?case by (simp add: ret_def podNames_def)
next
  case (Cons x xs)
  show ?case
  proof (cases "podInUse x")
    case True
    with Cons.prems(1) obtain s1 where "foldR (legacyPod E) xs (int32 (n + 1), d) s1 = (Inr r, s')"
      by (auto simp: legacyPod_def[of E x] bindR_assoc elim!: bindR_InrE)
    from Cons.IH[OF this] True show ?thesis by (simp add: algebra_simps)
  next
    case False
    with Cons.prems(1) have "foldR (legacyPod E) xs (n, d @ [pod_name x]) s = (Inr r, s')"
      by (simp add: legacyPod_def[of E x])
    from Cons.IH[OF this Cons.prems(2)] False show ?thesis by (simp add: podNames_def)
  qed
qed

fun outdates :: "event \<Rightarrow> bool" where
  "outdates (ClaimW (WPatchStatus c c')) = (c' = setPhase CNClaimPhaseOutdated c)"
| "outdates _ = False"

lemma legacyPod_sends: "onlySends P outdates (legacyPod (logged E) x acc)"
  unfolding legacyPod_def reclaimLegacyCNClaim_def by (rule sendsR | simp only: send_simps | simp)+

text \<open>\<^verbatim>\<open>syncLegacySet\<close>: a former CN set is shrunk to its pods in use. A pass that returns has told
  the set to keep exactly as many replicas as it has live pods that are Bound or Draining and to
  delete exactly its other live pods, after writing nothing but Outdated phases of claims; it has
  deleted the set itself only when the set has no replicas left, wanted or observed.\<close>

theorem legacy_set_shrinks:
  fixes s :: "('o, 'w lworld) ctx"
  assumes sel: "cn_statusLabelSelector cs \<noteq> []" "e_parseLabelSelector E (cn_statusLabelSelector cs) = Inr lbls"
    and lst: "api_list (e_pods E) (cn_ns cs) (MatchingLabels lbls) (fst (world s)) = (Inr pods, w)"
    and run: "syncLegacySet (logged E) cs s = (Inr n, s')"
  shows "n = int32 (int (length (filter podInUse (livePods pods)))) \<and>
    (\<exists>cur cs' del es. logOf s' = del @ [CNSetOwnedW cur (legacySpec n (podNames (filter (\<lambda>x. \<not> podInUse x) (livePods pods))) cur)]
         @ es @ logOf s \<and> list_all outdates es \<and>
       (del = [] \<or> del = [CNSetW (WDelete cs')] \<and> sp_replicas (cn_spec cs') = 0 \<and> cn_statusReplicas cs' = 0))"
proof -
  let ?fold = "foldR (legacyPod (logged E)) (livePods pods) (0, []) :: (('o, 'w lworld) ctx, int \<times> string list) rm"
  let ?names = "podNames (filter (\<lambda>x. \<not> podInUse x) (livePods pods))"
  let ?s0 = "s\<lparr>world := (w, logOf s)\<rparr>"
  from run obtain m d s1 cs' s2 orphans s3 where
    it: "iterateCNSetLivePods (logged E) cs (legacyPod (logged E)) (0, []) s = (Inr (m, d), s1)"
    and own: "CreateOwnedOrUpdate (logged E) cs (\<lambda>cs. ret (legacySpec m d cs)) s1 = (Inr cs', s2)"
    and orph: "callW (api_list (e_pods (logged E)) (cn_ns cs')
              (MatchingLabels [(InstanceLabelKey, cn_name cs'), (DirectPodLabel, ''y'')])) s2 = (Inr orphans, s3)"
    and rest: "(if sp_replicas (cn_spec cs') = 0 \<and> cn_statusReplicas cs' = 0 \<and> orphans = []
     then bindR (callW (api_delete (e_cnsets (logged E)) cs')) (\<lambda>_. ret m)
     else ret m) s3 = (Inr n, s')"
    unfolding syncLegacySet_def by (elim bindR_InrE) (auto elim!: bindR_InrE)
  have fold: "?fold ?s0 = (Inr (m, d), s1)"
    using it sel lst by (simp add: iterateCNSetLivePods_def bindR_def callW_def readL_def)
  have "fits32 0" by (simp add: fits32_def)
  from foldR_legacyPod[OF fold this] have md: "m = int32 (int (length (filter podInUse (livePods pods))))" "d = ?names"
    by simp_all
  have "onlySends (\<lambda>_. True) outdates ?fold" by (rule sendsR legacyPod_sends)+
  then obtain es where es: "logOf s1 = es @ logOf ?s0" "\<forall>e \<in> set es. outdates e" using TrueI fold by (rule onlySendsD)
  from own obtain cur where s2: "logOf s2 = CNSetOwnedW cur (legacySpec m d cur) # logOf s1"
    by (auto simp: CreateOwnedOrUpdate_def callW_def readL_def writeL_def elim!: bindR_InrE split: prod.splits)
  have s3: "logOf s3 = logOf s2" using orph by (auto simp: callW_def readL_def split: prod.splits)
  have n: "n = m" and del: "\<exists>del. logOf s' = del @ logOf s3 \<and>
      (del = [] \<or> del = [CNSetW (WDelete cs')] \<and> sp_replicas (cn_spec cs') = 0 \<and> cn_statusReplicas cs' = 0)"
    using rest by (auto simp: callW_def writeL_def ret_def elim!: bindR_InrE split: prod.splits if_splits)
  from del obtain del where "logOf s' = del @ logOf s3"
    "del = [] \<or> del = [CNSetW (WDelete cs')] \<and> sp_replicas (cn_spec cs') = 0 \<and> cn_statusReplicas cs' = 0" by blast
  with n md es s2 s3 show ?thesis by (auto simp: list_all_iff)
qed

section \<open>Concrete runs\<close>

definition samplePool :: cnpool where
  "samplePool = \<lparr>pl_name = ''pool'', pl_ns = ''ns'', pl_kind = ''CNPool'', pl_uid = ''u'', pl_template = sampleCNSetSpec,
     pl_podLabels = None, pl_depLogSet = None, pl_depDNSet = None, pl_maxIdle = 0, pl_maxPods = Some 5\<rparr>"

definition currentSet :: cnset where
  "currentSet = sampleCNSet\<lparr>cn_name := ''pool-mo:2'', cn_labels := Some (map_of (ownedLabels samplePool)),
     cn_statusLabelSelector := ''s''\<rparr>"

definition poolSample :: "mem lworld pool_ctx" where
  "poolSample = \<lparr>Obj = samplePool, world = ((sampleWorld [samplePod ''p''] [])\<lparr>m_cnsets := [currentSet]\<rparr>, [])\<rparr>"

lemmas pool_run_defs =
  PoolSync_def poolPlan_def poolSample_def buildCNSet_def generateRevisionHash_def revisionTemplate_def
  syncCNSetSpec_def orEmptyOverlay_def emptyOverlay_def GateEnabled_def GetOperatorVersion_def FirstOpVersion_def
  OpVersion1_2_0_def versionPrecedes_def Let_def samplePool_def liftE_def currentSet_def ownedLabels_def syncSet_def
  iterateDirectLivePods_def iterateCNSetLivePods_def livePods_def listNominatedClaims_def classifyPod_def podInUse_def
  int32_def GetMaxPods_def CreateOwnedOrUpdate_def applyPlan_def scaleInPods_def sortPodByDeletionOrder_def
  setReplicas_def setPodsToDelete_def readL_def writeL_def monad_simps mem_defs sample_defs

theorem pool_terminates_idle_only_witness:
  "\<exists>e x. PodW e \<in> set (logOf (snd (PoolSync (logged memEnv) poolSample))) \<and> terminates x e \<and> \<not> podInUse x"
proof -
  have "\<exists>e. PodW e \<in> set (logOf (snd (PoolSync (logged memEnv) poolSample)))"
    by (simp add: pool_run_defs)
  then obtain e where e: "PodW e \<in> set (logOf (snd (PoolSync (logged memEnv) poolSample)))" by blast
  have "logOf poolSample = []" by (simp add: poolSample_def)
  with pool_terminates_idle_only[OF _ surjective_pairing _ e] e show ?thesis
    by (fastforce simp: memEnv_sel)
qed

definition samplePlan :: pool_plan where
  "samplePlan = \<lparr>pp_inUse = 0, pp_pending = 0, pp_idle = [samplePod ''a'', samplePod ''b''], pp_terminating = [],
     pp_desired = 1, pp_active = 2\<rparr>"

definition twoReplicas :: cnset where
  "twoReplicas = setReplicas 2 sampleCNSet"

definition planSample :: "(unit, mem lworld) ctx" where
  "planSample = \<lparr>Obj = (), world = (sampleWorld [samplePod ''a'', samplePod ''b''] [], [])\<rparr>"

lemma mem_updateKeepsName: "updateKeepsName memEnv"
  by (auto simp: updateKeepsName_def mem_defs Let_def split: option.splits if_splits)

theorem pool_scale_in_victims_witness:
  "\<exists>new s' victims deleted. applyPlan (logged memEnv) samplePool samplePlan twoReplicas planSample = (Inr new, s') \<and>
     length (victims :: pod list) = 1 \<and> set deleted \<subseteq> set (podNames victims) \<and> sp_podsToDelete (cn_spec new) = deleted \<and>
     sp_replicas (cn_spec new) = max (2 - int (length deleted)) 1"
proof -
  have "\<exists>new s'. applyPlan (logged memEnv) samplePool samplePlan twoReplicas planSample = (Inr new, s')"
    by (simp add: samplePlan_def twoReplicas_def planSample_def deletionOrder_def deletionCost_def intSeconds_def pool_run_defs)
  then obtain new s' where run: "applyPlan (logged memEnv) samplePool samplePlan twoReplicas planSample = (Inr new, s')"
    by blast
  have "\<exists>victims kept deleted ups.
     mset victims + mset kept = mset (pp_idle samplePlan) \<and>
     length victims = min (nat (max (pp_active samplePlan) (sp_replicas (cn_spec twoReplicas)) - pp_desired samplePlan)) (length (pp_idle samplePlan)) \<and>
     (\<forall>a \<in> set victims. \<forall>b \<in> set kept. deletionOrder a b \<le> 0) \<and>
     logOf s' = rev (map PodW ups) @ logOf planSample \<and> list_all2 terminates victims ups \<and>
     set deleted \<subseteq> set (podNames victims) \<and> length deleted \<le> length victims \<and>
     sp_podsToDelete (cn_spec new) = podNames (pp_terminating samplePlan) @ deleted \<and>
     sp_replicas (cn_spec new) = max (sp_replicas (cn_spec twoReplicas) - int (length deleted)) (pp_desired samplePlan)"
    by (rule pool_scale_in_victims[OF _ _ _ _ _ _ _ _ _ _ run])
      (simp_all add: memEnv_sel mem_updateKeepsName samplePlan_def twoReplicas_def setReplicas_def sampleCNSet_def
        samplePod_def wholeSeconds_def fits32_def)
  then obtain victims deleted where "length (victims :: pod list) = 1" "set deleted \<subseteq> set (podNames victims)"
      "sp_podsToDelete (cn_spec new) = deleted" "sp_replicas (cn_spec new) = max (2 - int (length deleted)) 1"
    by (elim exE conjE) (simp add: samplePlan_def twoReplicas_def setReplicas_def podNames_def)
  with run show ?thesis by blast
qed

theorem pool_pending_no_scale_in_witness:
  "\<exists>new. applyPlan memEnv samplePool (samplePlan\<lparr>pp_pending := 1\<rparr>) twoReplicas
      \<lparr>Obj = (), world = sampleWorld [] []\<rparr> = (Inr new, \<lparr>Obj = (), world = sampleWorld [] []\<rparr>) \<and>
     sp_replicas (cn_spec new) = 2"
  using pool_pending_no_scale_in[of "samplePlan\<lparr>pp_pending := 1\<rparr>" memEnv samplePool twoReplicas "\<lparr>Obj = (), world = sampleWorld [] []\<rparr>"]
  by (auto simp: samplePlan_def twoReplicas_def setReplicas_def)

definition fullPool :: "mem lworld pool_ctx" where
  "fullPool = \<lparr>Obj = samplePool\<lparr>pl_maxIdle := 1, pl_maxPods := Some 0\<rparr>, world = (sampleWorld [] [], [])\<rparr>"

theorem pool_max_pods_witness:
  "\<exists>msg. fst (PoolSync (logged memEnv) fullPool) = Inl (Err (ReSync (60 * second)) msg)"
proof -
  let ?run = "PoolSync (logged memEnv) fullPool"
  have "\<exists>desired legacy pl s1. poolPlan (logged memEnv) (Obj fullPool) fullPool = (Inr (desired, legacy, pl), s1) \<and>
      legacy = 0 \<and> pp_desired pl = 1 \<and> pp_idle pl = []"
    by (simp add: fullPool_def pool_run_defs)
  then obtain desired legacy pl s1 where plan: "poolPlan (logged memEnv) (Obj fullPool) fullPool = (Inr (desired, legacy, pl), s1)"
    and v: "legacy = 0" "pp_desired pl = 1" "pp_idle pl = []" by blast
  have "permutes (e_sortPods memEnv)" "fits32 (legacy + pp_desired pl)" "int (length (pp_idle pl)) < 2 ^ 31"
    "legacy + pp_desired pl > GetMaxPods (Obj fullPool)"
    using v by (simp_all add: memEnv_sel fits32_def fullPool_def GetMaxPods_def)
  with pool_max_pods[OF _ plan surjective_pairing] show ?thesis by blast
qed

theorem legacy_set_shrinks_witness:
  "\<exists>s'. syncLegacySet (logged memEnv) currentSet poolSample = (Inr 0, s') \<and>
     (\<exists>cur cs' del es. logOf s' = del @ [CNSetOwnedW cur (legacySpec 0 [''p''] cur)] @ es @ logOf poolSample \<and> list_all outdates es \<and>
        (del = [] \<or> del = [CNSetW (WDelete cs')] \<and> sp_replicas (cn_spec cs') = 0 \<and> cn_statusReplicas cs' = 0))"
proof -
  have "\<exists>s'. syncLegacySet (logged memEnv) currentSet poolSample = (Inr 0, s')"
    by (simp add: syncLegacySet_def legacyPod_def legacySpec_def pool_run_defs)
  then obtain s' where run: "syncLegacySet (logged memEnv) currentSet poolSample = (Inr 0, s')" by blast
  have lst: "api_list (e_pods memEnv) (cn_ns currentSet) (MatchingLabels []) (fst (world poolSample)) =
      (Inr [samplePod ''p''], fst (world poolSample))"
    by (simp add: pool_run_defs)
  have sel: "cn_statusLabelSelector currentSet \<noteq> []" "e_parseLabelSelector memEnv (cn_statusLabelSelector currentSet) = Inr []"
    by (simp_all add: currentSet_def memEnv_sel)
  have "podNames (filter (\<lambda>x. \<not> podInUse x) (livePods [samplePod ''p''])) = [''p'']"
    by (simp add: podNames_def podInUse_def livePods_def sample_defs)
  with legacy_set_shrinks[OF sel lst run] run show ?thesis by auto
qed

end
