(* ===== verification/Pod_Phases.thy ===== *)
theory Pod_Phases
  imports CNClaim CNStore CNPool
begin

text \<open>
  The life cycle of a pooled CN pod, across the three controllers that write its phase label.

  \<^item> \<open>phaseStep\<close> is the abstract machine: which operation may move a pod from which phase to which.
  \<^item> \<open>controllerSends\<close> is the detailed system: a write is sent by a run of \<^verbatim>\<open>Bind\<close>, \<^verbatim>\<open>Observe\<close> or
    \<^verbatim>\<open>Finalize\<close> of the claim controller, \<^verbatim>\<open>Observe\<close> of the CN store controller or \<^verbatim>\<open>Sync\<close> of the pool
    controller, from any object and any world.
  \<^item> \<open>pod_writes_refine\<close>: every pod write of the detailed system is a step of the abstract machine from the
    phase its controller went by, or leaves the phase alone. \<open>bound_leaves_through_draining\<close>: in any
    interleaving of such writes a Bound pod leaves Bound only for Draining, or by a stale patch of the CN store
    controller.
\<close>

section \<open>The abstract machine\<close>

abbreviation phaseOf :: "pod \<Rightarrow> string" where
  "phaseOf p \<equiv> podLabel p CNPodPhaseLabel"

abbreviation phaseLabel :: "pod \<Rightarrow> string option" where
  "phaseLabel p \<equiv> gget (pod_labels p) CNPodPhaseLabel"

datatype pod_op = OpBind | OpSync | OpFinalize | OpStore | OpPool

inductive phaseStep :: "pod_op \<Rightarrow> string \<Rightarrow> string \<Rightarrow> bool" where
  claimTakes: "phaseStep OpBind CNPodPhaseIdle CNPodPhaseBound"
| claimKeeps: "phaseStep OpSync ph CNPodPhaseBound"
| claimMigrates: "phaseStep OpSync CNPodPhaseBound CNPodPhaseDraining"
| claimReclaims: "phaseStep OpFinalize CNPodPhaseBound CNPodPhaseDraining"
| storeRegisters: "phaseStep OpStore CNPodPhaseUnknown CNPodPhaseIdle"
| storeRecycles: "phaseStep OpStore CNPodPhaseDraining CNPodPhaseIdle"
| storeEvicts: "phaseStep OpStore CNPodPhaseDraining CNPodPhaseTerminating"
| poolRetires: "ph \<notin> {CNPodPhaseBound, CNPodPhaseDraining, CNPodPhaseTerminating} \<Longrightarrow>
    phaseStep OpPool ph CNPodPhaseTerminating"

declare phaseStep.intros [intro]

lemma phases_distinct [simp]:
  "CNPodPhaseBound \<noteq> CNPodPhaseIdle" "CNPodPhaseBound \<noteq> CNPodPhaseDraining"
  "CNPodPhaseBound \<noteq> CNPodPhaseUnknown" "CNPodPhaseBound \<noteq> CNPodPhaseTerminating"
  "CNPodPhaseDraining \<noteq> CNPodPhaseBound" "CNPodPhaseDraining \<noteq> CNPodPhaseIdle"
  "CNPodPhaseDraining \<noteq> CNPodPhaseTerminating" "CNPodPhaseIdle \<noteq> CNPodPhaseTerminating"
  by (simp_all add: CNPodPhaseBound_def CNPodPhaseIdle_def CNPodPhaseDraining_def CNPodPhaseUnknown_def
      CNPodPhaseTerminating_def)

inductive_cases fromBoundE: "phaseStep x CNPodPhaseBound ph"

lemma phaseStep_fromBound:
  "phaseStep x CNPodPhaseBound ph \<Longrightarrow>
     ph = CNPodPhaseBound \<or> ph = CNPodPhaseDraining \<and> x \<in> {OpSync, OpFinalize}"
  by (erule fromBoundE) simp_all

text \<open>The pod an update is based on is the version it names; \<open>C\<close> gives the content of each version.
  The base of a patch is the copy of the pod the patch was computed from.\<close>

type_synonym contents = "obj_key \<Rightarrow> nat \<Rightarrow> pod"

fun basePhase :: "contents \<Rightarrow> event \<Rightarrow> string" where
  "basePhase C (PodW (WPatch p p')) = phaseOf p"
| "basePhase C (PodW (WPatchStatus p p')) = phaseOf p"
| "basePhase C (PodW (WUpdate p')) = phaseOf (C (podKey p') (pod_rv p'))"
| "basePhase C _ = []"

text \<open>The write does not touch the phase label.\<close>

fun keepsPhase :: "contents \<Rightarrow> event \<Rightarrow> bool" where
  "keepsPhase C (PodW (WPatch p p')) = (phaseLabel p' = phaseLabel p)"
| "keepsPhase C (PodW (WPatchStatus p p')) = (phaseLabel p' = phaseLabel p)"
| "keepsPhase C (PodW (WUpdate p')) = (phaseLabel p' = phaseLabel (C (podKey p') (pod_rv p')))"
| "keepsPhase C _ = True"

text \<open>A write of a controller that saw the phase \<open>ob\<close> when it decided leaves the phase label alone or moves it
  by a step of the machine from \<open>ob\<close>. An update carries the version it is based on, which must have
  the phase \<open>ob\<close>; a patch carries none.\<close>

definition phaseMove :: "pod_op \<Rightarrow> string \<Rightarrow> pod \<Rightarrow> pod \<Rightarrow> bool" where
  "phaseMove x ob p p' \<longleftrightarrow> phaseLabel p' = phaseLabel p \<or> phaseStep x ob (phaseOf p')"

fun podWriteOK :: "contents \<Rightarrow> pod_op \<Rightarrow> string \<Rightarrow> event \<Rightarrow> bool" where
  "podWriteOK C x ob (PodW (WPatch p p')) = (x \<notin> {OpBind, OpPool} \<and> phaseMove x ob p p')"
| "podWriteOK C x ob (PodW (WPatchStatus p p')) = (phaseLabel p' = phaseLabel p)"
| "podWriteOK C x ob (PodW (WUpdate p')) =
     (let p = C (podKey p') (pod_rv p') in
      p' = p\<lparr>pod_labels := pod_labels p'\<rparr> \<and> ob = phaseOf p \<and> phaseMove x ob p p')"
| "podWriteOK C x ob (PodW (WDelete p)) = (x = OpStore \<and> gget (pod_labels p) DirectPodLabel \<noteq> None)"
| "podWriteOK C x ob (PodW _) = False"
| "podWriteOK C x ob _ = True"

abbreviation basedOK :: "contents \<Rightarrow> pod_op \<Rightarrow> event \<Rightarrow> bool" where
  "basedOK C x \<equiv> \<lambda>e. podWriteOK C x (basePhase C e) e"

section \<open>The detailed system\<close>

text \<open>No claim asks for the phase label among its additional pod labels: reclaiming a pod removes
  those labels.\<close>

definition plainClaim :: "cnclaim \<Rightarrow> bool" where
  "plainClaim c \<longleftrightarrow> CNPodPhaseLabel \<notin> gdom (cs_additionalPodLabels (cl_spec c))"

text \<open>\<open>controllerSends E C x ob e\<close>: a run of the operation \<open>x\<close> sent \<open>e\<close>, and the phase it went by was \<open>ob\<close>. The
  claim and the pool controller go by the pod their write is based on. The CN store controller works on
  one object that every answer of the server replaces; the handlers before the pool life cycle do not look
  at the phase, and the pool life cycle, the last thing a run does, goes by the phase it finds when it
  starts.\<close>

inductive controllerSends :: "'w env \<Rightarrow> contents \<Rightarrow> pod_op \<Rightarrow> string \<Rightarrow> event \<Rightarrow> bool" for E C where
  bind: "plainClaim c \<Longrightarrow> Bind (logged E) \<lparr>Obj = c, world = (w, [])\<rparr> = (r, s') \<Longrightarrow> e \<in> set (logOf s') \<Longrightarrow>
    controllerSends E C OpBind (basePhase C e) e"
| observe: "plainClaim c \<Longrightarrow> ClaimObserve (logged E) \<lparr>Obj = c, world = (w, [])\<rparr> = (r', s') \<Longrightarrow> e \<in> set (logOf s') \<Longrightarrow>
    controllerSends E C OpSync (basePhase C e) e"
| finalize: "plainClaim c \<Longrightarrow> ClaimFinalize (logged E) \<lparr>Obj = c, world = (w, [])\<rparr> = (b, s') \<Longrightarrow> e \<in> set (logOf s') \<Longrightarrow>
    controllerSends E C OpFinalize (basePhase C e) e"
| store: "StoreObserve (logged E) \<lparr>Obj = p, world = (w, [])\<rparr> = (r, s'') \<Longrightarrow> e \<in> set (logOf s'') \<Longrightarrow> keepsPhase C e \<Longrightarrow>
    controllerSends E C OpStore (basePhase C e) e"
| storePool: "StoreObserve (logged E) \<lparr>Obj = p, world = (w, [])\<rparr> = (r, s'') \<Longrightarrow>
    poolingCNReconcile (logged E) cs t = (r1, s'') \<Longrightarrow> logOf s'' = es @ logOf t \<Longrightarrow> e \<in> set es \<Longrightarrow>
    controllerSends E C OpStore (phaseOf (Obj t)) e"
| pool: "PoolSync (logged E) \<lparr>Obj = pool, world = (w, [])\<rparr> = (r, s3) \<Longrightarrow> e \<in> set (logOf s3) \<Longrightarrow>
    controllerSends E C OpPool (basePhase C e) e"

text \<open>The laws of the API the refinement needs: a list returns versions of pods that match its options, a
  get returns a version, a resource version has one content; sorting permutes. Nothing is assumed of
  the answer to a pod write. A claim the server answers with has no phase label among its additional
  pod labels when the one sent has none.\<close>

definition claimLaws :: "'w env \<Rightarrow> bool" where
  "claimLaws E \<longleftrightarrow>
     (\<forall>c w d w'. plainClaim c \<longrightarrow> api_update (e_claims E) c w = (Inr d, w') \<longrightarrow> plainClaim d) \<and>
     (\<forall>c w d w'. plainClaim c \<longrightarrow> api_updateStatus (e_claims E) c w = (Inr d, w') \<longrightarrow> plainClaim d) \<and>
     (\<forall>b c w d w'. plainClaim c \<longrightarrow> api_patch (e_claims E) b c w = (Inr d, w') \<longrightarrow> plainClaim d) \<and>
     (\<forall>b c w d w'. plainClaim c \<longrightarrow> api_patchStatus (e_claims E) b c w = (Inr d, w') \<longrightarrow> plainClaim d)"

definition podLaws :: "contents \<Rightarrow> 'w env \<Rightarrow> bool" where
  "podLaws C E \<longleftrightarrow>
     (\<forall>ns opt w ps w'. api_list (e_pods E) ns opt w = (Inr ps, w') \<longrightarrow>
        (\<forall>p \<in> set ps. C (podKey p) (pod_rv p) = p \<and> optMatches E opt (pod_labels p))) \<and>
     (\<forall>k w p w'. api_get (e_pods E) k w = (Inr p, w') \<longrightarrow> C (podKey p) (pod_rv p) = p) \<and>
     permutes (e_sortPods E)"

lemma podLaws_list:
  "podLaws C E \<Longrightarrow> api_list (e_pods E) ns opt w = (Inr ps, w') \<Longrightarrow> p \<in> set ps \<Longrightarrow>
     C (podKey p) (pod_rv p) = p \<and> optMatches E opt (pod_labels p)"
  unfolding podLaws_def by blast

lemma podLaws_get: "podLaws C E \<Longrightarrow> api_get (e_pods E) k w = (Inr p, w') \<Longrightarrow> C (podKey p) (pod_rv p) = p"
  unfolding podLaws_def by blast

lemma podLaws_sort: "podLaws C E \<Longrightarrow> permutes (e_sortPods E)"
  unfolding podLaws_def by blast

section \<open>The claim controller\<close>

lemma owned_phase: "ownershipLabels c ls = Some ls' \<Longrightarrow> gstr ls' CNPodPhaseLabel = CNPodPhaseBound"
  using ownershipLabels_SomeD[of c ls ls' CNPodPhaseLabel] by (auto simp: gstr_def ownedLabel_def)

lemma reclaimed_phase:
  "plainClaim c \<Longrightarrow> reclaimLabels c ls = Some ls' \<Longrightarrow> gstr ls' CNPodPhaseLabel = CNPodPhaseDraining"
  using reclaimLabels_SomeD[of c ls ls' CNPodPhaseLabel] by (auto simp: gstr_def reclaimedLabel_def plainClaim_def)

lemma transferred_phase: "gget (transferLabels c d ls) CNPodPhaseLabel = Some CNPodPhaseBound"
  by (cases "cs_additionalPodLabels (cl_spec c)"; cases "cs_additionalPodLabels (cl_spec d)"; cases ls)
    (auto simp: transferLabels_def Let_def gmake_def split: option.splits)

lemma phaseOf_Some: "phaseOf p = CNPodPhaseBound \<Longrightarrow> phaseLabel p = Some CNPodPhaseBound"
  by (auto simp: gstr_def CNPodPhaseBound_def split: option.splits)

text \<open>A copy of a pod the server served is the version it names.\<close>

abbreviation served :: "contents \<Rightarrow> pod \<Rightarrow> bool" where
  "served C p \<equiv> C (podKey p) (pod_rv p) = p"

lemma podWriteOK_labels:
  "served C p \<Longrightarrow> phaseStep x (phaseOf p) (gstr ls CNPodPhaseLabel) \<Longrightarrow>
     basedOK C x (PodW (WUpdate (p\<lparr>pod_labels := ls\<rparr>)))"
  by (simp add: phaseMove_def)

lemma ensureOwnership_moves:
  assumes "served C p" and "phaseStep x (phaseOf p) CNPodPhaseBound"
  shows "onlySends P (basedOK C x) (ensureOwnership (logged E) p)"
  unfolding ensureOwnership_def
  by (rule sendsR podWriteOK_labels assms | simp only: send_simps | simp add: owned_phase assms)+

lemma tryClaim_moves:
  "(\<And>p. p \<in> set ps \<Longrightarrow> served C p \<and> phaseOf p = CNPodPhaseIdle) \<Longrightarrow>
     onlySends P (basedOK C OpBind) (tryClaim (logged E) idx ps)"
proof (induction ps)
  case Nil
  then show ?case by (simp add: sendsR)
next
  case (Cons p ps)
  then have IH: "onlySends P (basedOK C OpBind) (tryClaim (logged E) idx ps)"
    and take: "onlySends P (basedOK C OpBind) (ensureOwnership (logged E) p)"
    by (auto intro!: ensureOwnership_moves)
  show ?case unfolding tryClaim.simps(2) by (rule sendsR take IH)+
qed

lemma claimLaws_answers:
  assumes "claimLaws E" and "plainClaim c"
  shows "api_update (e_claims E) c w = (Inr d, w') \<Longrightarrow> plainClaim d"
    and "api_updateStatus (e_claims E) c w = (Inr d, w') \<Longrightarrow> plainClaim d"
    and "api_patch (e_claims E) b c w = (Inr d, w') \<Longrightarrow> plainClaim d"
    and "api_patchStatus (e_claims E) b c w = (Inr d, w') \<Longrightarrow> plainClaim d"
  using assms unfolding claimLaws_def by blast+

lemma claimWrite_ok [simp]: "podWriteOK C x ob (ClaimW e)"
  by simp

lemmas claim_moves = onlySends_updateObj_inv onlySends_patchObj_inv

lemma plainClaim_simps [simp]:
  "plainClaim (setPhase ph c) = plainClaim c"
  "plainClaim (c\<lparr>cl_status := st\<rparr>) = plainClaim c"
  "plainClaim (bindSpec p c) = plainClaim c"
  "plainClaim (bindToPool pool c) = plainClaim c"
  "plainClaim (clearPodRef c) = plainClaim c"
  "plainClaim (c\<lparr>cl_spec := (cl_spec c)\<lparr>cs_sourcePod := None\<rparr>\<rparr>) = plainClaim c"
  by (simp_all add: plainClaim_def setPhase_def bindSpec_def bindToPool_def clearPodRef_def Let_def)

lemma claimWrites_move:
  assumes "claimLaws E"
  shows "onlySends plainClaim (basedOK C x) (syncBindPod (logged E) p)"
    and "onlySends plainClaim (basedOK C x) (completeMigration (logged E))"
    and "onlySends plainClaim (basedOK C x) (reportProgress (logged E) p)"
    and "onlySends plainClaim (basedOK C x) (markLost (logged E))"
    and "onlySends plainClaim (basedOK C x) (nominatePool (logged E))"
  unfolding syncBindPod_def recordBind_def completeMigration_def reportProgress_def markLost_def nominatePool_def
  by (rule claim_moves sendsR | simp only: send_simps | (erule claimLaws_answers[OF assms, rotated], simp) | simp)+

lemma reclaimCN_moves:
  assumes "phaseStep x (phaseOf p) CNPodPhaseDraining"
  shows "onlySends plainClaim (basedOK C x) (reclaimCN (logged E) p [])"
  using assms by (intro reclaimCN_sends) (auto simp: phaseMove_def reclaimed_phase elim: phaseStep.cases)

lemma migrate_moves:
  assumes "claimLaws E"
  shows "onlySends plainClaim (basedOK C OpSync) (migrate (logged E))"
  unfolding migrate_def migrateSource_def
  by (rule claimWrites_move[OF assms] reclaimCN_moves sendsR
      | simp only: send_simps | simp add: claimMigrates)+

lemma callW_get_served:
  "podLaws C E \<Longrightarrow> callW (api_get (e_pods (logged E)) k) s = (Inr p, s') \<Longrightarrow> served C p"
  by (auto simp: callW_def readL_def dest: podLaws_get split: prod.splits)

lemma attempt_InrInr: "attempt m s = (Inr (Inr x), s') \<Longrightarrow> m s = (Inr x, s')"
  by (auto simp: attempt_def split: prod.splits sum.splits if_splits)

lemma ListPods_served:
  "podLaws C E \<Longrightarrow> ListPods (logged E) ns opt s = (Inr ps, s') \<Longrightarrow> p \<in> set ps \<Longrightarrow>
     served C p \<and> optMatches E opt (pod_labels p)"
  by (auto simp: ListPods_logged dest: podLaws_list split: prod.splits)

lemma listIgnoreNotFound_served:
  assumes "podLaws C E" and "listIgnoreNotFound m (ListPods (logged E) ns opt) s = (Inr ps, s')" and "p \<in> set ps"
  shows "served C p \<and> optMatches E opt (pod_labels p)"
  using listIgnoreNotFound_InrD[OF assms(2)] ListPods_served[OF assms(1)] assms(3) by fastforce

lemma listIgnoreNotFound_sends [sendsR]: "onlySends P ok m \<Longrightarrow> onlySends P ok (listIgnoreNotFound msg m)"
  unfolding listIgnoreNotFound_def by (rule sendsR | assumption)+

lemma buildPodClaimIndex_sends [sendsR]: "onlySends P ok (buildPodClaimIndex (logged E) ns x)"
  unfolding buildPodClaimIndex_def by (rule sendsR | simp only: send_simps)+

lemma ClaimSync_moves:
  assumes cl: "claimLaws E" and pd: "podLaws C E"
  shows "onlySends plainClaim (basedOK C OpSync) (ClaimSync (logged E))"
proof -
  have keep: "onlySends plainClaim (basedOK C OpSync) (ensureOwnership (logged E) p)" if "served C p" for p
    by (intro ensureOwnership_moves that claimKeeps)
  show ?thesis unfolding ClaimSync_def
  proof (rule onlySends_getObj, rule onlySends_bind_run, goal_cases)
    case (1 c)
    show ?case by (rule sendsR | simp only: send_simps)+
  next
    case (2 c s r s1)
    have get: "served C p" if "r = Inr p" for p
      using attempt_InrInr[OF 2(3)[unfolded that]] by (rule callW_get_served[OF pd])
    show ?case by (rule keep get claimWrites_move[OF cl] migrate_moves[OF cl] sendsR | assumption | simp)+
  qed
qed

lemma ClaimObserve_moves:
  "claimLaws E \<Longrightarrow> podLaws C E \<Longrightarrow> onlySends plainClaim (basedOK C OpSync) (ClaimObserve (logged E))"
  unfolding ClaimObserve_def by (rule ClaimSync_moves sendsR | assumption)+

lemma selectCN_moves:
  assumes pd: "podLaws C E"
  shows "onlySends P (basedOK C OpBind) (selectCN (logged E) orphans)"
proof -
  have list: "onlySends P (basedOK C OpBind) (bindR (idleSelector (logged E) c) (\<lambda>sel.
      bindR (listIgnoreNotFound m (ListPods (logged E) ns (MatchingLabelsSelector sel))) (\<lambda>idle.
      bindR (wrapE m' (buildPodClaimIndex (logged E) ns n)) (\<lambda>idx.
      tryClaim (logged E) idx (sortCNByPriority (logged E) c idle)))))" for c m m' ns n
  proof (rule onlySends_bind_run, goal_cases)
    case 1
    show ?case unfolding idleSelector_def Let_def by (rule sendsR | simp only: send_simps)+
  next
    case (2 s sel s1)
    note sel = 2(2)
    show ?case
    proof (rule onlySends_bind_run, goal_cases)
      case (2 s2 idle s3)
      have "served C p \<and> phaseOf p = CNPodPhaseIdle" if "p \<in> set (sortCNByPriority (logged E) c idle)" for p
      proof -
        have "set (sortCNByPriority (logged E) c idle) = set idle"
          using podLaws_sort[OF pd] unfolding permutes_def sortCNByPriority_def by (metis logged_simps(29) mset_eq_setD)
        with that listIgnoreNotFound_served[OF pd 2(2)] have "served C p" "optMatches E (MatchingLabelsSelector sel) (pod_labels p)"
          by blast+
        with idle_match[OF sel, of "pod_labels p"] show ?thesis by (simp add: gstr_def)
      qed
      then show ?case by (rule onlySends_bind[OF onlySends_wrapE[OF buildPodClaimIndex_sends] tryClaim_moves])
    qed (rule sendsR)+
  qed
  show ?thesis unfolding selectCN_def Let_def by (rule list | rule sendsR)+
qed

lemma Bind_moves:
  assumes cl: "claimLaws E" and pd: "podLaws C E"
  shows "onlySends plainClaim (basedOK C OpBind) (Bind (logged E))"
  unfolding Bind_def claimCN_def
  by (rule selectCN_moves[OF pd] claimWrites_move[OF cl] sendsR | simp only: send_simps | simp)+

lemma finalizeOwned_moves:
  assumes "\<And>p. p \<in> set owned \<Longrightarrow> phaseOf p = CNPodPhaseBound"
  shows "onlySends plainClaim (basedOK C OpFinalize) (finalizeOwned (logged E) c idx owned)"
  using assms
proof (induction owned)
  case Nil
  then show ?case by (simp add: sendsR)
next
  case (Cons p ps)
  then have IH: "onlySends plainClaim (basedOK C OpFinalize) (finalizeOwned (logged E) c idx ps)"
    and drain: "onlySends plainClaim (basedOK C OpFinalize) (reclaimCN (logged E) p [])"
    and bound: "phaseOf p = CNPodPhaseBound"
    by (auto intro!: reclaimCN_moves simp: claimReclaims)
  show ?case unfolding finalizeOwned.simps(2) transferPodOwnership_def
    by (rule sendsR drain IH | simp only: send_simps | simp add: phaseMove_def transferred_phase phaseOf_Some bound)+
qed

lemma ClaimFinalize_moves:
  assumes pd: "podLaws C E"
  shows "onlySends plainClaim (basedOK C OpFinalize) (ClaimFinalize (logged E))"
  unfolding ClaimFinalize_def
proof (rule onlySends_getObj, rule onlySends_bind_run, goal_cases)
  case (2 c s owned s1)
  have "phaseOf p = CNPodPhaseBound" if "p \<in> set owned" for p
    using listIgnoreNotFound_served[OF pd 2(3) that] by (simp add: ownedByClaim_def gstr_def)
  then show ?case by (auto intro!: sendsR finalizeOwned_moves)
qed (rule sendsR)+

section \<open>The CN store controller\<close>

lemma sendsFrom_patchPodM [fromR]:
  assumes "\<And>x y. P x \<Longrightarrow> f x = Inr y \<Longrightarrow> ok (PodW (WPatch x y))"
  shows "sendsFrom P ok (patchPodM (logged E) f)"
  unfolding sendsFrom_def by (intro allI impI, erule patchPodM_log) (auto simp: assms)

text \<open>Most patches of the CN store controller leave the phase label alone.\<close>

lemma keepsPhase_ok: "phaseLabel p' = phaseLabel p \<Longrightarrow> podWriteOK C OpStore ob (PodW (WPatch p p'))"
  by (simp add: phaseMove_def)

lemma putLabel_other: "k \<noteq> CNPodPhaseLabel \<Longrightarrow> putLabel k v p = Inr p' \<Longrightarrow> phaseLabel p' = phaseLabel p"
  by (auto simp: putLabel_def gput_def gstr_def split: option.splits)

lemma readinessPatch_labels: "pod_labels (readinessPatch st msg now p) = pod_labels p"
  by (auto simp: readinessPatch_def setCNState_def Let_def split: option.splits)

lemma statsPatch_phase: "statsPatch E sc p = Inr p' \<Longrightarrow> phaseLabel p' = phaseLabel p"
  by (cases "pod_labels p")
    (auto simp: statsPatch_def SetStoreScore_def CNUUIDLabelKey_def CNPodPhaseLabel_def gmake_def split: sum.splits)

lemma storeHandlers_move:
  "onlySends (\<lambda>_. True) (podWriteOK C OpStore ob) (patchCNReadiness (logged E) st msg)"
  "onlySends (\<lambda>_. True) (podWriteOK C OpStore ob) (diagnosisDraining (logged E))"
  "onlySends (\<lambda>_. True) (podWriteOK C OpStore ob) (completeDraining (logged E))"
  "onlySends (\<lambda>_. True) (podWriteOK C OpStore ob) (OnDeleted (logged E))"
  "onlySends (\<lambda>_. True) (podWriteOK C OpStore ob) (OnCordon (logged E) cs)"
  "onlySends (\<lambda>_. True) (podWriteOK C OpStore ob) (defaultCNNormalReconcile (logged E) cs)"
  unfolding diagnosisDraining_def completeDraining_def OnDeleted_def OnCordon_def defaultCNNormalReconcile_def
  by (rule sendsR | simp only: send_simps
      | simp add: phaseMove_def readinessPatch_labels removeFinalizer_def clearDraining_def)+

lemma OnPreparingStop_moves: "onlySends (\<lambda>_. True) (podWriteOK C OpStore ob) (OnPreparingStop (logged E) cs)"
  unfolding OnPreparingStop_def drainRound_def drainStart_def drainStep_def handleConnectionDraining_def handleLockMigration_def
  by (rule storeHandlers_move onlySends_prod sendsR | simp only: send_simps
      | simp add: phaseMove_def | (drule putAnno_keeps, simp add: phaseMove_def))+

lemma syncStats_moves: "onlySends (\<lambda>_. True) (podWriteOK C OpStore ob) (syncStats (logged E) cs)"
  unfolding syncStats_def patchStoreStats_def collectQueryStats_def recordQuery_def getSessionCount_def
    getPipelineCount_def getReplicaCount_def
  by (rule sendsR | simp only: send_simps | (drule statsPatch_phase, rule keepsPhase_ok, assumption) | simp)+

text \<open>Every write of a phase by the pool life cycle is a step from the phase the life cycle found when it
  started, whatever the server answered in between.\<close>

lemma drainingWrites:
  "phaseOf p' \<in> {CNPodPhaseIdle, CNPodPhaseTerminating} \<Longrightarrow> podWriteOK C OpStore CNPodPhaseDraining (PodW (WPatch p p'))"
  by (auto simp: phaseMove_def)

lemma putLabel_idle: "putLabel CNPodPhaseLabel CNPodPhaseIdle p = Inr p' \<Longrightarrow> phaseOf p' = CNPodPhaseIdle"
  by (auto simp: putLabel_def gput_def split: option.splits)

lemma recycleLabels_idle: "recycleLabels p = Inr p' \<Longrightarrow> phaseOf p' = CNPodPhaseIdle"
  unfolding recycleLabels_def by (rule putLabel_idle)

lemma poolDraining_moves:
  "onlySends (\<lambda>_. True) (podWriteOK C OpStore CNPodPhaseDraining) (poolDraining (logged E) cs p)"
  unfolding poolDraining_def patchPhase_def evictPoolPodGracefully_def
  by (rule storeHandlers_move sendsR | simp only: send_simps
      | (rule drainingWrites, drule putLabel_idle, simp) | (rule drainingWrites, drule recycleLabels_idle, simp)
      | (rule drainingWrites, simp add: evictLabels_phase) | simp)+

lemma pooling_moves:
  "sendsFrom (\<lambda>x. x = p) (podWriteOK C OpStore (phaseOf p)) (poolingCNReconcile (logged E) cs)"
proof -
  have register: "onlySends (\<lambda>_. True) (podWriteOK C OpStore CNPodPhaseUnknown)
      (patchPodM (logged E) (putLabel CNPodPhaseLabel CNPodPhaseIdle))"
    by (rule sendsR, simp, drule putLabel_idle, auto simp: phaseMove_def)
  have body: "sendsFrom (\<lambda>x. x = p) (podWriteOK C OpStore (phaseOf p)) (if phaseOf p = CNPodPhaseDraining then poolDraining (logged E) cs p
     else if phaseOf p = CNPodPhaseBound \<or> phaseOf p = CNPodPhaseIdle
     then patchCNReadiness (logged E) ConditionTrue messageCNStoreReady
     else if phaseOf p = CNPodPhaseUnknown then
       (if ready then
          bindR (wrapE ''error patch CN phase idle'' (patchPodM (logged E) (putLabel CNPodPhaseLabel CNPodPhaseIdle))) (\<lambda>_.
          patchCNReadiness (logged E) ConditionTrue messageCNStoreReady)
        else patchCNReadiness (logged E) ConditionFalse messageCNStoreNotRegistered)
     else if phaseOf p = CNPodPhaseTerminating then ret ()
     else errorf (''unkown CN phase '' @ phaseOf p))" for ready
    using poolDraining_moves[of C E cs p] register
    by (intro fromR; intro sendsFrom_any) (auto intro!: storeHandlers_move sendsR)
  show ?thesis unfolding poolingCNReconcile_def Let_def
    by (rule sendsFrom_getObj, erule ssubst, rule sendsFrom_bind[OF _ body]) (rule sendsR | simp only: send_simps | simp)+
qed

text \<open>How a run of the CN store controller ends: writes that leave the phase alone, then possibly one run of
  the pool life cycle, in whose last state the whole run ends.\<close>

definition endsIn :: "('e \<Rightarrow> bool) \<Rightarrow> (('o, ('w, 'e) elog) ctx \<Rightarrow> ('o, ('w, 'e) elog) ctx \<Rightarrow> bool) \<Rightarrow>
    (('o, ('w, 'e) elog) ctx, 'a) rm \<Rightarrow> bool" where
  "endsIn ok Q m \<longleftrightarrow> (\<forall>s r s'. m s = (r, s') \<longrightarrow>
     (\<exists>t es. logOf t = es @ logOf s \<and> (\<forall>e \<in> set es. ok e) \<and> (t = s' \<or> Q t s')))"

lemma endsIn_sends: "onlySends (\<lambda>_. True) ok m \<Longrightarrow> endsIn ok Q m"
  unfolding onlySends_def endsIn_def by blast

lemma endsIn_tail: "endsIn ok (\<lambda>t s'. \<exists>r. m t = (r, s')) m"
  unfolding endsIn_def by fastforce

lemma endsIn_mono: "endsIn ok Q m \<Longrightarrow> (\<And>t s'. Q t s' \<Longrightarrow> Q' t s') \<Longrightarrow> endsIn ok Q' m"
  unfolding endsIn_def by meson

lemma endsIn_bind:
  assumes m: "onlySends (\<lambda>_. True) ok m" and f: "\<And>x. endsIn ok Q (f x)"
  shows "endsIn ok Q (bindR m f)"
  unfolding endsIn_def
proof (intro allI impI)
  fix s r s' assume "bindR m f s = (r, s')"
  then show "\<exists>t es. logOf t = es @ logOf s \<and> (\<forall>e \<in> set es. ok e) \<and> (t = s' \<or> Q t s')"
  proof (cases rule: bindR_cases)
    case (err e)
    with endsIn_sends[OF m, of Q] show ?thesis unfolding endsIn_def by blast
  next
    case (ok x s1)
    obtain es where es: "logOf s1 = es @ logOf s" "\<forall>e \<in> set es. ok e" by (rule onlySendsD[OF m _ ok(1)]) simp_all
    obtain t es' where "logOf t = es' @ logOf s1" "\<forall>e \<in> set es'. ok e" "t = s' \<or> Q t s'"
      using f[of x] ok(2) unfolding endsIn_def by blast
    with es show ?thesis by (intro exI[of _ t] exI[of _ "es' @ es"]) auto
  qed
qed

lemma endsIn_if: "endsIn ok Q m \<Longrightarrow> endsIn ok Q n \<Longrightarrow> endsIn ok Q (if b then m else n)"
  by simp

lemma endsIn_getObj: "(\<And>p. endsIn ok Q (f p)) \<Longrightarrow> endsIn ok Q (bindR getObj f)"
  unfolding endsIn_def by (simp add: bindR_Inr[of getObj, OF getObj_def])

lemma endsIn_then_quiet:
  "endsIn ok Q m \<Longrightarrow> (\<And>x s. snd (f x s) = s) \<Longrightarrow> endsIn ok Q (bindR m f)"
  unfolding endsIn_def by (intro allI impI, erule bindR_cases) (metis snd_conv)+

lemma quietObj: "onlySends (\<lambda>_. True) ok getObj"
  by (rule onlySends_quiet) (simp add: getObj_def)

lemma OnNormal_ends:
  "endsIn (podWriteOK C OpStore ob) (\<lambda>t s'. \<exists>r. poolingCNReconcile (logged E) cs t = (r, s')) (OnNormal (logged E) cs)"
proof -
  have prepare: "podWriteOK C OpStore ob (PodW (WPatch p p'))" if "putLabel LifecycleStateKey v p = Inr p'" for v p p'
    using that by (intro keepsPhase_ok putLabel_other[of LifecycleStateKey]) (simp_all add: LifecycleStateKey_def CNPodPhaseLabel_def)
  have finalizer: "podWriteOK C OpStore ob (PodW (WPatch p (addFinalizer p)))"
    and annos: "podWriteOK C OpStore ob (PodW (WPatch p (p\<lparr>pod_annos := as\<rparr>)))" for p as
    by (simp_all add: phaseMove_def addFinalizer_def)
  have last: "endsIn (podWriteOK C OpStore ob) (\<lambda>t s'. \<exists>r. poolingCNReconcile (logged E) cs t = (r, s'))
      (if b then bindR (patchPodM (logged E) (putLabel LifecycleStateKey v)) (\<lambda>_. ErrReSync m d)
       else if b' then poolingCNReconcile (logged E) cs else defaultCNNormalReconcile (logged E) cs)" for b b' v m d
    by (intro endsIn_if endsIn_tail endsIn_sends[OF storeHandlers_move(6)] endsIn_sends onlySends_bind)
      (rule sendsR TrueI | erule prepare)+
  show ?thesis unfolding OnNormal_def
    by (intro endsIn_bind last)
      (rule quietObj sendsR TrueI | simp only: logged_simps logKind_simps | rule finalizer annos)+
qed

lemma StoreObserve_ends:
  "endsIn (podWriteOK C OpStore ob) (\<lambda>t s'. \<exists>cs r. poolingCNReconcile (logged E) cs t = (r, s')) (StoreObserve (logged E))"
proof -
  have normal: "endsIn (podWriteOK C OpStore ob) (\<lambda>t s'. \<exists>cs r. poolingCNReconcile (logged E) cs t = (r, s'))
      (bindR (OnNormal (logged E) cs) (\<lambda>_. ErrReSync m d))" for cs m d
    by (rule endsIn_then_quiet[OF endsIn_mono[OF OnNormal_ends]]) (blast, simp add: ErrReSync_def throw_def)
  show ?thesis unfolding StoreObserve_def OnPreparingUpdate_def
    by (intro endsIn_bind endsIn_if normal)
      (rule quietObj endsIn_sends OnPreparingStop_moves syncStats_moves storeHandlers_move sendsR)+
qed

section \<open>The pool controller\<close>

lemma poolPlan_idle:
  assumes pd: "podLaws C E" and plan: "poolPlan (logged E) p s = (Inr (desired, legacy, pl), s')" and x: "x \<in> set (pp_idle pl)"
  shows "served C x" and "idlePod x"
proof -
  obtain pods where pods: "listedPods (logged E) pods" "pp_idle pl = filter idlePod (livePods pods)"
    using poolPlan_spec(2)[OF plan] by blast
  with x have "x \<in> set pods" and idle: "idlePod x" by (auto simp: livePods_def)
  with listedPods_logged[OF pods(1)] obtain ns opt w w' where "api_list (e_pods E) ns opt w = (Inr pods, w')"
    by (auto simp: listedPods_def)
  from podLaws_list[OF pd this \<open>x \<in> set pods\<close>] show "served C x" by blast
  show "idlePod x" by (rule idle)
qed

lemma PoolSync_moves:
  assumes pd: "podLaws C E"
  shows "onlySends (\<lambda>_. True) (basedOK C OpPool) (PoolSync (logged E))"
  unfolding PoolSync_def
proof (rule onlySends_getObj, rule onlySends_bind_run, goal_cases)
  case (1 p)
  show ?case by (rule onlySends_mono[OF poolPlan_sends], erule legacyEvent.elims) simp_all
next
  case (2 p s r s')
  obtain desired legacy pl where r: "r = (desired, legacy, pl)" by (cases r) auto
  have retire: "basedOK C OpPool (PodW e)" if "x \<in> set (pp_idle pl)" "terminates x e" for x e
    using that(2) poolPlan_idle[OF pd 2(3)[unfolded r] that(1)]
    by (auto simp: terminates_def idlePod_def podInUse_def phaseMove_def gput_def intro!: poolRetires split: option.splits)
  show ?case unfolding r CreateOwnedOrUpdate_def Let_def prod.case
    by (rule applyPlan_sends podLaws_sort[OF pd] retire sendsR | simp only: send_simps | assumption | simp)+
qed

section \<open>The refinement\<close>

lemma onlySends_event:
  assumes "onlySends P ok m" and "m \<lparr>Obj = c, world = (w, [])\<rparr> = (r, s')" and "e \<in> set (logOf s')" and "P c"
  shows "ok e"
proof -
  have "P (Obj \<lparr>Obj = c, world = (w, [])\<rparr>)" using assms(4) by simp
  with assms(1) obtain es where es: "logOf s' = es @ logOf \<lparr>Obj = c, world = (w, [])\<rparr>" "\<forall>e \<in> set es. ok e"
    using assms(2) by (rule onlySendsD)
  with assms(3) show ?thesis by simp
qed

lemma store_keeps: "podWriteOK C OpStore CNPodPhaseBound e \<Longrightarrow> keepsPhase C e"
  by (cases "(C, e)" rule: keepsPhase.cases) (auto simp: phaseMove_def Let_def elim: fromBoundE)

lemma podWriteOK_rebase: "podWriteOK C x ob e \<Longrightarrow> keepsPhase C e \<Longrightarrow> podWriteOK C x (basePhase C e) e"
  by (cases "(C, e)" rule: keepsPhase.cases) (auto simp: phaseMove_def Let_def)

lemma pooling_event:
  "poolingCNReconcile (logged E) cs t = (r, s') \<Longrightarrow> logOf s' = es @ logOf t \<Longrightarrow> e \<in> set es \<Longrightarrow>
     podWriteOK C OpStore (phaseOf (Obj t)) e"
  using pooling_moves[of "Obj t" C E cs] unfolding sendsFrom_def by fastforce

text \<open>Every event of a run of the CN store controller leaves the phase alone, or the run ended in a run of
  the pool life cycle that sent it.\<close>

lemma StoreObserve_event:
  assumes "StoreObserve (logged E) \<lparr>Obj = p, world = (w, [])\<rparr> = (r, s')" and "e \<in> set (logOf s')"
  obtains (kept) "podWriteOK C OpStore CNPodPhaseBound e" and "keepsPhase C e"
  | (pooled) cs t r1 es where "poolingCNReconcile (logged E) cs t = (r1, s')" and "logOf s' = es @ logOf t" and "e \<in> set es"
proof -
  obtain t es where t: "logOf t = es" "\<forall>e \<in> set es. podWriteOK C OpStore CNPodPhaseBound e"
    and ends: "t = s' \<or> (\<exists>cs r1. poolingCNReconcile (logged E) cs t = (r1, s'))"
    using StoreObserve_ends[of C CNPodPhaseBound E, unfolded endsIn_def, rule_format, OF assms(1)] by auto
  show thesis
  proof (cases "e \<in> set es")
    case True
    with t(2) kept store_keeps show thesis by blast
  next
    case False
    with assms(2) t(1) ends obtain cs r1 where pool: "poolingCNReconcile (logged E) cs t = (r1, s')" by auto
    with pooling_moves[of "Obj t" C E cs] obtain es' where es': "logOf s' = es' @ logOf t" unfolding sendsFrom_def by blast
    with assms(2) t(1) False have "e \<in> set es'" by auto
    with pool es' pooled show thesis by blast
  qed
qed

lemma controllerSends_ok:
  assumes pd: "podLaws C E" and cl: "claimLaws E" and sends: "controllerSends E C x ob e"
  shows "podWriteOK C x ob e"
  using sends
proof cases
  case (bind c w r s')
  show ?thesis unfolding bind(1,2) by (rule onlySends_event[OF Bind_moves[OF cl pd] bind(4,5,3)])
next
  case (observe c w r s')
  show ?thesis unfolding observe(1,2) by (rule onlySends_event[OF ClaimObserve_moves[OF cl pd] observe(4,5,3)])
next
  case (finalize c w r s')
  show ?thesis unfolding finalize(1,2) by (rule onlySends_event[OF ClaimFinalize_moves[OF pd] finalize(4,5,3)])
next
  case (store p w r s')
  from store(3,4) obtain ob where "podWriteOK C OpStore ob e"
    by (rule StoreObserve_event[where C = C]) (blast dest: pooling_event)+
  then show ?thesis unfolding store(1,2) by (rule podWriteOK_rebase) (rule store(5))
next
  case (storePool p w r s' cs t r1 es)
  then show ?thesis using pooling_event by blast
next
  case (pool p w r s')
  show ?thesis unfolding pool(1,2) by (rule onlySends_event[OF PoolSync_moves[OF pd] pool(3,4) TrueI])
qed

lemma store_covered:
  assumes "StoreObserve (logged E) \<lparr>Obj = p, world = (w, [])\<rparr> = (r, s')" and "e \<in> set (logOf s')"
  shows "\<exists>ob. controllerSends E C OpStore ob e"
  using assms by (rule StoreObserve_event[where C = C]) (use assms in \<open>blast intro: controllerSends.intros\<close>)+

text \<open>C4 (all controllers): the controllers implement one state machine of the pod phase. Whatever the API
  server answers to a pod write, every write to a pod that a run of the claim controller, the CN store
  controller or the pool controller sends either leaves the phase label alone or moves it by a step the
  machine \<open>phaseStep\<close> allows to that controller from the phase it went by: Bind takes an Idle pod, a claim
  keeps the pod it names Bound and drains only a Bound pod, the store controller moves Unknown to Idle and
  Draining to Idle or Terminating, the pool retires only a pod that is neither Bound, Draining nor
  Terminating. Updates change nothing but labels and are bound to the version whose phase the controller
  went by, and the only deletion is of a direct pod by the store controller. No write of the store
  controller escapes: each keeps the phase or was sent by the pool life cycle the run ended in, from the
  phase this found when it started.\<close>

theorem pod_writes_refine:
  assumes "podLaws C E" and "claimLaws E"
  shows "(\<forall>x ob e. controllerSends E C x ob e \<longrightarrow> podWriteOK C x ob e) \<and>
    (\<forall>p w r s' e. StoreObserve (logged E) \<lparr>Obj = p, world = (w, [])\<rparr> = (r, s') \<longrightarrow> e \<in> set (logOf s') \<longrightarrow>
       (\<exists>ob. controllerSends E C OpStore ob e))"
  by (intro conjI allI impI) (erule controllerSends_ok[OF assms], rule store_covered)

section \<open>Histories of a pod\<close>

text \<open>The phase the server holds after a write. A merge patch carries the labels that differ between its two
  objects and no resource version: it is applied to whatever the server holds. An update is accepted only
  on the version it names. The status subresource has no labels.\<close>

fun phaseAfter :: "contents \<Rightarrow> event \<Rightarrow> string \<Rightarrow> string option" where
  "phaseAfter C (PodW (WPatch p p')) cur = Some (if phaseLabel p' = phaseLabel p then cur else phaseOf p')"
| "phaseAfter C (PodW (WPatchStatus p p')) cur = Some cur"
| "phaseAfter C (PodW (WUpdate p')) cur = (if phaseOf (C (podKey p') (pod_rv p')) = cur then Some (phaseOf p') else None)"
| "phaseAfter C _ cur = None"

text \<open>A history of a pod: writes of the controllers in any order, each accepted by the server in the phase it
  holds then, however old the pod the write was computed from. The trace has the controller, the phase it
  went by and the phase the server holds afterwards.\<close>

inductive podHistory :: "'w env \<Rightarrow> contents \<Rightarrow> string \<Rightarrow> (pod_op \<times> string \<times> string) list \<Rightarrow> string \<Rightarrow> bool" for E C ph0 where
  start: "podHistory E C ph0 [] ph0"
| wrote: "podHistory E C ph0 tr cur \<Longrightarrow> controllerSends E C x ob e \<Longrightarrow> phaseAfter C e cur = Some cur' \<Longrightarrow>
    podHistory E C ph0 (tr @ [(x, ob, cur')]) cur'"

text \<open>The writes that take the label away from a Bound pod: the claim controller drains it, or the store
  controller, which saw the pod before it was Bound, sends a patch that no version guards.\<close>

definition drains :: "pod_op \<times> string \<times> string \<Rightarrow> bool" where
  "drains = (\<lambda>(x, ob, ph). x \<in> {OpSync, OpFinalize} \<and> ob = CNPodPhaseBound \<and> ph = CNPodPhaseDraining)"

definition stalePatch :: "pod_op \<times> string \<times> string \<Rightarrow> bool" where
  "stalePatch = (\<lambda>(x, ob, ph). x = OpStore \<and>
     (ob, ph) \<in> {(CNPodPhaseUnknown, CNPodPhaseIdle), (CNPodPhaseDraining, CNPodPhaseIdle), (CNPodPhaseDraining, CNPodPhaseTerminating)})"

abbreviation staysBound :: "(pod_op \<times> string \<times> string) list \<Rightarrow> bool" where
  "staysBound \<equiv> list_all (\<lambda>(x, ob, ph). ph = CNPodPhaseBound)"

lemma phaseStep_leaves:
  "phaseStep x ob ph \<Longrightarrow> x \<noteq> OpPool \<Longrightarrow> ph \<noteq> CNPodPhaseBound \<Longrightarrow> drains (x, ob, ph) \<or> stalePatch (x, ob, ph)"
  by (cases rule: phaseStep.cases, assumption) (simp_all add: drains_def stalePatch_def)

lemma write_to_Bound:
  assumes "podWriteOK C x ob e" and "phaseAfter C e CNPodPhaseBound = Some ph"
  shows "ph = CNPodPhaseBound \<or> drains (x, ob, ph) \<or> stalePatch (x, ob, ph)"
  using assms
proof (cases "(C, e, CNPodPhaseBound)" rule: phaseAfter.cases)
  case (1 C' p p' cur)
  with assms have "x \<noteq> OpPool" and "ph = CNPodPhaseBound \<or> phaseStep x ob ph"
    by (auto simp: phaseMove_def split: if_splits)
  with phaseStep_leaves show ?thesis by blast
next
  case (3 C' p' cur)
  with assms have "ob = CNPodPhaseBound" and "ph = phaseOf p'"
    and "phaseLabel p' = phaseLabel (C (podKey p') (pod_rv p')) \<or> phaseStep x CNPodPhaseBound ph"
    by (auto simp: phaseMove_def Let_def split: if_splits)
  moreover from 3 assms have "phaseOf (C (podKey p') (pod_rv p')) = CNPodPhaseBound" by (simp split: if_splits)
  ultimately show ?thesis using phaseStep_fromBound[of x ph] by (auto simp: gstr_def drains_def)
qed simp_all

text \<open>C7 (all controllers): how a pod that serves a claim stops being Bound. In any interleaving of writes of
  the controllers, each computed from a copy of any age, that starts from a Bound pod, the pod stays Bound or
  the first write after which it is not is one of two: the claim controller moves the pod it saw Bound to
  Draining, in a migration or when the claim is deleted, or the CN store controller, which went by an
  Unknown or Draining pod, sends its patch to Idle or Terminating although the pod is Bound by now. The pool
  controller never takes a Bound pod: its writes are updates of the version it saw. The second case is
  the race left by patching the phase without a resource version.\<close>

theorem bound_leaves_through_draining:
  assumes "podLaws C E" and "claimLaws E" and "podHistory E C CNPodPhaseBound tr ph"
  shows "staysBound tr \<and> ph = CNPodPhaseBound \<or>
    (\<exists>before st after. tr = before @ st # after \<and> staysBound before \<and> (drains st \<or> stalePatch st))"
  using assms(3)
proof induction
  case start
  then show ?case by simp
next
  case (wrote tr cur x ob e cur')
  from wrote.IH show ?case
  proof (elim disjE conjE exE)
    assume tr: "staysBound tr" and "cur = CNPodPhaseBound"
    with write_to_Bound[OF controllerSends_ok[OF assms(1,2) wrote.hyps(2)]] wrote.hyps(3)
    have "cur' = CNPodPhaseBound \<or> drains (x, ob, cur') \<or> stalePatch (x, ob, cur')" by blast
    then show ?thesis
    proof
      assume "cur' = CNPodPhaseBound"
      with tr show ?thesis by simp
    next
      assume "drains (x, ob, cur') \<or> stalePatch (x, ob, cur')"
      with tr show ?thesis by (intro disjI2 exI[of _ tr] exI[of _ "(x, ob, cur')"] exI[of _ "[]"]) simp
    qed
  qed fastforce+
qed

section \<open>A run of the whole system\<close>

text \<open>An API server with one Bound pod, which nobody else writes.\<close>

definition phaseEnv :: "mem env" where
  "phaseEnv = memEnv\<lparr>
     e_pods := memPods\<lparr>api_list := (\<lambda>ns opt w. (Inr (filter (\<lambda>p. memMatches opt (pod_labels p)) [boundPod ''p0'']), w)),
       api_get := (\<lambda>k w. (Inl notFoundErr, w)),
       api_patch := (\<lambda>p p' w. (Inr p', w))\<rparr>,
     e_claims := memClaims\<lparr>api_update := (\<lambda>c w. (Inr c, w)), api_updateStatus := (\<lambda>c w. (Inr c, w)),
       api_patch := (\<lambda>b c w. (Inr c, w)), api_patchStatus := (\<lambda>b c w. (Inr c, w))\<rparr>\<rparr>"

definition phaseContents :: contents where
  "phaseContents k v = boundPod ''p0''"

lemma phaseEnv_matches: "optMatches phaseEnv opt ls = optMatches memEnv opt ls"
  by (cases opt) (simp_all add: phaseEnv_def)

lemma phaseEnv_sel:
  "api_list (e_pods phaseEnv) ns opt w = (Inr (filter (\<lambda>p. memMatches opt (pod_labels p)) [boundPod ''p0'']), w)"
  "api_get (e_pods phaseEnv) k w = (Inl notFoundErr, w)"
  "api_patch (e_pods phaseEnv) p p' w = (Inr p', w)"
  "api_update (e_claims phaseEnv) c w = (Inr c, w)"
  "api_updateStatus (e_claims phaseEnv) c w = (Inr c, w)"
  "api_patch (e_claims phaseEnv) b c w = (Inr c, w)"
  "api_patchStatus (e_claims phaseEnv) b c w = (Inr c, w)"
  "api_list (e_claims phaseEnv) = api_list memClaims"
  "e_cnsets phaseEnv = e_cnsets memEnv" "e_logsets phaseEnv = e_logsets memEnv"
  "e_getOther phaseEnv = e_getOther memEnv" "e_mo phaseEnv = e_mo memEnv" "e_now phaseEnv = e_now memEnv"
  "e_formatTime phaseEnv = e_formatTime memEnv" "e_isReady phaseEnv = e_isReady memEnv"
  "e_sha256hex phaseEnv = e_sha256hex memEnv" "e_sortPods phaseEnv = insertionSort"
  by (simp_all add: phaseEnv_def memEnv_sel)

lemma phaseEnv_laws: "podLaws phaseContents phaseEnv" "claimLaws phaseEnv"
  by (auto simp: podLaws_def claimLaws_def phaseEnv_matches phaseContents_def phaseEnv_sel memMatches_opt
      simp del: filter.simps)

definition reclaimSample :: "(cnclaim, mem lworld) ctx" where
  "reclaimSample = \<lparr>Obj = sampleClaim ''c'', world = (sampleWorld [] [], [])\<rparr>"

lemma phaseEnv_uuid: "GetCNPodUUID phaseEnv p = memUUID"
  using mem_uuid[of p] by (simp add: GetCNPodUUID_def phaseEnv_sel)

lemma reclaimSample_sends:
  "\<exists>p'. PodW (WPatch (boundPod ''p0'') p') \<in> set (logOf (snd (ClaimFinalize (logged phaseEnv) reclaimSample))) \<and>
     phaseOf p' = CNPodPhaseDraining"
  by (simp add: ClaimFinalize_def reclaimSample_def listIgnoreNotFound_def ListPods_def buildPodClaimIndex_def claimIndexOf_def
      indexClaim_def ownedByClaim_def phaseEnv_sel phaseEnv_uuid boundPod_def boundLabels_def
      ownershipLabels_def reclaimCN_def patchStore_def ResolveCNSet_def ResolveOwner_def ResolveLogSet_def
      nowR_def readL_def writeL_def reclaimLabels_def gmake_def Let_def monad_simps mem_defs sample_defs)

lemma boundPod_phase: "phaseOf (boundPod n) = CNPodPhaseBound"
  by (simp add: boundPod_def boundLabels_def ownershipLabels_def idleLabels_def sample_defs Let_def)

lemma reclaimSample_write:
  obtains p' where "controllerSends phaseEnv phaseContents OpFinalize CNPodPhaseBound (PodW (WPatch (boundPod ''p0'') p'))"
    and "phaseOf p' = CNPodPhaseDraining"
proof -
  let ?run = "ClaimFinalize (logged phaseEnv) reclaimSample"
  obtain p' where ev: "PodW (WPatch (boundPod ''p0'') p') \<in> set (logOf (snd ?run))" and ph: "phaseOf p' = CNPodPhaseDraining"
    using reclaimSample_sends by blast
  have "plainClaim (sampleClaim ''c'')" by (simp add: plainClaim_def gdom_def sample_defs)
  then have "controllerSends phaseEnv phaseContents OpFinalize
      (basePhase phaseContents (PodW (WPatch (boundPod ''p0'') p'))) (PodW (WPatch (boundPod ''p0'') p'))"
    by (rule controllerSends.finalize[where b = "fst ?run" and s' = "snd ?run" and w = "sampleWorld [] []"])
      (use ev in \<open>simp_all add: reclaimSample_def\<close>)
  with ph that boundPod_phase show thesis by simp
qed

theorem pod_writes_refine_witness:
  "\<exists>e. controllerSends phaseEnv phaseContents OpFinalize CNPodPhaseBound e \<and>
     podWriteOK phaseContents OpFinalize CNPodPhaseBound e \<and>
     phaseAfter phaseContents e CNPodPhaseBound = Some CNPodPhaseDraining"
proof -
  obtain p' where p': "controllerSends phaseEnv phaseContents OpFinalize CNPodPhaseBound (PodW (WPatch (boundPod ''p0'') p'))"
    "phaseOf p' = CNPodPhaseDraining"
    by (rule reclaimSample_write)
  have "phaseLabel p' \<noteq> phaseLabel (boundPod ''p0'')"
    using p'(2) boundPod_phase[of "''p0''"] by (auto simp: gstr_def)
  moreover have "podWriteOK phaseContents OpFinalize CNPodPhaseBound (PodW (WPatch (boundPod ''p0'') p'))"
    using pod_writes_refine[OF phaseEnv_laws] p'(1) by blast
  ultimately show ?thesis using p' by (intro exI[of _ "PodW (WPatch (boundPod ''p0'') p')"]) simp
qed

theorem bound_leaves_through_draining_witness:
  "\<exists>tr. podHistory phaseEnv phaseContents CNPodPhaseBound tr CNPodPhaseDraining \<and>
     (\<exists>before st after. tr = before @ st # after \<and> staysBound before \<and> (drains st \<or> stalePatch st))"
proof -
  obtain p' where p': "controllerSends phaseEnv phaseContents OpFinalize CNPodPhaseBound (PodW (WPatch (boundPod ''p0'') p'))"
    "phaseOf p' = CNPodPhaseDraining"
    by (rule reclaimSample_write)
  have "phaseAfter phaseContents (PodW (WPatch (boundPod ''p0'') p')) CNPodPhaseBound = Some CNPodPhaseDraining"
    using p'(2) boundPod_phase[of "''p0''"] by (auto simp: gstr_def)
  with p'(1) have hist: "podHistory phaseEnv phaseContents CNPodPhaseBound
      ([] @ [(OpFinalize, CNPodPhaseBound, CNPodPhaseDraining)]) CNPodPhaseDraining"
    by (rule podHistory.wrote[OF podHistory.start])
  with bound_leaves_through_draining[OF phaseEnv_laws hist] show ?thesis
    by (intro exI[of _ "[(OpFinalize, CNPodPhaseBound, CNPodPhaseDraining)]"]) simp
qed

end
