(* ===== verification/Bucket.thy ===== *)
theory Bucket
  imports Mem_World
begin

text \<open>
  The object storage of a cluster: the helpers of \<^verbatim>\<open>api/core/v1alpha1/bucketclaim_helpers.go\<close>, the
  \<^verbatim>\<open>BucketClaim\<close> controller (\<^verbatim>\<open>pkg/controllers/bucketclaim\<close>) and what the log set controller does with
  the bucket of its log set (\<^verbatim>\<open>pkg/controllers/logset/bucketclaim.go\<close>).

  The theorems say when the data of a cluster may be deleted: a bucket gives up its data finalizer, and a
  cleaning job is started, only in the states that allow it, and a log set touches only a bucket that is
  its own and that no CN or DN set still uses.
\<close>

section \<open>Helpers\<close>

definition BucketUniqLabel :: string where
  "BucketUniqLabel = ''matrixorigin.io/bucket-unique-id''"

definition AnnAnyInstanceRunning :: string where
  "AnnAnyInstanceRunning = ''bucket.matrixorigin.io/any-instance-running''"

definition BucketDataFinalizer :: string where
  "BucketDataFinalizer = ''matrixorigin.io/bucket-data-finalizer''"

definition BucketCNFinalizerPrefix :: string where
  "BucketCNFinalizerPrefix = ''matrixorigin.io/CN''"

definition BucketDNFinalizerPrefix :: string where
  "BucketDNFinalizerPrefix = ''matrixorigin.io/DN''"

definition UniqueBucketLabel :: "'w lenv \<Rightarrow> s3_provider \<Rightarrow> string" where
  "UniqueBucketLabel L s3 =
     (let providerType = (case s3_type s3 of None \<Rightarrow> [] | Some t \<Rightarrow> t)
      in l_sha1hex L (providerType @ ''-'' @ s3_endpoint s3 @ ''-'' @ s3_path s3))"

text \<open>The three parts are joined by a dash that may also occur inside them, so the identity is not unique:
  a bucket \<^verbatim>\<open>b-c\<close> at the endpoint \<^verbatim>\<open>a\<close> and a bucket \<^verbatim>\<open>c\<close> at the endpoint \<^verbatim>\<open>a-b\<close> share one.\<close>

lemma UniqueBucketLabel_collides:
  "\<exists>x y :: s3_provider. s3_endpoint x \<noteq> s3_endpoint y \<and> s3_path x \<noteq> s3_path y \<and>
     UniqueBucketLabel L x = UniqueBucketLabel L y"
  by (intro exI[of _ "\<lparr>s3_path = ''b-c'', s3_type = None, s3_region = [], s3_endpoint = ''a'', s3_secretRef = None,
        s3_certificateRef = None, s3_retention = None\<rparr>"]
      exI[of _ "\<lparr>s3_path = ''c'', s3_type = None, s3_region = [], s3_endpoint = ''a-b'', s3_secretRef = None,
        s3_certificateRef = None, s3_retention = None\<rparr>"])
    (simp add: UniqueBucketLabel_def)

text \<open>The query is cluster wide: no namespace.\<close>

definition ClaimedBucket :: "'w lenv \<Rightarrow> s3_provider \<Rightarrow> (('o, 'w) ctx, bucket_claim option) rm" where
  "ClaimedBucket L s3 =
     bindR (callW (api_list (l_buckets L) [] (MatchingLabels [(BucketUniqLabel, UniqueBucketLabel L s3)]))) (\<lambda>items.
     case items of
       [] \<Rightarrow> ret None
     | [b] \<Rightarrow> ret (Some b)
     | _ # _ # _ \<Rightarrow> errorf ''list more than one buckets'')"

definition BucketBindToMark :: "string \<Rightarrow> string \<Rightarrow> string" where
  "BucketBindToMark ns name = ns @ ''/'' @ name"

definition ContainFinalizerPrefix :: "string list \<Rightarrow> string \<Rightarrow> bool" where
  "ContainFinalizerPrefix fs p = list_ex (\<lambda>f. take (length p) f = p) fs"

definition addBucketFinalizer :: "string \<Rightarrow> bucket_claim \<Rightarrow> bucket_claim" where
  "addBucketFinalizer f b = (if f \<in> set (bk_finalizers b) then b else b\<lparr>bk_finalizers := bk_finalizers b @ [f]\<rparr>)"

definition removeBucketFinalizer :: "string \<Rightarrow> bucket_claim \<Rightarrow> bucket_claim" where
  "removeBucketFinalizer f b = b\<lparr>bk_finalizers := filter (\<lambda>x. x \<noteq> f) (bk_finalizers b)\<rparr>"

text \<open>The common start of \<^verbatim>\<open>AddBucketFinalizer\<close>, \<^verbatim>\<open>RemoveBucketFinalizer\<close> and \<^verbatim>\<open>SyncBucketEverRunningAnn\<close>: the
  log set by its name, its S3 provider, the bucket claimed for it; nothing to do without one of them.\<close>

definition logSetBucket :: "string \<Rightarrow> 'w lenv \<Rightarrow> string \<Rightarrow> string \<Rightarrow> (('o, 'w) ctx, bucket_claim option) rm" where
  "logSetBucket msg L ns name =
     (if ns = [] \<or> name = [] then errorf msg
      else
        bindR (attempt (callW (api_get (l_logsets L) (ns, name)))) (\<lambda>r. case r of
          Inl e \<Rightarrow> if IsNotFound e then ret None else throw e
        | Inr ls \<Rightarrow> (case lg_s3 (lgs_spec ls) of None \<Rightarrow> ret None | Some s3 \<Rightarrow> ClaimedBucket L s3)))"

definition AddBucketFinalizer :: "'w lenv \<Rightarrow> string \<Rightarrow> string \<Rightarrow> string \<Rightarrow> (('o, 'w) ctx, unit) rm" where
  "AddBucketFinalizer L ns name f =
     bindR (logSetBucket ''bad logset meta'' L ns name) (\<lambda>r. case r of
       None \<Rightarrow> ret ()
     | Some b \<Rightarrow> if f \<in> set (bk_finalizers b) then ret ()
                 else bindR (callW (api_update (l_buckets L) (addBucketFinalizer f b))) (\<lambda>_. ret ()))"

definition RemoveBucketFinalizer :: "'w lenv \<Rightarrow> string \<Rightarrow> string \<Rightarrow> string \<Rightarrow> (('o, 'w) ctx, unit) rm" where
  "RemoveBucketFinalizer L ns name f =
     bindR (logSetBucket ''bad losget meta'' L ns name) (\<lambda>r. case r of
       None \<Rightarrow> ret ()
     | Some b \<Rightarrow> if f \<in> set (bk_finalizers b)
                 then bindR (callW (api_update (l_buckets L) (removeBucketFinalizer f b))) (\<lambda>_. ret ())
                 else ret ())"

definition SetBucketEverRunningAnn :: "'w lenv \<Rightarrow> bucket_claim \<Rightarrow> (('o, 'w) ctx, unit) rm" where
  "SetBucketEverRunningAnn L b =
     (if gstr (bk_annos b) AnnAnyInstanceRunning \<noteq> [] then ret ()
      else bindR (callW (api_update (l_buckets L)
             (b\<lparr>bk_annos := Some ((the (gmake (bk_annos b)))(AnnAnyInstanceRunning \<mapsto> ''true''))\<rparr>))) (\<lambda>_. ret ()))"

definition SyncBucketEverRunningAnn :: "'w lenv \<Rightarrow> string \<Rightarrow> string \<Rightarrow> (('o, 'w) ctx, unit) rm" where
  "SyncBucketEverRunningAnn L ns name =
     bindR (logSetBucket ''bad losget meta'' L ns name) (\<lambda>r. case r of None \<Rightarrow> ret () | Some b \<Rightarrow> SetBucketEverRunningAnn L b)"

section \<open>The cleaning job\<close>

definition entrypoint :: string where
  "entrypoint = ''start.sh''"

definition cmMountPath :: string where
  "cmMountPath = ''/etc/aws-cli-config''"

record s3_param =
  s3p_Path :: string
  s3p_EndPoint :: string
  s3p_Region :: string
  s3p_Bucket :: string

definition concat_lines :: "string list \<Rightarrow> string" where
  "concat_lines ls = concat (map (\<lambda>l. l @ [CHR 0x0A]) (butlast ls)) @ last ls"

definition delCmd :: "s3_param \<Rightarrow> string" where
  "delCmd x = concat_lines [[],
      ''#!/bin/sh'',
      [],
      ''set -ex'',
      [],
      ''region='' @ s3p_Region x,
      ''endpoint='' @ s3p_EndPoint x,
      [],
      ''if [ -n \"${region}\" ]; then'',
      ''  export AWS_REGION=\"${region}\"'',
      ''fi'',
      [],
      ''if [ -n \"${endpoint}\" ]; then'',
      ''  aws --endpoint-url \"${endpoint}\" s3api head-bucket --bucket '' @ s3p_Bucket x @ '' || bucketNotExist=true'',
      ''  if [ $bucketNotExist ]; then'',
      ''    echo \"bucket not exist\"'',
      ''    exit 0'',
      ''  fi'',
      ''  aws --endpoint-url \"${endpoint}\" s3 rm s3://'' @ s3p_Path x @ '' --recursive'',
      ''else'',
      ''  aws s3api head-bucket --bucket '' @ s3p_Bucket x @ '' || bucketNotExist=true'',
      ''  if [ $bucketNotExist ]; then'',
      ''    echo \"bucket not exist\"'',
      ''    exit 0'',
      ''  fi'',
      ''  aws s3 rm s3://'' @ s3p_Path x @ '' --recursive'',
      ''fi'',
      []]"

definition nilPanic :: err where
  "nilPanic = Err Panic ''invalid memory address or nil pointer dereference''"

text \<open>The check \<^verbatim>\<open>len(bucketPath) < 0\<close> of the source never holds.\<close>

definition parseEntrypoint :: "s3_provider \<Rightarrow> string" where
  "parseEntrypoint s3 = delCmd \<lparr>s3p_Path = s3_path s3, s3p_EndPoint = s3_endpoint s3, s3p_Region = s3_region s3,
     s3p_Bucket = takeWhile (\<lambda>c. c \<noteq> CHR ''/'') (s3_path s3)\<rparr>"

definition jobName :: "bucket_claim \<Rightarrow> string" where
  "jobName b = ''job-'' @ bk_name b"

definition cmName :: "bucket_claim \<Rightarrow> string" where
  "cmName b = ''cm-'' @ bk_name b"

definition NewCmTpl :: "bucket_claim \<Rightarrow> err + config_map" where
  "NewCmTpl b = (case bk_s3 b of
      None \<Rightarrow> Inl nilPanic
    | Some s3 \<Rightarrow> Inr \<lparr>cm_name = cmName b, cm_ns = bk_ns b, cm_data = [(entrypoint, parseEntrypoint s3)]\<rparr>)"

text \<open>The job runs the main container of the log set pods, with the image \<open>img\<close> of the actor and the script of
  the config map mounted. A template without a main container is a nil dereference.\<close>

definition NewJobTpl :: "'w lenv \<Rightarrow> string \<Rightarrow> bucket_claim \<Rightarrow> config_map \<Rightarrow> err + job" where
  "NewJobTpl L img b cm =
     (case l_findFirst L (pt_containers (bk_template b)) (\<lambda>c. cr_name c = ''main'') of
        None \<Rightarrow> Inl nilPanic
      | Some c \<Rightarrow>
          let c = c\<lparr>cr_image := img, cr_command := [''/bin/sh'', cmMountPath @ ''/'' @ entrypoint], cr_args := [],
                    cr_resources := [], cr_mounts := [(''aws-cli-config'', cmMountPath)]\<rparr>
          in Inr \<lparr>jb_name = jobName b, jb_ns = bk_ns b,
              jb_template = (bk_template b)\<lparr>pt_restartPolicy := ''OnFailure'', pt_labels := None, pt_containers := [c],
                pt_volumes := [(''aws-cli-config'', cm_name cm, 420)]\<rparr>,
              jb_conditions = [], jb_succeeded = 0\<rparr>)"

definition isJobSuccess :: "job \<Rightarrow> bool" where
  "isJobSuccess j \<longleftrightarrow> list_ex (\<lambda>(t, st). t = ''Complete'' \<and> st = ConditionTrue) (jb_conditions j) \<or> jb_succeeded j \<ge> 1"

definition isJobFailure :: "job \<Rightarrow> bool" where
  "isJobFailure j \<longleftrightarrow> list_ex (\<lambda>(t, st). t = ''Failed'' \<and> st = ConditionTrue) (jb_conditions j)"

section \<open>The BucketClaim controller\<close>

type_synonym 'w bucket_ctx = "(bucket_claim, 'w) ctx"

definition newFailCondition :: "string \<Rightarrow> string \<Rightarrow> time \<Rightarrow> condition" where
  "newFailCondition reason message now = \<lparr>cd_type = ''recyclable'', cd_status = ConditionFalse, cd_reason = reason,
     cd_message = message, cd_lastTransition = now\<rparr>"

text \<open>The three places that record why a bucket cannot be recycled and update it.\<close>

definition failBucket :: "'w lenv \<Rightarrow> string \<Rightarrow> string \<Rightarrow> ('w bucket_ctx, unit) rm" where
  "failBucket L reason message =
     bindR (readW (l_now L)) (\<lambda>t.
     bindR (modObj (\<lambda>b. b\<lparr>bk_conditions := [newFailCondition reason message t]\<rparr>)) (\<lambda>_.
     updateObj (api_update (l_buckets L))))"

text \<open>The three places that give the data finalizer up.\<close>

definition releaseBucket :: "'w lenv \<Rightarrow> ('w bucket_ctx, bool) rm" where
  "releaseBucket L =
     bindR (modObj (removeBucketFinalizer BucketDataFinalizer)) (\<lambda>_.
     bindR (updateObj (api_update (l_buckets L))) (\<lambda>_. ret True))"

definition createNewJob :: "'w lenv \<Rightarrow> string \<Rightarrow> ('w bucket_ctx, unit) rm" where
  "createNewJob L img =
     bindR getObj (\<lambda>b.
     bindR (attempt (callW (api_get (l_cms L) (bk_ns b, cmName b)))) (\<lambda>r.
     bindR (case r of
         Inr cm \<Rightarrow> ret cm
       | Inl e \<Rightarrow>
           if IsNotFound e then bindR (liftE (NewCmTpl b)) (\<lambda>cm. callW (api_create (l_cms L) cm))
           else throw e) (\<lambda>cm.
     bindR (liftE (NewJobTpl L img b cm)) (\<lambda>job.
     bindR (attempt (callW (api_create (l_jobs L) job))) (\<lambda>r. case r of
       Inl e \<Rightarrow> failBucket L ''FailCreateJob'' (emsg e)
     | Inr _ \<Rightarrow> ret ())))))"

definition BucketFinalize :: "'w lenv \<Rightarrow> string \<Rightarrow> ('w bucket_ctx, bool) rm" where
  "BucketFinalize L img =
     bindR getObj (\<lambda>b.
     if bk_state b = StatusInUse then
       bindR (failBucket L ''InUse'' ''bucket is in inuse, cannot be deleted'') (\<lambda>_. ret False)
     else if bk_state b = StatusReleased then releaseBucket L
     else if gstr (bk_annos b) AnnAnyInstanceRunning = [] then releaseBucket L
     else
       bindR (attempt (callW (api_get (l_jobs L) (bk_ns b, jobName b)))) (\<lambda>r. case r of
         Inl e \<Rightarrow> if IsNotFound e then bindR (createNewJob L img) (\<lambda>_. ret False) else throw e
       | Inr job \<Rightarrow>
           if isJobSuccess job then releaseBucket L
           else if isJobFailure job then
             bindR (failBucket L ''JobFailure'' (''s3 job failure: '' @ bk_ns b @ ''/'' @ jobName b)) (\<lambda>_. ret False)
           else ret False))"

section \<open>The bucket of a log set\<close>

type_synonym 'w logset_ctx = "(logset, 'w) ctx"

definition syncBucketEverRunningAnn :: "'w lenv \<Rightarrow> ('w logset_ctx, unit) rm" where
  "syncBucketEverRunningAnn L =
     (if \<not> l_s3Reclaim L then ret ()
      else bindR getObj (\<lambda>ls. case lg_s3 (lgs_spec ls) of
        None \<Rightarrow> ret ()
      | Some s3 \<Rightarrow> bindR (ClaimedBucket L s3) (\<lambda>r. case r of
          None \<Rightarrow> ret ()
        | Some b \<Rightarrow> SetBucketEverRunningAnn L b)))"

definition createNewBucket :: "'w lenv \<Rightarrow> s3_provider \<Rightarrow> pod_template \<Rightarrow> ('w logset_ctx, unit) rm" where
  "createNewBucket L s3 template =
     bindR getObj (\<lambda>ls.
     bindR (callW (api_create (l_buckets L)
       \<lparr>bk_name = ''bucket-'' @ lgs_uid ls, bk_ns = lgs_ns ls, bk_finalizers = [BucketDataFinalizer],
        bk_labels = Some [BucketUniqLabel \<mapsto> UniqueBucketLabel L s3], bk_annos = None, bk_s3 = lg_s3 (lgs_spec ls),
        bk_template = template, bk_bindTo = BucketBindToMark (lgs_ns ls) (lgs_name ls), bk_state = StatusInUse,
        bk_conditions = [], bk_deleted = False\<rparr>)) (\<lambda>_. ret ()))"

text \<open>\<^verbatim>\<open>sort.Strings\<close> orders by bytes; the updated bucket is compared with the listed one, both sorted.\<close>

definition sortStrings :: "string list \<Rightarrow> string list" where
  "sortStrings = sort_key (map of_char :: string \<Rightarrow> nat list)"

definition syncBucketClaim :: "'w lenv \<Rightarrow> pod_template \<Rightarrow> ('w logset_ctx, unit) rm" where
  "syncBucketClaim L template =
     (if \<not> l_s3Reclaim L then ret ()
      else bindR getObj (\<lambda>ls. case lg_s3 (lgs_spec ls) of
        None \<Rightarrow> ret ()
      | Some s3 \<Rightarrow> bindR (ClaimedBucket L s3) (\<lambda>r. case r of
          None \<Rightarrow> createNewBucket L s3 template
        | Some bucket \<Rightarrow>
            let mark = BucketBindToMark (lgs_ns ls) (lgs_name ls) in
            if bk_bindTo bucket \<noteq> [] \<and> bk_bindTo bucket \<noteq> mark
            then errorf (''claim bucket '' @ bk_ns bucket @ ''/'' @ bk_name bucket @ '' already bind to '' @ bk_bindTo bucket)
            else
              let target = (addBucketFinalizer BucketDataFinalizer bucket)\<lparr>bk_s3 := lg_s3 (lgs_spec ls), bk_bindTo := mark,
                    bk_state := StatusInUse\<rparr>;
                  target = target\<lparr>bk_finalizers := sortStrings (bk_finalizers target)\<rparr>;
                  bucket = bucket\<lparr>bk_finalizers := sortStrings (bk_finalizers bucket)\<rparr>
              in if target \<noteq> bucket then bindR (callW (api_update (l_buckets L) target)) (\<lambda>_. ret ()) else ret ())))"

definition setBucketState :: "bucket_state \<Rightarrow> bucket_claim \<Rightarrow> bucket_claim" where
  "setBucketState st b = b\<lparr>bk_state := st, bk_bindTo := []\<rparr>"

text \<open>\<^verbatim>\<open>finalizeBucket\<close> once the bucket of the log set is found, and the whole.\<close>

definition finalizeClaimed :: "'w lenv \<Rightarrow> logset \<Rightarrow> bucket_claim \<Rightarrow> ('w logset_ctx, bool) rm" where
  "finalizeClaimed L ls b =
     (if bk_bindTo b \<noteq> [] \<and> bk_bindTo b \<noteq> BucketBindToMark (lgs_ns ls) (lgs_name ls)
      then errorf (''claimed bucket '' @ bk_ns b @ ''/'' @ bk_name b @ '' already bind to '' @ bk_bindTo b)
      else if ContainFinalizerPrefix (bk_finalizers b) BucketDNFinalizerPrefix \<or>
              ContainFinalizerPrefix (bk_finalizers b) BucketCNFinalizerPrefix
      then ret False
      else (case GetS3RetentionPolicy (lgs_spec ls) of
        None \<Rightarrow> ret True
      | Some PVCRetentionPolicyRetain \<Rightarrow>
          bindR (callW (api_update (l_buckets L) (setBucketState StatusReleased b))) (\<lambda>_. ret True)
      | Some PVCRetentionPolicyDelete \<Rightarrow>
          bindR (callW (api_update (l_buckets L) (setBucketState StatusDeleting b))) (\<lambda>b.
          bindR (callW (api_delete (l_buckets L) b)) (\<lambda>_. ret True))
      | Some (OtherRetentionPolicy p) \<Rightarrow> errorf (''unknown s3 retention policy '' @ p)))"

definition finalizeBucket :: "'w lenv \<Rightarrow> ('w logset_ctx, bool) rm" where
  "finalizeBucket L =
     (if \<not> l_s3Reclaim L then ret True
      else bindR getObj (\<lambda>ls. case lg_s3 (lgs_spec ls) of
        None \<Rightarrow> ret True
      | Some s3 \<Rightarrow> bindR (ClaimedBucket L s3) (\<lambda>r. case r of
          None \<Rightarrow> ret True
        | Some b \<Rightarrow> finalizeClaimed L ls b)))"

section \<open>When data may be deleted\<close>

text \<open>A cleaning job that finished, as the API server answers in the world \<open>w\<close>.\<close>

definition cleaned :: "'w lenv \<Rightarrow> bucket_claim \<Rightarrow> 'w \<Rightarrow> bool" where
  "cleaned L b w \<longleftrightarrow> (\<exists>job w'. api_get (l_jobs L) (bk_ns b, jobName b) w = (Inr job, w') \<and> isJobSuccess job)"

definition mayRelease :: "'w lenv \<Rightarrow> bucket_claim \<Rightarrow> 'w \<Rightarrow> bool" where
  "mayRelease L b w \<longleftrightarrow> bk_state b \<noteq> StatusInUse \<and>
     (bk_state b = StatusReleased \<or> gstr (bk_annos b) AnnAnyInstanceRunning = [] \<or> cleaned L b w)"

definition needsJob :: "bucket_claim \<Rightarrow> bool" where
  "needsJob b \<longleftrightarrow> bk_state b \<notin> {StatusInUse, StatusReleased} \<and> gstr (bk_annos b) AnnAnyInstanceRunning \<noteq> []"

fun bucketEvent :: "'w lenv \<Rightarrow> bucket_claim \<Rightarrow> 'w \<Rightarrow> event \<Rightarrow> bool" where
  "bucketEvent L b w (BucketW (WUpdate b')) =
     (bk_finalizers b' = bk_finalizers b \<or> mayRelease L b w \<and> b' = removeBucketFinalizer BucketDataFinalizer b)"
| "bucketEvent L b w (JobW (WCreate j)) = (needsJob b \<and> jb_name j = jobName b \<and> jb_ns j = bk_ns b)"
| "bucketEvent L b w (ConfigMapW (WCreate cm)) = (needsJob b \<and> cm_name cm = cmName b \<and> cm_ns cm = bk_ns b)"
| "bucketEvent L b w _ = False"

lemma failBucket_from:
  "(\<And>x. P x \<Longrightarrow> bk_finalizers x = bk_finalizers b) \<Longrightarrow>
     sendsFrom P (bucketEvent L b w) (failBucket (loggedL L') reason msg)"
  unfolding failBucket_def
  by (rule sendsFrom_bind sendsR sendsFrom_modObj[where Q = "\<lambda>x. bk_finalizers x = bk_finalizers b"] sendsFrom_updateObj
      | simp only: send_simps | simp)+

lemma releaseBucket_from:
  "mayRelease L b w \<Longrightarrow> sendsFrom (\<lambda>x. x = b) (bucketEvent L b w) (releaseBucket (loggedL L'))"
  unfolding releaseBucket_def
  by (rule sendsFrom_modObj[where Q = "\<lambda>x. x = removeBucketFinalizer BucketDataFinalizer b"] sendsFrom_last sendsFrom_updateObj sendsR
      | simp only: send_simps | simp)+

lemma NewCmTpl_names: "NewCmTpl b = Inr cm \<Longrightarrow> cm_name cm = cmName b \<and> cm_ns cm = bk_ns b"
  by (auto simp: NewCmTpl_def split: option.splits)

lemma NewJobTpl_names: "NewJobTpl L img b cm = Inr j \<Longrightarrow> jb_name j = jobName b \<and> jb_ns j = bk_ns b"
  by (auto simp: NewJobTpl_def Let_def split: option.splits)

lemma createNewJob_from:
  assumes "needsJob b"
  shows "sendsFrom (\<lambda>x. x = b) (bucketEvent L b w) (createNewJob (loggedL L') img)"
  unfolding createNewJob_def
  by (rule sendsFrom_getObj sendsFrom_bind_liftE onlySends_bind_liftE failBucket_from sendsFrom_cases | rule sendsFrom_bind
      | (rule onlySends_sendsFrom, rule sendsR) | rule sendsR
      | simp only: send_simps | simp add: assms NewCmTpl_names NewJobTpl_names)+

lemma sendsFrom_run:
  "sendsFrom P ok m \<Longrightarrow> m s = (r, s') \<Longrightarrow> P (Obj s) \<Longrightarrow> logOf s = [] \<Longrightarrow> list_all ok (logOf s')"
  unfolding sendsFrom_def list_all_iff by fastforce

lemma ret_False_not_True: "bindR m (\<lambda>_. ret False) s \<noteq> (Inr True, s')"
  by (auto simp: ret_def elim!: bindR_InrE)

text \<open>C8 (\<^verbatim>\<open>Finalize\<close> of a bucket claim): the data of a bucket is given up, and a cleaning job started, only
  when that is allowed. Whatever the API server answers, an update either keeps the finalizers or takes
  exactly the data finalizer away, the latter never from a bucket in use and only if the bucket was
  released by its policy, no instance of the cluster ever ran, or its cleaning job succeeded. Jobs and
  config maps are created only for a bucket that is neither in use nor released and that has been used.
  The claim is finalised only in a state that allows the release.\<close>

theorem bucket_release_guarded:
  assumes run: "BucketFinalize (loggedL L) img \<lparr>Obj = b, world = (w, [])\<rparr> = (r, s')"
  shows "list_all (bucketEvent L b w) (logOf s') \<and> (r = Inr True \<longrightarrow> mayRelease L b w)"
proof -
  let ?s = "\<lparr>Obj = b, world = (w, [])\<rparr>"
  note run = run[unfolded BucketFinalize_def bindR_Inr[of getObj, OF getObj_def] ctx.simps]
  have notDone: ?thesis if "sendsFrom (\<lambda>x. x = b) (bucketEvent L b w) m" and "bindR m (\<lambda>_. ret False) s0 = (r, s')"
    and "Obj s0 = b" "logOf s0 = []" for m :: "('a lworld bucket_ctx, unit) rm" and s0
    using sendsFrom_run[OF sendsFrom_last[OF that(1), of "\<lambda>_. ret False"] that(2)] that(3,4) ret_False_not_True[of m s0 s'] that(2)
    by (auto intro: sendsR)
  have released: ?thesis if "mayRelease L b w" and "releaseBucket (loggedL L) s0 = (r, s')" and "Obj s0 = b" "logOf s0 = []" for s0
    using sendsFrom_run[OF releaseBucket_from[OF that(1)] that(2)] that by simp
  have fail: "sendsFrom (\<lambda>x. x = b) (bucketEvent L b w) (failBucket (loggedL L) reason msg)" for reason msg
    by (rule failBucket_from) simp
  show ?thesis
  proof (cases "bk_state b = StatusInUse \<or> bk_state b = StatusReleased \<or> gstr (bk_annos b) AnnAnyInstanceRunning = []")
    case True
    then show ?thesis using run notDone[OF fail, of _ _ ?s] released[of ?s]
      by (auto simp: mayRelease_def split: if_splits)
  next
    case False
    then have job: "needsJob b" by (simp add: needsJob_def)
    obtain a w1 where get: "api_get (l_jobs L) (bk_ns b, jobName b) w = (a, w1)" by fastforce
    let ?s1 = "\<lparr>Obj = b, world = (w1, [])\<rparr>"
    show ?thesis
    proof (cases a)
      case (Inl e)
      with False run get notDone[OF createNewJob_from[OF job], of _ _ ?s1] show ?thesis
        by (auto simp: attempt_def callW_def readL_def bindR_def[of "attempt _"] throw_def split: if_splits)
    next
      case (Inr j)
      have "mayRelease L b w" if "isJobSuccess j"
        using that False get Inr by (auto simp: mayRelease_def cleaned_def)
      with False run get Inr notDone[OF fail, of _ _ ?s1] released[of ?s1] show ?thesis
        by (auto simp: attempt_def callW_def readL_def bindR_def[of "attempt _"] ret_def split: if_splits)
    qed
  qed
qed

section \<open>The bucket of a deleted log set\<close>

definition ownBucket :: "logset \<Rightarrow> bucket_claim \<Rightarrow> bool" where
  "ownBucket ls b \<longleftrightarrow> bk_bindTo b = [] \<or> bk_bindTo b = BucketBindToMark (lgs_ns ls) (lgs_name ls)"

definition bucketFree :: "bucket_claim \<Rightarrow> bool" where
  "bucketFree b \<longleftrightarrow> \<not> ContainFinalizerPrefix (bk_finalizers b) BucketDNFinalizerPrefix \<and>
     \<not> ContainFinalizerPrefix (bk_finalizers b) BucketCNFinalizerPrefix"

lemma ClaimedBucket_logged:
  "ClaimedBucket (loggedL L) s3 s =
     (case api_list (l_buckets L) [] (MatchingLabels [(BucketUniqLabel, UniqueBucketLabel L s3)]) (fst (world s)) of
        (Inl e, w) \<Rightarrow> (Inl e, s\<lparr>world := (w, logOf s)\<rparr>)
      | (Inr items, w) \<Rightarrow> (case items of
          [] \<Rightarrow> (Inr None, s\<lparr>world := (w, logOf s)\<rparr>)
        | [b] \<Rightarrow> (Inr (Some b), s\<lparr>world := (w, logOf s)\<rparr>)
        | _ # _ # _ \<Rightarrow> errorf ''list more than one buckets'' (s\<lparr>world := (w, logOf s)\<rparr>)))"
  by (simp add: ClaimedBucket_def UniqueBucketLabel_def callW_def readL_def bindR_def ret_def split: prod.splits sum.splits list.splits)

lemma claimedBucket_cases:
  assumes "bindR (ClaimedBucket (loggedL L) s3) f \<lparr>Obj = ls, world = (w, [])\<rparr> = (r, s')"
    and "logOf s' \<noteq> []" and "f None = ret v"
  obtains b w1 where
    "api_list (l_buckets L) [] (MatchingLabels [(BucketUniqLabel, UniqueBucketLabel L s3)]) w = (Inr [b], w1)"
    and "f (Some b) \<lparr>Obj = ls, world = (w1, [])\<rparr> = (r, s')"
  using assms by (auto simp: ClaimedBucket_logged bindR_def[of "ClaimedBucket _ _"] errorf_def throw_def ret_def
      split: prod.splits sum.splits list.splits)

text \<open>C9 (\<^verbatim>\<open>finalizeBucket\<close>): a deleted log set touches only its own bucket, and deletes it only on request. If
  anything is written, then the storage of the log set is S3 with reclaim enabled, the one bucket found for it
  is bound to no other log set, and no DN or CN set holds a finalizer on it. With the policy Retain the
  bucket is marked Released, once, and not deleted. With the policy Delete it is marked Deleting
  before it is deleted, and the deletion is not sent if the mark could not be written.\<close>

theorem logset_bucket_guarded:
  assumes run: "finalizeBucket (loggedL L) \<lparr>Obj = ls, world = (w, [])\<rparr> = (r, s')" and sent: "logOf s' \<noteq> []"
  shows "\<exists>s3 b w1. l_s3Reclaim L \<and> lg_s3 (lgs_spec ls) = Some s3 \<and>
     api_list (l_buckets L) [] (MatchingLabels [(BucketUniqLabel, UniqueBucketLabel L s3)]) w = (Inr [b], w1) \<and>
     ownBucket ls b \<and> bucketFree b \<and>
     (GetS3RetentionPolicy (lgs_spec ls) = Some PVCRetentionPolicyRetain \<and>
        logOf s' = [BucketW (WUpdate (setBucketState StatusReleased b))] \<or>
      GetS3RetentionPolicy (lgs_spec ls) = Some PVCRetentionPolicyDelete \<and>
        (logOf s' = [BucketW (WUpdate (setBucketState StatusDeleting b))] \<and> (\<exists>e. r = Inl e) \<or>
         (\<exists>b' w2. api_update (l_buckets L) (setBucketState StatusDeleting b) w1 = (Inr b', w2) \<and>
            logOf s' = [BucketW (WDelete b'), BucketW (WUpdate (setBucketState StatusDeleting b))])))"
proof -
  note run = run[unfolded finalizeBucket_def]
  obtain s3 where on: "l_s3Reclaim L" and s3: "lg_s3 (lgs_spec ls) = Some s3"
    using run sent by (auto simp: bindR_Inr[of getObj, OF getObj_def] ret_def split: if_splits option.splits)
  have "bindR (ClaimedBucket (loggedL L) s3) (\<lambda>r. case r of None \<Rightarrow> ret True | Some b \<Rightarrow> finalizeClaimed (loggedL L) ls b)
      \<lparr>Obj = ls, world = (w, [])\<rparr> = (r, s')"
    using run on s3 by (simp add: bindR_Inr[of getObj, OF getObj_def])
  then obtain b w1 where found: "api_list (l_buckets L) [] (MatchingLabels [(BucketUniqLabel, UniqueBucketLabel L s3)]) w = (Inr [b], w1)"
    and rest: "finalizeClaimed (loggedL L) ls b \<lparr>Obj = ls, world = (w1, [])\<rparr> = (r, s')"
    by (rule claimedBucket_cases) (use sent in simp_all)
  have free: "ownBucket ls b" "bucketFree b"
    using rest sent by (auto simp: finalizeClaimed_def ownBucket_def bucketFree_def errorf_def throw_def ret_def split: if_splits)
  have "GetS3RetentionPolicy (lgs_spec ls) \<noteq> None" using s3 by (simp add: GetS3RetentionPolicy_def split: option.splits)
  then obtain p where p: "GetS3RetentionPolicy (lgs_spec ls) = Some p" by blast
  have effects: "p = PVCRetentionPolicyRetain \<and> logOf s' = [BucketW (WUpdate (setBucketState StatusReleased b))] \<or>
      p = PVCRetentionPolicyDelete \<and>
        (logOf s' = [BucketW (WUpdate (setBucketState StatusDeleting b))] \<and> (\<exists>e. r = Inl e) \<or>
         (\<exists>b' w2. api_update (l_buckets L) (setBucketState StatusDeleting b) w1 = (Inr b', w2) \<and>
            logOf s' = [BucketW (WDelete b'), BucketW (WUpdate (setBucketState StatusDeleting b))]))"
    using rest sent free p
    by (cases p) (auto simp: finalizeClaimed_def ownBucket_def bucketFree_def callW_def writeL_def bindR_def ret_def errorf_def throw_def
        split: prod.splits sum.splits)
  show ?thesis using on s3 found free p effects by auto
qed

section \<open>A world of buckets\<close>

record bucket_mem =
  bm_buckets :: "bucket_claim list"
  bm_logsets :: "logset list"
  bm_jobs :: "job list"
  bm_cms :: "config_map list"
  bm_sts :: "stateful_set list"
  bm_pods :: "pod list"
  bm_services :: "obj_key list"
  bm_now :: time

definition bucketEnv :: "bucket_mem lenv" where
  "bucketEnv =
     \<lparr>l_buckets = (memKind (\<lambda>b. (bk_ns b, bk_name b)) bk_labels bm_buckets (\<lambda>xs w. w\<lparr>bm_buckets := xs\<rparr>))
        \<lparr>api_list := (\<lambda>ns opt w. (Inr (filter (\<lambda>b. memMatches opt (bk_labels b)) (bm_buckets w)), w))\<rparr>,
      l_logsets = memKind (\<lambda>x. (lgs_ns x, lgs_name x)) (\<lambda>_. None) bm_logsets (\<lambda>xs w. w\<lparr>bm_logsets := xs\<rparr>),
      l_jobs = memKind (\<lambda>j. (jb_ns j, jb_name j)) (\<lambda>_. None) bm_jobs (\<lambda>xs w. w\<lparr>bm_jobs := xs\<rparr>),
      l_cms = memKind (\<lambda>x. (cm_ns x, cm_name x)) (\<lambda>_. None) bm_cms (\<lambda>xs w. w\<lparr>bm_cms := xs\<rparr>),
      l_sts = memKind (\<lambda>x. (ss_ns x, ss_name x)) (\<lambda>_. None) bm_sts (\<lambda>xs w. w\<lparr>bm_sts := xs\<rparr>),
      l_pods = memKind podKey pod_labels bm_pods (\<lambda>xs w. w\<lparr>bm_pods := xs\<rparr>),
      l_services = memKind (\<lambda>k. k) (\<lambda>_. None) bm_services (\<lambda>xs w. w\<lparr>bm_services := xs\<rparr>),
      l_cmBegin = (\<lambda>x w. (Inr x, w)),
      l_cmCommit = (\<lambda>x y w. (Inr y, w\<lparr>bm_cms := y # bm_cms w\<rparr>)),
      l_now = (\<lambda>w. (bm_now w, w)),
      l_s3Reclaim = True,
      l_sha1hex = (\<lambda>x. x),
      l_findFirst = (\<lambda>cs P. find P cs),
      l_podOrdinal = (\<lambda>n. Inr (int (length n))),
      l_upsert = (\<lambda>xs x. if x \<in> set xs then xs else xs @ [x]),
      l_marshalReplicas = (\<lambda>rs. Inr (replicate (length rs) CHR ''r'')),
      l_unmarshalReplicas = (\<lambda>str. Inr (map (\<lambda>i. (int i, 131072 + int i)) [0..<length str]))\<rparr>"

definition sampleS3 :: s3_provider where
  "sampleS3 = \<lparr>s3_path = ''b/d'', s3_type = None, s3_region = [], s3_endpoint = ''e'', s3_secretRef = None,
     s3_certificateRef = None, s3_retention = Some PVCRetentionPolicyDelete\<rparr>"

definition sampleBucket :: bucket_claim where
  "sampleBucket = \<lparr>bk_name = ''bk'', bk_ns = ''ns'', bk_finalizers = [BucketDataFinalizer],
     bk_labels = Some [BucketUniqLabel \<mapsto> ''-e-b/d''], bk_annos = Some [AnnAnyInstanceRunning \<mapsto> ''true''],
     bk_s3 = Some sampleS3,
     bk_template = \<lparr>pt_labels = None, pt_containers = [], pt_restartPolicy = [], pt_volumes = []\<rparr>,
     bk_bindTo = ''ns/log'', bk_state = StatusDeleting, bk_conditions = [], bk_deleted = False\<rparr>"

definition sampleLogs :: logset where
  "sampleLogs = \<lparr>lgs_name = ''log'', lgs_ns = ''ns'', lgs_uid = ''u'', lgs_annos = None,
     lgs_spec = \<lparr>lg_replicas = 3, lg_s3 = Some sampleS3,
       lg_initialConfig = \<lparr>ic_logShards = Some 1, ic_dnShards = Some 1, ic_logShardReplicas = Some 3, ic_restoreFrom = None\<rparr>,
       lg_storeFailureTimeout = None, lg_failedPodStrategy = None, lg_pvcRetention = None\<rparr>,
     lgs_failover = \<lparr>fo_available = [], fo_failed = []\<rparr>\<rparr>"

definition sampleJob :: job where
  "sampleJob = \<lparr>jb_name = ''job-bk'', jb_ns = ''ns'',
     jb_template = \<lparr>pt_labels = None, pt_containers = [], pt_restartPolicy = [], pt_volumes = []\<rparr>,
     jb_conditions = [(''Complete'', ConditionTrue)], jb_succeeded = 0\<rparr>"

definition bucketWorld :: bucket_mem where
  "bucketWorld = \<lparr>bm_buckets = [sampleBucket], bm_logsets = [sampleLogs], bm_jobs = [sampleJob], bm_cms = [],
     bm_sts = [], bm_pods = [], bm_services = [], bm_now = 0\<rparr>"

lemmas bucket_run_defs =
  BucketFinalize_def releaseBucket_def removeBucketFinalizer_def jobName_def isJobSuccess_def bucketEnv_def memKind_def
  bucketWorld_def sampleBucket_def sampleJob_def sampleLogs_def sampleS3_def readL_def writeL_def Let_def monad_simps

theorem bucket_release_guarded_witness:
  "mayRelease bucketEnv sampleBucket bucketWorld \<and>
   (\<exists>b. logOf (snd (BucketFinalize (loggedL bucketEnv) ''aws'' \<lparr>Obj = sampleBucket, world = (bucketWorld, [])\<rparr>)) = [BucketW (WUpdate b)] \<and>
      bucketEvent bucketEnv sampleBucket bucketWorld (BucketW (WUpdate b)) \<and> bk_finalizers b = [])"
proof -
  let ?run = "BucketFinalize (loggedL bucketEnv) ''aws'' \<lparr>Obj = sampleBucket, world = (bucketWorld, [])\<rparr>"
  have r: "fst ?run = Inr True" and "\<exists>b. logOf (snd ?run) = [BucketW (WUpdate b)] \<and> bk_finalizers b = []"
    by (simp_all add: bucket_run_defs)
  then obtain b where b: "logOf (snd ?run) = [BucketW (WUpdate b)]" "bk_finalizers b = []" by blast
  have "list_all (bucketEvent bucketEnv sampleBucket bucketWorld) (logOf (snd ?run)) \<and>
      (fst ?run = Inr True \<longrightarrow> mayRelease bucketEnv sampleBucket bucketWorld)"
    by (rule bucket_release_guarded[where r = "fst ?run" and img = "''aws''"]) simp
  with r b show ?thesis by auto
qed

theorem logset_bucket_guarded_witness:
  "\<exists>s3 b w1. lg_s3 (lgs_spec sampleLogs) = Some s3 \<and> ownBucket sampleLogs b \<and> bucketFree b \<and>
     api_list (l_buckets bucketEnv) [] (MatchingLabels [(BucketUniqLabel, UniqueBucketLabel bucketEnv s3)]) bucketWorld = (Inr [b], w1) \<and>
     length (logOf (snd (finalizeBucket (loggedL bucketEnv) \<lparr>Obj = sampleLogs, world = (bucketWorld, [])\<rparr>))) = 2"
proof -
  let ?run = "finalizeBucket (loggedL bucketEnv) \<lparr>Obj = sampleLogs, world = (bucketWorld, [])\<rparr>"
  have len: "length (logOf (snd ?run)) = 2"
    by (simp add: finalizeBucket_def finalizeClaimed_def ClaimedBucket_def UniqueBucketLabel_def ContainFinalizerPrefix_def
        BucketBindToMark_def BucketDataFinalizer_def BucketDNFinalizerPrefix_def BucketCNFinalizerPrefix_def
        GetS3RetentionPolicy_def setBucketState_def bucket_run_defs)
  then have "logOf (snd ?run) \<noteq> []" by auto
  with logset_bucket_guarded[where r = "fst ?run" and s' = "snd ?run" and L = bucketEnv and ls = sampleLogs and w = bucketWorld] len
  show ?thesis by auto
qed

end
