(* ===== verification/LogSet.thy ===== *)
theory LogSet
  imports Bucket Toml_Config
begin

text \<open>
  The log set controller, \<^verbatim>\<open>pkg/controllers/logset\<close>: automatic failover (\<^verbatim>\<open>Repair\<close>), scaling, the bootstrap
  decision of HAKeeper, the addresses of the log pods and the deletion of a log set. \<^verbatim>\<open>Observe\<close>, \<^verbatim>\<open>Create\<close> and
  \<^verbatim>\<open>Update\<close>, which build the Kubernetes objects, are not modelled.

  The theorems: a failover never reserves more than a minority of the log shard replicas, replaces one
  store at a time and only one that has failed for the timeout; the address loop ends and lists exactly
  the ordinals the stateful set runs; the bootstrap decision is made once, within the id range.
\<close>

section \<open>Names and addresses\<close>

definition logSuffix :: string where
  "logSuffix = ''-log''"

definition resourceName :: "logset \<Rightarrow> string" where
  "resourceName ls = lgs_name ls @ logSuffix"

definition stsName :: "logset \<Rightarrow> string" where
  "stsName ls = resourceName ls"

definition headlessSvcName :: "logset \<Rightarrow> string" where
  "headlessSvcName ls = resourceName ls @ ''-headless''"

definition discoverySvcName :: "logset \<Rightarrow> string" where
  "discoverySvcName ls = resourceName ls @ ''-discovery''"

definition gossipConfigMapName :: "logset \<Rightarrow> string" where
  "gossipConfigMapName ls = resourceName ls @ ''-gossip''"

definition bootstrapConfigMapName :: "logset \<Rightarrow> string" where
  "bootstrapConfigMapName ls = resourceName ls @ ''-bootstrap''"

definition logServicePort :: int where
  "logServicePort = 32001"

definition gossipPort :: int where
  "gossipPort = 32002"

text \<open>The loop over the ordinals of the log pods ends because every round finds a pod or passes one of
  finitely many reserved ordinals.\<close>

lemma passes_reserved:
  fixes i :: int
  assumes "i \<in> set reserved"
  shows "card {x \<in> set reserved. x \<ge> i + 1} < card {x \<in> set reserved. x \<ge> i}"
proof -
  have "{x \<in> set reserved. x \<ge> i} = insert i {x \<in> set reserved. x \<ge> i + 1}" using assms by auto
  then show ?thesis by simp
qed

text \<open>The loop of \<^verbatim>\<open>HaKeeperSvcAddrs\<close> and \<^verbatim>\<open>gossipSeeds\<close>: \<open>i\<close> runs over the ordinals, \<open>n\<close> counts the pods found.
  The counter is an \<^verbatim>\<open>int32\<close> below \<open>r\<close> and cannot overflow.\<close>

function ordinalLoop :: "int list \<Rightarrow> int \<Rightarrow> int \<Rightarrow> int \<Rightarrow> int list" where
  "ordinalLoop reserved r i n =
     (if n \<ge> r then []
      else if i \<in> set reserved then ordinalLoop reserved r (i + 1) n
      else i # ordinalLoop reserved r (i + 1) (n + 1))"
  by pat_completeness auto

termination
  by (relation "measures [\<lambda>(reserved, r, i, n). nat (r - n), \<lambda>(reserved, r, i, n). card {x \<in> set reserved. x \<ge> i}]")
    (simp_all add: passes_reserved)

declare ordinalLoop.simps [simp del]

definition podAddr :: "logset \<Rightarrow> int \<Rightarrow> int \<Rightarrow> string" where
  "podAddr ls port i = stsName ls @ ''-'' @ goItoa i @ ''.'' @ headlessSvcName ls @ ''.'' @ lgs_ns ls @ ''.svc:'' @ goItoa port"

definition HaKeeperSvcAddrs :: "logset \<Rightarrow> int list \<Rightarrow> string list" where
  "HaKeeperSvcAddrs ls reserved = map (podAddr ls logServicePort) (ordinalLoop reserved (lg_replicas (lgs_spec ls)) 0 0)"

definition gossipSeeds :: "logset \<Rightarrow> stateful_set \<Rightarrow> string list" where
  "gossipSeeds ls sts = map (podAddr ls gossipPort) (ordinalLoop (ss_reserveOrdinals sts) (ss_replicas sts) 0 0)"

definition gossipFile :: string where
  "gossipFile = ''gossip.toml''"

definition buildGossipSeedsConfigMap :: "codec \<Rightarrow> logset \<Rightarrow> stateful_set \<Rightarrow> err + config_map" where
  "buildGossipSeedsConfigMap T ls sts =
     (case ToString T (Some (SetPath (NewTomlConfig (Some [])) [''logservice'', ''gossip-seed-addresses'']
                               (VStrs (gossipSeeds ls sts)))) of
        Inl e \<Rightarrow> Inl e
      | Inr c \<Rightarrow> Inr \<lparr>cm_name = gossipConfigMapName ls, cm_ns = lgs_ns ls, cm_data = [(gossipFile, c)]\<rparr>)"

definition updateGossipConfig :: "codec \<Rightarrow> 'w lenv \<Rightarrow> stateful_set \<Rightarrow> ('w logset_ctx, unit) rm" where
  "updateGossipConfig T L sts =
     bindR getObj (\<lambda>ls.
     bindR (liftE (buildGossipSeedsConfigMap T ls sts)) (\<lambda>gossipCM.
     bindR (callW (l_cmBegin L gossipCM)) (\<lambda>x.
     bindR (callW (l_cmCommit L x (x\<lparr>cm_data := cm_data gossipCM\<rparr>))) (\<lambda>_. ret ()))))"

section \<open>Bootstrap\<close>

definition bootstrapAnnoKey :: string where
  "bootstrapAnnoKey = ''logset.matrixorigin.io/bootstrap''"

definition idRangeStart :: int where
  "idRangeStart = 131072"

definition idRangeEnd :: int where
  "idRangeEnd = 262144"

text \<open>A replica is its ordinal and its id. The loop that picks the first pods, from ordinal \<open>i\<close> on.\<close>

fun pickReplicas :: "nat \<Rightarrow> int \<Rightarrow> err + (int \<times> int) list" where
  "pickReplicas 0 i = Inr []"
| "pickReplicas (Suc k) i =
     (let rid = idRangeStart + i in
      if rid > idRangeEnd
      then Inl (Err Plain (''ReplicaID '' @ goItoa rid @ '' exceed range, max allowed: '' @ goItoa idRangeEnd))
      else case pickReplicas k (i + 1) of Inl e \<Rightarrow> Inl e | Inr rs \<Rightarrow> Inr ((i, rid) # rs))"

definition bootstrap :: "'w lenv \<Rightarrow> ('w logset_ctx, (int \<times> int) list) rm" where
  "bootstrap L =
     bindR getObj (\<lambda>ls.
     case gget (lgs_annos ls) bootstrapAnnoKey of
       Some previousDecision \<Rightarrow> wrapE ''error deserialize boostrap replicas'' (liftE (l_unmarshalReplicas L previousDecision))
     | None \<Rightarrow>
         (case ic_logShardReplicas (lg_initialConfig (lgs_spec ls)) of
            None \<Rightarrow> throw nilPanic
          | Some n \<Rightarrow>
              bindR (liftE (pickReplicas (nat n) 0)) (\<lambda>replicas.
              bindR (wrapE ''error serialize bootstrap replicas'' (liftE (l_marshalReplicas L replicas))) (\<lambda>serialized.
              bindR (modObj (\<lambda>ls. ls\<lparr>lgs_annos := Some ((the (gmake (lgs_annos ls)))(bootstrapAnnoKey \<mapsto> serialized))\<rparr>)) (\<lambda>_.
              bindR (updateObj (api_update (l_logsets L))) (\<lambda>_. ret replicas))))))"

text \<open>\<^verbatim>\<open>%012x\<close>.\<close>

definition encodeOrdinal :: "int \<Rightarrow> string" where
  "encodeOrdinal i = (let h = hexStr (nat i) in ''00000000-0000-0000-0000-'' @ replicate (12 - length h) (CHR ''0'') @ h)"

definition encodeSeeds :: "(int \<times> int) list \<Rightarrow> string list" where
  "encodeSeeds brs = map (\<lambda>(i, rid). goItoa rid @ '':'' @ encodeOrdinal i) brs"

section \<open>Scaling and failover\<close>

definition syncReplicas :: "logset \<Rightarrow> stateful_set \<Rightarrow> stateful_set" where
  "syncReplicas ls sts = sts\<lparr>ss_replicas := lg_replicas (lgs_spec ls)\<rparr>"

definition Scale :: "codec \<Rightarrow> 'w lenv \<Rightarrow> stateful_set \<Rightarrow> ('w logset_ctx, unit) rm" where
  "Scale T L sts =
     bindR getObj (\<lambda>ls.
     bindR (callW (api_patch (l_sts L) sts (syncReplicas ls sts))) (\<lambda>sts.
     updateGossipConfig T L sts))"

text \<open>The clock is read for each store.\<close>

fun StoresFailedFor :: "'w lenv \<Rightarrow> int \<Rightarrow> store list \<Rightarrow> (('o, 'w) ctx, store list) rm" where
  "StoresFailedFor L d [] = ret []"
| "StoresFailedFor L d (x # xs) =
     bindR (readW (l_now L)) (\<lambda>t.
     bindR (StoresFailedFor L d xs) (\<lambda>ys.
     ret (if t - sr_lastTransition x \<ge> d then x # ys else ys)))"

definition failoverDeletionFinalizer :: string where
  "failoverDeletionFinalizer = ''matrixorigin.io/confirm-deletion''"

definition ActionRequiredLabelKey :: string where
  "ActionRequiredLabelKey = ''matrixorigin.io/action-required''"

definition ActionRequiredLabelValue :: string where
  "ActionRequiredLabelValue = ''True''"

definition LogSetOwnerKey :: string where
  "LogSetOwnerKey = ''matrixorigin.io/logset-owner''"

text \<open>The pod a failover names: only its namespace and name are set.\<close>

definition podRef :: "string \<Rightarrow> string \<Rightarrow> pod" where
  "podRef ns n = \<lparr>pod_name = n, pod_ns = ns, pod_rv = 0, pod_labels = None, pod_annos = None, pod_finalizers = [],
     pod_deleted = None, pod_created = 0, pod_nodeName = [], pod_subdomain = [], pod_status_phase = PodUnknown,
     pod_conditions = [], pod_containers = []\<rparr>"

definition orphaned :: "logset \<Rightarrow> pod \<Rightarrow> pod" where
  "orphaned ls p = p\<lparr>
     pod_finalizers := (if failoverDeletionFinalizer \<in> set (pod_finalizers p) then pod_finalizers p
                        else pod_finalizers p @ [failoverDeletionFinalizer]),
     pod_labels := Some [ActionRequiredLabelKey \<mapsto> ActionRequiredLabelValue, LogSetOwnerKey \<mapsto> lgs_name ls]\<rparr>"

text \<open>Go's integer division rounds towards zero.\<close>

definition minorityLimit :: "int \<Rightarrow> int" where
  "minorityLimit n = (if n \<ge> 0 then n div 2 else - ((- n) div 2))"

text \<open>\<^verbatim>\<open>Repair\<close> once the store to replace is chosen.\<close>

definition replaceStore :: "codec \<Rightarrow> 'w lenv \<Rightarrow> stateful_set \<Rightarrow> store \<Rightarrow> ('w logset_ctx, unit) rm" where
  "replaceStore T L sts candidate =
     bindR getObj (\<lambda>ls.
     let pod = podRef (lgs_ns ls) (sr_podName candidate) in
     bindR (if GetFailedPodStrategy (lgs_spec ls) = FailedPodStrategyOrphan
            then bindR (wrapE ''cannot orphan the victim pod'' (callW (api_patch (l_pods L) pod (orphaned ls pod)))) (\<lambda>_. ret ())
            else ret ()) (\<lambda>_.
     bindR (liftE (l_podOrdinal L (sr_podName candidate))) (\<lambda>ordinal.
     bindR (callW (api_update (l_sts L) (sts\<lparr>ss_reserveOrdinals := l_upsert L (ss_reserveOrdinals sts) ordinal\<rparr>))) (\<lambda>sts.
     updateGossipConfig T L sts))))"

definition Repair :: "codec \<Rightarrow> 'w lenv \<Rightarrow> bool \<Rightarrow> stateful_set \<Rightarrow> ('w logset_ctx, unit) rm" where
  "Repair T L failoverEnabled sts =
     (if \<not> failoverEnabled then ret ()
      else bindR getObj (\<lambda>ls. case ic_logShardReplicas (lg_initialConfig (lgs_spec ls)) of
        None \<Rightarrow> throw nilPanic
      | Some n \<Rightarrow>
          if int (length (fo_failed (lgs_failover ls))) > minorityLimit n then ret ()
          else if int (length (ss_reserveOrdinals sts)) \<ge> minorityLimit n then ret ()
          else
            bindR (StoresFailedFor L (GetStoreFailureTimeout (lgs_spec ls)) (fo_failed (lgs_failover ls))) (\<lambda>toRepair.
            case toRepair of
              [] \<Rightarrow> ret ()
            | candidate # _ \<Rightarrow> replaceStore T L sts candidate)))"

section \<open>Finalize\<close>

definition existsR :: "('w \<Rightarrow> (err + 'a) \<times> 'w) \<Rightarrow> (('o, 'w) ctx, bool) rm" where
  "existsR f =
     bindR (attempt (callW f)) (\<lambda>r. case r of
       Inr _ \<Rightarrow> ret True
     | Inl e \<Rightarrow> if IsNotFound e then ret False else throw e)"

definition ignoreNotFoundR :: "(('o, 'w) ctx, unit) rm \<Rightarrow> (('o, 'w) ctx, unit) rm" where
  "ignoreNotFoundR m = bindR (attempt m) (\<lambda>r. case r of
     Inl e \<Rightarrow> if IsNotFound e then ret () else throw e
   | Inr _ \<Rightarrow> ret ())"

text \<open>The orphaned pods: each loses the finalizer and is deleted; the errors are collected and returned
  together after the loop.\<close>

fun cleanOrphans :: "'w lenv \<Rightarrow> pod list \<Rightarrow> (('o, 'w) ctx, err list) rm" where
  "cleanOrphans L [] = ret []"
| "cleanOrphans L (p # ps) =
     bindR (if failoverDeletionFinalizer \<in> set (pod_finalizers p)
            then bindR (attempt (callW (api_update (l_pods L)
                   (p\<lparr>pod_finalizers := filter (\<lambda>f. f \<noteq> failoverDeletionFinalizer) (pod_finalizers p)\<rparr>)))) (\<lambda>r.
                 ret (case r of Inl e \<Rightarrow> (p, [e]) | Inr p' \<Rightarrow> (p', [])))
            else ret (p, [])) (\<lambda>(p, errs).
     bindR (attempt (callW (api_delete (l_pods L) p))) (\<lambda>r.
     bindR (cleanOrphans L ps) (\<lambda>rest.
     ret (errs @ (case r of Inl e \<Rightarrow> [e] | Inr _ \<Rightarrow> []) @ rest))))"

definition multierr :: "err list \<Rightarrow> err" where
  "multierr es = (case es of [e] \<Rightarrow> e | _ \<Rightarrow> Err Plain (concat (map (\<lambda>e. emsg e @ ''; '') es)))"

definition stsRef :: "logset \<Rightarrow> stateful_set" where
  "stsRef ls = \<lparr>ss_name = stsName ls, ss_ns = lgs_ns ls, ss_replicas = 0, ss_reserveOrdinals = [],
     ss_template = \<lparr>pt_labels = None, pt_containers = [], pt_restartPolicy = [], pt_volumes = []\<rparr>\<rparr>"

definition LogSetFinalize :: "'w lenv \<Rightarrow> ('w logset_ctx, bool) rm" where
  "LogSetFinalize L =
     bindR getObj (\<lambda>ls.
     let headless = (lgs_ns ls, headlessSvcName ls); discovery = (lgs_ns ls, discoverySvcName ls) in
     bindR (ignoreNotFoundR (callW (api_delete (l_services L) headless))) (\<lambda>_.
     bindR (ignoreNotFoundR (callW (api_delete (l_sts L) (stsRef ls)))) (\<lambda>_.
     bindR (ignoreNotFoundR (callW (api_delete (l_services L) discovery))) (\<lambda>_.
     bindR (existsR (api_get (l_services L) headless)) (\<lambda>b1.
     if b1 then ret False else
     bindR (existsR (api_get (l_sts L) (lgs_ns ls, stsName ls))) (\<lambda>b2.
     if b2 then ret False else
     bindR (existsR (api_get (l_services L) discovery)) (\<lambda>b3.
     if b3 then ret False else
     bindR (callW (api_list (l_pods L) (lgs_ns ls) (MatchingLabels [(LogSetOwnerKey, lgs_name ls)]))) (\<lambda>pods.
     if pods \<noteq> [] then
       bindR (cleanOrphans L pods) (\<lambda>errs. if errs \<noteq> [] then throw (multierr errs) else ret False)
     else finalizeBucket L))))))))"

section \<open>The addresses of the log pods\<close>

text \<open>The reference: the first \<open>r\<close> ordinals that are not reserved.\<close>

definition runningOrdinals :: "int list \<Rightarrow> int \<Rightarrow> int list" where
  "runningOrdinals reserved r = take (nat r) (filter (\<lambda>i. i \<notin> set reserved) [0..r + int (length reserved) - 1])"

lemma ordinalLoop_take:
  "nat (r - n) \<le> length (filter (\<lambda>i. i \<notin> set reserved) [i..j]) \<Longrightarrow>
     ordinalLoop reserved r i n = take (nat (r - n)) (filter (\<lambda>i. i \<notin> set reserved) [i..j])"
proof (induction reserved r i n rule: ordinalLoop.induct)
  case (1 reserved r i n)
  show ?case
  proof (cases "n \<ge> r")
    case True
    then show ?thesis by (simp add: ordinalLoop.simps)
  next
    case False
    with "1.prems" have ij: "i \<le> j" by (cases "i \<le> j") simp_all
    have split: "[i..j] = i # [i + 1..j]" using ij by (rule upto_rec1)
    show ?thesis
    proof (cases "i \<in> set reserved")
      case True
      with False "1.IH"(1) "1.prems" split show ?thesis by (subst ordinalLoop.simps) simp
    next
      case notIn: False
      have len: "nat (r - n) = Suc (nat (r - (n + 1)))" using False by simp
      with "1.IH"(2)[OF False notIn] "1.prems" notIn split
      have "ordinalLoop reserved r (i + 1) (n + 1) = take (nat (r - (n + 1))) (filter (\<lambda>i. i \<notin> set reserved) [i + 1..j])" by simp
      with False notIn split len show ?thesis by (subst ordinalLoop.simps) simp
    qed
  qed
qed

lemma enough_ordinals: "nat r \<le> length (filter (\<lambda>i. i \<notin> set reserved) [0..r + int (length reserved) - 1])"
proof -
  let ?xs = "[0..r + int (length reserved) - 1]"
  have "length (filter (\<lambda>i. i \<in> set reserved) ?xs) = card (set (filter (\<lambda>i. i \<in> set reserved) ?xs))"
    by (simp only: distinct_card distinct_filter distinct_upto)
  also have "\<dots> \<le> card (set reserved)" by (rule card_mono) auto
  also have "\<dots> \<le> length reserved" by (rule card_length)
  finally have "length (filter (\<lambda>i. i \<in> set reserved) ?xs) \<le> length reserved" .
  moreover have "length (filter (\<lambda>i. i \<in> set reserved) ?xs) + length (filter (\<lambda>i. i \<notin> set reserved) ?xs) = length ?xs"
    using sum_length_filter_compl[of "\<lambda>i. i \<in> set reserved" ?xs] by simp
  ultimately show ?thesis by simp
qed

lemma ordinalLoop_running: "ordinalLoop reserved r 0 0 = runningOrdinals reserved r"
  unfolding runningOrdinals_def using ordinalLoop_take[of r 0 reserved 0] enough_ordinals[of r reserved] by simp

text \<open>\<^verbatim>\<open>HaKeeperSvcAddrs\<close>, \<^verbatim>\<open>gossipSeeds\<close>: the loop over the ordinals ends and agrees with the reference. Both lists
  name the first replicas whose ordinal is not reserved, exactly as many as there are replicas (none for
  a negative number), no ordinal twice and no reserved one.\<close>

theorem log_addresses:
  "HaKeeperSvcAddrs ls reserved = map (podAddr ls logServicePort) (runningOrdinals reserved (lg_replicas (lgs_spec ls))) \<and>
   gossipSeeds ls sts = map (podAddr ls gossipPort) (runningOrdinals (ss_reserveOrdinals sts) (ss_replicas sts)) \<and>
   length (runningOrdinals reserved r) = nat r \<and> distinct (runningOrdinals reserved r) \<and>
   set (runningOrdinals reserved r) \<inter> set reserved = {}"
proof -
  have "length (runningOrdinals reserved r) = nat r"
    unfolding runningOrdinals_def using enough_ordinals[of r reserved] by simp
  moreover have "distinct (runningOrdinals reserved r)" unfolding runningOrdinals_def by simp
  moreover have "set (runningOrdinals reserved r) \<inter> set reserved = {}"
    unfolding runningOrdinals_def by (auto dest: in_set_takeD)
  ultimately show ?thesis by (simp add: HaKeeperSvcAddrs_def gossipSeeds_def ordinalLoop_running)
qed

section \<open>Failover\<close>

text \<open>\<^verbatim>\<open>util.Upsert\<close> adds a missing element.\<close>

definition upsertAdds :: "'w lenv \<Rightarrow> bool" where
  "upsertAdds L \<longleftrightarrow> (\<forall>xs x. set (l_upsert L xs x) = insert x (set xs) \<and> length (l_upsert L xs x) \<le> Suc (length xs))"

text \<open>The store was seen down for the timeout, by a reading of the clock.\<close>

definition overdue :: "'w lenv \<Rightarrow> int \<Rightarrow> store \<Rightarrow> bool" where
  "overdue L d x \<longleftrightarrow> (\<exists>t w w'. l_now L w = (t, w') \<and> t - sr_lastTransition x \<ge> d)"

fun repairEvent :: "'w lenv \<Rightarrow> logset \<Rightarrow> stateful_set \<Rightarrow> int \<Rightarrow> store \<Rightarrow> event \<Rightarrow> bool" where
  "repairEvent L ls sts lim x (StsW (WUpdate sts')) =
     (\<exists>k. l_podOrdinal L (sr_podName x) = Inr k \<and> sts' = sts\<lparr>ss_reserveOrdinals := ss_reserveOrdinals sts'\<rparr> \<and>
        set (ss_reserveOrdinals sts') = insert k (set (ss_reserveOrdinals sts)) \<and>
        int (length (ss_reserveOrdinals sts')) \<le> lim)"
| "repairEvent L ls sts lim x (PodW (WPatch p p')) =
     (GetFailedPodStrategy (lgs_spec ls) = FailedPodStrategyOrphan \<and> podKey p = (lgs_ns ls, sr_podName x) \<and> p' = orphaned ls p)"
| "repairEvent L ls sts lim x (ConfigMapOwnedW old new) = True"
| "repairEvent L ls sts lim x _ = False"

lemma StoresFailedFor_spec:
  "StoresFailedFor (loggedL L) d xs s = (Inr ys, s') \<Longrightarrow>
     Obj s' = Obj s \<and> logOf s' = logOf s \<and> set ys \<subseteq> set xs \<and> (\<forall>y \<in> set ys. overdue L d y)"
proof (induction xs arbitrary: s ys)
  case Nil
  then show ?case by (simp add: ret_def)
next
  case (Cons x xs)
  obtain t w1 where t: "l_now L (fst (world s)) = (t, w1)" by fastforce
  with Cons.prems obtain zs where zs: "StoresFailedFor (loggedL L) d xs (s\<lparr>world := (w1, logOf s)\<rparr>) = (Inr zs, s')"
    and ys: "ys = (if t - sr_lastTransition x \<ge> d then x # zs else zs)"
    by (auto simp: readW_def readL_def bindR_def ret_def split: prod.splits sum.splits)
  have "overdue L d x" if "t - sr_lastTransition x \<ge> d" using t that unfolding overdue_def by blast
  with Cons.IH[OF zs] ys show ?case by auto
qed

lemma StoresFailedFor_total: "StoresFailedFor L d xs s \<noteq> (Inl e, s')"
proof (induction xs arbitrary: s)
  case Nil
  then show ?case by (simp add: ret_def)
next
  case (Cons x xs)
  then show ?case by (auto simp: readW_def bindR_def ret_def split: prod.splits sum.splits)
qed

lemma updateGossipConfig_sends: "onlySends (\<lambda>x. x = ls) (repairEvent L ls sts lim x) (updateGossipConfig T (loggedL L') sts')"
  unfolding updateGossipConfig_def by (rule onlySends_bind_liftE sendsR | simp only: send_simps | simp)+

lemma replaceStore_sends:
  assumes up: "upsertAdds L" and lim: "int (length (ss_reserveOrdinals sts)) < lim"
  shows "onlySends (\<lambda>x. x = ls) (repairEvent L ls sts lim x) (replaceStore T (loggedL L) sts x)"
proof -
  have reserve: "repairEvent L ls sts lim x (StsW (WUpdate (sts\<lparr>ss_reserveOrdinals := l_upsert L (ss_reserveOrdinals sts) k\<rparr>)))"
    if "l_podOrdinal L (sr_podName x) = Inr k" for k
  proof -
    have "length (l_upsert L (ss_reserveOrdinals sts) k) \<le> Suc (length (ss_reserveOrdinals sts))"
      and "set (l_upsert L (ss_reserveOrdinals sts) k) = insert k (set (ss_reserveOrdinals sts))"
      using up unfolding upsertAdds_def by blast+
    with that lim show ?thesis by simp
  qed
  show ?thesis unfolding replaceStore_def
    by (rule onlySends_bind_liftE updateGossipConfig_sends reserve sendsR
        | simp only: send_simps | simp add: podKey_def podRef_def)+
qed

text \<open>C10 (\<^verbatim>\<open>Repair\<close>): an automatic failover replaces one store at a time and stays within a minority. If anything is
  written, then failover is enabled, at most a minority of the log shard replicas is down, and fewer ordinals
  than that are reserved already; the writes concern one store that is down and has been for the failure
  timeout. The stateful set gets the ordinal of this store as its only new reserved ordinal, and the
  reserved ordinals are still at most a minority; the pod is relabelled only under the Orphan strategy.\<close>

theorem repair_within_minority:
  assumes up: "upsertAdds L"
    and run: "Repair T (loggedL L) enabled sts \<lparr>Obj = ls, world = (w, [])\<rparr> = (r, s')" and sent: "logOf s' \<noteq> []"
  shows "\<exists>n x. enabled \<and> ic_logShardReplicas (lg_initialConfig (lgs_spec ls)) = Some n \<and>
     int (length (fo_failed (lgs_failover ls))) \<le> minorityLimit n \<and>
     int (length (ss_reserveOrdinals sts)) < minorityLimit n \<and>
     x \<in> set (fo_failed (lgs_failover ls)) \<and> overdue L (GetStoreFailureTimeout (lgs_spec ls)) x \<and>
     list_all (repairEvent L ls sts (minorityLimit n) x) (logOf s')"
proof -
  let ?s = "\<lparr>Obj = ls, world = (w, [])\<rparr>" and ?failed = "fo_failed (lgs_failover ls)" and ?d = "GetStoreFailureTimeout (lgs_spec ls)"
  note run = run[unfolded Repair_def bindR_Inr[of getObj, OF getObj_def] ctx.simps]
  obtain n where n: "enabled" "ic_logShardReplicas (lg_initialConfig (lgs_spec ls)) = Some n"
      "int (length ?failed) \<le> minorityLimit n" "int (length (ss_reserveOrdinals sts)) < minorityLimit n"
    and rest: "bindR (StoresFailedFor (loggedL L) ?d ?failed) (\<lambda>toRepair. case toRepair of
        [] \<Rightarrow> ret () | candidate # _ \<Rightarrow> replaceStore T (loggedL L) sts candidate) ?s = (r, s')"
    using run sent by (auto simp: ret_def throw_def bindR_Inr[of getObj, OF getObj_def] split: if_splits option.splits)
  show ?thesis using rest
  proof (cases rule: bindR_cases)
    case (err e)
    with StoresFailedFor_total show ?thesis by blast
  next
    case (ok ys s1)
    note spec = StoresFailedFor_spec[OF ok(1)]
    obtain x zs where ys: "ys = x # zs" using ok(2) sent spec by (cases ys) (auto simp: ret_def)
    have obj: "Obj s1 = ls" and step: "replaceStore T (loggedL L) sts x s1 = (r, s')" using ok(2) ys spec by simp_all
    from replaceStore_sends[OF up n(4)] obj step obtain es where
      "logOf s' = es @ logOf s1" and "\<forall>e \<in> set es. repairEvent L ls sts (minorityLimit n) x e"
      by (rule onlySendsD)
    with n spec ys show ?thesis by (auto simp: list_all_iff)
  qed
qed

section \<open>The failure clock\<close>

lemma collectStores_filter:
  "collectStores st pods = (filter (\<lambda>x. sr_phase x = StorePhaseUp) (map (\<lambda>(n, up, t). storeOf st up t n) pods),
     filter (\<lambda>x. sr_phase x \<noteq> StorePhaseUp) (map (\<lambda>(n, up, t). storeOf st up t n) pods))"
  by (induction st pods rule: collectStores.induct) (auto simp: Let_def)

lemma storeOf_fields [simp]:
  "sr_podName (storeOf st up t n) = n" "sr_phase (storeOf st up t n) = (if up then StorePhaseUp else StorePhaseDown)"
  by (simp_all add: storeOf_def Let_def split: option.splits)

lemma previousStore_collect:
  assumes dist: "distinct (map fst pods)" and pod: "(n, up, t) \<in> set pods"
  shows "previousStore (CollectStoreStatus st pods) n = Some (storeOf st up t n)"
proof -
  let ?xs = "map (\<lambda>(n, up, t). storeOf st up t n) pods"
  let ?ys = "filter (\<lambda>x. sr_phase x \<noteq> StorePhaseUp) ?xs @ filter (\<lambda>x. sr_phase x = StorePhaseUp) ?xs"
  have "map sr_podName ?xs = map fst pods" by (simp add: case_prod_beta comp_def)
  with dist have "distinct (map sr_podName ?xs)" by (simp only:)
  then have "distinct (map sr_podName ?ys)" by (auto simp: distinct_map inj_on_def)
  then have "distinct (map fst (map (\<lambda>x. (sr_podName x, x)) (rev ?ys)))"
    by (simp only: map_map comp_def fst_conv rev_map[symmetric] distinct_rev)
  moreover have "(n, storeOf st up t n) \<in> set (map (\<lambda>x. (sr_podName x, x)) (rev ?ys))"
    using pod by (force simp: image_iff)
  ultimately show ?thesis
    unfolding previousStore_def CollectStoreStatus_def collectStores_filter by (simp del: rev_append map_append add: map_of_eq_Some_iff)
qed

text \<open>A round of observation in which the pod is listed, once, in the given condition.\<close>

definition seesPod :: "bool \<Rightarrow> string \<Rightarrow> (string \<times> bool \<times> time) list \<Rightarrow> time \<Rightarrow> bool" where
  "seesPod up n pods t \<longleftrightarrow> distinct (map fst pods) \<and> (n, up, t) \<in> set pods"

definition storeSince :: "string \<Rightarrow> bool \<Rightarrow> time \<Rightarrow> store" where
  "storeSince n up t = \<lparr>sr_podName = n, sr_phase = (if up then StorePhaseUp else StorePhaseDown), sr_lastTransition = t\<rparr>"

lemma storeOf_first:
  "(\<And>x. previousStore st n = Some x \<Longrightarrow> sr_phase x \<noteq> (if up then StorePhaseUp else StorePhaseDown)) \<Longrightarrow>
     storeOf st up t n = storeSince n up t"
  by (cases up) (auto simp: storeOf_def storeSince_def Let_def split: option.splits)

lemma storeOf_again: "previousStore st n = Some (storeSince n up t0) \<Longrightarrow> storeOf st up t n = storeSince n up t0"
  by (simp add: storeOf_def storeSince_def Let_def)

lemma collected:
  assumes "seesPod up n pods t"
  shows "previousStore (CollectStoreStatus st pods) n = Some (storeOf st up t n) \<and>
    storeOf st up t n \<in> set (if up then fo_available (CollectStoreStatus st pods) else fo_failed (CollectStoreStatus st pods))"
proof -
  have "StorePhaseDown \<noteq> StorePhaseUp" by (simp add: StorePhaseDown_def StorePhaseUp_def)
  with assms show ?thesis
    using previousStore_collect[of pods n up t st] by (force simp: seesPod_def CollectStoreStatus_def collectStores_filter)
qed

text \<open>\<^verbatim>\<open>CollectStoreStatus\<close>: the failure clock of a store starts at the first observation of a failure and is not
  restarted while the failure lasts. If a pod was not known in a condition and is then seen in it by
  every one of a sequence of observations, its store is listed in that condition with the time of the
  first of them; so the failover timeout counts from there, and an observation of the other
  condition starts the clock anew.\<close>

theorem failure_clock:
  assumes fresh: "\<And>x. previousStore st n = Some x \<Longrightarrow> sr_phase x \<noteq> (if up then StorePhaseUp else StorePhaseDown)"
    and first: "seesPod up n r0 t0" and later: "list_all (\<lambda>pods. \<exists>t. seesPod up n pods t) rs"
  shows "storeSince n up t0 \<in> set (if up then fo_available (foldl CollectStoreStatus st (r0 # rs))
       else fo_failed (foldl CollectStoreStatus st (r0 # rs))) \<and>
     previousStore (foldl CollectStoreStatus st (r0 # rs)) n = Some (storeSince n up t0)"
  using later
proof (induction rs rule: rev_induct)
  case Nil
  have "storeOf st up t0 n = storeSince n up t0" by (rule storeOf_first) (rule fresh)
  with collected[OF first, of st] show ?case by (cases up) simp_all
next
  case (snoc pods rs)
  then obtain t where "seesPod up n pods t" by auto
  with snoc show ?case
    using collected[of up n pods t "foldl CollectStoreStatus st (r0 # rs)"]
      storeOf_again[of "foldl CollectStoreStatus st (r0 # rs)" n up t0 t] by (cases up) simp_all
qed

theorem failure_clock_witness:
  "fo_failed (foldl CollectStoreStatus \<lparr>fo_available = [], fo_failed = []\<rparr> [[(''p'', False, 5)], [(''p'', False, 9)]]) \<noteq> [] \<and>
   storeSince ''p'' False 5 \<in> set (fo_failed (foldl CollectStoreStatus \<lparr>fo_available = [], fo_failed = []\<rparr>
     [[(''p'', False, 5)], [(''p'', False, 9)]]))"
  using failure_clock[of "\<lparr>fo_available = [], fo_failed = []\<rparr>" "''p''" False "[(''p'', False, 5)]" 5 "[[(''p'', False, 9)]]"]
  by (fastforce simp: previousStore_def seesPod_def)

section \<open>The bootstrap decision\<close>

lemma pickReplicas_spec:
  "pickReplicas k i = Inr rs \<Longrightarrow>
     rs = map (\<lambda>j. (i + int j, idRangeStart + i + int j)) [0..<k] \<and> (k > 0 \<longrightarrow> idRangeStart + i + int k - 1 \<le> idRangeEnd)"
proof (induction k arbitrary: i rs)
  case 0
  then show ?case by simp
next
  case (Suc k)
  then obtain rs' where rs': "pickReplicas k (i + 1) = Inr rs'" "rs = (i, idRangeStart + i) # rs'" "idRangeStart + i \<le> idRangeEnd"
    by (auto simp: Let_def split: if_splits sum.splits)
  have "[0..<Suc k] = 0 # map Suc [0..<k]" by (simp add: upt_conv_Cons map_Suc_upt del: upt_Suc)
  with Suc.IH[OF rs'(1)] rs' show ?case by (auto simp: algebra_simps simp del: upt_Suc)
qed

text \<open>Laws of the codec and of the API server: a decision is read back as it was written, and the answer to an
  update carries the annotations that were sent.\<close>

definition bootstrapLaws :: "'w lenv \<Rightarrow> bool" where
  "bootstrapLaws L \<longleftrightarrow>
     (\<forall>n str. l_marshalReplicas L (map (\<lambda>j. (int j, idRangeStart + int j)) [0..<n]) = Inr str \<longrightarrow>
        l_unmarshalReplicas L str = Inr (map (\<lambda>j. (int j, idRangeStart + int j)) [0..<n])) \<and>
     (\<forall>x w y w'. api_update (l_logsets L) x w = (Inr y, w') \<longrightarrow> lgs_annos y = lgs_annos x)"

text \<open>\<^verbatim>\<open>bootstrap\<close>: the initial HAKeeper members are decided once. A log set without a recorded decision gets the
  first pods, as many as its log shards have replicas, with consecutive ids inside the reserved range;
  every later run, in whatever world, returns the recorded decision and changes nothing.\<close>

theorem bootstrap_once:
  assumes laws: "bootstrapLaws L" and fresh: "gget (lgs_annos (Obj s)) bootstrapAnnoKey = None"
    and n: "ic_logShardReplicas (lg_initialConfig (lgs_spec (Obj s))) = Some n" and run: "bootstrap L s = (Inr rs, s')"
  shows "rs = map (\<lambda>j. (int j, idRangeStart + int j)) [0..<nat n] \<and>
     list_all (\<lambda>(i, rid). idRangeStart \<le> rid \<and> rid \<le> idRangeEnd) rs \<and> distinct (map snd rs) \<and>
     bootstrap L (s'\<lparr>world := w\<rparr>) = (Inr rs, s'\<lparr>world := w\<rparr>)"
proof -
  let ?anno = "\<lambda>str ls. ls\<lparr>lgs_annos := Some ((the (gmake (lgs_annos ls)))(bootstrapAnnoKey \<mapsto> str))\<rparr>"
  from run fresh n obtain str where pick: "pickReplicas (nat n) 0 = Inr rs" and str: "l_marshalReplicas L rs = Inr str"
    and upd: "updateObj (api_update (l_logsets L)) (s\<lparr>Obj := ?anno str (Obj s)\<rparr>) = (Inr (), s')"
    by (auto simp: bootstrap_def bindR_Inr[of getObj, OF getObj_def] liftE_def wrapE_def modObj_def ret_def throw_def
        elim!: bindR_InrE split: sum.splits prod.splits)
  have rs: "rs = map (\<lambda>j. (int j, idRangeStart + int j)) [0..<nat n]"
    and top: "nat n > 0 \<longrightarrow> idRangeStart + int (nat n) - 1 \<le> idRangeEnd"
    using pickReplicas_spec[OF pick] by simp_all
  obtain w' where "api_update (l_logsets L) (?anno str (Obj s)) (world s) = (Inr (Obj s'), w')"
    using upd by (auto simp: updateObj_def split: prod.splits sum.splits)
  then have "lgs_annos (Obj s') = lgs_annos (?anno str (Obj s))" using laws unfolding bootstrapLaws_def by blast
  moreover have "l_unmarshalReplicas L str = Inr rs" using laws str unfolding rs bootstrapLaws_def by blast
  ultimately have "bootstrap L (s'\<lparr>world := w\<rparr>) = (Inr rs, s'\<lparr>world := w\<rparr>)"
    by (simp add: bootstrap_def bindR_Inr[of getObj, OF getObj_def] liftE_def wrapE_def ret_def)
  moreover have "list_all (\<lambda>(i, rid). idRangeStart \<le> rid \<and> rid \<le> idRangeEnd) rs"
    using top by (auto simp: rs list_all_iff)
  moreover have "distinct (map snd rs)" by (simp add: rs distinct_map inj_on_def comp_def)
  ultimately show ?thesis using rs by blast
qed

section \<open>Sample runs\<close>

definition downStore :: store where
  "downStore = \<lparr>sr_podName = ''p'', sr_phase = StorePhaseDown, sr_lastTransition = 0\<rparr>"

definition brokenLogs :: logset where
  "brokenLogs = sampleLogs\<lparr>lgs_failover := \<lparr>fo_available = [], fo_failed = [downStore]\<rparr>\<rparr>"

definition sampleSts :: stateful_set where
  "sampleSts = (stsRef sampleLogs)\<lparr>ss_replicas := 3\<rparr>"

definition lateWorld :: bucket_mem where
  "lateWorld = bucketWorld\<lparr>bm_now := 700 * second, bm_sts := [sampleSts]\<rparr>"

definition sampleCodec :: codec where
  "sampleCodec = \<lparr>tc_encode = (\<lambda>_. Inr ''t''), tc_decode = (\<lambda>_. Inr None), tj_string = (\<lambda>x. x),
     tj_value = (\<lambda>x. Inr (JStr x)), tj_map = (\<lambda>_. Inr None)\<rparr>"

lemma bucketEnv_laws: "upsertAdds bucketEnv" "bootstrapLaws bucketEnv"
  by (auto simp: upsertAdds_def bootstrapLaws_def bucketEnv_def memKind_def idRangeStart_def Let_def)

theorem repair_within_minority_witness:
  "\<exists>n x. ic_logShardReplicas (lg_initialConfig (lgs_spec brokenLogs)) = Some n \<and>
     x \<in> set (fo_failed (lgs_failover brokenLogs)) \<and> overdue bucketEnv (GetStoreFailureTimeout (lgs_spec brokenLogs)) x \<and>
     list_all (repairEvent bucketEnv brokenLogs sampleSts (minorityLimit n) x)
       (logOf (snd (Repair sampleCodec (loggedL bucketEnv) True sampleSts \<lparr>Obj = brokenLogs, world = (lateWorld, [])\<rparr>)))"
proof -
  let ?run = "Repair sampleCodec (loggedL bucketEnv) True sampleSts \<lparr>Obj = brokenLogs, world = (lateWorld, [])\<rparr>"
  have "logOf (snd ?run) \<noteq> []"
    by (simp add: Repair_def replaceStore_def updateGossipConfig_def brokenLogs_def downStore_def sampleSts_def lateWorld_def
        stsRef_def minorityLimit_def GetStoreFailureTimeout_def defaultStoreFailureTimeout_def GetFailedPodStrategy_def
        buildGossipSeedsConfigMap_def ToString_def MarshalTOML_def sampleCodec_def liftE_def second_def bucket_run_defs)
  with repair_within_minority[where r = "fst ?run" and s' = "snd ?run", OF bucketEnv_laws(1)] show ?thesis by fastforce
qed

theorem bootstrap_once_witness:
  "\<exists>rs s'. bootstrap bucketEnv \<lparr>Obj = sampleLogs, world = bucketWorld\<rparr> = (Inr rs, s') \<and> length rs = 3 \<and>
     bootstrap bucketEnv (s'\<lparr>world := lateWorld\<rparr>) = (Inr rs, s'\<lparr>world := lateWorld\<rparr>)"
proof -
  let ?run = "bootstrap bucketEnv \<lparr>Obj = sampleLogs, world = bucketWorld\<rparr>"
  have "\<exists>rs. fst ?run = Inr rs"
    by (simp add: bootstrap_def idRangeStart_def idRangeEnd_def liftE_def eval_nat_numeral bucket_run_defs)
  then obtain rs where run: "?run = (Inr rs, snd ?run)" by (metis prod.collapse)
  have "gget (lgs_annos sampleLogs) bootstrapAnnoKey = None"
    and "ic_logShardReplicas (lg_initialConfig (lgs_spec sampleLogs)) = Some 3" by (simp_all add: sampleLogs_def)
  with bootstrap_once[OF bucketEnv_laws(2) _ _ run, of 3 lateWorld] run show ?thesis by fastforce
qed

end
