(* ===== verification/Pod_Template.thy ===== *)
theory Pod_Template
  imports LogSet
begin

text \<open>
  How a set (log, DN, CN, proxy) is rendered to the template of its pods: the overlay of
  \<^verbatim>\<open>common_helpers.go\<close>, the helpers of \<^verbatim>\<open>common/podset.go\<close>, \<^verbatim>\<open>template.go\<close>, \<^verbatim>\<open>volume.go\<close> and \<^verbatim>\<open>fileservice.go\<close>,
  and \<^verbatim>\<open>syncPodSpec\<close> of the log, DN and CN sets.

  A controller renders the template it reads back from the server and updates the set when the result
  differs. The theorems say that rendering a rendered template changes nothing, so that a set whose
  specification does not change is not rolled out again, and what an overlay can change.
\<close>

section \<open>Laws of the libraries\<close>

text \<open>What \<^verbatim>\<open>UpsertByKey\<close> does: the first element with the key is replaced in place, a new one is appended.\<close>

fun upsertKey :: "('a \<Rightarrow> string) \<Rightarrow> 'a list \<Rightarrow> 'a \<Rightarrow> 'a list" where
  "upsertKey key [] x = [x]"
| "upsertKey key (y # ys) x = (if key y = key x then x # ys else y # upsertKey key ys x)"

definition upsertAll :: "('a \<Rightarrow> string) \<Rightarrow> 'a list \<Rightarrow> 'a list \<Rightarrow> 'a list" where
  "upsertAll key = foldl (upsertKey key)"

text \<open>The documented behaviour of the library functions, as the theorems use it.\<close>

definition toolLaws :: "tools \<Rightarrow> bool" where
  "toolLaws U \<longleftrightarrow>
     (\<forall>cs P. u_findContainer U cs P = find P cs) \<and>
     (\<forall>es P. u_findEnv U es P = find P es) \<and>
     (\<forall>vs P. u_findVolume U vs P = find P vs) \<and>
     u_upsertVolume U = upsertKey vo_name \<and> u_upsertVolumes U = upsertAll vo_name \<and>
     u_upsertEnv U = upsertKey ev_name \<and> u_upsertEnvs U = upsertAll ev_name \<and>
     u_upsertMount U = upsertKey mt_name \<and> u_upsertMounts U = upsertAll mt_name \<and>
     (\<forall>n p. ev_name (u_fieldRef U n p) = n) \<and>
     (\<forall>n. u_configMapVolume U n = VolConfigMap n)"

section \<open>Pod sets\<close>

definition GetExportToPrometheus :: "pod_set \<Rightarrow> bool" where
  "GetExportToPrometheus p = (case pd_exportProm p of None \<Rightarrow> False | Some b \<Rightarrow> b)"

definition GetPromDiscoveryScheme :: "pod_set \<Rightarrow> prom_scheme" where
  "GetPromDiscoveryScheme p = (case pd_promScheme p of None \<Rightarrow> PromDiscoverySchemeService | Some x \<Rightarrow> x)"

definition PromDiscoveredByService :: "pod_set \<Rightarrow> bool" where
  "PromDiscoveredByService p \<longleftrightarrow> GetPromDiscoveryScheme p = PromDiscoverySchemeService \<and> GetExportToPrometheus p"

definition PromDiscoveredByPod :: "pod_set \<Rightarrow> bool" where
  "PromDiscoveredByPod p \<longleftrightarrow> GetPromDiscoveryScheme p = PromDiscoverySchemePod \<and> GetExportToPrometheus p"

text \<open>The text after the last colon; the empty string if there is none.\<close>

definition getImageTag :: "string \<Rightarrow> string" where
  "getImageTag img = (if CHR '':'' \<in> set img then rev (takeWhile (\<lambda>c. c \<noteq> CHR '':'') (rev img)) else [])"

definition GetSemVer :: "tools \<Rightarrow> pod_set \<Rightarrow> semver option" where
  "GetSemVer U p = u_parseTolerant U (case pd_semVersion p of Some s \<Rightarrow> s | None \<Rightarrow> getImageTag (pd_image p))"

definition opVersion :: "tools \<Rightarrow> pod_set \<Rightarrow> semver" where
  "opVersion U p = (case pd_opVersion p of
      None \<Rightarrow> FirstOpVersion
    | Some s \<Rightarrow> (case u_parseTolerant U s of None \<Rightarrow> FirstOpVersion | Some v \<Rightarrow> v))"

definition inplaceConfig :: "tools \<Rightarrow> pod_set \<Rightarrow> bool" where
  "inplaceConfig U p = GateEnabled GateInplaceConfigmapUpdate (opVersion U p)"

definition discoveryFixed :: "tools \<Rightarrow> pod_set \<Rightarrow> bool" where
  "discoveryFixed U p = (case GetSemVer U p of None \<Rightarrow> False | Some v \<Rightarrow> HasMOFeature v MOFeatureDiscoveryFixed)"


section \<open>Overlays\<close>

text \<open>\<^verbatim>\<open>if x != nil { field = x }\<close>.\<close>

definition orElse :: "'a option \<Rightarrow> 'a \<Rightarrow> 'a" where
  "orElse x y = (case x of None \<Rightarrow> y | Some z \<Rightarrow> z)"

definition orSome :: "'a option \<Rightarrow> 'a option \<Rightarrow> 'a option" where
  "orSome x y = (case x of None \<Rightarrow> y | Some z \<Rightarrow> Some z)"

definition orStr :: "string \<Rightarrow> string \<Rightarrow> string" where
  "orStr x y = (if x \<noteq> [] then x else y)"

text \<open>\<^verbatim>\<open>for k, v := range over { m[k] = v }\<close> into a map that is made when \<open>over\<close> is not nil.\<close>

definition overMap :: "gomap \<Rightarrow> gomap \<Rightarrow> gomap" where
  "overMap over m = (case over of None \<Rightarrow> m | Some f \<Rightarrow> Some (the (gmake m) ++ f))"

definition OverlayPodMeta :: "pod_overlay option \<Rightarrow> pod_tpl \<Rightarrow> pod_tpl" where
  "OverlayPodMeta ov t = (case ov of
      None \<Rightarrow> t
    | Some x \<Rightarrow> t\<lparr>pm_labels := overMap (po_labels x) (pm_labels t), pm_annos := overMap (po_annos x) (pm_annos t)\<rparr>)"

definition AppendVolumeClaims :: "pod_overlay option \<Rightarrow> pvc list \<Rightarrow> pvc list" where
  "AppendVolumeClaims ov claims = (case ov of None \<Rightarrow> claims | Some x \<Rightarrow> claims @ po_claims x)"

definition findMainContainer :: "ctr list \<Rightarrow> ctr option" where
  "findMainContainer cs = find (\<lambda>c. kc_name c = ContainerMain) cs"

definition OverlayPodSpec :: "tools \<Rightarrow> pod_overlay option \<Rightarrow> pod_spec \<Rightarrow> pod_spec" where
  "OverlayPodSpec U ov s = (case ov of
      None \<Rightarrow> s
    | Some x \<Rightarrow> s\<lparr>
        ps_volumes := (case po_volumes x of None \<Rightarrow> ps_volumes s | Some vs \<Rightarrow> u_upsertVolumes U (ps_volumes s) vs),
        ps_affinity := orSome (po_affinity x) (ps_affinity s),
        ps_serviceAccount := orStr (po_serviceAccount x) (ps_serviceAccount s),
        ps_security := orSome (po_security x) (ps_security s),
        ps_pullSecrets := orElse (po_pullSecrets x) (ps_pullSecrets s),
        ps_tolerations := orElse (po_tolerations x) (ps_tolerations s),
        ps_priorityClass := orStr (po_priorityClass x) (ps_priorityClass s),
        ps_grace := orSome (po_grace x) (ps_grace s),
        ps_hostAliases := orElse (po_hostAliases x) (ps_hostAliases s),
        ps_topology := orElse (po_topology x) (ps_topology s),
        ps_runtimeClass := orSome (po_runtimeClass x) (ps_runtimeClass s),
        ps_dnsConfig := orSome (po_dnsConfig x) (ps_dnsConfig s),
        ps_init := orElse (po_init x) (ps_init s),
        ps_containers := (case po_sidecars x of
            None \<Rightarrow> ps_containers s
          | Some cs \<Rightarrow> (case findMainContainer (ps_containers s) of None \<Rightarrow> cs | Some m \<Rightarrow> m # cs)),
        ps_shareProcess := orSome (po_shareProcess x) (ps_shareProcess s)\<rparr>)"

text \<open>The body for an overlay that is there; the startup probe of the overlay is not read.\<close>

definition overlayMain :: "tools \<Rightarrow> main_overlay \<Rightarrow> ctr \<Rightarrow> ctr" where
  "overlayMain U mc c = c\<lparr>
     kc_pullPolicy := orSome (oc_pullPolicy mc) (kc_pullPolicy c),
     kc_command := orElse (oc_command mc) (kc_command c),
     kc_args := orElse (oc_args mc) (kc_args c),
     kc_envFrom := orElse (oc_envFrom mc) (kc_envFrom c),
     kc_env := (case oc_env mc of None \<Rightarrow> kc_env c | Some es \<Rightarrow> u_upsertEnvs U (kc_env c) es),
     kc_readiness := orSome (oc_readiness mc) (kc_readiness c),
     kc_liveness := orSome (oc_liveness mc) (kc_liveness c),
     kc_lifecycle := orSome (oc_lifecycle mc) (kc_lifecycle c),
     kc_security := orSome (oc_security mc) (kc_security c),
     kc_mounts := (case oc_mounts mc of None \<Rightarrow> kc_mounts c | Some ms \<Rightarrow> u_upsertMounts U (kc_mounts c) ms)\<rparr>"

definition OverlayMainContainer :: "tools \<Rightarrow> pod_overlay option \<Rightarrow> ctr \<Rightarrow> ctr" where
  "OverlayMainContainer U ov c = (case ov of None \<Rightarrow> c | Some x \<Rightarrow> overlayMain U (po_main x) c)"

section \<open>Shared rendering\<close>

definition PrometheusScrapeAnno :: string where
  "PrometheusScrapeAnno = ''prometheus.io/scrape''"

definition PrometheusPortAnno :: string where
  "PrometheusPortAnno = ''prometheus.io/port''"

definition OperatorVersionAnno :: string where
  "OperatorVersionAnno = ''matrixorigin.io/operator-version''"

definition ConfigSuffixAnno :: string where
  "ConfigSuffixAnno = ''matrixorigin.io/config-suffix''"

definition MetricsPort :: int where
  "MetricsPort = 7001"

text \<open>\<^verbatim>\<open>SyncPodMeta\<close>, the annotations.\<close>

definition podAnnos :: "tools \<Rightarrow> pod_set \<Rightarrow> (string \<rightharpoonup> string) \<Rightarrow> (string \<rightharpoonup> string)" where
  "podAnnos U p f =
     (let f1 = (if PromDiscoveredByPod p
                then f(PrometheusScrapeAnno \<mapsto> ''true'', PrometheusPortAnno \<mapsto> goItoa MetricsPort)
                else f(PrometheusScrapeAnno := None, PrometheusPortAnno := None));
          f2 = (case GetSemVer U p of None \<Rightarrow> f1 | Some v \<Rightarrow> f1(SemanticVersionAnno \<mapsto> u_verString U v))
      in if u_verGT U (opVersion U p) FirstOpVersion
         then f2(OperatorVersionAnno \<mapsto> u_verString U (opVersion U p)) else f2)"

definition SyncPodMeta :: "tools \<Rightarrow> pod_set \<Rightarrow> pod_tpl \<Rightarrow> pod_tpl" where
  "SyncPodMeta U p t = t\<lparr>pm_annos := Some (podAnnos U p (the (gmake (pm_annos t))))\<rparr>"

text \<open>A write to the annotations after \<^verbatim>\<open>SyncPodMeta\<close>, which left a map there.\<close>

definition setAnno :: "string \<Rightarrow> string \<Rightarrow> pod_tpl \<Rightarrow> pod_tpl" where
  "setAnno k v t = t\<lparr>pm_annos := map_option (\<lambda>f. f(k \<mapsto> v)) (pm_annos t)\<rparr>"

definition SyncTopology :: "string list option \<Rightarrow> gomap \<Rightarrow> pod_spec \<Rightarrow> pod_spec" where
  "SyncTopology domains sel s = s\<lparr>ps_topology := map (\<lambda>d. TopoSpread d sel) (orElse domains [])\<rparr>"

definition AddReadinessGate :: "string \<Rightarrow> pod_spec \<Rightarrow> pod_spec" where
  "AddReadinessGate ct s = (if ct \<in> set (ps_gates s) then s else s\<lparr>ps_gates := ps_gates s @ [ct]\<rparr>)"

definition AWSAccessKeyID :: string where "AWSAccessKeyID = ''AWS_ACCESS_KEY_ID''"
definition AWSSecretAccessKey :: string where "AWSSecretAccessKey = ''AWS_SECRET_ACCESS_KEY''"
definition AWSRegion :: string where "AWSRegion = ''AWS_REGION''"
definition S3CertificateVolume :: string where "S3CertificateVolume = ''s3-ssl''"
definition S3CertificatePath :: string where "S3CertificatePath = ''/etc/s3-ssl''"
definition defaultAWSRegion :: string where "defaultAWSRegion = ''us-west-2''"

text \<open>The loop body of \<^verbatim>\<open>SetStorageProviderConfig\<close> for one container.\<close>

definition storageCtr :: "tools \<Rightarrow> s3_provider \<Rightarrow> ctr \<Rightarrow> ctr" where
  "storageCtr U s3p c =
     (let c1 = (case s3_secretRef s3p of
                  None \<Rightarrow> c
                | Some r \<Rightarrow> c\<lparr>kc_env := u_upsertEnv U (u_upsertEnv U (kc_env c)
                    \<lparr>ev_name = AWSAccessKeyID, ev_src = EnvSecretKey r AWSAccessKeyID\<rparr>)
                    \<lparr>ev_name = AWSSecretAccessKey, ev_src = EnvSecretKey r AWSSecretAccessKey\<rparr>\<rparr>);
          c2 = (case s3_certificateRef s3p of
                  None \<Rightarrow> c1
                | Some _ \<Rightarrow> c1\<lparr>kc_mounts := u_upsertMount U (kc_mounts c1)
                    \<lparr>mt_name = S3CertificateVolume, mt_path = S3CertificatePath, mt_readOnly = True\<rparr>\<rparr>)
      in c2\<lparr>kc_env := u_upsertEnv U (kc_env c2) \<lparr>ev_name = AWSRegion, ev_src = EnvValue (orStr (s3_region s3p) defaultAWSRegion)\<rparr>\<rparr>)"

definition SetStorageProviderConfig :: "tools \<Rightarrow> shared_storage \<Rightarrow> pod_spec \<Rightarrow> pod_spec" where
  "SetStorageProviderConfig U sp s = (case sh_s3 sp of
      None \<Rightarrow> s
    | Some s3p \<Rightarrow> s\<lparr>
        ps_volumes := (case s3_certificateRef s3p of
            None \<Rightarrow> ps_volumes s
          | Some (name, _) \<Rightarrow> u_upsertVolume U (ps_volumes s) \<lparr>vo_name = S3CertificateVolume, vo_source = VolSecret name\<rparr>),
        ps_containers := map (storageCtr U s3p) (ps_containers s)\<rparr>)"

definition MemoryFsVolume :: string where "MemoryFsVolume = ''tmpfs''"
definition MemoryBinPath :: string where "MemoryBinPath = ''/matrixone/bin''"
definition BinPathEnvKey :: string where "BinPathEnvKey = ''MO_BIN_PATH''"

definition memoryCtr :: "tools \<Rightarrow> ctr \<Rightarrow> ctr" where
  "memoryCtr U c = (if kc_name c = ContainerMain
     then c\<lparr>kc_mounts := u_upsertMount U (kc_mounts c) \<lparr>mt_name = MemoryFsVolume, mt_path = MemoryBinPath, mt_readOnly = False\<rparr>,
            kc_env := u_upsertEnv U (kc_env c) \<lparr>ev_name = BinPathEnvKey, ev_src = EnvValue MemoryBinPath\<rparr>\<rparr>
     else c)"

definition SetupMemoryFsVolume :: "tools \<Rightarrow> int option \<Rightarrow> pod_spec \<Rightarrow> pod_spec" where
  "SetupMemoryFsVolume U fsSize s = (case fsSize of
      None \<Rightarrow> s
    | Some n \<Rightarrow> s\<lparr>ps_volumes := u_upsertVolume U (ps_volumes s) \<lparr>vo_name = MemoryFsVolume, vo_source = VolEmptyMemory n\<rparr>,
        ps_containers := map (memoryCtr U) (ps_containers s)\<rparr>)"


text \<open>Integer division rounds towards zero.\<close>

definition divTrunc :: "int \<Rightarrow> int \<Rightarrow> int" where
  "divTrunc a b = sgn a * sgn b * (\<bar>a\<bar> div \<bar>b\<bar>)"

definition EnvGoMemLimit :: string where "EnvGoMemLimit = ''GOMEMLIMIT''"

definition goMemLimit :: "int \<Rightarrow> int \<Rightarrow> int" where
  "goMemLimit limit percent = divTrunc (int64 (limit * percent)) 100"

definition GoMemLimitEnv :: "tools \<Rightarrow> pod_set \<Rightarrow> err + env_var option" where
  "GoMemLimitEnv U p = (case pd_memLimitPercent p of
      None \<Rightarrow> Inr None
    | Some percent \<Rightarrow>
        if pd_memLimit p = 0 then Inr None
        else (case pd_overlay p of
            None \<Rightarrow> Inl nilPanic
          | Some x \<Rightarrow>
              if u_findEnv U (orElse (oc_env (po_main x)) []) (\<lambda>e. ev_name e = EnvGoMemLimit) \<noteq> None then Inr None
              else Inr (Some \<lparr>ev_name = EnvGoMemLimit, ev_src = EnvValue (goItoa (goMemLimit (pd_memLimit p) percent))\<rparr>)))"

definition ConfigPath :: string where "ConfigPath = ''/etc/matrixone/config''"
definition ConfigFile :: string where "ConfigFile = ''config.toml''"
definition Entrypoint :: string where "Entrypoint = ''start.sh''"
definition ConfigVolume :: string where "ConfigVolume = ''config''"
definition DataVolume :: string where "DataVolume = ''mo-data''"
definition DataPath :: string where "DataPath = ''/var/lib/matrixone''"
definition DataDir :: string where "DataDir = ''data''"
definition S3CacheDir :: string where "S3CacheDir = ''disk-cache''"
definition PodNameEnvKey :: string where "PodNameEnvKey = ''POD_NAME''"
definition HeadlessSvcEnvKey :: string where "HeadlessSvcEnvKey = ''HEADLESS_SERVICE_NAME''"
definition NamespaceEnvKey :: string where "NamespaceEnvKey = ''NAMESPACE''"
definition PodIPEnvKey :: string where "PodIPEnvKey = ''POD_IP''"
definition ConfigSuffixEnvKey :: string where "ConfigSuffixEnvKey = ''CONFIG_SUFFIX''"
definition InPlaceUpdateReady :: string where "InPlaceUpdateReady = ''InPlaceUpdateReady''"
definition KruisePodReady :: string where "KruisePodReady = ''KruisePodReady''"

definition emptyCtr :: "string \<Rightarrow> ctr" where
  "emptyCtr n = \<lparr>kc_name = n, kc_image = [], kc_resources = [], kc_command = [], kc_args = [], kc_env = [], kc_envFrom = [],
     kc_mounts = [], kc_pullPolicy = None, kc_readiness = None, kc_liveness = None, kc_startup = None, kc_lifecycle = None,
     kc_security = None\<rparr>"

text \<open>The main container to start from: the one in the template, or an empty one.\<close>

definition mainRef :: "tools \<Rightarrow> pod_spec \<Rightarrow> ctr" where
  "mainRef U s = (case u_findContainer U (ps_containers s) (\<lambda>c. kc_name c = ContainerMain) of
     None \<Rightarrow> emptyCtr ContainerMain | Some c \<Rightarrow> c)"

text \<open>The fields every set writes to its main container.\<close>

definition setMain :: "pod_set \<Rightarrow> string \<Rightarrow> mount list \<Rightarrow> env_var list \<Rightarrow> ctr \<Rightarrow> ctr" where
  "setMain p configDir mounts env c = c\<lparr>kc_image := pd_image p, kc_resources := pd_resources p,
     kc_command := [''/bin/sh'', configDir @ ''/'' @ Entrypoint], kc_args := pd_serviceArgs p,
     kc_mounts := mounts, kc_env := env\<rparr>"

definition configSuffixEnv :: "tools \<Rightarrow> pod_set \<Rightarrow> env_var list" where
  "configSuffixEnv U p = (if inplaceConfig U p
     then [u_fieldRef U ConfigSuffixEnvKey (''metadata.annotations['' @ [CHR 0x27] @ ConfigSuffixAnno @ [CHR 0x27] @ '']'')] else [])"

definition optList :: "'a option \<Rightarrow> 'a list" where
  "optList x = (case x of None \<Rightarrow> [] | Some y \<Rightarrow> [y])"

text \<open>The common end of the three \<^verbatim>\<open>syncPodSpec\<close>: the main container with its overlay, the storage provider, the
  topology, the overlay of the pod and the memory file system.\<close>

definition finishPodSpec :: "tools \<Rightarrow> pod_set \<Rightarrow> gomap \<Rightarrow> shared_storage \<Rightarrow> ctr \<Rightarrow> pod_spec \<Rightarrow> pod_spec" where
  "finishPodSpec U p sel sp c s =
     SetupMemoryFsVolume U (pd_memoryFs p)
       (OverlayPodSpec U (pd_overlay p)
         (SyncTopology (pd_topology p) sel
           (SetStorageProviderConfig U sp
             (s\<lparr>ps_containers := [OverlayMainContainer U (pd_overlay p) c], ps_nodeSelector := pd_nodeSelector p\<rparr>))))"

definition configMount :: mount where
  "configMount = \<lparr>mt_name = ConfigVolume, mt_path = ConfigPath, mt_readOnly = True\<rparr>"

definition dataMount :: mount where
  "dataMount = \<lparr>mt_name = DataVolume, mt_path = DataPath, mt_readOnly = False\<rparr>"

section \<open>CN sets\<close>

definition cnResourceName :: "string \<Rightarrow> string" where
  "cnResourceName n = n @ ''-cn''"

definition cnHeadlessSvcName :: "string \<Rightarrow> string" where
  "cnHeadlessSvcName n = cnResourceName n @ ''-headless''"

definition ContainerPythonUdf :: string where "ContainerPythonUdf = ''python-udf''"
definition ContainerPythonUdfDefaultPort :: int where "ContainerPythonUdfDefaultPort = 50051"
definition ContainerPythonUdfDefaultImage :: string where
  "ContainerPythonUdfDefaultImage = ''composer000/mo-python-udf-server:latest''"

definition udfPort :: "udf_sidecar \<Rightarrow> int" where
  "udfPort sc = (if us_port sc \<noteq> 0 then us_port sc else ContainerPythonUdfDefaultPort)"

definition udfCtr :: "tools \<Rightarrow> udf_sidecar \<Rightarrow> ctr \<Rightarrow> ctr" where
  "udfCtr U sc c =
     (let c1 = c\<lparr>kc_image := orStr (us_image sc) ContainerPythonUdfDefaultImage, kc_resources := us_resources sc,
                 kc_command := [''/bin/bash'', ''-c'', ''python -u server.py --address=localhost:'' @ goItoa (udfPort sc)]\<rparr>
      in case us_overlay sc of None \<Rightarrow> c1 | Some mo \<Rightarrow> overlayMain U mo c1)"

text \<open>A container found is changed in place and then appended as well.\<close>

fun mutateFirst :: "('a \<Rightarrow> bool) \<Rightarrow> 'a \<Rightarrow> 'a list \<Rightarrow> 'a list" where
  "mutateFirst P x [] = []"
| "mutateFirst P x (y # ys) = (if P y then x # ys else y # mutateFirst P x ys)"

definition addUdfSidecar :: "tools \<Rightarrow> udf_sidecar \<Rightarrow> pod_spec \<Rightarrow> pod_spec" where
  "addUdfSidecar U sc s =
     (if us_enabled sc then
        let isUdf = (\<lambda>c. kc_name c = ContainerPythonUdf) in
        (case u_findContainer U (ps_containers s) isUdf of
           None \<Rightarrow> s\<lparr>ps_containers := ps_containers s @ [udfCtr U sc (emptyCtr ContainerPythonUdf)]\<rparr>
         | Some c \<Rightarrow> let c' = udfCtr U sc c in s\<lparr>ps_containers := mutateFirst isUdf c' (ps_containers s) @ [c']\<rparr>)
      else s)"

text \<open>The data volume is mounted when the set has a cache volume.\<close>

definition cacheMounts :: "vol_claim option \<Rightarrow> mount list" where
  "cacheMounts vc = configMount # (if vc \<noteq> None then [dataMount] else [])"

definition cnEnv :: "tools \<Rightarrow> string \<Rightarrow> pod_set \<Rightarrow> env_var option \<Rightarrow> env_var list" where
  "cnEnv U name p memVar =
     [u_fieldRef U PodNameEnvKey ''metadata.name'', u_fieldRef U NamespaceEnvKey ''metadata.namespace'',
      \<lparr>ev_name = HeadlessSvcEnvKey, ev_src = EnvValue (cnHeadlessSvcName name)\<rparr>, u_fieldRef U PodIPEnvKey ''status.podIP'']
     @ configSuffixEnv U p @ optList memVar"

definition cnGates :: "pod_spec \<Rightarrow> pod_spec" where
  "cnGates s = AddReadinessGate InPlaceUpdateReady (AddReadinessGate KruisePodReady (AddReadinessGate CNStoreReadiness s))"

definition syncPodSpecCN :: "tools \<Rightarrow> string \<Rightarrow> cn_spec \<Rightarrow> gomap \<Rightarrow> shared_storage \<Rightarrow> pod_spec \<Rightarrow> err + pod_spec" where
  "syncPodSpecCN U name cn sel sp s =
     (case GoMemLimitEnv U (cns_pod cn) of
        Inl e \<Rightarrow> Inl e
      | Inr memVar \<Rightarrow>
          Inr (addUdfSidecar U (cns_sidecar cn)
                (finishPodSpec U (cns_pod cn) sel sp
                  (setMain (cns_pod cn) ConfigPath (cacheMounts (cns_cacheVolume cn)) (cnEnv U name (cns_pod cn) memVar) (mainRef U s))
                  (cnGates s))))"

definition syncPodMetaCN :: "tools \<Rightarrow> cn_spec \<Rightarrow> pod_tpl \<Rightarrow> err + pod_tpl" where
  "syncPodMetaCN U cn t =
     (case u_marshalLabels U (cns_labels cn) of
        Inl e \<Rightarrow> Inl e
      | Inr str \<Rightarrow>
          let f = (the (gmake (pm_annos t)))(CNLabelAnnotation \<mapsto> str);
              f' = (case cns_podManagement cn of None \<Rightarrow> f | Some v \<Rightarrow> f(PodManagementPolicyAnno \<mapsto> v))
          in Inr (OverlayPodMeta (pd_overlay (cns_pod cn)) (SyncPodMeta U (cns_pod cn) (t\<lparr>pm_annos := Some f'\<rparr>))))"

section \<open>DN sets and log sets\<close>

definition dnResourceName :: "string \<Rightarrow> string" where
  "dnResourceName n = n @ ''-dn''"

definition dnHeadlessSvcName :: "string \<Rightarrow> string" where
  "dnHeadlessSvcName n = dnResourceName n @ ''-headless''"

definition dnEnv :: "tools \<Rightarrow> string \<Rightarrow> pod_set \<Rightarrow> env_var option \<Rightarrow> env_var list" where
  "dnEnv U name p memVar =
     [u_fieldRef U PodNameEnvKey ''metadata.name'', u_fieldRef U NamespaceEnvKey ''metadata.namespace'',
      \<lparr>ev_name = HeadlessSvcEnvKey, ev_src = EnvValue (dnHeadlessSvcName name)\<rparr>]
     @ configSuffixEnv U p @ optList memVar
     @ (if orElse (pd_dnsIdentity p) False then [\<lparr>ev_name = ''HOSTNAME_UUID'', ev_src = EnvValue ''y''\<rparr>] else [])"

definition syncPodSpecDN :: "tools \<Rightarrow> string \<Rightarrow> dn_spec \<Rightarrow> gomap \<Rightarrow> shared_storage \<Rightarrow> pod_spec \<Rightarrow> err + pod_spec" where
  "syncPodSpecDN U name dn sel sp s =
     (case GoMemLimitEnv U (dns_pod dn) of
        Inl e \<Rightarrow> Inl e
      | Inr memVar \<Rightarrow>
          Inr (finishPodSpec U (dns_pod dn) sel sp
                (setMain (dns_pod dn) ConfigPath (cacheMounts (dns_cacheVolume dn)) (dnEnv U name (dns_pod dn) memVar) (mainRef U s))
                (s\<lparr>ps_gates := [InPlaceUpdateReady]\<rparr>)))"

definition syncPodMetaSet :: "tools \<Rightarrow> pod_set \<Rightarrow> pod_tpl \<Rightarrow> pod_tpl" where
  "syncPodMetaSet U p t = OverlayPodMeta (pd_overlay p) (SyncPodMeta U p t)"

definition logConfigPath :: string where "logConfigPath = ''/etc/logservice''"

definition logMounts :: "mount list" where
  "logMounts = [dataMount, \<lparr>mt_name = ''bootstrap'', mt_path = ''/etc/bootstrap'', mt_readOnly = True\<rparr>,
     \<lparr>mt_name = ConfigVolume, mt_path = logConfigPath, mt_readOnly = True\<rparr>,
     \<lparr>mt_name = ''gossip'', mt_path = ''/etc/gossip'', mt_readOnly = True\<rparr>]"

definition logEnv :: "tools \<Rightarrow> logset \<Rightarrow> pod_set \<Rightarrow> env_var option \<Rightarrow> env_var list" where
  "logEnv U ls p memVar =
     [u_fieldRef U PodNameEnvKey ''metadata.name'', u_fieldRef U NamespaceEnvKey ''metadata.namespace'',
      u_fieldRef U PodIPEnvKey ''status.podIP'', \<lparr>ev_name = HeadlessSvcEnvKey, ev_src = EnvValue (headlessSvcName ls)\<rparr>]
     @ configSuffixEnv U p @ optList memVar"

definition logVolumes :: "tools \<Rightarrow> logset \<Rightarrow> volume list" where
  "logVolumes U ls = [\<lparr>vo_name = ''bootstrap'', vo_source = u_configMapVolume U (bootstrapConfigMapName ls)\<rparr>,
     \<lparr>vo_name = ''gossip'', vo_source = u_configMapVolume U (gossipConfigMapName ls)\<rparr>]"

definition syncPodSpecLog :: "tools \<Rightarrow> logset \<Rightarrow> pod_set \<Rightarrow> gomap \<Rightarrow> shared_storage \<Rightarrow> pod_spec \<Rightarrow> err + pod_spec" where
  "syncPodSpecLog U ls p sel sp s =
     (case GoMemLimitEnv U p of
        Inl e \<Rightarrow> Inl e
      | Inr memVar \<Rightarrow>
          Inr (finishPodSpec U p sel sp (setMain p logConfigPath logMounts (logEnv U ls p memVar) (mainRef U s))
                (s\<lparr>ps_volumes := logVolumes U ls, ps_gates := [InPlaceUpdateReady]\<rparr>)))"


section \<open>Proxy pods\<close>

text \<open>\<^verbatim>\<open>syncMainContainer\<close> and \<^verbatim>\<open>syncPodTemplate\<close> of \<^verbatim>\<open>common/podset.go\<close>, with the function \<open>mutateC\<close> of the task; no task sets
  \<^verbatim>\<open>MutatePod\<close>.

  The selector of the topology spread is the label map of the template itself, so that the labels \<^verbatim>\<open>OverlayPodMeta\<close> writes
  into it afterwards are in the selector too. For a nil map there is nothing to share: the overlay makes a new map for the
  template and the selector stays nil.\<close>

definition sharedLabels :: "gomap \<Rightarrow> gomap \<Rightarrow> gomap" where
  "sharedLabels before after = (case before of None \<Rightarrow> None | Some _ \<Rightarrow> after)"

definition syncMainContainer :: "tools \<Rightarrow> pod_set \<Rightarrow> (ctr \<Rightarrow> ctr) \<Rightarrow> env_var option \<Rightarrow> ctr \<Rightarrow> ctr" where
  "syncMainContainer U p mutateC memVar c =
     OverlayMainContainer U (pd_overlay p)
       (mutateC (setMain p ConfigPath [configMount]
          ([u_fieldRef U PodNameEnvKey ''metadata.name'', u_fieldRef U NamespaceEnvKey ''metadata.namespace'']
           @ configSuffixEnv U p @ optList memVar) c))"

definition syncPodTemplate ::
  "tools \<Rightarrow> pod_set \<Rightarrow> shared_storage option \<Rightarrow> string \<Rightarrow> (ctr \<Rightarrow> ctr) \<Rightarrow> pod_tpl \<Rightarrow> err + pod_tpl" where
  "syncPodTemplate U p sp configSuffix mutateC t =
     (case GoMemLimitEnv U p of
        Inl e \<Rightarrow> Inl e
      | Inr memVar \<Rightarrow>
          let s = pm_spec t;
              s1 = s\<lparr>ps_containers := [syncMainContainer U p mutateC memVar (mainRef U s)],
                     ps_gates := [InPlaceUpdateReady], ps_nodeSelector := pd_nodeSelector p\<rparr>;
              t1 = SyncPodMeta U p t;
              t2 = (if inplaceConfig U p then setAnno ConfigSuffixAnno configSuffix t1 else t1);
              t3 = OverlayPodMeta (pd_overlay p) t2;
              s2 = SyncTopology (pd_topology p) (sharedLabels (pm_labels t) (pm_labels t3)) s1;
              s3 = (case sp of None \<Rightarrow> s2 | Some x \<Rightarrow> SetStorageProviderConfig U x s2)
          in Inr (t3\<lparr>pm_spec := OverlayPodSpec U (pd_overlay p) s3\<rparr>))"

definition proxyProbe :: "ctr \<Rightarrow> ctr" where
  "proxyProbe c = c\<lparr>kc_readiness := Some ''tcp 6001, failureThreshold 2, periodSeconds 5''\<rparr>"

section \<open>Whole templates\<close>

text \<open>The end of \<^verbatim>\<open>SyncConfigMap\<close>: the config volume is pointed at the config map \<open>desired\<close>.\<close>

definition setConfigVolume :: "tools \<Rightarrow> string \<Rightarrow> pod_spec \<Rightarrow> err + pod_spec" where
  "setConfigVolume U desired s =
     (let isConfig = (\<lambda>v. vo_name v = ConfigVolume) in
      case u_findVolume U (ps_volumes s) isConfig of
        None \<Rightarrow> Inr (s\<lparr>ps_volumes := ps_volumes s @ [\<lparr>vo_name = ConfigVolume, vo_source = u_configMapVolume U desired\<rparr>]\<rparr>)
      | Some v \<Rightarrow> (case vo_source v of
          VolConfigMap _ \<Rightarrow> Inr (s\<lparr>ps_volumes := mutateFirst isConfig (v\<lparr>vo_source := VolConfigMap desired\<rparr>) (ps_volumes s)\<rparr>)
        | _ \<Rightarrow> Inl (Err Plain ''config volume must be sourced by a ConfigMap'')))"

definition overSpec :: "(pod_spec \<Rightarrow> err + pod_spec) \<Rightarrow> pod_tpl \<Rightarrow> err + pod_tpl" where
  "overSpec f t = (case f (pm_spec t) of Inl e \<Rightarrow> Inl e | Inr s \<Rightarrow> Inr (t\<lparr>pm_spec := s\<rparr>))"

definition thenE :: "err + 'a \<Rightarrow> ('a \<Rightarrow> err + 'b) \<Rightarrow> err + 'b" where
  "thenE x f = (case x of Inl e \<Rightarrow> Inl e | Inr y \<Rightarrow> f y)"

definition InPlacePoolRollingAnnoKey :: string where
  "InPlacePoolRollingAnnoKey = ''pool.matrixorigin.io/in-place-rolling''"

definition isPooling :: "cn_spec \<Rightarrow> bool" where
  "isPooling cn \<longleftrightarrow> cns_podManagement cn = Some PodManagementPolicyPooling"

text \<open>The template of CN pods before the configuration is known, and with it. A CN set without a resolved dependency
  (\<open>sp = None\<close>) keeps its pod specification.\<close>

definition preparePodsCN :: "tools \<Rightarrow> string \<Rightarrow> cn_spec \<Rightarrow> gomap \<Rightarrow> shared_storage option \<Rightarrow> pod_tpl \<Rightarrow> err + pod_tpl" where
  "preparePodsCN U name cn sel sp t =
     thenE (syncPodMetaCN U cn t) (\<lambda>t1.
     thenE (case sp of None \<Rightarrow> Inr t1 | Some x \<Rightarrow> overSpec (syncPodSpecCN U name cn sel x) t1) (\<lambda>t2.
     Inr (if isPooling cn \<and> GateEnabled GateInplacePoolRollingUpdate (opVersion U (cns_pod cn))
          then setAnno InPlacePoolRollingAnnoKey ''y'' t2 else t2)))"

definition configurePods :: "tools \<Rightarrow> pod_set \<Rightarrow> string \<Rightarrow> string \<Rightarrow> pod_tpl \<Rightarrow> err + pod_tpl" where
  "configurePods U p sfx desired t =
     overSpec (setConfigVolume U desired) (if inplaceConfig U p then setAnno ConfigSuffixAnno sfx t else t)"

definition renderCN :: "tools \<Rightarrow> string \<Rightarrow> cn_spec \<Rightarrow> gomap \<Rightarrow> shared_storage option \<Rightarrow> string \<Rightarrow> string \<Rightarrow> pod_tpl \<Rightarrow> err + pod_tpl" where
  "renderCN U name cn sel sp sfx desired t =
     thenE (preparePodsCN U name cn sel sp t) (configurePods U (cns_pod cn) sfx desired)"

text \<open>\<^verbatim>\<open>syncPods\<close> of the DN set: metadata, the suffix, the specification, the config volume.\<close>

definition renderDN :: "tools \<Rightarrow> string \<Rightarrow> dn_spec \<Rightarrow> gomap \<Rightarrow> shared_storage \<Rightarrow> string \<Rightarrow> string \<Rightarrow> pod_tpl \<Rightarrow> err + pod_tpl" where
  "renderDN U name dn sel sp sfx desired t =
     (let t1 = syncPodMetaSet U (dns_pod dn) t;
          t2 = (if inplaceConfig U (dns_pod dn) then setAnno ConfigSuffixAnno sfx t1 else t1)
      in thenE (overSpec (syncPodSpecDN U name dn sel sp) t2) (overSpec (setConfigVolume U desired)))"

text \<open>\<^verbatim>\<open>syncPods\<close> of the log set: the suffix is written for the latest operator version only, not for every version
  with the gate.\<close>

definition renderLog :: "tools \<Rightarrow> logset \<Rightarrow> pod_set \<Rightarrow> gomap \<Rightarrow> shared_storage \<Rightarrow> string \<Rightarrow> string \<Rightarrow> pod_tpl \<Rightarrow> err + pod_tpl" where
  "renderLog U ls p sel sp sfx desired t =
     (let t1 = syncPodMetaSet U p t;
          t2 = (if opVersion U p = LatestOpVersion then setAnno ConfigSuffixAnno sfx t1 else t1)
      in thenE (overSpec (syncPodSpecLog U ls p sel sp) t2) (overSpec (setConfigVolume U desired)))"

section \<open>Upserts\<close>

lemma upsertAll_Nil [simp]: "upsertAll key ys [] = ys"
  by (simp add: upsertAll_def)

lemma upsertAll_snoc: "upsertAll key ys (xs @ [x]) = upsertKey key (upsertAll key ys xs) x"
  by (simp add: upsertAll_def)

lemma upsertAll_append: "upsertAll key ys (xs @ zs) = upsertAll key (upsertAll key ys xs) zs"
  by (simp add: upsertAll_def)

lemma upsertAll_single [simp]: "upsertAll key ys [x] = upsertKey key ys x"
  by (simp add: upsertAll_def)

lemma upsertAll_Cons: "upsertAll key ys (x # xs) = upsertAll key (upsertKey key ys x) xs"
  by (simp add: upsertAll_def)

text \<open>The last element of \<open>xs\<close> with the key of \<open>y\<close>, or \<open>y\<close>.\<close>

definition lastWith :: "('a \<Rightarrow> string) \<Rightarrow> 'a list \<Rightarrow> 'a \<Rightarrow> 'a" where
  "lastWith key xs y = foldl (\<lambda>z x. if key x = key z then x else z) y xs"

lemma key_lastWith [simp]: "key (lastWith key xs y) = key y"
  by (induction xs rule: rev_induct) (simp_all add: lastWith_def)

lemma lastWith_snoc: "lastWith key (xs @ [x]) y = (if key x = key y then x else lastWith key xs y)"
  using key_lastWith[of key xs y] by (simp add: lastWith_def)

text \<open>An upsert of many elements, from the left: each element of the list is settled for good.\<close>

lemma upsertAll_step:
  "upsertAll key (y # ys) xs = lastWith key xs y # upsertAll key ys (filter (\<lambda>x. key x \<noteq> key y) xs)"
proof (induction xs rule: rev_induct)
  case Nil
  show ?case by (simp add: lastWith_def)
next
  case (snoc x xs)
  then show ?case by (simp add: upsertAll_snoc lastWith_snoc)
qed

lemma lastWith_again [simp]: "lastWith key xs (lastWith key xs y) = lastWith key xs y"
  by (induction xs rule: rev_induct) (simp_all add: lastWith_snoc, simp add: lastWith_def)

lemma upsertAll_idem: "upsertAll key (upsertAll key ys xs) xs = upsertAll key ys xs"
proof (induction "length ys + length xs" arbitrary: ys xs rule: less_induct)
  case less
  show ?case
  proof (cases ys)
    case (Cons y zs)
    have "length (filter (\<lambda>x. key x \<noteq> key y) xs) \<le> length xs" by simp
    with Cons less[of zs "filter (\<lambda>x. key x \<noteq> key y) xs"] show ?thesis by (simp add: upsertAll_step)
  next
    case Nil
    show ?thesis
    proof (cases xs)
      case (Cons x rest)
      have start: "upsertAll key [] xs = lastWith key xs x # upsertAll key [] (filter (\<lambda>z. key z \<noteq> key x) xs)"
        using Cons upsertAll_step[of key x "[]" rest]
        by (simp add: upsertAll_Cons lastWith_def)
      have "length (filter (\<lambda>z. key z \<noteq> key x) xs) < length xs"
        using Cons by (simp add: le_imp_less_Suc)
      with less[of "[]" "filter (\<lambda>z. key z \<noteq> key x) xs"] Nil show ?thesis
        by (simp add: start upsertAll_step)
    qed (use Nil in simp)
  qed
qed

text \<open>The element found for a key after an upsert of many.\<close>

lemma find_upsertKey:
  "find (\<lambda>y. key y = k) (upsertKey key ys x) = (if key x = k then Some x else find (\<lambda>y. key y = k) ys)"
  by (induction ys) auto

lemma find_upsertAll:
  "find (\<lambda>y. key y = k) (upsertAll key ys xs) =
     (case find (\<lambda>y. key y = k) (rev xs) of Some x \<Rightarrow> Some x | None \<Rightarrow> find (\<lambda>y. key y = k) ys)"
proof (induction xs rule: rev_induct)
  case (snoc x xs)
  then show ?case by (simp add: upsertAll_snoc find_upsertKey)
qed simp


section \<open>Rendering again\<close>

lemmas or_defs = orElse_def orSome_def orStr_def

lemma or_idem [simp]:
  "orElse x (orElse x y) = orElse x y" "orSome z (orSome z u) = orSome z u" "orStr v (orStr v w) = orStr v w"
  by (simp_all add: or_defs split: option.splits)

text \<open>The main container at the end of \<open>finishPodSpec\<close>, and what the other steps add to the volumes.\<close>

definition finalMain :: "tools \<Rightarrow> pod_set \<Rightarrow> shared_storage \<Rightarrow> ctr \<Rightarrow> ctr" where
  "finalMain U p sp c =
     (let c1 = OverlayMainContainer U (pd_overlay p) c;
          c2 = (case sh_s3 sp of None \<Rightarrow> c1 | Some s3p \<Rightarrow> storageCtr U s3p c1)
      in if pd_memoryFs p = None then c2 else memoryCtr U c2)"

definition addedVolumes :: "pod_set \<Rightarrow> shared_storage \<Rightarrow> volume list" where
  "addedVolumes p sp =
     (case Option.bind (sh_s3 sp) s3_certificateRef of
        None \<Rightarrow> [] | Some (name, _) \<Rightarrow> [\<lparr>vo_name = S3CertificateVolume, vo_source = VolSecret name\<rparr>])
     @ (case Option.bind (pd_overlay p) po_volumes of None \<Rightarrow> [] | Some vs \<Rightarrow> vs)
     @ (case pd_memoryFs p of None \<Rightarrow> [] | Some n \<Rightarrow> [\<lparr>vo_name = MemoryFsVolume, vo_source = VolEmptyMemory n\<rparr>])"

definition sidecars :: "tools \<Rightarrow> pod_set \<Rightarrow> ctr list" where
  "sidecars U p = (case Option.bind (pd_overlay p) po_sidecars of
     None \<Rightarrow> [] | Some cs \<Rightarrow> if pd_memoryFs p = None then cs else map (memoryCtr U) cs)"

lemma ctr_names [simp]:
  "kc_name (overlayMain U mc c) = kc_name c" "kc_name (OverlayMainContainer U ov c) = kc_name c"
  "kc_name (storageCtr U s3p c) = kc_name c" "kc_name (memoryCtr U c) = kc_name c"
  "kc_name (setMain p d ms es c) = kc_name c" "kc_name (finalMain U p sp c) = kc_name c"
  by (simp_all add: overlayMain_def OverlayMainContainer_def storageCtr_def memoryCtr_def setMain_def finalMain_def Let_def
      split: option.splits)

lemma finish_volumes:
  "toolLaws U \<Longrightarrow> ps_volumes (finishPodSpec U p sel sp c s) = upsertAll vo_name (ps_volumes s) (addedVolumes p sp)"
  by (auto simp: finishPodSpec_def SetupMemoryFsVolume_def OverlayPodSpec_def SyncTopology_def SetStorageProviderConfig_def
      addedVolumes_def toolLaws_def upsertAll_append split: option.splits)

lemma finish_containers:
  assumes "kc_name c = ContainerMain"
  shows "ps_containers (finishPodSpec U p sel sp c s) = finalMain U p sp c # sidecars U p"
  using assms
  by (cases "pd_overlay p"; cases "sh_s3 sp"; cases "pd_memoryFs p"; cases "po_sidecars (the (pd_overlay p))")
    (simp_all add: finishPodSpec_def SetupMemoryFsVolume_def OverlayPodSpec_def SyncTopology_def
      SetStorageProviderConfig_def sidecars_def finalMain_def findMainContainer_def)

text \<open>The fields of the final container: kept, or set by the overlay, or a function of the fields before.\<close>

definition mainOv :: "pod_set \<Rightarrow> (main_overlay \<Rightarrow> 'a option) \<Rightarrow> 'a option" where
  "mainOv p f = (case pd_overlay p of None \<Rightarrow> None | Some x \<Rightarrow> f (po_main x))"

lemma storage_fields [simp]:
  "kc_image (storageCtr U s c) = kc_image c" "kc_resources (storageCtr U s c) = kc_resources c"
  "kc_command (storageCtr U s c) = kc_command c" "kc_args (storageCtr U s c) = kc_args c"
  "kc_envFrom (storageCtr U s c) = kc_envFrom c" "kc_pullPolicy (storageCtr U s c) = kc_pullPolicy c"
  "kc_readiness (storageCtr U s c) = kc_readiness c" "kc_liveness (storageCtr U s c) = kc_liveness c"
  "kc_startup (storageCtr U s c) = kc_startup c" "kc_lifecycle (storageCtr U s c) = kc_lifecycle c"
  "kc_security (storageCtr U s c) = kc_security c"
  by (simp_all add: storageCtr_def Let_def split: option.splits)

lemma memory_fields [simp]:
  "kc_image (memoryCtr U c) = kc_image c" "kc_resources (memoryCtr U c) = kc_resources c"
  "kc_command (memoryCtr U c) = kc_command c" "kc_args (memoryCtr U c) = kc_args c"
  "kc_envFrom (memoryCtr U c) = kc_envFrom c" "kc_pullPolicy (memoryCtr U c) = kc_pullPolicy c"
  "kc_readiness (memoryCtr U c) = kc_readiness c" "kc_liveness (memoryCtr U c) = kc_liveness c"
  "kc_startup (memoryCtr U c) = kc_startup c" "kc_lifecycle (memoryCtr U c) = kc_lifecycle c"
  "kc_security (memoryCtr U c) = kc_security c"
  by (simp_all add: memoryCtr_def)

text \<open>Each step of the final container maps environment to environment and mounts to mounts.\<close>

lemma step_env:
  "kc_env c = kc_env c' \<Longrightarrow> kc_env (OverlayMainContainer U ov c) = kc_env (OverlayMainContainer U ov c')"
  "kc_env c = kc_env c' \<Longrightarrow> kc_env (storageCtr U s3p c) = kc_env (storageCtr U s3p c')"
  "kc_name c = kc_name c' \<Longrightarrow> kc_env c = kc_env c' \<Longrightarrow> kc_env (memoryCtr U c) = kc_env (memoryCtr U c')"
  by (simp_all add: OverlayMainContainer_def overlayMain_def storageCtr_def memoryCtr_def Let_def split: option.splits)

lemma step_mounts:
  "kc_mounts c = kc_mounts c' \<Longrightarrow> kc_mounts (OverlayMainContainer U ov c) = kc_mounts (OverlayMainContainer U ov c')"
  "kc_mounts c = kc_mounts c' \<Longrightarrow> kc_mounts (storageCtr U s3p c) = kc_mounts (storageCtr U s3p c')"
  "kc_name c = kc_name c' \<Longrightarrow> kc_mounts c = kc_mounts c' \<Longrightarrow> kc_mounts (memoryCtr U c) = kc_mounts (memoryCtr U c')"
  by (simp_all add: OverlayMainContainer_def overlayMain_def storageCtr_def memoryCtr_def Let_def split: option.splits)

lemma overlay_fields:
  "kc_image (OverlayMainContainer U (pd_overlay p) c) = kc_image c"
  "kc_resources (OverlayMainContainer U (pd_overlay p) c) = kc_resources c"
  "kc_startup (OverlayMainContainer U (pd_overlay p) c) = kc_startup c"
  "kc_command (OverlayMainContainer U (pd_overlay p) c) = orElse (mainOv p oc_command) (kc_command c)"
  "kc_args (OverlayMainContainer U (pd_overlay p) c) = orElse (mainOv p oc_args) (kc_args c)"
  "kc_envFrom (OverlayMainContainer U (pd_overlay p) c) = orElse (mainOv p oc_envFrom) (kc_envFrom c)"
  "kc_pullPolicy (OverlayMainContainer U (pd_overlay p) c) = orSome (mainOv p oc_pullPolicy) (kc_pullPolicy c)"
  "kc_readiness (OverlayMainContainer U (pd_overlay p) c) = orSome (mainOv p oc_readiness) (kc_readiness c)"
  "kc_liveness (OverlayMainContainer U (pd_overlay p) c) = orSome (mainOv p oc_liveness) (kc_liveness c)"
  "kc_lifecycle (OverlayMainContainer U (pd_overlay p) c) = orSome (mainOv p oc_lifecycle) (kc_lifecycle c)"
  "kc_security (OverlayMainContainer U (pd_overlay p) c) = orSome (mainOv p oc_security) (kc_security c)"
  by (cases "pd_overlay p"; simp add: OverlayMainContainer_def overlayMain_def mainOv_def orElse_def orSome_def)+

text \<open>A field that the storage and memory steps keep is the one after the overlay.\<close>

lemma finalMain_kept:
  assumes "\<And>s c. f (storageCtr U s c) = f c" and "\<And>c. f (memoryCtr U c) = f c"
  shows "f (finalMain U p sp c) = f (OverlayMainContainer U (pd_overlay p) c)"
  by (cases "sh_s3 sp") (simp_all add: finalMain_def Let_def assms)

lemmas finalMain_fields =
  finalMain_kept[of kc_image, OF storage_fields(1) memory_fields(1)] finalMain_kept[of kc_resources, OF storage_fields(2) memory_fields(2)]
  finalMain_kept[of kc_command, OF storage_fields(3) memory_fields(3)] finalMain_kept[of kc_args, OF storage_fields(4) memory_fields(4)]
  finalMain_kept[of kc_envFrom, OF storage_fields(5) memory_fields(5)] finalMain_kept[of kc_pullPolicy, OF storage_fields(6) memory_fields(6)]
  finalMain_kept[of kc_readiness, OF storage_fields(7) memory_fields(7)] finalMain_kept[of kc_liveness, OF storage_fields(8) memory_fields(8)]
  finalMain_kept[of kc_startup, OF storage_fields(9) memory_fields(9)] finalMain_kept[of kc_lifecycle, OF storage_fields(10) memory_fields(10)]
  finalMain_kept[of kc_security, OF storage_fields(11) memory_fields(11)]

lemma finalMain_env:
  assumes "kc_name c = kc_name c'" and "kc_env c = kc_env c'"
  shows "kc_env (finalMain U p sp c) = kc_env (finalMain U p sp c')"
  using assms by (cases "sh_s3 sp") (auto simp: finalMain_def Let_def intro!: step_env)

lemma finalMain_mounts:
  assumes "kc_name c = kc_name c'" and "kc_mounts c = kc_mounts c'"
  shows "kc_mounts (finalMain U p sp c) = kc_mounts (finalMain U p sp c')"
  using assms by (cases "sh_s3 sp") (auto simp: finalMain_def Let_def intro!: step_mounts)

lemma finalMain_again:
  "finalMain U p sp (setMain p d ms es (finalMain U p sp (setMain p d ms es c))) = finalMain U p sp (setMain p d ms es c)"
proof (rule ctr.equality)
  show "kc_env (finalMain U p sp (setMain p d ms es (finalMain U p sp (setMain p d ms es c)))) =
      kc_env (finalMain U p sp (setMain p d ms es c))"
    by (rule finalMain_env) (simp_all add: setMain_def)
  show "kc_mounts (finalMain U p sp (setMain p d ms es (finalMain U p sp (setMain p d ms es c)))) =
      kc_mounts (finalMain U p sp (setMain p d ms es c))"
    by (rule finalMain_mounts) (simp_all add: setMain_def)
qed (simp_all add: finalMain_fields overlay_fields, simp_all add: setMain_def finalMain_fields overlay_fields)

definition podOv :: "pod_set \<Rightarrow> (pod_overlay \<Rightarrow> 'a option) \<Rightarrow> 'a option" where
  "podOv p f = (case pd_overlay p of None \<Rightarrow> None | Some x \<Rightarrow> f x)"

definition podOvStr :: "pod_set \<Rightarrow> (pod_overlay \<Rightarrow> string) \<Rightarrow> string" where
  "podOvStr p f = (case pd_overlay p of None \<Rightarrow> [] | Some x \<Rightarrow> f x)"

lemma storage_spec [simp]:
  "ps_init (SetStorageProviderConfig U sp s) = ps_init s" "ps_gates (SetStorageProviderConfig U sp s) = ps_gates s"
  "ps_nodeSelector (SetStorageProviderConfig U sp s) = ps_nodeSelector s"
  "ps_topology (SetStorageProviderConfig U sp s) = ps_topology s" "ps_subdomain (SetStorageProviderConfig U sp s) = ps_subdomain s"
  "ps_affinity (SetStorageProviderConfig U sp s) = ps_affinity s"
  "ps_serviceAccount (SetStorageProviderConfig U sp s) = ps_serviceAccount s"
  "ps_security (SetStorageProviderConfig U sp s) = ps_security s" "ps_pullSecrets (SetStorageProviderConfig U sp s) = ps_pullSecrets s"
  "ps_tolerations (SetStorageProviderConfig U sp s) = ps_tolerations s"
  "ps_priorityClass (SetStorageProviderConfig U sp s) = ps_priorityClass s"
  "ps_grace (SetStorageProviderConfig U sp s) = ps_grace s" "ps_hostAliases (SetStorageProviderConfig U sp s) = ps_hostAliases s"
  "ps_runtimeClass (SetStorageProviderConfig U sp s) = ps_runtimeClass s"
  "ps_dnsConfig (SetStorageProviderConfig U sp s) = ps_dnsConfig s"
  "ps_shareProcess (SetStorageProviderConfig U sp s) = ps_shareProcess s"
  by (simp_all add: SetStorageProviderConfig_def split: option.splits)

lemma memoryFs_spec [simp]:
  "ps_init (SetupMemoryFsVolume U n s) = ps_init s" "ps_gates (SetupMemoryFsVolume U n s) = ps_gates s"
  "ps_nodeSelector (SetupMemoryFsVolume U n s) = ps_nodeSelector s"
  "ps_topology (SetupMemoryFsVolume U n s) = ps_topology s" "ps_subdomain (SetupMemoryFsVolume U n s) = ps_subdomain s"
  "ps_affinity (SetupMemoryFsVolume U n s) = ps_affinity s" "ps_serviceAccount (SetupMemoryFsVolume U n s) = ps_serviceAccount s"
  "ps_security (SetupMemoryFsVolume U n s) = ps_security s" "ps_pullSecrets (SetupMemoryFsVolume U n s) = ps_pullSecrets s"
  "ps_tolerations (SetupMemoryFsVolume U n s) = ps_tolerations s" "ps_priorityClass (SetupMemoryFsVolume U n s) = ps_priorityClass s"
  "ps_grace (SetupMemoryFsVolume U n s) = ps_grace s" "ps_hostAliases (SetupMemoryFsVolume U n s) = ps_hostAliases s"
  "ps_runtimeClass (SetupMemoryFsVolume U n s) = ps_runtimeClass s" "ps_dnsConfig (SetupMemoryFsVolume U n s) = ps_dnsConfig s"
  "ps_shareProcess (SetupMemoryFsVolume U n s) = ps_shareProcess s"
  by (simp_all add: SetupMemoryFsVolume_def split: option.splits)

lemma overlayPod_spec:
  "ps_init (OverlayPodSpec U (pd_overlay p) s) = orElse (podOv p po_init) (ps_init s)"
  "ps_gates (OverlayPodSpec U (pd_overlay p) s) = ps_gates s"
  "ps_nodeSelector (OverlayPodSpec U (pd_overlay p) s) = ps_nodeSelector s"
  "ps_topology (OverlayPodSpec U (pd_overlay p) s) = orElse (podOv p po_topology) (ps_topology s)"
  "ps_subdomain (OverlayPodSpec U (pd_overlay p) s) = ps_subdomain s"
  "ps_affinity (OverlayPodSpec U (pd_overlay p) s) = orSome (podOv p po_affinity) (ps_affinity s)"
  "ps_serviceAccount (OverlayPodSpec U (pd_overlay p) s) = orStr (podOvStr p po_serviceAccount) (ps_serviceAccount s)"
  "ps_security (OverlayPodSpec U (pd_overlay p) s) = orSome (podOv p po_security) (ps_security s)"
  "ps_pullSecrets (OverlayPodSpec U (pd_overlay p) s) = orElse (podOv p po_pullSecrets) (ps_pullSecrets s)"
  "ps_tolerations (OverlayPodSpec U (pd_overlay p) s) = orElse (podOv p po_tolerations) (ps_tolerations s)"
  "ps_priorityClass (OverlayPodSpec U (pd_overlay p) s) = orStr (podOvStr p po_priorityClass) (ps_priorityClass s)"
  "ps_grace (OverlayPodSpec U (pd_overlay p) s) = orSome (podOv p po_grace) (ps_grace s)"
  "ps_hostAliases (OverlayPodSpec U (pd_overlay p) s) = orElse (podOv p po_hostAliases) (ps_hostAliases s)"
  "ps_runtimeClass (OverlayPodSpec U (pd_overlay p) s) = orSome (podOv p po_runtimeClass) (ps_runtimeClass s)"
  "ps_dnsConfig (OverlayPodSpec U (pd_overlay p) s) = orSome (podOv p po_dnsConfig) (ps_dnsConfig s)"
  "ps_shareProcess (OverlayPodSpec U (pd_overlay p) s) = orSome (podOv p po_shareProcess) (ps_shareProcess s)"
  by (cases "pd_overlay p"; simp add: OverlayPodSpec_def podOv_def podOvStr_def or_defs)+

text \<open>What is rendered from a rendered specification, whose containers, volumes and gates may have been changed
  since.\<close>

lemma finish_again:
  assumes laws: "toolLaws U" and c: "kc_name c = ContainerMain"
    and s1: "s1 = finishPodSpec U p sel sp (setMain p d ms es c) s"
  shows "finishPodSpec U p sel sp (setMain p d ms es (finalMain U p sp (setMain p d ms es c)))
           (s1\<lparr>ps_containers := cs, ps_volumes := v, ps_gates := g\<rparr>) =
         s1\<lparr>ps_volumes := upsertAll vo_name v (addedVolumes p sp), ps_gates := g\<rparr>"
    (is "?again = ?s")
proof (rule pod_spec.equality)
  show "ps_volumes ?again = ps_volumes ?s" by (simp add: finish_volumes[OF laws])
  have "kc_name (setMain p d ms es (finalMain U p sp (setMain p d ms es c))) = ContainerMain" using c by simp
  from finish_containers[OF this] finish_containers[of "setMain p d ms es c"] c
  show "ps_containers ?again = ps_containers ?s" by (simp add: s1 finalMain_again)
qed (simp_all add: s1 finishPodSpec_def SyncTopology_def overlayPod_spec)

lemma toolLaws_find: "toolLaws U \<Longrightarrow> u_findContainer U cs P = find P cs"
  by (simp add: toolLaws_def)

lemma mainRef_name: "toolLaws U \<Longrightarrow> kc_name (mainRef U s) = ContainerMain"
  by (auto simp: mainRef_def toolLaws_find emptyCtr_def find_Some_iff split: option.splits)

lemma mainRef_Cons: "toolLaws U \<Longrightarrow> ps_containers s = c # cs \<Longrightarrow> kc_name c = ContainerMain \<Longrightarrow> mainRef U s = c"
  by (simp add: mainRef_def toolLaws_find)

lemma ContainerNames [simp]: "ContainerMain \<noteq> ContainerPythonUdf" "ContainerPythonUdf \<noteq> ContainerMain"
  by (simp_all add: ContainerMain_def ContainerPythonUdf_def)

text \<open>A transformer of maps that writes fixed values to fixed keys.\<close>

definition stamps :: "((string \<rightharpoonup> string) \<Rightarrow> (string \<rightharpoonup> string)) \<Rightarrow> bool" where
  "stamps T \<longleftrightarrow> (\<exists>D g. \<forall>f k. T f k = (if k \<in> D then g k else f k))"

lemma stamps_idem: "stamps T \<Longrightarrow> T (T f) = T f"
  by (auto simp: stamps_def)

lemma stamps_id: "stamps (\<lambda>f. f)"
  unfolding stamps_def by (intro exI[of _ "{}"]) simp

lemma stamps_upd:
  assumes "stamps T"
  shows "stamps (\<lambda>f. (T f)(k := v))"
proof -
  from assms obtain D g where "\<forall>f k. T f k = (if k \<in> D then g k else f k)" unfolding stamps_def by blast
  then have "\<forall>f j. ((T f)(k := v)) j = (if j \<in> insert k D then (g(k := v)) j else f j)" by simp
  then show ?thesis unfolding stamps_def by blast
qed

lemma stamps_add:
  assumes "stamps T"
  shows "stamps (\<lambda>f. T f ++ m)"
proof -
  from assms obtain D g where "\<forall>f k. T f k = (if k \<in> D then g k else f k)" unfolding stamps_def by blast
  then have "\<forall>f j. (T f ++ m) j = (if j \<in> dom m \<union> D then (g ++ m) j else f j)"
    by (auto simp: map_add_def split: option.splits)
  then show ?thesis unfolding stamps_def by blast
qed

lemma stamps_podAnnos:
  assumes "stamps T"
  shows "stamps (\<lambda>f. podAnnos U p (T f))"
  by (cases "PromDiscoveredByPod p"; cases "GetSemVer U p"; cases "u_verGT U (opVersion U p) FirstOpVersion")
    (simp_all add: podAnnos_def Let_def assms stamps_upd)

text \<open>The annotations each renderer leaves, and the labels.\<close>

definition annosOf :: "pod_tpl \<Rightarrow> string \<rightharpoonup> string" where
  "annosOf t = the (gmake (pm_annos t))"

lemma annosOf_Some [simp]: "pm_annos t = Some f \<Longrightarrow> annosOf t = f"
  by (simp add: annosOf_def gmake_def)

lemma overMap_idem: "overMap m (overMap m x) = overMap m x"
  by (cases m) (auto simp: overMap_def gmake_def map_add_def fun_eq_iff split: option.splits)

lemma SyncPodMeta_annos [simp]: "pm_annos (SyncPodMeta U p t) = Some (podAnnos U p (annosOf t))" "pm_labels (SyncPodMeta U p t) = pm_labels t"
  "pm_spec (SyncPodMeta U p t) = pm_spec t"
  by (simp_all add: SyncPodMeta_def annosOf_def)

lemma OverlayPodMeta_annos:
  "pm_annos t = Some f \<Longrightarrow> pm_annos (OverlayPodMeta (pd_overlay p) t) = Some (f ++ (case podOv p po_annos of None \<Rightarrow> Map.empty | Some m \<Rightarrow> m))"
  by (cases "pd_overlay p") (auto simp: OverlayPodMeta_def podOv_def overMap_def gmake_def split: option.splits)

lemma OverlayPodMeta_fields [simp]:
  "pm_spec (OverlayPodMeta ov t) = pm_spec t"
  "pm_labels (OverlayPodMeta (pd_overlay p) t) = overMap (podOv p po_labels) (pm_labels t)"
  by (auto simp: OverlayPodMeta_def podOv_def overMap_def split: option.splits)

lemma setAnno_fields [simp]:
  "pm_annos t = Some f \<Longrightarrow> pm_annos (setAnno k v t) = Some (f(k \<mapsto> v))"
  "pm_labels (setAnno k v t) = pm_labels t" "pm_spec (setAnno k v t) = pm_spec t"
  by (simp_all add: setAnno_def)

text \<open>\<open>metaStep M\<close>: a rendering step that leaves the specification alone, stamps the annotations and overlays the
  labels.\<close>

definition metaStep :: "(pod_tpl \<Rightarrow> pod_tpl) \<Rightarrow> bool" where
  "metaStep M \<longleftrightarrow> (\<exists>T l. stamps T \<and> (\<forall>t. M t = t\<lparr>pm_annos := Some (T (annosOf t)), pm_labels := overMap l (pm_labels t)\<rparr>))"

lemma metaStep_settles:
  assumes M: "metaStep M" and t: "pm_annos t = pm_annos (M u)" "pm_labels t = pm_labels (M u)"
  shows "M t = t"
proof -
  obtain T l where T: "stamps T" and M': "M v = v\<lparr>pm_annos := Some (T (annosOf v)), pm_labels := overMap l (pm_labels v)\<rparr>" for v
    using M unfolding metaStep_def by metis
  from t have "pm_annos t = Some (T (annosOf u))" "pm_labels t = overMap l (pm_labels u)" by (simp_all add: M')
  then show ?thesis by (intro pod_tpl.equality) (simp_all add: M' stamps_idem[OF T] overMap_idem)
qed

lemma metaStep_spec: "metaStep M \<Longrightarrow> pm_spec (M t) = pm_spec t \<and> M (t\<lparr>pm_spec := x\<rparr>) = (M t)\<lparr>pm_spec := x\<rparr>"
  by (auto simp: metaStep_def annosOf_def)

text \<open>The config volume at the end of a rendering, and at the end of the next one.\<close>

definition configVol :: "string \<Rightarrow> volume" where
  "configVol desired = \<lparr>vo_name = ConfigVolume, vo_source = VolConfigMap desired\<rparr>"

definition configOk :: "volume list \<Rightarrow> bool" where
  "configOk vs \<longleftrightarrow> (\<forall>v. find (\<lambda>v. vo_name v = ConfigVolume) vs = Some v \<longrightarrow> (\<exists>n. vo_source v = VolConfigMap n))"

lemma mutateFirst_upsert:
  "find (\<lambda>y. key y = key x) ys \<noteq> None \<Longrightarrow> mutateFirst (\<lambda>y. key y = key x) x ys = upsertKey key ys x"
  by (induction ys) auto

lemma append_upsert: "find (\<lambda>y. key y = key x) ys = None \<Longrightarrow> ys @ [x] = upsertKey key ys x"
  by (induction ys) (auto split: if_splits)

lemma setConfigVolume_iff:
  assumes laws: "toolLaws U"
  shows "setConfigVolume U desired s = Inr s' \<longleftrightarrow>
    configOk (ps_volumes s) \<and> s' = s\<lparr>ps_volumes := upsertKey vo_name (ps_volumes s) (configVol desired)\<rparr>"
proof (cases "find (\<lambda>v. vo_name v = ConfigVolume) (ps_volumes s)")
  case None
  then show ?thesis using laws append_upsert[of vo_name "configVol desired" "ps_volumes s"]
    by (auto simp: setConfigVolume_def toolLaws_def configOk_def configVol_def)
next
  case (Some v)
  then have "vo_name v = ConfigVolume" by (auto simp: find_Some_iff)
  then have v: "v\<lparr>vo_source := VolConfigMap desired\<rparr> = configVol desired" by (simp add: configVol_def)
  have "mutateFirst (\<lambda>v. vo_name v = ConfigVolume) (configVol desired) (ps_volumes s) =
      upsertKey vo_name (ps_volumes s) (configVol desired)"
    using mutateFirst_upsert[of vo_name "configVol desired" "ps_volumes s"] Some by (simp add: configVol_def)
  with Some v laws show ?thesis
    by (auto simp: setConfigVolume_def toolLaws_def configOk_def split: vol_source.splits)
qed

lemma volumes_settle:
  assumes ok: "configOk (upsertAll vo_name v added)"
    and v': "v' = upsertKey vo_name (upsertAll vo_name v added) (configVol desired)"
  shows "configOk (upsertAll vo_name v' added) \<and> upsertKey vo_name (upsertAll vo_name v' added) (configVol desired) = v'"
proof
  have all: "v' = upsertAll vo_name v (added @ [configVol desired])" by (simp add: v' upsertAll_append)
  show "upsertKey vo_name (upsertAll vo_name v' added) (configVol desired) = v'"
    using upsertAll_idem[of vo_name v "added @ [configVol desired]"] by (simp add: all upsertAll_snoc)
  have "find (\<lambda>y. vo_name y = ConfigVolume) v' = Some (configVol desired)"
    by (simp add: v' find_upsertKey) (simp add: configVol_def)
  then show "configOk (upsertAll vo_name v' added)"
    using ok by (auto simp: configOk_def find_upsertAll configVol_def split: option.splits)
qed

text \<open>A rendering of the specification of the pods, followed by its config volume, is settled.\<close>

definition settles :: "('a \<Rightarrow> err + 'a) \<Rightarrow> bool" where
  "settles f \<longleftrightarrow> (\<forall>x y. f x = Inr y \<longrightarrow> f y = Inr y)"

definition withConfig :: "tools \<Rightarrow> string \<Rightarrow> (pod_spec \<Rightarrow> err + pod_spec) \<Rightarrow> pod_spec \<Rightarrow> err + pod_spec" where
  "withConfig U desired f s = thenE (f s) (setConfigVolume U desired)"

lemma thenE_Inr_iff: "thenE x f = Inr z \<longleftrightarrow> (\<exists>y. x = Inr y \<and> f y = Inr z)"
  by (cases x) (simp_all add: thenE_def)

text \<open>It is enough that rendering with any volumes gives back the specification with the added volumes.\<close>

lemma withConfig_settles:
  assumes laws: "toolLaws U"
    and vols: "\<And>s s1. f s = Inr s1 \<Longrightarrow> ps_volumes s1 = upsertAll vo_name (base (ps_volumes s)) added"
    and base: "\<And>v v'. upsertAll vo_name (base v') added = upsertAll vo_name v' added \<or> base v' = base v"
    and again: "\<And>s s1 v. f s = Inr s1 \<Longrightarrow>
      f (s1\<lparr>ps_volumes := v\<rparr>) = Inr (s1\<lparr>ps_volumes := upsertAll vo_name (base v) added\<rparr>)"
  shows "settles (withConfig U desired f)"
  unfolding settles_def
proof (intro allI impI)
  fix s s2 assume "withConfig U desired f s = Inr s2"
  then obtain s1 where f: "f s = Inr s1" and set: "setConfigVolume U desired s1 = Inr s2"
    unfolding withConfig_def thenE_Inr_iff by blast
  let ?v2 = "ps_volumes s2"
  have ok: "configOk (ps_volumes s1)" and s2: "s2 = s1\<lparr>ps_volumes := upsertKey vo_name (ps_volumes s1) (configVol desired)\<rparr>"
    using set setConfigVolume_iff[OF laws] by simp_all
  have v1: "ps_volumes s1 = upsertAll vo_name (base (ps_volumes s)) added" using vols f by blast
  have "configOk (upsertAll vo_name (base ?v2) added) \<and>
      upsertKey vo_name (upsertAll vo_name (base ?v2) added) (configVol desired) = ?v2" (is ?settled)
    using base[of ?v2 "ps_volumes s"]
  proof (elim disjE)
    assume "upsertAll vo_name (base ?v2) added = upsertAll vo_name ?v2 added"
    moreover have "?v2 = upsertKey vo_name (upsertAll vo_name (base (ps_volumes s)) added) (configVol desired)" by (simp add: s2 v1)
    ultimately show ?settled using volumes_settle[of "base (ps_volumes s)" added] ok v1 by simp
  next
    assume "base ?v2 = base (ps_volumes s)"
    with ok v1 show ?settled by (simp add: s2)
  qed
  moreover have "f s2 = Inr (s1\<lparr>ps_volumes := upsertAll vo_name (base ?v2) added\<rparr>)"
    using again[OF f, of ?v2] by (simp add: s2)
  ultimately show "withConfig U desired f s2 = Inr s2"
    by (simp add: withConfig_def thenE_def setConfigVolume_iff[OF laws]) (simp add: s2)
qed

subsection \<open>The three sets\<close>

lemma rendered_main:
  assumes laws: "toolLaws U" and c: "kc_name c = ContainerMain"
    and cs: "ps_containers s2 = ps_containers (finishPodSpec U p sel sp (setMain p d ms es c) s)"
  shows "mainRef U s2 = finalMain U p sp (setMain p d ms es c)"
  using finish_containers[of "setMain p d ms es c"] c cs by (intro mainRef_Cons[OF laws]) auto

lemma spec_DN_settles:
  assumes laws: "toolLaws U"
  shows "settles (withConfig U desired (syncPodSpecDN U name dn sel sp))"
proof (rule withConfig_settles[OF laws, where base = "\<lambda>v. v" and added = "addedVolumes (dns_pod dn) sp"])
  fix s s1 v assume run: "syncPodSpecDN U name dn sel sp s = Inr s1"
  then show "ps_volumes s1 = upsertAll vo_name (ps_volumes s) (addedVolumes (dns_pod dn) sp)"
    by (auto simp: syncPodSpecDN_def Let_def finish_volumes[OF laws] split: sum.splits)
  from run obtain memVar where mem: "GoMemLimitEnv U (dns_pod dn) = Inr memVar"
    by (auto simp: syncPodSpecDN_def Let_def split: sum.splits)
  let ?ms = "cacheMounts (dns_cacheVolume dn)"
  let ?es = "dnEnv U name (dns_pod dn) memVar" and ?c = "mainRef U s"
  let ?s = "s\<lparr>ps_gates := [InPlaceUpdateReady]\<rparr>"
  have s1: "s1 = finishPodSpec U (dns_pod dn) sel sp (setMain (dns_pod dn) ConfigPath ?ms ?es ?c) ?s"
    using run mem by (simp add: syncPodSpecDN_def)
  have "mainRef U (s1\<lparr>ps_volumes := v\<rparr>) = finalMain U (dns_pod dn) sp (setMain (dns_pod dn) ConfigPath ?ms ?es ?c)"
    by (rule rendered_main[OF laws mainRef_name[OF laws]]) (simp add: s1)
  moreover have "s1\<lparr>ps_volumes := v, ps_gates := [InPlaceUpdateReady]\<rparr> =
      s1\<lparr>ps_containers := ps_containers s1, ps_volumes := v, ps_gates := [InPlaceUpdateReady]\<rparr>" by simp
  moreover have "ps_gates s1 = [InPlaceUpdateReady]" by (simp add: s1 finishPodSpec_def SyncTopology_def overlayPod_spec)
  ultimately show "syncPodSpecDN U name dn sel sp (s1\<lparr>ps_volumes := v\<rparr>) =
      Inr (s1\<lparr>ps_volumes := upsertAll vo_name v (addedVolumes (dns_pod dn) sp)\<rparr>)"
    using finish_again[OF laws mainRef_name[OF laws] s1, where cs = "ps_containers s1" and v = v and g = "[InPlaceUpdateReady]"] mem
    by (simp add: syncPodSpecDN_def)
qed simp

lemma spec_Log_settles:
  assumes laws: "toolLaws U"
  shows "settles (withConfig U desired (syncPodSpecLog U ls p sel sp))"
proof (rule withConfig_settles[OF laws, where base = "\<lambda>_. logVolumes U ls" and added = "addedVolumes p sp"])
  fix s s1 v assume run: "syncPodSpecLog U ls p sel sp s = Inr s1"
  then show "ps_volumes s1 = upsertAll vo_name (logVolumes U ls) (addedVolumes p sp)"
    by (auto simp: syncPodSpecLog_def finish_volumes[OF laws] split: sum.splits)
  from run obtain memVar where mem: "GoMemLimitEnv U p = Inr memVar"
    by (auto simp: syncPodSpecLog_def split: sum.splits)
  let ?es = "logEnv U ls p memVar" and ?c = "mainRef U s"
  let ?s = "s\<lparr>ps_volumes := logVolumes U ls, ps_gates := [InPlaceUpdateReady]\<rparr>"
  have s1: "s1 = finishPodSpec U p sel sp (setMain p logConfigPath logMounts ?es ?c) ?s"
    using run mem by (simp add: syncPodSpecLog_def)
  have "mainRef U (s1\<lparr>ps_volumes := v\<rparr>) = finalMain U p sp (setMain p logConfigPath logMounts ?es ?c)"
    by (rule rendered_main[OF laws mainRef_name[OF laws]]) (simp add: s1)
  moreover have "s1\<lparr>ps_volumes := logVolumes U ls, ps_gates := [InPlaceUpdateReady]\<rparr> =
      s1\<lparr>ps_containers := ps_containers s1, ps_volumes := logVolumes U ls, ps_gates := [InPlaceUpdateReady]\<rparr>" by simp
  moreover have "ps_gates s1 = [InPlaceUpdateReady]" by (simp add: s1 finishPodSpec_def SyncTopology_def overlayPod_spec)
  ultimately show "syncPodSpecLog U ls p sel sp (s1\<lparr>ps_volumes := v\<rparr>) =
      Inr (s1\<lparr>ps_volumes := upsertAll vo_name (logVolumes U ls) (addedVolumes p sp)\<rparr>)"
    using finish_again[OF laws mainRef_name[OF laws] s1, where cs = "ps_containers s1" and v = "logVolumes U ls" and g = "[InPlaceUpdateReady]"] mem
    by (simp add: syncPodSpecLog_def)
qed simp

text \<open>CN pods: the readiness gates are only added, and the sidecar follows the main container.\<close>

definition udfContainers :: "tools \<Rightarrow> udf_sidecar \<Rightarrow> ctr list \<Rightarrow> ctr list" where
  "udfContainers U sc cs = ps_containers (addUdfSidecar U sc
     \<lparr>ps_volumes = [], ps_containers = cs, ps_init = [], ps_gates = [], ps_nodeSelector = None, ps_topology = [], ps_subdomain = [],
      ps_affinity = None, ps_serviceAccount = [], ps_security = None, ps_pullSecrets = [], ps_tolerations = [], ps_priorityClass = [],
      ps_grace = None, ps_hostAliases = [], ps_runtimeClass = None, ps_dnsConfig = None, ps_shareProcess = None\<rparr>)"

lemma addUdfSidecar_eq: "addUdfSidecar U sc s = s\<lparr>ps_containers := udfContainers U sc (ps_containers s)\<rparr>"
  by (simp add: addUdfSidecar_def udfContainers_def Let_def split: option.splits)

lemma udfContainers_main:
  "kc_name c = ContainerMain \<Longrightarrow> \<exists>cs'. udfContainers U sc (c # cs) = c # cs'"
  by (auto simp: udfContainers_def addUdfSidecar_def Let_def split: option.splits)

lemma cnGates_settled:
  "{InPlaceUpdateReady, KruisePodReady, CNStoreReadiness} \<subseteq> set (ps_gates (cnGates s))"
  "{InPlaceUpdateReady, KruisePodReady, CNStoreReadiness} \<subseteq> set (ps_gates s) \<Longrightarrow> cnGates s = s"
  by (auto simp: cnGates_def AddReadinessGate_def)

lemma spec_CN_settles:
  assumes laws: "toolLaws U"
  shows "settles (withConfig U desired (syncPodSpecCN U name cn sel sp))"
proof (rule withConfig_settles[OF laws, where base = "\<lambda>v. v" and added = "addedVolumes (cns_pod cn) sp"])
  fix s s1 v assume run: "syncPodSpecCN U name cn sel sp s = Inr s1"
  have gates: "ps_volumes (cnGates s) = ps_volumes s" by (simp add: cnGates_def AddReadinessGate_def)
  with run show "ps_volumes s1 = upsertAll vo_name (ps_volumes s) (addedVolumes (cns_pod cn) sp)"
    by (auto simp: syncPodSpecCN_def Let_def finish_volumes[OF laws] addUdfSidecar_eq split: sum.splits)
  from run obtain memVar where mem: "GoMemLimitEnv U (cns_pod cn) = Inr memVar"
    by (auto simp: syncPodSpecCN_def Let_def split: sum.splits)
  let ?p = "cns_pod cn" and ?ms = "cacheMounts (cns_cacheVolume cn)"
  let ?es = "cnEnv U name (cns_pod cn) memVar" and ?c = "mainRef U s"
  let ?x = "finishPodSpec U ?p sel sp (setMain ?p ConfigPath ?ms ?es ?c) (cnGates s)"
  note c = mainRef_name[OF laws, of s]
  have s1: "s1 = ?x\<lparr>ps_containers := udfContainers U (cns_sidecar cn) (ps_containers ?x)\<rparr>"
    using run mem by (simp add: syncPodSpecCN_def addUdfSidecar_eq)
  have head: "ps_containers ?x = finalMain U ?p sp (setMain ?p ConfigPath ?ms ?es ?c) # sidecars U ?p"
    using finish_containers[of "setMain ?p ConfigPath ?ms ?es ?c"] c by simp
  obtain cs' where cs': "ps_containers s1 = finalMain U ?p sp (setMain ?p ConfigPath ?ms ?es ?c) # cs'"
    using udfContainers_main c by (fastforce simp: s1 head)
  have main: "mainRef U (s1\<lparr>ps_volumes := v\<rparr>) = finalMain U ?p sp (setMain ?p ConfigPath ?ms ?es ?c)"
    using cs' c by (intro mainRef_Cons[OF laws]) auto
  have "ps_gates s1 = ps_gates (cnGates s)" by (simp add: s1 finishPodSpec_def SyncTopology_def overlayPod_spec)
  then have "cnGates (s1\<lparr>ps_volumes := v\<rparr>) = s1\<lparr>ps_volumes := v\<rparr>" by (intro cnGates_settled(2)) (use cnGates_settled(1)[of s] in simp)
  moreover have "s1\<lparr>ps_volumes := v\<rparr> = ?x\<lparr>ps_containers := ps_containers s1, ps_volumes := v, ps_gates := ps_gates ?x\<rparr>"
    by (simp add: s1)
  ultimately show "syncPodSpecCN U name cn sel sp (s1\<lparr>ps_volumes := v\<rparr>) =
      Inr (s1\<lparr>ps_volumes := upsertAll vo_name v (addedVolumes ?p sp)\<rparr>)"
    using finish_again[OF laws c refl, where p = ?p and sel = sel and sp = sp and d = ConfigPath and ms = ?ms and es = ?es
        and s = "cnGates s" and cs = "ps_containers s1" and v = v and g = "ps_gates ?x"] mem main
    by (simp add: syncPodSpecCN_def addUdfSidecar_eq) (simp add: s1)
qed simp

subsection \<open>Templates settle\<close>

lemma metaStep_sync:
  assumes "stamps G"
  shows "metaStep (\<lambda>t. OverlayPodMeta (pd_overlay p) (SyncPodMeta U p (t\<lparr>pm_annos := Some (G (annosOf t))\<rparr>)))" (is "metaStep ?M")
proof -
  define A where "A f = podAnnos U p (G f) ++ (case podOv p po_annos of None \<Rightarrow> Map.empty | Some m \<Rightarrow> m)" for f
  have "?M t = t\<lparr>pm_annos := Some (A (annosOf t)), pm_labels := overMap (podOv p po_labels) (pm_labels t)\<rparr>" for t
    by (rule pod_tpl.equality) (simp_all add: A_def OverlayPodMeta_annos[OF SyncPodMeta_annos(1)])
  moreover have "stamps A" unfolding A_def by (intro stamps_add stamps_podAnnos assms)
  ultimately show ?thesis unfolding metaStep_def by blast
qed

lemma metaStep_syncSet: "metaStep (syncPodMetaSet U p)"
  using metaStep_sync[OF stamps_id, of p U] by (simp add: syncPodMetaSet_def[abs_def] SyncPodMeta_def annosOf_def gmake_def)

lemma metaStep_setAnno:
  assumes "metaStep M"
  shows "metaStep (\<lambda>t. setAnno k v (M t))"
proof -
  obtain T l where T: "stamps T" and M: "\<forall>t. M t = t\<lparr>pm_annos := Some (T (annosOf t)), pm_labels := overMap l (pm_labels t)\<rparr>"
    using assms unfolding metaStep_def by metis
  then have "\<forall>t. setAnno k v (M t) = t\<lparr>pm_annos := Some ((T (annosOf t))(k \<mapsto> v)), pm_labels := overMap l (pm_labels t)\<rparr>"
    by (simp add: setAnno_def)
  with stamps_upd[OF T, of k "Some v"] show ?thesis unfolding metaStep_def by blast
qed

lemma metaStep_if: "metaStep M \<Longrightarrow> metaStep N \<Longrightarrow> metaStep (\<lambda>t. if b then M t else N t)"
  by (cases b) simp_all

lemma template_settles:
  assumes M: "metaStep M" and g: "settles g"
    and R: "\<And>t. R t = thenE (g (pm_spec t)) (\<lambda>s. Inr ((M t)\<lparr>pm_spec := s\<rparr>))"
  shows "settles R"
  unfolding settles_def
proof (intro allI impI)
  fix t t' assume "R t = Inr t'"
  then obtain s where s: "g (pm_spec t) = Inr s" and t': "t' = (M t)\<lparr>pm_spec := s\<rparr>" by (auto simp: R thenE_Inr_iff)
  have "M t' = t'" by (rule metaStep_settles[OF M, of _ t]) (simp_all add: t')
  moreover have "g s = Inr s" using g s unfolding settles_def by blast
  ultimately show "R t' = Inr t'" by (simp add: R thenE_def) (simp add: t' thenE_def)
qed

lemma settles_error: "(\<And>x. \<exists>e. f x = Inl e) \<Longrightarrow> settles f"
  unfolding settles_def by (metis Inl_Inr_False)

lemma setConfig_settles: "toolLaws U \<Longrightarrow> settles (withConfig U desired Inr)"
  by (rule withConfig_settles[where base = "\<lambda>v. v" and added = "[]"]) simp_all

text \<open>The metadata step of a CN template whose labels serialise to \<open>str\<close>.\<close>

definition metaCN :: "tools \<Rightarrow> cn_spec \<Rightarrow> string \<Rightarrow> pod_tpl \<Rightarrow> pod_tpl" where
  "metaCN U cn str t =
     (let f = (annosOf t)(CNLabelAnnotation \<mapsto> str);
          f' = (case cns_podManagement cn of None \<Rightarrow> f | Some v \<Rightarrow> f(PodManagementPolicyAnno \<mapsto> v))
      in OverlayPodMeta (pd_overlay (cns_pod cn)) (SyncPodMeta U (cns_pod cn) (t\<lparr>pm_annos := Some f'\<rparr>)))"

definition fullMetaCN :: "tools \<Rightarrow> cn_spec \<Rightarrow> string \<Rightarrow> string \<Rightarrow> pod_tpl \<Rightarrow> pod_tpl" where
  "fullMetaCN U cn str sfx t =
     (let t1 = metaCN U cn str t;
          t2 = (if isPooling cn \<and> GateEnabled GateInplacePoolRollingUpdate (opVersion U (cns_pod cn))
                then setAnno InPlacePoolRollingAnnoKey ''y'' t1 else t1)
      in if inplaceConfig U (cns_pod cn) then setAnno ConfigSuffixAnno sfx t2 else t2)"

lemma metaStep_metaCN: "metaStep (metaCN U cn str)"
  using metaStep_sync[OF stamps_upd[OF stamps_id], of "cns_pod cn" U CNLabelAnnotation "Some str"]
    metaStep_sync[OF stamps_upd[OF stamps_upd[OF stamps_id]], of "cns_pod cn" U CNLabelAnnotation "Some str" PodManagementPolicyAnno]
  by (cases "cns_podManagement cn") (simp_all add: metaCN_def[abs_def] Let_def)

lemma metaStep_fullMetaCN: "metaStep (fullMetaCN U cn str sfx)"
proof -
  define N where "N t = (if isPooling cn \<and> GateEnabled GateInplacePoolRollingUpdate (opVersion U (cns_pod cn))
    then setAnno InPlacePoolRollingAnnoKey ''y'' (metaCN U cn str t) else metaCN U cn str t)" for t
  have "metaStep N" unfolding N_def by (intro metaStep_if metaStep_setAnno metaStep_metaCN)
  then have "metaStep (\<lambda>t. if inplaceConfig U (cns_pod cn) then setAnno ConfigSuffixAnno sfx (N t) else N t)"
    by (intro metaStep_if metaStep_setAnno)
  then show ?thesis unfolding fullMetaCN_def[abs_def] N_def Let_def .
qed

lemma setAnno_spec: "setAnno k v (t\<lparr>pm_spec := s\<rparr>) = (setAnno k v t)\<lparr>pm_spec := s\<rparr>"
  by (simp add: setAnno_def)

lemma metaCN_spec [simp]: "pm_spec (metaCN U cn str t) = pm_spec t"
  using metaStep_spec[OF metaStep_metaCN] by blast

definition specCN :: "tools \<Rightarrow> string \<Rightarrow> cn_spec \<Rightarrow> gomap \<Rightarrow> shared_storage option \<Rightarrow> pod_spec \<Rightarrow> err + pod_spec" where
  "specCN U name cn sel sp s = (case sp of None \<Rightarrow> Inr s | Some x \<Rightarrow> syncPodSpecCN U name cn sel x s)"

lemma renderCN_eq:
  assumes "u_marshalLabels U (cns_labels cn) = Inr str"
  shows "renderCN U name cn sel sp sfx desired t =
    thenE (withConfig U desired (specCN U name cn sel sp) (pm_spec t)) (\<lambda>s. Inr ((fullMetaCN U cn str sfx t)\<lparr>pm_spec := s\<rparr>))"
proof -
  have meta: "syncPodMetaCN U cn t = Inr (metaCN U cn str t)"
    using assms by (simp add: syncPodMetaCN_def metaCN_def annosOf_def Let_def)
  have spec: "(case sp of None \<Rightarrow> Inr u | Some x \<Rightarrow> overSpec (syncPodSpecCN U name cn sel x) u) =
      thenE (specCN U name cn sel sp (pm_spec u)) (\<lambda>s. Inr (u\<lparr>pm_spec := s\<rparr>))" for u
    by (simp add: specCN_def overSpec_def thenE_def split: option.splits sum.splits)
  show ?thesis
    by (cases "specCN U name cn sel sp (pm_spec t)")
      (auto simp: renderCN_def preparePodsCN_def meta spec configurePods_def withConfig_def overSpec_def fullMetaCN_def
        thenE_def Let_def setAnno_spec split: sum.splits)
qed

text \<open>Rendering is settled: what the operator renders over its own result is that result.\<close>

lemma renderings_settle:
  assumes laws: "toolLaws U"
  shows "settles (renderCN U name cn sel dep sfx desired) \<and>
    settles (renderDN U name dn sel sp sfx desired) \<and> settles (renderLog U ls p sel sp sfx desired)"
proof (intro conjI)
  show "settles (renderCN U name cn sel dep sfx desired)"
  proof (cases "u_marshalLabels U (cns_labels cn)")
    case (Inl e)
    then show ?thesis by (intro settles_error) (simp add: renderCN_def preparePodsCN_def syncPodMetaCN_def thenE_def)
  next
    case (Inr str)
    have "settles (withConfig U desired (specCN U name cn sel dep))"
      using setConfig_settles[OF laws] spec_CN_settles[OF laws] by (cases dep) (simp_all add: specCN_def[abs_def])
    then show ?thesis by (rule template_settles[OF metaStep_fullMetaCN _ renderCN_eq[OF Inr]])
  qed
  have late: "thenE (overSpec f t) (overSpec (setConfigVolume U desired)) =
      thenE (withConfig U desired f (pm_spec t)) (\<lambda>s. Inr (t\<lparr>pm_spec := s\<rparr>))" for f t
    by (auto simp: overSpec_def withConfig_def thenE_def split: sum.splits)
  have step: "metaStep (\<lambda>t. if b then setAnno ConfigSuffixAnno sfx (syncPodMetaSet U q t) else syncPodMetaSet U q t)" for b q
    by (intro metaStep_if metaStep_setAnno metaStep_syncSet)
  show "settles (renderDN U name dn sel sp sfx desired)"
    by (rule template_settles[OF step[of "inplaceConfig U (dns_pod dn)" "dns_pod dn"] spec_DN_settles[OF laws, of desired name dn sel sp]])
      (simp add: renderDN_def late syncPodMetaSet_def)
  show "settles (renderLog U ls p sel sp sfx desired)"
    by (rule template_settles[OF step[of "opVersion U p = LatestOpVersion" p] spec_Log_settles[OF laws, of desired ls p sel sp]])
      (simp add: renderLog_def late syncPodMetaSet_def)
qed

section \<open>The memory limit\<close>

lemma int64_small: "- (2 ^ 63) \<le> x \<Longrightarrow> x < 2 ^ 63 \<Longrightarrow> int64 x = x"
  by (simp add: int64_def)

lemma goMemLimit_exact:
  assumes "0 \<le> percent" and "0 \<le> limit" and "limit * percent < 2 ^ 63"
  shows "goMemLimit limit percent = limit * percent div 100"
proof -
  have "0 \<le> limit * percent" using assms by simp
  then have "int64 (limit * percent) = limit * percent" using assms(3) by (intro int64_small) linarith+
  then have "goMemLimit limit percent = sgn (limit * percent) * (limit * percent div 100)"
    using \<open>0 \<le> limit * percent\<close> by (simp only: goMemLimit_def divTrunc_def) simp
  then show ?thesis using \<open>0 \<le> limit * percent\<close> by (cases "limit * percent = 0") (simp_all only: sgn_if, simp_all)
qed

text \<open>\<^verbatim>\<open>GoMemLimitEnv\<close>: which \<^verbatim>\<open>GOMEMLIMIT\<close> the main container gets. None without a percentage or a limit, or when the
  overlay brings its own; otherwise the percentage of the memory limit, rounded down, which is within the limit for a
  percentage of at most 100. A percentage and a limit without an overlay are a nil dereference, the only failure.\<close>

theorem memory_limit_env:
  assumes laws: "toolLaws U" and range: "0 \<le> pd_memLimit p" "\<forall>n \<in> set_option (pd_memLimitPercent p). 0 \<le> n \<and> pd_memLimit p * n < 2 ^ 63"
  shows "case GoMemLimitEnv U p of
      Inl e \<Rightarrow> isPanic e \<and> pd_overlay p = None \<and> pd_memLimitPercent p \<noteq> None \<and> pd_memLimit p \<noteq> 0
    | Inr None \<Rightarrow> pd_memLimitPercent p = None \<or> pd_memLimit p = 0 \<or>
        (\<exists>x. pd_overlay p = Some x \<and> EnvGoMemLimit \<in> ev_name ` set (orElse (oc_env (po_main x)) []))
    | Inr (Some v) \<Rightarrow> \<exists>n. pd_memLimitPercent p = Some n \<and> ev_name v = EnvGoMemLimit \<and>
        ev_src v = EnvValue (goItoa (pd_memLimit p * n div 100)) \<and> (n \<le> 100 \<longrightarrow> pd_memLimit p * n div 100 \<le> pd_memLimit p)"
proof (cases "pd_memLimitPercent p")
  case None
  then show ?thesis by (simp add: GoMemLimitEnv_def)
next
  case (Some n)
  have exact: "goMemLimit (pd_memLimit p) n = pd_memLimit p * n div 100" using range Some by (intro goMemLimit_exact) simp_all
  have bound: "n \<le> 100 \<longrightarrow> pd_memLimit p * n div 100 \<le> pd_memLimit p"
  proof
    assume "n \<le> 100"
    then have "pd_memLimit p * n \<le> pd_memLimit p * 100" using range(1) by (intro mult_left_mono)
    then show "pd_memLimit p * n div 100 \<le> pd_memLimit p" using zdiv_mono1[of "pd_memLimit p * n" "pd_memLimit p * 100" 100] by simp
  qed
  show ?thesis
  proof (cases "pd_memLimit p = 0")
    case True
    with Some show ?thesis by (simp add: GoMemLimitEnv_def)
  next
    case False
    have "find (\<lambda>e. ev_name e = EnvGoMemLimit) es \<noteq> None \<Longrightarrow> EnvGoMemLimit \<in> ev_name ` set es" for es
      by (induction es) (auto split: if_splits)
    moreover have "u_findEnv U = (\<lambda>es P. find P es)" using laws by (intro ext) (simp add: toolLaws_def)
    ultimately show ?thesis using Some False exact bound
      by (cases "pd_overlay p") (auto simp: GoMemLimitEnv_def nilPanic_def isPanic_def)
  qed
qed

section \<open>Sample runs\<close>

definition sampleTools :: tools where
  "sampleTools = \<lparr>u_findContainer = (\<lambda>cs P. find P cs), u_findEnv = (\<lambda>cs P. find P cs), u_findVolume = (\<lambda>cs P. find P cs),
     u_upsertVolume = upsertKey vo_name, u_upsertVolumes = upsertAll vo_name, u_upsertEnv = upsertKey ev_name,
     u_upsertEnvs = upsertAll ev_name, u_upsertMount = upsertKey mt_name, u_upsertMounts = upsertAll mt_name,
     u_fieldRef = (\<lambda>n p. \<lparr>ev_name = n, ev_src = EnvFieldRef p\<rparr>), u_configMapVolume = VolConfigMap,
     u_parseTolerant = (\<lambda>v. if v = ''1.3.0'' then Some (mkVersion 1 3 0) else None), u_verString = (\<lambda>_. ''v''), u_verGT = (\<lambda>_ _. True),
     u_quantityStr = goItoa, u_marshalLabels = (\<lambda>_. Inr ''[]''), u_marshalData = (\<lambda>_. Inr ''{}''), u_xxhash = (\<lambda>v. if v = ''old'' then 2 ^ 60 else 2 ^ 61),
     u_script = (\<lambda>_ _ _ _. Inr ''script'')\<rparr>"

lemma sampleTools_laws: "toolLaws sampleTools"
  by (simp add: toolLaws_def sampleTools_def)

definition noMain :: main_overlay where
  "noMain = \<lparr>oc_command = None, oc_args = None, oc_envFrom = None, oc_env = None, oc_pullPolicy = None, oc_mounts = None,
     oc_liveness = None, oc_readiness = None, oc_startup = None, oc_lifecycle = None, oc_security = None\<rparr>"

definition noOverlay :: pod_overlay where
  "noOverlay = \<lparr>po_main = noMain, po_volumes = None, po_claims = [], po_init = None, po_sidecars = None, po_serviceAccount = [],
     po_security = None, po_pullSecrets = None, po_affinity = None, po_tolerations = None, po_priorityClass = [], po_grace = None,
     po_hostAliases = None, po_topology = None, po_runtimeClass = None, po_dnsConfig = None, po_labels = None, po_annos = None,
     po_shareProcess = None\<rparr>"

definition samplePodSet :: pod_set where
  "samplePodSet = \<lparr>pd_image = ''mo:2'', pd_resources = [], pd_memLimit = 1000, pd_memRequest = 0, pd_overlay = Some noOverlay, pd_replicas = 3,
     pd_topology = None, pd_nodeSelector = None, pd_config = None, pd_dnsIdentity = None, pd_clusterDomain = [], pd_serviceArgs = [],
     pd_memLimitPercent = Some 90, pd_exportProm = None, pd_promScheme = None, pd_semVersion = None, pd_opVersion = Some ''1.3.0'',
     pd_memoryFs = None\<rparr>"

definition drainCN :: cn_spec where
  "drainCN = \<lparr>cns_pod = samplePodSet, cns_cacheVolume = None, cns_cache = \<lparr>sk_memory = None, sk_disk = None\<rparr>,
     cns_sidecar = \<lparr>us_enabled = False, us_port = 0, us_image = [], us_resources = [], us_overlay = None\<rparr>,
     cns_serviceType = [], cns_serviceAnnos = None, cns_nodePort = None, cns_role = ''TP'', cns_labels = [],
     cns_scaling = \<lparr>sc_storeDrainEnabled = Some True, sc_storeDrainTimeout = None, sc_minDelaySeconds = None\<rparr>,
     cns_maxSurge = None, cns_maxUnavailable = None, cns_termination = Some CNSetTerminationPolicyDrain, cns_podManagement = None,
     cns_podsToDelete = [], cns_pauseUpdate = False, cns_reusePVC = None\<rparr>"

definition emptyPodSpec :: pod_spec where
  "emptyPodSpec = \<lparr>ps_volumes = [], ps_containers = [], ps_init = [], ps_gates = [], ps_nodeSelector = None, ps_topology = [],
     ps_subdomain = [], ps_affinity = None, ps_serviceAccount = [], ps_security = None, ps_pullSecrets = [], ps_tolerations = [],
     ps_priorityClass = [], ps_grace = None, ps_hostAliases = [], ps_runtimeClass = None, ps_dnsConfig = None, ps_shareProcess = None\<rparr>"

definition emptyTpl :: pod_tpl where
  "emptyTpl = \<lparr>pm_labels = None, pm_annos = None, pm_spec = emptyPodSpec\<rparr>"

definition localStorage :: shared_storage where
  "localStorage = \<lparr>sh_s3 = None, sh_fs = Some ''/data''\<rparr>"

lemma sample_render:
  assumes t: "pm_spec t = emptyPodSpec\<lparr>ps_subdomain := d\<rparr>"
  shows "\<exists>t'. renderCN sampleTools ''c'' drainCN sel (Some localStorage) sfx n t = Inr t'"
proof -
  have "\<exists>v. GoMemLimitEnv sampleTools samplePodSet = Inr v"
    by (simp add: GoMemLimitEnv_def samplePodSet_def noOverlay_def noMain_def sampleTools_def or_defs)
  then obtain s where s: "specCN sampleTools ''c'' drainCN sel (Some localStorage) (pm_spec t) = Inr s" and "ps_volumes s = []"
    by (fastforce simp: specCN_def syncPodSpecCN_def drainCN_def addUdfSidecar_eq finish_volumes[OF sampleTools_laws] cnGates_def
        AddReadinessGate_def addedVolumes_def localStorage_def samplePodSet_def noOverlay_def t emptyPodSpec_def)
  then have "\<exists>s'. setConfigVolume sampleTools n s = Inr s'"
    by (simp add: setConfigVolume_iff[OF sampleTools_laws] configOk_def)
  moreover have "u_marshalLabels sampleTools (cns_labels drainCN) = Inr ''[]''" by (simp add: sampleTools_def)
  ultimately show ?thesis using s by (auto simp: renderCN_eq withConfig_def thenE_def)
qed

theorem memory_limit_env_witness:
  "\<exists>v. GoMemLimitEnv sampleTools samplePodSet = Inr (Some v) \<and> ev_src v = EnvValue (goItoa 900)"
proof -
  have "\<exists>v. GoMemLimitEnv sampleTools samplePodSet = Inr (Some v)"
    by (simp add: GoMemLimitEnv_def samplePodSet_def noOverlay_def noMain_def sampleTools_def or_defs)
  then obtain v where v: "GoMemLimitEnv sampleTools samplePodSet = Inr (Some v)" by blast
  from memory_limit_env[OF sampleTools_laws, of samplePodSet] have "ev_src v = EnvValue (goItoa 900)"
    unfolding v by (simp add: samplePodSet_def)
  with v show ?thesis by blast
qed

end
