(* ===== verification/Config_Sync.thy ===== *)
theory Config_Sync
  imports Pod_Template
begin

text \<open>
  The configuration of the services and the volumes of their pods: \<^verbatim>\<open>common/configmap.go\<close>, \<^verbatim>\<open>common/fileservice.go\<close>,
  \<^verbatim>\<open>common/volume.go\<close> and the config maps of the CN and DN sets.

  The theorems: a config map keeps every configuration file that a listed pod still runs with; volumes only grow, and
  the set is updated after its claims; the configuration of a CN names the running log pods and overrides nothing else.
\<close>

section \<open>Config maps\<close>

text \<open>\<open>fmt.Sprintf("%x", sum)[0:7]\<close> panics when the hash has fewer than seven hexadecimal digits.\<close>

definition slicePanic :: err where
  "slicePanic = Err Panic ''slice bounds out of range''"

definition DataDigest :: "tools \<Rightarrow> string \<Rightarrow> err + string" where
  "DataDigest U v = (let h = hexStr (u_xxhash U v) in if length h < 7 then Inl slicePanic else Inr (take 7 h))"

definition withDigest :: "tools \<Rightarrow> string \<Rightarrow> string \<Rightarrow> err + bool" where
  "withDigest U key v = thenE (DataDigest U v) (\<lambda>d. Inr (strContains key d))"

definition configInUse :: "string \<Rightarrow> pod list \<Rightarrow> bool" where
  "configInUse key pods = list_ex (\<lambda>p. gstr (pod_annos p) ConfigSuffixAnno \<noteq> [] \<and>
     strContains key (gstr (pod_annos p) ConfigSuffixAnno)) pods"

text \<open>\<^verbatim>\<open>for key, v := range old.Data\<close>.\<close>

fun keepInUse :: "tools \<Rightarrow> pod list \<Rightarrow> (string \<times> string) list \<Rightarrow> (string \<times> string) list \<Rightarrow> err + (string \<times> string) list" where
  "keepInUse U pods [] data = Inr data"
| "keepInUse U pods ((key, v) # old) data =
     thenE (withDigest U key v) (\<lambda>b.
     keepInUse U pods old (if b \<and> configInUse key pods then AList.update key v data else data))"

definition ensureConfigMap :: "tools \<Rightarrow> 'w lenv \<Rightarrow> config_map \<Rightarrow> (('o, 'w) ctx, string) rm" where
  "ensureConfigMap U L c =
     bindR (attempt (callW (api_get (l_cms L) (cm_ns c, cm_name c)))) (\<lambda>r. case r of
       Inl e \<Rightarrow>
         if IsNotFound e then bindR (callW (api_create (l_cms L) c)) (\<lambda>_. ret (cm_name c)) else throw e
     | Inr old \<Rightarrow>
         bindR (callW (api_list (l_pods L) (cm_ns c) (MatchingLabels []))) (\<lambda>pods.
         bindR (liftE (keepInUse U pods (cm_data old) (cm_data c))) (\<lambda>data.
         bindR (callW (api_update (l_cms L) (c\<lparr>cm_data := data\<rparr>))) (\<lambda>_. ret (cm_name c)))))"

definition addConfigMapDigest :: "tools \<Rightarrow> config_map \<Rightarrow> err + config_map" where
  "addConfigMapDigest U cm =
     thenE (u_marshalData U (cm_data cm)) (\<lambda>s.
     thenE (DataDigest U s) (\<lambda>d. Inr (cm\<lparr>cm_name := cm_name cm @ ''-'' @ d\<rparr>)))"

definition ensureConfigMapLegacy :: "tools \<Rightarrow> 'w lenv \<Rightarrow> string \<Rightarrow> config_map \<Rightarrow> (('o, 'w) ctx, string) rm" where
  "ensureConfigMapLegacy U L currentCm desired =
     bindR (liftE (addConfigMapDigest U desired)) (\<lambda>c.
     if cm_name c = currentCm then ret currentCm
     else bindR (attempt (callW (api_create (l_cms L) c))) (\<lambda>r. case r of
       Inl e \<Rightarrow> if ekind e = AlreadyExists then ret (cm_name c) else throw e
     | Inr _ \<Rightarrow> ret (cm_name c)))"

text \<open>\<^verbatim>\<open>SyncConfigMap\<close>. The current name handed to the legacy routine is the name of the volume.\<close>

definition SyncConfigMap :: "tools \<Rightarrow> 'w lenv \<Rightarrow> pod_set \<Rightarrow> config_map \<Rightarrow> pod_spec \<Rightarrow> (('o, 'w) ctx, pod_spec) rm" where
  "SyncConfigMap U L p cm s =
     bindR (if inplaceConfig U p then ensureConfigMap U L cm
            else ensureConfigMapLegacy U L
              (case u_findVolume U (ps_volumes s) (\<lambda>v. vo_name v = ConfigVolume) of None \<Rightarrow> [] | Some v \<Rightarrow> vo_name v) cm) (\<lambda>desired.
     liftE (setConfigVolume U desired s))"

section \<open>File services\<close>

definition trimSlash :: "string \<Rightarrow> string" where
  "trimSlash s = rev (dropWhile (\<lambda>c. c = CHR ''/'') (rev (dropWhile (\<lambda>c. c = CHR ''/'') s)))"

text \<open>\<^verbatim>\<open>strings.SplitN(s, "/", 2)\<close>: the part before the first slash, and the part after it if there is one.\<close>

definition splitSlash :: "string \<Rightarrow> string \<times> string option" where
  "splitSlash s = (takeWhile (\<lambda>c. c \<noteq> CHR ''/'') s,
     if CHR ''/'' \<in> set s then Some (tl (dropWhile (\<lambda>c. c \<noteq> CHR ''/'') s)) else None)"

definition s3KeyPrefix :: "s3_provider \<Rightarrow> string \<Rightarrow> string" where
  "s3KeyPrefix s3 subDir = (case snd (splitSlash (trimSlash (s3_path s3))) of
     None \<Rightarrow> subDir | Some rest \<Rightarrow> trimSlash rest @ ''/'' @ subDir)"

definition s3Bucket :: "s3_provider \<Rightarrow> string" where
  "s3Bucket s3 = fst (splitSlash (trimSlash (s3_path s3)))"

definition GetProviderType :: "s3_provider \<Rightarrow> string" where
  "GetProviderType s3 = (case s3_type s3 of None \<Rightarrow> ''aws'' | Some t \<Rightarrow> t)"

definition s3Config :: "s3_provider \<Rightarrow> string \<Rightarrow> tmap" where
  "s3Config s3 subDir =
     [(''endpoint'', VStr (orStr (s3_endpoint s3) ''s3.us-west-2.amazonaws.com''))]
     @ (if s3_region s3 \<noteq> [] then [(''region'', VStr (s3_region s3))] else [])
     @ [(''bucket'', VStr (s3Bucket s3)), (''key-prefix'', VStr (s3KeyPrefix s3 subDir))]
     @ (case s3_certificateRef s3 of None \<Rightarrow> []
        | Some (_, files) \<Rightarrow> [(''cert-files'', VStrs (map (\<lambda>f. S3CertificatePath @ ''/'' @ f) files))])"

definition asSizeBytes :: "tools \<Rightarrow> int \<Rightarrow> string" where
  "asSizeBytes U q = u_quantityStr U q @ ''B''"

definition cacheConfig :: "tools \<Rightarrow> storage_cache option \<Rightarrow> tmap" where
  "cacheConfig U cache = (case cache of
      None \<Rightarrow> [(''memory-capacity'', VStr ''1B'')]
    | Some c \<Rightarrow>
        (case sk_memory c of None \<Rightarrow> [] | Some q \<Rightarrow> [(''memory-capacity'', VStr (asSizeBytes U q))])
        @ (case sk_disk c of None \<Rightarrow> []
           | Some q \<Rightarrow> [(''disk-capacity'', VStr (asSizeBytes U q)), (''disk-path'', VStr (DataPath @ ''/'' @ S3CacheDir))]))"

definition sharedFileServiceConfig :: "tools \<Rightarrow> shared_storage \<Rightarrow> storage_cache option \<Rightarrow> string \<Rightarrow> string \<Rightarrow> tmap" where
  "sharedFileServiceConfig U sp cache name subDir =
     (let m0 = [(''name'', VStr name)];
          m1 = (case sh_s3 sp of
                  None \<Rightarrow> m0
                | Some s3 \<Rightarrow> m0
                    @ (if GetProviderType s3 = ''minio'' then [(''backend'', VStr ''MINIO'')]
                       else if GetProviderType s3 = ''aws'' then [(''backend'', VStr ''S3'')] else [])
                    @ [(''s3'', VMap (s3Config s3 subDir))]);
          m2 = (case sh_fs sp of
                  None \<Rightarrow> m1
                | Some path \<Rightarrow> AList.update ''data-dir'' (VStr path)
                    (AList.update ''backend'' (VStr (if name = ''ETL'' then ''DISK-ETL'' else ''DISK'')) m1));
          cc = cacheConfig U cache
      in if cc \<noteq> [] then m2 @ [(''cache'', VMap cc)] else m2)"

definition FileServiceConfig :: "tools \<Rightarrow> string \<Rightarrow> shared_storage \<Rightarrow> storage_cache option \<Rightarrow> tmap" where
  "FileServiceConfig U localPath sp cache =
     [(''data-dir'', VStr localPath),
      (''fileservice'', VMaps
        [[(''name'', VStr ''LOCAL''), (''backend'', VStr ''DISK''), (''data-dir'', VStr localPath)],
         sharedFileServiceConfig U sp cache ''S3'' ''data'',
         sharedFileServiceConfig U sp None ''ETL'' ''etl''])]"

section \<open>The configuration of CN and DN sets\<close>

definition discoveryStr :: "string \<times> int \<Rightarrow> string" where
  "discoveryStr d = fst d @ '':'' @ goItoa (snd d)"

definition localDataPath :: string where
  "localDataPath = DataPath @ ''/'' @ DataDir"

definition orNewConfig :: "toml_config option \<Rightarrow> toml_config" where
  "orNewConfig c = (case c of None \<Rightarrow> NewTomlConfig (Some []) | Some x \<Rightarrow> x)"

text \<open>A sequence of \<^verbatim>\<open>cfg.Set(path, value)\<close>.\<close>

definition setAll :: "(string list \<times> tval) list \<Rightarrow> toml_config \<Rightarrow> toml_config" where
  "setAll kvs c = fold (\<lambda>(p, v) c. SetPath c p v) kvs c"

definition hakeeperAddr :: "tools \<Rightarrow> pod_set \<Rightarrow> log_dep \<Rightarrow> string \<times> int \<Rightarrow> int list \<Rightarrow> string list \<times> tval" where
  "hakeeperAddr U p ld disc reserved =
     (if discoveryFixed U p then ([''hakeeper-client'', ''discovery-address''], VStr (discoveryStr disc))
      else ([''hakeeper-client'', ''service-addresses''], VStrs (HaKeeperSvcAddrs (ld_logset ld) reserved)))"

definition promConfig :: "pod_set \<Rightarrow> (string list \<times> tval) list" where
  "promConfig p = (if GetExportToPrometheus p then [([''observability'', ''enableMetricToProm''], VOther ''true'')] else [])"

text \<open>The source sets these keys in the configuration of the object in memory. It builds the configuration once in a
  reconciliation and writes only the status back, so the model returns the new configuration and keeps the object as it was read.\<close>

definition cnSettings :: "tools \<Rightarrow> cn_spec \<Rightarrow> log_dep \<Rightarrow> string \<times> int \<Rightarrow> int list \<Rightarrow> (string list \<times> tval) list" where
  "cnSettings U cn ld disc reserved =
     [([''service-type''], VStr ''CN''), hakeeperAddr U (cns_pod cn) ld disc reserved,
      ([''cn'', ''role''], VStr (cns_role cn)),
      ([''cn'', ''lockservice'', ''listen-address''], VStr (''0.0.0.0:'' @ goItoa 6003)),
      ([''cn'', ''port-base''], VInt KInt 6002)]
     @ promConfig (cns_pod cn)
     @ (if us_enabled (cns_sidecar cn)
        then [([''cn'', ''python-udf-client'', ''server-address''], VStr (''localhost:'' @ goItoa (udfPort (cns_sidecar cn))))] else [])
     @ (if GetStoreDrainEnabled (cns_scaling cn) then [([''cn'', ''init-work-state''], VStr ''Draining'')] else [])"

definition cnConfig :: "tools \<Rightarrow> cn_spec \<Rightarrow> log_dep \<Rightarrow> string \<times> int \<Rightarrow> int list \<Rightarrow> toml_config" where
  "cnConfig U cn ld disc reserved =
     setAll (cnSettings U cn ld disc reserved)
       (MergeDeep (orNewConfig (pd_config (cns_pod cn))) (FileServiceConfig U localDataPath (ld_storage ld) (Some (cns_cache cn))))"

text \<open>The config map from the serialised configuration: the start script and the configuration under its digest, or under
  the plain name before the gate.\<close>

definition configData :: "tools \<Rightarrow> pod_set \<Rightarrow> string \<Rightarrow> string \<Rightarrow> string \<Rightarrow> string \<Rightarrow> err + config_map \<times> string" where
  "configData U p name ns script conf =
     (if inplaceConfig U p
      then thenE (DataDigest U conf) (\<lambda>d.
        Inr (\<lparr>cm_name = name, cm_ns = ns, cm_data = [(Entrypoint, script), (ConfigFile @ ''-'' @ d, conf)]\<rparr>, d))
      else Inr (\<lparr>cm_name = name, cm_ns = ns, cm_data = [(Entrypoint, script), (ConfigFile, conf)]\<rparr>, []))"

definition buildCNSetConfigMap ::
  "tools \<Rightarrow> codec \<Rightarrow> string \<Rightarrow> string \<Rightarrow> cn_spec \<Rightarrow> log_dep \<Rightarrow> int list \<Rightarrow> err + config_map \<times> string" where
  "buildCNSetConfigMap U T name ns cn ld reserved =
     (case ld_discovery ld of
        None \<Rightarrow> Inl (Err Plain ''logset had not yet exposed HAKeeper discovery address'')
      | Some disc \<Rightarrow>
          thenE (ToString T (Some (cnConfig U cn ld disc reserved))) (\<lambda>s.
          thenE (u_script U ''cn'' (inplaceConfig U (cns_pod cn)) (pd_memoryFs (cns_pod cn) \<noteq> None) []) (\<lambda>script.
          configData U (cns_pod cn) (cnResourceName name @ ''-config'') ns script s)))"

definition dnAlias :: "toml_config \<Rightarrow> string" where
  "dnAlias c = (if Get c [''tn''] \<noteq> None then ''tn'' else ''dn'')"

definition dnSettings :: "pod_set \<Rightarrow> string \<Rightarrow> (string list \<times> tval) list" where
  "dnSettings p alias =
     [([''service-type''], VStr ''DN''), ([alias, ''listen-address''], VStr (''0.0.0.0:'' @ goItoa 41010)),
      ([alias, ''lockservice'', ''listen-address''], VStr (''0.0.0.0:'' @ goItoa 6003)),
      ([alias, ''LogtailServer'', ''listen-address''], VStr (''0.0.0.0:'' @ goItoa 32003)),
      ([alias, ''port-base''], VInt KInt 41010)]
     @ promConfig p"

definition dnConfig :: "tools \<Rightarrow> dn_spec \<Rightarrow> log_dep \<Rightarrow> string \<times> int \<Rightarrow> int list \<Rightarrow> toml_config" where
  "dnConfig U dn ld disc reserved =
     (let c0 = orNewConfig (pd_config (dns_pod dn));
          c1 = setAll [hakeeperAddr U (dns_pod dn) ld disc reserved] c0;
          c2 = MergeDeep c1 (FileServiceConfig U localDataPath (ld_storage ld) (Some (dns_cache dn)))
      in setAll (dnSettings (dns_pod dn) (dnAlias c0)) c2)"

definition buildDNSetConfigMap ::
  "tools \<Rightarrow> codec \<Rightarrow> string \<Rightarrow> string \<Rightarrow> dn_spec \<Rightarrow> log_dep \<Rightarrow> int list \<Rightarrow> err + config_map \<times> string" where
  "buildDNSetConfigMap U T name ns dn ld reserved =
     (case ld_discovery ld of
        None \<Rightarrow> Inl (Err Plain ''HAKeeper discovery address not ready'')
      | Some disc \<Rightarrow>
          thenE (ToString T (Some (dnConfig U dn ld disc reserved))) (\<lambda>s.
          thenE (u_script U ''dn'' (inplaceConfig U (dns_pod dn)) (pd_memoryFs (dns_pod dn) \<noteq> None)
                  (dnAlias (orNewConfig (pd_config (dns_pod dn))))) (\<lambda>script.
          configData U (dns_pod dn) (dnResourceName name @ ''-config'') ns script s)))"

section \<open>Volumes\<close>

text \<open>The loop over the volume claim templates; the error names the sizes.\<close>

fun growTemplates :: "tools \<Rightarrow> int \<Rightarrow> pvc list \<Rightarrow> err + bool \<times> pvc list" where
  "growTemplates U size' [] = Inr (False, [])"
| "growTemplates U size' (c # cs) =
     (if pvc_name c = DataVolume then
        if pvc_size c < size' then
          thenE (growTemplates U size' cs) (\<lambda>(_, cs'). Inr (True, c\<lparr>pvc_size := size'\<rparr> # cs'))
        else if pvc_size c > size' then
          Inl (Err Plain (''volume size cannot be decreased from '' @ u_quantityStr U (pvc_size c) @ '' to '' @ u_quantityStr U size'))
        else thenE (growTemplates U size' cs) (\<lambda>(b, cs'). Inr (b, c # cs'))
      else thenE (growTemplates U size' cs) (\<lambda>(b, cs'). Inr (b, c # cs')))"

definition growClaim :: "'w senv \<Rightarrow> int \<Rightarrow> pvc \<Rightarrow> (('o, 'w) ctx, unit) rm" where
  "growClaim S size' c =
     (if pvc_size c < size'
      then bindR (wrapE ''patch volume size'' (callW (api_patch (s_pvcs S) c (c\<lparr>pvc_size := size'\<rparr>)))) (\<lambda>_. ret ())
      else ret ())"

definition CloneSetInstanceID :: string where
  "CloneSetInstanceID = ''apps.kruise.io/cloneset-instance-id''"

definition NamespaceLabelKey :: string where
  "NamespaceLabelKey = ''matrixorigin.io/namespace''"

definition SubResourceLabels :: "string \<Rightarrow> string \<Rightarrow> string \<Rightarrow> (string \<times> string) list" where
  "SubResourceLabels ns name kind = [(NamespaceLabelKey, ns), (InstanceLabelKey, name), (ComponentLabelKey, kind)]"

definition growPod :: "'w senv \<Rightarrow> string \<Rightarrow> int \<Rightarrow> pod \<Rightarrow> (('o, 'w) ctx, unit) rm" where
  "growPod S ns size' p =
     (let instance = podLabel p CloneSetInstanceID in
      if instance = [] then ret ()
      else bindR (wrapE ''list volumes'' (callW (api_list (s_pvcs S) ns (MatchingLabels [(CloneSetInstanceID, instance)])))) (\<lambda>cs.
        forR (growClaim S size') cs))"

definition SyncCloneSetVolumeSize ::
  "tools \<Rightarrow> 'w senv \<Rightarrow> string \<Rightarrow> string \<Rightarrow> string \<Rightarrow> int \<Rightarrow> clone_set \<Rightarrow> (('o, 'w) ctx, unit) rm" where
  "SyncCloneSetVolumeSize U S ns name kind size' cs =
     bindR (liftE (growTemplates U size' (ks_claims cs))) (\<lambda>(changed, claims).
     if \<not> changed then ret ()
     else bindR (wrapE ''list pods'' (callW (api_list (l_pods (s_l S)) ns (MatchingLabels (SubResourceLabels ns name kind))))) (\<lambda>pods.
       bindR (forR (growPod S ns size') pods) (\<lambda>_.
       bindR (wrapE ''sync volume size'' (callW (api_update (s_clonesets S) (cs\<lparr>ks_claims := claims\<rparr>)))) (\<lambda>_. ret ()))))"

definition SyncStsVolumeSize ::
  "tools \<Rightarrow> 'w senv \<Rightarrow> string \<Rightarrow> string \<Rightarrow> string \<Rightarrow> int \<Rightarrow> kruise_sts \<Rightarrow> (('o, 'w) ctx, unit) rm" where
  "SyncStsVolumeSize U S ns name kind size' sts =
     bindR (liftE (growTemplates U size' (kt_claims sts))) (\<lambda>(changed, claims).
     if \<not> changed then ret ()
     else bindR (wrapE ''list volumes'' (callW (api_list (s_pvcs S) ns (MatchingLabels (SubResourceLabels ns name kind))))) (\<lambda>pvcs.
       bindR (forR (growClaim S size') pvcs) (\<lambda>_.
       bindR (wrapE ''sync volume size'' (callW (api_update (s_stss S) (sts\<lparr>kt_claims := claims\<rparr>)))) (\<lambda>_. ret ()))))"

section \<open>A configuration in use is kept\<close>

text \<open>The digest is seven hexadecimal digits, which the name of the start script does not contain.\<close>

lemma hexStr_digits: "set (hexStr n) \<subseteq> set ''0123456789abcdef''"
proof (induction n rule: hexStr.induct)
  case (1 n)
  have "hexDigit n \<in> set ''0123456789abcdef''"
    unfolding hexDigit_def by (rule nth_mem) simp
  with 1 show ?case by (subst hexStr.simps) (cases "n < 16"; simp)
qed

lemma DataDigest_Inr: "DataDigest U v = Inr d \<Longrightarrow> length d = 7 \<and> set d \<subseteq> set ''0123456789abcdef''"
  using hexStr_digits[of "u_xxhash U v"] set_take_subset[of 7 "hexStr (u_xxhash U v)"]
  by (auto simp: DataDigest_def Let_def split: if_splits simp del: list.set)

lemma start_script_plain: "withDigest U Entrypoint v \<noteq> Inr True"
proof
  assume "withDigest U Entrypoint v = Inr True"
  then obtain d where d: "DataDigest U v = Inr d" "strContains Entrypoint d" by (auto simp: withDigest_def thenE_Inr_iff)
  then obtain a b where ab: "Entrypoint = a @ d @ b" by (auto simp: strContains_conv)
  have len: "length d = 7" and hex: "set d \<subseteq> set ''0123456789abcdef''" using DataDigest_Inr[OF d(1)] by simp_all
  have "length Entrypoint = length a + (length d + length b)" by (simp add: ab)
  then have short: "length a \<le> 1" using len by (simp add: Entrypoint_def)
  have "3 - length a < length d" using len by simp
  then have "Entrypoint ! 3 = d ! (3 - length a)" using short by (simp add: ab nth_append)
  then have "CHR ''r'' \<in> set d" using nth_mem[of "3 - length a" d] len by (simp add: Entrypoint_def)
  with hex show False by auto
qed

lemma keepInUse_map:
  "keepInUse U pods old data = Inr data' \<Longrightarrow> distinct (map fst old) \<Longrightarrow>
     map_of data' k = (case map_of old k of
       Some v \<Rightarrow> if withDigest U k v = Inr True \<and> configInUse k pods then Some v else map_of data k
     | None \<Rightarrow> map_of data k)"
proof (induction U pods old data rule: keepInUse.induct)
  case (2 U pods key v old data)
  from "2.prems" obtain b where b: "withDigest U key v = Inr b"
    and rest: "keepInUse U pods old (if b \<and> configInUse key pods then AList.update key v data else data) = Inr data'"
    by (auto simp: thenE_Inr_iff)
  have "map_of old key = None" using "2.prems"(2) by (simp add: map_of_eq_None_iff)
  with "2.IH"[of b, OF rest] "2.prems"(2) b show ?case by (auto simp: update_conv split: option.splits)
qed simp

text \<open>A config map read from the server is a map.\<close>

definition mapData :: "'w lenv \<Rightarrow> bool" where
  "mapData L \<longleftrightarrow> (\<forall>k w cm w'. api_get (l_cms L) k w = (Inr cm, w') \<longrightarrow> distinct (map fst (cm_data cm)))"

text \<open>The configuration file a pod reads, by its annotation.\<close>

definition podConfigFile :: "pod \<Rightarrow> string" where
  "podConfigFile p = ConfigFile @ ''-'' @ gstr (pod_annos p) ConfigSuffixAnno"

text \<open>\<open>c\<close> is a fair update of the config map \<open>old\<close> to the data \<open>script\<close>, \<open>conf\<close> for the listed \<open>pods\<close>: the script is the
  new one; the file of the new configuration has its digest; a pod that reads a file whose name is its digest finds it
  unchanged; whatever else was there is gone.\<close>

definition fairUpdate :: "tools \<Rightarrow> string \<Rightarrow> string \<Rightarrow> config_map \<Rightarrow> pod list \<Rightarrow> config_map \<Rightarrow> bool" where
  "fairUpdate U script sfx old pods c \<longleftrightarrow>
     map_of (cm_data c) Entrypoint = Some script \<and>
     (\<exists>v. map_of (cm_data c) (ConfigFile @ ''-'' @ sfx) = Some v \<and> DataDigest U v = Inr sfx) \<and>
     (\<forall>p \<in> set pods. \<forall>v. map_of (cm_data old) (podConfigFile p) = Some v \<longrightarrow> gstr (pod_annos p) ConfigSuffixAnno \<noteq> [] \<longrightarrow>
        DataDigest U v = Inr (gstr (pod_annos p) ConfigSuffixAnno) \<longrightarrow> map_of (cm_data c) (podConfigFile p) = Some v) \<and>
     (\<forall>k \<in> dom (map_of (cm_data c)). k \<in> {Entrypoint, ConfigFile @ ''-'' @ sfx} \<or> k \<in> dom (map_of (cm_data old)) \<and> configInUse k pods)"

lemma strContains_suffix: "strContains (a @ d) d"
  unfolding strContains_conv by (metis append_Nil2)

lemma names_neq: "Entrypoint \<noteq> ConfigFile @ x" "ConfigFile @ x \<noteq> Entrypoint"
  by (simp_all add: Entrypoint_def ConfigFile_def)

text \<open>A digest in the name of a configuration file is the one at its end: the rest of the name has other characters.\<close>

lemma window_char:
  assumes "key = a @ e @ b" and "length a \<le> i" and "i < length a + length e"
  shows "key ! i \<in> set e"
proof -
  have "i - length a < length e" using assms(2,3) by linarith
  with assms nth_mem[of "i - length a" e] show ?thesis by (simp add: nth_append)
qed

lemma digest_in_name:
  assumes e: "DataDigest U v = Inr e" "strContains (ConfigFile @ ''-'' @ d) e" and d: "length d = 7"
  shows "e = d"
proof -
  let ?key = "ConfigFile @ ''-'' @ d"
  have len: "length e = 7" and hex: "set e \<subseteq> set ''0123456789abcdef''" using DataDigest_Inr[OF e(1)] by simp_all
  obtain a b where ab: "?key = a @ e @ b" using e(2) by (auto simp: strContains_conv)
  have total: "length a + length b = 12"
    using arg_cong[OF ab, of length] len d by (simp add: ConfigFile_def)
  have "\<not> length a \<le> 6"
  proof
    assume "length a \<le> 6"
    then have "?key ! 6 \<in> set e" using window_char[OF ab, of 6] len by simp
    with hex show False by (auto simp: ConfigFile_def)
  qed
  moreover have "\<not> (5 \<le> length a \<and> length a \<le> 11)"
  proof
    assume "5 \<le> length a \<and> length a \<le> 11"
    then have "?key ! 11 \<in> set e" using window_char[OF ab, of 11] len by simp
    with hex show False by (auto simp: ConfigFile_def)
  qed
  ultimately have "length a = 12" and "length b = 0" using total by linarith+
  then have "drop 12 ?key = e" using arg_cong[OF ab, of "drop 12"] by simp
  then show ?thesis by (simp add: ConfigFile_def)
qed

lemma withDigest_name:
  "withDigest U (ConfigFile @ ''-'' @ d) v = Inr True \<Longrightarrow> length d = 7 \<Longrightarrow> DataDigest U v = Inr d"
  using digest_in_name by (auto simp: withDigest_def thenE_Inr_iff)

lemma withDigest_own: "DataDigest U v = Inr d \<Longrightarrow> withDigest U (ConfigFile @ ''-'' @ d) v = Inr True"
  using strContains_suffix[of "ConfigFile @ ''-''" d] by (simp add: withDigest_def thenE_def)

lemma keepInUse_fair:
  assumes keep: "keepInUse U pods (cm_data old) [(Entrypoint, script), (ConfigFile @ ''-'' @ sfx, conf)] = Inr data"
    and old: "distinct (map fst (cm_data old))" and sfx: "DataDigest U conf = Inr sfx"
  shows "fairUpdate U script sfx old pods (c\<lparr>cm_data := data\<rparr>)"
  unfolding fairUpdate_def
proof (intro conjI ballI allI impI)
  note m = keepInUse_map[OF keep old]
  show "map_of (cm_data (c\<lparr>cm_data := data\<rparr>)) Entrypoint = Some script"
    using start_script_plain[of U] by (simp add: m split: option.splits)
  show "\<exists>v. map_of (cm_data (c\<lparr>cm_data := data\<rparr>)) (ConfigFile @ ''-'' @ sfx) = Some v \<and> DataDigest U v = Inr sfx"
    using withDigest_name[of U sfx] DataDigest_Inr[OF sfx] sfx names_neq by (auto simp: m split: option.splits)
  show "map_of (cm_data (c\<lparr>cm_data := data\<rparr>)) (podConfigFile p) = Some v"
    if "p \<in> set pods" "map_of (cm_data old) (podConfigFile p) = Some v" "gstr (pod_annos p) ConfigSuffixAnno \<noteq> []"
      "DataDigest U v = Inr (gstr (pod_annos p) ConfigSuffixAnno)" for p v
  proof -
    have "withDigest U (podConfigFile p) v = Inr True" using withDigest_own[OF that(4)] by (simp add: podConfigFile_def)
    moreover have "configInUse (podConfigFile p) pods"
      using that(1,3) strContains_suffix[of "ConfigFile @ ''-''" "gstr (pod_annos p) ConfigSuffixAnno"]
      by (auto simp: configInUse_def list_ex_iff podConfigFile_def)
    ultimately show ?thesis using that(2) by (simp add: m)
  qed
  show "k \<in> {Entrypoint, ConfigFile @ ''-'' @ sfx} \<or> k \<in> dom (map_of (cm_data old)) \<and> configInUse k pods"
    if "k \<in> dom (map_of (cm_data (c\<lparr>cm_data := data\<rparr>)))" for k
    using that by (auto simp: m split: option.splits if_splits)
qed

text \<open>C35 (\<^verbatim>\<open>ensureConfigMap\<close>): with in-place configuration a config map is shared by pods of different configurations. A
  run that succeeds sends one write: it creates the map as asked, or updates it so that the start script and the new
  configuration are there, every listed pod still finds the file of the digest it was started with, and only files
  some listed pod uses are kept besides.\<close>

theorem config_in_use_kept:
  fixes s :: "('o, 'w lworld) ctx"
  assumes data: "mapData L" and desired: "cm_data desired = [(Entrypoint, script), (ConfigFile @ ''-'' @ sfx, conf)]"
    and sfx: "DataDigest U conf = Inr sfx" and run: "ensureConfigMap U (loggedL L) desired s = (Inr n, s')"
  shows "n = cm_name desired \<and>
    (logOf s' = ConfigMapW (WCreate desired) # logOf s \<or>
     (\<exists>old pods c w1 w1' w2 w2'. logOf s' = ConfigMapW (WUpdate c) # logOf s \<and>
        api_get (l_cms L) (cm_ns desired, cm_name desired) w1 = (Inr old, w1') \<and>
        api_list (l_pods L) (cm_ns desired) (MatchingLabels []) w2 = (Inr pods, w2') \<and>
        fairUpdate U script sfx old pods c))"
proof -
  from run show ?thesis
  proof (unfold ensureConfigMap_def, elim bindR_InrE)
    fix r s1 assume r: "attempt (callW (api_get (l_cms (loggedL L)) (cm_ns desired, cm_name desired))) s = (Inr r, s1)"
      and rest: "(case r of
        Inl e \<Rightarrow> if IsNotFound e then bindR (callW (api_create (l_cms (loggedL L)) desired)) (\<lambda>_. ret (cm_name desired)) else throw e
      | Inr old \<Rightarrow> bindR (callW (api_list (l_pods (loggedL L)) (cm_ns desired) (MatchingLabels []))) (\<lambda>pods.
          bindR (liftE (keepInUse U pods (cm_data old) (cm_data desired))) (\<lambda>data.
          bindR (callW (api_update (l_cms (loggedL L)) (desired\<lparr>cm_data := data\<rparr>))) (\<lambda>_. ret (cm_name desired))))) s1 = (Inr n, s')"
    have log1: "logOf s1 = logOf s"
      using r by (auto simp: attempt_def callW_def readL_def split: prod.splits sum.splits if_splits)
    show ?thesis
    proof (cases r)
      case (Inl e)
      with rest log1 show ?thesis
        by (auto simp: callW_def writeL_def ret_def throw_def elim!: bindR_InrE split: if_splits prod.splits)
    next
      case (Inr old)
      then have get: "\<exists>w1'. api_get (l_cms L) (cm_ns desired, cm_name desired) (fst (world s)) = (Inr old, w1')"
        using r by (auto simp: attempt_def callW_def readL_def split: prod.splits sum.splits if_splits)
      then have old: "distinct (map fst (cm_data old))" using data unfolding mapData_def by blast
      from rest Inr obtain pods w2' d where list: "api_list (l_pods L) (cm_ns desired) (MatchingLabels []) (fst (world s1)) = (Inr pods, w2')"
        and d: "keepInUse U pods (cm_data old) (cm_data desired) = Inr d" and n: "n = cm_name desired"
        and log: "logOf s' = ConfigMapW (WUpdate (desired\<lparr>cm_data := d\<rparr>)) # logOf s1"
        by (auto simp: callW_def readL_def writeL_def ret_def throw_def liftE_def elim!: bindR_InrE split: prod.splits sum.splits)
      from keepInUse_fair[OF d[unfolded desired] old sfx] get list n log log1 show ?thesis by metis
    qed
  qed
qed

section \<open>What a CN is configured with\<close>

definition tree :: "toml_config \<Rightarrow> tmap" where
  "tree c = (case MP c of None \<Rightarrow> [] | Some m \<Rightarrow> m)"

lemma tree_simps [simp]:
  "tree (SetPath c p v) = setPath (tree c) v p" "tree (MergeDeep c mp) = deepMergeMap (tree c) mp"
  by (simp_all add: tree_def SetPath_def MergeDeep_def)

lemma setAll_simps [simp]: "setAll [] c = c" "setAll ((p, v) # kvs) c = setAll kvs (SetPath c p v)"
  by (simp_all add: setAll_def)

lemma get_setAll_other: "\<forall>p \<in> fst ` set kvs. diverge p q \<Longrightarrow> get (tree (setAll kvs c)) q = get (tree c) q"
  by (induction kvs arbitrary: c) (auto simp: get_setPath_other)

lemma get_setAll:
  assumes "sorted_wrt diverge (map fst kvs)" and "(p, v) \<in> set kvs" and "p \<noteq> []"
  shows "get (tree (setAll kvs c)) p = v"
  using assms
proof (induction kvs arbitrary: c)
  case (Cons kv kvs)
  obtain q u where kv: "kv = (q, u)" by fastforce
  show ?case
  proof (cases "(p, v) \<in> set kvs")
    case True
    with Cons kv show ?thesis by simp
  next
    case False
    with Cons.prems kv have "q = p" "u = v" by auto
    with Cons.prems(1) kv have "\<forall>x \<in> fst ` set kvs. diverge x p" by auto
    then have "get (tree (setAll kvs (SetPath c p v))) p = get (tree (SetPath c p v)) p" by (rule get_setAll_other)
    with get_setPath[OF Cons.prems(3)] show ?thesis by (simp add: kv \<open>q = p\<close> \<open>u = v\<close>)
  qed
qed simp

lemma cnSettings_diverge: "sorted_wrt diverge (map fst (cnSettings U cn ld disc reserved))"
  by (simp add: cnSettings_def hakeeperAddr_def promConfig_def)

lemma wft_s3Config: "wft (VMap (s3Config s3 d))"
  by (simp add: s3Config_def split: option.splits)

lemma wft_cacheConfig: "wft (VMap (cacheConfig U c))"
  by (auto simp: cacheConfig_def split: option.splits)

lemma wft_shared: "wft (VMap (sharedFileServiceConfig U sp cache n d))"
  using wft_s3Config wft_cacheConfig
  by (auto simp: sharedFileServiceConfig_def Let_def wfm_iff split: option.splits)

lemma wft_fileService: "wft (VMap (FileServiceConfig U path sp cache))"
  using wft_shared[of U sp cache "''S3''" "''data''"] wft_shared[of U sp None "''ETL''" "''etl''"]
  by (simp add: FileServiceConfig_def)

text \<open>\<^verbatim>\<open>buildCNSetConfigMap\<close>: the configuration of a CN. Its HAKeeper addresses are those of the log pods the stateful
  set runs, the first replicas that are not reserved, or the discovery address for versions that support it; the service
  type and role are the operator's, and the store starts draining when draining is enabled. Every value of the user at a
  path the operator does not set and the file services do not touch is kept.\<close>

theorem cn_config_contents:
  "(\<not> discoveryFixed U (cns_pod cn) \<longrightarrow> get (tree (cnConfig U cn ld disc reserved)) [''hakeeper-client'', ''service-addresses''] =
      VStrs (map (podAddr (ld_logset ld) logServicePort) (runningOrdinals reserved (lg_replicas (lgs_spec (ld_logset ld)))))) \<and>
   (discoveryFixed U (cns_pod cn) \<longrightarrow> get (tree (cnConfig U cn ld disc reserved)) [''hakeeper-client'', ''discovery-address''] =
      VStr (discoveryStr disc)) \<and>
   get (tree (cnConfig U cn ld disc reserved)) [''service-type''] = VStr ''CN'' \<and>
   get (tree (cnConfig U cn ld disc reserved)) [''cn'', ''role''] = VStr (cns_role cn) \<and>
   (GetStoreDrainEnabled (cns_scaling cn) \<longrightarrow>
      get (tree (cnConfig U cn ld disc reserved)) [''cn'', ''init-work-state''] = VStr ''Draining'') \<and>
   (\<forall>q. (\<forall>p \<in> fst ` set (cnSettings U cn ld disc reserved). diverge p q) \<longrightarrow>
      untouched (FileServiceConfig U localDataPath (ld_storage ld) (Some (cns_cache cn))) q \<longrightarrow>
      get (tree (cnConfig U cn ld disc reserved)) q = get (tree (orNewConfig (pd_config (cns_pod cn)))) q)"
proof (intro conjI allI impI)
  note set = get_setAll[OF cnSettings_diverge[of U cn ld disc reserved]]
  show "get (tree (cnConfig U cn ld disc reserved)) [''hakeeper-client'', ''service-addresses''] =
      VStrs (map (podAddr (ld_logset ld) logServicePort) (runningOrdinals reserved (lg_replicas (lgs_spec (ld_logset ld)))))"
    if "\<not> discoveryFixed U (cns_pod cn)"
    unfolding cnConfig_def using that
    by (intro set) (simp_all add: cnSettings_def hakeeperAddr_def HaKeeperSvcAddrs_def ordinalLoop_running)
  show "get (tree (cnConfig U cn ld disc reserved)) [''hakeeper-client'', ''discovery-address''] = VStr (discoveryStr disc)"
    if "discoveryFixed U (cns_pod cn)"
    unfolding cnConfig_def using that by (intro set) (simp_all add: cnSettings_def hakeeperAddr_def)
  show "get (tree (cnConfig U cn ld disc reserved)) [''service-type''] = VStr ''CN''"
    unfolding cnConfig_def by (intro set) (simp_all add: cnSettings_def)
  show "get (tree (cnConfig U cn ld disc reserved)) [''cn'', ''role''] = VStr (cns_role cn)"
    unfolding cnConfig_def by (intro set) (simp_all add: cnSettings_def)
  show "get (tree (cnConfig U cn ld disc reserved)) [''cn'', ''init-work-state''] = VStr ''Draining''"
    if "GetStoreDrainEnabled (cns_scaling cn)"
    unfolding cnConfig_def using that by (intro set) (simp_all add: cnSettings_def)
  fix q assume q: "\<forall>p \<in> fst ` set (cnSettings U cn ld disc reserved). diverge p q"
    and u: "untouched (FileServiceConfig U localDataPath (ld_storage ld) (Some (cns_cache cn))) q"
  show "get (tree (cnConfig U cn ld disc reserved)) q = get (tree (orNewConfig (pd_config (cns_pod cn)))) q"
    unfolding cnConfig_def get_setAll_other[OF q] tree_simps by (rule get_deepMergeMap_keeps[OF u wft_fileService])
qed

section \<open>Volumes only grow\<close>

definition isData :: "pvc \<Rightarrow> bool" where
  "isData c \<longleftrightarrow> pvc_name c = DataVolume"

lemma growTemplates_ok:
  "\<forall>c \<in> set cs. isData c \<longrightarrow> pvc_size c \<le> n \<Longrightarrow>
     growTemplates U n cs = Inr (\<exists>c \<in> set cs. isData c \<and> pvc_size c < n, map (\<lambda>c. if isData c then c\<lparr>pvc_size := n\<rparr> else c) cs)"
proof (induction cs)
  case (Cons c cs)
  have same: "\<not> pvc_size c < n \<Longrightarrow> \<not> pvc_size c > n \<Longrightarrow> c\<lparr>pvc_size := n\<rparr> = c" by (intro pvc.equality) simp_all
  from Cons show ?case by (auto simp: thenE_def isData_def same)
qed simp

lemma growTemplates_refused: "c \<in> set cs \<Longrightarrow> isData c \<Longrightarrow> pvc_size c > n \<Longrightarrow> \<exists>e. growTemplates U n cs = Inl e"
  by (induction cs) (auto simp: thenE_def isData_def)

text \<open>What a volume sync may send to grow the data volumes of a set to size \<open>n\<close>: a claim that is smaller, of whatever
  volume, is patched to \<open>n\<close>; the set itself gets its data templates at \<open>n\<close>, none of which was larger.\<close>

definition grownClaims :: "int \<Rightarrow> pvc list \<Rightarrow> pvc list" where
  "grownClaims n cs = map (\<lambda>c. if isData c then c\<lparr>pvc_size := n\<rparr> else c) cs"

definition mayGrow :: "int \<Rightarrow> pvc list \<Rightarrow> bool" where
  "mayGrow n cs \<longleftrightarrow> (\<forall>c \<in> set cs. isData c \<longrightarrow> pvc_size c \<le> n) \<and> (\<exists>c \<in> set cs. isData c \<and> pvc_size c < n)"

fun isGrowth :: "int \<Rightarrow> event \<Rightarrow> bool" where
  "isGrowth n (PvcW (WPatch c c')) = (pvc_size c < n \<and> c' = c\<lparr>pvc_size := n\<rparr>)"
| "isGrowth n _ = False"

lemma growClaim_sends: "onlySends P (isGrowth n) (growClaim (loggedS S) n c)"
  unfolding growClaim_def by (rule sendsR | simp only: send_simps | simp)+

lemma growPod_sends: "onlySends P (isGrowth n) (growPod (loggedS S) ns n p)"
  unfolding growPod_def by (rule sendsR onlySends_forR growClaim_sends | simp only: send_simps)+

text \<open>A handler that sends \<open>ok\<close> events and ends with one write.\<close>

lemma last_write:
  assumes m: "onlySends (\<lambda>_. True) ok m" and run: "bindR m (\<lambda>x. bindR (wrapE msg (callW (writeL e f))) (\<lambda>_. ret ())) s = (r, s')"
  shows "\<exists>es. list_all ok es \<and> (logOf s' = es @ logOf s \<or> logOf s' = e # es @ logOf s)"
  using run
proof (cases rule: bindR_cases)
  case (err e')
  with m show ?thesis by (auto elim!: onlySendsD simp: list_all_iff)
next
  case (ok x s1)
  obtain es where es: "logOf s1 = es @ logOf s" "\<forall>e \<in> set es. ok e" using m ok(1) by (auto elim: onlySendsD)
  have "logOf s' = e # logOf s1"
    using ok(2) by (auto simp: bindR_def wrapE_def callW_def writeL_def ret_def split: prod.splits sum.splits)
  with es show ?thesis by (auto simp: list_all_iff)
qed

text \<open>A run that grows the claims of a set, whose update is \<open>upd\<close>.\<close>

definition growthRun :: "int \<Rightarrow> pvc list \<Rightarrow> event \<Rightarrow> ('o, 'w lworld) ctx \<Rightarrow> (err + unit) \<times> ('o, 'w lworld) ctx \<Rightarrow> bool" where
  "growthRun n claims upd s out \<longleftrightarrow>
     ((\<exists>c \<in> set claims. isData c \<and> pvc_size c > n) \<longrightarrow> snd out = s \<and> isl (fst out)) \<and>
     (\<not> mayGrow n claims \<longrightarrow> snd out = s) \<and>
     (\<exists>es. list_all (isGrowth n) es \<and>
        (logOf (snd out) = es @ logOf s \<or> mayGrow n claims \<and> logOf (snd out) = upd # es @ logOf s))"

lemma growth_run:
  assumes m: "onlySends (\<lambda>_. True) (isGrowth n) m"
  shows "growthRun n claims (upd (grownClaims n claims)) s
    (bindR (liftE (growTemplates U n claims)) (\<lambda>(changed, cl). if \<not> changed then ret ()
       else bindR m (\<lambda>x. bindR (wrapE msg (callW (writeL (upd cl) (f cl)))) (\<lambda>_. ret ()))) s)"
proof (cases "\<exists>c \<in> set claims. isData c \<and> pvc_size c > n")
  case True
  then obtain e where "growTemplates U n claims = Inl e" using growTemplates_refused by blast
  moreover have "\<not> mayGrow n claims" using True unfolding mayGrow_def by (meson not_le)
  ultimately show ?thesis by (simp add: growthRun_def liftE_def throw_def exI[of _ "[]"])
next
  case False
  then have le: "\<forall>c \<in> set claims. isData c \<longrightarrow> pvc_size c \<le> n" by (meson not_le)
  then have gt: "growTemplates U n claims = Inr (mayGrow n claims, grownClaims n claims)"
    by (simp add: growTemplates_ok mayGrow_def grownClaims_def)
  show ?thesis
  proof (cases "mayGrow n claims")
    case False
    with gt \<open>\<not> (\<exists>c \<in> set claims. isData c \<and> pvc_size c > n)\<close> show ?thesis
      by (simp add: growthRun_def liftE_def ret_def exI[of _ "[]"])
  next
    case True
    let ?cl = "grownClaims n claims"
    obtain r s' where run: "bindR m (\<lambda>x. bindR (wrapE msg (callW (writeL (upd ?cl) (f ?cl)))) (\<lambda>_. ret ())) s = (r, s')" by fastforce
    from last_write[OF m run] True gt run \<open>\<not> (\<exists>c \<in> set claims. isData c \<and> pvc_size c > n)\<close> show ?thesis
      by (auto simp: growthRun_def liftE_def)
  qed
qed

text \<open>C36 (\<^verbatim>\<open>SyncCloneSetVolumeSize\<close>, \<^verbatim>\<open>SyncStsVolumeSize\<close>): volumes only grow. A size below that of some data template is refused
  before anything is sent. Otherwise only claims smaller than the size are patched, to that size, and the set is updated
  last, after the claims, with its data templates at that size; nothing is sent for a set that has the size. The patched
  claims are all claims of the pods of the set that the listing returns, those of an overlay included: nothing restricts
  them to the data volume.\<close>

theorem volumes_only_grow:
  fixes s :: "('o, 'w lworld) ctx"
  shows "growthRun n (ks_claims cs) (CloneSetW (WUpdate (cs\<lparr>ks_claims := grownClaims n (ks_claims cs)\<rparr>))) s
      (SyncCloneSetVolumeSize U (loggedS S) ns name kind n cs s) \<and>
    growthRun n (kt_claims sts) (KruiseStsW (WUpdate (sts\<lparr>kt_claims := grownClaims n (kt_claims sts)\<rparr>))) s
      (SyncStsVolumeSize U (loggedS S) ns name kind n sts s)"
proof
  have "onlySends (\<lambda>_. True) (isGrowth n) (bindR (wrapE ''list pods'' (callW (api_list (l_pods (s_l (loggedS S))) ns
      (MatchingLabels (SubResourceLabels ns name kind))))) (\<lambda>pods. forR (growPod (loggedS S) ns n) pods))"
    by (rule sendsR onlySends_forR growPod_sends | simp only: send_simps)+
  from growth_run[OF this, of "ks_claims cs" "\<lambda>cl. CloneSetW (WUpdate (cs\<lparr>ks_claims := cl\<rparr>))"
      s U "''sync volume size''" "\<lambda>cl. api_update (s_clonesets S) (cs\<lparr>ks_claims := cl\<rparr>)"]
  show "growthRun n (ks_claims cs) (CloneSetW (WUpdate (cs\<lparr>ks_claims := grownClaims n (ks_claims cs)\<rparr>))) s
      (SyncCloneSetVolumeSize U (loggedS S) ns name kind n cs s)"
    unfolding SyncCloneSetVolumeSize_def bindR_assoc loggedS_simps logKind_simps .
  have "onlySends (\<lambda>_. True) (isGrowth n) (bindR (wrapE ''list volumes'' (callW (api_list (s_pvcs (loggedS S)) ns
      (MatchingLabels (SubResourceLabels ns name kind))))) (\<lambda>pvcs. forR (growClaim (loggedS S) n) pvcs))"
    by (rule sendsR onlySends_forR growClaim_sends | simp only: send_simps)+
  from growth_run[OF this, of "kt_claims sts" "\<lambda>cl. KruiseStsW (WUpdate (sts\<lparr>kt_claims := cl\<rparr>))"
      s U "''sync volume size''" "\<lambda>cl. api_update (s_stss S) (sts\<lparr>kt_claims := cl\<rparr>)"]
  show "growthRun n (kt_claims sts) (KruiseStsW (WUpdate (sts\<lparr>kt_claims := grownClaims n (kt_claims sts)\<rparr>))) s
      (SyncStsVolumeSize U (loggedS S) ns name kind n sts s)"
    unfolding SyncStsVolumeSize_def bindR_assoc loggedS_simps logKind_simps .
qed

section \<open>Sample runs\<close>

text \<open>A server whose config maps are maps, with a config map whose old configuration a pod still uses.\<close>

definition configEnv :: "bucket_mem lenv" where
  "configEnv = bucketEnv\<lparr>l_cms := (l_cms bucketEnv)\<lparr>api_get := (\<lambda>k w. case find (\<lambda>x. (cm_ns x, cm_name x) = k) (bm_cms w) of
      None \<Rightarrow> (Inl notFoundErr, w) | Some x \<Rightarrow> (Inr (x\<lparr>cm_data := AList.clearjunk (cm_data x)\<rparr>), w))\<rparr>\<rparr>"

definition oldPod :: pod where
  "oldPod = \<lparr>pod_name = ''p'', pod_ns = ''ns'', pod_rv = 1, pod_labels = None, pod_annos = Some [ConfigSuffixAnno \<mapsto> ''1000000''],
     pod_finalizers = [], pod_deleted = None, pod_created = 0, pod_nodeName = [], pod_subdomain = [], pod_status_phase = PodRunning,
     pod_conditions = [], pod_containers = []\<rparr>"

definition configWorld :: bucket_mem where
  "configWorld = bucketWorld\<lparr>bm_cms := [\<lparr>cm_name = ''cm'', cm_ns = ''ns'',
      cm_data = [(Entrypoint, ''s''), (ConfigFile @ ''-1000000'', ''old''), (ConfigFile @ ''-3000000'', ''older'')]\<rparr>],
    bm_pods := [oldPod]\<rparr>"

definition newConfig :: config_map where
  "newConfig = \<lparr>cm_name = ''cm'', cm_ns = ''ns'', cm_data = [(Entrypoint, ''t''), (ConfigFile @ ''-'' @ ''2000000'', ''new'')]\<rparr>"

lemma configEnv_data: "mapData configEnv"
  by (auto simp: mapData_def configEnv_def distinct_clearjunk split: option.splits)

lemma configEnv_pods: "api_list (l_pods configEnv) ns opt w = (Inr (filter (\<lambda>p. pod_ns p = ns \<and> memMatches opt (pod_labels p)) (bm_pods w)), w)"
  by (simp add: configEnv_def bucketEnv_def memKind_def podKey_def Let_def)

lemma sampleDigest: "DataDigest sampleTools v = Inr (if v = ''old'' then ''1000000'' else ''2000000'')"
  by (simp add: DataDigest_def sampleTools_def hexStr.simps hexDigit_def Let_def)

theorem config_in_use_kept_witness:
  "\<exists>c w1 w1' w2 w2' old pods. logOf (snd (ensureConfigMap sampleTools (loggedL configEnv) newConfig
       \<lparr>Obj = (), world = (configWorld, [])\<rparr>)) = [ConfigMapW (WUpdate c)] \<and>
     api_get (l_cms configEnv) (''ns'', ''cm'') w1 = (Inr old, w1') \<and>
     api_list (l_pods configEnv) ''ns'' (MatchingLabels []) w2 = (Inr pods, w2') \<and>
     fairUpdate sampleTools ''t'' ''2000000'' old pods c"
proof -
  let ?run = "ensureConfigMap sampleTools (loggedL configEnv) newConfig \<lparr>Obj = (), world = (configWorld, [])\<rparr>"
  have "\<exists>c. fst ?run = Inr ''cm'' \<and> logOf (snd ?run) = [ConfigMapW (WUpdate c)]"
    by (simp add: ensureConfigMap_def configEnv_def newConfig_def configWorld_def withDigest_def sampleDigest thenE_def
        oldPod_def liftE_def bucket_run_defs)
  then have ok: "?run = (Inr ''cm'', snd ?run)" and upd: "\<exists>c. logOf (snd ?run) = [ConfigMapW (WUpdate c)]" by (auto intro: prod_eqI)
  have "cm_data newConfig = [(Entrypoint, ''t''), (ConfigFile @ ''-'' @ ''2000000'', ''new'')]" by (simp add: newConfig_def)
  from config_in_use_kept[OF configEnv_data this _ ok] upd show ?thesis
    by (simp add: sampleDigest newConfig_def) (metis event.inject(15) kwrite.distinct(1) list.inject)
qed

definition sampleDep :: log_dep where
  "sampleDep = \<lparr>ld_logset = sampleLogs, ld_storage = localStorage, ld_discovery = Some (''d'', 32001)\<rparr>"

definition userCN :: cn_spec where
  "userCN = drainCN\<lparr>cns_pod := samplePodSet\<lparr>pd_config := Some (NewTomlConfig (Some [(''log'', VMap [(''level'', VStr ''debug'')])]))\<rparr>\<rparr>"

theorem cn_config_contents_witness:
  "get (tree (cnConfig sampleTools userCN sampleDep (''d'', 32001) [1])) [''cn'', ''init-work-state''] = VStr ''Draining'' \<and>
   get (tree (cnConfig sampleTools userCN sampleDep (''d'', 32001) [1])) [''log'', ''level''] = VStr ''debug''"
proof -
  have "get (tree (orNewConfig (pd_config (cns_pod userCN)))) [''log'', ''level''] = VStr ''debug''"
    by (simp add: tree_def userCN_def samplePodSet_def orNewConfig_def NewTomlConfig_def mapGet_def)
  moreover have "GetStoreDrainEnabled (cns_scaling userCN)" by (simp add: userCN_def drainCN_def GetStoreDrainEnabled_def)
  moreover have "\<forall>p \<in> fst ` set (cnSettings sampleTools userCN sampleDep (''d'', 32001) [1]). diverge p [''log'', ''level'']"
    by (auto simp: cnSettings_def hakeeperAddr_def promConfig_def)
  moreover have "untouched (FileServiceConfig sampleTools localDataPath (ld_storage sampleDep) (Some (cns_cache userCN))) [''log'', ''level'']"
    by (simp add: FileServiceConfig_def)
  ultimately show ?thesis
    using cn_config_contents[of sampleTools userCN sampleDep "(''d'', 32001)" "[1]"] by metis
qed

end
