(* ===== verification/Set_Templates.thy ===== *)
theory Set_Templates
  imports Config_Sync
begin

text \<open>
  What the controllers of CN, DN and proxy sets share: the object templates of \<^verbatim>\<open>common/template.go\<close>, conditions, the
  finalizers of bucket claims, the addresses of log pods (\<^verbatim>\<open>common/statefulset_predicate.go\<close>), the metric service and
  the deletion of owned objects.

  The locale \<open>owned_objects\<close> is the contract of a finalizer that deletes objects, waits until they are gone and releases
  what they used; its lemmas hold for every set controller.
\<close>

section \<open>Templates\<close>

definition subLabels :: "string \<Rightarrow> string \<Rightarrow> string \<Rightarrow> gomap" where
  "subLabels ns name kind = Some (map_of (SubResourceLabels ns name kind))"

definition HeadlessServiceTemplate :: "string \<Rightarrow> string \<Rightarrow> string \<Rightarrow> string \<Rightarrow> service" where
  "HeadlessServiceTemplate ns owner kind name =
     \<lparr>vs_name = name, vs_ns = ns, vs_labels = subLabels ns owner kind, vs_annos = Some Map.empty, vs_controller = None,
      vs_selector = subLabels ns owner kind, vs_type = [], vs_ports = [], vs_headless = True\<rparr>"

definition newTemplate :: "gomap \<Rightarrow> pod_tpl" where
  "newTemplate lbls = \<lparr>pm_labels = lbls, pm_annos = Some Map.empty, pm_spec = emptyPodSpec\<rparr>"

definition InPlaceIfPossible :: string where "InPlaceIfPossible = ''InPlaceIfPossible''"
definition InPlaceOnly :: string where "InPlaceOnly = ''InPlaceOnly''"

definition CloneSetTemplate :: "string \<Rightarrow> string \<Rightarrow> string \<Rightarrow> string \<Rightarrow> clone_set" where
  "CloneSetTemplate ns owner kind name =
     (let l = subLabels ns owner kind in
      \<lparr>ks_name = name, ks_ns = ns, ks_labels = l, ks_annos = Some Map.empty, ks_replicas = None, ks_podsToDelete = [],
       ks_disablePVCReuse = False, ks_scaleMaxUnavailable = None, ks_updateType = InPlaceIfPossible, ks_maxUnavailable = None,
       ks_maxSurge = None, ks_minReadySeconds = 0, ks_preDelete = None, ks_inPlaceUpdate = None, ks_selector = l,
       ks_template = newTemplate l, ks_claims = [], ks_statusReplicas = 0, ks_statusReady = 0, ks_statusUpdatedReady = 0,
       ks_statusSelector = []\<rparr>)"

definition StatefulSetTemplate :: "string \<Rightarrow> string \<Rightarrow> string \<Rightarrow> string \<Rightarrow> string \<Rightarrow> kruise_sts" where
  "StatefulSetTemplate ns owner kind name svcName =
     (let l = subLabels ns owner kind in
      \<lparr>kt_name = name, kt_ns = ns, kt_labels = l, kt_serviceName = svcName, kt_replicas = None, kt_reserveOrdinals = [],
       kt_whenDeleted = ''Delete'', kt_whenScaled = ''Delete'', kt_selector = l, kt_template = newTemplate l, kt_claims = [],
       kt_statusUpdatedReady = 0\<rparr>)"

definition PersistentVolumeClaimTemplate :: "int \<Rightarrow> string option \<Rightarrow> string \<Rightarrow> pvc" where
  "PersistentVolumeClaimTemplate sz sc name =
     \<lparr>pvc_name = name, pvc_ns = [], pvc_labels = None, pvc_size = sz, pvc_class = sc\<rparr>"

text \<open>The claims of a set with a data volume: the data claim and those of the overlay.\<close>

definition volumeClaims :: "vol_claim option \<Rightarrow> pod_overlay option \<Rightarrow> pvc list \<Rightarrow> pvc list" where
  "volumeClaims v ov claims = (case v of
      None \<Rightarrow> claims
    | Some c \<Rightarrow> AppendVolumeClaims ov [PersistentVolumeClaimTemplate (vc_size c) (vc_class c) DataVolume])"

section \<open>Semantic equality\<close>

text \<open>\<^verbatim>\<open>equality.Semantic.DeepEqual\<close>: nil and empty maps are equal. The objects are compared after every nil map was
  made empty; lists have one empty value in the model.\<close>

fun semTopology :: "topology \<Rightarrow> topology" where
  "semTopology (TopoSpread d m) = TopoSpread d (gmake m)"
| "semTopology (TopoOther x) = TopoOther x"

definition semSpec :: "pod_spec \<Rightarrow> pod_spec" where
  "semSpec s = s\<lparr>ps_nodeSelector := gmake (ps_nodeSelector s), ps_topology := map semTopology (ps_topology s)\<rparr>"

definition semTpl :: "pod_tpl \<Rightarrow> pod_tpl" where
  "semTpl t = t\<lparr>pm_labels := gmake (pm_labels t), pm_annos := gmake (pm_annos t), pm_spec := semSpec (pm_spec t)\<rparr>"

definition semPvc :: "pvc \<Rightarrow> pvc" where
  "semPvc c = c\<lparr>pvc_labels := gmake (pvc_labels c)\<rparr>"

definition semCloneSet :: "clone_set \<Rightarrow> clone_set" where
  "semCloneSet cs = cs\<lparr>ks_labels := gmake (ks_labels cs), ks_annos := gmake (ks_annos cs), ks_selector := gmake (ks_selector cs),
     ks_template := semTpl (ks_template cs), ks_claims := map semPvc (ks_claims cs)\<rparr>"

definition semSts :: "kruise_sts \<Rightarrow> kruise_sts" where
  "semSts sts = sts\<lparr>kt_labels := gmake (kt_labels sts), kt_selector := gmake (kt_selector sts),
     kt_template := semTpl (kt_template sts), kt_claims := map semPvc (kt_claims sts)\<rparr>"

section \<open>Conditions\<close>

definition ConditionTypeReady :: string where "ConditionTypeReady = ''Ready''"
definition ReasonNoEnoughReadyStores :: string where "ReasonNoEnoughReadyStores = ''NoEnoughReadyStores''"
definition reasonEmpty :: string where "reasonEmpty = ''empty''"

definition newCondition :: "string \<Rightarrow> condition_status \<Rightarrow> string \<Rightarrow> string \<Rightarrow> condition" where
  "newCondition ty st reason msg = \<lparr>cd_type = ty, cd_status = st, cd_reason = reason, cd_message = msg, cd_lastTransition = 0\<rparr>"

text \<open>\<^verbatim>\<open>ConditionalStatus.SetCondition\<close> on the conditions of an object.\<close>

definition SetCondition :: "'w senv \<Rightarrow> condition list \<Rightarrow> condition \<Rightarrow> (('o, 'w) ctx, condition list) rm" where
  "SetCondition S cs c = readW (s_setCondition S cs (if cd_reason c = [] then c\<lparr>cd_reason := reasonEmpty\<rparr> else c))"

text \<open>What the controllers rely on: the last condition set for readiness is the one read.\<close>

definition conditionLaws :: "'w senv \<Rightarrow> bool" where
  "conditionLaws S \<longleftrightarrow> (\<forall>cs c w cs' w'. s_setCondition S cs c w = (cs', w') \<longrightarrow> cd_type c = ConditionTypeReady \<longrightarrow>
     (s_isReady S cs' \<longleftrightarrow> cd_status c = ConditionTrue))"

section \<open>Reading and deleting objects\<close>

text \<open>\<^verbatim>\<open>util.IsFound\<close>.\<close>

definition findR :: "('w \<Rightarrow> (err + 'a) \<times> 'w) \<Rightarrow> (('o, 'w) ctx, 'a option) rm" where
  "findR f = bindR (attempt (callW f)) (\<lambda>r. case r of
     Inr x \<Rightarrow> ret (Some x)
   | Inl e \<Rightarrow> if IsNotFound e then ret None else throw e)"

fun noneExist :: "(('o, 'w) ctx, bool) rm list \<Rightarrow> (('o, 'w) ctx, bool) rm" where
  "noneExist [] = ret True"
| "noneExist (m # ms) = bindR m (\<lambda>b. if b then ret False else noneExist ms)"

text \<open>The end of the finalizers: delete every object, wait until none exists, then \<open>after\<close>.\<close>

definition finalizeOwned ::
  "(('o, 'w) ctx, unit) rm list \<Rightarrow> (('o, 'w) ctx, bool) rm list \<Rightarrow> (('o, 'w) ctx, unit) rm \<Rightarrow> (('o, 'w) ctx, bool) rm" where
  "finalizeOwned dels exs after =
     bindR (forR ignoreNotFoundR dels) (\<lambda>_.
     bindR (noneExist exs) (\<lambda>gone. if gone then bindR after (\<lambda>_. ret True) else ret False))"

section \<open>Bucket claims and log pods\<close>

definition MakeHashFinalizer :: "tools \<Rightarrow> string \<Rightarrow> string \<Rightarrow> string \<Rightarrow> err + string" where
  "MakeHashFinalizer U pre ns name = thenE (DataDigest U (ns @ '':'' @ name)) (\<lambda>d. Inr (pre @ ''-'' @ d))"

text \<open>The bucket of the log set that a set refers to, when S3 buckets are reclaimed.\<close>

definition withBucket :: "'w senv \<Rightarrow> obj_key option \<Rightarrow> (string \<Rightarrow> string \<Rightarrow> (('o, 'w) ctx, unit) rm) \<Rightarrow> (('o, 'w) ctx, unit) rm" where
  "withBucket S dep f = (case dep of
      None \<Rightarrow> ret ()
    | Some (ns, name) \<Rightarrow> if l_s3Reclaim (s_l S) then f ns name else ret ())"

definition fetchLogSetReservedOrdinals :: "'w senv \<Rightarrow> log_dep option \<Rightarrow> (('o, 'w) ctx, int list) rm" where
  "fetchLogSetReservedOrdinals S ls = (case ls of
      None \<Rightarrow> ret []
    | Some ld \<Rightarrow> bindR (callW (api_get (l_sts (s_l S)) (lgs_ns (ld_logset ld), stsName (ld_logset ld)))) (\<lambda>sts.
        ret (ss_reserveOrdinals sts)))"

text \<open>The reserved ordinals of a CN or DN set: read only for versions without the fixed discovery; a nil \<^verbatim>\<open>ctx.Dep\<close> is
  dereferenced.\<close>

definition reservedOrdinals :: "tools \<Rightarrow> 'w senv \<Rightarrow> pod_set \<Rightarrow> log_dep option option \<Rightarrow> (('o, 'w) ctx, int list) rm" where
  "reservedOrdinals U S p dep =
     (if discoveryFixed U p then ret []
      else case dep of
        None \<Rightarrow> throw nilPanic
      | Some ls \<Rightarrow> wrapE ''fetch logset reserved ordinals'' (fetchLogSetReservedOrdinals S ls))"

text \<open>\<^verbatim>\<open>ctx.Dep.Deps.LogSet\<close>, used without a check.\<close>

definition depLogSet :: "log_dep option option \<Rightarrow> (('o, 'w) ctx, log_dep) rm" where
  "depLogSet dep = (case dep of Some (Some ld) \<Rightarrow> ret ld | _ \<Rightarrow> throw nilPanic)"

section \<open>Who reads the addresses of log pods\<close>

definition coreGroupVersion :: string where
  "coreGroupVersion = ''core.matrixorigin.io/v1alpha1''"

definition LogSetStatefulSetOwner :: "watched \<Rightarrow> obj_key option" where
  "LogSetStatefulSetOwner x = (case x of
      WatchedOther \<Rightarrow> None
    | WatchedSts ns _ owners _ \<Rightarrow>
        map_option (\<lambda>r. (ns, or_name r))
          (find (\<lambda>r. or_controller r = Some True \<and> or_apiVersion r = coreGroupVersion \<and> or_kind r = ''LogSet'') owners))"

definition ReferencesLogSet :: "obj_key option \<Rightarrow> string \<Rightarrow> obj_key \<Rightarrow> bool" where
  "ReferencesLogSet ref dependentNs key = (case ref of
      None \<Rightarrow> False
    | Some (ns, name) \<Rightarrow> (if ns = [] then dependentNs else ns) = fst key \<and> name = snd key)"

datatype watch_event = WEvCreate watched | WEvDelete watched | WEvUpdate watched watched | WEvGeneric watched

fun LogSetReserveOrdinalsChanged :: "watch_event \<Rightarrow> bool" where
  "LogSetReserveOrdinalsChanged (WEvUpdate old new) =
     (case (old, new) of
        (WatchedSts _ _ _ r, WatchedSts _ _ _ r') \<Rightarrow> LogSetStatefulSetOwner new \<noteq> None \<and> r \<noteq> r'
      | _ \<Rightarrow> False)"
| "LogSetReserveOrdinalsChanged _ = False"

text \<open>\<^verbatim>\<open>requestsForLogSetStatefulSet\<close> of CN sets and DN sets: \<open>refOf\<close> is the reference to the log set, \<open>keyOf\<close> the key of
  a set, \<open>listed\<close> the answer of the cache. An error is logged and nothing is requested.\<close>

definition requestsForLogSetSts :: "('a \<Rightarrow> obj_key option) \<Rightarrow> ('a \<Rightarrow> obj_key) \<Rightarrow> err + 'a list \<Rightarrow> watched \<Rightarrow> obj_key list" where
  "requestsForLogSetSts refOf keyOf listed x = (case LogSetStatefulSetOwner x of
      None \<Rightarrow> []
    | Some owner \<Rightarrow> (case listed of
        Inl _ \<Rightarrow> []
      | Inr sets \<Rightarrow> map keyOf (filter (\<lambda>s. ReferencesLogSet (refOf s) (fst (keyOf s)) owner) sets)))"

section \<open>Services\<close>

definition serviceR :: "'w senv \<Rightarrow> service \<Rightarrow> (service \<Rightarrow> (('o, 'w) ctx, service) rm) \<Rightarrow> (('o, 'w) ctx, service) rm" where
  "serviceR S svc f =
     bindR (callW (s_svcBegin S svc)) (\<lambda>old.
     bindR (f old) (\<lambda>new. callW (s_svcCommit S old new)))"

definition metricPort :: svc_port where
  "metricPort = \<lparr>spt_name = ''metric'', spt_port = MetricsPort, spt_nodePort = 0\<rparr>"

definition promAnnos :: "bool \<Rightarrow> (string \<rightharpoonup> string) \<Rightarrow> (string \<rightharpoonup> string)" where
  "promAnnos byService f = (if byService
     then f(PrometheusScrapeAnno \<mapsto> ''true'', PrometheusPortAnno \<mapsto> goItoa MetricsPort)
     else f(PrometheusScrapeAnno := None, PrometheusPortAnno := None))"

definition createAll :: "(('o, 'w) ctx, unit) rm list \<Rightarrow> (('o, 'w) ctx, err list) rm" where
  "createAll ms = foldr (\<lambda>m rest.
     bindR (attempt m) (\<lambda>r. bindR rest (\<lambda>errs. ret ((case r of Inl e \<Rightarrow> if ekind e = AlreadyExists then [] else [e] | Inr _ \<Rightarrow> []) @ errs))))
     ms (ret [])"

section \<open>What the shared steps send\<close>

lemma bindR_getObj: "bindR getObj f s = f (Obj s) s"
  by (simp add: bindR_def getObj_def)

lemma onlySends_log:
  assumes "onlySends P ok m" and "P (Obj s)" and "m s = (r, s')"
  shows "\<exists>es. logOf s' = es @ logOf s \<and> list_all ok es"
  using assms by (auto simp: onlySends_def list_all_iff)

lemma findR_sends [sendsR]: "onlySends P ok (findR (readL f))"
  unfolding findR_def by (rule sendsR)+

lemma existsR_sends [sendsR]: "onlySends P ok (existsR (readL f))"
  unfolding existsR_def by (rule sendsR)+

lemma ignoreNotFoundR_sends [sendsR]: "onlySends P ok m \<Longrightarrow> onlySends P ok (ignoreNotFoundR m)"
  unfolding ignoreNotFoundR_def by (rule sendsR | assumption)+

lemma SetCondition_sends [sendsR]: "onlySends P ok (SetCondition (loggedS S) cs c)"
  unfolding SetCondition_def loggedS_simps by (rule sendsR)

lemma noneExist_sends: "(\<And>m. m \<in> set ms \<Longrightarrow> onlySends P ok m) \<Longrightarrow> onlySends P ok (noneExist ms)"
  by (induction ms) (auto intro!: sendsR)

lemma createAll_sends: "(\<And>m. m \<in> set ms \<Longrightarrow> onlySends P ok m) \<Longrightarrow> onlySends P ok (createAll ms)"
  unfolding createAll_def by (induction ms) (auto intro!: sendsR)

lemma logSetBucket_sends [sendsR]: "onlySends P ok (logSetBucket msg (loggedL L) ns name)"
  unfolding logSetBucket_def ClaimedBucket_def by (rule sendsR | simp only: send_simps)+

lemma AddBucketFinalizer_sends [sendsR]:
  "(\<And>b. ok (BucketW (WUpdate (addBucketFinalizer f b)))) \<Longrightarrow> onlySends P ok (AddBucketFinalizer (loggedL L) ns name f)"
  unfolding AddBucketFinalizer_def by (rule sendsR | simp only: send_simps | assumption)+

lemma RemoveBucketFinalizer_sends [sendsR]:
  "(\<And>b. ok (BucketW (WUpdate (removeBucketFinalizer f b)))) \<Longrightarrow> onlySends P ok (RemoveBucketFinalizer (loggedL L) ns name f)"
  unfolding RemoveBucketFinalizer_def by (rule sendsR | simp only: send_simps | assumption)+

lemma SyncBucketEverRunningAnn_sends [sendsR]:
  "(\<And>b. ok (BucketW (WUpdate b))) \<Longrightarrow> onlySends P ok (SyncBucketEverRunningAnn (loggedL L) ns name)"
  unfolding SyncBucketEverRunningAnn_def SetBucketEverRunningAnn_def by (rule sendsR | simp only: send_simps | assumption)+

lemma withBucket_sends [sendsR]: "(\<And>ns name. onlySends P ok (f ns name)) \<Longrightarrow> onlySends P ok (withBucket (loggedS S) dep f)"
  by (auto simp: withBucket_def split: option.splits intro: sendsR)

lemma fetch_sends [sendsR]: "onlySends P ok (fetchLogSetReservedOrdinals (loggedS S) ls)"
  unfolding fetchLogSetReservedOrdinals_def by (rule sendsR | simp only: send_simps)+

lemma reservedOrdinals_sends [sendsR]: "onlySends P ok (reservedOrdinals U (loggedS S) p dep)"
  unfolding reservedOrdinals_def by (rule sendsR)+

lemma depLogSet_sends [sendsR]: "onlySends P ok (depLogSet dep)"
  unfolding depLogSet_def by (rule sendsR)+

lemma ensureConfigMap_sends: "(\<And>x. ok (ConfigMapW x)) \<Longrightarrow> onlySends P ok (ensureConfigMap U (loggedL L) c)"
  unfolding ensureConfigMap_def by (rule sendsR | simp only: send_simps | assumption)+

lemma ensureConfigMapLegacy_sends: "(\<And>x. ok (ConfigMapW x)) \<Longrightarrow> onlySends P ok (ensureConfigMapLegacy U (loggedL L) n c)"
  unfolding ensureConfigMapLegacy_def by (rule sendsR | simp only: send_simps | assumption)+

lemma SyncConfigMap_sends [sendsR]: "(\<And>x. ok (ConfigMapW x)) \<Longrightarrow> onlySends P ok (SyncConfigMap U (loggedL L) p cm sp)"
  unfolding SyncConfigMap_def by (rule sendsR ensureConfigMap_sends ensureConfigMapLegacy_sends | assumption)+

text \<open>What syncing the config map \<open>cm\<close> may write: the map itself, created or updated with the files in use kept, or, before
  the gate, a new map under the name with the digest.\<close>

definition configWrite :: "tools \<Rightarrow> pod_set \<Rightarrow> config_map \<Rightarrow> config_map kwrite \<Rightarrow> bool" where
  "configWrite U p cm x \<longleftrightarrow>
     (if inplaceConfig U p
      then x = WCreate cm \<or> (\<exists>pods old data. keepInUse U pods old (cm_data cm) = Inr data \<and> x = WUpdate (cm\<lparr>cm_data := data\<rparr>))
      else \<exists>c. addConfigMapDigest U cm = Inr c \<and> x = WCreate c)"

lemma SyncConfigMap_writes:
  assumes "\<And>x. configWrite U p cm x \<Longrightarrow> ok (ConfigMapW x)"
  shows "onlySends P ok (SyncConfigMap U (loggedL L) p cm sp)"
  unfolding SyncConfigMap_def ensureConfigMap_def ensureConfigMapLegacy_def
  by (rule onlySends_bind_liftE sendsR assms | simp only: send_simps | (simp add: configWrite_def, blast)[1] | simp add: configWrite_def)+

lemma serviceR_sends [sendsR]:
  "(\<And>x y. ok (SvcOwnedW x y)) \<Longrightarrow> (\<And>x. onlySends P ok (f x)) \<Longrightarrow> onlySends P ok (serviceR (loggedS S) svc f)"
  unfolding serviceR_def loggedS_simps by (rule sendsR | assumption)+

section \<open>Finalizers of sets\<close>

text \<open>The server answered that there is no such object.\<close>

definition absent :: "('k \<Rightarrow> 'w \<Rightarrow> (err + 'a) \<times> 'w) \<Rightarrow> 'k \<Rightarrow> bool" where
  "absent f k \<longleftrightarrow> (\<exists>w w' e. f k w = (Inl e, w') \<and> IsNotFound e)"

lemma existsR_absent: "existsR (readL (f k)) s = (Inr False, s') \<Longrightarrow> absent f k"
  unfolding absent_def
  by (auto simp: existsR_def attempt_def callW_def readL_def ret_def throw_def
      elim!: bindR_InrE split: prod.splits sum.splits if_splits) blast

text \<open>\<open>checks\<close> are the existence checks, each with what its answer \<open>False\<close> says.\<close>

locale owned_objects =
  fixes dels :: "(('o, ('w, 'e) elog) ctx, unit) rm list"
    and checks :: "((('o, ('w, 'e) elog) ctx, bool) rm \<times> bool) list"
    and after :: "(('o, ('w, 'e) elog) ctx, unit) rm"
    and isDel :: "'e \<Rightarrow> bool" and isRel :: "'e \<Rightarrow> bool"
  assumes dels_send: "d \<in> set dels \<Longrightarrow> onlySends (\<lambda>_. True) isDel d"
    and checks_silent: "(m, A) \<in> set checks \<Longrightarrow> onlySends (\<lambda>_. True) (\<lambda>_. False) m"
    and checks_absent: "(m, A) \<in> set checks \<Longrightarrow> m s = (Inr False, s') \<Longrightarrow> A"
    and after_sends: "onlySends (\<lambda>_. True) isRel after"
begin

lemma noneExist_run:
  assumes "set cs \<subseteq> set checks" and "noneExist (map fst cs) s = (r, s')"
  shows "logOf s' = logOf s \<and> (r = Inr True \<longrightarrow> list_all snd cs)"
  using assms
proof (induction cs arbitrary: s)
  case Nil
  then show ?case by (simp add: ret_def)
next
  case (Cons c cs)
  obtain m A where c: "c = (m, A)" by fastforce
  from Cons.prems(2) have "bindR m (\<lambda>b. if b then ret False else noneExist (map fst cs)) s = (r, s')" by (simp add: c)
  then show ?case
  proof (cases rule: bindR_cases)
    case (err e)
    with checks_silent[of m A] Cons.prems(1) show ?thesis by (auto simp: c elim: onlySendsD)
  next
    case (ok b s1)
    then have "logOf s1 = logOf s" using checks_silent[of m A] Cons.prems(1) by (auto simp: c elim!: onlySendsD)
    moreover have "\<not> b \<Longrightarrow> A" using ok(1) checks_absent[of m A s s1] Cons.prems(1) by (auto simp: c)
    ultimately show ?thesis using Cons.IH[of s1] Cons.prems(1) ok(2) by (auto simp: c ret_def split: if_splits)
  qed
qed

lemma finalized:
  assumes run: "finalizeOwned dels (map fst checks) after s = (r, s')"
  shows "(r = Inr True \<longrightarrow> list_all snd checks) \<and>
    (\<exists>rs ds. logOf s' = rs @ ds @ logOf s \<and> list_all isDel ds \<and> (rs = [] \<or> list_all snd checks \<and> list_all isRel rs))"
  using run[unfolded finalizeOwned_def]
proof (cases rule: bindR_cases)
  case (err e)
  moreover have "onlySends (\<lambda>_. True) isDel (forR ignoreNotFoundR dels)"
    by (intro onlySends_forR ignoreNotFoundR_sends dels_send)
  ultimately show ?thesis by (fastforce elim!: onlySendsD simp: list_all_iff)
next
  case (ok x s1)
  have "onlySends (\<lambda>_. True) isDel (forR ignoreNotFoundR dels)"
    by (intro onlySends_forR ignoreNotFoundR_sends dels_send)
  then obtain ds where ds: "logOf s1 = ds @ logOf s" "list_all isDel ds"
    using ok(1) by (auto elim!: onlySendsD simp: list_all_iff)
  from ok(2) show ?thesis
  proof (cases rule: bindR_cases)
    case (err e)
    with noneExist_run[of checks s1] ds show ?thesis by fastforce
  next
    case (ok gone s2)
    note n = noneExist_run[OF subset_refl ok(1)]
    show ?thesis
    proof (cases gone)
      case False
      with ok(2) n ds show ?thesis by (fastforce simp: ret_def)
    next
      case True
      with n have all: "list_all snd checks" by simp
      have "onlySends (\<lambda>_. True) isRel (bindR after (\<lambda>_. ret True))" by (rule sendsR after_sends)+
      then obtain rs where "logOf s' = rs @ logOf s2" "list_all isRel rs"
        using ok(2) True by (auto elim!: onlySendsD simp: list_all_iff)
      with n ds all show ?thesis by (metis append.assoc)
    qed
  qed
qed

end

section \<open>The reserved ordinals reach their readers\<close>

text \<open>A set is enqueued when its reference is the log set that controls the stateful set, whatever the other sets are.\<close>

lemma requests_iff:
  "k \<in> set (requestsForLogSetSts refOf keyOf (Inr sets) x) \<longleftrightarrow>
     (\<exists>s owner. s \<in> set sets \<and> keyOf s = k \<and> LogSetStatefulSetOwner x = Some owner \<and> ReferencesLogSet (refOf s) (fst k) owner)"
  by (force simp: requestsForLogSetSts_def split: option.splits)

section \<open>A world of sets\<close>

record set_mem =
  sm_base :: bucket_mem
  sm_clonesets :: "clone_set list"
  sm_stss :: "kruise_sts list"
  sm_svcs :: "service list"
  sm_pvcs :: "pvc list"

definition onBase :: "(bucket_mem \<Rightarrow> 'a \<times> bucket_mem) \<Rightarrow> set_mem \<Rightarrow> 'a \<times> set_mem" where
  "onBase f w = (case f (sm_base w) of (r, b) \<Rightarrow> (r, w\<lparr>sm_base := b\<rparr>))"

definition baseKind :: "('o, bucket_mem) kind_api \<Rightarrow> ('o, set_mem) kind_api" where
  "baseKind a = \<lparr>api_get = (\<lambda>k. onBase (api_get a k)), api_list = (\<lambda>ns opt. onBase (api_list a ns opt)),
     api_create = (\<lambda>x. onBase (api_create a x)), api_update = (\<lambda>x. onBase (api_update a x)),
     api_patch = (\<lambda>x y. onBase (api_patch a x y)), api_updateStatus = (\<lambda>x. onBase (api_updateStatus a x)),
     api_patchStatus = (\<lambda>x y. onBase (api_patchStatus a x y)), api_delete = (\<lambda>x. onBase (api_delete a x))\<rparr>"

definition baseEnv :: "bucket_mem lenv \<Rightarrow> set_mem lenv" where
  "baseEnv L = \<lparr>l_buckets = baseKind (l_buckets L), l_logsets = baseKind (l_logsets L), l_jobs = baseKind (l_jobs L),
     l_cms = baseKind (l_cms L), l_sts = baseKind (l_sts L), l_pods = baseKind (l_pods L), l_services = baseKind (l_services L),
     l_cmBegin = (\<lambda>x. onBase (l_cmBegin L x)), l_cmCommit = (\<lambda>x y. onBase (l_cmCommit L x y)), l_now = onBase (l_now L),
     l_s3Reclaim = l_s3Reclaim L, l_sha1hex = l_sha1hex L, l_findFirst = l_findFirst L, l_podOrdinal = l_podOrdinal L,
     l_upsert = l_upsert L, l_marshalReplicas = l_marshalReplicas L, l_unmarshalReplicas = l_unmarshalReplicas L\<rparr>"

definition setEnv :: "set_mem senv" where
  "setEnv = \<lparr>s_l = baseEnv bucketEnv,
     s_clonesets = memKind (\<lambda>x. (ks_ns x, ks_name x)) ks_labels sm_clonesets (\<lambda>xs w. w\<lparr>sm_clonesets := xs\<rparr>),
     s_csBegin = (\<lambda>x w. (Inr (case find (\<lambda>y. (ks_ns y, ks_name y) = (ks_ns x, ks_name x)) (sm_clonesets w) of None \<Rightarrow> x | Some y \<Rightarrow> y), w)),
     s_csCommit = (\<lambda>x y w. (Inr y, w\<lparr>sm_clonesets := y # filter (\<lambda>z. (ks_ns z, ks_name z) \<noteq> (ks_ns y, ks_name y)) (sm_clonesets w)\<rparr>)),
     s_stss = memKind (\<lambda>x. (kt_ns x, kt_name x)) kt_labels sm_stss (\<lambda>xs w. w\<lparr>sm_stss := xs\<rparr>),
     s_svcs = memKind (\<lambda>x. (vs_ns x, vs_name x)) vs_labels sm_svcs (\<lambda>xs w. w\<lparr>sm_svcs := xs\<rparr>),
     s_svcBegin = (\<lambda>x w. (Inr (case find (\<lambda>y. (vs_ns y, vs_name y) = (vs_ns x, vs_name x)) (sm_svcs w) of None \<Rightarrow> x | Some y \<Rightarrow> y), w)),
     s_svcCommit = (\<lambda>x y w. (Inr y, w\<lparr>sm_svcs := y # filter (\<lambda>z. (vs_ns z, vs_name z) \<noteq> (vs_ns y, vs_name y)) (sm_svcs w)\<rparr>)),
     s_pvcs = memKind (\<lambda>x. (pvc_ns x, pvc_name x)) pvc_labels sm_pvcs (\<lambda>xs w. w\<lparr>sm_pvcs := xs\<rparr>),
     s_dryRunCloneSet = (\<lambda>x w. (Inr x, w)),
     s_dryRunSts = (\<lambda>x w. (Inr x, w)),
     s_setControllerRef = (\<lambda>u v. Inr (v\<lparr>vs_controller := Some u\<rparr>)),
     s_setCondition = (\<lambda>cs c w. (c # filter (\<lambda>d. cd_type d \<noteq> cd_type c) cs, w)),
     s_isReady = list_ex (\<lambda>c. cd_type c = ConditionTypeReady \<and> cd_status c = ConditionTrue),
     s_sha256hex = (\<lambda>x. replicate 64 CHR ''a''),
     s_podUp = (\<lambda>p w. (True, w))\<rparr>"

lemma setEnv_laws: "conditionLaws setEnv"
  by (auto simp: conditionLaws_def setEnv_def list_ex_iff)

definition setWorld :: set_mem where
  "setWorld = \<lparr>sm_base = lateWorld\<lparr>bm_buckets := [sampleBucket\<lparr>bk_finalizers := [BucketCNFinalizerPrefix @ ''-2000000'',
       BucketDNFinalizerPrefix @ ''-2000000'']\<rparr>]\<rparr>,
     sm_clonesets = [], sm_stss = [], sm_svcs = [], sm_pvcs = []\<rparr>"

lemmas set_run_defs =
  setEnv_def setWorld_def lateWorld_def baseEnv_def baseKind_def onBase_def sampleSts_def stsRef_def bucket_run_defs

end
