(* ===== verification/CNSet_Control.thy ===== *)
theory CNSet_Control
  imports Set_Templates
begin

text \<open>
  The CN set controller, \<^verbatim>\<open>pkg/controllers/cnset\<close>: it keeps a clone set of CN pods, a service, a metric service and the
  config map of a \<^verbatim>\<open>CNSet\<close>.
\<close>

type_synonym 'w cn_ctx = "(cn_set, 'w) ctx"

section \<open>Names and templates\<close>

definition CNSQLPort :: int where "CNSQLPort = 6001"
definition portName :: string where "portName = ''service''"

definition cnMetricSvcName :: "string \<Rightarrow> string" where
  "cnMetricSvcName n = cnResourceName n @ ''-metric''"

definition getCNServicePort :: svc_port where
  "getCNServicePort = \<lparr>spt_name = portName, spt_port = CNSQLPort, spt_nodePort = 0\<rparr>"

definition ServiceTypeClusterIP :: string where "ServiceTypeClusterIP = ''ClusterIP''"

definition GetServiceType :: "cn_set \<Rightarrow> string" where
  "GetServiceType cn = (if cns_serviceType (cno_spec cn) = [] then ServiceTypeClusterIP else cns_serviceType (cno_spec cn))"

definition cnLabels :: "cn_set \<Rightarrow> gomap" where
  "cnLabels cn = subLabels (cno_ns cn) (cno_name cn) (cno_kind cn)"

definition buildHeadlessSvcCN :: "cn_set \<Rightarrow> service" where
  "buildHeadlessSvcCN cn = HeadlessServiceTemplate (cno_ns cn) (cno_name cn) (cno_kind cn) (cnHeadlessSvcName (cno_name cn))"

definition buildSvcCN :: "cn_set \<Rightarrow> service" where
  "buildSvcCN cn =
     (let port = (case cns_nodePort (cno_spec cn) of None \<Rightarrow> getCNServicePort | Some n \<Rightarrow> getCNServicePort\<lparr>spt_nodePort := n\<rparr>) in
      \<lparr>vs_name = cnResourceName (cno_name cn), vs_ns = cno_ns cn, vs_labels = cnLabels cn, vs_annos = Some Map.empty,
       vs_controller = None, vs_selector = cnLabels cn, vs_type = GetServiceType cn, vs_ports = [port], vs_headless = False\<rparr>)"

definition buildCNSet :: "cn_set \<Rightarrow> service \<Rightarrow> clone_set" where
  "buildCNSet cn headless =
     (let cs = CloneSetTemplate (cno_ns cn) (cno_name cn) (cno_kind cn) (cnResourceName (cno_name cn)); t = ks_template cs
      in cs\<lparr>ks_template := t\<lparr>pm_spec := (pm_spec t)\<lparr>ps_subdomain := vs_name headless\<rparr>\<rparr>\<rparr>)"

definition syncPersistentVolumeClaimCN :: "cn_set \<Rightarrow> clone_set \<Rightarrow> clone_set" where
  "syncPersistentVolumeClaimCN cn cs =
     cs\<lparr>ks_claims := volumeClaims (cns_cacheVolume (cno_spec cn)) (pd_overlay (cns_pod (cno_spec cn))) (ks_claims cs)\<rparr>"

definition scaleSet :: "cn_set \<Rightarrow> clone_set \<Rightarrow> clone_set" where
  "scaleSet cn cs = cs\<lparr>ks_replicas := Some (pd_replicas (cns_pod (cno_spec cn))), ks_podsToDelete := cns_podsToDelete (cno_spec cn)\<rparr>"

text \<open>The node port goes to the first port named \<open>portName\<close>.\<close>

fun setNodePort :: "int \<Rightarrow> svc_port list \<Rightarrow> svc_port list" where
  "setNodePort n [] = []"
| "setNodePort n (p # ps) = (if spt_name p = portName then p\<lparr>spt_nodePort := n\<rparr> # ps else p # setNodePort n ps)"

definition syncService :: "cn_set \<Rightarrow> service \<Rightarrow> service" where
  "syncService cn svc =
     (let sp = cno_spec cn;
          f = the (gmake (vs_annos svc));
          f1 = (case cns_serviceAnnos sp of None \<Rightarrow> f | Some g \<Rightarrow> f ++ g)
      in svc\<lparr>vs_type := cns_serviceType sp,
             vs_ports := (case cns_nodePort sp of None \<Rightarrow> vs_ports svc | Some n \<Rightarrow> setNodePort n (vs_ports svc)),
             vs_annos := Some (promAnnos (PromDiscoveredByService (cns_pod sp)) f1)\<rparr>)"

section \<open>The metric service\<close>

definition metricLabels :: "cn_set \<Rightarrow> string \<rightharpoonup> string" where
  "metricLabels cn = (map_of (SubResourceLabels (cno_ns cn) (cno_name cn) (cno_kind cn)))(ComponentLabelKey \<mapsto> ''CNSet'')"

definition metricSvcCN :: "cn_set \<Rightarrow> gomap \<Rightarrow> service" where
  "metricSvcCN cn podSelector =
     \<lparr>vs_name = cnMetricSvcName (cno_name cn), vs_ns = cno_ns cn, vs_labels = Some (metricLabels cn), vs_annos = None,
      vs_controller = None, vs_selector = podSelector, vs_type = [], vs_ports = [], vs_headless = False\<rparr>"

text \<open>The closure: a service controlled by another object is left as it is.\<close>

definition mutateMetricSvc :: "'w senv \<Rightarrow> cn_set \<Rightarrow> gomap \<Rightarrow> service \<Rightarrow> err + service" where
  "mutateMetricSvc S cn podSelector svc =
     (if vs_controller svc \<noteq> None \<and> vs_controller svc \<noteq> Some (cno_uid cn) then Inr svc
      else
        let svc1 = svc\<lparr>vs_labels := Some (the (gmake (vs_labels svc)) ++ metricLabels cn), vs_selector := podSelector,
                       vs_type := ServiceTypeClusterIP, vs_ports := [metricPort]\<rparr>
        in thenE (s_setControllerRef S (cno_uid cn) svc1) (\<lambda>svc2.
           Inr (if PromDiscoveredByService (cns_pod (cno_spec cn))
                then svc2\<lparr>vs_annos := Some (promAnnos True (the (gmake (vs_annos svc2))))\<rparr>
                else svc2\<lparr>vs_annos := map_option (promAnnos False) (vs_annos svc2)\<rparr>)))"

definition syncMetricServiceCN :: "'w senv \<Rightarrow> gomap \<Rightarrow> ('w cn_ctx, unit) rm" where
  "syncMetricServiceCN S podSelector =
     bindR getObj (\<lambda>cn.
     bindR (serviceR S (metricSvcCN cn podSelector) (\<lambda>svc. liftE (mutateMetricSvc S cn podSelector svc))) (\<lambda>_. ret ()))"

section \<open>The clone set\<close>

definition GetReusePVC :: "cn_spec \<Rightarrow> bool" where
  "GetReusePVC sp = (case cns_reusePVC sp of None \<Rightarrow> False | Some b \<Rightarrow> b)"

definition cnReadySeconds :: int where "cnReadySeconds = 30"

definition cloneSetForceSpecifiedDelete :: string where
  "cloneSetForceSpecifiedDelete = ''apps.kruise.io/force-specified-delete''"

text \<open>The strategies and hooks \<^verbatim>\<open>syncCloneSet\<close> sets, and the annotation of a pooled set.\<close>

definition syncStrategy :: "cn_spec \<Rightarrow> clone_set \<Rightarrow> clone_set" where
  "syncStrategy sp cs = cs\<lparr>
     ks_updateType := (if isPooling sp then InPlaceOnly else InPlaceIfPossible),
     ks_maxUnavailable := cns_maxUnavailable sp,
     ks_maxSurge := cns_maxSurge sp,
     ks_minReadySeconds := cnReadySeconds,
     ks_disablePVCReuse := \<not> GetReusePVC sp,
     ks_scaleMaxUnavailable := None,
     ks_preDelete := Some \<lparr>hk_finalizers = [CNDrainingFinalizer], hk_markNotReady = True\<rparr>,
     ks_inPlaceUpdate := Some \<lparr>hk_finalizers = [CNDrainingFinalizer], hk_markNotReady = False\<rparr>\<rparr>"

definition poolAnnos :: "cn_spec \<Rightarrow> clone_set \<Rightarrow> clone_set" where
  "poolAnnos sp cs = (if isPooling sp
     then cs\<lparr>ks_annos := Some ((the (gmake (ks_annos cs)))(cloneSetForceSpecifiedDelete \<mapsto> ''y''))\<rparr> else cs)"

text \<open>The pod template after \<^verbatim>\<open>syncPodMeta\<close>.\<close>

definition syncPodsCN :: "tools \<Rightarrow> string \<Rightarrow> cn_spec \<Rightarrow> gomap \<Rightarrow> shared_storage option \<Rightarrow> pod_tpl \<Rightarrow> err + pod_tpl" where
  "syncPodsCN U name sp sel st t =
     thenE (case st of None \<Rightarrow> Inr t | Some x \<Rightarrow> overSpec (syncPodSpecCN U name sp sel x) t) (\<lambda>t2.
     Inr (if isPooling sp \<and> GateEnabled GateInplacePoolRollingUpdate (opVersion U (cns_pod sp))
          then setAnno InPlacePoolRollingAnnoKey ''y'' t2 else t2))"

lemma preparePodsCN_eq: "preparePodsCN U name sp sel st t = thenE (syncPodMetaCN U sp t) (syncPodsCN U name sp sel st)"
  by (simp add: preparePodsCN_def syncPodsCN_def[abs_def])

text \<open>\<^verbatim>\<open>ctx.Dep.Deps.LogSet.Spec.SharedStorage\<close> under the check of \<^verbatim>\<open>ctx.Dep\<close>: the log set itself is not checked.\<close>

definition depStorage :: "log_dep option option \<Rightarrow> (('o, 'w) ctx, shared_storage option) rm" where
  "depStorage dep = (case dep of
      None \<Rightarrow> ret None
    | Some None \<Rightarrow> throw nilPanic
    | Some (Some ld) \<Rightarrow> ret (Some (ld_storage ld)))"

definition withSuffix :: "tools \<Rightarrow> pod_set \<Rightarrow> string \<Rightarrow> pod_tpl \<Rightarrow> pod_tpl" where
  "withSuffix U p sfx t = (if inplaceConfig U p then setAnno ConfigSuffixAnno sfx t else t)"

definition syncCloneSet :: "tools \<Rightarrow> codec \<Rightarrow> 'w senv \<Rightarrow> clone_set \<Rightarrow> ('w cn_ctx, clone_set) rm" where
  "syncCloneSet U T S cs =
     bindR getObj (\<lambda>cn.
     let sp = cno_spec cn in
     bindR (wrapE ''sync pod meta'' (liftE (syncPodMetaCN U sp (ks_template cs)))) (\<lambda>t1.
     bindR (depStorage (cno_dep cn)) (\<lambda>st.
     bindR (liftE (syncPodsCN U (cno_name cn) sp (ks_selector cs) st t1)) (\<lambda>t2.
     bindR (reservedOrdinals U S (cns_pod sp) (cno_dep cn)) (\<lambda>reserved.
     bindR (depLogSet (cno_dep cn)) (\<lambda>ld.
     bindR (liftE (buildCNSetConfigMap U T (cno_name cn) (cno_ns cn) sp ld reserved)) (\<lambda>(cm, sfx).
     let t3 = withSuffix U (cns_pod sp) sfx t2 in
     bindR (SyncConfigMap U (s_l S) (cns_pod sp) cm (pm_spec t3)) (\<lambda>spec.
     ret (poolAnnos sp (syncStrategy sp cs)\<lparr>ks_template := t3\<lparr>pm_spec := spec\<rparr>\<rparr>)))))))))"

section \<open>Observe\<close>

datatype cn_action = CNCreate | CNUpdate clone_set | CNScale clone_set

definition CNStoreStateUnknown :: string where "CNStoreStateUnknown = ''Unknown''"

definition cnStoreOf :: "'w senv \<Rightarrow> pod \<Rightarrow> cn_store" where
  "cnStoreOf S p = \<lparr>cst_uuid = podUUIDBy (s_sha256hex S) p, cst_pod = pod_name p,
     cst_state = (if gstr (pod_annos p) CNStateAnno = [] then CNStoreStateUnknown else gstr (pod_annos p) CNStateAnno)\<rparr>"

text \<open>A paused set: only what can change without replacing pods is taken from the desired clone set.\<close>

definition inplaceMutated :: "clone_set \<Rightarrow> clone_set \<Rightarrow> clone_set" where
  "inplaceMutated origin cs = origin\<lparr>
     ks_podsToDelete := ks_podsToDelete cs, ks_disablePVCReuse := ks_disablePVCReuse cs, ks_scaleMaxUnavailable := ks_scaleMaxUnavailable cs,
     ks_updateType := ks_updateType cs, ks_maxUnavailable := ks_maxUnavailable cs, ks_maxSurge := ks_maxSurge cs,
     ks_preDelete := ks_preDelete cs, ks_inPlaceUpdate := ks_inPlaceUpdate cs,
     ks_template := (ks_template origin)\<lparr>pm_labels := pm_labels (ks_template cs), pm_annos := pm_annos (ks_template cs)\<rparr>,
     ks_labels := ks_labels cs, ks_annos := ks_annos cs\<rparr>"

definition pendingUpdate :: "cn_spec \<Rightarrow> clone_set \<Rightarrow> clone_set \<Rightarrow> clone_set option" where
  "pendingUpdate sp origin cs =
     (if semCloneSet origin = semCloneSet cs then None
      else if \<not> cns_pauseUpdate sp then Some cs
      else if semCloneSet (inplaceMutated origin cs) = semCloneSet origin then None
      else Some (inplaceMutated origin cs))"

definition setCNReady :: "'w senv \<Rightarrow> bool \<Rightarrow> ('w cn_ctx, unit) rm" where
  "setCNReady S ready =
     bindR getObj (\<lambda>cn.
     bindR (SetCondition S (cno_conditions cn)
       (if ready then newCondition ConditionTypeReady ConditionTrue [] ''cn stores ready''
        else newCondition ConditionTypeReady ConditionFalse ReasonNoEnoughReadyStores ''cn stores not ready'')) (\<lambda>conds.
     modObj (\<lambda>cn. cn\<lparr>cno_conditions := conds\<rparr>)))"

definition bucketMark :: "tools \<Rightarrow> cn_set \<Rightarrow> err + string" where
  "bucketMark U cn = MakeHashFinalizer U BucketCNFinalizerPrefix (cno_ns cn) (cno_name cn)"

text \<open>The status of the object from the clone set \<open>cs\<close> and the listed pods.\<close>

definition syncCNStatus :: "'w senv \<Rightarrow> clone_set \<Rightarrow> ('w cn_ctx, unit) rm" where
  "syncCNStatus S cs =
     bindR getObj (\<lambda>cn.
     bindR (wrapE ''list cn pods'' (callW (api_list (l_pods (s_l S)) (cno_ns cn)
       (MatchingLabels (SubResourceLabels (cno_ns cn) (cno_name cn) (cno_kind cn)))))) (\<lambda>pods.
     bindR (modObj (\<lambda>cn. cn\<lparr>cno_stores := map (cnStoreOf S) pods, cno_statusReplicas := ks_statusReplicas cs,
       cno_statusReady := ks_statusReady cs, cno_statusSelector := ks_statusSelector cs\<rparr>)) (\<lambda>_.
     setCNReady S (ks_statusReady cs \<ge> pd_replicas (cns_pod (cno_spec cn))))))"

text \<open>The end of \<^verbatim>\<open>Observe\<close>, for a clone set with nothing to update.\<close>

definition finishCN :: "tools \<Rightarrow> 'w senv \<Rightarrow> service \<Rightarrow> clone_set \<Rightarrow> ('w cn_ctx, cn_action option) rm" where
  "finishCN U S svc cs =
     bindR (syncCNStatus S cs) (\<lambda>_.
     bindR getObj (\<lambda>cn.
     let sp = cno_spec cn in
     bindR (if ks_statusReady cs > 0
            then withBucket S (cno_depLog cn) (\<lambda>ns name. wrapE ''set bucket ever running ann'' (SyncBucketEverRunningAnn (s_l S) ns name))
            else ret ()) (\<lambda>_.
     bindR (orPanic (ks_replicas cs)) (\<lambda>replicas.
     if pd_replicas (cns_pod sp) \<noteq> replicas \<or> cns_podsToDelete sp \<noteq> ks_podsToDelete cs then ret (Some (CNScale cs))
     else
       bindR (case cns_cacheVolume sp of
           None \<Rightarrow> ret ()
         | Some v \<Rightarrow> wrapE ''sync volume size'' (SyncCloneSetVolumeSize U S (cno_ns cn) (cno_name cn) (cno_kind cn) (vc_size v) cs)) (\<lambda>_.
       if s_isReady S (cno_conditions cn) then
         bindR (modObj (\<lambda>cn. cn\<lparr>cno_host := vs_name svc @ ''.'' @ vs_ns svc, cno_port := CNSQLPort\<rparr>)) (\<lambda>_.
         if ks_statusUpdatedReady cs \<ge> pd_replicas (cns_pod sp) then ret None
         else ErrReSync ''cnset is not ready or synced'' (10 * second))
       else ErrReSync ''cnset is not ready or synced'' (10 * second))))))"

text \<open>\<^verbatim>\<open>Observe\<close> once the clone set was found.\<close>

definition observeFound :: "tools \<Rightarrow> codec \<Rightarrow> 'w senv \<Rightarrow> clone_set \<Rightarrow> ('w cn_ctx, cn_action option) rm" where
  "observeFound U T S cs =
     bindR getObj (\<lambda>cn.
     bindR (withBucket S (cno_depLog cn) (\<lambda>ns name.
       bindR (liftE (bucketMark U cn)) (\<lambda>f. wrapE ''add bucket finalizer'' (AddBucketFinalizer (s_l S) ns name f)))) (\<lambda>_.
     bindR (wrapE ''sync service'' (serviceR S (buildSvcCN cn) (\<lambda>svc. ret (syncService cn svc)))) (\<lambda>svc.
     bindR (wrapE ''sync metric service'' (syncMetricServiceCN S (pm_labels (ks_template cs)))) (\<lambda>_.
     bindR (syncCloneSet U T S cs) (\<lambda>desired.
     bindR (wrapE ''dry run update cnset'' (callW (s_dryRunCloneSet S desired))) (\<lambda>cs'.
     case pendingUpdate (cno_spec cn) cs cs' of
       Some upd \<Rightarrow> ret (Some (CNUpdate upd))
     | None \<Rightarrow> finishCN U S svc cs'))))))"

definition CNObserve :: "tools \<Rightarrow> codec \<Rightarrow> 'w senv \<Rightarrow> ('w cn_ctx, cn_action option) rm" where
  "CNObserve U T S =
     bindR getObj (\<lambda>cn.
     bindR (wrapE ''get cn clonset'' (findR (api_get (s_clonesets S) (cno_ns cn, cnResourceName (cno_name cn))))) (\<lambda>found.
     case found of
       None \<Rightarrow> ret (Some CNCreate)
     | Some cs \<Rightarrow> observeFound U T S cs))"

section \<open>The actions\<close>

definition ScaleCN :: "'w senv \<Rightarrow> clone_set \<Rightarrow> ('w cn_ctx, unit) rm" where
  "ScaleCN S cs = bindR getObj (\<lambda>cn. bindR (callW (api_patch (s_clonesets S) cs (scaleSet cn cs))) (\<lambda>_. ret ()))"

definition UpdateCN :: "'w senv \<Rightarrow> clone_set \<Rightarrow> ('w cn_ctx, unit) rm" where
  "UpdateCN S cs = bindR (callW (api_update (s_clonesets S) cs)) (\<lambda>_. ret ())"

definition CreateCN :: "tools \<Rightarrow> codec \<Rightarrow> 'w senv \<Rightarrow> ('w cn_ctx, unit) rm" where
  "CreateCN U T S =
     bindR getObj (\<lambda>cn.
     let hSvc = buildHeadlessSvcCN cn; svc = buildSvcCN cn in
     bindR (wrapE ''sync clone set'' (syncCloneSet U T S (scaleSet cn (buildCNSet cn hSvc)))) (\<lambda>cs.
     bindR (createAll
       [bindR (callW (api_create (s_svcs S) hSvc)) (\<lambda>_. ret ()),
        bindR (callW (api_create (s_svcs S) svc)) (\<lambda>_. ret ()),
        bindR (callW (api_create (s_clonesets S) (syncPersistentVolumeClaimCN cn cs))) (\<lambda>_. ret ())]) (\<lambda>errs.
     if errs = [] then ret () else throw (wrapPrefix ''create cn service'' (multierr errs)))))"

text \<open>The framework runs the action that \<^verbatim>\<open>Observe\<close> returned.\<close>

definition actCN :: "tools \<Rightarrow> codec \<Rightarrow> 'w senv \<Rightarrow> cn_action option \<Rightarrow> ('w cn_ctx, unit) rm" where
  "actCN U T S act = (case act of
       None \<Rightarrow> ret ()
     | Some CNCreate \<Rightarrow> CreateCN U T S
     | Some (CNUpdate cs) \<Rightarrow> UpdateCN S cs
     | Some (CNScale cs) \<Rightarrow> ScaleCN S cs)"

definition ReconcileCN :: "tools \<Rightarrow> codec \<Rightarrow> 'w senv \<Rightarrow> ('w cn_ctx, unit) rm" where
  "ReconcileCN U T S = bindR (CNObserve U T S) (actCN U T S)"

section \<open>Finalize\<close>

definition GetTerminationPolicy :: "cn_spec \<Rightarrow> string" where
  "GetTerminationPolicy sp = (case cns_termination sp of None \<Rightarrow> CNSetTerminationPolicyDelete | Some p \<Rightarrow> p)"

text \<open>The clone set is looked up under the name of the CN set itself.\<close>

definition waitAllCNDrained :: "'w senv \<Rightarrow> ('w cn_ctx, bool) rm" where
  "waitAllCNDrained S =
     bindR getObj (\<lambda>cn.
     bindR (attempt (callW (api_get (s_clonesets S) (cno_ns cn, cno_name cn)))) (\<lambda>r. case r of
       Inl e \<Rightarrow> if IsNotFound e then ret True else throw (wrapPrefix ''error get cloneset'' e)
     | Inr cs \<Rightarrow>
         bindR (wrapE ''error scale cloneset to 0'' (callW (api_patch (s_clonesets S) cs (cs\<lparr>ks_replicas := Some 0\<rparr>)))) (\<lambda>cs'.
         ret (\<not> ks_statusReplicas cs' > 0))))"

text \<open>An object to delete has only a name and a namespace.\<close>

definition cloneSetRef :: "string \<Rightarrow> string \<Rightarrow> clone_set" where
  "cloneSetRef ns name = (CloneSetTemplate ns [] [] name)\<lparr>ks_labels := None, ks_annos := None, ks_updateType := [],
     ks_selector := None, ks_template := emptyTpl\<rparr>"

definition svcRef :: "string \<Rightarrow> string \<Rightarrow> service" where
  "svcRef ns name = \<lparr>vs_name = name, vs_ns = ns, vs_labels = None, vs_annos = None, vs_controller = None, vs_selector = None,
     vs_type = [], vs_ports = [], vs_headless = False\<rparr>"

definition releaseCN :: "tools \<Rightarrow> 'w senv \<Rightarrow> cn_set \<Rightarrow> ('w cn_ctx, unit) rm" where
  "releaseCN U S cn =
     withBucket S (cno_depLog cn) (\<lambda>ns name. bindR (liftE (bucketMark U cn)) (\<lambda>f. RemoveBucketFinalizer (s_l S) ns name f))"

definition deleteOwnedCN :: "'w senv \<Rightarrow> cn_set \<Rightarrow> ('w cn_ctx, unit) rm list" where
  "deleteOwnedCN S cn =
     [callW (api_delete (s_clonesets S) (cloneSetRef (cno_ns cn) (cnResourceName (cno_name cn)))),
      callW (api_delete (s_svcs S) (svcRef (cno_ns cn) (cnResourceName (cno_name cn)))),
      callW (api_delete (s_svcs S) (svcRef (cno_ns cn) (cnMetricSvcName (cno_name cn))))]"

definition existOwnedCN :: "'w senv \<Rightarrow> cn_set \<Rightarrow> ('w cn_ctx, bool) rm list" where
  "existOwnedCN S cn =
     [existsR (api_get (s_clonesets S) (cno_ns cn, cnResourceName (cno_name cn))),
      existsR (api_get (s_svcs S) (cno_ns cn, cnResourceName (cno_name cn))),
      existsR (api_get (s_svcs S) (cno_ns cn, cnMetricSvcName (cno_name cn)))]"

definition CNFinalize :: "tools \<Rightarrow> 'w senv \<Rightarrow> ('w cn_ctx, bool) rm" where
  "CNFinalize U S =
     bindR getObj (\<lambda>cn.
     bindR (if GetTerminationPolicy (cno_spec cn) = CNSetTerminationPolicyDrain then waitAllCNDrained S else ret True) (\<lambda>drained.
     if drained then finalizeOwned (deleteOwnedCN S cn) (existOwnedCN S cn) (releaseCN U S cn)
     else ret False))"

section \<open>Watching log sets\<close>

definition requestsForLogSetStatefulSetCN :: "err + cn_set list \<Rightarrow> watched \<Rightarrow> obj_key list" where
  "requestsForLogSetStatefulSetCN = requestsForLogSetSts cno_depLog (\<lambda>cn. (cno_ns cn, cno_name cn))"

section \<open>The finalizer keeps the bucket until the set is gone\<close>

definition absentCN :: "'w senv \<Rightarrow> cn_set \<Rightarrow> bool list" where
  "absentCN S cn =
     [absent (api_get (s_clonesets S)) (cno_ns cn, cnResourceName (cno_name cn)),
      absent (api_get (s_svcs S)) (cno_ns cn, cnResourceName (cno_name cn)),
      absent (api_get (s_svcs S)) (cno_ns cn, cnMetricSvcName (cno_name cn))]"

fun isDelCN :: "cn_set \<Rightarrow> event \<Rightarrow> bool" where
  "isDelCN cn (CloneSetW (WDelete c)) = (c = cloneSetRef (cno_ns cn) (cnResourceName (cno_name cn)))"
| "isDelCN cn (SvcW (WDelete v)) = (v = svcRef (cno_ns cn) (cnResourceName (cno_name cn)) \<or> v = svcRef (cno_ns cn) (cnMetricSvcName (cno_name cn)))"
| "isDelCN cn _ = False"

fun isRelCN :: "tools \<Rightarrow> cn_set \<Rightarrow> event \<Rightarrow> bool" where
  "isRelCN U cn (BucketW (WUpdate b)) = (\<exists>f b0. bucketMark U cn = Inr f \<and> b = removeBucketFinalizer f b0)"
| "isRelCN U cn _ = False"

fun isDrainCN :: "cn_set \<Rightarrow> event \<Rightarrow> bool" where
  "isDrainCN cn (CloneSetW (WPatch c c')) = (GetTerminationPolicy (cno_spec cn) = CNSetTerminationPolicyDrain \<and> c' = c\<lparr>ks_replicas := Some 0\<rparr>)"
| "isDrainCN cn _ = False"

lemma cn_dels: "d \<in> set (deleteOwnedCN (loggedS S) cn) \<Longrightarrow> onlySends P (isDelCN cn) d"
  by (auto simp: deleteOwnedCN_def intro!: onlySends_callW_write)

lemma cn_checks:
  assumes "(m, A) \<in> set (zip (existOwnedCN (loggedS S) cn) (absentCN S cn))"
  shows "onlySends P ok m" and "m s = (Inr False, s') \<Longrightarrow> A"
  using assms by (auto simp: existOwnedCN_def absentCN_def intro!: existsR_sends dest!: existsR_absent)

lemma releaseCN_sends: "onlySends P (isRelCN U cn) (releaseCN U (loggedS S) cn)"
  unfolding releaseCN_def by (rule onlySends_bind_liftE sendsR | simp only: send_simps | auto)+

interpretation cnOwned: owned_objects "deleteOwnedCN (loggedS S) cn" "zip (existOwnedCN (loggedS S) cn) (absentCN S cn)"
    "releaseCN U (loggedS S) cn" "isDelCN cn" "isRelCN U cn" for U S cn
  by unfold_locales (auto intro: cn_dels cn_checks releaseCN_sends)

lemma existOwnedCN_zip: "map fst (zip (existOwnedCN S cn) (absentCN S' cn)) = existOwnedCN S cn"
  by (simp add: existOwnedCN_def absentCN_def)

lemma absentCN_zip: "list_all snd (zip (existOwnedCN S' cn) (absentCN S cn)) \<longleftrightarrow> list_all (\<lambda>b. b) (absentCN S cn)"
  by (simp add: existOwnedCN_def absentCN_def)

lemma waitAllCNDrained_sends:
  assumes "GetTerminationPolicy (cno_spec cn) = CNSetTerminationPolicyDrain"
  shows "onlySends (\<lambda>x. x = cn) (isDrainCN cn) (waitAllCNDrained (loggedS S))"
  unfolding waitAllCNDrained_def using assms by (intro sendsR) (auto intro!: sendsR)

text \<open>C27 (\<^verbatim>\<open>Finalize\<close> of the CN set): the deletions and the release are in order. The first writes scale a clone set to zero
  under the drain policy; then only the clone set, the service and the metric service are deleted. The finalizer reports
  completion, and takes its mark off the bucket claim, only when the server has answered for all three that they are gone.\<close>

theorem cn_finalize_order:
  fixes s :: "'w lworld cn_ctx"
  assumes run: "CNFinalize U (loggedS S) s = (r, s')"
  shows "(r = Inr True \<longrightarrow> list_all (\<lambda>b. b) (absentCN S (Obj s))) \<and>
    (\<exists>rs ds ps. logOf s' = rs @ ds @ ps @ logOf s \<and> list_all (isDrainCN (Obj s)) ps \<and> list_all (isDelCN (Obj s)) ds \<and>
       (rs = [] \<or> list_all (\<lambda>b. b) (absentCN S (Obj s)) \<and> list_all (isRelCN U (Obj s)) rs))"
proof -
  let ?cn = "Obj s"
  let ?wait = "if GetTerminationPolicy (cno_spec ?cn) = CNSetTerminationPolicyDrain then waitAllCNDrained (loggedS S) else ret True"
  have wait: "onlySends (\<lambda>x. x = ?cn) (isDrainCN ?cn) ?wait"
    using waitAllCNDrained_sends[of ?cn S] by (auto intro: onlySends_ret)
  have "bindR ?wait (\<lambda>drained. if drained then finalizeOwned (deleteOwnedCN (loggedS S) ?cn) (existOwnedCN (loggedS S) ?cn)
      (releaseCN U (loggedS S) ?cn) else ret False) s = (r, s')"
    using run unfolding CNFinalize_def bindR_getObj .
  then show ?thesis
  proof (cases rule: bindR_cases)
    case (err e)
    obtain ps where "logOf s' = [] @ [] @ ps @ logOf s" "list_all (isDrainCN ?cn) ps"
      using onlySends_log[OF wait _ err(1)] by auto
    with err(2) show ?thesis by (blast intro: list.pred_inject)
  next
    case (ok drained s1)
    obtain ps where ps: "logOf s1 = ps @ logOf s" "list_all (isDrainCN ?cn) ps"
      using onlySends_log[OF wait _ ok(1)] by auto
    show ?thesis
    proof (cases drained)
      case False
      with ok(2) ps have "logOf s' = [] @ [] @ ps @ logOf s" and "r \<noteq> Inr True" by (auto simp: ret_def)
      with ps show ?thesis by (blast intro: list.pred_inject)
    next
      case True
      then have "finalizeOwned (deleteOwnedCN (loggedS S) ?cn) (map fst (zip (existOwnedCN (loggedS S) ?cn) (absentCN S ?cn)))
          (releaseCN U (loggedS S) ?cn) s1 = (r, s')" using ok(2) by (simp add: existOwnedCN_zip)
      from cnOwned.finalized[OF this] show ?thesis unfolding absentCN_zip ps(1) using ps(2) by blast
    qed
  qed
qed

text \<open>The clone set the wait looks for is not the one the controller made.\<close>

lemma wait_misses:
  fixes s :: "'w lworld cn_ctx"
  assumes "api_get (s_clonesets S) (cno_ns (Obj s), cno_name (Obj s)) (fst (world s)) = (Inl e, w')" and "IsNotFound e"
  shows "waitAllCNDrained (loggedS S) s = (Inr True, s\<lparr>world := (w', logOf s)\<rparr>)"
  using assms by (auto simp: waitAllCNDrained_def monad_simps readL_def IsNotFound_def isPanic_def)

lemma ignoreNotFound_write:
  assumes "ignoreNotFoundR (callW (writeL e g)) s = (r, s1)"
  shows "logOf s1 = e # logOf s"
proof -
  obtain y w' where "g (fst (world s)) = (y, w')" by fastforce
  with assms show ?thesis
    by (cases y) (auto simp: ignoreNotFoundR_def attempt_def callW_def writeL_def ret_def throw_def bindR_def split: if_splits)
qed

lemma first_write:
  assumes f: "\<And>x. onlySends (\<lambda>_. True) ok (f x)" and run: "bindR (ignoreNotFoundR (callW (writeL e g))) f s = (r, s')"
  shows "\<exists>es. logOf s' = es @ e # logOf s \<and> list_all ok es"
  using run
proof (cases rule: bindR_cases)
  case (err d)
  then have "logOf s' = e # logOf s" by (auto dest: ignoreNotFound_write)
  then show ?thesis by (intro exI[of _ "[]"]) simp
next
  case (ok x s1)
  then have "logOf s1 = e # logOf s" by (auto dest: ignoreNotFound_write)
  with onlySends_log[OF f _ ok(2)] show ?thesis by auto
qed

text \<open>C28 (\<^verbatim>\<open>Finalize\<close> of the CN set): the drain policy does not drain. The clone set of a CN set is named with the suffix
  \<open>-cn\<close>, but the wait for draining looks up the plain name: when no clone set has that, the first write of the finalizer
  deletes the clone set, however many pods it runs, and no write of it scales a clone set to zero.\<close>

theorem drain_wait_skipped:
  fixes s :: "'w lworld cn_ctx"
  assumes policy: "GetTerminationPolicy (cno_spec (Obj s)) = CNSetTerminationPolicyDrain"
    and miss: "api_get (s_clonesets S) (cno_ns (Obj s), cno_name (Obj s)) (fst (world s)) = (Inl e, w')" "IsNotFound e"
    and run: "CNFinalize U (loggedS S) s = (r, s')"
  shows "\<exists>es. logOf s' = es @ CloneSetW (WDelete (cloneSetRef (cno_ns (Obj s)) (cnResourceName (cno_name (Obj s))))) # logOf s \<and>
    list_all (\<lambda>e. isDelCN (Obj s) e \<or> isRelCN U (Obj s) e) es"
proof -
  let ?cn = "Obj s" let ?s = "s\<lparr>world := (w', logOf s)\<rparr>"
  let ?ok = "\<lambda>e. isDelCN ?cn e \<or> isRelCN U ?cn e"
  have "finalizeOwned (deleteOwnedCN (loggedS S) ?cn) (existOwnedCN (loggedS S) ?cn) (releaseCN U (loggedS S) ?cn) ?s = (r, s')"
    using run policy wait_misses[OF miss] unfolding CNFinalize_def bindR_getObj by (simp add: bindR_def)
  then have fin: "bindR (ignoreNotFoundR (callW (writeL (CloneSetW (WDelete (cloneSetRef (cno_ns ?cn) (cnResourceName (cno_name ?cn)))))
      (api_delete (s_clonesets S) (cloneSetRef (cno_ns ?cn) (cnResourceName (cno_name ?cn))))))) (\<lambda>_.
      bindR (forR ignoreNotFoundR (tl (deleteOwnedCN (loggedS S) ?cn))) (\<lambda>_.
      bindR (noneExist (existOwnedCN (loggedS S) ?cn)) (\<lambda>gone. if gone then bindR (releaseCN U (loggedS S) ?cn) (\<lambda>_. ret True) else ret False))) ?s = (r, s')"
    by (simp add: finalizeOwned_def deleteOwnedCN_def bindR_assoc)
  have dels: "onlySends (\<lambda>_. True) ?ok (forR ignoreNotFoundR (tl (deleteOwnedCN (loggedS S) ?cn)))"
    by (intro onlySends_forR ignoreNotFoundR_sends onlySends_mono[OF cn_dels[of _ S]]) (auto simp: deleteOwnedCN_def)
  have gone: "onlySends (\<lambda>_. True) ?ok (noneExist (existOwnedCN (loggedS S) ?cn))"
    by (intro noneExist_sends) (auto simp: existOwnedCN_def intro!: existsR_sends)
  have rel: "onlySends (\<lambda>_. True) ?ok (releaseCN U (loggedS S) ?cn)"
    by (rule onlySends_mono[OF releaseCN_sends]) simp
  have "onlySends (\<lambda>_. True) ?ok (bindR (forR ignoreNotFoundR (tl (deleteOwnedCN (loggedS S) ?cn))) (\<lambda>_.
      bindR (noneExist (existOwnedCN (loggedS S) ?cn)) (\<lambda>gone. if gone then bindR (releaseCN U (loggedS S) ?cn) (\<lambda>_. ret True) else ret False)))"
    by (rule onlySends_bind dels gone rel onlySends_if onlySends_ret)+
  from first_write[OF this fin] show ?thesis by simp
qed

section \<open>What syncing a clone set does\<close>

text \<open>The name of the config map a pod template ends up with, and the clone set \<^verbatim>\<open>syncCloneSet\<close> builds from the object and
  the reserved ordinals it read.\<close>

definition configMapUsed :: "tools \<Rightarrow> pod_set \<Rightarrow> config_map \<Rightarrow> err + string" where
  "configMapUsed U p cm = (if inplaceConfig U p then Inr (cm_name cm) else thenE (addConfigMapDigest U cm) (\<lambda>c. Inr (cm_name c)))"

definition desiredCloneSet :: "tools \<Rightarrow> codec \<Rightarrow> cn_set \<Rightarrow> log_dep \<Rightarrow> int list \<Rightarrow> clone_set \<Rightarrow> err + clone_set" where
  "desiredCloneSet U T cn ld reserved cs =
     (let sp = cno_spec cn in
      thenE (buildCNSetConfigMap U T (cno_name cn) (cno_ns cn) sp ld reserved) (\<lambda>(cm, sfx).
      thenE (configMapUsed U (cns_pod sp) cm) (\<lambda>n.
      thenE (renderCN U (cno_name cn) sp (ks_selector cs) (Some (ld_storage ld)) sfx n (ks_template cs)) (\<lambda>t.
      Inr (poolAnnos sp (syncStrategy sp cs)\<lparr>ks_template := t\<rparr>)))))"

lemma SyncConfigMap_result:
  "SyncConfigMap U L p cm spec s = (Inr spec', s') \<Longrightarrow>
     Obj s' = Obj s \<and> (\<exists>n. configMapUsed U p cm = Inr n \<and> setConfigVolume U n spec = Inr spec')"
  unfolding SyncConfigMap_def
  by (auto simp: configMapUsed_def ensureConfigMap_def ensureConfigMapLegacy_def thenE_def liftE_def callW_def ret_def throw_def
      attempt_def elim!: bindR_InrE split: if_splits sum.splits prod.splits)

lemma reads_keep_obj:
  "reservedOrdinals U S p dep s = (Inr x, s') \<Longrightarrow> Obj s' = Obj s"
  "depStorage dep s = (Inr st, s') \<Longrightarrow> s' = s \<and> (dep = None \<and> st = None \<or> (\<exists>ld. dep = Some (Some ld) \<and> st = Some (ld_storage ld)))"
  "depLogSet dep s = (Inr ld, s') \<Longrightarrow> s' = s \<and> dep = Some (Some ld)"
  by (auto simp: reservedOrdinals_def fetchLogSetReservedOrdinals_def depStorage_def depLogSet_def ret_def throw_def callW_def
      elim!: bindR_InrE split: if_splits option.splits prod.splits)

lemma liftE_runs: "liftE x s = (Inr y, s') \<longleftrightarrow> x = Inr y \<and> s' = s"
  by (cases x) (auto simp: liftE_def ret_def throw_def)

lemma syncCloneSet_result:
  assumes run: "syncCloneSet U T S cs s = (Inr cs', s')"
  shows "Obj s' = Obj s \<and> (\<exists>ld reserved s1. cno_dep (Obj s) = Some (Some ld) \<and>
     reservedOrdinals U S (cns_pod (cno_spec (Obj s))) (cno_dep (Obj s)) s = (Inr reserved, s1) \<and>
     desiredCloneSet U T (Obj s) ld reserved cs = Inr cs')"
proof -
  let ?cn = "Obj s" let ?sp = "cno_spec ?cn"
  from run obtain t1 t2 reserved s1 ld cm sfx spec where
      t1: "syncPodMetaCN U ?sp (ks_template cs) = Inr t1" and ld: "cno_dep ?cn = Some (Some ld)"
      and t2: "syncPodsCN U (cno_name ?cn) ?sp (ks_selector cs) (Some (ld_storage ld)) t1 = Inr t2"
      and res: "reservedOrdinals U S (cns_pod ?sp) (Some (Some ld)) s = (Inr reserved, s1)"
      and cm: "buildCNSetConfigMap U T (cno_name ?cn) (cno_ns ?cn) ?sp ld reserved = Inr (cm, sfx)"
      and spec: "SyncConfigMap U (s_l S) (cns_pod ?sp) cm (pm_spec (withSuffix U (cns_pod ?sp) sfx t2)) s1 = (Inr spec, s')"
      and cs': "cs' = poolAnnos ?sp (syncStrategy ?sp cs)\<lparr>ks_template := (withSuffix U (cns_pod ?sp) sfx t2)\<lparr>pm_spec := spec\<rparr>\<rparr>"
    unfolding syncCloneSet_def bindR_getObj Let_def
    by (auto simp: liftE_runs ret_def dest!: reads_keep_obj(2,3) elim!: bindR_InrE)
  from SyncConfigMap_result[OF spec] obtain n where n: "configMapUsed U (cns_pod ?sp) cm = Inr n"
      "setConfigVolume U n (pm_spec (withSuffix U (cns_pod ?sp) sfx t2)) = Inr spec" by blast
  have "renderCN U (cno_name ?cn) ?sp (ks_selector cs) (Some (ld_storage ld)) sfx n (ks_template cs) =
      Inr ((withSuffix U (cns_pod ?sp) sfx t2)\<lparr>pm_spec := spec\<rparr>)"
    using t1 t2 n(2) by (simp add: renderCN_def preparePodsCN_eq configurePods_def overSpec_def withSuffix_def thenE_def)
  then have "desiredCloneSet U T ?cn ld reserved cs = Inr cs'"
    using cm n(1) by (simp add: desiredCloneSet_def Let_def thenE_def cs')
  moreover have "Obj s' = ?cn" using SyncConfigMap_result[OF spec] reads_keep_obj(1)[OF res] by simp
  ultimately show ?thesis using res ld by auto
qed

lemma strategy_simps [simp]:
  "ks_selector (poolAnnos sp (syncStrategy sp cs)) = ks_selector cs"
  "ks_template (poolAnnos sp (syncStrategy sp cs)) = ks_template cs"
  "ks_preDelete (poolAnnos sp (syncStrategy sp cs)) = Some \<lparr>hk_finalizers = [CNDrainingFinalizer], hk_markNotReady = True\<rparr>"
  "ks_inPlaceUpdate (poolAnnos sp (syncStrategy sp cs)) = Some \<lparr>hk_finalizers = [CNDrainingFinalizer], hk_markNotReady = False\<rparr>"
  by (simp_all add: poolAnnos_def syncStrategy_def)

lemma strategy_again:
  "poolAnnos sp (syncStrategy sp (poolAnnos sp (syncStrategy sp cs)\<lparr>ks_template := t\<rparr>)) = poolAnnos sp (syncStrategy sp cs)\<lparr>ks_template := t\<rparr>"
  by (simp add: poolAnnos_def syncStrategy_def gmake_def split: option.splits)

lemma desiredCloneSet_settles:
  assumes laws: "toolLaws U"
  shows "settles (desiredCloneSet U T cn ld reserved)"
  unfolding settles_def
proof (intro allI impI)
  fix cs cs' assume "desiredCloneSet U T cn ld reserved cs = Inr cs'"
  then obtain cm sfx n t where cm: "buildCNSetConfigMap U T (cno_name cn) (cno_ns cn) (cno_spec cn) ld reserved = Inr (cm, sfx)"
      and n: "configMapUsed U (cns_pod (cno_spec cn)) cm = Inr n"
      and t: "renderCN U (cno_name cn) (cno_spec cn) (ks_selector cs) (Some (ld_storage ld)) sfx n (ks_template cs) = Inr t"
      and cs': "cs' = poolAnnos (cno_spec cn) (syncStrategy (cno_spec cn) cs)\<lparr>ks_template := t\<rparr>"
    by (auto simp: desiredCloneSet_def thenE_Inr_iff Let_def)
  have "settles (renderCN U (cno_name cn) (cno_spec cn) (ks_selector cs) (Some (ld_storage ld)) sfx n)"
    using renderings_settle[OF laws] by blast
  then have "renderCN U (cno_name cn) (cno_spec cn) (ks_selector cs) (Some (ld_storage ld)) sfx n t = Inr t"
    using t unfolding settles_def by blast
  with cm n show "desiredCloneSet U T cn ld reserved cs' = Inr cs'"
    by (simp add: desiredCloneSet_def Let_def thenE_def cs' strategy_again)
qed

text \<open>C24 (\<^verbatim>\<open>syncCloneSet\<close>): what the sync of a clone set asks for is a function of the CN set, its log set, the reserved
  ordinals of the log set and the clone set, and it is settled: applied to its own result it asks for nothing new, so a
  server that stores what it is sent ends the updates.\<close>

theorem cn_sync_settles:
  assumes laws: "toolLaws U" and run: "syncCloneSet U T S cs s = (Inr cs', s')"
  shows "\<exists>ld reserved s1. cno_dep (Obj s) = Some (Some ld) \<and>
    reservedOrdinals U S (cns_pod (cno_spec (Obj s))) (cno_dep (Obj s)) s = (Inr reserved, s1) \<and>
    desiredCloneSet U T (Obj s) ld reserved cs = Inr cs' \<and> desiredCloneSet U T (Obj s) ld reserved cs' = Inr cs'"
  using syncCloneSet_result[OF run] desiredCloneSet_settles[OF laws] unfolding settles_def by blast

section \<open>What a reconciliation sends\<close>

lemma depStorage_sends [sendsR]: "onlySends P ok (depStorage dep)"
  unfolding depStorage_def by (rule sendsR)+

lemma syncCloneSet_sends [sendsR]: "(\<And>x. ok (ConfigMapW x)) \<Longrightarrow> onlySends P ok (syncCloneSet U T (loggedS S) cs)"
  unfolding syncCloneSet_def Let_def case_prod_unfold by (rule sendsR | simp only: send_simps | assumption)+

lemma syncMetricServiceCN_sends [sendsR]: "(\<And>x y. ok (SvcOwnedW x y)) \<Longrightarrow> onlySends P ok (syncMetricServiceCN (loggedS S) sel)"
  unfolding syncMetricServiceCN_def by (rule sendsR | assumption)+

text \<open>Predicates that status changes keep.\<close>

definition ofSpec :: "cn_set \<Rightarrow> cn_set \<Rightarrow> bool" where
  "ofSpec cn c \<longleftrightarrow> cno_spec c = cno_spec cn \<and> cno_name c = cno_name cn \<and> cno_ns c = cno_ns cn \<and> cno_kind c = cno_kind cn"

lemma syncCNStatus_sends [sendsR]: "onlySends (ofSpec cn) ok (syncCNStatus (loggedS S) cs)"
  unfolding syncCNStatus_def setCNReady_def by (rule sendsR | simp only: send_simps | simp add: ofSpec_def)+

lemma growth_sends:
  assumes pvc: "\<And>c. ok (PvcW c)" and upd: "mayGrow n (ks_claims cs) \<Longrightarrow> ok (CloneSetW (WUpdate (cs\<lparr>ks_claims := grownClaims n (ks_claims cs)\<rparr>)))"
  shows "onlySends P ok (SyncCloneSetVolumeSize U (loggedS S) ns name kind n cs)"
proof (cases "\<exists>c \<in> set (ks_claims cs). isData c \<and> pvc_size c > n")
  case True
  then obtain e where "growTemplates U n (ks_claims cs) = Inl e" using growTemplates_refused by blast
  then show ?thesis by (simp add: SyncCloneSetVolumeSize_def liftE_def bindR_def throw_def onlySends_def)
next
  case False
  then have "growTemplates U n (ks_claims cs) = Inr (mayGrow n (ks_claims cs), grownClaims n (ks_claims cs))"
    by (subst growTemplates_ok) (force simp: mayGrow_def grownClaims_def)+
  moreover have "onlySends P ok (if \<not> mayGrow n (ks_claims cs) then ret () else
      bindR (wrapE ''list pods'' (callW (api_list (l_pods (s_l (loggedS S))) ns (MatchingLabels (SubResourceLabels ns name kind))))) (\<lambda>pods.
      bindR (forR (growPod (loggedS S) ns n) pods) (\<lambda>_. bindR (wrapE ''sync volume size'' (callW (api_update (s_clonesets (loggedS S))
        (cs\<lparr>ks_claims := grownClaims n (ks_claims cs)\<rparr>)))) (\<lambda>_. ret ()))))"
    unfolding growPod_def growClaim_def Let_def
    by (rule sendsR onlySends_forR pvc upd | simp only: send_simps not_not)+
  ultimately show ?thesis by (simp add: SyncCloneSetVolumeSize_def liftE_def bindR_def ret_def)
qed

lemma finishCN_sends:
  assumes "\<And>b. ok (BucketW (WUpdate b))"
    and "\<And>v c. cns_cacheVolume (cno_spec cn) = Some v \<Longrightarrow> ok (PvcW c)"
    and "\<And>v. cns_cacheVolume (cno_spec cn) = Some v \<Longrightarrow> mayGrow (vc_size v) (ks_claims cs) \<Longrightarrow>
      ok (CloneSetW (WUpdate (cs\<lparr>ks_claims := grownClaims (vc_size v) (ks_claims cs)\<rparr>)))"
  shows "onlySends (ofSpec cn) ok (finishCN U (loggedS S) svc cs)"
  unfolding finishCN_def Let_def
  by (rule sendsR assms(1) growth_sends | simp only: send_simps | use assms(2,3) in \<open>simp add: ofSpec_def\<close>)+

text \<open>Both hooks of the clone set hold a pod back until its store is drained.\<close>

definition drainHooked :: "clone_set \<Rightarrow> bool" where
  "drainHooked cs \<longleftrightarrow> ks_preDelete cs = Some \<lparr>hk_finalizers = [CNDrainingFinalizer], hk_markNotReady = True\<rparr> \<and>
     ks_inPlaceUpdate cs = Some \<lparr>hk_finalizers = [CNDrainingFinalizer], hk_markNotReady = False\<rparr>"

lemma syncCloneSet_hooked: "syncCloneSet U T S cs s = (Inr cs', s') \<Longrightarrow> drainHooked cs'"
  using syncCloneSet_result[of U T S cs s cs' s'] by (auto simp: desiredCloneSet_def Let_def thenE_Inr_iff drainHooked_def)

lemma finishCN_acts: "finishCN U S svc cs s = (Inr act, s') \<Longrightarrow> act = None \<or> act = Some (CNScale cs)"
  unfolding finishCN_def Let_def
  by (auto simp: ret_def throw_def ErrReSync_def elim!: bindR_InrE split: if_splits option.splits)

text \<open>A reconciliation of a set whose clone set is there: what is written to it was answered by a dry run of a clone set
  with the hooks.\<close>

lemma observeFound_sends:
  assumes common: "\<And>b. ok (BucketW (WUpdate b))" "\<And>x y. ok (SvcOwnedW x y)" "\<And>x. ok (ConfigMapW x)" "\<And>c. ok (PvcW c)"
    and found: "\<And>desired cs' w w'. drainHooked desired \<Longrightarrow> s_dryRunCloneSet S desired w = (Inr cs', w') \<Longrightarrow>
      (case pendingUpdate (cno_spec cn) cs cs' of
         Some u \<Rightarrow> ok (CloneSetW (WUpdate u))
       | None \<Rightarrow> (\<forall>r ps. ok (CloneSetW (WPatch cs' (cs'\<lparr>ks_replicas := r, ks_podsToDelete := ps\<rparr>)))) \<and>
           (\<forall>v. cns_cacheVolume (cno_spec cn) = Some v \<longrightarrow> mayGrow (vc_size v) (ks_claims cs') \<longrightarrow>
              ok (CloneSetW (WUpdate (cs'\<lparr>ks_claims := grownClaims (vc_size v) (ks_claims cs')\<rparr>)))))"
  shows "onlySends (ofSpec cn) ok (bindR (observeFound U T (loggedS S) cs) (actCN U T (loggedS S)))"
proof -
  let ?fin = "\<lambda>c svc cs'. bindR (case pendingUpdate (cno_spec c) cs cs' of
      None \<Rightarrow> finishCN U (loggedS S) svc cs' | Some upd \<Rightarrow> ret (Some (CNUpdate upd))) (actCN U T (loggedS S))"
  have last: "onlySends (ofSpec cn) ok (?fin c svc cs')"
    if c: "ofSpec cn c" and hooked: "drainHooked desired" and run: "s_dryRunCloneSet S desired w = (Inr cs', w')" for c svc cs' desired w w'
  proof (cases "pendingUpdate (cno_spec cn) cs cs'")
    case (Some upd)
    with found[OF hooked run] have "ok (CloneSetW (WUpdate upd))" by simp
    with Some c show ?thesis
      by (simp add: ofSpec_def actCN_def UpdateCN_def) (rule sendsR | simp)+
  next
    case None
    note ok = found[OF hooked run, unfolded None option.case]
    have "onlySends (ofSpec cn) ok (bindR (finishCN U (loggedS S) svc cs') (actCN U T (loggedS S)))"
    proof (rule onlySends_bind_run)
      show "onlySends (ofSpec cn) ok (finishCN U (loggedS S) svc cs')" using ok common by (intro finishCN_sends) auto
      fix s act s1 assume "finishCN U (loggedS S) svc cs' s = (Inr act, s1)"
      then consider "act = None" | "act = Some (CNScale cs')" using finishCN_acts by blast
      then show "onlySends (ofSpec cn) ok (actCN U T (loggedS S) act)"
        using ok by cases (auto simp: actCN_def ScaleCN_def scaleSet_def intro!: sendsR)
    qed
    with None c show ?thesis by (simp add: ofSpec_def)
  qed
  have sync: "onlySends (ofSpec cn) ok (bindR (syncCloneSet U T (loggedS S) cs) (\<lambda>desired.
      bindR (wrapE ''dry run update cnset'' (callW (s_dryRunCloneSet (loggedS S) desired))) (?fin c svc)))"
    if c: "ofSpec cn c" for c svc
  proof (rule onlySends_bind_run)
    fix s desired s1 assume "syncCloneSet U T (loggedS S) cs s = (Inr desired, s1)"
    then have hooked: "drainHooked desired" by (rule syncCloneSet_hooked)
    show "onlySends (ofSpec cn) ok (bindR (wrapE ''dry run update cnset'' (callW (s_dryRunCloneSet (loggedS S) desired))) (?fin c svc))"
    proof (rule onlySends_bind_run)
      fix s cs' s1 assume "wrapE ''dry run update cnset'' (callW (s_dryRunCloneSet (loggedS S) desired)) s = (Inr cs', s1)"
      then obtain w' where "s_dryRunCloneSet S desired (fst (world s)) = (Inr cs', w')"
        by (auto simp: callW_def readL_def split: prod.splits)
      with c hooked show "onlySends (ofSpec cn) ok (?fin c svc cs')" by (rule last)
    qed (simp only: send_simps, rule sendsR, rule sendsR)
  qed (rule sendsR common)+
  show ?thesis
    unfolding observeFound_def bindR_assoc
    by (rule sendsR sync common | simp only: send_simps)+
qed

lemma reconcile_found:
  assumes "api_get (s_clonesets S) (cno_ns (Obj s), cnResourceName (cno_name (Obj s))) (fst (world s)) = (Inr cs, w1)"
  shows "ReconcileCN U T (loggedS S) s = bindR (observeFound U T (loggedS S) cs) (actCN U T (loggedS S)) (s\<lparr>world := (w1, logOf s)\<rparr>)"
  using assms by (simp add: ReconcileCN_def CNObserve_def findR_def monad_simps readL_def)

text \<open>What may be written to the clone set \<open>cs\<close> of a paused set with the specification \<open>sp\<close>: an update that keeps the
  specification of the pods, the claims, the selector and the number, and takes the labels and annotations of the template
  from a clone set \<open>cs'\<close>; a patch of the scale alone; or, for a set with a cache volume that grows, the whole clone set \<open>cs'\<close>
  with its claims grown.\<close>

fun pausedEvent :: "cn_spec \<Rightarrow> clone_set \<Rightarrow> event \<Rightarrow> bool" where
  "pausedEvent sp cs (CloneSetW (WUpdate c)) =
     ((\<exists>cs'. c = inplaceMutated cs cs') \<and> pm_spec (ks_template c) = pm_spec (ks_template cs) \<and> ks_claims c = ks_claims cs \<and>
        ks_selector c = ks_selector cs \<and> ks_replicas c = ks_replicas cs \<and> ks_name c = ks_name cs \<and> ks_ns c = ks_ns cs \<or>
      (\<exists>v cs'. cns_cacheVolume sp = Some v \<and> mayGrow (vc_size v) (ks_claims cs') \<and> pendingUpdate sp cs cs' = None \<and>
        c = cs'\<lparr>ks_claims := grownClaims (vc_size v) (ks_claims cs')\<rparr>))"
| "pausedEvent sp cs (CloneSetW (WPatch c c')) = (\<exists>r ps. c' = c\<lparr>ks_replicas := r, ks_podsToDelete := ps\<rparr>)"
| "pausedEvent sp cs (CloneSetW _) = False"
| "pausedEvent sp cs _ = True"

lemma pendingUpdate_paused: "cns_pauseUpdate sp \<Longrightarrow> pendingUpdate sp cs cs' = Some u \<Longrightarrow> u = inplaceMutated cs cs'"
  by (auto simp: pendingUpdate_def split: if_splits)

text \<open>C25 (\<^verbatim>\<open>Observe\<close>, \<^verbatim>\<open>Update\<close>, \<^verbatim>\<open>Scale\<close>): what a reconciliation of a paused set writes to its clone set. Updates keep the
  specification of the pods, the volume claims, the selector and the replicas of the stored clone set, whatever the CN set
  asks for; only the strategies, the hooks and the labels and annotations, those of the pod template included, are the
  desired ones. Patches change the scale alone. The one other write is that of a cache volume that grows: it sends
  the whole desired clone set, pod template included, although the set is paused.\<close>

theorem paused_set_keeps_pods:
  fixes s :: "'w lworld cn_ctx"
  assumes paused: "cns_pauseUpdate (cno_spec (Obj s))"
    and get: "api_get (s_clonesets S) (cno_ns (Obj s), cnResourceName (cno_name (Obj s))) (fst (world s)) = (Inr cs, w1)"
    and run: "ReconcileCN U T (loggedS S) s = (r, s')"
  shows "\<exists>es. logOf s' = es @ logOf s \<and> list_all (pausedEvent (cno_spec (Obj s)) cs) es"
proof -
  have "onlySends (ofSpec (Obj s)) (pausedEvent (cno_spec (Obj s)) cs) (bindR (observeFound U T (loggedS S) cs) (actCN U T (loggedS S)))"
  proof (rule observeFound_sends)
    fix desired cs' :: clone_set and w w' :: 'w
    show "case pendingUpdate (cno_spec (Obj s)) cs cs' of
         Some u \<Rightarrow> pausedEvent (cno_spec (Obj s)) cs (CloneSetW (WUpdate u))
       | None \<Rightarrow> (\<forall>r ps. pausedEvent (cno_spec (Obj s)) cs (CloneSetW (WPatch cs' (cs'\<lparr>ks_replicas := r, ks_podsToDelete := ps\<rparr>)))) \<and>
           (\<forall>v. cns_cacheVolume (cno_spec (Obj s)) = Some v \<longrightarrow> mayGrow (vc_size v) (ks_claims cs') \<longrightarrow>
              pausedEvent (cno_spec (Obj s)) cs (CloneSetW (WUpdate (cs'\<lparr>ks_claims := grownClaims (vc_size v) (ks_claims cs')\<rparr>))))"
    proof (cases "pendingUpdate (cno_spec (Obj s)) cs cs'")
      case None
      then show ?thesis by auto
    next
      case (Some u)
      then have "u = inplaceMutated cs cs'" by (rule pendingUpdate_paused[OF paused])
      with Some show ?thesis by (auto simp: inplaceMutated_def)
    qed
  qed simp_all
  from onlySends_log[OF this, of "s\<lparr>world := (w1, logOf s)\<rparr>"] run show ?thesis
    by (simp add: reconcile_found[OF get] ofSpec_def)
qed

text \<open>The hooks of what is created or updated.\<close>

fun hookedEvent :: "event \<Rightarrow> bool" where
  "hookedEvent (CloneSetW (WCreate c)) = drainHooked c"
| "hookedEvent (CloneSetW (WUpdate c)) = drainHooked c"
| "hookedEvent (CloneSetW (WPatch c c')) = (drainHooked c \<longrightarrow> drainHooked c')"
| "hookedEvent _ = True"

definition dryRunKeepsHooks :: "'w senv \<Rightarrow> bool" where
  "dryRunKeepsHooks S \<longleftrightarrow> (\<forall>c w c' w'. s_dryRunCloneSet S c w = (Inr c', w') \<longrightarrow>
     ks_preDelete c' = ks_preDelete c \<and> ks_inPlaceUpdate c' = ks_inPlaceUpdate c)"

lemma createCN_objects:
  "drainHooked cs \<Longrightarrow> onlySends P hookedEvent (createAll
     [bindR (callW (api_create (s_svcs (loggedS S)) hSvc)) (\<lambda>_. ret ()),
      bindR (callW (api_create (s_svcs (loggedS S)) svc)) (\<lambda>_. ret ()),
      bindR (callW (api_create (s_clonesets (loggedS S)) (syncPersistentVolumeClaimCN cn cs))) (\<lambda>_. ret ())])"
  by (auto intro!: sendsR createAll_sends simp: syncPersistentVolumeClaimCN_def drainHooked_def)

lemma CreateCN_sends: "onlySends P hookedEvent (CreateCN U T (loggedS S))"
  unfolding CreateCN_def Let_def
proof (rule onlySends_getObj, rule onlySends_bind_run)
  fix c cs s s1
  assume "wrapE ''sync clone set'' (syncCloneSet U T (loggedS S) (scaleSet c (buildCNSet c (buildHeadlessSvcCN c)))) s = (Inr cs, s1)"
  then have "drainHooked cs" by (auto dest: syncCloneSet_hooked)
  then show "onlySends P hookedEvent (bindR (createAll
     [bindR (callW (api_create (s_svcs (loggedS S)) (buildHeadlessSvcCN c))) (\<lambda>_. ret ()),
      bindR (callW (api_create (s_svcs (loggedS S)) (buildSvcCN c))) (\<lambda>_. ret ()),
      bindR (callW (api_create (s_clonesets (loggedS S)) (syncPersistentVolumeClaimCN c cs))) (\<lambda>_. ret ())]) (\<lambda>errs.
     if errs = [] then ret () else throw (wrapPrefix ''create cn service'' (multierr errs))))"
    by (intro onlySends_bind[OF createCN_objects] sendsR)
qed (rule sendsR | simp)+

lemma pendingUpdate_hooked: "pendingUpdate sp cs cs' = Some u \<Longrightarrow> drainHooked cs' \<Longrightarrow> drainHooked u"
  by (auto simp: pendingUpdate_def inplaceMutated_def drainHooked_def split: if_splits)

text \<open>C26 (\<^verbatim>\<open>syncCloneSet\<close> and the writes): every clone set the controller creates or updates holds its pods back with the
  draining finalizer, before a deletion and before an update in place, provided the server's dry run keeps the hooks it
  is sent; a patch does not remove them.\<close>

theorem drain_hooks_everywhere:
  fixes s :: "'w lworld cn_ctx"
  assumes dry: "dryRunKeepsHooks S" and run: "ReconcileCN U T (loggedS S) s = (r, s')"
  shows "\<exists>es. logOf s' = es @ logOf s \<and> list_all hookedEvent es"
proof -
  have found: "onlySends (ofSpec (Obj s)) hookedEvent (bindR (observeFound U T (loggedS S) cs) (actCN U T (loggedS S)))" for cs
  proof (rule observeFound_sends)
    fix desired cs' w w' assume "drainHooked desired" and "s_dryRunCloneSet S desired w = (Inr cs', w')"
    then have "drainHooked cs'" using dry unfolding dryRunKeepsHooks_def drainHooked_def by metis
    then show "case pendingUpdate (cno_spec (Obj s)) cs cs' of
         Some u \<Rightarrow> hookedEvent (CloneSetW (WUpdate u))
       | None \<Rightarrow> (\<forall>r ps. hookedEvent (CloneSetW (WPatch cs' (cs'\<lparr>ks_replicas := r, ks_podsToDelete := ps\<rparr>)))) \<and>
           (\<forall>v. cns_cacheVolume (cno_spec (Obj s)) = Some v \<longrightarrow> mayGrow (vc_size v) (ks_claims cs') \<longrightarrow>
              hookedEvent (CloneSetW (WUpdate (cs'\<lparr>ks_claims := grownClaims (vc_size v) (ks_claims cs')\<rparr>))))"
      by (auto simp: pendingUpdate_hooked drainHooked_def[of "cs'\<lparr>ks_claims := _\<rparr>"] split: option.splits) (auto simp: drainHooked_def)
  qed simp_all
  have "onlySends (ofSpec (Obj s)) hookedEvent (ReconcileCN U T (loggedS S))"
    unfolding ReconcileCN_def CNObserve_def bindR_assoc
  proof (rule sendsR, rule onlySends_bind)
    fix x :: "clone_set option"
    show "onlySends (ofSpec (Obj s)) hookedEvent (bindR (case x of None \<Rightarrow> ret (Some CNCreate)
        | Some cs \<Rightarrow> observeFound U T (loggedS S) cs) (actCN U T (loggedS S)))"
      using found CreateCN_sends by (cases x) (simp_all add: actCN_def)
  qed (simp only: send_simps, (rule sendsR)+)
  from onlySends_log[OF this, of s] run show ?thesis by (simp add: ofSpec_def)
qed

section \<open>When a reconciliation is complete\<close>

text \<open>The object \<open>c'\<close> reports what the clone set \<open>cs\<close> and the service \<open>svc\<close> are, and the set is complete.\<close>

definition cnComplete :: "'w senv \<Rightarrow> cn_set \<Rightarrow> service \<Rightarrow> clone_set \<Rightarrow> cn_set \<Rightarrow> bool" where
  "cnComplete S c svc cs c' \<longleftrightarrow>
     (let replicas = pd_replicas (cns_pod (cno_spec c)) in
      ks_replicas cs = Some replicas \<and> ks_podsToDelete cs = cns_podsToDelete (cno_spec c) \<and>
      replicas \<le> ks_statusReady cs \<and> replicas \<le> ks_statusUpdatedReady cs \<and>
      cno_spec c' = cno_spec c \<and> s_isReady S (cno_conditions c') \<and>
      cno_statusReplicas c' = ks_statusReplicas cs \<and> cno_statusReady c' = ks_statusReady cs \<and>
      cno_statusSelector c' = ks_statusSelector cs \<and> cno_host c' = vs_name svc @ ''.'' @ vs_ns svc \<and> cno_port c' = CNSQLPort)"

lemma syncCNStatus_result:
  assumes "syncCNStatus (loggedS S) cs s = (Inr x, s1)" and laws: "conditionLaws S"
  shows "\<exists>stores conds. Obj s1 = (Obj s)\<lparr>cno_stores := stores, cno_statusReplicas := ks_statusReplicas cs, cno_statusReady := ks_statusReady cs,
      cno_statusSelector := ks_statusSelector cs, cno_conditions := conds\<rparr> \<and>
    (s_isReady S conds \<longleftrightarrow> pd_replicas (cns_pod (cno_spec (Obj s))) \<le> ks_statusReady cs)"
proof -
  let ?c = "if pd_replicas (cns_pod (cno_spec (Obj s))) \<le> ks_statusReady cs
    then newCondition ConditionTypeReady ConditionTrue reasonEmpty ''cn stores ready''
    else newCondition ConditionTypeReady ConditionFalse ReasonNoEnoughReadyStores ''cn stores not ready''"
  from assms(1) obtain stores conds cs0 w w' where
      obj: "Obj s1 = (Obj s)\<lparr>cno_stores := stores, cno_statusReplicas := ks_statusReplicas cs, cno_statusReady := ks_statusReady cs,
        cno_statusSelector := ks_statusSelector cs, cno_conditions := conds\<rparr>"
      and set: "s_setCondition S cs0 ?c w = (conds, w')"
    unfolding syncCNStatus_def setCNReady_def SetCondition_def bindR_getObj
    by (auto simp: callW_def readW_def modObj_def bindR_getObj readL_def newCondition_def ReasonNoEnoughReadyStores_def
        elim!: bindR_InrE split: prod.splits if_splits)
  have "cd_type ?c = ConditionTypeReady" by (simp add: newCondition_def)
  then have "s_isReady S conds \<longleftrightarrow> cd_status ?c = ConditionTrue"
    using laws set unfolding conditionLaws_def by blast
  also have "\<dots> \<longleftrightarrow> pd_replicas (cns_pod (cno_spec (Obj s))) \<le> ks_statusReady cs" by (simp add: newCondition_def)
  finally show ?thesis using obj by blast
qed

lemma keeps_obj: "(\<And>c. onlySends (\<lambda>x. x = c) (\<lambda>_. True) m) \<Longrightarrow> m s = (r, s') \<Longrightarrow> Obj s' = Obj s"
  using onlySendsD by fastforce

lemma finishCN_done:
  assumes laws: "conditionLaws S" and run: "finishCN U (loggedS S) svc cs s = (Inr None, s')"
  shows "cnComplete S (Obj s) svc cs (Obj s')"
proof -
  let ?mark = "\<lambda>c. if ks_statusReady cs > 0
    then withBucket (loggedS S) (cno_depLog c) (\<lambda>ns name. wrapE ''set bucket ever running ann'' (SyncBucketEverRunningAnn (s_l (loggedS S)) ns name))
    else ret ()"
  let ?grow = "\<lambda>c. case cns_cacheVolume (cno_spec c) of None \<Rightarrow> ret ()
    | Some v \<Rightarrow> wrapE ''sync volume size'' (SyncCloneSetVolumeSize U (loggedS S) (cno_ns c) (cno_name c) (cno_kind c) (vc_size v) cs)"
  from run obtain s1 s2 s3 where s1: "syncCNStatus (loggedS S) cs s = (Inr (), s1)"
      and s2: "?mark (Obj s1) s1 = (Inr (), s2)" and s3: "?grow (Obj s1) s2 = (Inr (), s3)"
      and reps: "ks_replicas cs = Some (pd_replicas (cns_pod (cno_spec (Obj s1))))" "cns_podsToDelete (cno_spec (Obj s1)) = ks_podsToDelete cs"
      and fin: "s_isReady S (cno_conditions (Obj s1))" "pd_replicas (cns_pod (cno_spec (Obj s1))) \<le> ks_statusUpdatedReady cs"
        "Obj s' = (Obj s3)\<lparr>cno_host := vs_name svc @ ''.'' @ vs_ns svc, cno_port := CNSQLPort\<rparr>"
    unfolding finishCN_def Let_def
    by (auto simp: orPanic_def getObj_def ret_def throw_def ErrReSync_def modObj_def elim!: bindR_InrE split: option.splits if_splits)
  from syncCNStatus_result[OF s1 laws] obtain stores conds where
      obj: "Obj s1 = (Obj s)\<lparr>cno_stores := stores, cno_statusReplicas := ks_statusReplicas cs, cno_statusReady := ks_statusReady cs,
        cno_statusSelector := ks_statusSelector cs, cno_conditions := conds\<rparr>"
      and ready: "s_isReady S conds \<longleftrightarrow> pd_replicas (cns_pod (cno_spec (Obj s))) \<le> ks_statusReady cs" by blast
  have "Obj s2 = Obj s1" by (rule keeps_obj[where m = "?mark (Obj s1)", OF _ s2]) (rule sendsR | simp only: send_simps | simp)+
  moreover have "Obj s3 = Obj s2" by (rule keeps_obj[where m = "?grow (Obj s1)", OF _ s3]) (rule sendsR growth_sends | simp)+
  ultimately show ?thesis using obj ready reps fin by (simp add: cnComplete_def)
qed

lemma service_written:
  assumes "serviceR (loggedS S) x (\<lambda>v. ret (g v)) s = (Inr svc, s')"
  shows "\<exists>old w w1 w2 w3. s_svcBegin S x w = (Inr old, w1) \<and> s_svcCommit S old (g old) w2 = (Inr svc, w3)"
proof -
  from assms obtain old s1 where a: "callW (s_svcBegin (loggedS S) x) s = (Inr old, s1)"
      and b: "callW (s_svcCommit (loggedS S) old (g old)) s1 = (Inr svc, s')"
    unfolding serviceR_def by (auto simp: ret_def elim!: bindR_InrE)
  from a obtain w w1 where "s_svcBegin S x w = (Inr old, w1)" by (auto simp: callW_def readL_def split: prod.splits)
  moreover from b obtain w2 w3 where "s_svcCommit S old (g old) w2 = (Inr svc, w3)" by (auto simp: callW_def writeL_def split: prod.splits)
  ultimately show ?thesis by blast
qed

text \<open>\<open>desired\<close> is what the controller wants of the stored clone set \<open>cs\<close>: \<open>desiredCloneSet\<close> for the log set and the reserved
  ordinals it read.\<close>

definition wantedCN :: "tools \<Rightarrow> codec \<Rightarrow> 'w senv \<Rightarrow> cn_set \<Rightarrow> clone_set \<Rightarrow> clone_set \<Rightarrow> bool" where
  "wantedCN U T S cn cs desired \<longleftrightarrow> (\<exists>ld reserved s1 s2. cno_dep cn = Some (Some ld) \<and>
     reservedOrdinals U (loggedS S) (cns_pod (cno_spec cn)) (cno_dep cn) s1 = (Inr reserved, s2) \<and> Obj s1 = cn \<and>
     desiredCloneSet U T cn ld reserved cs = Inr desired)"

text \<open>\<open>svc\<close> is the service as the server answered the write of the CN service.\<close>

definition servedCN :: "'w senv \<Rightarrow> cn_set \<Rightarrow> service \<Rightarrow> bool" where
  "servedCN S cn svc \<longleftrightarrow> (\<exists>old w w1 w2 w3. s_svcBegin S (buildSvcCN cn) w = (Inr old, w1) \<and>
     s_svcCommit S old (syncService cn old) w2 = (Inr svc, w3))"

text \<open>C23 (\<^verbatim>\<open>Observe\<close>): a reconciliation that ends without an action or an error is complete. The server answered the dry
  run of the desired clone set with \<open>cs'\<close>, which is the stored one, or, while updates are paused, differs from it only in what
  a paused set does not apply; it has the replicas and the pods to delete of the specification; enough pods are ready and
  enough are updated; and the status says so: ready, with the counts of the clone set and the address of the service
  just written.\<close>

theorem cn_observe_complete:
  fixes s :: "'w lworld cn_ctx"
  assumes laws: "conditionLaws S" and run: "CNObserve U T (loggedS S) s = (Inr None, s')"
  shows "\<exists>cs cs' desired svc w1 w2 w3. api_get (s_clonesets S) (cno_ns (Obj s), cnResourceName (cno_name (Obj s))) (fst (world s)) = (Inr cs, w1) \<and>
    wantedCN U T S (Obj s) cs desired \<and> s_dryRunCloneSet S desired w2 = (Inr cs', w3) \<and>
    (semCloneSet cs = semCloneSet cs' \<or> cns_pauseUpdate (cno_spec (Obj s)) \<and> semCloneSet (inplaceMutated cs cs') = semCloneSet cs) \<and>
    servedCN S (Obj s) svc \<and> cnComplete S (Obj s) svc cs' (Obj s')"
proof -
  from run obtain cs w1 where get: "api_get (s_clonesets S) (cno_ns (Obj s), cnResourceName (cno_name (Obj s))) (fst (world s)) = (Inr cs, w1)"
      and obs: "observeFound U T (loggedS S) cs (s\<lparr>world := (w1, logOf s)\<rparr>) = (Inr None, s')"
    unfolding CNObserve_def bindR_getObj
    by (auto simp: findR_def attempt_def callW_def readL_def ret_def throw_def elim!: bindR_InrE split: option.splits sum.splits prod.splits if_splits)
  let ?s = "s\<lparr>world := (w1, logOf s)\<rparr>"
  let ?mark = "withBucket (loggedS S) (cno_depLog (Obj s)) (\<lambda>ns name. bindR (liftE (bucketMark U (Obj s)))
    (\<lambda>f. wrapE ''add bucket finalizer'' (AddBucketFinalizer (s_l (loggedS S)) ns name f)))"
  let ?svc = "serviceR (loggedS S) (buildSvcCN (Obj s)) (\<lambda>svc. ret (syncService (Obj s) svc))"
  let ?metric = "syncMetricServiceCN (loggedS S) (pm_labels (ks_template cs))"
  from obs obtain svc desired cs' s1 s2 s3 s4 s5 where
      s1: "?mark ?s = (Inr (), s1)" and s2: "?svc s1 = (Inr svc, s2)" and s3: "?metric s2 = (Inr (), s3)"
      and s4: "syncCloneSet U T (loggedS S) cs s3 = (Inr desired, s4)"
      and s5: "callW (s_dryRunCloneSet (loggedS S) desired) s4 = (Inr cs', s5)"
      and pend: "pendingUpdate (cno_spec (Obj s)) cs cs' = None" and fin: "finishCN U (loggedS S) svc cs' s5 = (Inr None, s')"
    unfolding observeFound_def bindR_getObj
    by (auto simp: ret_def elim!: bindR_InrE split: option.splits)
  have "Obj s1 = Obj ?s" by (rule keeps_obj[where m = "?mark", OF _ s1]) (rule sendsR | simp only: send_simps | simp)+
  moreover have "Obj s2 = Obj s1" by (rule keeps_obj[where m = "?svc", OF _ s2]) (rule sendsR | simp)+
  moreover have "Obj s3 = Obj s2" by (rule keeps_obj[where m = "?metric", OF _ s3]) (rule sendsR | simp)+
  ultimately have o3: "Obj s3 = Obj s" by simp
  then have want: "wantedCN U T S (Obj s) cs desired"
    using syncCloneSet_result[OF s4] unfolding wantedCN_def by fastforce
  have "Obj s4 = Obj s" using syncCloneSet_result[OF s4] o3 by simp
  moreover from s5 obtain w2 w3 where dry: "s_dryRunCloneSet S desired w2 = (Inr cs', w3)" and "Obj s5 = Obj s4"
    by (auto simp: callW_def readL_def split: prod.splits)
  ultimately have fin': "cnComplete S (Obj s) svc cs' (Obj s')" using finishCN_done[OF laws fin] by simp
  have svc: "servedCN S (Obj s) svc" unfolding servedCN_def by (rule service_written[OF s2])
  have "semCloneSet cs = semCloneSet cs' \<or> cns_pauseUpdate (cno_spec (Obj s)) \<and> semCloneSet (inplaceMutated cs cs') = semCloneSet cs"
    using pend by (auto simp: pendingUpdate_def split: if_splits)
  with get want dry svc fin' show ?thesis by blast
qed

section \<open>Sample runs\<close>

definition smallCNSet :: cn_set where
  "smallCNSet = \<lparr>cno_name = ''c'', cno_ns = ''ns'', cno_uid = ''u1'', cno_kind = ''CNSet'', cno_spec = drainCN,
     cno_depLog = Some (''ns'', ''log''), cno_dep = Some (Some sampleDep), cno_conditions = [], cno_stores = [],
     cno_statusReplicas = 0, cno_statusReady = 0, cno_statusSelector = [], cno_host = [], cno_port = 0\<rparr>"

definition pausedCNSet :: cn_set where
  "pausedCNSet = smallCNSet\<lparr>cno_spec := drainCN\<lparr>cns_pauseUpdate := True\<rparr>\<rparr>"

text \<open>A clone set as the controller creates it.\<close>

definition newCloneSet :: clone_set where
  "newCloneSet = scaleSet smallCNSet (buildCNSet smallCNSet (buildHeadlessSvcCN smallCNSet))"

definition runningWorld :: set_mem where
  "runningWorld = setWorld\<lparr>sm_clonesets := [newCloneSet]\<rparr>"

lemma newCloneSet_simps [simp]:
  "ks_ns newCloneSet = ''ns''" "ks_name newCloneSet = ''c-cn''" "ks_replicas newCloneSet = Some 3" "ks_podsToDelete newCloneSet = []"
  by (simp_all add: newCloneSet_def scaleSet_def buildCNSet_def CloneSetTemplate_def smallCNSet_def drainCN_def samplePodSet_def
      cnResourceName_def Let_def)

lemma running_get: "api_get (s_clonesets setEnv) (''ns'', ''c-cn'') runningWorld = (Inr newCloneSet, runningWorld)"
  by (simp add: runningWorld_def setEnv_def memKind_def Let_def)

theorem cn_finalize_order_witness:
  "\<exists>b. fst (CNFinalize sampleTools (loggedS setEnv) \<lparr>Obj = smallCNSet, world = (setWorld, [])\<rparr>) = Inr True \<and>
     list_all (\<lambda>b. b) (absentCN setEnv smallCNSet) \<and>
     hd (logOf (snd (CNFinalize sampleTools (loggedS setEnv) \<lparr>Obj = smallCNSet, world = (setWorld, [])\<rparr>))) = BucketW (WUpdate b) \<and>
     isRelCN sampleTools smallCNSet (BucketW (WUpdate b))"
proof -
  let ?run = "CNFinalize sampleTools (loggedS setEnv) \<lparr>Obj = smallCNSet, world = (setWorld, [])\<rparr>"
  have fin: "fst ?run = Inr True" "\<exists>b. hd (logOf (snd ?run)) = BucketW (WUpdate b) \<and> logOf (snd ?run) \<noteq> []"
    by (simp_all add: CNFinalize_def finalizeOwned_def deleteOwnedCN_def existOwnedCN_def releaseCN_def waitAllCNDrained_def
        withBucket_def RemoveBucketFinalizer_def logSetBucket_def ClaimedBucket_def bucketMark_def MakeHashFinalizer_def sampleDigest
        GetTerminationPolicy_def drainCN_def smallCNSet_def cloneSetRef_def svcRef_def CloneSetTemplate_def cnResourceName_def
        cnMetricSvcName_def ignoreNotFoundR_def existsR_def thenE_def liftE_def BucketCNFinalizerPrefix_def UniqueBucketLabel_def
        IsNotFound_def notFoundErr_def isPanic_def set_run_defs)
  obtain b where b: "hd (logOf (snd ?run)) = BucketW (WUpdate b)" "logOf (snd ?run) \<noteq> []" using fin(2) by blast
  obtain rs ds ps where log: "logOf (snd ?run) = rs @ ds @ ps" and only: "list_all (isDrainCN smallCNSet) ps" "list_all (isDelCN smallCNSet) ds"
      and rel: "rs = [] \<or> list_all (\<lambda>b. b) (absentCN setEnv smallCNSet) \<and> list_all (isRelCN sampleTools smallCNSet) rs"
      and gone: "list_all (\<lambda>b. b) (absentCN setEnv smallCNSet)"
    using cn_finalize_order[of sampleTools setEnv "\<lparr>Obj = smallCNSet, world = (setWorld, [])\<rparr>" "Inr True" "snd ?run"] fin(1)
    by (auto simp: prod_eq_iff)
  have "rs \<noteq> []" using log b only by (cases ds; cases ps) auto
  with rel log b have "isRelCN sampleTools smallCNSet (BucketW (WUpdate b))" by (cases rs) auto
  with fin(1) gone b(1) show ?thesis by blast
qed

theorem drain_wait_skipped_witness:
  "ks_replicas newCloneSet = Some 3 \<and> api_get (s_clonesets setEnv) (''ns'', ''c-cn'') runningWorld = (Inr newCloneSet, runningWorld) \<and>
   last (logOf (snd (CNFinalize sampleTools (loggedS setEnv) \<lparr>Obj = smallCNSet, world = (runningWorld, [])\<rparr>))) =
     CloneSetW (WDelete (cloneSetRef ''ns'' ''c-cn''))"
proof -
  let ?s = "\<lparr>Obj = smallCNSet, world = (runningWorld, [])\<rparr>"
  have get: "api_get (s_clonesets setEnv) (cno_ns (Obj ?s), cno_name (Obj ?s)) (fst (world ?s)) = (Inl notFoundErr, runningWorld)"
    by (simp add: runningWorld_def setEnv_def memKind_def Let_def smallCNSet_def)
  have "GetTerminationPolicy (cno_spec (Obj ?s)) = CNSetTerminationPolicyDrain" and "IsNotFound notFoundErr"
    by (simp_all add: GetTerminationPolicy_def smallCNSet_def drainCN_def IsNotFound_def notFoundErr_def)
  from drain_wait_skipped[OF this(1) get this(2) prod.collapse[symmetric, of "CNFinalize sampleTools (loggedS setEnv) ?s"]] running_get
  show ?thesis by (auto simp: smallCNSet_def cnResourceName_def)
qed

theorem paused_set_keeps_pods_witness:
  "\<exists>es. logOf (snd (ReconcileCN sampleTools sampleCodec (loggedS setEnv) \<lparr>Obj = pausedCNSet, world = (runningWorld, [])\<rparr>)) = es \<and>
     list_all (pausedEvent (cno_spec pausedCNSet) newCloneSet) es"
  using paused_set_keeps_pods[of "\<lparr>Obj = pausedCNSet, world = (runningWorld, [])\<rparr>" setEnv newCloneSet runningWorld sampleTools sampleCodec
      "fst (ReconcileCN sampleTools sampleCodec (loggedS setEnv) \<lparr>Obj = pausedCNSet, world = (runningWorld, [])\<rparr>)"
      "snd (ReconcileCN sampleTools sampleCodec (loggedS setEnv) \<lparr>Obj = pausedCNSet, world = (runningWorld, [])\<rparr>)"] running_get
  by (simp add: pausedCNSet_def smallCNSet_def drainCN_def cnResourceName_def)

theorem drain_hooks_everywhere_witness:
  "\<exists>es. logOf (snd (ReconcileCN sampleTools sampleCodec (loggedS setEnv) \<lparr>Obj = smallCNSet, world = (setWorld, [])\<rparr>)) = es \<and>
     list_all hookedEvent es"
proof -
  have "dryRunKeepsHooks setEnv" by (simp add: dryRunKeepsHooks_def setEnv_def)
  from drain_hooks_everywhere[OF this, of sampleTools sampleCodec "\<lparr>Obj = smallCNSet, world = (setWorld, [])\<rparr>"
      "fst (ReconcileCN sampleTools sampleCodec (loggedS setEnv) \<lparr>Obj = smallCNSet, world = (setWorld, [])\<rparr>)"
      "snd (ReconcileCN sampleTools sampleCodec (loggedS setEnv) \<lparr>Obj = smallCNSet, world = (setWorld, [])\<rparr>)"]
  show ?thesis by simp
qed

lemma overSpec_Inr: "overSpec f t = Inr t' \<longleftrightarrow> (\<exists>sp. f (pm_spec t) = Inr sp \<and> t' = t\<lparr>pm_spec := sp\<rparr>)"
  by (auto simp: overSpec_def split: sum.splits)

text \<open>A sync whose configuration can be written returns the desired clone set.\<close>

lemma syncCloneSet_runs:
  assumes dep: "cno_dep (Obj s) = Some (Some ld)"
    and res: "reservedOrdinals U S (cns_pod (cno_spec (Obj s))) (Some (Some ld)) s = (Inr reserved, s1)"
    and cm: "buildCNSetConfigMap U T (cno_name (Obj s)) (cno_ns (Obj s)) (cno_spec (Obj s)) ld reserved = Inr (cm, sfx)"
    and inplace: "inplaceConfig U (cns_pod (cno_spec (Obj s)))" and ens: "ensureConfigMap U (s_l S) cm s1 = (Inr (cm_name cm), s2)"
    and des: "desiredCloneSet U T (Obj s) ld reserved cs = Inr cs'"
  shows "syncCloneSet U T S cs s = (Inr cs', s2)"
proof -
  let ?cn = "Obj s" let ?sp = "cno_spec ?cn"
  from des cm obtain t1 t2 spec where t1: "syncPodMetaCN U ?sp (ks_template cs) = Inr t1"
      and t2: "syncPodsCN U (cno_name ?cn) ?sp (ks_selector cs) (Some (ld_storage ld)) t1 = Inr t2"
      and spec: "setConfigVolume U (cm_name cm) (pm_spec (withSuffix U (cns_pod ?sp) sfx t2)) = Inr spec"
      and cs': "cs' = poolAnnos ?sp (syncStrategy ?sp cs)\<lparr>ks_template := (withSuffix U (cns_pod ?sp) sfx t2)\<lparr>pm_spec := spec\<rparr>\<rparr>"
    by (auto simp: desiredCloneSet_def Let_def configMapUsed_def inplace renderCN_def preparePodsCN_eq configurePods_def overSpec_Inr
        withSuffix_def thenE_Inr_iff)
  show ?thesis
    unfolding syncCloneSet_def bindR_getObj Let_def dep
    by (simp add: t1 t2 spec cm res ens cs' liftE_def depStorage_def depLogSet_def wrapE_def ret_def bindR_def SyncConfigMap_def inplace)
qed

lemma small_inplace: "inplaceConfig sampleTools (cns_pod drainCN)"
  by (simp add: inplaceConfig_def opVersion_def drainCN_def samplePodSet_def sampleTools_def GateEnabled_def versionPrecedes_def)

lemma small_config: "\<exists>cm. buildCNSetConfigMap sampleTools sampleCodec ''c'' ''ns'' drainCN sampleDep [] = Inr (cm, ''2000000'') \<and>
    cm_name cm = ''c-cn-config'' \<and> cm_ns cm = ''ns''"
proof -
  have "u_script sampleTools = (\<lambda>_ _ _ _. Inr ''script'')" by (simp add: sampleTools_def)
  then show ?thesis
    by (simp add: buildCNSetConfigMap_def sampleDep_def ToString_def MarshalTOML_def sampleCodec_def configData_def sampleDigest thenE_def
        small_inplace cnResourceName_def)
qed

lemma small_desired:
  assumes "pm_spec (ks_template cs) = emptyPodSpec\<lparr>ps_subdomain := d\<rparr>"
  shows "\<exists>cs'. desiredCloneSet sampleTools sampleCodec smallCNSet sampleDep [] cs = Inr cs'"
proof -
  obtain cm where cm: "buildCNSetConfigMap sampleTools sampleCodec ''c'' ''ns'' drainCN sampleDep [] = Inr (cm, ''2000000'')"
    using small_config by blast
  obtain t where "renderCN sampleTools ''c'' drainCN (ks_selector cs) (Some localStorage) ''2000000'' (cm_name cm) (ks_template cs) = Inr t"
    using sample_render[OF assms] by blast
  with cm show ?thesis
    by (simp add: desiredCloneSet_def smallCNSet_def thenE_def configMapUsed_def small_inplace Let_def) (simp add: sampleDep_def)
qed

lemma small_reserved:
  "sm_base w = sm_base setWorld \<Longrightarrow> reservedOrdinals sampleTools (loggedS setEnv) (cns_pod drainCN) (Some (Some sampleDep))
     \<lparr>Obj = c, world = (w, l)\<rparr> = (Inr [], \<lparr>Obj = c, world = (w, l)\<rparr>)"
  by (simp add: reservedOrdinals_def discoveryFixed_def GetSemVer_def getImageTag_def samplePodSet_def drainCN_def sampleTools_def
      fetchLogSetReservedOrdinals_def sampleDep_def stsName_def resourceName_def set_run_defs)

text \<open>The config map of the sample is created in a world without one.\<close>

definition withConfigMap :: "config_map \<Rightarrow> set_mem \<Rightarrow> set_mem" where
  "withConfigMap cm w = w\<lparr>sm_base := (sm_base w)\<lparr>bm_cms := bm_cms (sm_base w) @ [cm]\<rparr>\<rparr>"

lemma small_ensure:
  "bm_cms (sm_base w) = [] \<Longrightarrow> ensureConfigMap sampleTools (loggedL (s_l setEnv)) cm \<lparr>Obj = c, world = (w, l)\<rparr> =
     (Inr (cm_name cm), \<lparr>Obj = c, world = (withConfigMap cm w, ConfigMapW (WCreate cm) # l)\<rparr>)"
  by (simp add: ensureConfigMap_def setEnv_def baseEnv_def baseKind_def onBase_def bucketEnv_def memKind_def readL_def writeL_def Let_def
      monad_simps IsNotFound_def notFoundErr_def isPanic_def withConfigMap_def)

lemma small_sync:
  assumes "desiredCloneSet sampleTools sampleCodec smallCNSet sampleDep [] cs = Inr cs'"
  shows "\<exists>cm. \<forall>w l. sm_base w = sm_base setWorld \<longrightarrow>
    syncCloneSet sampleTools sampleCodec (loggedS setEnv) cs \<lparr>Obj = smallCNSet, world = (w, l)\<rparr> =
      (Inr cs', \<lparr>Obj = smallCNSet, world = (withConfigMap cm w, ConfigMapW (WCreate cm) # l)\<rparr>)"
proof -
  obtain cm where cm: "buildCNSetConfigMap sampleTools sampleCodec ''c'' ''ns'' drainCN sampleDep [] = Inr (cm, ''2000000'')"
    using small_config by blast
  have "syncCloneSet sampleTools sampleCodec (loggedS setEnv) cs \<lparr>Obj = smallCNSet, world = (w, l)\<rparr> =
      (Inr cs', \<lparr>Obj = smallCNSet, world = (withConfigMap cm w, ConfigMapW (WCreate cm) # l)\<rparr>)"
    if w: "sm_base w = sm_base setWorld" for w l
  proof -
    have "bm_cms (sm_base w) = []" using w by (simp add: set_run_defs)
    from small_ensure[OF this, of cm smallCNSet l] small_reserved[OF w, of smallCNSet l] cm assms show ?thesis
      by (intro syncCloneSet_runs[where ld = sampleDep and reserved = "[]" and cm = cm and sfx = "''2000000''"])
        (simp_all add: smallCNSet_def small_inplace)
  qed
  then show ?thesis by blast
qed

lemma newCloneSet_spec: "pm_spec (ks_template newCloneSet) = emptyPodSpec\<lparr>ps_subdomain := ''c-cn-headless''\<rparr>"
  by (simp add: newCloneSet_def scaleSet_def buildCNSet_def CloneSetTemplate_def newTemplate_def buildHeadlessSvcCN_def smallCNSet_def
      HeadlessServiceTemplate_def cnHeadlessSvcName_def cnResourceName_def Let_def)

theorem cn_sync_settles_witness:
  "\<exists>cs'. fst (syncCloneSet sampleTools sampleCodec (loggedS setEnv) newCloneSet \<lparr>Obj = smallCNSet, world = (setWorld, [])\<rparr>) = Inr cs' \<and>
     desiredCloneSet sampleTools sampleCodec smallCNSet sampleDep [] cs' = Inr cs'"
proof -
  obtain cs' where des: "desiredCloneSet sampleTools sampleCodec smallCNSet sampleDep [] newCloneSet = Inr cs'"
    using small_desired[OF newCloneSet_spec] by blast
  from small_sync[OF des] obtain s' where
      run: "syncCloneSet sampleTools sampleCodec (loggedS setEnv) newCloneSet \<lparr>Obj = smallCNSet, world = (setWorld, [])\<rparr> = (Inr cs', s')" by blast
  from cn_sync_settles[OF sampleTools_laws run] obtain ld reserved where "ld = sampleDep"
      "reservedOrdinals sampleTools (loggedS setEnv) (cns_pod drainCN) (Some (Some ld)) \<lparr>Obj = smallCNSet, world = (setWorld, [])\<rparr> =
        (Inr reserved, \<lparr>Obj = smallCNSet, world = (setWorld, [])\<rparr>)"
      "desiredCloneSet sampleTools sampleCodec smallCNSet ld reserved cs' = Inr cs'"
    using small_reserved[OF refl, of smallCNSet "[]"] by (auto simp: smallCNSet_def)
  with run show ?thesis using small_reserved[OF refl, of smallCNSet "[]"] by auto
qed

lemma desired_keeps:
  "desiredCloneSet U T cn ld reserved cs = Inr cs' \<Longrightarrow> ks_name cs' = ks_name cs \<and> ks_ns cs' = ks_ns cs \<and> ks_replicas cs' = ks_replicas cs \<and>
     ks_podsToDelete cs' = ks_podsToDelete cs \<and> ks_statusReplicas cs' = ks_statusReplicas cs \<and> ks_statusReady cs' = ks_statusReady cs \<and>
     ks_statusUpdatedReady cs' = ks_statusUpdatedReady cs"
  by (auto simp: desiredCloneSet_def Let_def thenE_Inr_iff poolAnnos_def syncStrategy_def)

lemma small_bucket:
  assumes "bm_logsets (sm_base w) = [sampleLogs]" and "bm_buckets (sm_base w) = bm_buckets (sm_base setWorld)"
  shows "AddBucketFinalizer (loggedL (s_l setEnv)) ''ns'' ''log'' (BucketCNFinalizerPrefix @ ''-2000000'') \<lparr>Obj = c, world = (w, l)\<rparr> =
      (Inr (), \<lparr>Obj = c, world = (w, l)\<rparr>)" (is ?add)
    and "SyncBucketEverRunningAnn (loggedL (s_l setEnv)) ''ns'' ''log'' \<lparr>Obj = c, world = (w, l)\<rparr> = (Inr (), \<lparr>Obj = c, world = (w, l)\<rparr>)"
  using assms
  by (simp_all add: AddBucketFinalizer_def SyncBucketEverRunningAnn_def SetBucketEverRunningAnn_def logSetBucket_def ClaimedBucket_def
      UniqueBucketLabel_def AnnAnyInstanceRunning_def BucketUniqLabel_def set_run_defs)

lemma small_service:
  "\<exists>svc xs e. serviceR (loggedS setEnv) v (\<lambda>v. ret (g v)) \<lparr>Obj = c, world = (w, l)\<rparr> = (Inr svc, \<lparr>Obj = c, world = (w\<lparr>sm_svcs := xs\<rparr>, e # l)\<rparr>)"
  by (simp add: serviceR_def setEnv_def callW_def readL_def writeL_def bindR_def ret_def) blast

lemma small_metric:
  "\<exists>xs e. syncMetricServiceCN (loggedS setEnv) sel \<lparr>Obj = c, world = (w, l)\<rparr> = (Inr (), \<lparr>Obj = c, world = (w\<lparr>sm_svcs := xs\<rparr>, e # l)\<rparr>)"
proof -
  have "\<exists>g. \<forall>v. mutateMetricSvc (loggedS setEnv) c sel v = Inr (g v)"
    by (rule choice) (simp add: mutateMetricSvc_def setEnv_def thenE_def Let_def)
  then obtain g where g: "\<And>v. mutateMetricSvc (loggedS setEnv) c sel v = Inr (g v)" by blast
  have "bindR getObj f \<lparr>Obj = c, world = (w, l)\<rparr> = f c \<lparr>Obj = c, world = (w, l)\<rparr>" for f :: "cn_set \<Rightarrow> (set_mem lworld cn_ctx, unit) rm"
    by (simp add: bindR_getObj)
  with small_service[of "metricSvcCN c sel" g c w l] show ?thesis
    by (auto simp: syncMetricServiceCN_def g liftE_def bindR_Inr ret_def)
qed

lemma small_finish:
  assumes "ks_replicas cs = Some 3" "ks_podsToDelete cs = []" "ks_statusReady cs = 3" "ks_statusUpdatedReady cs = 3"
    and "sm_base w = (sm_base setWorld)\<lparr>bm_cms := cms\<rparr>"
  shows "fst (finishCN sampleTools (loggedS setEnv) svc cs \<lparr>Obj = smallCNSet, world = (w, l)\<rparr>) = Inr None"
proof -
  have pods: "api_list (l_pods (s_l setEnv)) ns opt w = (Inr [], w)" for ns opt
    using assms(5) by (simp add: set_run_defs)
  have mark: "SyncBucketEverRunningAnn (loggedL (s_l setEnv)) ''ns'' ''log'' \<lparr>Obj = c, world = (w, l)\<rparr> = (Inr (), \<lparr>Obj = c, world = (w, l)\<rparr>)" for c :: cn_set and l
    using assms(5) by (intro small_bucket(2)) (simp_all add: setWorld_def lateWorld_def bucketWorld_def)
  have "s_setCondition setEnv = (\<lambda>cs c w. (c # filter (\<lambda>d. cd_type d \<noteq> cd_type c) cs, w))" "l_s3Reclaim (s_l setEnv)"
      "s_isReady setEnv = list_ex (\<lambda>c. cd_type c = ConditionTypeReady \<and> cd_status c = ConditionTrue)"
    by (simp_all add: setEnv_def baseEnv_def bucketEnv_def)
  with pods mark assms(1-4) show ?thesis
    by (simp add: finishCN_def syncCNStatus_def setCNReady_def SetCondition_def newCondition_def withBucket_def bindR_def getObj_def modObj_def
        callW_def readW_def readL_def wrapE_def ret_def orPanic_def smallCNSet_def drainCN_def samplePodSet_def Let_def)
qed

theorem cn_observe_complete_witness:
  "\<exists>cs s'. CNObserve sampleTools sampleCodec (loggedS setEnv) \<lparr>Obj = smallCNSet, world = (setWorld\<lparr>sm_clonesets := [cs]\<rparr>, [])\<rparr> = (Inr None, s') \<and>
     s_isReady setEnv (cno_conditions (Obj s')) \<and> 3 \<le> cno_statusReady (Obj s')"
proof -
  let ?cs0 = "newCloneSet\<lparr>ks_statusReplicas := 3, ks_statusReady := 3, ks_statusUpdatedReady := 3\<rparr>"
  obtain cs where des0: "desiredCloneSet sampleTools sampleCodec smallCNSet sampleDep [] ?cs0 = Inr cs"
    using small_desired[of ?cs0 "''c-cn-headless''"] newCloneSet_spec by auto
  have cs: "ks_name cs = ''c-cn''" "ks_ns cs = ''ns''" "ks_replicas cs = Some 3" "ks_podsToDelete cs = []" "ks_statusReplicas cs = 3"
      "ks_statusReady cs = 3" "ks_statusUpdatedReady cs = 3"
    using desired_keeps[OF des0] by simp_all
  have des: "desiredCloneSet sampleTools sampleCodec smallCNSet sampleDep [] cs = Inr cs"
    using desiredCloneSet_settles[OF sampleTools_laws] des0 unfolding settles_def by blast
  obtain cm where sync: "\<And>w l. sm_base w = sm_base setWorld \<Longrightarrow>
      syncCloneSet sampleTools sampleCodec (loggedS setEnv) cs \<lparr>Obj = smallCNSet, world = (w, l)\<rparr> =
        (Inr cs, \<lparr>Obj = smallCNSet, world = (withConfigMap cm w, ConfigMapW (WCreate cm) # l)\<rparr>)"
    using small_sync[OF des] by blast
  let ?s = "\<lparr>Obj = smallCNSet, world = (setWorld\<lparr>sm_clonesets := [cs]\<rparr>, [])\<rparr>"
  let ?w = "setWorld\<lparr>sm_clonesets := [cs]\<rparr>"
  have get: "api_get (s_clonesets setEnv) (''ns'', ''c-cn'') ?w = (Inr cs, ?w)" using cs by (simp add: setEnv_def memKind_def Let_def)
  have mark: "withBucket (loggedS setEnv) (Some (''ns'', ''log'')) (\<lambda>ns name. bindR (liftE (bucketMark sampleTools smallCNSet))
      (\<lambda>f. wrapE ''add bucket finalizer'' (AddBucketFinalizer (loggedL (s_l setEnv)) ns name f))) ?s = (Inr (), ?s)"
    using small_bucket(1)[of ?w smallCNSet "[]"]
    by (simp add: withBucket_def bucketMark_def MakeHashFinalizer_def sampleDigest thenE_def liftE_def smallCNSet_def wrapE_def
        setWorld_def lateWorld_def bucketWorld_def setEnv_def baseEnv_def bucketEnv_def)
  have "fst (CNObserve sampleTools sampleCodec (loggedS setEnv) ?s) = Inr None"
  proof -
    obtain svc xs e where svc: "serviceR (loggedS setEnv) (buildSvcCN smallCNSet) (\<lambda>v. ret (syncService smallCNSet v)) ?s =
        (Inr svc, \<lparr>Obj = smallCNSet, world = (?w\<lparr>sm_svcs := xs\<rparr>, [e])\<rparr>)" using small_service by metis
    obtain ys e' where metric: "syncMetricServiceCN (loggedS setEnv) (pm_labels (ks_template cs)) \<lparr>Obj = smallCNSet, world = (?w\<lparr>sm_svcs := xs\<rparr>, [e])\<rparr> =
        (Inr (), \<lparr>Obj = smallCNSet, world = (?w\<lparr>sm_svcs := ys\<rparr>, [e', e])\<rparr>)"
      using small_metric[of "pm_labels (ks_template cs)" smallCNSet "?w\<lparr>sm_svcs := xs\<rparr>" "[e]"] by auto
    have fin: "fst (finishCN sampleTools (loggedS setEnv) svc cs \<lparr>Obj = smallCNSet, world = (withConfigMap cm (?w\<lparr>sm_svcs := ys\<rparr>), l)\<rparr>) = Inr None" for l
      using cs by (intro small_finish[where cms = "bm_cms (sm_base setWorld) @ [cm]"]) (simp_all add: withConfigMap_def)
    have obs: "fst (observeFound sampleTools sampleCodec (loggedS setEnv) cs ?s) = Inr None"
      unfolding observeFound_def bindR_getObj
      using mark svc metric sync[of "?w\<lparr>sm_svcs := ys\<rparr>" "[e', e]"] fin
      by (simp add: bindR_def wrapE_def smallCNSet_def[THEN arg_cong[where f = cno_depLog]] callW_def readL_def pendingUpdate_def
          setEnv_def[THEN arg_cong[where f = s_dryRunCloneSet]])
    with get show ?thesis
      unfolding CNObserve_def bindR_getObj
      by (simp add: findR_def bindR_def wrapE_def attempt_def callW_def readL_def ret_def cnResourceName_def
          smallCNSet_def[THEN arg_cong[where f = cno_ns]] smallCNSet_def[THEN arg_cong[where f = cno_name]])
  qed
  then obtain s' where run: "CNObserve sampleTools sampleCodec (loggedS setEnv) ?s = (Inr None, s')" by (metis prod.collapse)
  from cn_observe_complete[OF setEnv_laws run] obtain cs' svc where "cnComplete setEnv smallCNSet svc cs' (Obj s')" by (auto simp: smallCNSet_def)
  then have "s_isReady setEnv (cno_conditions (Obj s'))" "3 \<le> cno_statusReady (Obj s')"
    by (simp_all add: cnComplete_def Let_def smallCNSet_def drainCN_def samplePodSet_def)
  with run show ?thesis by blast
qed

end
