(* ===== verification/DNSet_Control.thy ===== *)
theory DNSet_Control
  imports CNSet_Control
begin

text \<open>
  The DN set controller, \<^verbatim>\<open>pkg/controllers/dnset\<close>: a stateful set of DN pods with its headless service, metric service and
  config map; the status of its stores decides whether it is ready.
\<close>

type_synonym 'w dn_ctx = "(dn_set, 'w) ctx"

section \<open>Resources\<close>

definition dnLabels :: "dn_set \<Rightarrow> gomap" where
  "dnLabels dn = subLabels (dno_ns dn) (dno_name dn) (dno_kind dn)"

definition buildHeadlessSvcDN :: "dn_set \<Rightarrow> service" where
  "buildHeadlessSvcDN dn = HeadlessServiceTemplate (dno_ns dn) (dno_name dn) (dno_kind dn) (dnHeadlessSvcName (dno_name dn))"

definition buildDNSet :: "dn_set \<Rightarrow> kruise_sts" where
  "buildDNSet dn = StatefulSetTemplate (dno_ns dn) (dno_name dn) (dno_kind dn) (dnResourceName (dno_name dn)) (dnHeadlessSvcName (dno_name dn))"

definition syncReplicasDN :: "dn_set \<Rightarrow> kruise_sts \<Rightarrow> kruise_sts" where
  "syncReplicasDN dn sts = sts\<lparr>kt_replicas := Some (pd_replicas (dns_pod (dno_spec dn)))\<rparr>"

definition syncPersistentVolumeClaimDN :: "dn_set \<Rightarrow> kruise_sts \<Rightarrow> kruise_sts" where
  "syncPersistentVolumeClaimDN dn sts =
     sts\<lparr>kt_claims := volumeClaims (dns_cacheVolume (dno_spec dn)) (pd_overlay (dns_pod (dno_spec dn))) (kt_claims sts)\<rparr>"

text \<open>\<^verbatim>\<open>syncPods\<close>: the configuration first, then the template.\<close>

definition syncPodsDN :: "tools \<Rightarrow> codec \<Rightarrow> 'w senv \<Rightarrow> int list \<Rightarrow> kruise_sts \<Rightarrow> ('w dn_ctx, kruise_sts) rm" where
  "syncPodsDN U T S reserved sts =
     bindR getObj (\<lambda>dn.
     let sp = dno_spec dn in
     bindR (depLogSet (dno_dep dn)) (\<lambda>ld.
     bindR (liftE (buildDNSetConfigMap U T (dno_name dn) (dno_ns dn) sp ld reserved)) (\<lambda>(cm, sfx).
     let t1 = withSuffix U (dns_pod sp) sfx (syncPodMetaSet U (dns_pod sp) (kt_template sts)) in
     bindR (liftE (syncPodSpecDN U (dno_name dn) sp (kt_selector sts) (ld_storage ld) (pm_spec t1))) (\<lambda>spec.
     bindR (SyncConfigMap U (s_l S) (dns_pod sp) cm spec) (\<lambda>spec'.
     ret (sts\<lparr>kt_template := t1\<lparr>pm_spec := spec'\<rparr>\<rparr>))))))"

text \<open>The metric service: the port annotation stays when the scraping annotation is taken off.\<close>

definition metricSvcDN :: "dn_set \<Rightarrow> service" where
  "metricSvcDN dn = \<lparr>vs_name = dno_name dn @ ''-dn-metric'', vs_ns = dno_ns dn, vs_labels = dnLabels dn, vs_annos = None,
     vs_controller = None, vs_selector = dnLabels dn, vs_type = [], vs_ports = [], vs_headless = False\<rparr>"

definition mutateMetricSvcDN :: "dn_set \<Rightarrow> service \<Rightarrow> service" where
  "mutateMetricSvcDN dn svc = svc\<lparr>vs_ports := [metricPort],
     vs_annos := (if PromDiscoveredByService (dns_pod (dno_spec dn))
       then Some [PrometheusScrapeAnno \<mapsto> ''true'', PrometheusPortAnno \<mapsto> goItoa MetricsPort]
       else gdel PrometheusScrapeAnno (vs_annos svc))\<rparr>"

definition syncMetricServiceDN :: "'w senv \<Rightarrow> ('w dn_ctx, unit) rm" where
  "syncMetricServiceDN S =
     bindR getObj (\<lambda>dn. bindR (serviceR S (metricSvcDN dn) (\<lambda>svc. ret (mutateMetricSvcDN dn svc))) (\<lambda>_. ret ()))"

section \<open>Observe\<close>

datatype dn_action = DNCreate | DNScale kruise_sts | DNUpdate kruise_sts

text \<open>The clock and the availability of every listed pod, as \<^verbatim>\<open>CollectStoreStatus\<close> reads them.\<close>

fun readStores :: "'w senv \<Rightarrow> pod list \<Rightarrow> (('o, 'w) ctx, (string \<times> bool \<times> time) list) rm" where
  "readStores S [] = ret []"
| "readStores S (p # ps) =
     bindR (readW (l_now (s_l S))) (\<lambda>now.
     bindR (readW (s_podUp S p)) (\<lambda>up.
     bindR (readStores S ps) (\<lambda>rest. ret ((pod_name p, up, now) # rest))))"

definition bucketMarkDN :: "tools \<Rightarrow> dn_set \<Rightarrow> err + string" where
  "bucketMarkDN U dn = MakeHashFinalizer U BucketDNFinalizerPrefix (dno_ns dn) (dno_name dn)"

definition dnReady :: "dn_set \<Rightarrow> failover_status \<Rightarrow> bool" where
  "dnReady dn st \<longleftrightarrow> int (length (fo_available st)) \<ge> pd_replicas (dns_pod (dno_spec dn))"

text \<open>The stores and the readiness of the object.\<close>

definition syncDNStatus :: "'w senv \<Rightarrow> ('w dn_ctx, unit) rm" where
  "syncDNStatus S =
     bindR getObj (\<lambda>dn.
     bindR (wrapE ''list dn pods'' (callW (api_list (l_pods (s_l S)) (dno_ns dn)
       (MatchingLabels (SubResourceLabels (dno_ns dn) (dno_name dn) (dno_kind dn)))))) (\<lambda>pods.
     bindR (readStores S pods) (\<lambda>readings.
     let st = CollectStoreStatus (dno_failover dn) readings in
     bindR (SetCondition S (dno_conditions dn)
       (if dnReady dn st then newCondition ConditionTypeReady ConditionTrue [] []
        else newCondition ConditionTypeReady ConditionFalse ReasonNoEnoughReadyStores [])) (\<lambda>conds.
     modObj (\<lambda>dn. dn\<lparr>dno_failover := st, dno_conditions := conds\<rparr>)))))"

text \<open>The end of \<^verbatim>\<open>Observe\<close>: the template, the volumes and the metric service.\<close>

definition finishDN :: "tools \<Rightarrow> codec \<Rightarrow> 'w senv \<Rightarrow> kruise_sts \<Rightarrow> ('w dn_ctx, dn_action option) rm" where
  "finishDN U T S sts =
     bindR getObj (\<lambda>dn.
     let sp = dno_spec dn in
     bindR (reservedOrdinals U S (dns_pod sp) (dno_dep dn)) (\<lambda>reserved.
     bindR (syncPodsDN U T S reserved sts) (\<lambda>desired.
     bindR (wrapE ''dry run update dnset statefulset'' (callW (s_dryRunSts S desired))) (\<lambda>sts'.
     if semSts sts \<noteq> semSts sts' then ret (Some (DNUpdate sts'))
     else
       bindR (case dns_cacheVolume sp of
           None \<Rightarrow> ret ()
         | Some v \<Rightarrow> wrapE ''sync volume size'' (SyncStsVolumeSize U S (dno_ns dn) (dno_name dn) (dno_kind dn) (vc_size v) sts')) (\<lambda>_.
       bindR (wrapE ''sync metric service'' (syncMetricServiceDN S)) (\<lambda>_.
       if s_isReady S (dno_conditions dn) \<and> kt_statusUpdatedReady sts' \<ge> pd_replicas (dns_pod sp) then ret None
       else ErrReSync ''dnset is not ready'' (10 * second)))))))"

definition observeFoundDN :: "tools \<Rightarrow> codec \<Rightarrow> 'w senv \<Rightarrow> kruise_sts \<Rightarrow> ('w dn_ctx, dn_action option) rm" where
  "observeFoundDN U T S sts =
     bindR getObj (\<lambda>dn.
     bindR (withBucket S (dno_depLog dn) (\<lambda>ns name.
       bindR (liftE (bucketMarkDN U dn)) (\<lambda>f. wrapE ''add bucket finalizer'' (AddBucketFinalizer (s_l S) ns name f)))) (\<lambda>_.
     bindR (syncDNStatus S) (\<lambda>_.
     bindR getObj (\<lambda>dn.
     bindR (if fo_available (dno_failover dn) \<noteq> []
            then withBucket S (dno_depLog dn) (\<lambda>ns name. wrapE ''set bucket ever running ann'' (SyncBucketEverRunningAnn (s_l S) ns name))
            else ret ()) (\<lambda>_.
     bindR (orPanic (kt_replicas sts)) (\<lambda>replicas.
     if pd_replicas (dns_pod (dno_spec dn)) \<noteq> replicas then ret (Some (DNScale sts))
     else finishDN U T S sts))))))"

definition DNObserve :: "tools \<Rightarrow> codec \<Rightarrow> 'w senv \<Rightarrow> ('w dn_ctx, dn_action option) rm" where
  "DNObserve U T S =
     bindR getObj (\<lambda>dn.
     bindR (wrapE ''get dn service'' (findR (api_get (s_svcs S) (dno_ns dn, dnHeadlessSvcName (dno_name dn))))) (\<lambda>svc.
     bindR (wrapE ''get dn service statefulset'' (findR (api_get (s_stss S) (dno_ns dn, dnResourceName (dno_name dn))))) (\<lambda>found.
     case (found, svc) of
       (Some sts, Some _) \<Rightarrow> observeFoundDN U T S sts
     | _ \<Rightarrow> ret (Some DNCreate))))"

section \<open>The actions\<close>

definition CreateDN :: "tools \<Rightarrow> codec \<Rightarrow> 'w senv \<Rightarrow> ('w dn_ctx, unit) rm" where
  "CreateDN U T S =
     bindR getObj (\<lambda>dn.
     let sp = dno_spec dn; hSvc = buildHeadlessSvcDN dn; sts0 = syncReplicasDN dn (buildDNSet dn);
         t1 = syncPodMetaSet U (dns_pod sp) (kt_template sts0) in
     bindR (depLogSet (dno_dep dn)) (\<lambda>ld.
     bindR (liftE (syncPodSpecDN U (dno_name dn) sp (kt_selector sts0) (ld_storage ld) (pm_spec t1))) (\<lambda>spec.
     bindR (reservedOrdinals U S (dns_pod sp) (dno_dep dn)) (\<lambda>reserved.
     bindR (liftE (buildDNSetConfigMap U T (dno_name dn) (dno_ns dn) sp ld reserved)) (\<lambda>(cm, sfx).
     bindR (SyncConfigMap U (s_l S) (dns_pod sp) cm spec) (\<lambda>spec'.
     let sts = syncPersistentVolumeClaimDN dn (sts0\<lparr>kt_template := (withSuffix U (dns_pod sp) sfx t1)\<lparr>pm_spec := spec'\<rparr>\<rparr>) in
     bindR (createAll
       [bindR (callW (api_create (s_svcs S) hSvc)) (\<lambda>_. ret ()),
        bindR (callW (api_create (s_stss S) sts)) (\<lambda>_. ret ())]) (\<lambda>errs.
     if errs = [] then ret () else throw (wrapPrefix ''create dn service'' (multierr errs)))))))))"

definition ScaleDN :: "'w senv \<Rightarrow> kruise_sts \<Rightarrow> ('w dn_ctx, unit) rm" where
  "ScaleDN S sts = bindR getObj (\<lambda>dn. bindR (callW (api_patch (s_stss S) sts (syncReplicasDN dn sts))) (\<lambda>_. ret ()))"

definition UpdateDN :: "'w senv \<Rightarrow> kruise_sts \<Rightarrow> ('w dn_ctx, unit) rm" where
  "UpdateDN S sts = bindR (callW (api_update (s_stss S) sts)) (\<lambda>_. ret ())"

section \<open>Finalize\<close>

definition stsRefDN :: "string \<Rightarrow> string \<Rightarrow> kruise_sts" where
  "stsRefDN ns name = (StatefulSetTemplate ns [] [] name [])\<lparr>kt_labels := None, kt_whenDeleted := [], kt_whenScaled := [],
     kt_selector := None, kt_template := emptyTpl\<rparr>"

definition releaseDN :: "tools \<Rightarrow> 'w senv \<Rightarrow> dn_set \<Rightarrow> ('w dn_ctx, unit) rm" where
  "releaseDN U S dn =
     withBucket S (dno_depLog dn) (\<lambda>ns name. bindR (liftE (bucketMarkDN U dn)) (\<lambda>f. RemoveBucketFinalizer (s_l S) ns name f))"

definition deleteOwnedDN :: "'w senv \<Rightarrow> dn_set \<Rightarrow> ('w dn_ctx, unit) rm list" where
  "deleteOwnedDN S dn =
     [callW (api_delete (s_svcs S) (svcRef (dno_ns dn) (dnHeadlessSvcName (dno_name dn)))),
      callW (api_delete (s_stss S) (stsRefDN (dno_ns dn) (dnResourceName (dno_name dn))))]"

definition existOwnedDN :: "'w senv \<Rightarrow> dn_set \<Rightarrow> ('w dn_ctx, bool) rm list" where
  "existOwnedDN S dn =
     [existsR (api_get (s_svcs S) (dno_ns dn, dnHeadlessSvcName (dno_name dn))),
      existsR (api_get (s_stss S) (dno_ns dn, dnResourceName (dno_name dn)))]"

definition DNFinalize :: "tools \<Rightarrow> 'w senv \<Rightarrow> ('w dn_ctx, bool) rm" where
  "DNFinalize U S = bindR getObj (\<lambda>dn. finalizeOwned (deleteOwnedDN S dn) (existOwnedDN S dn) (releaseDN U S dn))"

definition requestsForLogSetStatefulSetDN :: "err + dn_set list \<Rightarrow> watched \<Rightarrow> obj_key list" where
  "requestsForLogSetStatefulSetDN = requestsForLogSetSts dno_depLog (\<lambda>dn. (dno_ns dn, dno_name dn))"

section \<open>What syncing the pods does\<close>

definition desiredSts :: "tools \<Rightarrow> codec \<Rightarrow> dn_set \<Rightarrow> log_dep \<Rightarrow> int list \<Rightarrow> kruise_sts \<Rightarrow> err + kruise_sts" where
  "desiredSts U T dn ld reserved sts =
     (let sp = dno_spec dn in
      thenE (buildDNSetConfigMap U T (dno_name dn) (dno_ns dn) sp ld reserved) (\<lambda>(cm, sfx).
      thenE (configMapUsed U (dns_pod sp) cm) (\<lambda>n.
      thenE (renderDN U (dno_name dn) sp (kt_selector sts) (ld_storage ld) sfx n (kt_template sts)) (\<lambda>t.
      Inr (sts\<lparr>kt_template := t\<rparr>)))))"

lemma syncPodsDN_result:
  assumes run: "syncPodsDN U T S reserved sts s = (Inr sts', s')"
  shows "Obj s' = Obj s \<and> (\<exists>ld. dno_dep (Obj s) = Some (Some ld) \<and> desiredSts U T (Obj s) ld reserved sts = Inr sts')"
proof -
  let ?dn = "Obj s" let ?sp = "dno_spec ?dn"
  let ?t1 = "\<lambda>sfx. withSuffix U (dns_pod ?sp) sfx (syncPodMetaSet U (dns_pod ?sp) (kt_template sts))"
  from run obtain ld cm sfx spec spec' where ld: "dno_dep ?dn = Some (Some ld)"
      and cm: "buildDNSetConfigMap U T (dno_name ?dn) (dno_ns ?dn) ?sp ld reserved = Inr (cm, sfx)"
      and spec: "syncPodSpecDN U (dno_name ?dn) ?sp (kt_selector sts) (ld_storage ld) (pm_spec (?t1 sfx)) = Inr spec"
      and spec': "SyncConfigMap U (s_l S) (dns_pod ?sp) cm spec s = (Inr spec', s')"
      and sts': "sts' = sts\<lparr>kt_template := (?t1 sfx)\<lparr>pm_spec := spec'\<rparr>\<rparr>"
    unfolding syncPodsDN_def bindR_getObj Let_def
    by (auto simp: liftE_runs ret_def dest!: reads_keep_obj(3) elim!: bindR_InrE)
  from SyncConfigMap_result[OF spec'] obtain n where n: "configMapUsed U (dns_pod ?sp) cm = Inr n" "setConfigVolume U n spec = Inr spec'" by blast
  have "renderDN U (dno_name ?dn) ?sp (kt_selector sts) (ld_storage ld) sfx n (kt_template sts) = Inr ((?t1 sfx)\<lparr>pm_spec := spec'\<rparr>)"
    using spec n(2) by (simp add: renderDN_def overSpec_def withSuffix_def thenE_def Let_def)
  then have "desiredSts U T ?dn ld reserved sts = Inr sts'" using cm n(1) by (simp add: desiredSts_def Let_def thenE_def sts')
  with ld SyncConfigMap_result[OF spec'] show ?thesis by blast
qed

lemma desiredSts_settles:
  assumes laws: "toolLaws U"
  shows "settles (desiredSts U T dn ld reserved)"
  unfolding settles_def
proof (intro allI impI)
  fix sts sts' assume "desiredSts U T dn ld reserved sts = Inr sts'"
  then obtain cm sfx n t where cm: "buildDNSetConfigMap U T (dno_name dn) (dno_ns dn) (dno_spec dn) ld reserved = Inr (cm, sfx)"
      and n: "configMapUsed U (dns_pod (dno_spec dn)) cm = Inr n"
      and t: "renderDN U (dno_name dn) (dno_spec dn) (kt_selector sts) (ld_storage ld) sfx n (kt_template sts) = Inr t"
      and sts': "sts' = sts\<lparr>kt_template := t\<rparr>"
    by (auto simp: desiredSts_def thenE_Inr_iff Let_def)
  have "settles (renderDN U (dno_name dn) (dno_spec dn) (kt_selector sts) (ld_storage ld) sfx n)"
    using renderings_settle[OF laws] by blast
  then have "renderDN U (dno_name dn) (dno_spec dn) (kt_selector sts) (ld_storage ld) sfx n t = Inr t"
    using t unfolding settles_def by blast
  with cm n show "desiredSts U T dn ld reserved sts' = Inr sts'" by (simp add: desiredSts_def Let_def thenE_def sts')
qed

section \<open>The finalizer\<close>

definition absentDN :: "'w senv \<Rightarrow> dn_set \<Rightarrow> bool list" where
  "absentDN S dn =
     [absent (api_get (s_svcs S)) (dno_ns dn, dnHeadlessSvcName (dno_name dn)),
      absent (api_get (s_stss S)) (dno_ns dn, dnResourceName (dno_name dn))]"

fun isDelDN :: "dn_set \<Rightarrow> event \<Rightarrow> bool" where
  "isDelDN dn (SvcW (WDelete v)) = (v = svcRef (dno_ns dn) (dnHeadlessSvcName (dno_name dn)))"
| "isDelDN dn (KruiseStsW (WDelete x)) = (x = stsRefDN (dno_ns dn) (dnResourceName (dno_name dn)))"
| "isDelDN dn _ = False"

fun isRelDN :: "tools \<Rightarrow> dn_set \<Rightarrow> event \<Rightarrow> bool" where
  "isRelDN U dn (BucketW (WUpdate b)) = (\<exists>f b0. bucketMarkDN U dn = Inr f \<and> b = removeBucketFinalizer f b0)"
| "isRelDN U dn _ = False"

lemma dn_dels: "d \<in> set (deleteOwnedDN (loggedS S) dn) \<Longrightarrow> onlySends P (isDelDN dn) d"
  by (auto simp: deleteOwnedDN_def intro!: onlySends_callW_write)

lemma dn_checks:
  assumes "(m, A) \<in> set (zip (existOwnedDN (loggedS S) dn) (absentDN S dn))"
  shows "onlySends P ok m" and "m s = (Inr False, s') \<Longrightarrow> A"
  using assms by (auto simp: existOwnedDN_def absentDN_def intro!: existsR_sends dest!: existsR_absent)

lemma releaseDN_sends: "onlySends P (isRelDN U dn) (releaseDN U (loggedS S) dn)"
  unfolding releaseDN_def by (rule onlySends_bind_liftE sendsR | simp only: send_simps | auto)+

interpretation dnOwned: owned_objects "deleteOwnedDN (loggedS S) dn" "zip (existOwnedDN (loggedS S) dn) (absentDN S dn)"
    "releaseDN U (loggedS S) dn" "isDelDN dn" "isRelDN U dn" for U S dn
  by unfold_locales (auto intro: dn_dels dn_checks releaseDN_sends)

text \<open>\<^verbatim>\<open>Finalize\<close> of the DN set: only the headless service and the stateful set are deleted, and the mark on the bucket
  claim is taken off, and completion reported, only when the server has answered that both are gone.\<close>

theorem dn_finalize_order:
  fixes s :: "'w lworld dn_ctx"
  assumes run: "DNFinalize U (loggedS S) s = (r, s')"
  shows "(r = Inr True \<longrightarrow> list_all (\<lambda>b. b) (absentDN S (Obj s))) \<and>
    (\<exists>rs ds. logOf s' = rs @ ds @ logOf s \<and> list_all (isDelDN (Obj s)) ds \<and>
       (rs = [] \<or> list_all (\<lambda>b. b) (absentDN S (Obj s)) \<and> list_all (isRelDN U (Obj s)) rs))"
proof -
  have zip: "map fst (zip (existOwnedDN (loggedS S) (Obj s)) (absentDN S (Obj s))) = existOwnedDN (loggedS S) (Obj s)"
      "list_all snd (zip (existOwnedDN (loggedS S) (Obj s)) (absentDN S (Obj s))) \<longleftrightarrow> list_all (\<lambda>b. b) (absentDN S (Obj s))"
    by (simp_all add: existOwnedDN_def absentDN_def)
  from run have "finalizeOwned (deleteOwnedDN (loggedS S) (Obj s)) (existOwnedDN (loggedS S) (Obj s)) (releaseDN U (loggedS S) (Obj s)) s = (r, s')"
    unfolding DNFinalize_def bindR_getObj .
  from dnOwned.finalized[where S = S and dn = "Obj s" and U = U, unfolded zip, OF this] show ?thesis .
qed

section \<open>When a reconciliation is complete\<close>

lemma readStores_sends [sendsR]: "onlySends P ok (readStores (loggedS S) ps)"
  by (induction ps) (auto intro!: sendsR)

lemma readStores_obj: "readStores S ps s = (Inr x, s') \<Longrightarrow> Obj s' = Obj s"
  by (induction ps arbitrary: s x s') (auto simp: ret_def readW_def elim!: bindR_InrE split: prod.splits)

lemma syncDNStatus_result:
  assumes run: "syncDNStatus (loggedS S) s = (Inr x, s1)" and laws: "conditionLaws S"
  shows "\<exists>st conds. Obj s1 = (Obj s)\<lparr>dno_failover := st, dno_conditions := conds\<rparr> \<and> (s_isReady S conds \<longleftrightarrow> dnReady (Obj s) st)"
proof -
  let ?c = "\<lambda>st. if dnReady (Obj s) st then newCondition ConditionTypeReady ConditionTrue reasonEmpty []
    else newCondition ConditionTypeReady ConditionFalse ReasonNoEnoughReadyStores []"
  from run obtain st conds cs0 w w' where
      obj: "Obj s1 = (Obj s)\<lparr>dno_failover := st, dno_conditions := conds\<rparr>" and set: "s_setCondition S cs0 (?c st) w = (conds, w')"
    unfolding syncDNStatus_def SetCondition_def bindR_getObj Let_def
    by (auto simp: callW_def readW_def modObj_def readL_def newCondition_def ReasonNoEnoughReadyStores_def
        dest!: readStores_obj elim!: bindR_InrE split: prod.splits if_splits)
  have "cd_type (?c st) = ConditionTypeReady" by (simp add: newCondition_def)
  then have "s_isReady S conds \<longleftrightarrow> cd_status (?c st) = ConditionTrue"
    using laws set unfolding conditionLaws_def by blast
  also have "\<dots> \<longleftrightarrow> dnReady (Obj s) st" by (simp add: newCondition_def)
  finally show ?thesis using obj by blast
qed

lemma growth_sends_DN:
  assumes "\<And>c. ok (PvcW c)" and "\<And>claims. ok (KruiseStsW (WUpdate (sts\<lparr>kt_claims := claims\<rparr>)))"
  shows "onlySends P ok (SyncStsVolumeSize U (loggedS S) ns name kind n sts)"
  unfolding SyncStsVolumeSize_def growClaim_def case_prod_unfold Let_def
  by (rule sendsR onlySends_forR assms | simp only: send_simps)+

lemma syncMetricServiceDN_sends [sendsR]: "(\<And>x y. ok (SvcOwnedW x y)) \<Longrightarrow> onlySends P ok (syncMetricServiceDN (loggedS S))"
  unfolding syncMetricServiceDN_def by (rule sendsR | assumption)+

text \<open>The stored stateful set \<open>sts\<close> is what the object asks for (as the server answered the dry run, \<open>sts'\<close>), and \<open>dn'\<close>
  reports a complete set.\<close>

definition dnComplete :: "tools \<Rightarrow> codec \<Rightarrow> 'w senv \<Rightarrow> dn_set \<Rightarrow> kruise_sts \<Rightarrow> dn_set \<Rightarrow> bool" where
  "dnComplete U T S dn sts dn' \<longleftrightarrow>
     (let replicas = pd_replicas (dns_pod (dno_spec dn)) in
      kt_replicas sts = Some replicas \<and> dno_spec dn' = dno_spec dn \<and> s_isReady S (dno_conditions dn') \<and>
      replicas \<le> int (length (fo_available (dno_failover dn'))) \<and>
      (\<exists>ld reserved desired sts' w w'. dno_dep dn = Some (Some ld) \<and> desiredSts U T dn ld reserved sts = Inr desired \<and>
         s_dryRunSts S desired w = (Inr sts', w') \<and> semSts sts = semSts sts' \<and> replicas \<le> kt_statusUpdatedReady sts'))"

lemma finishDN_done:
  assumes run: "finishDN U T (loggedS S) sts s = (Inr None, s')"
  shows "Obj s' = Obj s \<and> s_isReady S (dno_conditions (Obj s)) \<and>
    (\<exists>ld reserved desired sts' w w'. dno_dep (Obj s) = Some (Some ld) \<and> desiredSts U T (Obj s) ld reserved sts = Inr desired \<and>
      s_dryRunSts S desired w = (Inr sts', w') \<and> semSts sts = semSts sts' \<and> pd_replicas (dns_pod (dno_spec (Obj s))) \<le> kt_statusUpdatedReady sts')"
proof -
  let ?grow = "\<lambda>sts'. case dns_cacheVolume (dno_spec (Obj s)) of None \<Rightarrow> ret ()
    | Some v \<Rightarrow> wrapE ''sync volume size'' (SyncStsVolumeSize U (loggedS S) (dno_ns (Obj s)) (dno_name (Obj s)) (dno_kind (Obj s)) (vc_size v) sts')"
  from run obtain reserved desired sts' s1 s2 s3 s4 where
      s1: "reservedOrdinals U (loggedS S) (dns_pod (dno_spec (Obj s))) (dno_dep (Obj s)) s = (Inr reserved, s1)"
      and s2: "syncPodsDN U T (loggedS S) reserved sts s1 = (Inr desired, s2)"
      and s3: "callW (s_dryRunSts (loggedS S) desired) s2 = (Inr sts', s3)" and same: "semSts sts = semSts sts'"
      and s4: "?grow sts' s3 = (Inr (), s4)" and s5: "syncMetricServiceDN (loggedS S) s4 = (Inr (), s')"
      and fin: "s_isReady S (dno_conditions (Obj s))" "pd_replicas (dns_pod (dno_spec (Obj s))) \<le> kt_statusUpdatedReady sts'"
    unfolding finishDN_def bindR_getObj Let_def
    by (auto simp: ret_def throw_def ErrReSync_def elim!: bindR_InrE split: if_splits)
  have o1: "Obj s1 = Obj s" by (rule reads_keep_obj(1)[OF s1])
  have o2: "Obj s2 = Obj s" and des: "\<exists>ld. dno_dep (Obj s) = Some (Some ld) \<and> desiredSts U T (Obj s) ld reserved sts = Inr desired"
    using syncPodsDN_result[OF s2] o1 by auto
  have o3: "Obj s3 = Obj s" and dry: "\<exists>w w'. s_dryRunSts S desired w = (Inr sts', w')"
    using s3 o2 by (auto simp: callW_def readL_def split: prod.splits)
  have "Obj s4 = Obj s3" by (rule keeps_obj[where m = "?grow sts'", OF _ s4]) (rule sendsR growth_sends_DN | simp)+
  moreover have "Obj s' = Obj s4" by (rule keeps_obj[where m = "syncMetricServiceDN (loggedS S)", OF _ s5]) (rule sendsR | simp)+
  ultimately have "Obj s' = Obj s" using o3 by simp
  with des dry same fin show ?thesis by blast
qed

text \<open>\<^verbatim>\<open>Observe\<close> of the DN set: a reconciliation that ends without an action or an error is complete. The stored stateful
  set has the replicas of the specification and is semantically what the object asks for; enough pods are updated and
  ready, at least as many stores are available as replicas are wanted, and the status says ready.\<close>

theorem dn_observe_complete:
  fixes s :: "'w lworld dn_ctx"
  assumes laws: "conditionLaws S" and run: "DNObserve U T (loggedS S) s = (Inr None, s')"
  shows "\<exists>sts w w'. api_get (s_stss S) (dno_ns (Obj s), dnResourceName (dno_name (Obj s))) w = (Inr sts, w') \<and> dnComplete U T S (Obj s) sts (Obj s')"
proof -
  let ?mark = "withBucket (loggedS S) (dno_depLog (Obj s)) (\<lambda>ns name. bindR (liftE (bucketMarkDN U (Obj s)))
    (\<lambda>f. wrapE ''add bucket finalizer'' (AddBucketFinalizer (s_l (loggedS S)) ns name f)))"
  let ?ever = "\<lambda>dn. if fo_available (dno_failover dn) \<noteq> []
    then withBucket (loggedS S) (dno_depLog dn) (\<lambda>ns name. wrapE ''set bucket ever running ann'' (SyncBucketEverRunningAnn (s_l (loggedS S)) ns name))
    else ret ()"
  from run obtain sts w w' w0 where get: "api_get (s_stss S) (dno_ns (Obj s), dnResourceName (dno_name (Obj s))) w = (Inr sts, w')"
      and obs: "observeFoundDN U T (loggedS S) sts (s\<lparr>world := w0\<rparr>) = (Inr None, s')"
    unfolding DNObserve_def bindR_getObj
    by (auto simp: findR_def attempt_def callW_def readL_def ret_def throw_def elim!: bindR_InrE split: option.splits sum.splits prod.splits if_splits)
  from obs obtain s1 s2 s3 where s1: "?mark (s\<lparr>world := w0\<rparr>) = (Inr (), s1)" and s2: "syncDNStatus (loggedS S) s1 = (Inr (), s2)"
      and s3: "?ever (Obj s2) s2 = (Inr (), s3)" and reps: "kt_replicas sts = Some (pd_replicas (dns_pod (dno_spec (Obj s2))))"
      and fin: "finishDN U T (loggedS S) sts s3 = (Inr None, s')"
    unfolding observeFoundDN_def bindR_getObj
    by (auto simp: getObj_def orPanic_def ret_def throw_def elim!: bindR_InrE split: option.splits if_splits)
  have o1: "Obj s1 = Obj (s\<lparr>world := w0\<rparr>)" by (rule keeps_obj[where m = ?mark, OF _ s1]) (rule sendsR | simp only: send_simps | simp)+
  have o3: "Obj s3 = Obj s2" by (rule keeps_obj[where m = "?ever (Obj s2)", OF _ s3]) (rule sendsR | simp only: send_simps | simp)+
  obtain st conds where o2: "Obj s2 = (Obj s)\<lparr>dno_failover := st, dno_conditions := conds\<rparr>" and ready: "s_isReady S conds \<longleftrightarrow> dnReady (Obj s) st"
    using syncDNStatus_result[OF s2 laws] o1 by auto
  from finishDN_done[OF fin] reps ready have "dnComplete U T S (Obj s) sts (Obj s')"
    by (auto simp: dnComplete_def o3 o2 dnReady_def desiredSts_def)
  with get show ?thesis by blast
qed

section \<open>Sample runs\<close>

definition smallDN :: dn_spec where
  "smallDN = \<lparr>dns_pod = samplePodSet\<lparr>pd_replicas := 1\<rparr>, dns_cacheVolume = None, dns_cache = \<lparr>sk_memory = None, sk_disk = None\<rparr>\<rparr>"

definition smallDNSet :: dn_set where
  "smallDNSet = \<lparr>dno_name = ''d'', dno_ns = ''ns'', dno_uid = ''u2'', dno_kind = ''DNSet'', dno_spec = smallDN,
     dno_depLog = Some (''ns'', ''log''), dno_dep = Some (Some sampleDep), dno_conditions = [], dno_failover = \<lparr>fo_available = [], fo_failed = []\<rparr>\<rparr>"

theorem dn_finalize_order_witness:
  "fst (DNFinalize sampleTools (loggedS setEnv) \<lparr>Obj = smallDNSet, world = (setWorld, [])\<rparr>) = Inr True \<and>
   list_all (\<lambda>b. b) (absentDN setEnv smallDNSet)"
proof -
  let ?run = "DNFinalize sampleTools (loggedS setEnv) \<lparr>Obj = smallDNSet, world = (setWorld, [])\<rparr>"
  have fin: "fst ?run = Inr True"
    by (simp add: DNFinalize_def finalizeOwned_def deleteOwnedDN_def existOwnedDN_def releaseDN_def withBucket_def RemoveBucketFinalizer_def
        logSetBucket_def ClaimedBucket_def bucketMarkDN_def MakeHashFinalizer_def sampleDigest smallDNSet_def stsRefDN_def svcRef_def
        StatefulSetTemplate_def dnResourceName_def dnHeadlessSvcName_def ignoreNotFoundR_def existsR_def thenE_def liftE_def
        BucketDNFinalizerPrefix_def UniqueBucketLabel_def IsNotFound_def notFoundErr_def isPanic_def set_run_defs)
  with dn_finalize_order[of sampleTools setEnv "\<lparr>Obj = smallDNSet, world = (setWorld, [])\<rparr>" "Inr True" "snd ?run"] show ?thesis
    by (simp add: prod_eq_iff)
qed

text \<open>A running DN pod, and the stateful set that is asked for.\<close>

definition dnPod :: pod where
  "dnPod = oldPod\<lparr>pod_name := ''d-dn-0'', pod_labels := dnLabels smallDNSet\<rparr>"

definition dnWorld :: "kruise_sts \<Rightarrow> set_mem" where
  "dnWorld sts = setWorld\<lparr>sm_base := (sm_base setWorld)\<lparr>bm_pods := [dnPod]\<rparr>, sm_stss := [sts], sm_svcs := [buildHeadlessSvcDN smallDNSet]\<rparr>"

lemma dn_render:
  assumes t: "pm_spec t = emptyPodSpec"
  shows "\<exists>t'. renderDN sampleTools ''d'' smallDN sel localStorage sfx n t = Inr t'"
proof -
  let ?t = "if inplaceConfig sampleTools (dns_pod smallDN) then setAnno ConfigSuffixAnno sfx (syncPodMetaSet sampleTools (dns_pod smallDN) t)
    else syncPodMetaSet sampleTools (dns_pod smallDN) t"
  have spec: "pm_spec ?t = emptyPodSpec"
    by (simp add: t setAnno_def syncPodMetaSet_def OverlayPodMeta_def SyncPodMeta_def Let_def split: option.splits)
  have "\<exists>v. GoMemLimitEnv sampleTools (dns_pod smallDN) = Inr v"
    by (simp add: GoMemLimitEnv_def smallDN_def samplePodSet_def noOverlay_def noMain_def sampleTools_def or_defs)
  then obtain s where s: "syncPodSpecDN sampleTools ''d'' smallDN sel localStorage emptyPodSpec = Inr s" and "ps_volumes s = []"
    by (fastforce simp: syncPodSpecDN_def finish_volumes[OF sampleTools_laws] addedVolumes_def localStorage_def smallDN_def samplePodSet_def
        noOverlay_def emptyPodSpec_def)
  then have "\<exists>s'. setConfigVolume sampleTools n s = Inr s'"
    by (simp add: setConfigVolume_iff[OF sampleTools_laws] configOk_def)
  with s show ?thesis unfolding renderDN_def Let_def by (auto simp: overSpec_def spec thenE_def)
qed

lemma dn_config: "\<exists>cm. buildDNSetConfigMap sampleTools sampleCodec ''d'' ''ns'' smallDN sampleDep [] = Inr (cm, ''2000000'')"
proof -
  have "u_script sampleTools = (\<lambda>_ _ _ _. Inr ''script'')" by (simp add: sampleTools_def)
  moreover have "inplaceConfig sampleTools (dns_pod smallDN)"
    using small_inplace by (simp add: inplaceConfig_def opVersion_def smallDN_def drainCN_def)
  ultimately show ?thesis
    by (simp add: buildDNSetConfigMap_def sampleDep_def ToString_def MarshalTOML_def sampleCodec_def configData_def sampleDigest thenE_def)
qed

lemma dn_inplace: "inplaceConfig sampleTools (dns_pod smallDN)"
  using small_inplace by (simp add: inplaceConfig_def opVersion_def smallDN_def drainCN_def)

lemma dn_desired:
  assumes "pm_spec (kt_template sts) = emptyPodSpec"
  shows "\<exists>sts'. desiredSts sampleTools sampleCodec smallDNSet sampleDep [] sts = Inr sts'"
proof -
  obtain cm where cm: "buildDNSetConfigMap sampleTools sampleCodec ''d'' ''ns'' smallDN sampleDep [] = Inr (cm, ''2000000'')"
    using dn_config by blast
  obtain t where "renderDN sampleTools ''d'' smallDN (kt_selector sts) localStorage ''2000000'' (cm_name cm) (kt_template sts) = Inr t"
    using dn_render[OF assms] by blast
  with cm show ?thesis
    by (simp add: desiredSts_def smallDNSet_def thenE_def configMapUsed_def dn_inplace Let_def) (simp add: sampleDep_def)
qed

lemma syncPodsDN_runs:
  assumes dep: "dno_dep (Obj s) = Some (Some ld)"
    and cm: "buildDNSetConfigMap U T (dno_name (Obj s)) (dno_ns (Obj s)) (dno_spec (Obj s)) ld reserved = Inr (cm, sfx)"
    and inplace: "inplaceConfig U (dns_pod (dno_spec (Obj s)))" and ens: "ensureConfigMap U (s_l S) cm s = (Inr (cm_name cm), s2)"
    and des: "desiredSts U T (Obj s) ld reserved sts = Inr sts'"
  shows "syncPodsDN U T S reserved sts s = (Inr sts', s2)"
proof -
  let ?dn = "Obj s" let ?sp = "dno_spec ?dn"
  let ?t1 = "withSuffix U (dns_pod ?sp) sfx (syncPodMetaSet U (dns_pod ?sp) (kt_template sts))"
  from des cm obtain spec spec' where
      spec: "syncPodSpecDN U (dno_name ?dn) ?sp (kt_selector sts) (ld_storage ld) (pm_spec ?t1) = Inr spec"
      and spec': "setConfigVolume U (cm_name cm) spec = Inr spec'" and sts': "sts' = sts\<lparr>kt_template := ?t1\<lparr>pm_spec := spec'\<rparr>\<rparr>"
    by (auto simp: desiredSts_def Let_def configMapUsed_def inplace renderDN_def overSpec_Inr withSuffix_def thenE_Inr_iff)
  show ?thesis
    unfolding syncPodsDN_def bindR_getObj Let_def dep
    by (simp add: spec spec' cm ens sts' liftE_def depLogSet_def ret_def bindR_def SyncConfigMap_def inplace)
qed

text \<open>What the sample world answers.\<close>

lemma dn_world_reads:
  "api_list (l_pods (s_l setEnv)) ''ns'' (MatchingLabels (SubResourceLabels ''ns'' ''d'' ''DNSet'')) (dnWorld sts) = (Inr [dnPod], dnWorld sts)"
  "l_now (s_l setEnv) (dnWorld sts) = (700 * second, dnWorld sts)"
  "bm_logsets (sm_base (dnWorld sts)) = [sampleLogs]" "bm_buckets (sm_base (dnWorld sts)) = bm_buckets (sm_base setWorld)"
  "api_get (s_svcs setEnv) (''ns'', dnHeadlessSvcName ''d'') (dnWorld sts) = (Inr (buildHeadlessSvcDN smallDNSet), dnWorld sts)"
  "kt_name sts = ''d-dn'' \<Longrightarrow> kt_ns sts = ''ns'' \<Longrightarrow> api_get (s_stss setEnv) (''ns'', dnResourceName ''d'') (dnWorld sts) = (Inr sts, dnWorld sts)"
  by (simp_all add: dnWorld_def setEnv_def baseEnv_def baseKind_def onBase_def bucketEnv_def memKind_def Let_def podKey_def dnPod_def oldPod_def
      dnLabels_def subLabels_def smallDNSet_def SubResourceLabels_def NamespaceLabelKey_def InstanceLabelKey_def ComponentLabelKey_def
      buildHeadlessSvcDN_def HeadlessServiceTemplate_def dnResourceName_def dnHeadlessSvcName_def setWorld_def lateWorld_def bucketWorld_def)

lemma set_env_answers:
  "s_setCondition setEnv = (\<lambda>cs c w. (c # filter (\<lambda>d. cd_type d \<noteq> cd_type c) cs, w))" "l_s3Reclaim (s_l setEnv)"
  "s_isReady setEnv = list_ex (\<lambda>c. cd_type c = ConditionTypeReady \<and> cd_status c = ConditionTrue)"
  "s_podUp setEnv = (\<lambda>p w. (True, w))" "s_dryRunSts setEnv = (\<lambda>x w. (Inr x, w))"
  by (simp_all add: setEnv_def baseEnv_def bucketEnv_def)

lemma dn_world_marked:
  "AddBucketFinalizer (loggedL (s_l setEnv)) ''ns'' ''log'' (BucketDNFinalizerPrefix @ ''-2000000'') \<lparr>Obj = c, world = (dnWorld sts, l)\<rparr> =
     (Inr (), \<lparr>Obj = c, world = (dnWorld sts, l)\<rparr>)"
  using dn_world_reads(3,4)[of sts]
  by (simp add: AddBucketFinalizer_def logSetBucket_def ClaimedBucket_def UniqueBucketLabel_def BucketUniqLabel_def set_run_defs)

lemma dn_world_reserved:
  "reservedOrdinals sampleTools (loggedS setEnv) (dns_pod smallDN) (Some (Some sampleDep)) \<lparr>Obj = c, world = (dnWorld sts, l)\<rparr> =
     (Inr [], \<lparr>Obj = c, world = (dnWorld sts, l)\<rparr>)"
  by (simp add: reservedOrdinals_def discoveryFixed_def GetSemVer_def getImageTag_def samplePodSet_def smallDN_def sampleTools_def
      fetchLogSetReservedOrdinals_def sampleDep_def stsName_def resourceName_def dnWorld_def set_run_defs)

theorem dn_observe_complete_witness:
  "\<exists>sts s'. DNObserve sampleTools sampleCodec (loggedS setEnv) \<lparr>Obj = smallDNSet, world = (dnWorld sts, [])\<rparr> = (Inr None, s') \<and>
     s_isReady setEnv (dno_conditions (Obj s')) \<and> 1 \<le> int (length (fo_available (dno_failover (Obj s'))))"
proof -
  let ?sts0 = "(syncReplicasDN smallDNSet (buildDNSet smallDNSet))\<lparr>kt_statusUpdatedReady := 1\<rparr>"
  have "pm_spec (kt_template ?sts0) = emptyPodSpec"
    by (simp add: syncReplicasDN_def buildDNSet_def StatefulSetTemplate_def newTemplate_def Let_def)
  then obtain sts where des0: "desiredSts sampleTools sampleCodec smallDNSet sampleDep [] ?sts0 = Inr sts" using dn_desired by blast
  then have sts: "kt_name sts = ''d-dn''" "kt_ns sts = ''ns''" "kt_replicas sts = Some 1" "kt_statusUpdatedReady sts = 1"
    by (auto simp: desiredSts_def Let_def thenE_Inr_iff syncReplicasDN_def buildDNSet_def StatefulSetTemplate_def smallDNSet_def smallDN_def
        dnResourceName_def)
  have des: "desiredSts sampleTools sampleCodec smallDNSet sampleDep [] sts = Inr sts"
    using desiredSts_settles[OF sampleTools_laws] des0 unfolding settles_def by blast
  let ?s = "\<lparr>Obj = smallDNSet, world = (dnWorld sts, [])\<rparr>"
  let ?st = "CollectStoreStatus \<lparr>fo_available = [], fo_failed = []\<rparr> [(''d-dn-0'', True, 700 * second)]"
  let ?ready = "[newCondition ConditionTypeReady ConditionTrue reasonEmpty []]"
  let ?dn = "smallDNSet\<lparr>dno_failover := ?st, dno_conditions := ?ready\<rparr>"
  have st: "fo_available ?st = [\<lparr>sr_podName = ''d-dn-0'', sr_phase = StorePhaseUp, sr_lastTransition = 700 * second\<rparr>]"
    by (simp add: CollectStoreStatus_def storeOf_def previousStore_def Let_def)
  have stat: "syncDNStatus (loggedS setEnv) ?s = (Inr (), \<lparr>Obj = ?dn, world = (dnWorld sts, [])\<rparr>)"
    using dn_world_reads(1,2)[of sts] set_env_answers st
    by (simp add: syncDNStatus_def bindR_def getObj_def modObj_def wrapE_def callW_def readW_def readL_def SetCondition_def ret_def Let_def
        newCondition_def dnReady_def smallDNSet_def smallDN_def dnPod_def)
  let ?s1 = "\<lparr>Obj = ?dn, world = (dnWorld sts, [])\<rparr>"
  obtain cm where cm: "buildDNSetConfigMap sampleTools sampleCodec ''d'' ''ns'' smallDN sampleDep [] = Inr (cm, ''2000000'')"
    using dn_config by blast
  let ?s2 = "\<lparr>Obj = ?dn, world = (withConfigMap cm (dnWorld sts), [ConfigMapW (WCreate cm)])\<rparr>"
  have ens: "ensureConfigMap sampleTools (loggedL (s_l setEnv)) cm ?s1 = (Inr (cm_name cm), ?s2)"
    by (rule small_ensure) (simp add: dnWorld_def setWorld_def lateWorld_def bucketWorld_def)
  have sync: "syncPodsDN sampleTools sampleCodec (loggedS setEnv) [] sts ?s1 = (Inr sts, ?s2)"
    using cm ens des dn_inplace
    by (intro syncPodsDN_runs[where ld = sampleDep and cm = cm and sfx = "''2000000''"]) (simp_all add: smallDNSet_def desiredSts_def)
  obtain svc xs e where svc: "serviceR (loggedS setEnv) (metricSvcDN ?dn) (\<lambda>v. ret (mutateMetricSvcDN ?dn v)) ?s2 =
      (Inr svc, \<lparr>Obj = ?dn, world = ((withConfigMap cm (dnWorld sts))\<lparr>sm_svcs := xs\<rparr>, e # [ConfigMapW (WCreate cm)])\<rparr>)"
    using small_service by metis
  have fin: "fst (finishDN sampleTools sampleCodec (loggedS setEnv) sts ?s1) = Inr None"
    unfolding finishDN_def bindR_getObj Let_def
    using dn_world_reserved[where c = ?dn] sync svc sts set_env_answers
    by (simp add: bindR_def wrapE_def callW_def readL_def ret_def syncMetricServiceDN_def getObj_def newCondition_def smallDNSet_def smallDN_def)
  have obs: "fst (observeFoundDN sampleTools sampleCodec (loggedS setEnv) sts ?s) = Inr None"
    unfolding observeFoundDN_def bindR_getObj
    using dn_world_marked[where c = smallDNSet] stat fin sts set_env_answers small_bucket(2)[OF dn_world_reads(3,4)[of sts], of ?dn "[]"]
    by (simp add: bindR_def wrapE_def ret_def getObj_def withBucket_def bucketMarkDN_def MakeHashFinalizer_def sampleDigest thenE_def liftE_def
        orPanic_def smallDNSet_def smallDN_def)
  have "fst (DNObserve sampleTools sampleCodec (loggedS setEnv) ?s) = Inr None"
    unfolding DNObserve_def bindR_getObj using dn_world_reads(5)[of sts] dn_world_reads(6)[OF sts(1,2)] obs
    by (simp add: findR_def bindR_def wrapE_def attempt_def callW_def readL_def ret_def smallDNSet_def)
  then obtain s' where run: "DNObserve sampleTools sampleCodec (loggedS setEnv) ?s = (Inr None, s')" by (metis prod.collapse)
  from dn_observe_complete[OF setEnv_laws run] have "s_isReady setEnv (dno_conditions (Obj s'))" "1 \<le> int (length (fo_available (dno_failover (Obj s'))))"
    by (auto simp: dnComplete_def Let_def smallDNSet_def smallDN_def)
  with run show ?thesis by blast
qed

end
