(* ===== verification/Cluster_Objects.thy ===== *)
theory Cluster_Objects
  imports DNSet_Control
begin

text \<open>
  The objects of a whole cluster: the specifications of \<^verbatim>\<open>logset_types.go\<close>, \<^verbatim>\<open>proxy_types.go\<close>, \<^verbatim>\<open>webui_types.go\<close> and
  \<^verbatim>\<open>matrixonecluster_types.go\<close> with the helpers of \<^verbatim>\<open>matrixonecluster_helpers.go\<close>, and the sets as the cluster controller
  and the admission hooks see them. \<open>'w cenv\<close> is the outside world of the cluster controller.
\<close>

section \<open>Specifications\<close>

text \<open>The whole \<^verbatim>\<open>LogSetSpec\<close>; the log set controller sees the part \<open>logset_spec\<close> of it.\<close>

record log_spec =
  lsp_pod :: pod_set
  lsp_volume :: vol_claim
  lsp_storage :: shared_storage
  lsp_initial :: initial_config
  lsp_failureTimeout :: "int option"
  lsp_failedPodStrategy :: "failed_pod_strategy option"
  lsp_pvcRetention :: "retention_policy option"

definition partOf :: "log_spec \<Rightarrow> logset_spec" where
  "partOf l = \<lparr>lg_replicas = pd_replicas (lsp_pod l), lg_s3 = sh_s3 (lsp_storage l), lg_initialConfig = lsp_initial l,
     lg_storeFailureTimeout = lsp_failureTimeout l, lg_failedPodStrategy = lsp_failedPodStrategy l,
     lg_pvcRetention = lsp_pvcRetention l\<rparr>"

record proxy_spec =
  psp_pod :: pod_set
  psp_serviceType :: string
  psp_serviceAnnos :: gomap
  psp_nodePort :: "int option"
  psp_minReadySeconds :: int
  psp_waitPlugin :: "string option"

record webui_spec =
  wsp_pod :: pod_set
  wsp_serviceType :: string
  wsp_updateStrategy :: "(int option \<times> int option) option"
  wsp_pullPolicy :: "string option"

record cn_group =
  gr_spec :: cn_spec
  gr_name :: string

section \<open>The cluster\<close>

record group_status =
  gst_name :: string
  gst_host :: string
  gst_ready :: bool
  gst_synced :: bool

record groups_status =
  gss_desired :: int
  gss_ready :: int
  gss_synced :: int
  gss_groups :: "group_status list"

definition groupsSynced :: "groups_status \<Rightarrow> bool" where
  "groupsSynced g \<longleftrightarrow> gss_desired g \<le> gss_synced g"

definition groupsReady :: "groups_status \<Rightarrow> bool" where
  "groupsReady g \<longleftrightarrow> gss_desired g \<le> gss_ready g"

text \<open>The spec and the status of \<^verbatim>\<open>MatrixOneCluster\<close>; of the status of a set only its conditions, its host and its port are
  read, the rest is copied.\<close>

record mo_spec =
  mos_tp :: "cn_spec option"
  mos_ap :: "cn_spec option"
  mos_groups :: "cn_group list"
  mos_dn :: "dn_spec option"
  mos_tn :: "dn_spec option"
  mos_log :: log_spec
  mos_webui :: "webui_spec option"
  mos_proxy :: "proxy_spec option"
  mos_version :: string
  mos_repository :: string
  mos_topology :: "string list option"
  mos_nodeSelector :: gomap
  mos_pullPolicy :: "string option"
  mos_restoreFrom :: "string option"
  mos_metricReader :: "bool option"
  mos_semVersion :: "string option"
  mos_opVersion :: "string option"
  mos_memoryFs :: "int option"

record set_status =
  sst_conditions :: "condition list"
  sst_host :: string
  sst_port :: int

record mo_status =
  mst_conditions :: "condition list"
  mst_phase :: string
  mst_credential :: "string option"
  mst_metricSecret :: "string option"
  mst_metricInitialized :: bool
  mst_groups :: groups_status
  mst_dn :: "set_status option"
  mst_proxy :: "set_status option"
  mst_webui :: "set_status option"
  mst_log :: "set_status option"
  mst_host :: string
  mst_port :: int

record mo_cluster =
  mo_name :: string
  mo_ns :: string
  mo_annos :: gomap
  mo_spec :: mo_spec
  mo_status :: mo_status

definition GetMetricReaderEnabled :: "mo_cluster \<Rightarrow> bool" where
  "GetMetricReaderEnabled m = (case mos_metricReader (mo_spec m) of None \<Rightarrow> False | Some b \<Rightarrow> b)"

definition GetTN :: "mo_cluster \<Rightarrow> dn_spec option" where
  "GetTN m = (case mos_tn (mo_spec m) of None \<Rightarrow> mos_dn (mo_spec m) | Some x \<Rightarrow> Some x)"

definition DefaultImage :: "mo_cluster \<Rightarrow> string" where
  "DefaultImage m = mos_repository (mo_spec m) @ '':'' @ mos_version (mo_spec m)"

definition LogSetImage :: "mo_cluster \<Rightarrow> string" where
  "LogSetImage m = orStr (pd_image (lsp_pod (mos_log (mo_spec m)))) (DefaultImage m)"

text \<open>\<^verbatim>\<open>GetTN().Image\<close> is read for the specification \<open>tn\<close>.\<close>

definition DnSetImage :: "mo_cluster \<Rightarrow> dn_spec \<Rightarrow> string" where
  "DnSetImage m tn = orStr (pd_image (dns_pod tn)) (DefaultImage m)"

definition ProxySetImage :: "mo_cluster \<Rightarrow> string" where
  "ProxySetImage m = (case mos_proxy (mo_spec m) of None \<Rightarrow> [] | Some p \<Rightarrow> orStr (pd_image (psp_pod p)) (DefaultImage m))"

definition CNSetImage :: "mo_cluster \<Rightarrow> cn_spec \<Rightarrow> string" where
  "CNSetImage m sp = orStr (pd_image (cns_pod sp)) (DefaultImage m)"

section \<open>Sets of a cluster\<close>

text \<open>A log, DN, CN, proxy set or web UI with a specification of type \<open>'sp\<close>; \<open>sb_logSet\<close> and \<open>sb_dnSet\<close> are the keys in its
  dependencies.\<close>

record 'sp sub =
  sb_name :: string
  sb_ns :: string
  sb_labels :: gomap
  sb_spec :: 'sp
  sb_logSet :: "obj_key option"
  sb_dnSet :: "obj_key option"
  sb_status :: set_status

definition noStatus :: set_status where
  "noStatus = \<lparr>sst_conditions = [], sst_host = [], sst_port = 0\<rparr>"

text \<open>The zero values of the specifications, before a closure fills them.\<close>

definition zeroPodSet :: pod_set where
  "zeroPodSet = \<lparr>pd_image = [], pd_resources = [], pd_memLimit = 0, pd_memRequest = 0, pd_overlay = None, pd_replicas = 0,
     pd_topology = None, pd_nodeSelector = None, pd_config = None, pd_dnsIdentity = None, pd_clusterDomain = [], pd_serviceArgs = [],
     pd_memLimitPercent = None, pd_exportProm = None, pd_promScheme = None, pd_semVersion = None, pd_opVersion = None,
     pd_memoryFs = None\<rparr>"

definition zeroLogSpec :: log_spec where
  "zeroLogSpec = \<lparr>lsp_pod = zeroPodSet, lsp_volume = \<lparr>vc_size = 0, vc_class = None\<rparr>, lsp_storage = \<lparr>sh_s3 = None, sh_fs = None\<rparr>,
     lsp_initial = \<lparr>ic_logShards = None, ic_dnShards = None, ic_logShardReplicas = None, ic_restoreFrom = None\<rparr>,
     lsp_failureTimeout = None, lsp_failedPodStrategy = None, lsp_pvcRetention = None\<rparr>"

definition zeroDNSpec :: dn_spec where
  "zeroDNSpec = \<lparr>dns_pod = zeroPodSet, dns_cacheVolume = None, dns_cache = \<lparr>sk_memory = None, sk_disk = None\<rparr>\<rparr>"

definition zeroCNSpec :: cn_spec where
  "zeroCNSpec = \<lparr>cns_pod = zeroPodSet, cns_cacheVolume = None, cns_cache = \<lparr>sk_memory = None, sk_disk = None\<rparr>,
     cns_sidecar = \<lparr>us_enabled = False, us_port = 0, us_image = [], us_resources = [], us_overlay = None\<rparr>,
     cns_serviceType = [], cns_serviceAnnos = None, cns_nodePort = None, cns_role = [], cns_labels = [],
     cns_scaling = \<lparr>sc_storeDrainEnabled = None, sc_storeDrainTimeout = None, sc_minDelaySeconds = None\<rparr>,
     cns_maxSurge = None, cns_maxUnavailable = None, cns_termination = None, cns_podManagement = None,
     cns_podsToDelete = [], cns_pauseUpdate = False, cns_reusePVC = None\<rparr>"

definition zeroProxySpec :: proxy_spec where
  "zeroProxySpec = \<lparr>psp_pod = zeroPodSet, psp_serviceType = [], psp_serviceAnnos = None, psp_nodePort = None,
     psp_minReadySeconds = 0, psp_waitPlugin = None\<rparr>"

definition zeroWebUISpec :: webui_spec where
  "zeroWebUISpec = \<lparr>wsp_pod = zeroPodSet, wsp_serviceType = [], wsp_updateStrategy = None, wsp_pullPolicy = None\<rparr>"

definition newSub :: "obj_key \<Rightarrow> 'sp \<Rightarrow> 'sp sub" where
  "newSub k sp = \<lparr>sb_name = snd k, sb_ns = fst k, sb_labels = None, sb_spec = sp, sb_logSet = None, sb_dnSet = None, sb_status = noStatus\<rparr>"

record secret =
  sec_name :: string
  sec_ns :: string
  sec_data :: "(string \<times> string) list"

record restore_job =
  rj_name :: string
  rj_ns :: string
  rj_backup :: string
  rj_target :: shared_storage
  rj_phase :: string

text \<open>\<open>begin\<close> and \<open>commit\<close> are \<^verbatim>\<open>recon.CreateOwnedOrUpdate\<close> around the closure; \<open>c_sameX\<close> is \<^verbatim>\<open>equality.Semantic.DeepEqual\<close> on a
  kind; \<open>c_upsertGroup\<close> is \<^verbatim>\<open>util.UpsertByKey\<close> by the name; \<open>c_query\<close> runs a statement over the SQL client of a host.\<close>

record 'w cenv =
  c_logs :: "(log_spec sub, 'w) kind_api"
  c_dns :: "(dn_spec sub, 'w) kind_api"
  c_cns :: "(cn_spec sub, 'w) kind_api"
  c_webuis :: "(webui_spec sub, 'w) kind_api"
  c_webuiBegin :: "webui_spec sub \<Rightarrow> 'w \<Rightarrow> (err + webui_spec sub) \<times> 'w"
  c_webuiCommit :: "webui_spec sub \<Rightarrow> webui_spec sub \<Rightarrow> 'w \<Rightarrow> (err + webui_spec sub) \<times> 'w"
  c_proxyBegin :: "proxy_spec sub \<Rightarrow> 'w \<Rightarrow> (err + proxy_spec sub) \<times> 'w"
  c_proxyCommit :: "proxy_spec sub \<Rightarrow> proxy_spec sub \<Rightarrow> 'w \<Rightarrow> (err + proxy_spec sub) \<times> 'w"
  c_restoreBegin :: "restore_job \<Rightarrow> 'w \<Rightarrow> (err + restore_job) \<times> 'w"
  c_restoreCommit :: "restore_job \<Rightarrow> restore_job \<Rightarrow> 'w \<Rightarrow> (err + restore_job) \<times> 'w"
  c_backups :: "obj_key \<Rightarrow> 'w \<Rightarrow> (err + string) \<times> 'w"
  c_secrets :: "(secret, 'w) kind_api"
  c_deleteAllCNs :: "string \<Rightarrow> list_opt \<Rightarrow> 'w \<Rightarrow> (err + unit) \<times> 'w"
  c_updateStatus :: "mo_cluster \<Rightarrow> 'w \<Rightarrow> (err + mo_cluster) \<times> 'w"
  c_setCondition :: "condition list \<Rightarrow> condition \<Rightarrow> 'w \<Rightarrow> condition list \<times> 'w"
  c_isReady :: "condition list \<Rightarrow> bool"
  c_isSynced :: "condition list \<Rightarrow> bool"
  c_query :: "string \<Rightarrow> obj_key \<Rightarrow> string \<Rightarrow> 'w \<Rightarrow> (err + unit) \<times> 'w"
  c_rand :: "'w \<Rightarrow> string \<times> 'w"
  c_sameLog :: "log_spec sub \<Rightarrow> log_spec sub \<Rightarrow> bool"
  c_sameDN :: "dn_spec sub \<Rightarrow> dn_spec sub \<Rightarrow> bool"
  c_sameCN :: "cn_spec sub \<Rightarrow> cn_spec sub \<Rightarrow> bool"
  c_upsertGroup :: "group_status list \<Rightarrow> group_status \<Rightarrow> group_status list"

end
