(* ===== verification/Cluster_Control.thy ===== *)
theory Cluster_Control
  imports Cluster_Objects
begin

text \<open>
  The cluster controller, \<^verbatim>\<open>mocluster/controller.go\<close>, with \<^verbatim>\<open>CreateOwnedOrUpdate\<close> of \<^verbatim>\<open>utils/utils.go\<close>. It writes the log set, the DN
  set, one CN set per group, the web UI and the proxy of a cluster, collects their status and removes what is no longer wanted.
\<close>

section \<open>Writing a set\<close>

datatype op_result = OperationResultNone | OperationResultCreated | OperationResultUpdated

definition mutate :: "obj_key \<Rightarrow> ('sp sub \<Rightarrow> err + 'sp sub) \<Rightarrow> 'sp sub \<Rightarrow> err + 'sp sub" where
  "mutate key f x = thenE (f x) (\<lambda>y. if (sb_ns y, sb_name y) = key then Inr y
     else Inl (Err Plain ''MutateFn cannot mutate object name and/or object namespace''))"

definition createOwnedOrUpdate ::
  "('sp sub, 'w) kind_api \<Rightarrow> ('sp sub \<Rightarrow> 'sp sub \<Rightarrow> bool) \<Rightarrow> 'sp sub \<Rightarrow> ('sp sub \<Rightarrow> err + 'sp sub)
    \<Rightarrow> (('o, 'w) ctx, op_result \<times> 'sp sub) rm" where
  "createOwnedOrUpdate A same obj f =
     (let key = (sb_ns obj, sb_name obj) in
      bindR (findR (api_get A key)) (\<lambda>found. case found of
        None \<Rightarrow> bindR (liftE (mutate key f obj)) (\<lambda>x. bindR (callW (api_create A x)) (\<lambda>y. ret (OperationResultCreated, y)))
      | Some existing \<Rightarrow> bindR (liftE (mutate key f existing)) (\<lambda>x.
          if same existing x then ret (OperationResultNone, x)
          else bindR (callW (api_update A x)) (\<lambda>y. ret (OperationResultUpdated, y)))))"

section \<open>Keys and names\<close>

definition RestoreCompleteAnno :: string where "RestoreCompleteAnno = ''matrixorigin.io/restore-complete''"
definition annSkipSync :: string where "annSkipSync = ''matrixorigin.io/skip-sync''"
definition MatrixoneClusterLabelKey :: string where "MatrixoneClusterLabelKey = ''matrixorigin.io/cluster''"
definition resyncAfter :: int where "resyncAfter = 15 * second"
definition usernameKey :: string where "usernameKey = ''username''"
definition passwordKey :: string where "passwordKey = ''password''"
definition accountKey :: string where "accountKey = ''account''"
definition roleKey :: string where "roleKey = ''role''"
definition defaultHKDataPath :: string where "defaultHKDataPath = ''hk_data''"
definition ConditionTypeSynced :: string where "ConditionTypeSynced = ''Synced''"

definition LogSetKey :: "mo_cluster \<Rightarrow> obj_key" where "LogSetKey m = (mo_ns m, mo_name m)"
definition DNSetKey :: "mo_cluster \<Rightarrow> obj_key" where "DNSetKey m = (mo_ns m, mo_name m)"
definition WebUIKey :: "mo_cluster \<Rightarrow> obj_key" where "WebUIKey m = (mo_ns m, mo_name m)"
definition ProxyKey :: "mo_cluster \<Rightarrow> obj_key" where "ProxyKey m = (mo_ns m, mo_name m)"

text \<open>\<^verbatim>\<open>CNSetKey\<close>, the metadata of a CN set, as an object with the zero specification.\<close>

definition CNSetKey :: "mo_cluster \<Rightarrow> string \<Rightarrow> cn_spec sub" where
  "CNSetKey m name = (newSub (mo_ns m, name) zeroCNSpec)\<lparr>sb_labels := Some [MatrixoneClusterLabelKey \<mapsto> mo_name m]\<rparr>"

definition credentialName :: "mo_cluster \<Rightarrow> string" where
  "credentialName m = mo_name m @ ''-credential''"

definition metricCredentialName :: "mo_cluster \<Rightarrow> string" where
  "metricCredentialName m = mo_name m @ ''-metric''"

section \<open>What a set inherits from the cluster\<close>

text \<open>The source writes these defaults through the overlay and configuration pointers that the new set shares with the cluster, so
  the copy of the cluster in memory is changed too. The specification of each set is computed once in a reconciliation and the
  cluster is written back only through its status, so the model keeps the value of the cluster as it was read.\<close>

definition setPodSetDefault :: "mo_cluster \<Rightarrow> pod_set \<Rightarrow> pod_set" where
  "setPodSetDefault m p = p\<lparr>
     pd_nodeSelector := orSome (pd_nodeSelector p) (mos_nodeSelector (mo_spec m)),
     pd_topology := orSome (pd_topology p) (mos_topology (mo_spec m)),
     pd_semVersion := orSome (pd_semVersion p) (mos_semVersion (mo_spec m)),
     pd_opVersion := orSome (pd_opVersion p) (mos_opVersion (mo_spec m)),
     pd_memoryFs := orSome (pd_memoryFs p) (mos_memoryFs (mo_spec m))\<rparr>"

definition setOverlay :: "mo_cluster \<Rightarrow> pod_overlay option \<Rightarrow> pod_overlay" where
  "setOverlay m ov =
     (let x = orElse ov noOverlay in
      x\<lparr>po_main := (po_main x)\<lparr>oc_pullPolicy := orSome (oc_pullPolicy (po_main x)) (mos_pullPolicy (mo_spec m))\<rparr>,
        po_labels := Some ((the (gmake (po_labels x)))(MatrixoneClusterLabelKey \<mapsto> mo_name m))\<rparr>)"

definition inherit :: "mo_cluster \<Rightarrow> string \<Rightarrow> pod_set \<Rightarrow> pod_set" where
  "inherit m img p = (setPodSetDefault m p)\<lparr>pd_overlay := Some (setOverlay m (pd_overlay p)), pd_image := img\<rparr>"

definition logSpecOf :: "mo_cluster \<Rightarrow> log_spec" where
  "logSpecOf m =
     (let l = mos_log (mo_spec m) in
      l\<lparr>lsp_pod := inherit m (LogSetImage m) (lsp_pod l),
        lsp_initial := (if mos_restoreFrom (mo_spec m) \<noteq> None
          then (lsp_initial l)\<lparr>ic_restoreFrom := Some defaultHKDataPath\<rparr> else lsp_initial l)\<rparr>)"

text \<open>A cluster with neither a TN nor a DN specification dereferences nil.\<close>

definition dnSpecOf :: "mo_cluster \<Rightarrow> err + dn_spec" where
  "dnSpecOf m = (case GetTN m of
      None \<Rightarrow> Inl nilPanic
    | Some tn \<Rightarrow> Inr (tn\<lparr>dns_pod := inherit m (DnSetImage m tn) (dns_pod tn)\<rparr>))"

definition proxySpecOf :: "mo_cluster \<Rightarrow> proxy_spec \<Rightarrow> proxy_spec" where
  "proxySpecOf m p = p\<lparr>psp_pod := inherit m (ProxySetImage m) (psp_pod p)\<rparr>"

section \<open>CN groups\<close>

definition cnGroups :: "mo_cluster \<Rightarrow> cn_group list" where
  "cnGroups m = mos_groups (mo_spec m)
     @ (case mos_tp (mo_spec m) of
          None \<Rightarrow> []
        | Some sp \<Rightarrow> [\<lparr>gr_spec = sp\<lparr>cns_pod := (cns_pod sp)\<lparr>pd_dnsIdentity := orSome (pd_dnsIdentity (cns_pod sp)) (Some False)\<rparr>\<rparr>,
                       gr_name = ''tp''\<rparr>])
     @ (case mos_ap (mo_spec m) of None \<Rightarrow> [] | Some sp \<Rightarrow> [\<lparr>gr_spec = sp, gr_name = ''ap''\<rparr>])"

definition cnSetName :: "mo_cluster \<Rightarrow> cn_group \<Rightarrow> string" where
  "cnSetName m g = mo_name m @ ''-'' @ gr_name g"

definition passwordEnv :: "string \<Rightarrow> env_var" where
  "passwordEnv cred = \<lparr>ev_name = ''DEFAULT_PASSWORD'', ev_src = EnvSecretKey cred ''password''\<rparr>"

definition proxyEnabled :: "toml_config option \<Rightarrow> toml_config" where
  "proxyEnabled c = SetPath (orNewConfig c) [''cn'', ''frontend'', ''proxy-enabled''] (VOther ''true'')"

definition addPassword :: "tools \<Rightarrow> string \<Rightarrow> pod_overlay \<Rightarrow> pod_overlay" where
  "addPassword U cred x = x\<lparr>po_main := (po_main x)\<lparr>oc_env := Some (u_upsertEnv U (orElse (oc_env (po_main x)) []) (passwordEnv cred))\<rparr>\<rparr>"

definition groupSpec :: "tools \<Rightarrow> mo_cluster \<Rightarrow> string \<Rightarrow> cn_group \<Rightarrow> cn_spec" where
  "groupSpec U m cred g =
     (let sp = gr_spec g; p = cns_pod sp;
          p1 = (if mos_proxy (mo_spec m) \<noteq> None then p\<lparr>pd_config := Some (proxyEnabled (pd_config p))\<rparr> else p);
          p2 = setPodSetDefault m p1
      in sp\<lparr>cns_pod := p2\<lparr>pd_overlay := Some (addPassword U cred (setOverlay m (pd_overlay p))), pd_image := CNSetImage m sp\<rparr>\<rparr>)"

text \<open>The closure for one group: the label for older CN sets, then the specification. A cluster without a credential
  dereferences nil.\<close>

definition syncGroup :: "tools \<Rightarrow> mo_cluster \<Rightarrow> cn_group \<Rightarrow> cn_spec sub \<Rightarrow> err + cn_spec sub" where
  "syncGroup U m g x = (case mst_credential (mo_status m) of
      None \<Rightarrow> Inl nilPanic
    | Some cred \<Rightarrow> Inr (x\<lparr>sb_labels := Some ((the (gmake (sb_labels x)))(MatrixoneClusterLabelKey \<mapsto> mo_name m)),
        sb_spec := groupSpec U m cred g\<rparr>))"

definition syncOneGroup :: "tools \<Rightarrow> 'w cenv \<Rightarrow> cn_group \<Rightarrow> ((mo_cluster, 'w) ctx, unit) rm" where
  "syncOneGroup U E g =
     bindR getObj (\<lambda>m.
     bindR (createOwnedOrUpdate (c_cns E) (c_sameCN E)
              ((CNSetKey m (cnSetName m g))\<lparr>sb_logSet := Some (LogSetKey m), sb_dnSet := Some (DNSetKey m)\<rparr>)
              (syncGroup U m g)) (\<lambda>_. ret ()))"

section \<open>CN sets no longer needed, and the status of the others\<close>

definition groupStatusOf :: "'w cenv \<Rightarrow> mo_cluster \<Rightarrow> cn_spec sub \<Rightarrow> group_status" where
  "groupStatusOf E m c = \<lparr>gst_name = sb_name c, gst_host = sb_name c @ ''-cn'' @ ''.'' @ mo_ns m,
     gst_ready = c_isReady E (sst_conditions (sb_status c)), gst_synced = c_isSynced E (sst_conditions (sb_status c))\<rparr>"

definition countGroup :: "'w cenv \<Rightarrow> mo_cluster \<Rightarrow> cn_spec sub \<Rightarrow> groups_status \<Rightarrow> groups_status" where
  "countGroup E m c gs =
     (let st = groupStatusOf E m c in
      gs\<lparr>gss_ready := (if gst_ready st then gss_ready gs + 1 else gss_ready gs),
         gss_synced := (if gst_synced st then gss_synced gs + 1 else gss_synced gs),
         gss_groups := c_upsertGroup E (gss_groups gs) st\<rparr>)"

fun collectGroups :: "'w cenv \<Rightarrow> mo_cluster \<Rightarrow> string set \<Rightarrow> cn_spec sub option \<Rightarrow> groups_status \<Rightarrow> cn_spec sub list
    \<Rightarrow> ((mo_cluster, 'w) ctx, cn_spec sub option \<times> groups_status) rm" where
  "collectGroups E m desired firstCN gs [] = ret (firstCN, gs)"
| "collectGroups E m desired firstCN gs (c # cs) =
     (if sb_name c \<notin> desired
      then bindR (wrapE ''error delete cnset'' (callW (api_delete (c_cns E) c))) (\<lambda>_. collectGroups E m desired firstCN gs cs)
      else collectGroups E m desired (case firstCN of None \<Rightarrow> Some c | Some x \<Rightarrow> Some x) (countGroup E m c gs) cs)"

definition cnSelector :: "mo_cluster \<Rightarrow> list_opt" where
  "cnSelector m = MatchingLabels [(MatrixoneClusterLabelKey, mo_name m)]"

definition gcGroups :: "'w cenv \<Rightarrow> ((mo_cluster, 'w) ctx, cn_spec sub option) rm" where
  "gcGroups E =
     bindR getObj (\<lambda>m.
     bindR (wrapE ''error list current CNSets of the cluster'' (callW (api_list (c_cns E) (mo_ns m) (cnSelector m)))) (\<lambda>cs.
     bindR (collectGroups E m (cnSetName m ` set (cnGroups m)) None
              \<lparr>gss_desired = int (length (cnGroups m)), gss_ready = 0, gss_synced = 0, gss_groups = []\<rparr> cs) (\<lambda>(firstCN, gs).
     bindR (modObj (\<lambda>c. c\<lparr>mo_status := (mo_status c)\<lparr>mst_groups := gs\<rparr>\<rparr>)) (\<lambda>_. ret firstCN))))"

section \<open>Web UI and proxy\<close>

definition ownedR :: "('a \<Rightarrow> 'w \<Rightarrow> (err + 'a) \<times> 'w) \<Rightarrow> ('a \<Rightarrow> 'a \<Rightarrow> 'w \<Rightarrow> (err + 'a) \<times> 'w) \<Rightarrow> 'a \<Rightarrow> ('a \<Rightarrow> 'a) \<Rightarrow> (('o, 'w) ctx, 'a) rm" where
  "ownedR bgn cmt x f = bindR (callW (bgn x)) (\<lambda>old. callW (cmt old (f old)))"

definition syncWebUI :: "'w cenv \<Rightarrow> ((mo_cluster, 'w) ctx, unit) rm" where
  "syncWebUI E =
     bindR getObj (\<lambda>m. case mos_webui (mo_spec m) of
       None \<Rightarrow> ret ()
     | Some sp \<Rightarrow>
         bindR (wrapE ''sync webUI'' (ownedR (c_webuiBegin E) (c_webuiCommit E) (newSub (WebUIKey m) zeroWebUISpec) (\<lambda>x. x\<lparr>sb_spec := sp\<rparr>))) (\<lambda>x.
         modObj (\<lambda>c. c\<lparr>mo_status := (mo_status c)\<lparr>mst_webui := Some (sb_status x)\<rparr>\<rparr>)))"

definition syncProxy :: "'w cenv \<Rightarrow> ((mo_cluster, 'w) ctx, unit) rm" where
  "syncProxy E =
     bindR getObj (\<lambda>m. case mos_proxy (mo_spec m) of
       None \<Rightarrow> ret ()
     | Some sp \<Rightarrow>
         bindR (wrapE ''sync proxy'' (ownedR (c_proxyBegin E) (c_proxyCommit E)
                  ((newSub (ProxyKey m) zeroProxySpec)\<lparr>sb_logSet := Some (LogSetKey m)\<rparr>) (\<lambda>x. x\<lparr>sb_spec := proxySpecOf m sp\<rparr>))) (\<lambda>x.
         modObj (\<lambda>c. c\<lparr>mo_status := (mo_status c)\<lparr>mst_proxy := Some (sb_status x)\<rparr>\<rparr>)))"

section \<open>Conditions\<close>

text \<open>The statuses are collected before; the conditions of a status that is not there are none.\<close>

definition condsOf :: "set_status option \<Rightarrow> condition list" where
  "condsOf st = (case st of None \<Rightarrow> [] | Some x \<Rightarrow> sst_conditions x)"

definition readyCondition :: "'w cenv \<Rightarrow> mo_cluster \<Rightarrow> condition" where
  "readyCondition E m =
     (let st = mo_status m in
      if \<not> c_isReady E (condsOf (mst_log st)) then newCondition ConditionTypeReady ConditionFalse ''LogServiceNotReady'' []
      else if \<not> c_isReady E (condsOf (mst_dn st)) then newCondition ConditionTypeReady ConditionFalse ''DNSetNotReady'' []
      else if \<not> groupsReady (mst_groups st) then newCondition ConditionTypeReady ConditionFalse ''SomeCNSetsAreNotReady'' []
      else if mos_proxy (mo_spec m) \<noteq> None \<and> \<not> c_isReady E (condsOf (mst_proxy st))
        then newCondition ConditionTypeReady ConditionFalse ''ProxySetNotReady'' []
      else newCondition ConditionTypeReady ConditionTrue ''AllSetsReady'' [])"

definition syncedCondition :: "'w cenv \<Rightarrow> mo_cluster \<Rightarrow> condition" where
  "syncedCondition E m =
     (let st = mo_status m in
      if \<not> c_isSynced E (condsOf (mst_log st)) then newCondition ConditionTypeSynced ConditionFalse ''LogServiceNotSynced'' []
      else if \<not> c_isSynced E (condsOf (mst_dn st)) then newCondition ConditionTypeSynced ConditionFalse ''DNSetNotSynced'' []
      else if \<not> groupsSynced (mst_groups st) then newCondition ConditionTypeSynced ConditionFalse ''SomeCNSetsAreNotSynced'' []
      else if mos_proxy (mo_spec m) \<noteq> None \<and> \<not> c_isSynced E (condsOf (mst_proxy st))
        then newCondition ConditionTypeSynced ConditionFalse ''ProxyNotSynced'' []
      else newCondition ConditionTypeSynced ConditionTrue ''AllSetsSynced'' [])"

definition setClusterCondition :: "'w cenv \<Rightarrow> condition \<Rightarrow> ((mo_cluster, 'w) ctx, unit) rm" where
  "setClusterCondition E c =
     bindR getObj (\<lambda>m.
     bindR (readW (c_setCondition E (mst_conditions (mo_status m)) (if cd_reason c = [] then c\<lparr>cd_reason := reasonEmpty\<rparr> else c))) (\<lambda>cs.
     modObj (\<lambda>x. x\<lparr>mo_status := (mo_status x)\<lparr>mst_conditions := cs\<rparr>\<rparr>)))"

section \<open>Credentials\<close>

definition rootSecret :: "mo_cluster \<Rightarrow> secret" where
  "rootSecret m = \<lparr>sec_name = credentialName m, sec_ns = mo_ns m, sec_data = [(usernameKey, ''dump''), (passwordKey, ''111'')]\<rparr>"

definition InitRootCredential :: "'w cenv \<Rightarrow> ((mo_cluster, 'w) ctx, unit) rm" where
  "InitRootCredential E =
     bindR getObj (\<lambda>m.
     if mst_credential (mo_status m) \<noteq> None then ret ()
     else
       bindR (callW (api_create (c_secrets E) (rootSecret m))) (\<lambda>sec.
       bindR (modObj (\<lambda>x. x\<lparr>mo_status := (mo_status x)\<lparr>mst_credential := Some (sec_name sec)\<rparr>\<rparr>)) (\<lambda>_.
       updateObj (c_updateStatus E))))"

text \<open>\<open>c_rand\<close> is \<^verbatim>\<open>base64.URLEncoding.EncodeToString\<close> of 32 random bytes.\<close>

definition randPassword :: "'w cenv \<Rightarrow> nat \<Rightarrow> (('o, 'w) ctx, string) rm" where
  "randPassword E n = bindR (readW (c_rand E)) (\<lambda>b. ret (take n b))"

definition InitMetricCredential :: "'w cenv \<Rightarrow> ((mo_cluster, 'w) ctx, secret) rm" where
  "InitMetricCredential E =
     bindR getObj (\<lambda>m. case mst_metricSecret (mo_status m) of
       Some name \<Rightarrow> wrapE ''error get metrics secret'' (callW (api_get (c_secrets E) (mo_ns m, name)))
     | None \<Rightarrow>
         bindR (randPassword E 12) (\<lambda>pw.
         bindR (callW (api_create (c_secrets E) \<lparr>sec_name = metricCredentialName m, sec_ns = mo_ns m,
                  sec_data = [(usernameKey, ''mo_operator''), (accountKey, ''sys''), (roleKey, ''metric_reader''), (passwordKey, pw)]\<rparr>)) (\<lambda>sec.
         bindR (modObj (\<lambda>x. x\<lparr>mo_status := (mo_status x)\<lparr>mst_metricSecret := Some (sec_name sec)\<rparr>\<rparr>)) (\<lambda>_.
         bindR (updateObj (c_updateStatus E)) (\<lambda>_. ret sec)))))"

definition secretValue :: "secret \<Rightarrow> string \<Rightarrow> string" where
  "secretValue sec k = (case map_of (sec_data sec) k of None \<Rightarrow> [] | Some v \<Rightarrow> v)"

definition backquoted :: "string \<Rightarrow> string" where
  "backquoted v = [CHR 0x60] @ v @ [CHR 0x60]"

text \<open>The statements of \<^verbatim>\<open>initializeMetricUser\<close>, each with the prefix of its error.\<close>

definition metricStatements :: "secret \<Rightarrow> (string \<times> string) list" where
  "metricStatements sec =
     (let user = secretValue sec usernameKey; role = secretValue sec roleKey in
      [(''create operator user'', ''CREATE USER IF NOT EXISTS '' @ backquoted user @ '' identified by '' @ [CHR 0x27] @ secretValue sec passwordKey @ [CHR 0x27]),
       (''create metric role'', ''CREATE ROLE IF NOT EXISTS '' @ backquoted role),
       (''grant permission'', ''GRANT connect ON ACCOUNT * TO '' @ backquoted role),
       (''grant permission'', ''GRANT select ON TABLE system_metrics.* TO '' @ role),
       (''grant permission'', ''GRANT '' @ backquoted role @ '' TO '' @ backquoted user)])"

definition initializeMetricUser :: "'w cenv \<Rightarrow> string \<Rightarrow> ((mo_cluster, 'w) ctx, unit) rm" where
  "initializeMetricUser E host =
     bindR (wrapE ''init metric credential'' (InitMetricCredential E)) (\<lambda>sec.
     bindR getObj (\<lambda>m. case mst_credential (mo_status m) of
       None \<Rightarrow> throw nilPanic
     | Some cred \<Rightarrow>
         bindR (forR (\<lambda>(pre, q). wrapE pre (callW (c_query E (host @ '':'' @ goItoa 6001) (mo_ns m, cred) q))) (metricStatements sec)) (\<lambda>_.
         bindR (modObj (\<lambda>x. x\<lparr>mo_status := (mo_status x)\<lparr>mst_metricInitialized := True\<rparr>\<rparr>)) (\<lambda>_.
         updateObj (c_updateStatus E)))))"

section \<open>Observe\<close>

definition syncSets :: "tools \<Rightarrow> 'w cenv \<Rightarrow> ((mo_cluster, 'w) ctx, log_spec sub \<times> dn_spec sub) rm" where
  "syncSets U E =
     bindR getObj (\<lambda>m.
     bindR (wrapE ''sync LogSet'' (createOwnedOrUpdate (c_logs E) (c_sameLog E) (newSub (LogSetKey m) zeroLogSpec)
              (\<lambda>x. Inr (x\<lparr>sb_spec := logSpecOf m\<rparr>)))) (\<lambda>(_, ls).
     bindR (wrapE ''sync DNSet'' (createOwnedOrUpdate (c_dns E) (c_sameDN E) ((newSub (DNSetKey m) zeroDNSpec)\<lparr>sb_logSet := Some (LogSetKey m)\<rparr>)
              (\<lambda>x. thenE (dnSpecOf m) (\<lambda>sp. Inr (x\<lparr>sb_spec := sp\<rparr>))))) (\<lambda>(_, dn).
     bindR (forR (syncOneGroup U E) (cnGroups m)) (\<lambda>_. ret (ls, dn)))))"

text \<open>\<^verbatim>\<open>collect status\<close>: the conditions are computed from the statuses just collected.\<close>

definition collectStatus :: "'w cenv \<Rightarrow> log_spec sub \<Rightarrow> dn_spec sub \<Rightarrow> ((mo_cluster, 'w) ctx, unit) rm" where
  "collectStatus E ls dn =
     bindR (modObj (\<lambda>x. x\<lparr>mo_status := (mo_status x)\<lparr>mst_log := Some (sb_status ls), mst_dn := Some (sb_status dn), mst_phase := ''NotReady''\<rparr>\<rparr>)) (\<lambda>_.
     bindR getObj (\<lambda>m.
     bindR (setClusterCondition E (syncedCondition E m)) (\<lambda>_.
     bindR getObj (\<lambda>m.
     bindR (setClusterCondition E (readyCondition E m)) (\<lambda>_.
     if cd_status (readyCondition E m) = ConditionTrue
     then modObj (\<lambda>x. x\<lparr>mo_status := (mo_status x)\<lparr>mst_phase := ''Ready''\<rparr>\<rparr>) else ret ())))))"

definition initMetrics :: "'w cenv \<Rightarrow> cn_spec sub option \<Rightarrow> ((mo_cluster, 'w) ctx, unit) rm" where
  "initMetrics E firstCN =
     bindR getObj (\<lambda>m.
     if GetMetricReaderEnabled m \<and> \<not> mst_metricInitialized (mo_status m)
     then (case firstCN of None \<Rightarrow> ret () | Some c \<Rightarrow> wrapE ''initialize metric user'' (initializeMetricUser E (sst_host (sb_status c))))
     else ret ())"

text \<open>The end of \<^verbatim>\<open>Up\<close>. The check for a missing proxy status repeats the one for the specification, so a status that is not
  there is dereferenced.\<close>

definition finishUp :: "'w cenv \<Rightarrow> cn_spec sub option \<Rightarrow> ((mo_cluster, 'w) ctx, unit) rm" where
  "finishUp E firstCN =
     bindR getObj (\<lambda>m.
     if c_isReady E (mst_conditions (mo_status m))
     then
       bindR (if mos_proxy (mo_spec m) \<noteq> None
              then (case mst_proxy (mo_status m) of None \<Rightarrow> throw nilPanic | Some st \<Rightarrow> ret st)
              else (case firstCN of None \<Rightarrow> errorf ''no CN available'' | Some c \<Rightarrow> ret (sb_status c))) (\<lambda>st.
       modObj (\<lambda>x. x\<lparr>mo_status := (mo_status x)\<lparr>mst_host := sst_host st, mst_port := sst_port st\<rparr>\<rparr>))
     else ErrReSync ''matrixone cluster is not ready'' resyncAfter)"

definition Up :: "tools \<Rightarrow> 'w cenv \<Rightarrow> ((mo_cluster, 'w) ctx, unit) rm" where
  "Up U E =
     bindR (wrapE ''init cluster credential'' (InitRootCredential E)) (\<lambda>_.
     bindR (syncSets U E) (\<lambda>(ls, dn).
     bindR (gcGroups E) (\<lambda>firstCN.
     bindR (syncWebUI E) (\<lambda>_.
     bindR (syncProxy E) (\<lambda>_.
     bindR (collectStatus E ls dn) (\<lambda>_.
     bindR (initMetrics E firstCN) (\<lambda>_.
     finishUp E firstCN)))))))"

definition JobPhaseFailed :: string where "JobPhaseFailed = ''Failed''"
definition JobPhaseCompleted :: string where "JobPhaseCompleted = ''Completed''"

text \<open>The restore of a cluster; \<open>False\<close> stops the reconciliation.\<close>

definition restoreJobOf :: "mo_cluster \<Rightarrow> string \<Rightarrow> restore_job" where
  "restoreJobOf m backup = \<lparr>rj_name = ''restore-'' @ mo_name m, rj_ns = mo_ns m, rj_backup = backup,
     rj_target = lsp_storage (mos_log (mo_spec m)), rj_phase = []\<rparr>"

definition restoreCluster :: "'w cenv \<Rightarrow> string \<Rightarrow> ((mo_cluster, 'w) ctx, bool) rm" where
  "restoreCluster E backupName =
     bindR (wrapE ''error get backup'' (callW (c_backups E ([], backupName)))) (\<lambda>backup.
     bindR getObj (\<lambda>m.
     bindR (wrapE ''error ensure restore job'' (ownedR (c_restoreBegin E) (c_restoreCommit E)
              (restoreJobOf m backup) (\<lambda>x. x))) (\<lambda>job.
     if rj_phase job = JobPhaseFailed
     then bindR (setClusterCondition E (newCondition ConditionTypeReady ConditionFalse ''RestoreFailed''
            ''Restore job failed, recreate the cluster to retry'')) (\<lambda>_. ret False)
     else if rj_phase job = JobPhaseCompleted
     then bindR (modObj (\<lambda>x. x\<lparr>mo_annos := Some ((the (gmake (mo_annos x)))(RestoreCompleteAnno \<mapsto> ''True''))\<rparr>)) (\<lambda>_. ret True)
     else ErrReSync ''restore job is not completed'' resyncAfter)))"

definition ClusterObserve :: "tools \<Rightarrow> 'w cenv \<Rightarrow> ((mo_cluster, 'w) ctx, unit) rm" where
  "ClusterObserve U E =
     bindR getObj (\<lambda>m.
     if gstr (mo_annos m) annSkipSync \<noteq> [] then ret ()
     else
       bindR (case mos_restoreFrom (mo_spec m) of
                None \<Rightarrow> ret True
              | Some b \<Rightarrow> if gstr (mo_annos m) RestoreCompleteAnno = [] then restoreCluster E b else ret True) (\<lambda>go.
       if go then Up U E else ret ()))"

section \<open>Finalize\<close>

text \<open>An object of the list: whether it exists; if it does, it is deleted.\<close>

definition deleteIfExists :: "('sp sub, 'w) kind_api \<Rightarrow> 'sp sub \<Rightarrow> (('o, 'w) ctx, bool) rm" where
  "deleteIfExists A x =
     bindR (findR (api_get A (sb_ns x, sb_name x))) (\<lambda>found. case found of
       None \<Rightarrow> ret False
     | Some y \<Rightarrow> bindR (ignoreNotFoundR (callW (api_delete A y))) (\<lambda>_. ret True))"

text \<open>The loop over the objects: whether any of them existed.\<close>

fun existAny :: "(('o, 'w) ctx, bool) rm list \<Rightarrow> (('o, 'w) ctx, bool) rm" where
  "existAny [] = ret False"
| "existAny (m # ms) = bindR m (\<lambda>b. bindR (existAny ms) (\<lambda>c. ret (b \<or> c)))"

text \<open>The last entry of the list is a web UI under the key of the proxy.\<close>

definition clusterObjs :: "'w cenv \<Rightarrow> mo_cluster \<Rightarrow> (('o, 'w) ctx, bool) rm list" where
  "clusterObjs E m =
     [deleteIfExists (c_logs E) (newSub (LogSetKey m) zeroLogSpec), deleteIfExists (c_dns E) (newSub (DNSetKey m) zeroDNSpec),
      deleteIfExists (c_webuis E) (newSub (WebUIKey m) zeroWebUISpec), deleteIfExists (c_webuis E) (newSub (ProxyKey m) zeroWebUISpec)]"

definition ClusterFinalize :: "'w cenv \<Rightarrow> ((mo_cluster, 'w) ctx, bool) rm" where
  "ClusterFinalize E =
     bindR getObj (\<lambda>m.
     if gstr (mo_annos m) annSkipSync \<noteq> [] then ret True
     else
       bindR (ignoreNotFoundR (callW (c_deleteAllCNs E (mo_ns m) (cnSelector m)))) (\<lambda>_.
       bindR (existAny (clusterObjs E m)) (\<lambda>any. ret (\<not> any))))"

section \<open>The log of the cluster controller\<close>

datatype cevent =
    LogCW "log_spec sub kwrite"
  | DnCW "dn_spec sub kwrite"
  | CnCW "cn_spec sub kwrite"
  | WebCW "webui_spec sub kwrite"
  | WebOwnedW "webui_spec sub" "webui_spec sub"
  | ProxyOwnedW "proxy_spec sub" "proxy_spec sub"
  | RestoreOwnedW restore_job restore_job
  | SecretW "secret kwrite"
  | DeleteAllCNsW string list_opt
  | ClusterStatusW mo_cluster
  | QueryW string obj_key string

definition loggedC :: "'w cenv \<Rightarrow> ('w, cevent) elog cenv" where
  "loggedC E =
     \<lparr>c_logs = logKind LogCW (c_logs E), c_dns = logKind DnCW (c_dns E), c_cns = logKind CnCW (c_cns E),
      c_webuis = logKind WebCW (c_webuis E),
      c_webuiBegin = (\<lambda>x. readL (c_webuiBegin E x)), c_webuiCommit = (\<lambda>x y. writeL (WebOwnedW x y) (c_webuiCommit E x y)),
      c_proxyBegin = (\<lambda>x. readL (c_proxyBegin E x)), c_proxyCommit = (\<lambda>x y. writeL (ProxyOwnedW x y) (c_proxyCommit E x y)),
      c_restoreBegin = (\<lambda>x. readL (c_restoreBegin E x)), c_restoreCommit = (\<lambda>x y. writeL (RestoreOwnedW x y) (c_restoreCommit E x y)),
      c_backups = (\<lambda>k. readL (c_backups E k)), c_secrets = logKind SecretW (c_secrets E),
      c_deleteAllCNs = (\<lambda>ns opt. writeL (DeleteAllCNsW ns opt) (c_deleteAllCNs E ns opt)),
      c_updateStatus = (\<lambda>m. writeL (ClusterStatusW m) (c_updateStatus E m)),
      c_setCondition = (\<lambda>cs c. readL (c_setCondition E cs c)), c_isReady = c_isReady E, c_isSynced = c_isSynced E,
      c_query = (\<lambda>h k q. writeL (QueryW h k q) (c_query E h k q)), c_rand = readL (c_rand E),
      c_sameLog = c_sameLog E, c_sameDN = c_sameDN E, c_sameCN = c_sameCN E, c_upsertGroup = c_upsertGroup E\<rparr>"

lemma loggedC_simps [simp]:
  "c_logs (loggedC E) = logKind LogCW (c_logs E)" "c_dns (loggedC E) = logKind DnCW (c_dns E)"
  "c_cns (loggedC E) = logKind CnCW (c_cns E)" "c_webuis (loggedC E) = logKind WebCW (c_webuis E)"
  "c_webuiBegin (loggedC E) = (\<lambda>x. readL (c_webuiBegin E x))"
  "c_webuiCommit (loggedC E) = (\<lambda>x y. writeL (WebOwnedW x y) (c_webuiCommit E x y))"
  "c_proxyBegin (loggedC E) = (\<lambda>x. readL (c_proxyBegin E x))"
  "c_proxyCommit (loggedC E) = (\<lambda>x y. writeL (ProxyOwnedW x y) (c_proxyCommit E x y))"
  "c_restoreBegin (loggedC E) = (\<lambda>x. readL (c_restoreBegin E x))"
  "c_restoreCommit (loggedC E) = (\<lambda>x y. writeL (RestoreOwnedW x y) (c_restoreCommit E x y))"
  "c_backups (loggedC E) = (\<lambda>k. readL (c_backups E k))" "c_secrets (loggedC E) = logKind SecretW (c_secrets E)"
  "c_deleteAllCNs (loggedC E) = (\<lambda>ns opt. writeL (DeleteAllCNsW ns opt) (c_deleteAllCNs E ns opt))"
  "c_updateStatus (loggedC E) = (\<lambda>m. writeL (ClusterStatusW m) (c_updateStatus E m))"
  "c_setCondition (loggedC E) = (\<lambda>cs c. readL (c_setCondition E cs c))"
  "c_isReady (loggedC E) = c_isReady E" "c_isSynced (loggedC E) = c_isSynced E"
  "c_query (loggedC E) = (\<lambda>h k q. writeL (QueryW h k q) (c_query E h k q))" "c_rand (loggedC E) = readL (c_rand E)"
  "c_sameLog (loggedC E) = c_sameLog E" "c_sameDN (loggedC E) = c_sameDN E" "c_sameCN (loggedC E) = c_sameCN E"
  "c_upsertGroup (loggedC E) = c_upsertGroup E"
  by (simp_all add: loggedC_def)

text \<open>The handlers change only the status and the annotations of the cluster.\<close>

definition sameCluster :: "mo_cluster \<Rightarrow> mo_cluster \<Rightarrow> bool" where
  "sameCluster m m' \<longleftrightarrow> mo_name m' = mo_name m \<and> mo_ns m' = mo_ns m \<and> mo_spec m' = mo_spec m"

text \<open>The status subresource: the server answers a status update with the object it was sent, the specification unchanged.\<close>

definition statusAnswers :: "'w cenv \<Rightarrow> bool" where
  "statusAnswers E \<longleftrightarrow> (\<forall>m w m' w'. c_updateStatus E m w = (Inr m', w') \<longrightarrow> sameCluster m m' \<and> mo_status m' = mo_status m)"

definition clusterConditionLaws :: "'w cenv \<Rightarrow> bool" where
  "clusterConditionLaws E \<longleftrightarrow> (\<forall>cs c w cs' w'. c_setCondition E cs c w = (cs', w') \<longrightarrow> cd_type c = ConditionTypeReady \<longrightarrow>
     (c_isReady E cs' \<longleftrightarrow> cd_status c = ConditionTrue))"

lemma sameCluster_refl [simp]: "sameCluster m m"
  by (simp add: sameCluster_def)

lemma sameCluster_trans: "sameCluster m m' \<Longrightarrow> sameCluster m' m'' \<Longrightarrow> sameCluster m m''"
  by (simp add: sameCluster_def)

lemma sameCluster_status [simp]: "sameCluster m (m'\<lparr>mo_status := st\<rparr>) = sameCluster m m'" "sameCluster m (m'\<lparr>mo_annos := a\<rparr>) = sameCluster m m'"
  by (simp_all add: sameCluster_def)

lemma sameCluster_eqs:
  assumes "sameCluster m m'"
  shows "mo_name m' = mo_name m" "mo_ns m' = mo_ns m" "mo_spec m' = mo_spec m" "LogSetKey m' = LogSetKey m" "DNSetKey m' = DNSetKey m"
    "WebUIKey m' = WebUIKey m" "ProxyKey m' = ProxyKey m" "logSpecOf m' = logSpecOf m" "dnSpecOf m' = dnSpecOf m" "proxySpecOf m' = proxySpecOf m"
    "cnGroups m' = cnGroups m" "cnSetName m' = cnSetName m" "groupSpec U m' = groupSpec U m" "cnSelector m' = cnSelector m"
    "credentialName m' = credentialName m" "metricCredentialName m' = metricCredentialName m" "GetMetricReaderEnabled m' = GetMetricReaderEnabled m"
proof -
  obtain a st where m': "m' = m\<lparr>mo_annos := a, mo_status := st\<rparr>"
    using assms by (cases m; cases m') (auto simp: sameCluster_def)
  show "mo_name m' = mo_name m" "mo_ns m' = mo_ns m" "mo_spec m' = mo_spec m" "LogSetKey m' = LogSetKey m" "DNSetKey m' = DNSetKey m"
    "WebUIKey m' = WebUIKey m" "ProxyKey m' = ProxyKey m" "logSpecOf m' = logSpecOf m" "dnSpecOf m' = dnSpecOf m" "proxySpecOf m' = proxySpecOf m"
    "cnGroups m' = cnGroups m" "cnSetName m' = cnSetName m" "groupSpec U m' = groupSpec U m" "cnSelector m' = cnSelector m"
    "credentialName m' = credentialName m" "metricCredentialName m' = metricCredentialName m" "GetMetricReaderEnabled m' = GetMetricReaderEnabled m"
    by (simp_all add: m' LogSetKey_def DNSetKey_def WebUIKey_def ProxyKey_def logSpecOf_def dnSpecOf_def proxySpecOf_def inherit_def
        setPodSetDefault_def setOverlay_def LogSetImage_def DnSetImage_def ProxySetImage_def DefaultImage_def CNSetImage_def GetTN_def
        cnGroups_def cnSetName_def groupSpec_def cnSelector_def credentialName_def metricCredentialName_def GetMetricReaderEnabled_def fun_eq_iff Let_def
        cong: option.case_cong)
qed

section \<open>What the cluster controller sends\<close>

definition keyed :: "obj_key \<Rightarrow> 'sp sub \<Rightarrow> bool" where
  "keyed k x \<longleftrightarrow> (sb_ns x, sb_name x) = k"

definition listedCNs :: "'w cenv \<Rightarrow> mo_cluster \<Rightarrow> cn_spec sub list \<Rightarrow> bool" where
  "listedCNs E m cs \<longleftrightarrow> (\<exists>w w'. api_list (c_cns E) (mo_ns m) (cnSelector m) w = (Inr cs, w'))"

definition groupWrite :: "tools \<Rightarrow> mo_cluster \<Rightarrow> cn_spec sub \<Rightarrow> bool" where
  "groupWrite U m x \<longleftrightarrow> (\<exists>g \<in> set (cnGroups m). \<exists>cred. keyed (mo_ns m, cnSetName m g) x \<and> sb_spec x = groupSpec U m cred g \<and>
     gget (sb_labels x) MatrixoneClusterLabelKey = Some (mo_name m))"

lemma groupWriteI:
  "g \<in> set (cnGroups m) \<Longrightarrow> keyed (mo_ns m, cnSetName m g) x \<Longrightarrow> sb_spec x = groupSpec U m cred g \<Longrightarrow>
    gget (sb_labels x) MatrixoneClusterLabelKey = Some (mo_name m) \<Longrightarrow> groupWrite U m x"
  unfolding groupWrite_def by blast

text \<open>The server answered with \<open>old\<close> when asked for the object \<open>x\<close>, which is then created or updated.\<close>

definition begun :: "('a \<Rightarrow> 'w \<Rightarrow> (err + 'a) \<times> 'w) \<Rightarrow> 'a \<Rightarrow> 'a \<Rightarrow> bool" where
  "begun f x old \<longleftrightarrow> (\<exists>w w'. f x w = (Inr old, w'))"

fun clusterWrite :: "tools \<Rightarrow> 'w cenv \<Rightarrow> mo_cluster \<Rightarrow> cevent \<Rightarrow> bool" where
  "clusterWrite U E m (LogCW (WCreate x)) \<longleftrightarrow> keyed (LogSetKey m) x \<and> sb_spec x = logSpecOf m"
| "clusterWrite U E m (LogCW (WUpdate x)) \<longleftrightarrow> keyed (LogSetKey m) x \<and> sb_spec x = logSpecOf m"
| "clusterWrite U E m (DnCW (WCreate x)) \<longleftrightarrow> keyed (DNSetKey m) x \<and> dnSpecOf m = Inr (sb_spec x)"
| "clusterWrite U E m (DnCW (WUpdate x)) \<longleftrightarrow> keyed (DNSetKey m) x \<and> dnSpecOf m = Inr (sb_spec x)"
| "clusterWrite U E m (CnCW (WCreate x)) \<longleftrightarrow> groupWrite U m x"
| "clusterWrite U E m (CnCW (WUpdate x)) \<longleftrightarrow> groupWrite U m x"
| "clusterWrite U E m (CnCW (WDelete x)) \<longleftrightarrow> sb_name x \<notin> cnSetName m ` set (cnGroups m) \<and> (\<exists>cs. listedCNs E m cs \<and> x \<in> set cs)"
| "clusterWrite U E m (WebOwnedW old new) \<longleftrightarrow> (\<exists>sp. mos_webui (mo_spec m) = Some sp \<and> new = old\<lparr>sb_spec := sp\<rparr>) \<and>
     begun (c_webuiBegin E) (newSub (WebUIKey m) zeroWebUISpec) old"
| "clusterWrite U E m (ProxyOwnedW old new) \<longleftrightarrow> (\<exists>sp. mos_proxy (mo_spec m) = Some sp \<and> new = old\<lparr>sb_spec := proxySpecOf m sp\<rparr>) \<and>
     begun (c_proxyBegin E) ((newSub (ProxyKey m) zeroProxySpec)\<lparr>sb_logSet := Some (LogSetKey m)\<rparr>) old"
| "clusterWrite U E m (RestoreOwnedW old new) \<longleftrightarrow> new = old \<and> (\<exists>b backup w w'. mos_restoreFrom (mo_spec m) = Some b \<and>
     c_backups E ([], b) w = (Inr backup, w') \<and> begun (c_restoreBegin E) (restoreJobOf m backup) old)"
| "clusterWrite U E m (SecretW (WCreate x)) \<longleftrightarrow> sec_ns x = mo_ns m \<and> sec_name x \<in> {credentialName m, metricCredentialName m}"
| "clusterWrite U E m (ClusterStatusW x) \<longleftrightarrow> sameCluster m x"
| "clusterWrite U E m (QueryW h k q) \<longleftrightarrow> GetMetricReaderEnabled m \<and> fst k = mo_ns m \<and> (\<exists>sec pre. (pre, q) \<in> set (metricStatements sec))"
| "clusterWrite U E m _ \<longleftrightarrow> False"

lemma mutate_Inr: "mutate key f x = Inr y \<longleftrightarrow> f x = Inr y \<and> keyed key y"
  by (auto simp: mutate_def thenE_def keyed_def split: sum.splits if_splits)

lemma createOwnedOrUpdate_sends:
  assumes "\<And>x y. f x = Inr y \<Longrightarrow> keyed (sb_ns obj, sb_name obj) y \<Longrightarrow> ok (ev (WCreate y)) \<and> ok (ev (WUpdate y))"
  shows "onlySends P ok (createOwnedOrUpdate (logKind ev A) same obj f)"
proof -
  have ok: "ok (ev (WCreate y))" "ok (ev (WUpdate y))" if "mutate (sb_ns obj, sb_name obj) f x = Inr y" for x y
    using that assms by (auto simp: mutate_Inr)
  show ?thesis unfolding createOwnedOrUpdate_def Let_def logKind_simps
    by (rule onlySends_bind_liftE findR_sends sendsR | (rule ok, assumption))+
qed

lemma ownedR_sends:
  assumes "\<And>old. begun b x old \<Longrightarrow> ok (ev old (f old))"
  shows "onlySends P ok (ownedR (\<lambda>x. readL (b x)) (\<lambda>x y. writeL (ev x y) (c x y)) x f)"
  unfolding ownedR_def
proof (rule onlySends_bind_run[OF onlySends_callW_read])
  fix s old s1 assume "callW (readL (b x)) s = (Inr old, s1)"
  then have "begun b x old" by (auto simp: begun_def callW_def readL_def split: prod.splits)
  then show "onlySends P ok (callW (writeL (ev old (f old)) (c old (f old))))" by (intro onlySends_callW_write assms)
qed

lemma updateStatus_sends:
  assumes "statusAnswers E" and "\<And>x. P x \<Longrightarrow> ok (ClusterStatusW x)" and "\<And>x y. P x \<Longrightarrow> sameCluster x y \<Longrightarrow> mo_status y = mo_status x \<Longrightarrow> P y"
  shows "onlySends P ok (updateObj (c_updateStatus (loggedC E)))"
  unfolding loggedC_simps using assms by (intro onlySends_updateObj_inv) (blast dest: assms(1)[unfolded statusAnswers_def, rule_format])+

lemma collectGroups_sends:
  assumes "\<And>c. c \<in> set cs \<Longrightarrow> sb_name c \<notin> desired \<Longrightarrow> ok (CnCW (WDelete c))"
  shows "onlySends P ok (collectGroups (loggedC E) m desired f gs cs)"
  using assms
proof (induction cs arbitrary: f gs)
  case Nil
  show ?case unfolding collectGroups.simps by (rule sendsR)
next
  case (Cons c cs)
  then show ?case unfolding collectGroups.simps loggedC_simps logKind_simps by (intro sendsR) auto
qed

lemma syncOneGroup_sends:
  assumes "g \<in> set (cnGroups m)"
  shows "onlySends (sameCluster m) (clusterWrite U E m) (syncOneGroup U (loggedC E) g)"
proof -
  have "onlySends (sameCluster m) (clusterWrite U E m)
      (createOwnedOrUpdate (logKind CnCW (c_cns E)) (c_sameCN E) ((CNSetKey c (cnSetName c g))\<lparr>sb_logSet := Some (LogSetKey c), sb_dnSet := Some (DNSetKey c)\<rparr>)
        (syncGroup U c g))" if c: "sameCluster m c" for c
    by (intro createOwnedOrUpdate_sends)
      (auto simp: sameCluster_eqs[OF c] syncGroup_def keyed_def CNSetKey_def newSub_def gget_def split: option.splits intro!: groupWriteI[OF assms])
  then show ?thesis unfolding syncOneGroup_def loggedC_simps by (intro sendsR)
qed

lemma syncSets_sends: "onlySends (sameCluster m) (clusterWrite U E m) (syncSets U (loggedC E))"
proof -
  have log: "onlySends (sameCluster m) (clusterWrite U E m)
      (createOwnedOrUpdate (logKind LogCW (c_logs E)) (c_sameLog E) (newSub (LogSetKey c) zeroLogSpec) (\<lambda>x. Inr (x\<lparr>sb_spec := logSpecOf c\<rparr>)))"
    if c: "sameCluster m c" for c
    by (intro createOwnedOrUpdate_sends) (auto simp: sameCluster_eqs[OF c] keyed_def newSub_def)
  have dn: "onlySends (sameCluster m) (clusterWrite U E m)
      (createOwnedOrUpdate (logKind DnCW (c_dns E)) (c_sameDN E) ((newSub (DNSetKey c) zeroDNSpec)\<lparr>sb_logSet := Some (LogSetKey c)\<rparr>)
        (\<lambda>x. thenE (dnSpecOf c) (\<lambda>sp. Inr (x\<lparr>sb_spec := sp\<rparr>))))"
    if c: "sameCluster m c" for c
    by (intro createOwnedOrUpdate_sends) (auto simp: sameCluster_eqs[OF c] keyed_def newSub_def thenE_def split: sum.splits)
  have groups: "onlySends (sameCluster m) (clusterWrite U E m) (forR (syncOneGroup U (loggedC E)) (cnGroups c))" if c: "sameCluster m c" for c
    by (intro onlySends_forR syncOneGroup_sends) (simp add: sameCluster_eqs[OF c])
  show ?thesis unfolding syncSets_def loggedC_simps
    by (rule sendsR log dn groups | assumption | (simp only: split_beta))+
qed

lemma gcGroups_sends: "onlySends (sameCluster m) (clusterWrite U E m) (gcGroups (loggedC E))"
proof -
  have del: "onlySends (sameCluster m) (clusterWrite U E m) (collectGroups (loggedC E) c (cnSetName c ` set (cnGroups c)) f gs cs)"
    if c: "sameCluster m c" and cs: "wrapE p (callW (readL (api_list (c_cns E) (mo_ns c) (cnSelector c)))) s = (Inr cs, s1)" for c p f gs cs s s1
    using cs by (intro collectGroups_sends)
      (auto simp: sameCluster_eqs[OF c] listedCNs_def callW_def readL_def split: prod.splits)
  show ?thesis unfolding gcGroups_def loggedC_simps logKind_simps
    by (rule onlySends_getObj) (rule onlySends_bind_run, (rule sendsR | rule del, assumption+ | (simp only: split_beta) | simp)+)
qed

lemma syncUI_sends: "onlySends (sameCluster m) (clusterWrite U E m) (syncWebUI (loggedC E))"
  "onlySends (sameCluster m) (clusterWrite U E m) (syncProxy (loggedC E))"
  unfolding syncWebUI_def syncProxy_def loggedC_simps
  by (rule ownedR_sends sendsR | simp add: sameCluster_eqs)+

lemma condition_sends: "onlySends (sameCluster m) ok (setClusterCondition (loggedC E) c)"
  unfolding setClusterCondition_def loggedC_simps by (rule sendsR | simp)+

lemma collectStatus_sends: "onlySends (sameCluster m) ok (collectStatus (loggedC E) ls dn)"
  unfolding collectStatus_def by (rule sendsR condition_sends | simp)+

lemma InitRootCredential_sends:
  assumes "statusAnswers E"
  shows "onlySends (sameCluster m) (clusterWrite U E m) (InitRootCredential (loggedC E))"
  unfolding InitRootCredential_def using assms
  by (intro sendsR updateStatus_sends) (auto simp: rootSecret_def sameCluster_eqs intro!: sendsR intro: sameCluster_trans)

lemma InitMetricCredential_sends:
  assumes "statusAnswers E"
  shows "onlySends (sameCluster m) (clusterWrite U E m) (InitMetricCredential (loggedC E))"
  unfolding InitMetricCredential_def randPassword_def using assms
  by (intro sendsR updateStatus_sends) (auto simp: sameCluster_eqs intro!: sendsR intro: sameCluster_trans)

lemma initMetrics_sends:
  assumes "statusAnswers E"
  shows "onlySends (sameCluster m) (clusterWrite U E m) (initMetrics (loggedC E) firstCN)"
proof -
  have query: "onlySends (sameCluster m) (clusterWrite U E m) (forR (\<lambda>(pre, q). wrapE pre (callW (c_query (loggedC E) h (mo_ns c, cred) q))) (metricStatements sec))"
    if "sameCluster m c" and "GetMetricReaderEnabled m" for c h cred sec
    using that by (intro onlySends_forR) (auto simp: sameCluster_eqs split: prod.splits intro!: sendsR, blast)
  have "onlySends (sameCluster m) (clusterWrite U E m) (initializeMetricUser (loggedC E) h)" if "GetMetricReaderEnabled m" for h
    unfolding initializeMetricUser_def
    by (rule sendsR InitMetricCredential_sends[OF assms] query that updateStatus_sends[OF assms] | assumption | simp | (erule sameCluster_trans, assumption))+
  then show ?thesis unfolding initMetrics_def by (auto simp: sameCluster_eqs intro!: sendsR)
qed

lemma finishUp_sends: "onlySends (sameCluster m) ok (finishUp (loggedC E) firstCN)"
  unfolding finishUp_def by (rule sendsR | simp)+

lemma restoreCluster_sends:
  assumes src: "mos_restoreFrom (mo_spec m) = Some b"
  shows "onlySends (sameCluster m) (clusterWrite U E m) (restoreCluster (loggedC E) b)"
  unfolding restoreCluster_def loggedC_simps
proof (rule onlySends_bind_run, goal_cases)
  case (2 s backup s1)
  then obtain w w' where "c_backups E ([], b) w = (Inr backup, w')" by (auto simp: callW_def readL_def split: prod.splits)
  then have job: "clusterWrite U E m (RestoreOwnedW old old)" if "sameCluster m c" "begun (c_restoreBegin E) (restoreJobOf c backup) old" for c old
    using that src by (auto simp: restoreJobOf_def sameCluster_eqs[OF that(1)])
  show ?case by (rule sendsR ownedR_sends condition_sends job | assumption | simp del: clusterWrite.simps)+
qed (rule sendsR)+

lemma Up_sends:
  assumes "statusAnswers E"
  shows "onlySends (sameCluster m) (clusterWrite U E m) (Up U (loggedC E))"
  unfolding Up_def
  by (rule sendsR InitRootCredential_sends[OF assms] syncSets_sends gcGroups_sends syncUI_sends collectStatus_sends
      initMetrics_sends[OF assms] finishUp_sends | (simp only: split_beta))+

lemma ClusterObserve_sends:
  assumes "statusAnswers E"
  shows "onlySends (sameCluster m) (clusterWrite U E m) (ClusterObserve U (loggedC E))"
  unfolding ClusterObserve_def
  by (rule sendsR Up_sends[OF assms] restoreCluster_sends | (simp only: sameCluster_eqs))+

text \<open>C15 (\<^verbatim>\<open>Observe\<close> of the cluster): everything the cluster controller sends. It writes the log set and the DN set under the name of
  the cluster with the specifications of the cluster; one CN set per group with the specification, the label and the name of
  the group; the web UI and the proxy that are asked for, as the server answered for their names, with the specification of the
  cluster; for a cluster to restore, the restore job of its name, for the backup the server answered and the storage of its log
  set; the two secrets of its credentials; the statements that make the metric user, when metrics are read, with a secret of its
  namespace; and its own status. A CN set it deletes was listed with the label of the cluster and belongs to no group.
  Nothing else is sent.\<close>

theorem cluster_writes:
  assumes answers: "statusAnswers E" and run: "ClusterObserve U (loggedC E) s = (r, s')"
  shows "\<exists>es. logOf s' = es @ logOf s \<and> list_all (clusterWrite U E (Obj s)) es"
proof -
  obtain es where "logOf s' = es @ logOf s" "\<forall>e \<in> set es. clusterWrite U E (Obj s) e"
    using ClusterObserve_sends[OF answers, where m = "Obj s"] sameCluster_refl run by (rule onlySendsD)
  then show ?thesis by (auto simp: list_all_iff)
qed

section \<open>A cluster that is ready\<close>

lemma collectGroups_result:
  assumes "collectGroups (loggedC E) m desired f gs cs s = (Inr (f', gs'), s')"
  shows "Obj s' = Obj s \<and> gss_desired gs' = gss_desired gs \<and>
    gss_ready gs' = gss_ready gs + int (length (filter (\<lambda>c. sb_name c \<in> desired \<and> c_isReady E (sst_conditions (sb_status c))) cs)) \<and>
    f' = (case f of Some x \<Rightarrow> Some x | None \<Rightarrow> find (\<lambda>c. sb_name c \<in> desired) cs)"
  using assms
proof (induction cs arbitrary: f gs s)
  case Nil
  then show ?case by (auto simp: ret_def split: option.splits)
next
  case (Cons c cs)
  show ?case
  proof (cases "sb_name c \<in> desired")
    case True
    with Cons.prems Cons.IH[of "case f of None \<Rightarrow> Some c | Some x \<Rightarrow> Some x" "countGroup (loggedC E) m c gs" s] show ?thesis
      by (auto simp: countGroup_def groupStatusOf_def Let_def split: option.splits)
  next
    case False
    with Cons.prems obtain s1 where s1: "callW (api_delete (c_cns (loggedC E)) c) s = (Inr (), s1)"
        and rest: "collectGroups (loggedC E) m desired f gs cs s1 = (Inr (f', gs'), s')"
      by (auto elim!: bindR_InrE)
    have "Obj s1 = Obj s" using s1 by (auto simp: callW_def split: prod.splits)
    with Cons.IH[OF rest] False show ?thesis by (auto split: option.splits)
  qed
qed

text \<open>As many listed sets of the groups as there are groups: then the groups have distinct names and every group has its set.\<close>

lemma all_groups_counted:
  assumes names: "distinct (map sb_name cs)" and n: "length gs \<le> length (filter (\<lambda>c. sb_name c \<in> nm ` set gs \<and> P c) cs)"
  shows "distinct (map nm gs) \<and> (\<forall>g \<in> set gs. \<exists>c \<in> set cs. sb_name c = nm g \<and> P c)"
proof -
  let ?F = "filter (\<lambda>c. sb_name c \<in> nm ` set gs \<and> P c) cs"
  have sub: "sb_name ` set ?F \<subseteq> nm ` set gs" by auto
  have "card (sb_name ` set ?F) = length ?F"
    using distinct_card[OF distinct_map_filter[OF names]] by simp
  then have "length gs \<le> card (nm ` set gs)" using n card_mono[OF _ sub] by simp
  then have d: "distinct (map nm gs)" using card_length[of "map nm gs"] by (intro card_distinct) (simp add: le_antisym)
  have "card (nm ` set gs) \<le> card (sb_name ` set ?F)"
    using \<open>card (sb_name ` set ?F) = length ?F\<close> n card_length[of "map nm gs"] by simp
  then have "sb_name ` set ?F = nm ` set gs" using sub by (intro card_seteq) auto
  then have "\<forall>g \<in> set gs. nm g \<in> sb_name ` set ?F" by blast
  with d show ?thesis by fastforce
qed

definition groupsCounted :: "'w cenv \<Rightarrow> mo_cluster \<Rightarrow> groups_status \<Rightarrow> cn_spec sub option \<Rightarrow> bool" where
  "groupsCounted E m gs firstCN \<longleftrightarrow> (\<exists>cs. listedCNs E m cs \<and> gss_desired gs = int (length (cnGroups m)) \<and>
     gss_ready gs = int (length (filter (\<lambda>c. sb_name c \<in> cnSetName m ` set (cnGroups m) \<and> c_isReady E (sst_conditions (sb_status c))) cs)) \<and>
     firstCN = find (\<lambda>c. sb_name c \<in> cnSetName m ` set (cnGroups m)) cs)"

lemma gcGroups_result:
  assumes run: "gcGroups (loggedC E) s = (Inr f, s')" and same: "sameCluster m (Obj s)"
  shows "sameCluster m (Obj s') \<and> groupsCounted E m (mst_groups (mo_status (Obj s'))) f"
proof -
  let ?c = "Obj s"
  note eqs = sameCluster_eqs[OF same]
  from run obtain cs s1 gs s2 where
      list: "callW (readL (api_list (c_cns E) (mo_ns ?c) (cnSelector ?c))) s = (Inr cs, s1)"
      and coll: "collectGroups (loggedC E) ?c (cnSetName ?c ` set (cnGroups ?c)) None
        \<lparr>gss_desired = int (length (cnGroups ?c)), gss_ready = 0, gss_synced = 0, gss_groups = []\<rparr> cs s1 = (Inr (f, gs), s2)"
      and s': "s' = s2\<lparr>Obj := (Obj s2)\<lparr>mo_status := (mo_status (Obj s2))\<lparr>mst_groups := gs\<rparr>\<rparr>\<rparr>"
    unfolding gcGroups_def bindR_getObj loggedC_simps logKind_simps
    by (auto simp: modObj_def ret_def elim!: bindR_InrE)
  have "Obj s1 = Obj s" and "listedCNs E m cs"
    using list by (auto simp: callW_def readL_def listedCNs_def eqs split: prod.splits)
  with collectGroups_result[OF coll] s' same show ?thesis by (auto simp: groupsCounted_def eqs)
qed

text \<open>What the later steps keep of the status.\<close>

definition keepsGroups :: "mo_cluster \<Rightarrow> groups_status \<Rightarrow> mo_cluster \<Rightarrow> bool" where
  "keepsGroups m gs x \<longleftrightarrow> sameCluster m x \<and> mst_groups (mo_status x) = gs"

lemma syncUI_keeps: "onlySends (keepsGroups m gs) (\<lambda>_. True) (syncWebUI (loggedC E))"
  "onlySends (keepsGroups m gs) (\<lambda>_. True) (syncProxy (loggedC E))"
  unfolding syncWebUI_def syncProxy_def loggedC_simps
  by (rule ownedR_sends sendsR | simp add: keepsGroups_def)+

lemma syncProxy_sets: "syncProxy E s = (Inr (), s') \<Longrightarrow> mos_proxy (mo_spec (Obj s)) \<noteq> None \<Longrightarrow> mst_proxy (mo_status (Obj s')) \<noteq> None"
  unfolding syncProxy_def bindR_getObj by (auto simp: modObj_def elim!: bindR_InrE split: option.splits)

definition readyStatus :: "'w cenv \<Rightarrow> mo_cluster \<Rightarrow> bool" where
  "readyStatus E m \<longleftrightarrow> c_isReady E (condsOf (mst_log (mo_status m))) \<and> c_isReady E (condsOf (mst_dn (mo_status m))) \<and>
     groupsReady (mst_groups (mo_status m)) \<and> (mos_proxy (mo_spec m) \<noteq> None \<longrightarrow> c_isReady E (condsOf (mst_proxy (mo_status m)))) \<and>
     mst_phase (mo_status m) = ''Ready''"

lemma readyCondition_True:
  "cd_status (readyCondition E m) = ConditionTrue \<longleftrightarrow>
     c_isReady E (condsOf (mst_log (mo_status m))) \<and> c_isReady E (condsOf (mst_dn (mo_status m))) \<and>
     groupsReady (mst_groups (mo_status m)) \<and> (mos_proxy (mo_spec m) \<noteq> None \<longrightarrow> c_isReady E (condsOf (mst_proxy (mo_status m))))"
  by (auto simp: readyCondition_def newCondition_def Let_def)

lemma readyCondition_type: "cd_type (readyCondition E m) = ConditionTypeReady" "cd_reason (readyCondition E m) \<noteq> []"
  by (auto simp: readyCondition_def newCondition_def Let_def)

lemma syncedCondition_reason: "cd_reason (syncedCondition E m) \<noteq> []"
  by (auto simp: syncedCondition_def newCondition_def Let_def)

lemma setClusterCondition_run:
  assumes "setClusterCondition (loggedC E) c s = (r, s')"
  shows "\<exists>cs w w' d. r = Inr () \<and> c_setCondition E (mst_conditions (mo_status (Obj s))) d w = (cs, w') \<and> cd_type d = cd_type c \<and> cd_status d = cd_status c \<and>
    Obj s' = (Obj s)\<lparr>mo_status := (mo_status (Obj s))\<lparr>mst_conditions := cs\<rparr>\<rparr>"
  using assms unfolding setClusterCondition_def bindR_getObj
  by (auto simp: bindR_def readW_def readL_def modObj_def split: prod.splits) fastforce+

lemma collectStatus_result:
  assumes laws: "clusterConditionLaws E" and run: "collectStatus (loggedC E) ls dn s = (Inr (), s')"
  shows "keepsGroups (Obj s) (mst_groups (mo_status (Obj s))) (Obj s') \<and> mst_proxy (mo_status (Obj s')) = mst_proxy (mo_status (Obj s)) \<and>
    (c_isReady E (mst_conditions (mo_status (Obj s'))) \<longrightarrow> readyStatus E (Obj s'))"
proof -
  let ?m1 = "(Obj s)\<lparr>mo_status := (mo_status (Obj s))\<lparr>mst_log := Some (sb_status ls), mst_dn := Some (sb_status dn), mst_phase := ''NotReady''\<rparr>\<rparr>"
  let ?s1 = "s\<lparr>Obj := ?m1\<rparr>"
  from run obtain s2 s3 where s2: "setClusterCondition (loggedC E) (syncedCondition (loggedC E) ?m1) ?s1 = (Inr (), s2)"
      and s3: "setClusterCondition (loggedC E) (readyCondition (loggedC E) (Obj s2)) s2 = (Inr (), s3)"
      and fin: "(if cd_status (readyCondition (loggedC E) (Obj s2)) = ConditionTrue
        then modObj (\<lambda>x. x\<lparr>mo_status := (mo_status x)\<lparr>mst_phase := ''Ready''\<rparr>\<rparr>) else ret ()) s3 = (Inr (), s')"
    unfolding collectStatus_def by (auto simp: getObj_def modObj_def elim!: bindR_InrE)
  obtain cs2 where o2: "Obj s2 = ?m1\<lparr>mo_status := (mo_status ?m1)\<lparr>mst_conditions := cs2\<rparr>\<rparr>"
    using setClusterCondition_run[OF s2] by auto
  obtain cs w w' d where cond: "c_setCondition E (mst_conditions (mo_status (Obj s2))) d w = (cs, w')" "cd_type d = ConditionTypeReady"
      "cd_status d = cd_status (readyCondition (loggedC E) (Obj s2))"
      and o3: "Obj s3 = (Obj s2)\<lparr>mo_status := (mo_status (Obj s2))\<lparr>mst_conditions := cs\<rparr>\<rparr>"
    using setClusterCondition_run[OF s3] by (auto simp: readyCondition_type)
  have ready: "c_isReady E cs \<longleftrightarrow> cd_status (readyCondition (loggedC E) (Obj s2)) = ConditionTrue"
    using laws cond unfolding clusterConditionLaws_def by metis
  show ?thesis
  proof (cases "c_isReady E cs")
    case True
    with fin ready o3 have "Obj s' = (Obj s3)\<lparr>mo_status := (mo_status (Obj s3))\<lparr>mst_phase := ''Ready''\<rparr>\<rparr>" by (auto simp: modObj_def)
    with True ready[unfolded readyCondition_True] o2 o3 show ?thesis
      by (simp add: readyStatus_def keepsGroups_def sameCluster_def)
  next
    case False
    with fin ready have "Obj s' = Obj s3" by (simp add: ret_def)
    with False o2 o3 show ?thesis by (simp add: keepsGroups_def sameCluster_def)
  qed
qed

definition keepsStatus :: "mo_cluster \<Rightarrow> mo_cluster \<Rightarrow> bool" where
  "keepsStatus m x \<longleftrightarrow> sameCluster m x \<and> mst_conditions (mo_status x) = mst_conditions (mo_status m) \<and> mst_phase (mo_status x) = mst_phase (mo_status m) \<and>
     mst_groups (mo_status x) = mst_groups (mo_status m) \<and> mst_dn (mo_status x) = mst_dn (mo_status m) \<and>
     mst_proxy (mo_status x) = mst_proxy (mo_status m) \<and> mst_log (mo_status x) = mst_log (mo_status m)"

lemma keepsStatus_refl: "keepsStatus m m"
  by (simp add: keepsStatus_def)

lemma keepsStatus_status: "keepsStatus m x \<Longrightarrow> sameCluster x y \<Longrightarrow> mo_status y = mo_status x \<Longrightarrow> keepsStatus m y"
  by (auto simp: keepsStatus_def intro: sameCluster_trans)

lemma readyStatus_keeps: "keepsStatus m x \<Longrightarrow> readyStatus E x \<longleftrightarrow> readyStatus E m"
  by (simp add: readyStatus_def keepsStatus_def sameCluster_def)

lemma initMetrics_keeps:
  assumes "statusAnswers E"
  shows "onlySends (keepsStatus m) (\<lambda>_. True) (initMetrics (loggedC E) f)"
proof -
  have upd: "onlySends (keepsStatus m) (\<lambda>_. True) (updateObj (c_updateStatus (loggedC E)))"
    using assms by (rule updateStatus_sends) (auto intro: keepsStatus_status)
  have mod: "keepsStatus m x \<Longrightarrow> keepsStatus m (x\<lparr>mo_status := (mo_status x)\<lparr>mst_metricSecret := a\<rparr>\<rparr>)"
    "keepsStatus m x \<Longrightarrow> keepsStatus m (x\<lparr>mo_status := (mo_status x)\<lparr>mst_metricInitialized := b\<rparr>\<rparr>)" for x a b
    by (auto simp: keepsStatus_def)
  have cred: "onlySends (keepsStatus m) (\<lambda>_. True) (InitMetricCredential (loggedC E))"
    unfolding InitMetricCredential_def randPassword_def by (rule sendsR upd mod | assumption | simp)+
  show ?thesis unfolding initMetrics_def initializeMetricUser_def
    by (rule sendsR upd mod cred onlySends_forR | assumption | (simp only: split_beta loggedC_simps) | rule TrueI)+
qed

lemma finishUp_done:
  assumes "finishUp (loggedC E) f s = (Inr (), s')"
  shows "c_isReady E (mst_conditions (mo_status (Obj s))) \<and> keepsStatus (Obj s) (Obj s') \<and>
    (\<exists>st. (case mos_proxy (mo_spec (Obj s)) of Some _ \<Rightarrow> mst_proxy (mo_status (Obj s)) = Some st | None \<Rightarrow> map_option sb_status f = Some st) \<and>
      mst_host (mo_status (Obj s')) = sst_host st \<and> mst_port (mo_status (Obj s')) = sst_port st)"
  using assms unfolding finishUp_def bindR_getObj
  by (auto simp: modObj_def ret_def throw_def errorf_def ErrReSync_def keepsStatus_def split: if_splits option.splits elim!: bindR_InrE)

lemma syncSets_keeps: "onlySends (\<lambda>x. x = c) (\<lambda>_. True) (syncSets U (loggedC E))"
  unfolding syncSets_def syncOneGroup_def loggedC_simps
  by (rule sendsR createOwnedOrUpdate_sends onlySends_forR | (simp only: split_beta) | simp)+

text \<open>C14 (\<^verbatim>\<open>Up\<close>): a reconciliation that ends without an error has found the cluster ready. The log set, the DN set and, when the cluster has one,
  the proxy are ready, the phase says so and the address is that of the proxy or of a CN set of the cluster; the groups have
  different names and the CN set of every group was listed and is ready.\<close>

theorem cluster_complete:
  assumes laws: "clusterConditionLaws E" and answers: "statusAnswers E"
    and names: "\<And>cs. listedCNs E (Obj s) cs \<Longrightarrow> distinct (map sb_name cs)"
    and run: "Up U (loggedC E) s = (Inr (), s')"
  shows "\<exists>cs st. listedCNs E (Obj s) cs \<and> readyStatus E (Obj s') \<and>
    distinct (map gr_name (cnGroups (Obj s))) \<and>
    (\<forall>g \<in> set (cnGroups (Obj s)). \<exists>c \<in> set cs. sb_name c = cnSetName (Obj s) g \<and> c_isReady E (sst_conditions (sb_status c))) \<and>
    (case mos_proxy (mo_spec (Obj s)) of
       Some _ \<Rightarrow> mst_proxy (mo_status (Obj s')) = Some st
     | None \<Rightarrow> \<exists>c \<in> set cs. sb_name c \<in> cnSetName (Obj s) ` set (cnGroups (Obj s)) \<and> sb_status c = st) \<and>
    mst_host (mo_status (Obj s')) = sst_host st \<and> mst_port (mo_status (Obj s')) = sst_port st"
proof -
  let ?m = "Obj s"
  from run obtain s1 ls dn s2 f s3 s4 s5 s6 s7 where s1: "InitRootCredential (loggedC E) s = (Inr (), s1)"
      and s2: "syncSets U (loggedC E) s1 = (Inr (ls, dn), s2)" and s3: "gcGroups (loggedC E) s2 = (Inr f, s3)"
      and s4: "syncWebUI (loggedC E) s3 = (Inr (), s4)" and s5: "syncProxy (loggedC E) s4 = (Inr (), s5)"
      and s6: "collectStatus (loggedC E) ls dn s5 = (Inr (), s6)" and s7: "initMetrics (loggedC E) f s6 = (Inr (), s7)"
      and fin: "finishUp (loggedC E) f s7 = (Inr (), s')"
    unfolding Up_def by (auto elim!: bindR_InrE)
  have "sameCluster ?m (Obj s1)" using onlySendsD[OF InitRootCredential_sends[OF answers] sameCluster_refl s1] by blast
  moreover have "Obj s2 = Obj s1" using onlySendsD[OF syncSets_keeps refl s2] by blast
  ultimately have g3: "sameCluster ?m (Obj s3)" "groupsCounted E ?m (mst_groups (mo_status (Obj s3))) f"
    using gcGroups_result[OF s3] by auto
  let ?gs = "mst_groups (mo_status (Obj s3))"
  have k3: "keepsGroups ?m ?gs (Obj s3)" using g3 by (simp add: keepsGroups_def)
  have k4: "keepsGroups ?m ?gs (Obj s4)" using onlySendsD[OF syncUI_keeps(1) k3 s4] by blast
  have k5: "keepsGroups ?m ?gs (Obj s5)" using onlySendsD[OF syncUI_keeps(2) k4 s5] by blast
  note c6 = collectStatus_result[OF laws s6]
  have k7: "keepsStatus (Obj s6) (Obj s7)"
    using onlySendsD[OF initMetrics_keeps[OF answers] keepsStatus_refl s7] by blast
  note f = finishUp_done[OF fin]
  have r6: "readyStatus E (Obj s6)" using c6 k7 f by (simp add: keepsStatus_def)
  then have r: "readyStatus E (Obj s')" using readyStatus_keeps[OF k7] f readyStatus_keeps[of "Obj s7"] by blast
  have gs6: "mst_groups (mo_status (Obj s6)) = ?gs" using c6 k5 by (simp add: keepsGroups_def)
  obtain cs where cs: "listedCNs E ?m cs" "gss_desired ?gs = int (length (cnGroups ?m))"
      "gss_ready ?gs = int (length (filter (\<lambda>c. sb_name c \<in> cnSetName ?m ` set (cnGroups ?m) \<and> c_isReady E (sst_conditions (sb_status c))) cs))"
      "f = find (\<lambda>c. sb_name c \<in> cnSetName ?m ` set (cnGroups ?m)) cs"
    using g3(2) unfolding groupsCounted_def by blast
  have "length (cnGroups ?m) \<le> length (filter (\<lambda>c. sb_name c \<in> cnSetName ?m ` set (cnGroups ?m) \<and> c_isReady E (sst_conditions (sb_status c))) cs)"
    using r6 cs(2,3) unfolding readyStatus_def groupsReady_def gs6 by simp
  from all_groups_counted[OF names[OF cs(1)] this]
  have d: "distinct (map (cnSetName ?m) (cnGroups ?m))"
    and all: "\<forall>g \<in> set (cnGroups ?m). \<exists>c \<in> set cs. sb_name c = cnSetName ?m g \<and> c_isReady E (sst_conditions (sb_status c))" by blast+
  have "distinct (map gr_name (cnGroups ?m))" using d by (auto simp: distinct_map inj_on_def cnSetName_def)
  moreover have sp: "mo_spec (Obj s7) = mo_spec ?m" using c6 k7 k5 by (simp add: keepsStatus_def keepsGroups_def sameCluster_def)
  moreover obtain st where st: "case mos_proxy (mo_spec ?m) of Some _ \<Rightarrow> mst_proxy (mo_status (Obj s7)) = Some st | None \<Rightarrow> map_option sb_status f = Some st"
      "mst_host (mo_status (Obj s')) = sst_host st" "mst_port (mo_status (Obj s')) = sst_port st"
    using f sp by auto
  moreover have "case mos_proxy (mo_spec ?m) of
      Some _ \<Rightarrow> mst_proxy (mo_status (Obj s')) = Some st
    | None \<Rightarrow> \<exists>c \<in> set cs. sb_name c \<in> cnSetName ?m ` set (cnGroups ?m) \<and> sb_status c = st"
    using st(1) f cs(4) by (auto simp: keepsStatus_def find_Some_iff set_conv_nth split: option.splits)
  ultimately show ?thesis using r all cs(1) by blast
qed

section \<open>The end of a cluster\<close>

fun finalizeWrite :: "'w cenv \<Rightarrow> mo_cluster \<Rightarrow> cevent \<Rightarrow> bool" where
  "finalizeWrite E m (DeleteAllCNsW ns opt) \<longleftrightarrow> ns = mo_ns m \<and> opt = cnSelector m"
| "finalizeWrite E m (LogCW (WDelete x)) \<longleftrightarrow> (\<exists>w w'. api_get (c_logs E) (LogSetKey m) w = (Inr x, w'))"
| "finalizeWrite E m (DnCW (WDelete x)) \<longleftrightarrow> (\<exists>w w'. api_get (c_dns E) (DNSetKey m) w = (Inr x, w'))"
| "finalizeWrite E m (WebCW (WDelete x)) \<longleftrightarrow> (\<exists>w w'. api_get (c_webuis E) (WebUIKey m) w = (Inr x, w'))"
| "finalizeWrite E m _ \<longleftrightarrow> False"

lemma findR_run:
  assumes "findR (readL (f k)) s = (r, s')"
  shows "Obj s' = Obj s \<and> logOf s' = logOf s \<and> (r = Inr None \<longrightarrow> absent f k) \<and> (\<forall>y. r = Inr (Some y) \<longrightarrow> (\<exists>w w'. f k w = (Inr y, w')))"
  using assms unfolding absent_def findR_def
  by (auto simp: bindR_def attempt_def callW_def readL_def ret_def throw_def split: prod.splits sum.splits if_splits)

lemma ignoreNotFoundR_logs: "ignoreNotFoundR (callW (writeL e f)) s = (r, s') \<Longrightarrow> logOf s' = e # logOf s"
  by (cases "f (fst (world s))"; cases "fst (f (fst (world s)))")
    (auto simp: ignoreNotFoundR_def bindR_def attempt_def callW_def writeL_def ret_def throw_def split: if_splits)

text \<open>One entry of the list: what it sends, and what the answer that nothing exists means.\<close>

definition deletes :: "('e \<Rightarrow> bool) \<Rightarrow> bool \<Rightarrow> (('o, ('w, 'e) elog) ctx, bool) rm \<Rightarrow> bool" where
  "deletes ok A m \<longleftrightarrow> (\<forall>s r s'. m s = (r, s') \<longrightarrow>
     (\<exists>es. logOf s' = es @ logOf s \<and> list_all ok es \<and> (r = Inr False \<longrightarrow> es = [] \<and> A)))"

lemma deleteIfExists_deletes:
  assumes ok: "\<And>y w w'. api_get A k w = (Inr y, w') \<Longrightarrow> ok (ev (WDelete y))"
  shows "deletes ok (absent (api_get A) k) (deleteIfExists (logKind ev A) (newSub k sp))"
  unfolding deletes_def
proof (intro allI impI)
  fix s r s' assume "deleteIfExists (logKind ev A) (newSub k sp) s = (r, s')"
  then have "bindR (findR (readL (api_get A k))) (\<lambda>found. case found of
      None \<Rightarrow> ret False | Some y \<Rightarrow> bindR (ignoreNotFoundR (callW (writeL (ev (WDelete y)) (api_delete A y)))) (\<lambda>_. ret True)) s = (r, s')"
    by (simp add: deleteIfExists_def newSub_def cong: option.case_cong)
  then show "\<exists>es. logOf s' = es @ logOf s \<and> list_all ok es \<and> (r = Inr False \<longrightarrow> es = [] \<and> absent (api_get A) k)"
  proof (cases rule: bindR_cases)
    case (err e)
    with findR_run[where f = "api_get A" and k = k, OF err(1)] show ?thesis by auto
  next
    case (ok found s1)
    note f = findR_run[where f = "api_get A" and k = k, OF ok(1)]
    show ?thesis
    proof (cases found)
      case None
      with ok f show ?thesis by (simp add: ret_def)
    next
      case (Some y)
      with ok(2) have "bindR (ignoreNotFoundR (callW (writeL (ev (WDelete y)) (api_delete A y)))) (\<lambda>_. ret True) s1 = (r, s')" by simp
      then have "logOf s' = [ev (WDelete y)] @ logOf s1 \<and> r \<noteq> Inr False"
        by (cases rule: bindR_cases) (auto simp: ret_def dest: ignoreNotFoundR_logs)
      moreover have "ok (ev (WDelete y))" using f Some assms by blast
      ultimately show ?thesis using f by (intro exI[of _ "[ev (WDelete y)]"]) simp
    qed
  qed
qed

lemma existAny_run:
  assumes "list_all2 (deletes ok) As ms" and "existAny ms s = (r, s')"
  shows "\<exists>es. logOf s' = es @ logOf s \<and> list_all ok es \<and> (r = Inr False \<longrightarrow> es = [] \<and> list_all (\<lambda>A. A) As)"
  using assms
proof (induction As ms arbitrary: s r s' rule: list_all2_induct)
  case Nil
  then show ?case by (simp add: ret_def)
next
  case (Cons A As m ms)
  from Cons.prems have "bindR m (\<lambda>b. bindR (existAny ms) (\<lambda>c. ret (b \<or> c))) s = (r, s')" by simp
  then show ?case
  proof (cases rule: bindR_cases)
    case (err e)
    with Cons.hyps(1) show ?thesis unfolding deletes_def by blast
  next
    case (ok b s1)
    from Cons.hyps(1) ok(1) obtain es where es: "logOf s1 = es @ logOf s" "list_all ok es" "\<not> b \<longrightarrow> es = [] \<and> A"
      unfolding deletes_def by (metis (full_types))
    from ok(2) obtain r' s2 where ex: "existAny ms s1 = (r', s2)" and r: "r = (case r' of Inl e \<Rightarrow> Inl e | Inr c \<Rightarrow> Inr (b \<or> c))" "s2 = s'"
      by (auto simp: bindR_def ret_def split: prod.splits sum.splits)
    from Cons.IH[OF ex] r(2) obtain es' where es': "logOf s' = es' @ logOf s1" "list_all ok es'" "r' = Inr False \<longrightarrow> es' = [] \<and> list_all (\<lambda>A. A) As"
      by blast
    have "logOf s' = (es' @ es) @ logOf s" "list_all ok (es' @ es)" using es es' by simp_all
    moreover have "r = Inr False \<longrightarrow> es' @ es = [] \<and> list_all (\<lambda>A. A) (A # As)" using r(1) es(3) es'(3) by (auto split: sum.splits)
    ultimately show ?thesis by blast
  qed
qed

text \<open>C16 (\<^verbatim>\<open>Finalize\<close> of the cluster): a deleted cluster is let go when its log set, its DN set and its web UI are gone, after all
  CN sets with its label were asked to be deleted. Nothing else is deleted: the proxy is neither deleted nor waited for, and the
  deletion of the CN sets is not waited for.\<close>

theorem cluster_finalize:
  assumes sync: "gstr (mo_annos (Obj s)) annSkipSync = []" and run: "ClusterFinalize (loggedC E) s = (r, s')"
  shows "\<exists>es. logOf s' = es @ DeleteAllCNsW (mo_ns (Obj s)) (cnSelector (Obj s)) # logOf s \<and> list_all (finalizeWrite E (Obj s)) es \<and>
    (r = Inr True \<longrightarrow> es = [] \<and> absent (api_get (c_logs E)) (LogSetKey (Obj s)) \<and> absent (api_get (c_dns E)) (DNSetKey (Obj s)) \<and>
      absent (api_get (c_webuis E)) (WebUIKey (Obj s)))"
proof -
  let ?m = "Obj s"
  let ?del = "DeleteAllCNsW (mo_ns ?m) (cnSelector ?m)"
  let ?As = "[absent (api_get (c_logs E)) (LogSetKey ?m), absent (api_get (c_dns E)) (DNSetKey ?m),
    absent (api_get (c_webuis E)) (WebUIKey ?m), absent (api_get (c_webuis E)) (ProxyKey ?m)]"
  have objs: "list_all2 (deletes (finalizeWrite E ?m)) ?As (clusterObjs (loggedC E) ?m)"
    unfolding clusterObjs_def loggedC_simps
    by (auto simp: ProxyKey_def WebUIKey_def intro!: deleteIfExists_deletes) blast+
  have send: "ignoreNotFoundR (callW (c_deleteAllCNs (loggedC E) (mo_ns ?m) (cnSelector ?m))) s = (r1, s1) \<Longrightarrow> logOf s1 = ?del # logOf s" for r1 s1
    by (simp add: ignoreNotFoundR_logs)
  from run sync have "bindR (ignoreNotFoundR (callW (c_deleteAllCNs (loggedC E) (mo_ns ?m) (cnSelector ?m)))) (\<lambda>_.
      bindR (existAny (clusterObjs (loggedC E) ?m)) (\<lambda>any. ret (\<not> any))) s = (r, s')"
    unfolding ClusterFinalize_def bindR_getObj by simp
  then show ?thesis
  proof (cases rule: bindR_cases)
    case (err e)
    with send[OF err(1)] show ?thesis by auto
  next
    case (ok u s1)
    from ok(2) obtain r' where ex: "existAny (clusterObjs (loggedC E) ?m) s1 = (r', s')" and r: "r = (case r' of Inl e \<Rightarrow> Inl e | Inr c \<Rightarrow> Inr (\<not> c))"
      by (auto simp: bindR_def ret_def split: prod.splits sum.splits)
    from existAny_run[OF objs ex] send[OF ok(1)] r show ?thesis by (auto split: sum.splits)
  qed
qed

section \<open>A credential that is there\<close>

text \<open>The world after \<open>n\<close> more reconciliations of the cluster as the server stores it.\<close>

fun retries :: "tools \<Rightarrow> 'w cenv \<Rightarrow> mo_cluster \<Rightarrow> nat \<Rightarrow> 'w \<Rightarrow> 'w" where
  "retries U E m 0 w = w"
| "retries U E m (Suc n) w = retries U E m n (world (snd (ClusterObserve U E \<lparr>Obj = m, world = w\<rparr>)))"

lemma observe_credential:
  assumes "mst_credential (mo_status m) = None" "gstr (mo_annos m) annSkipSync = []" "mos_restoreFrom (mo_spec m) = None"
    and "api_create (c_secrets E) (rootSecret m) w = (r, w1)"
  shows "ClusterObserve U E \<lparr>Obj = m, world = w\<rparr> = (case r of
      Inl e \<Rightarrow> (Inl (wrapPrefix ''init cluster credential'' e), \<lparr>Obj = m, world = w1\<rparr>)
    | Inr sec \<Rightarrow> Up U E \<lparr>Obj = m, world = w\<rparr>)"
  using assms
  by (auto simp: ClusterObserve_def Up_def InitRootCredential_def bindR_getObj bindR_def wrapE_def callW_def ret_def getObj_def split: sum.splits)

text \<open>C17 (\<^verbatim>\<open>InitRootCredential\<close>): the creation of the root credential is not repeatable. If the secret was created and the status update that
  should record it failed, every later reconciliation tries to create the secret again and ends with the error that it already exists:
  the cluster is never built. The server refuses to create an object twice.\<close>

theorem credential_init_stuck:
  fixes there :: "'w \<Rightarrow> bool"
  assumes none: "mst_credential (mo_status m) = None" "gstr (mo_annos m) annSkipSync = []" "mos_restoreFrom (mo_spec m) = None"
    and created: "\<And>w y w'. api_create (c_secrets E) (rootSecret m) w = (Inr y, w') \<Longrightarrow> there w'"
    and again: "\<And>w. there w \<Longrightarrow> \<exists>e w'. api_create (c_secrets E) (rootSecret m) w = (Inl e, w') \<and> ekind e = AlreadyExists \<and> there w'"
    and kept: "\<And>x w r w'. there w \<Longrightarrow> c_updateStatus E x w = (r, w') \<Longrightarrow> there w'"
    and first: "api_create (c_secrets E) (rootSecret m) w = (Inr sec, w1)"
      "c_updateStatus E (m\<lparr>mo_status := (mo_status m)\<lparr>mst_credential := Some (sec_name sec)\<rparr>\<rparr>) w1 = (Inl e, w2)"
  shows "fst (ClusterObserve U E \<lparr>Obj = m, world = w\<rparr>) = Inl (wrapPrefix ''init cluster credential'' e) \<and>
    (\<exists>e'. ekind e' = AlreadyExists \<and> fst (ClusterObserve U E \<lparr>Obj = m, world = retries U E m (Suc n) w\<rparr>) = Inl e')"
proof -
  have run1: "ClusterObserve U E \<lparr>Obj = m, world = w\<rparr> =
      (Inl (wrapPrefix ''init cluster credential'' e), \<lparr>Obj = m\<lparr>mo_status := (mo_status m)\<lparr>mst_credential := Some (sec_name sec)\<rparr>\<rparr>, world = w2\<rparr>)"
    using none first
    by (simp add: ClusterObserve_def Up_def InitRootCredential_def bindR_getObj bindR_def wrapE_def callW_def ret_def getObj_def modObj_def updateObj_def)
  have step: "\<exists>e' v'. ClusterObserve U E \<lparr>Obj = m, world = v\<rparr> = (Inl e', \<lparr>Obj = m, world = v'\<rparr>) \<and> ekind e' = AlreadyExists \<and> there v'"
    if v: "there v" for v
  proof -
    obtain e0 v1 where c: "api_create (c_secrets E) (rootSecret m) v = (Inl e0, v1)" "ekind e0 = AlreadyExists" "there v1" using again[OF v] by blast
    then show ?thesis using observe_credential[OF none c(1), of U] by auto
  qed
  have "there v \<Longrightarrow> there (retries U E m n v)" for v
  proof (induction n arbitrary: v)
    case 0
    then show ?case by simp
  next
    case (Suc n)
    from step[OF Suc.prems] have "there (world (snd (ClusterObserve U E \<lparr>Obj = m, world = v\<rparr>)))" by auto
    from Suc.IH[OF this] show ?case by simp
  qed
  moreover have "there w2" using created[OF first(1)] kept first(2) by blast
  ultimately have "there (retries U E m (Suc n) w)" using run1 by simp
  from step[OF this] run1 show ?thesis by (metis fst_conv)
qed

section \<open>A cluster in memory\<close>

record clu_mem =
  vm_logs :: "log_spec sub list"
  vm_dns :: "dn_spec sub list"
  vm_cns :: "cn_spec sub list"
  vm_webs :: "webui_spec sub list"
  vm_secrets :: "secret list"

definition subKind :: "('v \<Rightarrow> 'sp sub list) \<Rightarrow> ('sp sub list \<Rightarrow> 'v \<Rightarrow> 'v) \<Rightarrow> ('sp sub, 'v) kind_api" where
  "subKind sel upd = memKind (\<lambda>x. (sb_ns x, sb_name x)) sb_labels sel upd"

text \<open>One object per name.\<close>

fun byName :: "'sp sub list \<Rightarrow> 'sp sub list" where
  "byName [] = []"
| "byName (x # xs) = x # filter (\<lambda>y. sb_name y \<noteq> sb_name x) (byName xs)"

lemma byName_distinct: "distinct (map sb_name (byName xs))"
  by (induction xs) (auto simp: distinct_map_filter)

definition cluEnv :: "clu_mem cenv" where
  "cluEnv = \<lparr>c_logs = subKind vm_logs (\<lambda>xs w. w\<lparr>vm_logs := xs\<rparr>), c_dns = subKind vm_dns (\<lambda>xs w. w\<lparr>vm_dns := xs\<rparr>),
     c_cns = (subKind vm_cns (\<lambda>xs w. w\<lparr>vm_cns := xs\<rparr>))\<lparr>api_list := (\<lambda>ns opt w. (Inr (byName (filter (\<lambda>x. sb_ns x = ns \<and> memMatches opt (sb_labels x)) (vm_cns w))), w))\<rparr>,
     c_webuis = subKind vm_webs (\<lambda>xs w. w\<lparr>vm_webs := xs\<rparr>),
     c_webuiBegin = (\<lambda>x w. (Inr x, w)), c_webuiCommit = (\<lambda>x y w. (Inr y, w)),
     c_proxyBegin = (\<lambda>x w. (Inr x, w)), c_proxyCommit = (\<lambda>x y w. (Inr y, w)),
     c_restoreBegin = (\<lambda>x w. (Inr x, w)), c_restoreCommit = (\<lambda>x y w. (Inr y, w)),
     c_backups = (\<lambda>k w. (Inr (snd k), w)),
     c_secrets = (memKind (\<lambda>x. (sec_ns x, sec_name x)) (\<lambda>_. None) vm_secrets (\<lambda>xs w. w\<lparr>vm_secrets := xs\<rparr>))\<lparr>api_create := (\<lambda>x w.
       if (sec_ns x, sec_name x) \<in> (\<lambda>y. (sec_ns y, sec_name y)) ` set (vm_secrets w) then (Inl (Err AlreadyExists ''exists''), w)
       else (Inr x, w\<lparr>vm_secrets := x # vm_secrets w\<rparr>))\<rparr>,
     c_deleteAllCNs = (\<lambda>ns opt w. (Inr (), w\<lparr>vm_cns := filter (\<lambda>x. \<not> (sb_ns x = ns \<and> memMatches opt (sb_labels x))) (vm_cns w)\<rparr>)),
     c_updateStatus = (\<lambda>m w. (Inr m, w)),
     c_setCondition = (\<lambda>cs c w. (c # filter (\<lambda>d. cd_type d \<noteq> cd_type c) cs, w)),
     c_isReady = list_ex (\<lambda>c. cd_type c = ConditionTypeReady \<and> cd_status c = ConditionTrue),
     c_isSynced = list_ex (\<lambda>c. cd_type c = ConditionTypeSynced \<and> cd_status c = ConditionTrue),
     c_query = (\<lambda>h k q w. (Inr (), w)), c_rand = (\<lambda>w. (replicate 44 CHR ''a'', w)),
     c_sameLog = (=), c_sameDN = (=), c_sameCN = (=), c_upsertGroup = upsertKey gst_name\<rparr>"

lemma cluEnv_laws: "clusterConditionLaws cluEnv" "statusAnswers cluEnv" "listedCNs cluEnv m cs \<Longrightarrow> distinct (map sb_name cs)"
  by (auto simp: clusterConditionLaws_def statusAnswers_def listedCNs_def cluEnv_def list_ex_iff byName_distinct)

definition smallGroup :: cn_group where
  "smallGroup = \<lparr>gr_spec = zeroCNSpec, gr_name = ''g''\<rparr>"

definition smallCluster :: mo_cluster where
  "smallCluster = \<lparr>mo_name = ''m'', mo_ns = ''ns'', mo_annos = None,
     mo_spec = \<lparr>mos_tp = None, mos_ap = None, mos_groups = [smallGroup], mos_dn = None, mos_tn = Some zeroDNSpec, mos_log = zeroLogSpec,
       mos_webui = None, mos_proxy = None, mos_version = ''2'', mos_repository = ''mo'', mos_topology = None, mos_nodeSelector = None,
       mos_pullPolicy = None, mos_restoreFrom = None, mos_metricReader = None, mos_semVersion = None, mos_opVersion = None, mos_memoryFs = None\<rparr>,
     mo_status = \<lparr>mst_conditions = [], mst_phase = [], mst_credential = None, mst_metricSecret = None, mst_metricInitialized = False,
       mst_groups = \<lparr>gss_desired = 0, gss_ready = 0, gss_synced = 0, gss_groups = []\<rparr>, mst_dn = None, mst_proxy = None, mst_webui = None,
       mst_log = None, mst_host = [], mst_port = 0\<rparr>\<rparr>"

definition cluWorld :: clu_mem where
  "cluWorld = \<lparr>vm_logs = [], vm_dns = [], vm_cns = [], vm_webs = [], vm_secrets = []\<rparr>"

lemmas cluster_run_defs = cluEnv_def subKind_def memKind_def Let_def

theorem credential_init_stuck_witness:
  "\<exists>e. ekind e = AlreadyExists \<and>
    fst (ClusterObserve sampleTools (cluEnv\<lparr>c_updateStatus := (\<lambda>_ w. (Inl (Err Conflict []), w))\<rparr>) \<lparr>Obj = smallCluster,
      world = retries sampleTools (cluEnv\<lparr>c_updateStatus := (\<lambda>_ w. (Inl (Err Conflict []), w))\<rparr>) smallCluster (Suc 5) cluWorld\<rparr>) = Inl e"
proof -
  let ?E = "cluEnv\<lparr>c_updateStatus := (\<lambda>_ w. (Inl (Err Conflict []), w))\<rparr>"
  let ?there = "\<lambda>w. (''ns'', ''m-credential'') \<in> (\<lambda>y. (sec_ns y, sec_name y)) ` set (vm_secrets w)"
  have key: "sec_ns (rootSecret smallCluster) = ''ns''" "sec_name (rootSecret smallCluster) = ''m-credential''"
    by (simp_all add: rootSecret_def credentialName_def smallCluster_def)
  have small: "mst_credential (mo_status smallCluster) = None" "gstr (mo_annos smallCluster) annSkipSync = []" "mos_restoreFrom (mo_spec smallCluster) = None"
    by (simp_all add: smallCluster_def gstr_def gget_def)
  have "fst (ClusterObserve sampleTools ?E \<lparr>Obj = smallCluster, world = cluWorld\<rparr>) = Inl (wrapPrefix ''init cluster credential'' (Err Conflict [])) \<and>
    (\<exists>e'. ekind e' = AlreadyExists \<and> fst (ClusterObserve sampleTools ?E \<lparr>Obj = smallCluster, world = retries sampleTools ?E smallCluster (Suc 5) cluWorld\<rparr>) = Inl e')"
    by (rule credential_init_stuck[where there = ?there and sec = "rootSecret smallCluster" and ?w1.0 = "cluWorld\<lparr>vm_secrets := [rootSecret smallCluster]\<rparr>"
          and ?w2.0 = "cluWorld\<lparr>vm_secrets := [rootSecret smallCluster]\<rparr>"])
      (auto simp: cluEnv_def key cluWorld_def small split: if_splits)
  then show ?thesis by blast
qed

theorem cluster_finalize_witness:
  "\<exists>s'. ClusterFinalize (loggedC cluEnv) \<lparr>Obj = smallCluster, world = (cluWorld, [])\<rparr> = (Inr True, s') \<and>
     absent (api_get (c_logs cluEnv)) (LogSetKey smallCluster) \<and> logOf s' = [DeleteAllCNsW ''ns'' (cnSelector smallCluster)]"
proof -
  let ?s = "\<lparr>Obj = smallCluster, world = (cluWorld, [] :: cevent list)\<rparr>"
  have sync: "gstr (mo_annos (Obj ?s)) annSkipSync = []" by (simp add: smallCluster_def gstr_def gget_def)
  have "fst (ClusterFinalize (loggedC cluEnv) ?s) = Inr True"
    using sync
    by (simp add: ClusterFinalize_def clusterObjs_def deleteIfExists_def findR_def ignoreNotFoundR_def attempt_def bindR_def getObj_def callW_def readL_def
        writeL_def ret_def cluEnv_def subKind_def memKind_def Let_def cluWorld_def notFoundErr_def IsNotFound_def isPanic_def)
  then obtain s' where run: "ClusterFinalize (loggedC cluEnv) ?s = (Inr True, s')" by (metis prod.collapse)
  from cluster_finalize[OF sync run] run show ?thesis by (auto simp: smallCluster_def)
qed

text \<open>A set that is as it should be is left alone.\<close>

lemma createOwnedOrUpdate_same:
  assumes "api_get A (sb_ns obj, sb_name obj) w = (Inr x, w)" "f x = Inr x" "keyed (sb_ns obj, sb_name obj) x" "same x x"
  shows "createOwnedOrUpdate (logKind ev A) same obj f \<lparr>Obj = m, world = (w, l)\<rparr> = (Inr (OperationResultNone, x), \<lparr>Obj = m, world = (w, l)\<rparr>)"
  using assms
  by (simp add: createOwnedOrUpdate_def Let_def findR_def attempt_def bindR_def callW_def readL_def ret_def liftE_def mutate_def thenE_def keyed_def)

definition readyStat :: set_status where
  "readyStat = \<lparr>sst_conditions = [newCondition ConditionTypeReady ConditionTrue ''r'' []], sst_host = ''h'', sst_port = 6001\<rparr>"

definition readyCluster :: mo_cluster where
  "readyCluster = smallCluster\<lparr>mo_status := (mo_status smallCluster)\<lparr>mst_credential := Some ''c''\<rparr>\<rparr>"

definition readyLog :: "log_spec sub" where
  "readyLog = (newSub (''ns'', ''m'') (logSpecOf readyCluster))\<lparr>sb_status := readyStat\<rparr>"

definition readyDN :: "dn_spec sub" where
  "readyDN = (newSub (''ns'', ''m'') (case dnSpecOf readyCluster of Inr d \<Rightarrow> d | Inl _ \<Rightarrow> zeroDNSpec))\<lparr>sb_status := readyStat\<rparr>"

definition readyCN :: "cn_spec sub" where
  "readyCN = (CNSetKey readyCluster ''m-g'')\<lparr>sb_spec := groupSpec sampleTools readyCluster ''c'' smallGroup, sb_status := readyStat\<rparr>"

definition readyWorld :: clu_mem where
  "readyWorld = cluWorld\<lparr>vm_logs := [readyLog], vm_dns := [readyDN], vm_cns := [readyCN, readyCN\<lparr>sb_name := ''m-old''\<rparr>]\<rparr>"

lemma ready_names:
  "mo_name readyCluster = ''m''" "mo_ns readyCluster = ''ns''" "LogSetKey readyCluster = (''ns'', ''m'')" "DNSetKey readyCluster = (''ns'', ''m'')"
  "cnGroups readyCluster = [smallGroup]" "cnSetName readyCluster smallGroup = ''m-g''" "mst_credential (mo_status readyCluster) = Some ''c''"
  "mos_proxy (mo_spec readyCluster) = None" "mos_webui (mo_spec readyCluster) = None" "GetMetricReaderEnabled readyCluster = False"
  by (simp_all add: readyCluster_def smallCluster_def LogSetKey_def DNSetKey_def cnGroups_def cnSetName_def smallGroup_def GetMetricReaderEnabled_def)

lemma ready_sync: "syncSets sampleTools (loggedC cluEnv) \<lparr>Obj = readyCluster, world = (readyWorld, l)\<rparr> =
    (Inr (readyLog, readyDN), \<lparr>Obj = readyCluster, world = (readyWorld, l)\<rparr>)"
proof -
  have log: "createOwnedOrUpdate (logKind LogCW (c_logs cluEnv)) (=) (newSub (''ns'', ''m'') zeroLogSpec) (\<lambda>x. Inr (x\<lparr>sb_spec := logSpecOf readyCluster\<rparr>))
      \<lparr>Obj = readyCluster, world = (readyWorld, l)\<rparr> = (Inr (OperationResultNone, readyLog), \<lparr>Obj = readyCluster, world = (readyWorld, l)\<rparr>)"
    by (rule createOwnedOrUpdate_same) (simp_all add: cluEnv_def subKind_def memKind_def Let_def newSub_def readyWorld_def readyLog_def keyed_def)
  have dn: "createOwnedOrUpdate (logKind DnCW (c_dns cluEnv)) (=) ((newSub (''ns'', ''m'') zeroDNSpec)\<lparr>sb_logSet := Some (''ns'', ''m'')\<rparr>)
      (\<lambda>x. thenE (dnSpecOf readyCluster) (\<lambda>sp. Inr (x\<lparr>sb_spec := sp\<rparr>)))
      \<lparr>Obj = readyCluster, world = (readyWorld, l)\<rparr> = (Inr (OperationResultNone, readyDN), \<lparr>Obj = readyCluster, world = (readyWorld, l)\<rparr>)"
    by (rule createOwnedOrUpdate_same)
      (simp_all add: cluEnv_def subKind_def memKind_def Let_def newSub_def readyWorld_def readyDN_def keyed_def thenE_def dnSpecOf_def GetTN_def
        readyCluster_def smallCluster_def)
  have cn: "syncOneGroup sampleTools (loggedC cluEnv) smallGroup \<lparr>Obj = readyCluster, world = (readyWorld, l)\<rparr> =
      (Inr (), \<lparr>Obj = readyCluster, world = (readyWorld, l)\<rparr>)"
  proof -
    have "createOwnedOrUpdate (logKind CnCW (c_cns cluEnv)) (=) ((CNSetKey readyCluster ''m-g'')\<lparr>sb_logSet := Some (''ns'', ''m''), sb_dnSet := Some (''ns'', ''m'')\<rparr>)
        (syncGroup sampleTools readyCluster smallGroup) \<lparr>Obj = readyCluster, world = (readyWorld, l)\<rparr> =
        (Inr (OperationResultNone, readyCN), \<lparr>Obj = readyCluster, world = (readyWorld, l)\<rparr>)"
      by (rule createOwnedOrUpdate_same)
        (simp_all add: cluEnv_def subKind_def memKind_def Let_def newSub_def readyWorld_def readyCN_def keyed_def syncGroup_def CNSetKey_def ready_names gmake_def)
    then show ?thesis unfolding syncOneGroup_def bindR_getObj by (simp add: ready_names cluEnv_def bindR_def ret_def)
  qed
  show ?thesis using log dn cn unfolding syncSets_def bindR_getObj
    by (simp add: ready_names cluEnv_def bindR_def ret_def wrapE_def)
qed

definition readyGroups :: groups_status where
  "readyGroups = \<lparr>gss_desired = 1, gss_ready = 1, gss_synced = 0, gss_groups = [groupStatusOf cluEnv readyCluster readyCN]\<rparr>"

lemma ready_gc: "gcGroups (loggedC cluEnv) \<lparr>Obj = readyCluster, world = (readyWorld, l)\<rparr> =
    (Inr (Some readyCN), \<lparr>Obj = readyCluster\<lparr>mo_status := (mo_status readyCluster)\<lparr>mst_groups := readyGroups\<rparr>\<rparr>,
      world = (readyWorld\<lparr>vm_cns := [readyCN]\<rparr>, CnCW (WDelete (readyCN\<lparr>sb_name := ''m-old''\<rparr>)) # l)\<rparr>)"
proof -
  have list: "api_list (c_cns cluEnv) ''ns'' (cnSelector readyCluster) readyWorld = (Inr [readyCN, readyCN\<lparr>sb_name := ''m-old''\<rparr>], readyWorld)"
    by (simp add: cluEnv_def readyWorld_def readyCN_def CNSetKey_def newSub_def ready_names cnSelector_def gget_def)
  have del: "api_delete (c_cns cluEnv) (readyCN\<lparr>sb_name := ''m-old''\<rparr>) readyWorld = (Inr (), readyWorld\<lparr>vm_cns := [readyCN]\<rparr>)"
    by (simp add: cluEnv_def subKind_def memKind_def Let_def readyWorld_def readyCN_def CNSetKey_def newSub_def)
  have cn: "sb_name readyCN = ''m-g''" "c_isReady cluEnv (sst_conditions (sb_status readyCN))" "\<not> c_isSynced cluEnv (sst_conditions (sb_status readyCN))"
    by (simp_all add: readyCN_def CNSetKey_def newSub_def cluEnv_def readyStat_def newCondition_def ConditionTypeReady_def ConditionTypeSynced_def)
  show ?thesis unfolding gcGroups_def bindR_getObj
    by (simp add: ready_names list del cn bindR_def callW_def readL_def writeL_def wrapE_def ret_def modObj_def countGroup_def groupStatusOf_def readyGroups_def Let_def)
      (simp add: cluEnv_def)
qed

lemma ready_condition: "setClusterCondition (loggedC cluEnv) c \<lparr>Obj = m, world = (w, l)\<rparr> =
    (Inr (), \<lparr>Obj = m\<lparr>mo_status := (mo_status m)\<lparr>mst_conditions := (if cd_reason c = [] then c\<lparr>cd_reason := reasonEmpty\<rparr> else c) #
       filter (\<lambda>d. cd_type d \<noteq> cd_type c) (mst_conditions (mo_status m))\<rparr>\<rparr>, world = (w, l)\<rparr>)"
  by (simp add: setClusterCondition_def bindR_def getObj_def readW_def readL_def modObj_def cluEnv_def)

lemma ready_collect:
  assumes "mos_proxy (mo_spec m) = None" "mst_groups (mo_status m) = readyGroups" "sb_status ls = readyStat" "sb_status dn = readyStat"
  shows "\<exists>st. collectStatus (loggedC cluEnv) ls dn \<lparr>Obj = m, world = (w, l)\<rparr> = (Inr (), \<lparr>Obj = m\<lparr>mo_status := st\<rparr>, world = (w, l)\<rparr>) \<and>
    c_isReady cluEnv (mst_conditions st)"
proof -
  let ?st1 = "(mo_status m)\<lparr>mst_log := Some readyStat, mst_dn := Some readyStat, mst_phase := ''NotReady''\<rparr>"
  have set: "\<exists>cs. setClusterCondition (loggedC cluEnv) c \<lparr>Obj = m\<lparr>mo_status := st\<rparr>, world = (w, l)\<rparr> =
      (Inr (), \<lparr>Obj = m\<lparr>mo_status := st\<lparr>mst_conditions := cs\<rparr>\<rparr>, world = (w, l)\<rparr>) \<and> (cd_reason c \<noteq> [] \<longrightarrow> c \<in> set cs)" for c st
    by (intro exI[where x = "(if cd_reason c = [] then c\<lparr>cd_reason := reasonEmpty\<rparr> else c) # filter (\<lambda>d. cd_type d \<noteq> cd_type c) (mst_conditions st)"])
      (simp add: ready_condition)
  obtain cs1 where s1: "setClusterCondition (loggedC cluEnv) (syncedCondition (loggedC cluEnv) (m\<lparr>mo_status := ?st1\<rparr>)) \<lparr>Obj = m\<lparr>mo_status := ?st1\<rparr>, world = (w, l)\<rparr> =
      (Inr (), \<lparr>Obj = m\<lparr>mo_status := ?st1\<lparr>mst_conditions := cs1\<rparr>\<rparr>, world = (w, l)\<rparr>)" using set by blast
  let ?r = "readyCondition (loggedC cluEnv) (m\<lparr>mo_status := ?st1\<lparr>mst_conditions := cs1\<rparr>\<rparr>)"
  obtain cs2 where s2: "setClusterCondition (loggedC cluEnv) ?r \<lparr>Obj = m\<lparr>mo_status := ?st1\<lparr>mst_conditions := cs1\<rparr>\<rparr>, world = (w, l)\<rparr> =
      (Inr (), \<lparr>Obj = m\<lparr>mo_status := ?st1\<lparr>mst_conditions := cs1, mst_conditions := cs2\<rparr>\<rparr>, world = (w, l)\<rparr>)" and r: "?r \<in> set cs2"
    using set[of ?r "?st1\<lparr>mst_conditions := cs1\<rparr>"] readyCondition_type(2) by blast
  have "c_isReady cluEnv (sst_conditions readyStat)" by (simp add: cluEnv_def readyStat_def newCondition_def)
  then have true: "cd_status ?r = ConditionTrue"
    using assms by (simp add: readyCondition_True condsOf_def groupsReady_def readyGroups_def)
  have "c_isReady cluEnv cs2" using r true readyCondition_type(1) by (auto simp: cluEnv_def list_ex_iff)
  moreover have "collectStatus (loggedC cluEnv) ls dn \<lparr>Obj = m, world = (w, l)\<rparr> =
      (Inr (), \<lparr>Obj = m\<lparr>mo_status := ?st1\<lparr>mst_conditions := cs1, mst_conditions := cs2, mst_phase := ''Ready''\<rparr>\<rparr>, world = (w, l)\<rparr>)"
    unfolding collectStatus_def bindR_getObj bindR_def modObj_def using assms s1 s2 true by (simp add: getObj_def)
  ultimately show ?thesis by (intro exI conjI) (assumption, simp)
qed

lemma ready_up: "\<exists>s'. Up sampleTools (loggedC cluEnv) \<lparr>Obj = readyCluster, world = (readyWorld, [])\<rparr> = (Inr (), s') \<and>
    logOf s' = [CnCW (WDelete (readyCN\<lparr>sb_name := ''m-old''\<rparr>))]"
proof -
  let ?m = "readyCluster\<lparr>mo_status := (mo_status readyCluster)\<lparr>mst_groups := readyGroups\<rparr>\<rparr>"
  let ?l = "[CnCW (WDelete (readyCN\<lparr>sb_name := ''m-old''\<rparr>))]"
  have init: "InitRootCredential (loggedC cluEnv) \<lparr>Obj = readyCluster, world = x\<rparr> = (Inr (), \<lparr>Obj = readyCluster, world = x\<rparr>)" for x
    by (simp add: InitRootCredential_def bindR_getObj ready_names ret_def)
  have ui: "syncWebUI (loggedC cluEnv) \<lparr>Obj = ?m, world = x\<rparr> = (Inr (), \<lparr>Obj = ?m, world = x\<rparr>)"
      "syncProxy (loggedC cluEnv) \<lparr>Obj = ?m, world = x\<rparr> = (Inr (), \<lparr>Obj = ?m, world = x\<rparr>)" for x
    by (simp_all add: syncWebUI_def syncProxy_def bindR_getObj ready_names ret_def)
  have "mos_proxy (mo_spec ?m) = None" "mst_groups (mo_status ?m) = readyGroups" "sb_status readyLog = readyStat" "sb_status readyDN = readyStat"
    by (simp_all add: ready_names readyLog_def readyDN_def)
  from ready_collect[OF this, of "readyWorld\<lparr>vm_cns := [readyCN]\<rparr>" ?l] obtain st where
      coll: "collectStatus (loggedC cluEnv) readyLog readyDN \<lparr>Obj = ?m, world = (readyWorld\<lparr>vm_cns := [readyCN]\<rparr>, ?l)\<rparr> =
        (Inr (), \<lparr>Obj = ?m\<lparr>mo_status := st\<rparr>, world = (readyWorld\<lparr>vm_cns := [readyCN]\<rparr>, ?l)\<rparr>)"
      and ready: "c_isReady cluEnv (mst_conditions st)" by blast
  have metric: "initMetrics (loggedC cluEnv) f \<lparr>Obj = readyCluster\<lparr>mo_status := st\<rparr>, world = x\<rparr> = (Inr (), \<lparr>Obj = readyCluster\<lparr>mo_status := st\<rparr>, world = x\<rparr>)" for f x
    using ready_names(10) by (simp add: initMetrics_def bindR_getObj GetMetricReaderEnabled_def ret_def)
  have fin: "\<exists>m'. finishUp (loggedC cluEnv) (Some readyCN) \<lparr>Obj = readyCluster\<lparr>mo_status := st\<rparr>, world = x\<rparr> = (Inr (), \<lparr>Obj = m', world = x\<rparr>)" for x
    using ready by (simp add: finishUp_def bindR_getObj ready_names ret_def modObj_def)
  show ?thesis unfolding Up_def using fin[of "(readyWorld\<lparr>vm_cns := [readyCN]\<rparr>, ?l)"]
    by (auto simp: bindR_def wrapE_def init ready_sync ready_gc ui coll metric)
qed

theorem cluster_complete_witness:
  "\<exists>s'. Up sampleTools (loggedC cluEnv) \<lparr>Obj = readyCluster, world = (readyWorld, [])\<rparr> = (Inr (), s') \<and>
     readyStatus cluEnv (Obj s') \<and> distinct (map gr_name (cnGroups readyCluster))"
proof -
  let ?s = "\<lparr>Obj = readyCluster, world = (readyWorld, [] :: cevent list)\<rparr>"
  obtain s' where run: "Up sampleTools (loggedC cluEnv) ?s = (Inr (), s')" using ready_up by blast
  have names: "\<And>cs. listedCNs cluEnv (Obj ?s) cs \<Longrightarrow> distinct (map sb_name cs)" by (rule cluEnv_laws(3))
  from cluster_complete[OF cluEnv_laws(1,2) names run] run show ?thesis by auto
qed

theorem cluster_writes_witness:
  "\<exists>s'. ClusterObserve sampleTools (loggedC cluEnv) \<lparr>Obj = readyCluster, world = (readyWorld, [])\<rparr> = (Inr (), s') \<and>
     logOf s' = [CnCW (WDelete (readyCN\<lparr>sb_name := ''m-old''\<rparr>))] \<and> list_all (clusterWrite sampleTools cluEnv readyCluster) (logOf s')"
proof -
  let ?s = "\<lparr>Obj = readyCluster, world = (readyWorld, [] :: cevent list)\<rparr>"
  obtain s' where "Up sampleTools (loggedC cluEnv) ?s = (Inr (), s')" and l: "logOf s' = [CnCW (WDelete (readyCN\<lparr>sb_name := ''m-old''\<rparr>))]"
    using ready_up by blast
  then have run: "ClusterObserve sampleTools (loggedC cluEnv) ?s = (Inr (), s')"
    by (simp add: ClusterObserve_def bindR_getObj gstr_def gget_def readyCluster_def smallCluster_def)
  from cluster_writes[OF cluEnv_laws(2) run] run l show ?thesis by auto
qed

end
