(* ===== verification/Webhooks.thy ===== *)
theory Webhooks
  imports Cluster_Control CNClaim
begin

text \<open>
  The admission hooks: the defaults and the validation of log sets, DN sets, CN sets, proxies, web UIs and clusters
  (\<^verbatim>\<open>pkg/webhook\<close>) and the hook of CN claims (\<^verbatim>\<open>pkg/hook\<close>). The Kubernetes validation code (\<^verbatim>\<open>webhook/corevalidation\<close>, a copy of
  the upstream package, with the conversions to its internal types) is the record \<open>checks\<close>.

  The theorems connect the hooks with the controllers: what the cluster controller writes is stable under the hooks, an accepted
  cluster satisfies what the cluster controller needs, an accepted update keeps what must not change.
\<close>

section \<open>Field errors and the Kubernetes checks\<close>

type_synonym fpath = "string list"

datatype ferr = FieldInvalid (fe_path: fpath) (fe_msg: string)

text \<open>A check of a value that is converted first answers with the conversion error or the field errors.\<close>

record checks =
  k_resources :: "string \<Rightarrow> fpath \<Rightarrow> string + ferr list"
  k_fqdn :: "fpath \<Rightarrow> string \<Rightarrow> ferr list"
  k_labels :: "gomap \<Rightarrow> fpath \<Rightarrow> ferr list"
  k_annos :: "gomap \<Rightarrow> fpath \<Rightarrow> ferr list"
  k_envFrom :: "string list \<Rightarrow> fpath \<Rightarrow> string + ferr list"
  k_env :: "env_var list \<Rightarrow> fpath \<Rightarrow> string + ferr list"
  k_pullPolicy :: "string \<Rightarrow> fpath \<Rightarrow> ferr list"
  k_mounts :: "mount list \<Rightarrow> string option"
  k_probe :: "string \<Rightarrow> fpath \<Rightarrow> string + ferr list"
  k_lifecycle :: "string \<Rightarrow> fpath \<Rightarrow> string + ferr list"
  k_security :: "string \<Rightarrow> fpath \<Rightarrow> string + ferr list"
  k_volumes :: "volume list \<Rightarrow> fpath \<Rightarrow> string + (volume list \<times> ferr list)"
  k_claims :: "pvc list \<Rightarrow> string option"
  k_claimSpec :: "pvc \<Rightarrow> fpath \<Rightarrow> ferr list"
  k_containers :: "volume list \<Rightarrow> ctr list \<Rightarrow> fpath \<Rightarrow> string + ferr list"
  k_serviceAccount :: "string \<Rightarrow> string list"
  k_podSecurity :: "string \<Rightarrow> fpath \<Rightarrow> string + ferr list"
  k_pullSecrets :: "string list \<Rightarrow> fpath \<Rightarrow> string + ferr list"
  k_affinity :: "string \<Rightarrow> fpath \<Rightarrow> string + ferr list"
  k_tolerations :: "string list \<Rightarrow> fpath \<Rightarrow> string + ferr list"
  k_priorityClass :: "string \<Rightarrow> string list"
  k_hostAliases :: "string list \<Rightarrow> fpath \<Rightarrow> string + ferr list"
  k_topology :: "topology list \<Rightarrow> fpath \<Rightarrow> string + ferr list"
  k_runtimeClass :: "string \<Rightarrow> fpath \<Rightarrow> ferr list"
  k_dnsConfig :: "string \<Rightarrow> fpath \<Rightarrow> string + ferr list"
  k_dns1123 :: "string \<Rightarrow> string list"
  k_dns1035 :: "string \<Rightarrow> string list"
  k_verLT :: "semver \<Rightarrow> semver \<Rightarrow> bool"

definition validateSliceWithConvert :: "'a list \<Rightarrow> fpath \<Rightarrow> ('a list \<Rightarrow> fpath \<Rightarrow> string + ferr list) \<Rightarrow> ferr list" where
  "validateSliceWithConvert xs path f =
     (if xs = [] then [] else case f xs path of Inl msg \<Rightarrow> [FieldInvalid path msg] | Inr es \<Rightarrow> es)"

definition validateWithConvert :: "'a option \<Rightarrow> fpath \<Rightarrow> ('a \<Rightarrow> fpath \<Rightarrow> string + ferr list) \<Rightarrow> ferr list" where
  "validateWithConvert x path f =
     (case x of None \<Rightarrow> [] | Some y \<Rightarrow> (case f y path of Inl msg \<Rightarrow> [FieldInvalid path msg] | Inr es \<Rightarrow> es))"

definition invalidOrNil :: "ferr list \<Rightarrow> err + unit" where
  "invalidOrNil es = (if es = [] then Inr () else Inl (Err Invalid (concat (map fe_msg es))))"

section \<open>Pod sets\<close>

definition validateLogSetRef :: "obj_key option \<Rightarrow> bool \<Rightarrow> fpath \<Rightarrow> ferr list" where
  "validateLogSetRef logSet external parent =
     (if logSet = None \<and> \<not> external then [FieldInvalid parent ''one of deps.logSet or deps.externalLogSet must be set''] else [])"

definition validateMainContainer :: "checks \<Rightarrow> pod_set \<Rightarrow> fpath \<Rightarrow> ferr list" where
  "validateMainContainer K p parent =
     (if pd_image p = [] then [FieldInvalid (parent @ [''image'']) ''image must be set''] else [])
     @ validateWithConvert (Some (pd_resources p)) (parent @ [''resources'']) (k_resources K)"

definition validateVolume :: "vol_claim \<Rightarrow> fpath \<Rightarrow> ferr list" where
  "validateVolume v parent = (if vc_size v = 0 then [FieldInvalid (parent @ [''size'']) ''size must not be zero''] else [])"

definition validateGoMemLimitPercent :: "int option \<Rightarrow> fpath \<Rightarrow> ferr list" where
  "validateGoMemLimitPercent memPercent path = (case memPercent of
      None \<Rightarrow> []
    | Some n \<Rightarrow> if n \<le> 0 \<or> 100 < n then [FieldInvalid path ''memoryLimitPercent value must be in interval (0, 100]''] else [])"

definition validateMainContainerOverlay :: "checks \<Rightarrow> main_overlay \<Rightarrow> fpath \<Rightarrow> ferr list" where
  "validateMainContainerOverlay K ov path =
     validateSliceWithConvert (orElse (oc_envFrom ov) []) (path @ [''envFrom'']) (k_envFrom K)
     @ validateSliceWithConvert (orElse (oc_env ov) []) (path @ [''env'']) (k_env K)
     @ (case oc_pullPolicy ov of None \<Rightarrow> [] | Some x \<Rightarrow> k_pullPolicy K x (path @ [''imagePullPolicy'']))
     @ validateSliceWithConvert (orElse (oc_mounts ov) []) (path @ [''volumeMounts''])
         (\<lambda>ms _. case k_mounts K ms of None \<Rightarrow> Inr [] | Some msg \<Rightarrow> Inl msg)
     @ validateWithConvert (oc_liveness ov) (path @ [''livenessProbe'']) (k_probe K)
     @ validateWithConvert (oc_readiness ov) (path @ [''readinessProbe'']) (k_probe K)
     @ validateWithConvert (oc_startup ov) (path @ [''startupProbe'']) (k_probe K)
     @ validateWithConvert (oc_lifecycle ov) (path @ [''lifecycle'']) (k_lifecycle K)
     @ validateWithConvert (oc_security ov) (path @ [''mainContainerSecurityContext'']) (k_security K)"

definition validateVolumeClaims :: "checks \<Rightarrow> pvc list \<Rightarrow> fpath \<Rightarrow> string + ferr list" where
  "validateVolumeClaims K pvcs path = (case k_claims K pvcs of
      Some msg \<Rightarrow> Inl msg
    | None \<Rightarrow> Inr (concat (map (\<lambda>(i, c). k_claimSpec K c (path @ [goItoa (int i), ''spec''])) (enumerate 0 pvcs))))"

text \<open>The volumes found valid are what the containers may mount.\<close>

definition overlayVolumes :: "checks \<Rightarrow> volume list \<Rightarrow> fpath \<Rightarrow> volume list \<times> ferr list" where
  "overlayVolumes K vs path =
     (if vs = [] then ([], []) else case k_volumes K vs path of Inl msg \<Rightarrow> ([], [FieldInvalid path msg]) | Inr r \<Rightarrow> r)"

definition validateOverlays :: "checks \<Rightarrow> pod_overlay \<Rightarrow> fpath \<Rightarrow> ferr list" where
  "validateOverlays K ov path =
     (let (vols, volErrs) = overlayVolumes K (orElse (po_volumes ov) []) (path @ [''volumes'']) in
      validateMainContainerOverlay K (po_main ov) path
      @ volErrs
      @ validateSliceWithConvert (po_claims ov) (path @ [''volumeClaims'']) (validateVolumeClaims K)
      @ validateSliceWithConvert (orElse (po_init ov) []) (path @ [''initContainers'']) (k_containers K vols)
      @ validateSliceWithConvert (orElse (po_sidecars ov) []) (path @ [''sidecarContainers'']) (k_containers K vols)
      @ (if po_serviceAccount ov \<noteq> [] then map (FieldInvalid (path @ [''serviceAccountName''])) (k_serviceAccount K (po_serviceAccount ov)) else [])
      @ validateWithConvert (po_security ov) (path @ [''securityContext'']) (k_podSecurity K)
      @ validateSliceWithConvert (orElse (po_pullSecrets ov) []) (path @ [''imagePullSecrets'']) (k_pullSecrets K)
      @ validateWithConvert (po_affinity ov) (path @ [''affinity'']) (k_affinity K)
      @ validateSliceWithConvert (orElse (po_tolerations ov) []) (path @ [''tolerations'']) (k_tolerations K)
      @ (if po_priorityClass ov \<noteq> [] then map (FieldInvalid (path @ [''priorityClassName''])) (k_priorityClass K (po_priorityClass ov)) else [])
      @ (case po_grace ov of
           None \<Rightarrow> []
         | Some n \<Rightarrow> if n < 0 then [FieldInvalid (path @ [''terminationGracePeriodSeconds'']) ''must be greater than 0''] else [])
      @ validateSliceWithConvert (orElse (po_hostAliases ov) []) (path @ [''hostAliases'']) (k_hostAliases K)
      @ validateSliceWithConvert (orElse (po_topology ov) []) (path @ [''topologySpreadConstraints'']) (k_topology K)
      @ (case po_runtimeClass ov of None \<Rightarrow> [] | Some x \<Rightarrow> k_runtimeClass K x (path @ [''runtimeClassName'']))
      @ validateWithConvert (po_dnsConfig ov) (path @ [''dnsConfig'']) (k_dnsConfig K)
      @ k_labels K (po_labels ov) (path @ [''podLabels''])
      @ k_annos K (po_annos ov) (path @ [''podAnnotations'']))"

definition validatePodSet :: "tools \<Rightarrow> checks \<Rightarrow> pod_set \<Rightarrow> fpath \<Rightarrow> ferr list" where
  "validatePodSet U K p path =
     (if pd_clusterDomain p \<noteq> [] then k_fqdn K (path @ [''clusterDomain'']) (pd_clusterDomain p) else [])
     @ (case pd_overlay p of None \<Rightarrow> [] | Some ov \<Rightarrow> validateOverlays K ov (path @ [''overlay'']))
     @ (if GetSemVer U p = None
        then [FieldInvalid (path @ [''semanticVersion'']) ''a valid semanticVersion must be set or the image tag must be valid sematic version instead'']
        else [])
     @ (if pd_exportProm p = Some True
        then (case pd_promScheme p of
            None \<Rightarrow> [FieldInvalid (path @ [''promDiscoveryScheme'']) ''ExportToPrometheus is enabled but PromDiscoveryScheme is not provided'']
          | Some x \<Rightarrow> if x \<noteq> PromDiscoverySchemePod \<and> x \<noteq> PromDiscoverySchemeService
              then [FieldInvalid (path @ [''promDiscoveryScheme'']) ''invalid PromDiscoveryScheme''] else [])
        else [])
     @ validateMainContainer K p path
     @ k_labels K (pd_nodeSelector p) (path @ [''nodeSelector''])"

definition validatePodSetUpdate :: "tools \<Rightarrow> checks \<Rightarrow> pod_set \<Rightarrow> pod_set \<Rightarrow> fpath \<Rightarrow> ferr list" where
  "validatePodSetUpdate U K old new path =
     (if GetSemVer U old \<noteq> None \<and> GetSemVer U new = None
      then [FieldInvalid (path @ [''semanticVersion'']) ''new version must also be semantic''] else [])
     @ (if k_verLT K (opVersion U new) (opVersion U old)
        then [FieldInvalid (path @ [''operatorVersion'']) ''new operatorVersion must be greater than or equal to the oldVersion''] else [])"

definition validateVolumeUpdate :: "vol_claim option \<Rightarrow> vol_claim option \<Rightarrow> fpath \<Rightarrow> ferr list" where
  "validateVolumeUpdate old new path = (case (old, new) of
      (Some v, Some v') \<Rightarrow>
        (case (vc_class v', vc_class v) of
           (Some c', Some c) \<Rightarrow> if c' \<noteq> c then [FieldInvalid (path @ [''storageClassName'']) ''storageClassName is immutable''] else []
         | _ \<Rightarrow> [])
        @ (if vc_size v' < vc_size v then [FieldInvalid (path @ [''size'']) ''volume size cannot be decreased''] else [])
    | _ \<Rightarrow> [])"

section \<open>Defaults\<close>

text \<open>\<^verbatim>\<open>ServiceDefaultArgs\<close>: the default arguments of the operator configuration, or nil.\<close>

record default_args =
  da_log :: "string list"
  da_dn :: "string list"
  da_cn :: "string list"
  da_proxy :: "string list"

definition setDefaultServiceArgs :: "(default_args \<Rightarrow> string list) \<Rightarrow> default_args option \<Rightarrow> pod_set \<Rightarrow> pod_set" where
  "setDefaultServiceArgs sel A p = (case A of
      None \<Rightarrow> p
    | Some a \<Rightarrow> if pd_serviceArgs p = [] then p\<lparr>pd_serviceArgs := sel a\<rparr> else p)"

definition EnvGoDebug :: string where "EnvGoDebug = ''GODEBUG''"
definition DefaultGODebug :: string where "DefaultGODebug = ''madvdontneed=1,gctrace=2''"

definition appendIfNotExist :: "('a \<Rightarrow> 'k) \<Rightarrow> 'a list \<Rightarrow> 'a \<Rightarrow> 'a list" where
  "appendIfNotExist key xs x = (if key x \<in> key ` set xs then xs else xs @ [x])"

definition setPodSetDefaults :: "pod_set \<Rightarrow> pod_set" where
  "setPodSetDefaults p =
     (let ov = orElse (pd_overlay p) noOverlay; mc = po_main ov in
      p\<lparr>pd_overlay := Some (ov\<lparr>po_main := mc\<lparr>oc_env := Some (appendIfNotExist ev_name (orElse (oc_env mc) [])
          \<lparr>ev_name = EnvGoDebug, ev_src = EnvValue DefaultGODebug\<rparr>)\<rparr>\<rparr>),
        pd_promScheme := (if pd_exportProm p = Some True \<and> pd_promScheme p = None then Some PromDiscoverySchemeService else pd_promScheme p)\<rparr>)"

definition defaultDiskCacheSize :: "int \<Rightarrow> int" where
  "defaultDiskCacheSize n = divTrunc (int64 (n * 9)) 10"

definition minHAReplicas :: int where "minHAReplicas = 3"
definition singleReplica :: int where "singleReplica = 1"
definition defaultShardNum :: int where "defaultShardNum = 1"

definition defaultInitialConfig :: "int \<Rightarrow> initial_config \<Rightarrow> initial_config" where
  "defaultInitialConfig replicas c = c\<lparr>
     ic_logShardReplicas := orSome (ic_logShardReplicas c) (Some (if minHAReplicas \<le> replicas then minHAReplicas else singleReplica)),
     ic_logShards := orSome (ic_logShards c) (Some defaultShardNum),
     ic_dnShards := orSome (ic_dnShards c) (Some defaultShardNum)\<rparr>"

definition setRetention :: "log_spec \<Rightarrow> log_spec" where
  "setRetention l =
     (let l' = setDefaultRetentionPolicy (partOf l)
      in l\<lparr>lsp_pvcRetention := lg_pvcRetention l', lsp_storage := (lsp_storage l)\<lparr>sh_s3 := lg_s3 l'\<rparr>\<rparr>)"

definition DefaultSpecLog :: "default_args option \<Rightarrow> log_spec \<Rightarrow> log_spec" where
  "DefaultSpecLog A l =
     (let l1 = setRetention (l\<lparr>lsp_initial := defaultInitialConfig (pd_replicas (lsp_pod l)) (lsp_initial l),
                               lsp_failureTimeout := orSome (lsp_failureTimeout l) (Some defaultStoreFailureTimeout)\<rparr>)
      in l1\<lparr>lsp_pod := setPodSetDefaults (setDefaultServiceArgs da_log A (lsp_pod l1))\<rparr>)"

text \<open>\<^verbatim>\<open>Requests.Memory()\<close> is never nil, so a DN set without a memory request gets a cache of size 0.\<close>

definition DefaultSpecDN :: "default_args option \<Rightarrow> dn_spec \<Rightarrow> dn_spec" where
  "DefaultSpecDN A d = d\<lparr>
     dns_cache := \<lparr>sk_memory = orSome (sk_memory (dns_cache d)) (Some (divTrunc (pd_memRequest (dns_pod d)) 2)),
       sk_disk = (case dns_cacheVolume d of None \<Rightarrow> sk_disk (dns_cache d)
                  | Some v \<Rightarrow> orSome (sk_disk (dns_cache d)) (Some (defaultDiskCacheSize (vc_size v))))\<rparr>,
     dns_pod := setPodSetDefaults (setDefaultServiceArgs da_dn A (dns_pod d))\<rparr>"

definition defaultStoreDrainTimeout :: int where "defaultStoreDrainTimeout = 5 * 60 * second"
definition defaultMaxSurge :: int where "defaultMaxSurge = 1"
definition defaultMaxUnavailable :: int where "defaultMaxUnavailable = 0"

definition DefaultSpecCN :: "default_args option \<Rightarrow> cn_spec \<Rightarrow> cn_spec" where
  "DefaultSpecCN A c = c\<lparr>
     cns_serviceType := orStr (cns_serviceType c) ServiceTypeClusterIP,
     cns_cache := \<lparr>sk_memory = (if pd_memRequest (cns_pod c) \<noteq> 0
         then orSome (sk_memory (cns_cache c)) (Some (divTrunc (pd_memRequest (cns_pod c)) 2)) else sk_memory (cns_cache c)),
       sk_disk = (case cns_cacheVolume c of None \<Rightarrow> sk_disk (cns_cache c)
                  | Some v \<Rightarrow> orSome (sk_disk (cns_cache c)) (Some (defaultDiskCacheSize (vc_size v))))\<rparr>,
     cns_scaling := (if sc_storeDrainEnabled (cns_scaling c) = Some True
       then (cns_scaling c)\<lparr>sc_storeDrainTimeout := orSome (sc_storeDrainTimeout (cns_scaling c)) (Some defaultStoreDrainTimeout)\<rparr>
       else cns_scaling c),
     cns_maxSurge := orSome (cns_maxSurge c) (Some defaultMaxSurge),
     cns_maxUnavailable := orSome (cns_maxUnavailable c) (Some defaultMaxUnavailable),
     cns_pod := setPodSetDefaults (setDefaultServiceArgs da_cn A (cns_pod c))\<rparr>"

definition CNRoleTP :: string where "CNRoleTP = ''TP''"

text \<open>\<^verbatim>\<open>Default\<close> of the CN set hook: the specification and the role.\<close>

definition DefaultCN :: "default_args option \<Rightarrow> cn_spec \<Rightarrow> cn_spec" where
  "DefaultCN A c = (let c1 = DefaultSpecCN A c in c1\<lparr>cns_role := orStr (cns_role c1) CNRoleTP\<rparr>)"

definition DefaultSpecProxy :: "default_args option \<Rightarrow> proxy_spec \<Rightarrow> proxy_spec" where
  "DefaultSpecProxy A p = p\<lparr>psp_pod := setDefaultServiceArgs da_proxy A (psp_pod p)\<rparr>"

definition LatestOpVersionStr :: "tools \<Rightarrow> string" where
  "LatestOpVersionStr U = u_verString U LatestOpVersion"

text \<open>\<^verbatim>\<open>Default\<close> of the cluster hook; \<open>create\<close> says that the request creates the object. The proxy is left as it is.\<close>

definition DefaultCluster :: "tools \<Rightarrow> default_args option \<Rightarrow> bool \<Rightarrow> mo_spec \<Rightarrow> mo_spec" where
  "DefaultCluster U A create sp = sp\<lparr>
     mos_log := DefaultSpecLog A (mos_log sp),
     mos_dn := map_option (DefaultSpecDN A) (mos_dn sp),
     mos_tn := map_option (DefaultSpecDN A) (mos_tn sp),
     mos_tp := map_option (DefaultSpecCN A) (mos_tp sp),
     mos_ap := map_option (DefaultSpecCN A) (mos_ap sp),
     mos_groups := map (\<lambda>g. g\<lparr>gr_spec := DefaultSpecCN A (gr_spec g)\<rparr>) (mos_groups sp),
     mos_opVersion := (if create then orSome (mos_opVersion sp) (Some (LatestOpVersionStr U)) else mos_opVersion sp)\<rparr>"

text \<open>The answer of the hook: \<open>req\<close> is what \<^verbatim>\<open>RequestFromContext\<close> gave, an error or whether the request creates the object.\<close>

definition DefaultClusterHook :: "tools \<Rightarrow> default_args option \<Rightarrow> err + bool \<Rightarrow> mo_spec \<Rightarrow> err + mo_spec" where
  "DefaultClusterHook U A req sp = thenE req (\<lambda>create. Inr (DefaultCluster U A create sp))"

section \<open>Validation of CN and DN sets\<close>

definition ServiceTypeExternalName :: string where "ServiceTypeExternalName = ''ExternalName''"

definition validateLabel :: "nat \<Rightarrow> cn_label \<Rightarrow> ferr list" where
  "validateLabel i l =
     (let path = [''spec'', ''cnLabels'', goItoa (int i)] in
      (if lbl_key l = [] then [FieldInvalid (path @ [''key'']) ''label key cannot be empty''] else [])
      @ (if lbl_values l = [] then [FieldInvalid (path @ [''values'']) ''label values cannot be empty''] else [])
      @ concat (map (\<lambda>(j, v). if v = [] then [FieldInvalid (path @ [''values'', goItoa (int j)]) ''label value cannot be empty string''] else [])
          (enumerate 0 (lbl_values l))))"

definition ValidateSpecCreateCN :: "cn_spec \<Rightarrow> ferr list" where
  "ValidateSpecCreateCN c =
     (case cns_cacheVolume c of None \<Rightarrow> [] | Some v \<Rightarrow> validateVolume v [''spec'', ''cacheVolume''])
     @ (if cns_serviceType c = ServiceTypeExternalName
        then [FieldInvalid [''spec'', ''serviceType''] ''must be one of [ClusterIP, NodePort, LoadBalancer]''] else [])
     @ (if cns_nodePort c \<noteq> None \<and> cns_serviceType c = ServiceTypeClusterIP
        then [FieldInvalid [''spec'', ''nodePort''] ''cannot set node port when serviceType is ClusterIP''] else [])
     @ concat (map (\<lambda>(i, l). validateLabel i l) (enumerate 0 (cns_labels c)))
     @ validateGoMemLimitPercent (pd_memLimitPercent (cns_pod c)) [''spec'', ''memoryLimitPercent'']"

text \<open>The hooks of CN and DN sets see the specification and whether the log set reference is set.\<close>

definition ValidateCreateCN :: "tools \<Rightarrow> checks \<Rightarrow> obj_key option \<Rightarrow> bool \<Rightarrow> cn_spec \<Rightarrow> err + unit" where
  "ValidateCreateCN U K logSet external c =
     invalidOrNil (validateLogSetRef logSet external [''deps''] @ ValidateSpecCreateCN c @ validatePodSet U K (cns_pod c) [''spec''])"

definition ValidateUpdateCN :: "tools \<Rightarrow> checks \<Rightarrow> obj_key option \<Rightarrow> bool \<Rightarrow> cn_spec \<Rightarrow> cn_spec \<Rightarrow> err + unit" where
  "ValidateUpdateCN U K logSet external old new =
     thenE (ValidateCreateCN U K logSet external new) (\<lambda>_.
     invalidOrNil (validatePodSetUpdate U K (cns_pod old) (cns_pod new) [''spec'']
       @ validateVolumeUpdate (cns_cacheVolume old) (cns_cacheVolume new) [''spec'', ''cacheVolume'']))"

definition ValidateSpecCreateDN :: "dn_spec \<Rightarrow> ferr list" where
  "ValidateSpecCreateDN d =
     (case dns_cacheVolume d of None \<Rightarrow> [] | Some v \<Rightarrow> validateVolume v [''spec'', ''cacheVolume''])
     @ validateGoMemLimitPercent (pd_memLimitPercent (dns_pod d)) [''spec'', ''memoryLimitPercent'']"

definition validateConfigDN :: "toml_config option \<Rightarrow> fpath \<Rightarrow> ferr list" where
  "validateConfigDN c path = (case c of
      None \<Rightarrow> []
    | Some x \<Rightarrow> if Get x [''tn''] \<noteq> None \<and> Get x [''dn''] \<noteq> None
        then [FieldInvalid path ''[tn] and [dn] cannot be set at the same time''] else [])"

definition ValidateCreateDN :: "tools \<Rightarrow> checks \<Rightarrow> obj_key option \<Rightarrow> bool \<Rightarrow> dn_spec \<Rightarrow> err + unit" where
  "ValidateCreateDN U K logSet external d =
     invalidOrNil (validateLogSetRef logSet external [''deps''] @ ValidateSpecCreateDN d @ validatePodSet U K (dns_pod d) [''spec'']
       @ validateConfigDN (pd_config (dns_pod d)) [''spec'', ''config''])"

text \<open>The update of a DN set does not compare the versions of the pod sets.\<close>

definition ValidateUpdateDN :: "tools \<Rightarrow> checks \<Rightarrow> obj_key option \<Rightarrow> bool \<Rightarrow> dn_spec \<Rightarrow> dn_spec \<Rightarrow> err + unit" where
  "ValidateUpdateDN U K logSet external old new =
     thenE (ValidateCreateDN U K logSet external new) (\<lambda>_.
     invalidOrNil (validateVolumeUpdate (dns_cacheVolume old) (dns_cacheVolume new) [''spec'', ''cacheVolume'']))"

definition ValidateWebUI :: "tools \<Rightarrow> checks \<Rightarrow> webui_spec \<Rightarrow> err + unit" where
  "ValidateWebUI U K x = invalidOrNil (validatePodSet U K (wsp_pod x) [''spec''])"

section \<open>Validation of log sets\<close>

definition validateSharedStorage :: "log_spec \<Rightarrow> ferr list" where
  "validateSharedStorage l =
     (let parent = [''spec'', ''sharedStorage'']; s3 = sh_s3 (lsp_storage l); fs = sh_fs (lsp_storage l) in
      (case s3 of None \<Rightarrow> [] | Some x \<Rightarrow> if s3_path x = [] then [FieldInvalid parent ''path must be set for S3 storage''] else [])
      @ (case fs of None \<Rightarrow> [] | Some x \<Rightarrow> if x = [] then [FieldInvalid parent ''path must be set for file-system storage''] else [])
      @ (if s3 = None \<and> fs = None then [FieldInvalid parent ''no shared storage provider configured''] else [])
      @ (if s3 \<noteq> None \<and> fs \<noteq> None then [FieldInvalid parent ''more than 1 storage provider configured''] else []))"

definition validateInitialConfig :: "log_spec \<Rightarrow> ferr list" where
  "validateInitialConfig l =
     (let parent = [''spec'', ''initialConfig'']; c = lsp_initial l in
      (case ic_logShardReplicas c of
         None \<Rightarrow> [FieldInvalid (parent @ [''logShardReplicas'']) ''logShardReplicas must be set'']
       | Some n \<Rightarrow> if pd_replicas (lsp_pod l) \<noteq> 0 \<and> pd_replicas (lsp_pod l) < n
           then [FieldInvalid (parent @ [''logShardReplicas'']) ''logShardReplicas must not larger then logservice replicas''] else [])
      @ (if ic_logShards c = None then [FieldInvalid (parent @ [''logShards'']) ''logShards must be set''] else [])
      @ (if ic_dnShards c = None then [FieldInvalid (parent @ [''dnShards'']) ''dnShards must be set''] else []))"

definition validateMutateCommonLog :: "log_spec \<Rightarrow> ferr list" where
  "validateMutateCommonLog l =
     validateVolume (lsp_volume l) [''spec'', ''volume''] @ validateInitialConfig l @ validateSharedStorage l
     @ validateGoMemLimitPercent (pd_memLimitPercent (lsp_pod l)) [''spec'', ''memoryLimitPercent'']"

text \<open>The bucket of the S3 storage, when buckets are reclaimed; \<open>bad\<close> says what is wrong with it. The state of the context is
  not used.\<close>

definition checkBucket :: "'w lenv \<Rightarrow> (bucket_claim \<Rightarrow> string option) \<Rightarrow> log_spec \<Rightarrow> ((unit, 'w) ctx, ferr list) rm" where
  "checkBucket L bad l =
     (case sh_s3 (lsp_storage l) of
        None \<Rightarrow> ret []
      | Some s3 \<Rightarrow>
          if \<not> l_s3Reclaim L then ret []
          else bindR (attempt (ClaimedBucket L s3)) (\<lambda>r. ret (case r of
              Inl e \<Rightarrow> [FieldInvalid [''spec'', ''sharedStorage'', ''s3''] (emsg e)]
            | Inr None \<Rightarrow> []
            | Inr (Some b) \<Rightarrow> (case bad b of None \<Rightarrow> [] | Some msg \<Rightarrow> [FieldInvalid [''spec'', ''sharedStorage'', ''s3''] msg]))))"

definition validateIfBucketDeleting :: "'w lenv \<Rightarrow> log_spec \<Rightarrow> ((unit, 'w) ctx, ferr list) rm" where
  "validateIfBucketDeleting L = checkBucket L (\<lambda>b. if bk_deleted b then Some ''claimed bucket state is deleting'' else None)"

definition validateIfBucketInUse :: "'w lenv \<Rightarrow> obj_key \<Rightarrow> log_spec \<Rightarrow> ((unit, 'w) ctx, ferr list) rm" where
  "validateIfBucketInUse L key = checkBucket L (\<lambda>b.
     if bk_state b = StatusInUse \<and> bk_bindTo b \<noteq> BucketBindToMark (fst key) (snd key) then Some ''claimed bucket already bind'' else None)"

definition ValidateSpecCreateLog :: "'w lenv \<Rightarrow> obj_key \<Rightarrow> log_spec \<Rightarrow> ((unit, 'w) ctx, ferr list) rm" where
  "ValidateSpecCreateLog L key l =
     bindR (validateIfBucketInUse L key l) (\<lambda>a.
     bindR (validateIfBucketDeleting L l) (\<lambda>b.
     ret (validateMutateCommonLog l @ a @ b)))"

definition ValidateSpecUpdateLog :: "'w lenv \<Rightarrow> obj_key \<Rightarrow> log_spec \<Rightarrow> log_spec \<Rightarrow> ((unit, 'w) ctx, ferr list) rm" where
  "ValidateSpecUpdateLog L key old new =
     (if validateMutateCommonLog new \<noteq> [] then ret (validateMutateCommonLog new)
      else bindR (validateIfBucketInUse L key new) (\<lambda>a.
        ret ((if lsp_initial old \<noteq> lsp_initial new then [FieldInvalid [''spec'', ''initialConfig''] ''initialConfig is immutable''] else [])
          @ (if sh_s3 (lsp_storage old) \<noteq> sh_s3 (lsp_storage new)
             then [FieldInvalid [''spec'', ''sharedStorage'', ''s3''] ''sharedStorage.s3 is immutable''] else [])
          @ a)))"

definition ValidateCreateLog :: "tools \<Rightarrow> checks \<Rightarrow> 'w lenv \<Rightarrow> obj_key \<Rightarrow> log_spec \<Rightarrow> ((unit, 'w) ctx, unit) rm" where
  "ValidateCreateLog U K L key l =
     bindR (ValidateSpecCreateLog L key l) (\<lambda>es. liftE (invalidOrNil (es @ validatePodSet U K (lsp_pod l) [''spec''])))"

text \<open>The update of a log set checks neither the pod set nor its versions.\<close>

definition ValidateUpdateLog :: "'w lenv \<Rightarrow> obj_key \<Rightarrow> log_spec \<Rightarrow> log_spec \<Rightarrow> ((unit, 'w) ctx, unit) rm" where
  "ValidateUpdateLog L key old new =
     bindR (ValidateSpecUpdateLog L key old new) (\<lambda>es.
     liftE (invalidOrNil (es @ validateVolumeUpdate (Some (lsp_volume old)) (Some (lsp_volume new)) [''spec'', ''volume''])))"

section \<open>Validation of clusters\<close>

definition MatrixOneClusterNameMaxLength :: nat where "MatrixOneClusterNameMaxLength = 46"

definition validateCNGroup :: "checks \<Rightarrow> cn_group \<Rightarrow> fpath \<Rightarrow> ferr list" where
  "validateCNGroup K g parent =
     map (FieldInvalid (parent @ [''name''])) (k_dns1123 K (gr_name g)) @ ValidateSpecCreateCN (gr_spec g)"

fun validateGroups :: "checks \<Rightarrow> string set \<Rightarrow> nat \<Rightarrow> cn_group list \<Rightarrow> ferr list" where
  "validateGroups K seen i [] = []"
| "validateGroups K seen i (g # gs) =
     (let path = [''spec'', ''cnGroups'', goItoa (int i)] in
      validateCNGroup K g path
      @ (if gr_name g \<in> seen then [FieldInvalid (path @ [''name'']) ''name must be unique''] else [])
      @ validateGroups K (insert (gr_name g) seen) (i + 1) gs)"

text \<open>\<^verbatim>\<open>GetTN()\<close> is validated without a nil check.\<close>

definition validateMutateCommonCluster :: "checks \<Rightarrow> mo_cluster \<Rightarrow> err + ferr list" where
  "validateMutateCommonCluster K m =
     (let sp = mo_spec m in
      case GetTN m of
        None \<Rightarrow> Inl nilPanic
      | Some tn \<Rightarrow> Inr
          (ValidateSpecCreateDN tn
           @ (case mos_tp sp of None \<Rightarrow> [] | Some c \<Rightarrow> ValidateSpecCreateCN c)
           @ (case mos_ap sp of None \<Rightarrow> [] | Some c \<Rightarrow> ValidateSpecCreateCN c)
           @ validateGroups K ((if mos_tp sp \<noteq> None then {''tp''} else {}) \<union> (if mos_ap sp \<noteq> None then {''ap''} else {})) 0 (mos_groups sp)
           @ (if mos_version sp = [] then [FieldInvalid [''spec'', ''version''] ''version must be set''] else [])))"

definition ValidateCreateCluster :: "checks \<Rightarrow> 'w lenv \<Rightarrow> mo_cluster \<Rightarrow> ((unit, 'w) ctx, unit) rm" where
  "ValidateCreateCluster K L m =
     (let sp = mo_spec m in
      bindR (liftE (validateMutateCommonCluster K m)) (\<lambda>common.
      bindR (ValidateSpecCreateLog L (LogSetKey m) (mos_log sp)) (\<lambda>log.
      liftE (invalidOrNil
        ((if MatrixOneClusterNameMaxLength < length (mo_name m) then [FieldInvalid [''metadata'', ''name''] ''must be no more than 46 characters''] else [])
         @ map (FieldInvalid [''metadata'', ''name'']) (k_dns1035 K (mo_name m))
         @ (if mos_dn sp = None \<and> mos_tn sp = None then [FieldInvalid [''spec'', ''tn''] ''.spec.tn must be set''] else [])
         @ (if mos_dn sp \<noteq> None \<and> mos_tn sp \<noteq> None
            then [FieldInvalid [''spec'', ''dn''] ''legacy component .spec.dn cannot be set when .spec.tn is set''] else [])
         @ common @ log)))))"

definition ValidateUpdateCluster :: "checks \<Rightarrow> 'w lenv \<Rightarrow> mo_cluster \<Rightarrow> mo_cluster \<Rightarrow> ((unit, 'w) ctx, unit) rm" where
  "ValidateUpdateCluster K L old new =
     bindR (liftE (validateMutateCommonCluster K new)) (\<lambda>common.
     bindR (ValidateSpecUpdateLog L (LogSetKey new) (mos_log (mo_spec old)) (mos_log (mo_spec new))) (\<lambda>log.
     liftE (invalidOrNil (common @ log))))"

section \<open>The hook of CN claims\<close>

definition ValidateUpdateClaim :: "cnclaim \<Rightarrow> cnclaim \<Rightarrow> err + unit" where
  "ValidateUpdateClaim old new =
     invalidOrNil (if cl_podName old \<noteq> [] \<and> cl_podName old \<noteq> cl_podName new
       then [FieldInvalid [''spec'', ''podName''] ''podName is immutable''] else [])"

text \<open>The hook would refuse the patch with which the claim controller gives up a lost pod; it is not installed by the operator.\<close>

lemma claim_hook_keeps_lost: "cl_podName c \<noteq> [] \<Longrightarrow> ValidateUpdateClaim c (clearPodRef c) \<noteq> Inr ()"
  by (simp add: ValidateUpdateClaim_def invalidOrNil_def clearPodRef_def)

section \<open>Defaults are stable\<close>

lemmas or_defs = orSome_def orElse_def orStr_def

lemma appendIfNotExist_key: "key x \<in> key ` set (appendIfNotExist key xs x)"
  by (auto simp: appendIfNotExist_def)

lemma appendIfNotExist_idem: "key x \<in> key ` set xs \<Longrightarrow> appendIfNotExist key xs x = xs"
  by (simp add: appendIfNotExist_def)

text \<open>A pod set with its defaults: the Go debug variable is in the overlay and a scheme is chosen when metrics are exported.\<close>

definition podDefaults :: "pod_set \<Rightarrow> bool" where
  "podDefaults p \<longleftrightarrow>
     (case pd_overlay p of None \<Rightarrow> False
      | Some ov \<Rightarrow> (case oc_env (po_main ov) of None \<Rightarrow> False | Some es \<Rightarrow> EnvGoDebug \<in> ev_name ` set es)) \<and>
     (pd_exportProm p = Some True \<longrightarrow> pd_promScheme p \<noteq> None)"

lemma podDefaults_fixpoint: "podDefaults p \<Longrightarrow> setPodSetDefaults p = p"
  by (auto simp: podDefaults_def setPodSetDefaults_def or_defs Let_def appendIfNotExist_def split: option.splits)

lemma setPodSetDefaults_defaults: "podDefaults (setPodSetDefaults p)"
  using appendIfNotExist_key[of ev_name "\<lparr>ev_name = EnvGoDebug, ev_src = EnvValue DefaultGODebug\<rparr>"]
  by (auto simp: podDefaults_def setPodSetDefaults_def Let_def)

definition argsDefault :: "(default_args \<Rightarrow> string list) \<Rightarrow> default_args option \<Rightarrow> pod_set \<Rightarrow> bool" where
  "argsDefault sel A p \<longleftrightarrow> (case A of None \<Rightarrow> True | Some a \<Rightarrow> pd_serviceArgs p = [] \<longrightarrow> sel a = [])"

lemma argsDefault_fixpoint: "setDefaultServiceArgs sel A p = p \<longleftrightarrow> argsDefault sel A p"
proof (cases A)
  case (Some a)
  have "p\<lparr>pd_serviceArgs := sel a\<rparr> = p \<longleftrightarrow> sel a = pd_serviceArgs p" by (cases p) auto
  with Some show ?thesis by (auto simp: argsDefault_def setDefaultServiceArgs_def)
qed (simp add: argsDefault_def setDefaultServiceArgs_def)

lemma setDefaultServiceArgs_defaults: "argsDefault sel A (setDefaultServiceArgs sel A p)"
  by (simp add: argsDefault_def setDefaultServiceArgs_def split: option.splits)

lemma argsDefault_other: "argsDefault sel A (setPodSetDefaults p) = argsDefault sel A p"
  by (simp add: argsDefault_def setPodSetDefaults_def Let_def split: option.split)

text \<open>Defaults that have been filled in: the conditions under which a defaulting function changes nothing.\<close>

definition defaulted :: "(default_args \<Rightarrow> string list) \<Rightarrow> default_args option \<Rightarrow> pod_set \<Rightarrow> bool" where
  "defaulted sel A p \<longleftrightarrow> podDefaults p \<and> argsDefault sel A p"

lemma defaulted_fixpoint: "defaulted sel A p \<Longrightarrow> setPodSetDefaults (setDefaultServiceArgs sel A p) = p"
  using argsDefault_fixpoint podDefaults_fixpoint by (metis defaulted_def)

lemma defaulted_default: "defaulted sel A (setPodSetDefaults (setDefaultServiceArgs sel A p))"
  by (simp add: defaulted_def setPodSetDefaults_defaults argsDefault_other setDefaultServiceArgs_defaults)

text \<open>What a set inherits from the cluster keeps the defaults.\<close>

lemma podDefaults_inherit: "podDefaults p \<Longrightarrow> podDefaults (inherit m img p)"
  by (auto simp: podDefaults_def inherit_def setPodSetDefault_def setOverlay_def Let_def or_defs split: option.splits)

lemma argsDefault_inherit: "argsDefault sel A p \<Longrightarrow> argsDefault sel A (inherit m img p)"
  by (simp add: argsDefault_def inherit_def setPodSetDefault_def split: option.splits)

lemma defaulted_inherit: "defaulted sel A p \<Longrightarrow> defaulted sel A (inherit m img p)"
  by (simp add: defaulted_def podDefaults_inherit argsDefault_inherit)

text \<open>When a defaulting function changes nothing, and that its result is such.\<close>

definition logDefaulted :: "default_args option \<Rightarrow> log_spec \<Rightarrow> bool" where
  "logDefaulted A l \<longleftrightarrow> defaulted da_log A (lsp_pod l) \<and> ic_logShardReplicas (lsp_initial l) \<noteq> None \<and> ic_logShards (lsp_initial l) \<noteq> None \<and>
     ic_dnShards (lsp_initial l) \<noteq> None \<and> lsp_failureTimeout l \<noteq> None \<and> setRetention l = l"

definition dnDefaulted :: "default_args option \<Rightarrow> dn_spec \<Rightarrow> bool" where
  "dnDefaulted A d \<longleftrightarrow> defaulted da_dn A (dns_pod d) \<and> sk_memory (dns_cache d) \<noteq> None \<and>
     (dns_cacheVolume d \<noteq> None \<longrightarrow> sk_disk (dns_cache d) \<noteq> None)"

definition cnDefaulted :: "default_args option \<Rightarrow> cn_spec \<Rightarrow> bool" where
  "cnDefaulted A c \<longleftrightarrow> defaulted da_cn A (cns_pod c) \<and> cns_serviceType c \<noteq> [] \<and>
     (pd_memRequest (cns_pod c) \<noteq> 0 \<longrightarrow> sk_memory (cns_cache c) \<noteq> None) \<and> (cns_cacheVolume c \<noteq> None \<longrightarrow> sk_disk (cns_cache c) \<noteq> None) \<and>
     (sc_storeDrainEnabled (cns_scaling c) = Some True \<longrightarrow> sc_storeDrainTimeout (cns_scaling c) \<noteq> None) \<and>
     cns_maxSurge c \<noteq> None \<and> cns_maxUnavailable c \<noteq> None"

lemma dnDefaulted_fixpoint: "dnDefaulted A d \<Longrightarrow> DefaultSpecDN A d = d"
  by (auto simp: dnDefaulted_def DefaultSpecDN_def defaulted_fixpoint or_defs split: option.splits)

lemma dnDefaulted_default: "dnDefaulted A (DefaultSpecDN A d)"
  by (auto simp: dnDefaulted_def DefaultSpecDN_def defaulted_default or_defs split: option.splits)

lemma cnDefaulted_fixpoint: "cnDefaulted A c \<Longrightarrow> DefaultSpecCN A c = c"
  by (auto simp: cnDefaulted_def DefaultSpecCN_def defaulted_fixpoint or_defs split: option.splits)

lemma podDefaults_memRequest: "pd_memRequest (setPodSetDefaults p) = pd_memRequest p" "pd_memRequest (setDefaultServiceArgs sel A p) = pd_memRequest p"
  by (simp_all add: setPodSetDefaults_def setDefaultServiceArgs_def Let_def split: option.split)

lemma cnDefaulted_default: "cnDefaulted A (DefaultSpecCN A c)"
  unfolding cnDefaulted_def DefaultSpecCN_def
  by (intro conjI) (auto simp: defaulted_default podDefaults_memRequest or_defs ServiceTypeClusterIP_def split: option.splits)

lemma logDefaulted_fixpoint: "logDefaulted A l \<Longrightarrow> DefaultSpecLog A l = l"
proof -
  assume d: "logDefaulted A l"
  then have "defaultInitialConfig n (lsp_initial l) = lsp_initial l" for n
    by (auto simp: logDefaulted_def defaultInitialConfig_def or_defs)
  moreover have "orSome (lsp_failureTimeout l) (Some defaultStoreFailureTimeout) = lsp_failureTimeout l"
    using d by (auto simp: logDefaulted_def or_defs)
  ultimately show ?thesis using d by (simp add: DefaultSpecLog_def Let_def logDefaulted_def defaulted_fixpoint)
qed

lemma setRetention_pod: "setRetention (l\<lparr>lsp_pod := p\<rparr>) = (setRetention l)\<lparr>lsp_pod := p\<rparr>"
  by (simp add: setRetention_def partOf_def setDefaultRetentionPolicy_def Let_def split: option.split)

lemma setRetention_fields: "lsp_initial (setRetention l) = lsp_initial l" "lsp_failureTimeout (setRetention l) = lsp_failureTimeout l"
  "lsp_pod (setRetention l) = lsp_pod l" "lsp_volume (setRetention l) = lsp_volume l" "sh_fs (lsp_storage (setRetention l)) = sh_fs (lsp_storage l)"
  by (simp_all add: setRetention_def Let_def)

lemma setRetention_idem: "setRetention (setRetention l) = setRetention l"
  by (auto simp: setRetention_def partOf_def setDefaultRetentionPolicy_def Let_def split: option.splits)

lemma logDefaulted_default: "logDefaulted A (DefaultSpecLog A l)"
  by (auto simp: logDefaulted_def DefaultSpecLog_def Let_def defaulted_default setRetention_pod setRetention_fields setRetention_idem
      defaultInitialConfig_def or_defs split: option.splits)

text \<open>C22 (defaulting, \<^verbatim>\<open>matrixonecluster_webhook.go\<close>): the defaulter of a cluster is stable. A cluster that was defaulted when it was
  created is not changed by the defaulter again, neither on an update nor on another creation, so an object read from the API
  and written back is never altered by the hook.\<close>

theorem cluster_defaults_stable:
  "DefaultCluster U A create (DefaultCluster U A True sp) = DefaultCluster U A True sp \<and>
   DefaultCluster U A False (DefaultCluster U A False sp) = DefaultCluster U A False sp \<and>
   thenE (DefaultClusterHook U A (Inr True) sp) (DefaultClusterHook U A (Inr create)) = DefaultClusterHook U A (Inr True) sp"
  unfolding DefaultClusterHook_def thenE_def
  using dnDefaulted_fixpoint[OF dnDefaulted_default] cnDefaulted_fixpoint[OF cnDefaulted_default] logDefaulted_fixpoint[OF logDefaulted_default]
  by (auto simp: DefaultCluster_def option.map_comp comp_def or_defs split: option.splits)

section \<open>What the cluster controller writes is stable under the hooks\<close>

lemma logDefaulted_of: "logDefaulted A (mos_log (mo_spec m)) \<Longrightarrow> logDefaulted A (logSpecOf m)"
proof -
  assume d: "logDefaulted A (mos_log (mo_spec m))"
  have initial: "setRetention (l\<lparr>lsp_initial := c\<rparr>) = (setRetention l)\<lparr>lsp_initial := c\<rparr>" for l c
    by (simp add: setRetention_def partOf_def setDefaultRetentionPolicy_def Let_def split: option.split)
  show ?thesis using d defaulted_inherit
    by (simp add: logDefaulted_def logSpecOf_def Let_def initial setRetention_pod)
qed

lemma dnDefaulted_of:
  assumes "\<And>x. x \<in> {mos_tn (mo_spec m), mos_dn (mo_spec m)} \<Longrightarrow> pred_option (dnDefaulted A) x" "dnSpecOf m = Inr d"
  shows "dnDefaulted A d"
proof -
  obtain tn where tn: "GetTN m = Some tn" and d: "d = tn\<lparr>dns_pod := inherit m (DnSetImage m tn) (dns_pod tn)\<rparr>"
    using assms(2) by (auto simp: dnSpecOf_def split: option.splits)
  from tn have "Some tn \<in> {mos_tn (mo_spec m), mos_dn (mo_spec m)}" by (auto simp: GetTN_def split: option.splits)
  from assms(1)[OF this] d show ?thesis by (simp add: dnDefaulted_def defaulted_inherit)
qed

lemma upsertKey_keys: "key ` set (upsertKey key xs x) = insert (key x) (key ` set xs)"
  by (induction xs) auto

lemma cnDefaulted_group:
  assumes "toolLaws U" "cnDefaulted A (gr_spec g)"
  shows "cnDefaulted A (groupSpec U m cred g)"
proof -
  let ?p = "cns_pod (gr_spec g)" and ?q = "cns_pod (groupSpec U m cred g)"
  have up: "u_upsertEnv U = upsertKey ev_name" using assms(1) by (simp add: toolLaws_def)
  have "podDefaults ?p" "argsDefault da_cn A ?p" using assms(2) by (simp_all add: cnDefaulted_def defaulted_def)
  then have "podDefaults ?q" "argsDefault da_cn A ?q"
    by (auto simp: podDefaults_def argsDefault_def groupSpec_def Let_def addPassword_def setOverlay_def setPodSetDefault_def up upsertKey_keys
        or_defs split: option.splits)
  then show ?thesis using assms(2)
    by (simp add: cnDefaulted_def defaulted_def groupSpec_def Let_def setPodSetDefault_def)
qed

lemma cnDefaulted_groups:
  assumes "mo_spec m = DefaultCluster U A create sp" "g \<in> set (cnGroups m)"
  shows "cnDefaulted A (gr_spec g)"
proof -
  have dns: "cnDefaulted A c \<Longrightarrow> cnDefaulted A (c\<lparr>cns_pod := (cns_pod c)\<lparr>pd_dnsIdentity := b\<rparr>\<rparr>)" for c b
    by (simp add: cnDefaulted_def defaulted_def podDefaults_def argsDefault_def split: option.splits)
  show ?thesis using assms
    by (auto simp: DefaultCluster_def cnGroups_def cnDefaulted_default dns split: option.splits)
qed

lemma DefaultCN_group:
  assumes "toolLaws U" "mo_spec m = DefaultCluster U A create sp" "g \<in> set (cnGroups m)"
  shows "DefaultCN A (groupSpec U m cred g) = (groupSpec U m cred g)\<lparr>cns_role := orStr (cns_role (gr_spec g)) CNRoleTP\<rparr>"
proof -
  have "cns_role (groupSpec U m cred g) = cns_role (gr_spec g)" by (simp add: groupSpec_def Let_def)
  then show ?thesis using cnDefaulted_fixpoint[OF cnDefaulted_group[OF assms(1) cnDefaulted_groups[OF assms(2,3)]], of m cred]
    by (simp add: DefaultCN_def Let_def)
qed

lemma clusterDefaulted:
  assumes "mo_spec m = DefaultCluster U A create sp"
  shows "DefaultSpecLog A (logSpecOf m) = logSpecOf m" "dnSpecOf m = Inr d \<Longrightarrow> DefaultSpecDN A d = d"
proof -
  show "DefaultSpecLog A (logSpecOf m) = logSpecOf m"
    using assms by (auto intro!: logDefaulted_fixpoint logDefaulted_of simp: DefaultCluster_def logDefaulted_default)
  show "dnSpecOf m = Inr d \<Longrightarrow> DefaultSpecDN A d = d"
    using assms by (intro dnDefaulted_fixpoint dnDefaulted_of[of m]) (auto simp: DefaultCluster_def dnDefaulted_default option.pred_set map_option_case split: option.splits)
qed

text \<open>The sets as the API keeps them after the controller wrote them and the hooks filled in their defaults.\<close>

definition storedLog :: "default_args option \<Rightarrow> 'w cenv \<Rightarrow> mo_cluster \<Rightarrow> 'w \<Rightarrow> log_spec sub \<Rightarrow> bool" where
  "storedLog A E m w ls \<longleftrightarrow> api_get (c_logs E) (LogSetKey m) w = (Inr ls, w) \<and> keyed (LogSetKey m) ls \<and> sb_spec ls = DefaultSpecLog A (logSpecOf m)"

definition storedDN :: "default_args option \<Rightarrow> 'w cenv \<Rightarrow> mo_cluster \<Rightarrow> 'w \<Rightarrow> dn_spec sub \<Rightarrow> bool" where
  "storedDN A E m w dn \<longleftrightarrow> api_get (c_dns E) (DNSetKey m) w = (Inr dn, w) \<and> keyed (DNSetKey m) dn \<and>
     (\<exists>d. dnSpecOf m = Inr d \<and> sb_spec dn = DefaultSpecDN A d)"

definition storedCN :: "tools \<Rightarrow> default_args option \<Rightarrow> 'w cenv \<Rightarrow> mo_cluster \<Rightarrow> string \<Rightarrow> 'w \<Rightarrow> cn_group \<Rightarrow> cn_spec sub \<Rightarrow> bool" where
  "storedCN U A E m cred w g c \<longleftrightarrow> api_get (c_cns E) (mo_ns m, cnSetName m g) w = (Inr c, w) \<and> keyed (mo_ns m, cnSetName m g) c \<and>
     gget (sb_labels c) MatrixoneClusterLabelKey = Some (mo_name m) \<and> sb_spec c = DefaultCN A (groupSpec U m cred g)"

text \<open>What \<^verbatim>\<open>equality.Semantic.DeepEqual\<close> is used for: it holds of equal objects, and of CN sets with different roles it does not.\<close>

definition sameLaws :: "'w cenv \<Rightarrow> bool" where
  "sameLaws E \<longleftrightarrow> (\<forall>x. c_sameLog E x x) \<and> (\<forall>x. c_sameDN E x x) \<and> (\<forall>x. c_sameCN E x x) \<and>
     (\<forall>x y. c_sameCN E x y \<longrightarrow> cns_role (sb_spec x) = cns_role (sb_spec y))"

lemma label_kept: "gget ls k = Some v \<Longrightarrow> Some ((the (gmake ls))(k \<mapsto> v)) = ls"
  by (auto simp: gget_def gmake_def split: option.splits)

lemma storedLog_sync:
  assumes "mo_spec m = DefaultCluster U A create sp" "sameLaws E" "storedLog A E m w ls"
  shows "createOwnedOrUpdate (logKind ev (c_logs E)) (c_sameLog E) (newSub (LogSetKey m) zeroLogSpec) (\<lambda>x. Inr (x\<lparr>sb_spec := logSpecOf m\<rparr>))
    \<lparr>Obj = m, world = (w, l)\<rparr> = (Inr (OperationResultNone, ls), \<lparr>Obj = m, world = (w, l)\<rparr>)"
  using assms clusterDefaulted(1)[OF assms(1)] by (intro createOwnedOrUpdate_same) (auto simp: storedLog_def newSub_def LogSetKey_def sameLaws_def)

lemma storedDN_sync:
  assumes "mo_spec m = DefaultCluster U A create sp" "sameLaws E" "storedDN A E m w dn"
  shows "createOwnedOrUpdate (logKind ev (c_dns E)) (c_sameDN E) ((newSub (DNSetKey m) zeroDNSpec)\<lparr>sb_logSet := Some (LogSetKey m)\<rparr>)
      (\<lambda>x. thenE (dnSpecOf m) (\<lambda>sp. Inr (x\<lparr>sb_spec := sp\<rparr>)))
    \<lparr>Obj = m, world = (w, l)\<rparr> = (Inr (OperationResultNone, dn), \<lparr>Obj = m, world = (w, l)\<rparr>)"
  using assms clusterDefaulted(2)[OF assms(1)]
  by (intro createOwnedOrUpdate_same) (auto simp: storedDN_def newSub_def DNSetKey_def sameLaws_def thenE_def)

lemma storedCN_sync:
  assumes "toolLaws U" "mo_spec m = DefaultCluster U A create sp" "sameLaws E" "mst_credential (mo_status m) = Some cred"
    and g: "g \<in> set (cnGroups m)" "cns_role (gr_spec g) \<noteq> []" and c: "storedCN U A E m cred w g c"
  shows "syncOneGroup U (loggedC E) g \<lparr>Obj = m, world = (w, l)\<rparr> = (Inr (), \<lparr>Obj = m, world = (w, l)\<rparr>)"
proof -
  have "groupSpec U m cred g = sb_spec c"
    using c g(2) by (simp add: storedCN_def DefaultCN_group[OF assms(1,2) g(1)] orStr_def) (simp add: groupSpec_def Let_def)
  then have "syncGroup U m g c = Inr c" using c assms(4) by (simp add: syncGroup_def storedCN_def label_kept)
  then have "createOwnedOrUpdate (logKind CnCW (c_cns E)) (c_sameCN E) ((CNSetKey m (cnSetName m g))\<lparr>sb_logSet := Some (LogSetKey m), sb_dnSet := Some (DNSetKey m)\<rparr>)
      (syncGroup U m g) \<lparr>Obj = m, world = (w, l)\<rparr> = (Inr (OperationResultNone, c), \<lparr>Obj = m, world = (w, l)\<rparr>)"
    using c assms(3) by (intro createOwnedOrUpdate_same) (auto simp: storedCN_def CNSetKey_def newSub_def sameLaws_def)
  then show ?thesis by (simp add: syncOneGroup_def bindR_getObj) (simp add: bindR_def ret_def)
qed

lemma forR_still: "(\<And>x. x \<in> set xs \<Longrightarrow> f x s = (Inr (), s)) \<Longrightarrow> forR f xs s = (Inr (), s)"
  by (induction xs) (simp_all add: bindR_def ret_def)

text \<open>C18 (\<open>syncSets\<close>, the part of the cluster controller that writes the log set, the DN set and the CN sets, with \<^verbatim>\<open>webhook/*.go\<close>): the
  controller and the hooks agree on these sets. Let the cluster have passed the defaulter, and let the log set, the DN set and the CN
  sets in the API be what the hooks made of what the controller wrote. If every CN group names a role, syncing these sets again
  succeeds and sends nothing: what the hooks of log, DN and CN sets add is not taken away again. The proxy, which does not
  settle, the web UI and the collection of old CN sets are not part of \<open>syncSets\<close>.\<close>

theorem cluster_sync_settles:
  assumes laws: "toolLaws U" "sameLaws E" and spec: "mo_spec m = DefaultCluster U A create sp"
    and cred: "mst_credential (mo_status m) = Some cred" and roles: "\<forall>g \<in> set (cnGroups m). cns_role (gr_spec g) \<noteq> []"
    and sets: "storedLog A E m w ls" "storedDN A E m w dn" "\<forall>g \<in> set (cnGroups m). \<exists>c. storedCN U A E m cred w g c"
  shows "syncSets U (loggedC E) \<lparr>Obj = m, world = (w, l)\<rparr> = (Inr (ls, dn), \<lparr>Obj = m, world = (w, l)\<rparr>)"
proof -
  have "forR (syncOneGroup U (loggedC E)) (cnGroups m) \<lparr>Obj = m, world = (w, l)\<rparr> = (Inr (), \<lparr>Obj = m, world = (w, l)\<rparr>)"
    using roles sets(3) storedCN_sync[OF laws(1) spec laws(2) cred] by (intro forR_still) blast
  then show ?thesis using storedLog_sync[OF spec laws(2) sets(1), where ev = LogCW] storedDN_sync[OF spec laws(2) sets(2), where ev = DnCW]
    unfolding syncSets_def bindR_getObj by (simp add: bindR_def ret_def wrapE_def)
qed

lemma createOwnedOrUpdate_changed:
  assumes "api_get A (sb_ns obj, sb_name obj) w = (Inr x, w)" "f x = Inr y" "keyed (sb_ns obj, sb_name obj) y" "\<not> same x y"
  shows "logOf (snd (createOwnedOrUpdate (logKind ev A) same obj f \<lparr>Obj = m, world = (w, l)\<rparr>)) = ev (WUpdate y) # l"
  using assms
  by (simp add: createOwnedOrUpdate_def Let_def findR_def attempt_def bindR_def callW_def readL_def writeL_def ret_def liftE_def mutate_def thenE_def
      keyed_def split: prod.split sum.split)

text \<open>The role is filled in by the hook of CN sets only, not by the hook of clusters: a CN group without a role is written again by
  every reconciliation.\<close>

text \<open>cluster controller and hooks: a CN group of a defaulted cluster that names no role never settles. The CN set in the API
  has the role the hook of CN sets filled in, the controller takes it away again, so every reconciliation of the group sends an
  update of the CN set; the object sent is the stored one without its role.\<close>

theorem roleless_group_updates:
  assumes laws: "toolLaws U" "sameLaws E" and spec: "mo_spec m = DefaultCluster U A create sp"
    and cred: "mst_credential (mo_status m) = Some cred" and g: "g \<in> set (cnGroups m)" "cns_role (gr_spec g) = []"
    and c: "storedCN U A E m cred w g c"
  shows "cns_role (sb_spec c) = CNRoleTP \<and>
    logOf (snd (syncOneGroup U (loggedC E) g \<lparr>Obj = m, world = (w, l)\<rparr>)) = CnCW (WUpdate (c\<lparr>sb_spec := (sb_spec c)\<lparr>cns_role := []\<rparr>\<rparr>)) # l"
proof -
  have role: "cns_role (groupSpec U m cred g) = []" using g(2) by (simp add: groupSpec_def Let_def)
  then have gs: "groupSpec U m cred g = (sb_spec c)\<lparr>cns_role := []\<rparr>" and cr: "cns_role (sb_spec c) = CNRoleTP"
    using c g by (simp_all add: storedCN_def DefaultCN_group[OF laws(1) spec g(1)] orStr_def)
  then have sync: "syncGroup U m g c = Inr (c\<lparr>sb_spec := (sb_spec c)\<lparr>cns_role := []\<rparr>\<rparr>)"
    using c cred by (simp add: syncGroup_def storedCN_def label_kept)
  have "\<not> c_sameCN E c (c\<lparr>sb_spec := (sb_spec c)\<lparr>cns_role := []\<rparr>\<rparr>)"
    using laws(2) cr by (auto simp: sameLaws_def CNRoleTP_def)
  then have "logOf (snd (createOwnedOrUpdate (logKind CnCW (c_cns E)) (c_sameCN E)
      ((CNSetKey m (cnSetName m g))\<lparr>sb_logSet := Some (LogSetKey m), sb_dnSet := Some (DNSetKey m)\<rparr>) (syncGroup U m g) \<lparr>Obj = m, world = (w, l)\<rparr>)) =
      CnCW (WUpdate (c\<lparr>sb_spec := (sb_spec c)\<lparr>cns_role := []\<rparr>\<rparr>)) # l"
    using c sync by (intro createOwnedOrUpdate_changed) (auto simp: storedCN_def CNSetKey_def newSub_def keyed_def)
  then show ?thesis using cr by (simp add: syncOneGroup_def bindR_getObj) (auto simp: bindR_def ret_def split: prod.split sum.split)
qed

text \<open>cluster controller and hooks: the default arguments of a proxy never settle. The hook of proxy sets fills in the service
  arguments of the operator configuration; the hook of clusters does not, and the cluster controller writes the specification of the
  cluster: every reconciliation of a cluster whose proxy names no arguments sends the stored proxy set without them again.\<close>

theorem proxy_args_removed:
  assumes A: "A = Some a" "da_proxy a \<noteq> []" and px: "mos_proxy (mo_spec m) = Some sp" "pd_serviceArgs (psp_pod (proxySpecOf m sp)) = []"
    and old: "c_proxyBegin E ((newSub (ProxyKey m) zeroProxySpec)\<lparr>sb_logSet := Some (LogSetKey m)\<rparr>) w = (Inr old, w')"
      "sb_spec old = DefaultSpecProxy A (proxySpecOf m sp)"
  shows "pd_serviceArgs (psp_pod (sb_spec old)) = da_proxy a \<and> old\<lparr>sb_spec := proxySpecOf m sp\<rparr> \<noteq> old \<and>
    logOf (snd (syncProxy (loggedC E) \<lparr>Obj = m, world = (w, l)\<rparr>)) = ProxyOwnedW old (old\<lparr>sb_spec := proxySpecOf m sp\<rparr>) # l"
proof (intro conjI)
  show args: "pd_serviceArgs (psp_pod (sb_spec old)) = da_proxy a"
    using A px old(2) by (simp add: DefaultSpecProxy_def setDefaultServiceArgs_def)
  then show "old\<lparr>sb_spec := proxySpecOf m sp\<rparr> \<noteq> old" using A(2) px(2) by (auto dest: arg_cong[where f = sb_spec])
  show "logOf (snd (syncProxy (loggedC E) \<lparr>Obj = m, world = (w, l)\<rparr>)) = ProxyOwnedW old (old\<lparr>sb_spec := proxySpecOf m sp\<rparr>) # l"
    unfolding syncProxy_def bindR_getObj using px(1) old(1)
    by (simp add: ownedR_def bindR_def wrapE_def callW_def readL_def writeL_def modObj_def split: prod.split sum.split)
qed

section \<open>What is accepted\<close>

lemma invalidOrNil_Inr [simp]: "invalidOrNil es = Inr () \<longleftrightarrow> es = []"
  by (simp add: invalidOrNil_def)

lemma if_Nil [simp]: "(if b then [x] else []) = [] \<longleftrightarrow> \<not> b"
  by simp

text \<open>A log set specification before defaulting whose defaulted form passes \<^verbatim>\<open>validateMutateCommon\<close>.\<close>

definition wellFormedLog :: "log_spec \<Rightarrow> bool" where
  "wellFormedLog l \<longleftrightarrow>
     vc_size (lsp_volume l) \<noteq> 0 \<and>
     (case (sh_s3 (lsp_storage l), sh_fs (lsp_storage l)) of
        (Some x, None) \<Rightarrow> s3_path x \<noteq> [] | (None, Some p) \<Rightarrow> p \<noteq> [] | _ \<Rightarrow> False) \<and>
     (case pd_memLimitPercent (lsp_pod l) of None \<Rightarrow> True | Some n \<Rightarrow> 0 < n \<and> n \<le> 100) \<and>
     (case ic_logShardReplicas (lsp_initial l) of
        Some n \<Rightarrow> pd_replicas (lsp_pod l) = 0 \<or> n \<le> pd_replicas (lsp_pod l) | None \<Rightarrow> 0 \<le> pd_replicas (lsp_pod l))"

lemma wellFormedLog_iff: "validateMutateCommonLog (DefaultSpecLog A l) = [] \<longleftrightarrow> wellFormedLog l"
proof -
  let ?l = "DefaultSpecLog A l"
  have keep: "lsp_volume ?l = lsp_volume l" "sh_fs (lsp_storage ?l) = sh_fs (lsp_storage l)"
      "lsp_initial ?l = defaultInitialConfig (pd_replicas (lsp_pod l)) (lsp_initial l)"
      "pd_replicas (lsp_pod ?l) = pd_replicas (lsp_pod l)" "pd_memLimitPercent (lsp_pod ?l) = pd_memLimitPercent (lsp_pod l)"
    by (simp_all add: DefaultSpecLog_def Let_def setRetention_fields setPodSetDefaults_def setDefaultServiceArgs_def split: option.split)
  have s3: "map_option s3_path (sh_s3 (lsp_storage ?l)) = map_option s3_path (sh_s3 (lsp_storage l))"
    by (auto simp: DefaultSpecLog_def Let_def setRetention_def partOf_def setDefaultRetentionPolicy_def split: option.splits)
  have storage: "validateSharedStorage ?l = [] \<longleftrightarrow> (case (sh_s3 (lsp_storage l), sh_fs (lsp_storage l)) of
      (Some x, None) \<Rightarrow> s3_path x \<noteq> [] | (None, Some p) \<Rightarrow> p \<noteq> [] | _ \<Rightarrow> False)"
    using s3 by (auto simp: validateSharedStorage_def Let_def keep split: option.splits)
  have initial: "validateInitialConfig ?l = [] \<longleftrightarrow> (case ic_logShardReplicas (lsp_initial l) of
      Some n \<Rightarrow> pd_replicas (lsp_pod l) = 0 \<or> n \<le> pd_replicas (lsp_pod l) | None \<Rightarrow> 0 \<le> pd_replicas (lsp_pod l))"
    by (auto simp: validateInitialConfig_def Let_def keep defaultInitialConfig_def or_defs minHAReplicas_def singleReplica_def split: option.splits)
  have percent: "validateGoMemLimitPercent (pd_memLimitPercent (lsp_pod ?l)) path = [] \<longleftrightarrow>
      (case pd_memLimitPercent (lsp_pod l) of None \<Rightarrow> True | Some n \<Rightarrow> 0 < n \<and> n \<le> 100)" for path
    by (auto simp: validateGoMemLimitPercent_def keep split: option.splits)
  show ?thesis unfolding wellFormedLog_def
    by (simp add: validateMutateCommonLog_def storage initial percent) (auto simp: validateVolume_def keep)
qed

text \<open>What the API must answer about the bucket of the storage \<open>st\<close>, when buckets are reclaimed: none, or one that passes \<open>ok\<close>.\<close>

definition bucketAnswer :: "'w lenv \<Rightarrow> (bucket_claim \<Rightarrow> bool) \<Rightarrow> shared_storage \<Rightarrow> (unit, 'w) ctx \<Rightarrow> (unit, 'w) ctx \<Rightarrow> bool" where
  "bucketAnswer L ok st s s' \<longleftrightarrow> (case sh_s3 st of
      None \<Rightarrow> s' = s
    | Some s3 \<Rightarrow> if l_s3Reclaim L then \<exists>r. ClaimedBucket L s3 s = (Inr r, s') \<and> (\<forall>b. r = Some b \<longrightarrow> ok b) else s' = s)"

definition usableBy :: "obj_key \<Rightarrow> bucket_claim \<Rightarrow> bool" where
  "usableBy key b \<longleftrightarrow> (bk_state b = StatusInUse \<longrightarrow> bk_bindTo b = BucketBindToMark (fst key) (snd key))"

lemma checkBucket_passes:
  "checkBucket L bad l s = (Inr [], s') \<longleftrightarrow> bucketAnswer L (\<lambda>b. bad b = None) (lsp_storage l) s s'"
  by (auto simp: checkBucket_def bucketAnswer_def attempt_def bindR_def ret_def split: option.splits sum.splits prod.splits if_splits)

lemma checkBucket_returns: "bindR (checkBucket L bad l) f s = (Inr y, s') \<longleftrightarrow> (\<exists>es s1. checkBucket L bad l s = (Inr es, s1) \<and> f es s1 = (Inr y, s'))"
  by (auto simp: bindR_def split: prod.splits sum.splits)

text \<open>C20 (log sets, \<^verbatim>\<open>logset_webhook.go\<close>): exactly which defaulted log sets are accepted at creation. The volume has a size, exactly one
  shared storage is configured and its path is not empty, the memory percentage is in (0, 100], and the number of log shard
  replicas, if the user set it, does not exceed a nonzero number of replicas (the default number never exceeds it, for any
  nonnegative number of replicas); the pod set passes its own validation; and, when buckets are reclaimed, the API answers for an S3
  storage twice without an error: with no bucket, or with one that is not in use by another object and then with one that is
  not being deleted.\<close>

theorem log_spec_wellformed:
  "ValidateCreateLog U K L key (DefaultSpecLog A l) s = (Inr (), s') \<longleftrightarrow>
     wellFormedLog l \<and> validatePodSet U K (lsp_pod (DefaultSpecLog A l)) [''spec''] = [] \<and>
     (\<exists>s1. bucketAnswer L (usableBy key) (lsp_storage (DefaultSpecLog A l)) s s1 \<and>
           bucketAnswer L (\<lambda>b. \<not> bk_deleted b) (lsp_storage (DefaultSpecLog A l)) s1 s')"
proof -
  let ?l = "DefaultSpecLog A l"
  have "ValidateCreateLog U K L key ?l s = (Inr (), s') \<longleftrightarrow> (\<exists>s1. validateIfBucketInUse L key ?l s = (Inr [], s1) \<and>
      validateIfBucketDeleting L ?l s1 = (Inr [], s') \<and> validateMutateCommonLog ?l = [] \<and> validatePodSet U K (lsp_pod ?l) [''spec''] = [])"
    by (auto simp: ValidateCreateLog_def ValidateSpecCreateLog_def bindR_assoc validateIfBucketInUse_def validateIfBucketDeleting_def checkBucket_returns
        liftE_runs)
  moreover have "(\<lambda>b. (if bk_state b = StatusInUse \<and> bk_bindTo b \<noteq> BucketBindToMark (fst key) (snd key) then Some ''claimed bucket already bind'' else None) = None) =
      usableBy key"
    "(\<lambda>b. (if bk_deleted b then Some ''claimed bucket state is deleting'' else None) = None) = (\<lambda>b. \<not> bk_deleted b)"
    by (auto simp: usableBy_def fun_eq_iff)
  ultimately show ?thesis
    by (simp add: validateIfBucketInUse_def validateIfBucketDeleting_def checkBucket_passes wellFormedLog_iff) blast
qed

text \<open>Volumes: what an accepted update may do to a volume claim.\<close>

definition volumeKept :: "vol_claim option \<Rightarrow> vol_claim option \<Rightarrow> bool" where
  "volumeKept old new \<longleftrightarrow> (case (old, new) of
      (Some v, Some v') \<Rightarrow> vc_size v \<le> vc_size v' \<and> (vc_class v = None \<or> vc_class v' = None \<or> vc_class v = vc_class v')
    | _ \<Rightarrow> True)"

lemma validateVolumeUpdate_Nil: "validateVolumeUpdate old new path = [] \<longleftrightarrow> volumeKept old new"
  by (auto simp: validateVolumeUpdate_def volumeKept_def split: option.splits)

lemma validateVolume_Nil: "validateVolume v path = [] \<longleftrightarrow> vc_size v \<noteq> 0"
  by (simp add: validateVolume_def)

lemma thenE_Inr: "thenE x f = Inr y \<longleftrightarrow> (\<exists>z. x = Inr z \<and> f z = Inr y)"
  by (cases x) (simp_all add: thenE_def)

text \<open>C21 (CN sets, \<^verbatim>\<open>cnset_webhook.go\<close>, \<^verbatim>\<open>common.go\<close>): an accepted update of a CN set that keeps a cache volume never shrinks it and never
  replaces one named storage class by another (a class may be dropped or added, and so may the whole volume); the new volume has a
  size; the operator version is not lowered; and the set ends with a semantic version and with a log set to talk to.\<close>

theorem cn_update_safe:
  assumes "ValidateUpdateCN U K logSet external old new = Inr ()"
  shows "volumeKept (cns_cacheVolume old) (cns_cacheVolume new) \<and>
    (case cns_cacheVolume new of None \<Rightarrow> True | Some v \<Rightarrow> vc_size v \<noteq> 0) \<and>
    \<not> k_verLT K (opVersion U (cns_pod new)) (opVersion U (cns_pod old)) \<and> GetSemVer U (cns_pod new) \<noteq> None \<and> (logSet \<noteq> None \<or> external)"
proof -
  have create: "ValidateCreateCN U K logSet external new = Inr ()"
    and upd: "validatePodSetUpdate U K (cns_pod old) (cns_pod new) [''spec''] = []"
      "validateVolumeUpdate (cns_cacheVolume old) (cns_cacheVolume new) [''spec'', ''cacheVolume''] = []"
    using assms by (auto simp: ValidateUpdateCN_def thenE_Inr)
  from create have "validateLogSetRef logSet external [''deps''] = []" "ValidateSpecCreateCN new = []" "validatePodSet U K (cns_pod new) [''spec''] = []"
    by (simp_all add: ValidateCreateCN_def)
  then show ?thesis using upd
    by (auto simp: validateVolumeUpdate_Nil validatePodSetUpdate_def validateLogSetRef_def ValidateSpecCreateCN_def validateVolume_Nil validatePodSet_def
        split: option.splits if_splits)
qed

lemma liftE_run: "liftE r s = (r, s)"
  by (cases r) (simp_all add: liftE_def ret_def throw_def)

text \<open>log sets, \<^verbatim>\<open>logset_webhook.go\<close>: an accepted update of a log set keeps the initial configuration and the S3 storage, never
  shrinks the volume or moves it to another class, and leaves a well formed specification. When buckets are reclaimed, a bucket
  that another object uses is refused: whatever bucket the API reported for the storage is free or bound to this log set.\<close>

theorem log_update_safe:
  assumes "ValidateUpdateLog L key old new s = (Inr (), s')"
  shows "lsp_initial new = lsp_initial old \<and> sh_s3 (lsp_storage new) = sh_s3 (lsp_storage old) \<and>
    volumeKept (Some (lsp_volume old)) (Some (lsp_volume new)) \<and> validateMutateCommonLog new = [] \<and>
    (case sh_s3 (lsp_storage new) of None \<Rightarrow> True | Some s3 \<Rightarrow> \<not> l_s3Reclaim L \<or>
       (\<exists>r. fst (ClaimedBucket L s3 s) = Inr r \<and>
         (case r of None \<Rightarrow> True | Some b \<Rightarrow> bk_state b \<noteq> StatusInUse \<or> bk_bindTo b = BucketBindToMark (fst key) (snd key))))"
proof -
  from assms obtain es s1 where spec: "ValidateSpecUpdateLog L key old new s = (Inr es, s1)" and es: "es = []"
      and vol: "volumeKept (Some (lsp_volume old)) (Some (lsp_volume new))"
    by (auto simp: ValidateUpdateLog_def liftE_run validateVolumeUpdate_Nil elim!: bindR_InrE)
  then have ok: "validateMutateCommonLog new = []"
    by (auto simp: ValidateSpecUpdateLog_def ret_def split: if_splits)
  with spec es obtain a where a: "validateIfBucketInUse L key new s = (Inr a, s1)" "a = []"
      and rest: "lsp_initial new = lsp_initial old" "sh_s3 (lsp_storage new) = sh_s3 (lsp_storage old)"
    by (auto simp: ValidateSpecUpdateLog_def ret_def elim!: bindR_InrE split: if_splits)
  from a have "case sh_s3 (lsp_storage new) of None \<Rightarrow> True | Some s3 \<Rightarrow> \<not> l_s3Reclaim L \<or>
       (\<exists>r. fst (ClaimedBucket L s3 s) = Inr r \<and>
         (case r of None \<Rightarrow> True | Some b \<Rightarrow> bk_state b \<noteq> StatusInUse \<or> bk_bindTo b = BucketBindToMark (fst key) (snd key)))"
    by (auto simp: validateIfBucketInUse_def checkBucket_def attempt_def bindR_def ret_def split: option.splits sum.splits prod.splits if_splits)
  with ok vol rest show ?thesis by simp
qed

text \<open>The initial configuration of a log set is immutable.\<close>

lemma log_update_immutable:
  "ValidateUpdateLog L key old new s = (Inr (), s') \<Longrightarrow> lsp_initial new = lsp_initial old"
  by (auto simp: ValidateUpdateLog_def ValidateSpecUpdateLog_def liftE_run ret_def elim!: bindR_InrE split: if_splits)

lemma validateGroups_distinct:
  "validateGroups K seen i gs = [] \<Longrightarrow> distinct (map gr_name gs) \<and> gr_name ` set gs \<inter> seen = {}"
  by (induction gs arbitrary: seen i) (auto simp: Let_def split: if_splits)

lemma validateMutateCommon_accepts:
  assumes "validateMutateCommonCluster K m = Inr []"
  shows "distinct (map gr_name (cnGroups m))" "GetTN m \<noteq> None" "mos_version (mo_spec m) \<noteq> []"
proof -
  obtain tn where tn: "GetTN m = Some tn" using assms by (auto simp: validateMutateCommonCluster_def Let_def split: option.splits)
  let ?sp = "mo_spec m" and ?seen = "(if mos_tp (mo_spec m) \<noteq> None then {''tp''} else {}) \<union> (if mos_ap (mo_spec m) \<noteq> None then {''ap''} else {})"
  have groups: "validateGroups K ?seen 0 (mos_groups ?sp) = []" and v: "mos_version ?sp \<noteq> []"
    using assms tn by (simp_all add: validateMutateCommonCluster_def Let_def if_Nil del: Un_insert_left)
  show "GetTN m \<noteq> None" "mos_version ?sp \<noteq> []" using tn v by simp_all
  show "distinct (map gr_name (cnGroups m))"
    using validateGroups_distinct[OF groups] by (auto simp: cnGroups_def split: option.splits if_splits)
qed

text \<open>C19 (clusters, \<^verbatim>\<open>matrixonecluster_webhook.go\<close> and \<^verbatim>\<open>mocluster/controller.go\<close>): a cluster accepted at its creation has what the
  cluster controller needs. Its CN groups, those of \<^verbatim>\<open>tp\<close> and \<^verbatim>\<open>ap\<close> included, get CN sets with different names, exactly one of \<^verbatim>\<open>dn\<close> and \<^verbatim>\<open>tn\<close> is set, so
  the specification of the DN set is computed without a nil dereference, the image has a tag, the name is at most 46 characters
  and the log set specification is well formed.\<close>

theorem accepted_cluster_usable:
  assumes "ValidateCreateCluster K L m s = (Inr (), s')"
  shows "distinct (map (cnSetName m) (cnGroups m)) \<and> (mos_dn (mo_spec m) = None) \<noteq> (mos_tn (mo_spec m) = None) \<and>
    (\<exists>d. dnSpecOf m = Inr d) \<and> DefaultImage m \<noteq> mos_repository (mo_spec m) @ '':'' \<and> length (mo_name m) \<le> 46 \<and>
    validateMutateCommonLog (mos_log (mo_spec m)) = []"
proof -
  from assms obtain common es s1 where common: "validateMutateCommonCluster K m = Inr common"
      and log: "ValidateSpecCreateLog L (LogSetKey m) (mos_log (mo_spec m)) s = (Inr es, s1)"
      and checks: "length (mo_name m) \<le> MatrixOneClusterNameMaxLength" "mos_dn (mo_spec m) = None \<or> mos_tn (mo_spec m) = None" "common = []" "es = []"
    by (auto simp: ValidateCreateCluster_def Let_def liftE_runs elim!: bindR_InrE split: if_splits)
  from common checks(3) have ok: "validateMutateCommonCluster K m = Inr []" by simp
  note acc = validateMutateCommon_accepts[OF ok]
  have "distinct (map (cnSetName m) (cnGroups m))"
    using acc(1) by (auto simp: distinct_map inj_on_def cnSetName_def)
  moreover have "\<exists>d. dnSpecOf m = Inr d" "mos_dn (mo_spec m) \<noteq> None \<or> mos_tn (mo_spec m) \<noteq> None"
    using acc(2) by (auto simp: dnSpecOf_def GetTN_def split: option.splits)
  moreover have "validateMutateCommonLog (mos_log (mo_spec m)) = []"
    using log checks(4) by (auto simp: ValidateSpecCreateLog_def ret_def elim!: bindR_InrE)
  ultimately show ?thesis using acc(3) checks(1,2) by (auto simp: DefaultImage_def MatrixOneClusterNameMaxLength_def)
qed

text \<open>clusters and log sets: a restore requested on an existing cluster is accepted by one hook and refused by the other. The hook
  of clusters does not look at \<^verbatim>\<open>restoreFrom\<close>: its answer is the one for the unchanged cluster. The controller then writes the log
  set with another initial configuration, which the hook of log sets refuses, in every state of the API.\<close>

theorem late_restore_refused:
  assumes "mos_restoreFrom (mo_spec m) = None" "ic_restoreFrom (lsp_initial (mos_log (mo_spec m))) \<noteq> Some defaultHKDataPath"
    and m': "m' = m\<lparr>mo_spec := (mo_spec m)\<lparr>mos_restoreFrom := Some backup\<rparr>\<rparr>"
  shows "ValidateUpdateCluster K L m m' s = ValidateUpdateCluster K L m m s \<and>
    (\<forall>s2. fst (ValidateUpdateLog L key (logSpecOf m) (logSpecOf m') s2) \<noteq> Inr ())"
proof
  have "GetTN m' = GetTN m" by (simp add: m' GetTN_def split: option.split)
  then have "validateMutateCommonCluster K m' = validateMutateCommonCluster K m"
    by (simp add: validateMutateCommonCluster_def Let_def m' split del: if_split cong: option.case_cong)
  then show "ValidateUpdateCluster K L m m' s = ValidateUpdateCluster K L m m s"
    by (simp add: ValidateUpdateCluster_def LogSetKey_def m')
  have "lsp_initial (logSpecOf m') \<noteq> lsp_initial (logSpecOf m)"
    using assms by (auto simp: m' logSpecOf_def Let_def dest!: arg_cong[where f = ic_restoreFrom])
  then show "\<forall>s2. fst (ValidateUpdateLog L key (logSpecOf m) (logSpecOf m') s2) \<noteq> Inr ()"
    using log_update_immutable by (metis prod.collapse)
qed

section \<open>Witnesses\<close>

definition okChecks :: checks where
  "okChecks = \<lparr>k_resources = (\<lambda>_ _. Inr []), k_fqdn = (\<lambda>_ _. []), k_labels = (\<lambda>_ _. []), k_annos = (\<lambda>_ _. []), k_envFrom = (\<lambda>_ _. Inr []),
     k_env = (\<lambda>_ _. Inr []), k_pullPolicy = (\<lambda>_ _. []), k_mounts = (\<lambda>_. None), k_probe = (\<lambda>_ _. Inr []), k_lifecycle = (\<lambda>_ _. Inr []),
     k_security = (\<lambda>_ _. Inr []), k_volumes = (\<lambda>vs _. Inr (vs, [])), k_claims = (\<lambda>_. None), k_claimSpec = (\<lambda>_ _. []),
     k_containers = (\<lambda>_ _ _. Inr []), k_serviceAccount = (\<lambda>_. []), k_podSecurity = (\<lambda>_ _. Inr []), k_pullSecrets = (\<lambda>_ _. Inr []),
     k_affinity = (\<lambda>_ _. Inr []), k_tolerations = (\<lambda>_ _. Inr []), k_priorityClass = (\<lambda>_. []), k_hostAliases = (\<lambda>_ _. Inr []),
     k_topology = (\<lambda>_ _. Inr []), k_runtimeClass = (\<lambda>_ _. []), k_dnsConfig = (\<lambda>_ _. Inr []), k_dns1123 = (\<lambda>_. []), k_dns1035 = (\<lambda>_. []),
     k_verLT = (\<lambda>_ _. False)\<rparr>"

definition grownCN :: "int \<Rightarrow> cn_spec" where
  "grownCN n = zeroCNSpec\<lparr>cns_pod := zeroPodSet\<lparr>pd_image := ''mo:2'', pd_semVersion := Some ''1.3.0''\<rparr>,
     cns_cacheVolume := Some \<lparr>vc_size = n, vc_class = Some ''ssd''\<rparr>\<rparr>"

theorem cn_update_safe_witness:
  "ValidateUpdateCN sampleTools okChecks (Some (''ns'', ''m'')) False (grownCN 10) (grownCN 20) = Inr () \<and>
   volumeKept (cns_cacheVolume (grownCN 10)) (cns_cacheVolume (grownCN 20))"
proof -
  have run: "ValidateUpdateCN sampleTools okChecks (Some (''ns'', ''m'')) False (grownCN 10) (grownCN 20) = Inr ()"
    by (simp add: ValidateUpdateCN_def ValidateCreateCN_def thenE_def invalidOrNil_def validateLogSetRef_def ValidateSpecCreateCN_def validateVolume_def
        validateVolumeUpdate_def validatePodSetUpdate_def validatePodSet_def validateMainContainer_def validateWithConvert_def
        validateGoMemLimitPercent_def grownCN_def zeroCNSpec_def zeroPodSet_def okChecks_def GetSemVer_def sampleTools_def ServiceTypeExternalName_def
        ServiceTypeClusterIP_def)
  from cn_update_safe[OF run] run show ?thesis by blast
qed

definition wellLog :: "int \<Rightarrow> log_spec" where
  "wellLog n = DefaultSpecLog None (zeroLogSpec\<lparr>lsp_pod := zeroPodSet\<lparr>pd_replicas := 3\<rparr>, lsp_volume := \<lparr>vc_size = n, vc_class = None\<rparr>,
     lsp_storage := \<lparr>sh_s3 = Some sampleS3, sh_fs = None\<rparr>\<rparr>)"

definition wellCluster :: mo_cluster where
  "wellCluster = smallCluster\<lparr>mo_spec := (mo_spec smallCluster)\<lparr>mos_log := wellLog 10\<rparr>\<rparr>"

lemma wellLog_fields: "lsp_initial (wellLog n) = \<lparr>ic_logShards = Some 1, ic_dnShards = Some 1, ic_logShardReplicas = Some 3, ic_restoreFrom = None\<rparr>"
  "lsp_volume (wellLog n) = \<lparr>vc_size = n, vc_class = None\<rparr>" "lsp_storage (wellLog n) = \<lparr>sh_s3 = Some sampleS3, sh_fs = None\<rparr>"
  "pd_replicas (lsp_pod (wellLog n)) = 3" "pd_memLimitPercent (lsp_pod (wellLog n)) = None"
  by (simp_all add: wellLog_def DefaultSpecLog_def Let_def setRetention_def partOf_def setDefaultRetentionPolicy_def zeroLogSpec_def zeroPodSet_def
      setPodSetDefaults_def setDefaultServiceArgs_def defaultInitialConfig_def or_defs minHAReplicas_def defaultShardNum_def sampleS3_def)

lemma wellLog_valid: "n \<noteq> 0 \<Longrightarrow> validateMutateCommonLog (wellLog n) = []"
  by (simp add: validateMutateCommonLog_def validateVolume_def validateInitialConfig_def validateSharedStorage_def validateGoMemLimitPercent_def
      wellLog_fields Let_def) (simp add: sampleS3_def)

definition hookState :: "(unit, bucket_mem) ctx" where
  "hookState = \<lparr>Obj = (), world = bucketWorld\<rparr>"

lemma hook_bucket: "ClaimedBucket bucketEnv sampleS3 hookState = (Inr (Some sampleBucket), hookState)"
  by (simp add: ClaimedBucket_def UniqueBucketLabel_def hookState_def bucket_run_defs)

lemma hook_bucket_ok: "checkBucket bucketEnv bad (wellLog n) hookState = (Inr (case bad sampleBucket of None \<Rightarrow> [] | Some msg \<Rightarrow> [FieldInvalid [''spec'', ''sharedStorage'', ''s3''] msg]), hookState)"
  by (simp add: checkBucket_def wellLog_fields attempt_def bindR_def ret_def hook_bucket) (simp add: bucketEnv_def)

lemma sampleBucket_free: "bk_state sampleBucket \<noteq> StatusInUse" "\<not> bk_deleted sampleBucket"
  by (simp_all add: sampleBucket_def)

theorem log_update_safe_witness:
  "\<exists>s'. ValidateUpdateLog bucketEnv (''ns'', ''m'') (wellLog 10) (wellLog 20) hookState = (Inr (), s') \<and>
     volumeKept (Some (lsp_volume (wellLog 10))) (Some (lsp_volume (wellLog 20)))"
proof -
  have run: "ValidateUpdateLog bucketEnv (''ns'', ''m'') (wellLog 10) (wellLog 20) hookState = (Inr (), hookState)"
    by (simp add: ValidateUpdateLog_def ValidateSpecUpdateLog_def wellLog_valid validateIfBucketInUse_def bindR_def hook_bucket_ok sampleBucket_free
        ret_def wellLog_fields validateVolumeUpdate_def liftE_run invalidOrNil_def)
  from log_update_safe[OF run] run show ?thesis by blast
qed

lemma wellCluster_common: "validateMutateCommonCluster okChecks wellCluster = Inr []"
  by (simp add: validateMutateCommonCluster_def Let_def wellCluster_def smallCluster_def GetTN_def smallGroup_def validateCNGroup_def okChecks_def
      ValidateSpecCreateCN_def ValidateSpecCreateDN_def zeroCNSpec_def zeroDNSpec_def zeroPodSet_def validateGoMemLimitPercent_def
      ServiceTypeExternalName_def)

theorem accepted_cluster_usable_witness:
  "\<exists>s'. ValidateCreateCluster okChecks bucketEnv wellCluster hookState = (Inr (), s') \<and> (\<exists>d. dnSpecOf wellCluster = Inr d)"
proof -
  have "mos_log (mo_spec wellCluster) = wellLog 10" by (simp add: wellCluster_def)
  then have run: "ValidateCreateCluster okChecks bucketEnv wellCluster hookState = (Inr (), hookState)"
    by (simp add: ValidateCreateCluster_def Let_def wellCluster_common liftE_run bindR_def ValidateSpecCreateLog_def validateIfBucketInUse_def
        validateIfBucketDeleting_def hook_bucket_ok sampleBucket_free ret_def wellLog_valid invalidOrNil_def)
      (simp add: wellCluster_def smallCluster_def MatrixOneClusterNameMaxLength_def okChecks_def)
  from accepted_cluster_usable[OF run] run show ?thesis by blast
qed

theorem late_restore_refused_witness:
  "ValidateUpdateCluster okChecks bucketEnv wellCluster (wellCluster\<lparr>mo_spec := (mo_spec wellCluster)\<lparr>mos_restoreFrom := Some ''bk''\<rparr>\<rparr>) hookState = (Inr (), hookState) \<and>
   fst (ValidateUpdateLog bucketEnv (''ns'', ''m'') (logSpecOf wellCluster)
     (logSpecOf (wellCluster\<lparr>mo_spec := (mo_spec wellCluster)\<lparr>mos_restoreFrom := Some ''bk''\<rparr>\<rparr>)) hookState) \<noteq> Inr ()"
proof -
  let ?m' = "wellCluster\<lparr>mo_spec := (mo_spec wellCluster)\<lparr>mos_restoreFrom := Some ''bk''\<rparr>\<rparr>"
  have log: "mos_log (mo_spec wellCluster) = wellLog 10" by (simp add: wellCluster_def)
  then have same: "ValidateUpdateCluster okChecks bucketEnv wellCluster wellCluster hookState = (Inr (), hookState)"
    by (simp add: ValidateUpdateCluster_def wellCluster_common liftE_run bindR_def ValidateSpecUpdateLog_def validateIfBucketInUse_def
        hook_bucket_ok sampleBucket_free ret_def wellLog_valid invalidOrNil_def)
  have h: "mos_restoreFrom (mo_spec wellCluster) = None" "ic_restoreFrom (lsp_initial (mos_log (mo_spec wellCluster))) \<noteq> Some defaultHKDataPath"
    by (simp_all add: log wellLog_fields) (simp add: wellCluster_def smallCluster_def)
  from late_restore_refused[OF h refl, of okChecks bucketEnv "''bk''" hookState "(''ns'', ''m'')"] same show ?thesis by simp
qed

text \<open>A defaulted cluster with one CN group of the role \<open>r\<close>, and the API with the sets as they were written and defaulted.\<close>

definition roleCluster :: "string \<Rightarrow> mo_cluster" where
  "roleCluster r = readyCluster\<lparr>mo_spec := DefaultCluster sampleTools None True
     ((mo_spec readyCluster)\<lparr>mos_groups := [smallGroup\<lparr>gr_spec := zeroCNSpec\<lparr>cns_role := r\<rparr>\<rparr>]\<rparr>)\<rparr>"

definition roleGroup :: "string \<Rightarrow> cn_group" where
  "roleGroup r = smallGroup\<lparr>gr_spec := DefaultSpecCN None (zeroCNSpec\<lparr>cns_role := r\<rparr>)\<rparr>"

definition roleLog :: "string \<Rightarrow> log_spec sub" where
  "roleLog r = newSub (''ns'', ''m'') (DefaultSpecLog None (logSpecOf (roleCluster r)))"

definition roleDN :: "string \<Rightarrow> dn_spec sub" where
  "roleDN r = newSub (''ns'', ''m'') (case dnSpecOf (roleCluster r) of Inr d \<Rightarrow> DefaultSpecDN None d | Inl _ \<Rightarrow> zeroDNSpec)"

definition roleCN :: "string \<Rightarrow> cn_spec sub" where
  "roleCN r = (CNSetKey (roleCluster r) ''m-g'')\<lparr>sb_spec := DefaultCN None (groupSpec sampleTools (roleCluster r) ''c'' (roleGroup r))\<rparr>"

definition roleWorld :: "string \<Rightarrow> clu_mem" where
  "roleWorld r = cluWorld\<lparr>vm_logs := [roleLog r], vm_dns := [roleDN r], vm_cns := [roleCN r]\<rparr>"

lemma role_names: "mo_name (roleCluster r) = ''m''" "mo_ns (roleCluster r) = ''ns''" "LogSetKey (roleCluster r) = (''ns'', ''m'')"
  "DNSetKey (roleCluster r) = (''ns'', ''m'')" "cnGroups (roleCluster r) = [roleGroup r]" "cnSetName (roleCluster r) (roleGroup r) = ''m-g''"
  "mst_credential (mo_status (roleCluster r)) = Some ''c''" "cns_role (gr_spec (roleGroup r)) = r"
proof -
  show "cns_role (gr_spec (roleGroup r)) = r" by (simp add: roleGroup_def DefaultSpecCN_def)
qed (simp_all add: roleCluster_def roleGroup_def readyCluster_def smallCluster_def LogSetKey_def DNSetKey_def cnGroups_def cnSetName_def smallGroup_def
      DefaultCluster_def)

lemma role_stored: "storedLog None cluEnv (roleCluster r) (roleWorld r) (roleLog r)" "storedDN None cluEnv (roleCluster r) (roleWorld r) (roleDN r)"
  "storedCN sampleTools None cluEnv (roleCluster r) ''c'' (roleWorld r) (roleGroup r) (roleCN r)"
proof -
  have get: "api_get (c_logs cluEnv) (''ns'', ''m'') (roleWorld r) = (Inr (roleLog r), roleWorld r)"
      "api_get (c_dns cluEnv) (''ns'', ''m'') (roleWorld r) = (Inr (roleDN r), roleWorld r)"
      "api_get (c_cns cluEnv) (''ns'', ''m-g'') (roleWorld r) = (Inr (roleCN r), roleWorld r)"
    by (simp_all add: cluEnv_def subKind_def memKind_def Let_def roleWorld_def roleLog_def roleDN_def roleCN_def newSub_def CNSetKey_def role_names)
  show "storedLog None cluEnv (roleCluster r) (roleWorld r) (roleLog r)"
    by (simp add: storedLog_def role_names get keyed_def) (simp add: roleLog_def newSub_def)
  have "\<exists>d. dnSpecOf (roleCluster r) = Inr d"
    by (simp add: dnSpecOf_def GetTN_def roleCluster_def readyCluster_def smallCluster_def DefaultCluster_def)
  then show "storedDN None cluEnv (roleCluster r) (roleWorld r) (roleDN r)"
    by (auto simp: storedDN_def role_names get keyed_def) (auto simp: roleDN_def newSub_def)
  show "storedCN sampleTools None cluEnv (roleCluster r) ''c'' (roleWorld r) (roleGroup r) (roleCN r)"
    by (simp add: storedCN_def role_names get keyed_def) (simp add: roleCN_def CNSetKey_def newSub_def role_names gget_def)
qed

lemma cluEnv_same: "sameLaws cluEnv"
  by (simp add: sameLaws_def cluEnv_def)

lemma role_spec: "mo_spec (roleCluster r) = DefaultCluster sampleTools None True
    ((mo_spec readyCluster)\<lparr>mos_groups := [smallGroup\<lparr>gr_spec := zeroCNSpec\<lparr>cns_role := r\<rparr>\<rparr>]\<rparr>)"
  by (simp add: roleCluster_def)

theorem cluster_sync_settles_witness:
  "syncSets sampleTools (loggedC cluEnv) \<lparr>Obj = roleCluster ''AP'', world = (roleWorld ''AP'', [])\<rparr> =
     (Inr (roleLog ''AP'', roleDN ''AP''), \<lparr>Obj = roleCluster ''AP'', world = (roleWorld ''AP'', [])\<rparr>)"
  by (rule cluster_sync_settles[OF sampleTools_laws cluEnv_same role_spec role_names(7) _ role_stored(1,2)])
    (auto simp: role_names intro: role_stored(3))

theorem roleless_group_updates_witness:
  "logOf (snd (syncOneGroup sampleTools (loggedC cluEnv) (roleGroup []) \<lparr>Obj = roleCluster [], world = (roleWorld [], [])\<rparr>)) =
     [CnCW (WUpdate ((roleCN [])\<lparr>sb_spec := (sb_spec (roleCN []))\<lparr>cns_role := []\<rparr>\<rparr>))]"
  using roleless_group_updates[OF sampleTools_laws cluEnv_same role_spec role_names(7) _ _ role_stored(3), of "[]" "[]"] by (simp add: role_names)

definition argsProxy :: default_args where
  "argsProxy = \<lparr>da_log = [], da_dn = [], da_cn = [], da_proxy = [''-debug-http=:6060'']\<rparr>"

definition proxyCluster :: mo_cluster where
  "proxyCluster = readyCluster\<lparr>mo_spec := (mo_spec readyCluster)\<lparr>mos_proxy := Some zeroProxySpec\<rparr>\<rparr>"

definition proxyEnvC :: "clu_mem cenv" where
  "proxyEnvC = cluEnv\<lparr>c_proxyBegin := (\<lambda>x w. (Inr (x\<lparr>sb_spec := DefaultSpecProxy (Some argsProxy) (proxySpecOf proxyCluster zeroProxySpec)\<rparr>), w))\<rparr>"

theorem proxy_args_removed_witness:
  "\<exists>old new. logOf (snd (syncProxy (loggedC proxyEnvC) \<lparr>Obj = proxyCluster, world = (readyWorld, [])\<rparr>)) = [ProxyOwnedW old new] \<and>
     pd_serviceArgs (psp_pod (sb_spec old)) = [''-debug-http=:6060''] \<and> new \<noteq> old"
proof -
  let ?x = "(newSub (ProxyKey proxyCluster) zeroProxySpec)\<lparr>sb_logSet := Some (LogSetKey proxyCluster)\<rparr>"
  let ?old = "?x\<lparr>sb_spec := DefaultSpecProxy (Some argsProxy) (proxySpecOf proxyCluster zeroProxySpec)\<rparr>"
  have "da_proxy argsProxy \<noteq> []" and px: "mos_proxy (mo_spec proxyCluster) = Some zeroProxySpec" and
      "c_proxyBegin proxyEnvC ?x readyWorld = (Inr ?old, readyWorld)"
    by (simp_all add: argsProxy_def proxyCluster_def proxyEnvC_def)
  moreover have "pd_serviceArgs (psp_pod (proxySpecOf proxyCluster zeroProxySpec)) = []"
    by (simp add: proxySpecOf_def inherit_def setPodSetDefault_def setOverlay_def zeroProxySpec_def zeroPodSet_def Let_def split: option.split)
  ultimately show ?thesis
    using proxy_args_removed[of "Some argsProxy" argsProxy proxyCluster zeroProxySpec proxyEnvC readyWorld ?old readyWorld "[]"]
    by (intro exI[of _ ?old] exI[of _ "?old\<lparr>sb_spec := proxySpecOf proxyCluster zeroProxySpec\<rparr>"]) (simp add: argsProxy_def)
qed

end
