(* ===== verification/Log_Control.thy ===== *)
theory Log_Control
  imports Cluster_Objects
begin

text \<open>
  The rest of the log set controller, \<^verbatim>\<open>pkg/controllers/logset\<close>: \<^verbatim>\<open>Observe\<close>, \<^verbatim>\<open>Create\<close> and \<^verbatim>\<open>Update\<close> with the objects they build. The other
  actions, \<^verbatim>\<open>Scale\<close> and \<^verbatim>\<open>Repair\<close>, the bootstrap decision, the gossip configuration and \<^verbatim>\<open>Finalize\<close> are in \<open>LogSet\<close>, the bucket of the log
  set in \<open>Bucket\<close>; they see the part \<open>viewOf\<close> of the object.

  The theorems: a failed store is repaired before anything else is done to the set; a reconciliation without an action means a
  complete log set; the bootstrap decision is stored before the first pod can exist.
\<close>

section \<open>The log set\<close>

record log_obj =
  lob_name :: string
  lob_ns :: string
  lob_uid :: string
  lob_kind :: string
  lob_annos :: gomap
  lob_spec :: log_spec
  lob_conditions :: "condition list"
  lob_failover :: failover_status
  lob_discovery :: "(string \<times> int) option"

type_synonym 'w log_ctx = "(log_obj, 'w) ctx"

definition viewOf :: "log_obj \<Rightarrow> logset" where
  "viewOf ls = \<lparr>lgs_name = lob_name ls, lgs_ns = lob_ns ls, lgs_uid = lob_uid ls, lgs_annos = lob_annos ls, lgs_spec = partOf (lob_spec ls),
     lgs_failover = lob_failover ls\<rparr>"

text \<open>A handler on the view: of the object only the annotations and the failover status can change.\<close>

definition onView :: "('w logset_ctx, 'a) rm \<Rightarrow> ('w log_ctx, 'a) rm" where
  "onView m s = (case m \<lparr>Obj = viewOf (Obj s), world = world s\<rparr> of
     (r, s') \<Rightarrow> (r, s\<lparr>Obj := (Obj s)\<lparr>lob_annos := lgs_annos (Obj s'), lob_failover := lgs_failover (Obj s')\<rparr>, world := world s'\<rparr>))"

definition logLabels :: "log_obj \<Rightarrow> gomap" where
  "logLabels ls = subLabels (lob_ns ls) (lob_name ls) (lob_kind ls)"

definition logPod :: "log_obj \<Rightarrow> pod_set" where
  "logPod ls = lsp_pod (lob_spec ls)"

section \<open>Configuration\<close>

definition logConfigFile :: string where "logConfigFile = ''logservice.toml''"
definition logEntrypoint :: string where "logEntrypoint = ''start.sh''"
definition serviceTypeLog :: string where "serviceTypeLog = ''LOG''"
definition bootstrapFile :: string where "bootstrapFile = ''bootstrap.toml''"
definition BackupFileServiceName :: string where "BackupFileServiceName = ''BACKUP''"

definition LogServiceFSConfig :: "tools \<Rightarrow> string \<Rightarrow> shared_storage \<Rightarrow> tmap" where
  "LogServiceFSConfig U localPath sp =
     [(''data-dir'', VStr localPath), (''fileservice'', VMaps [sharedFileServiceConfig U sp None BackupFileServiceName []])]"

definition discoverySvcAddress :: "logset \<Rightarrow> string" where
  "discoverySvcAddress ls = discoverySvcName ls @ ''.'' @ lgs_ns ls @ ''.svc''"

definition deploymentID :: "tools \<Rightarrow> logset \<Rightarrow> nat" where
  "deploymentID U ls = u_xxhash U (lgs_name ls) div 2"

definition configMapName :: "logset \<Rightarrow> string" where
  "configMapName ls = resourceName ls @ ''-config''"

definition logSettings :: "tools \<Rightarrow> log_obj \<Rightarrow> (string list \<times> tval) list" where
  "logSettings U ls =
     [([''service-type''], VStr serviceTypeLog),
      ([''logservice'', ''deployment-id''], VInt KUint64 (int (deploymentID U (viewOf ls)))),
      ([''logservice'', ''logservice-listen-address''], VStr (''0.0.0.0:'' @ goItoa logServicePort)),
      ([''hakeeper-client'', ''discovery-address''], VStr (discoverySvcAddress (viewOf ls) @ '':'' @ goItoa logServicePort))]
     @ (if pd_replicas (logPod ls) = 1 then [([''logservice'', ''gossip-allow-self-as-seed''], VOther ''true'')] else [])
     @ promConfig (logPod ls)"

text \<open>The source sets these keys in the configuration of the object in memory. It builds the configuration once in a
  reconciliation and writes only the status back, so the model returns the new configuration and keeps the object as it was read.\<close>

definition logConfig :: "tools \<Rightarrow> log_obj \<Rightarrow> toml_config" where
  "logConfig U ls =
     (let sp = lob_spec ls in
      setAll (logSettings U ls)
        (MergeDeep (orNewConfig (pd_config (lsp_pod sp)))
          (if ic_restoreFrom (lsp_initial sp) \<noteq> None then LogServiceFSConfig U localDataPath (lsp_storage sp)
           else FileServiceConfig U localDataPath (lsp_storage sp) None)))"

definition logConfigData :: "tools \<Rightarrow> pod_set \<Rightarrow> string \<Rightarrow> string \<Rightarrow> string \<Rightarrow> string \<Rightarrow> err + config_map \<times> string" where
  "logConfigData U p name ns script conf =
     (if inplaceConfig U p
      then thenE (DataDigest U conf) (\<lambda>d.
        Inr (\<lparr>cm_name = name, cm_ns = ns, cm_data = [(logEntrypoint, script), (logConfigFile @ ''-'' @ d, conf)]\<rparr>, d))
      else Inr (\<lparr>cm_name = name, cm_ns = ns, cm_data = [(logEntrypoint, script), (logConfigFile, conf)]\<rparr>, []))"

definition buildConfigMapLog :: "tools \<Rightarrow> codec \<Rightarrow> log_obj \<Rightarrow> err + config_map \<times> string" where
  "buildConfigMapLog U T ls =
     thenE (ToString T (Some (logConfig U ls))) (\<lambda>s.
     thenE (u_script U (if discoveryFixed U (logPod ls) then ''log-v2'' else ''log'') (inplaceConfig U (logPod ls))
              (pd_memoryFs (logPod ls) \<noteq> None) []) (\<lambda>script.
     logConfigData U (logPod ls) (configMapName (viewOf ls)) (lob_ns ls) script s))"

text \<open>The numbers of the initial configuration are pointers; nil is written as it is.\<close>

definition optInt :: "int option \<Rightarrow> tval" where
  "optInt x = (case x of None \<Rightarrow> VNil | Some n \<Rightarrow> VInt KInt n)"

definition bootstrapSettings :: "initial_config \<Rightarrow> (int \<times> int) list \<Rightarrow> tmap" where
  "bootstrapSettings c brs =
     [(''bootstrap-cluster'', VOther ''true''), (''num-of-log-shards'', optInt (ic_logShards c)), (''num-of-dn-shards'', optInt (ic_dnShards c)),
      (''num-of-log-shard-replicas'', optInt (ic_logShardReplicas c)), (''init-hakeeper-members'', VStrs (encodeSeeds brs))]
     @ (case ic_restoreFrom c of None \<Rightarrow> []
        | Some path \<Rightarrow> [(''restore'', VMap [(''file-path'', VStr (BackupFileServiceName @ ''://'' @ path))])])"

definition buildBootstrapConfig :: "codec \<Rightarrow> 'w senv \<Rightarrow> ('w log_ctx, config_map) rm" where
  "buildBootstrapConfig T S =
     bindR (onView (bootstrap (s_l S))) (\<lambda>brs.
     bindR getObj (\<lambda>ls.
     bindR (liftE (ToString T (Some (SetPath (NewTomlConfig (Some [])) [''logservice'', ''BootstrapConfig'']
              (VMap (bootstrapSettings (lsp_initial (lob_spec ls)) brs)))))) (\<lambda>c.
     ret \<lparr>cm_name = bootstrapConfigMapName (viewOf ls), cm_ns = lob_ns ls, cm_data = [(bootstrapFile, c)]\<rparr>)))"

section \<open>Objects\<close>

definition buildHeadlessSvcLog :: "log_obj \<Rightarrow> service" where
  "buildHeadlessSvcLog ls = HeadlessServiceTemplate (lob_ns ls) (lob_name ls) (lob_kind ls) (headlessSvcName (viewOf ls))"

definition buildDiscoveryService :: "log_obj \<Rightarrow> service" where
  "buildDiscoveryService ls = \<lparr>vs_name = discoverySvcName (viewOf ls), vs_ns = lob_ns ls, vs_labels = logLabels ls, vs_annos = None,
     vs_controller = None, vs_selector = logLabels ls, vs_type = ServiceTypeClusterIP,
     vs_ports = [\<lparr>spt_name = [], spt_port = logServicePort, spt_nodePort = 0\<rparr>], vs_headless = False\<rparr>"

definition syncStatefulSetSpec :: "log_obj \<Rightarrow> kruise_sts \<Rightarrow> kruise_sts" where
  "syncStatefulSetSpec ls sts = (case GetPVCRetentionPolicy (partOf (lob_spec ls)) of
      PVCRetentionPolicyDelete \<Rightarrow> sts\<lparr>kt_whenDeleted := ''Delete'', kt_whenScaled := ''Delete''\<rparr>
    | PVCRetentionPolicyRetain \<Rightarrow> sts\<lparr>kt_whenDeleted := ''Retain'', kt_whenScaled := ''Retain''\<rparr>
    | OtherRetentionPolicy _ \<Rightarrow> sts)"

definition buildStatefulSet :: "log_obj \<Rightarrow> kruise_sts" where
  "buildStatefulSet ls = syncStatefulSetSpec ls
     ((StatefulSetTemplate (lob_ns ls) (lob_name ls) (lob_kind ls) (stsName (viewOf ls)) (headlessSvcName (viewOf ls)))
       \<lparr>kt_whenDeleted := [], kt_whenScaled := []\<rparr>)"

definition syncReplicasLog :: "log_obj \<Rightarrow> kruise_sts \<Rightarrow> kruise_sts" where
  "syncReplicasLog ls sts = sts\<lparr>kt_replicas := Some (pd_replicas (logPod ls))\<rparr>"

definition syncPersistentVolumeClaimLog :: "log_obj \<Rightarrow> kruise_sts \<Rightarrow> kruise_sts" where
  "syncPersistentVolumeClaimLog ls sts =
     sts\<lparr>kt_claims := volumeClaims (Some (lsp_volume (lob_spec ls))) (pd_overlay (logPod ls)) (kt_claims sts)\<rparr>"

text \<open>The stateful set as \<open>LogSet\<close> and \<open>Bucket\<close> see it; \<open>tv\<close> is the part of the pod template they keep. Replicas are set by then.\<close>

definition stsView :: "(pod_tpl \<Rightarrow> pod_template) \<Rightarrow> kruise_sts \<Rightarrow> stateful_set" where
  "stsView tv sts = \<lparr>ss_name = kt_name sts, ss_ns = kt_ns sts, ss_replicas = orElse (kt_replicas sts) 0, ss_reserveOrdinals = kt_reserveOrdinals sts,
     ss_template = tv (kt_template sts)\<rparr>"

definition syncPodsLog :: "tools \<Rightarrow> codec \<Rightarrow> 'w senv \<Rightarrow> kruise_sts \<Rightarrow> ('w log_ctx, kruise_sts) rm" where
  "syncPodsLog U T S sts =
     bindR getObj (\<lambda>ls.
     bindR (liftE (buildConfigMapLog U T ls)) (\<lambda>(cm, sfx).
     let t1 = syncPodMetaSet U (logPod ls) (kt_template sts);
         t2 = (if opVersion U (logPod ls) = LatestOpVersion then setAnno ConfigSuffixAnno sfx t1 else t1) in
     bindR (liftE (syncPodSpecLog U (viewOf ls) (logPod ls) (logLabels ls) (lsp_storage (lob_spec ls)) (pm_spec t2))) (\<lambda>spec.
     bindR (SyncConfigMap U (s_l S) (logPod ls) cm spec) (\<lambda>spec'.
     ret (sts\<lparr>kt_template := t2\<lparr>pm_spec := spec'\<rparr>\<rparr>)))))"

definition metricSvcLog :: "log_obj \<Rightarrow> service" where
  "metricSvcLog ls = \<lparr>vs_name = lob_name ls @ ''-log-metric'', vs_ns = lob_ns ls, vs_labels = logLabels ls, vs_annos = None,
     vs_controller = None, vs_selector = logLabels ls, vs_type = [], vs_ports = [], vs_headless = False\<rparr>"

definition mutateMetricSvcLog :: "log_obj \<Rightarrow> service \<Rightarrow> service" where
  "mutateMetricSvcLog ls svc = svc\<lparr>vs_ports := [metricPort],
     vs_annos := (if PromDiscoveredByService (logPod ls)
       then Some [PrometheusScrapeAnno \<mapsto> ''true'', PrometheusPortAnno \<mapsto> goItoa MetricsPort]
       else gdel PrometheusScrapeAnno (vs_annos svc))\<rparr>"

definition syncMetricServiceLog :: "'w senv \<Rightarrow> ('w log_ctx, unit) rm" where
  "syncMetricServiceLog S =
     bindR getObj (\<lambda>ls. bindR (serviceR S (metricSvcLog ls) (\<lambda>svc. ret (mutateMetricSvcLog ls svc))) (\<lambda>_. ret ()))"

section \<open>Observe\<close>

datatype log_action = LogCreate | LogRepair kruise_sts | LogScale kruise_sts | LogUpdate kruise_sts

definition logReady :: "log_obj \<Rightarrow> failover_status \<Rightarrow> bool" where
  "logReady ls st \<longleftrightarrow> int (length (fo_available st)) \<ge> pd_replicas (logPod ls)"

definition syncLogStatus :: "'w senv \<Rightarrow> ('w log_ctx, unit) rm" where
  "syncLogStatus S =
     bindR getObj (\<lambda>ls.
     bindR (wrapE ''list logservice pods'' (callW (api_list (l_pods (s_l S)) (lob_ns ls)
       (MatchingLabels (SubResourceLabels (lob_ns ls) (lob_name ls) (lob_kind ls)))))) (\<lambda>pods.
     bindR (readStores S pods) (\<lambda>readings.
     let st = CollectStoreStatus (lob_failover ls) readings in
     bindR (SetCondition S (lob_conditions ls)
       (if logReady ls st then newCondition ConditionTypeReady ConditionTrue [] []
        else newCondition ConditionTypeReady ConditionFalse ReasonNoEnoughReadyStores [])) (\<lambda>conds.
     modObj (\<lambda>ls. ls\<lparr>lob_failover := st, lob_conditions := conds,
       lob_discovery := Some (discoverySvcAddress (viewOf ls), logServicePort)\<rparr>)))))"

definition reSyncAfter :: int where "reSyncAfter = 15 * second"

text \<open>The end of \<^verbatim>\<open>Observe\<close>: the template, the volumes, the bucket and the metric service.\<close>

definition finishLog :: "tools \<Rightarrow> codec \<Rightarrow> 'w senv \<Rightarrow> (pod_tpl \<Rightarrow> pod_template) \<Rightarrow> kruise_sts \<Rightarrow> ('w log_ctx, log_action option) rm" where
  "finishLog U T S tv sts =
     bindR getObj (\<lambda>ls.
     bindR (syncPodsLog U T S (syncStatefulSetSpec ls sts)) (\<lambda>desired.
     bindR (wrapE ''dry run update logset statefulset'' (callW (s_dryRunSts S desired))) (\<lambda>sts'.
     if semSts sts \<noteq> semSts sts' then ret (Some (LogUpdate sts'))
     else
       bindR (wrapE ''sync volume size'' (SyncStsVolumeSize U S (lob_ns ls) (lob_name ls) (lob_kind ls) (vc_size (lsp_volume (lob_spec ls))) sts')) (\<lambda>_.
       bindR (wrapE ''sync bucket claim'' (onView (syncBucketClaim (s_l S) (tv (kt_template sts'))))) (\<lambda>_.
       bindR (if fo_available (lob_failover ls) \<noteq> []
              then wrapE ''sync bucket ever running annotation'' (onView (syncBucketEverRunningAnn (s_l S))) else ret ()) (\<lambda>_.
       bindR (wrapE ''sync metric service'' (syncMetricServiceLog S)) (\<lambda>_.
       if s_isReady S (lob_conditions ls) \<and> fo_failed (lob_failover ls) = [] \<and> kt_statusUpdatedReady sts' \<ge> pd_replicas (logPod ls) then ret None
       else ErrReSync ''logset is not synced or has unready members'' reSyncAfter)))))))"

definition observeFoundLog :: "tools \<Rightarrow> codec \<Rightarrow> 'w senv \<Rightarrow> (pod_tpl \<Rightarrow> pod_template) \<Rightarrow> kruise_sts \<Rightarrow> ('w log_ctx, log_action option) rm" where
  "observeFoundLog U T S tv sts =
     bindR (syncLogStatus S) (\<lambda>_.
     bindR getObj (\<lambda>ls.
     bindR (StoresFailedFor (s_l S) (GetStoreFailureTimeout (partOf (lob_spec ls))) (fo_failed (lob_failover ls))) (\<lambda>failed.
     if failed \<noteq> [] then ret (Some (LogRepair sts))
     else
       bindR (orPanic (kt_replicas sts)) (\<lambda>replicas.
       if pd_replicas (logPod ls) \<noteq> replicas then ret (Some (LogScale sts))
       else finishLog U T S tv sts))))"

definition LogObserve :: "tools \<Rightarrow> codec \<Rightarrow> 'w senv \<Rightarrow> (pod_tpl \<Rightarrow> pod_template) \<Rightarrow> ('w log_ctx, log_action option) rm" where
  "LogObserve U T S tv =
     bindR getObj (\<lambda>ls.
     bindR (wrapE ''get HAKeeper discovery service'' (findR (api_get (s_svcs S) (lob_ns ls, discoverySvcName (viewOf ls))))) (\<lambda>svc.
     bindR (wrapE ''get logservice statefulset'' (findR (api_get (s_stss S) (lob_ns ls, stsName (viewOf ls))))) (\<lambda>found.
     case (found, svc) of
       (Some sts, Some _) \<Rightarrow> observeFoundLog U T S tv sts
     | _ \<Rightarrow> ret (Some LogCreate))))"

section \<open>Create and Update\<close>

definition createCM :: "'w senv \<Rightarrow> config_map \<Rightarrow> (('o, 'w) ctx, unit) rm" where
  "createCM S cm = bindR (callW (api_create (l_cms (s_l S)) cm)) (\<lambda>_. ret ())"

text \<open>\<^verbatim>\<open>Create\<close> after the bootstrap configuration \<open>bc\<close> was built, and the whole.\<close>

definition createLogObjects :: "tools \<Rightarrow> codec \<Rightarrow> 'w senv \<Rightarrow> (pod_tpl \<Rightarrow> pod_template) \<Rightarrow> config_map \<Rightarrow> ('w log_ctx, unit) rm" where
  "createLogObjects U T S tv bc =
     bindR getObj (\<lambda>ls.
     let svc = buildHeadlessSvcLog ls; sts0 = syncReplicasLog ls (buildStatefulSet ls);
         t1 = syncPodMetaSet U (logPod ls) (kt_template sts0) in
     bindR (liftE (syncPodSpecLog U (viewOf ls) (logPod ls) (logLabels ls) (lsp_storage (lob_spec ls)) (pm_spec t1))) (\<lambda>spec.
     let sts1 = syncPersistentVolumeClaimLog ls (sts0\<lparr>kt_template := t1\<lparr>pm_spec := spec\<rparr>\<rparr>) in
     bindR (liftE (buildGossipSeedsConfigMap T (viewOf ls) (stsView tv sts1))) (\<lambda>gconfig.
     bindR (liftE (buildConfigMapLog U T ls)) (\<lambda>(cm, sfx).
     let t2 = withSuffix U (logPod ls) sfx (kt_template sts1) in
     bindR (SyncConfigMap U (s_l S) (logPod ls) cm spec) (\<lambda>spec'.
     let sts = sts1\<lparr>kt_template := t2\<lparr>pm_spec := spec'\<rparr>\<rparr> in
     bindR (createAll
       [createCM S bc, createCM S gconfig,
        bindR (callW (api_create (s_svcs S) svc)) (\<lambda>_. ret ()),
        bindR (callW (api_create (s_stss S) sts)) (\<lambda>_. ret ()),
        bindR (callW (api_create (s_svcs S) (buildDiscoveryService ls))) (\<lambda>_. ret ())]) (\<lambda>errs.
     if errs = [] then ret () else throw (wrapPrefix ''create'' (multierr errs))))))))"

definition CreateLog :: "tools \<Rightarrow> codec \<Rightarrow> 'w senv \<Rightarrow> (pod_tpl \<Rightarrow> pod_template) \<Rightarrow> ('w log_ctx, unit) rm" where
  "CreateLog U T S tv = bindR (buildBootstrapConfig T S) (createLogObjects U T S tv)"

definition UpdateLog :: "'w senv \<Rightarrow> kruise_sts \<Rightarrow> ('w log_ctx, unit) rm" where
  "UpdateLog S sts = bindR (callW (api_update (s_stss S) sts)) (\<lambda>_. ret ())"

section \<open>What the steps do\<close>

lemma onView_sends: "onlySends (\<lambda>_. True) ok m \<Longrightarrow> onlySends (\<lambda>_. True) ok (onView m)"
  unfolding onlySends_def onView_def by (auto split: prod.splits) (metis ctx.select_convs(2))

text \<open>A handler that keeps its object keeps it on the view.\<close>

lemma onView_keeps:
  assumes "\<And>c. onlySends (\<lambda>x. x = c) ok m"
  shows "onlySends (\<lambda>x. x = ls) ok (onView m)"
  unfolding onlySends_def
proof (intro allI impI)
  fix s r s' assume s: "Obj s = ls" and run: "onView m s = (r, s')"
  obtain s1 where m: "m \<lparr>Obj = viewOf (Obj s), world = world s\<rparr> = (r, s1)"
      and s': "s' = s\<lparr>Obj := (Obj s)\<lparr>lob_annos := lgs_annos (Obj s1), lob_failover := lgs_failover (Obj s1)\<rparr>, world := world s1\<rparr>"
    using run by (auto simp: onView_def split: prod.splits)
  from onlySendsD[OF assms[of "viewOf (Obj s)"] _ m] obtain es where
      "logOf s1 = es @ logOf \<lparr>Obj = viewOf (Obj s), world = world s\<rparr>" "\<forall>e \<in> set es. ok e" "Obj s1 = viewOf (Obj s)" by auto
  then show "Obj s' = ls \<and> (\<exists>es. logOf s' = es @ logOf s \<and> (\<forall>e \<in> set es. ok e))"
    using s by (auto simp: s' viewOf_def)
qed

lemma syncBucketClaim_sends: "(\<And>x. ok (BucketW x)) \<Longrightarrow> onlySends (\<lambda>x. x = c) ok (syncBucketClaim (loggedL L) tpl)"
  unfolding syncBucketClaim_def createNewBucket_def ClaimedBucket_def Let_def
  by (rule sendsR | simp only: send_simps | simp)+

lemma syncBucketEverRunningAnn_sends: "(\<And>x. ok (BucketW x)) \<Longrightarrow> onlySends (\<lambda>x. x = c) ok (syncBucketEverRunningAnn (loggedL L))"
  unfolding syncBucketEverRunningAnn_def SetBucketEverRunningAnn_def ClaimedBucket_def Let_def
  by (rule sendsR | simp only: send_simps | simp)+

lemma StoresFailedFor_none:
  "StoresFailedFor (loggedL L) d xs s = (Inr [], s') \<Longrightarrow> x \<in> set xs \<Longrightarrow> \<exists>t w w'. l_now L w = (t, w') \<and> t - sr_lastTransition x < d"
proof (induction xs arbitrary: s)
  case (Cons y ys)
  obtain t w1 where t: "l_now L (fst (world s)) = (t, w1)" by fastforce
  with Cons.prems(1) have "StoresFailedFor (loggedL L) d ys (s\<lparr>world := (w1, logOf s)\<rparr>) = (Inr [], s')" "t - sr_lastTransition y < d"
    by (auto simp: readW_def readL_def bindR_def ret_def split: prod.splits sum.splits if_splits)
  with Cons.IH Cons.prems(2) t show ?case by auto
qed simp

lemma syncLogStatus_result:
  assumes run: "syncLogStatus (loggedS S) s = (Inr x, s1)" and laws: "conditionLaws S"
  shows "\<exists>st conds. Obj s1 = (Obj s)\<lparr>lob_failover := st, lob_conditions := conds, lob_discovery := Some (discoverySvcAddress (viewOf (Obj s)), logServicePort)\<rparr> \<and>
    (s_isReady S conds \<longleftrightarrow> logReady (Obj s) st) \<and> logOf s1 = logOf s"
proof -
  let ?c = "\<lambda>st. if logReady (Obj s) st then newCondition ConditionTypeReady ConditionTrue reasonEmpty []
    else newCondition ConditionTypeReady ConditionFalse ReasonNoEnoughReadyStores []"
  from run obtain st conds cs0 w w' where
      obj: "Obj s1 = (Obj s)\<lparr>lob_failover := st, lob_conditions := conds, lob_discovery := Some (discoverySvcAddress (viewOf (Obj s)), logServicePort)\<rparr>"
      and set: "s_setCondition S cs0 (?c st) w = (conds, w')"
    unfolding syncLogStatus_def SetCondition_def bindR_getObj Let_def
    by (auto simp: callW_def readW_def modObj_def readL_def newCondition_def ReasonNoEnoughReadyStores_def
        dest!: readStores_obj elim!: bindR_InrE split: prod.splits if_splits)
  have "onlySends (\<lambda>_. True) (\<lambda>_. False) (syncLogStatus (loggedS S))"
    unfolding syncLogStatus_def Let_def by (rule sendsR | simp only: send_simps | simp)+
  from onlySendsD[OF this _ run] have quiet: "logOf s1 = logOf s" by fastforce
  have "cd_type (?c st) = ConditionTypeReady" by (simp add: newCondition_def)
  then have "s_isReady S conds \<longleftrightarrow> cd_status (?c st) = ConditionTrue"
    using laws set unfolding conditionLaws_def by blast
  also have "\<dots> \<longleftrightarrow> logReady (Obj s) st" by (simp add: newCondition_def)
  finally show ?thesis using obj quiet by blast
qed

text \<open>The stateful set that is asked for.\<close>

definition desiredLog :: "tools \<Rightarrow> codec \<Rightarrow> log_obj \<Rightarrow> kruise_sts \<Rightarrow> err + kruise_sts" where
  "desiredLog U T ls sts =
     (let sts1 = syncStatefulSetSpec ls sts in
      thenE (buildConfigMapLog U T ls) (\<lambda>(cm, sfx).
      thenE (configMapUsed U (logPod ls) cm) (\<lambda>n.
      thenE (renderLog U (viewOf ls) (logPod ls) (logLabels ls) (lsp_storage (lob_spec ls)) sfx n (kt_template sts1)) (\<lambda>t.
      Inr (sts1\<lparr>kt_template := t\<rparr>)))))"

lemma syncPodsLog_result:
  assumes run: "syncPodsLog U T S (syncStatefulSetSpec (Obj s) sts) s = (Inr sts', s')"
  shows "Obj s' = Obj s \<and> desiredLog U T (Obj s) sts = Inr sts'"
proof -
  let ?ls = "Obj s" let ?p = "logPod (Obj s)" and ?sts = "syncStatefulSetSpec (Obj s) sts"
  let ?t = "\<lambda>sfx. (if opVersion U ?p = LatestOpVersion then setAnno ConfigSuffixAnno sfx (syncPodMetaSet U ?p (kt_template ?sts))
    else syncPodMetaSet U ?p (kt_template ?sts))"
  from run obtain cm sfx spec spec' where cm: "buildConfigMapLog U T ?ls = Inr (cm, sfx)"
      and spec: "syncPodSpecLog U (viewOf ?ls) ?p (logLabels ?ls) (lsp_storage (lob_spec ?ls)) (pm_spec (?t sfx)) = Inr spec"
      and spec': "SyncConfigMap U (s_l S) ?p cm spec s = (Inr spec', s')" and sts': "sts' = ?sts\<lparr>kt_template := (?t sfx)\<lparr>pm_spec := spec'\<rparr>\<rparr>"
    unfolding syncPodsLog_def bindR_getObj Let_def by (auto simp: liftE_runs ret_def elim!: bindR_InrE)
  from SyncConfigMap_result[OF spec'] obtain n where n: "configMapUsed U ?p cm = Inr n" "setConfigVolume U n spec = Inr spec'" by blast
  have "renderLog U (viewOf ?ls) ?p (logLabels ?ls) (lsp_storage (lob_spec ?ls)) sfx n (kt_template ?sts) = Inr ((?t sfx)\<lparr>pm_spec := spec'\<rparr>)"
    using spec n(2) by (simp add: renderLog_def overSpec_def thenE_def Let_def)
  then have "desiredLog U T ?ls sts = Inr sts'" using cm n(1) by (simp add: desiredLog_def Let_def thenE_def sts')
  with SyncConfigMap_result[OF spec'] show ?thesis by blast
qed

lemma desiredLog_settles:
  assumes laws: "toolLaws U"
  shows "settles (desiredLog U T ls)"
  unfolding settles_def
proof (intro allI impI)
  fix sts sts' assume "desiredLog U T ls sts = Inr sts'"
  then obtain cm sfx n t where cm: "buildConfigMapLog U T ls = Inr (cm, sfx)" and n: "configMapUsed U (logPod ls) cm = Inr n"
      and t: "renderLog U (viewOf ls) (logPod ls) (logLabels ls) (lsp_storage (lob_spec ls)) sfx n (kt_template (syncStatefulSetSpec ls sts)) = Inr t"
      and sts': "sts' = (syncStatefulSetSpec ls sts)\<lparr>kt_template := t\<rparr>"
    by (auto simp: desiredLog_def thenE_Inr_iff Let_def)
  have "renderLog U (viewOf ls) (logPod ls) (logLabels ls) (lsp_storage (lob_spec ls)) sfx n t = Inr t"
    using t renderings_settle[OF laws] unfolding settles_def by blast
  moreover have "syncStatefulSetSpec ls sts' = sts'" by (simp add: sts' syncStatefulSetSpec_def split: retention_policy.split)
  ultimately show "desiredLog U T ls sts' = Inr sts'" using cm n by (simp add: desiredLog_def Let_def thenE_def) (simp add: sts')
qed

lemma growth_sends_Log:
  assumes "\<And>c. ok (PvcW c)" and "\<And>claims. ok (KruiseStsW (WUpdate (sts\<lparr>kt_claims := claims\<rparr>)))"
  shows "onlySends P ok (SyncStsVolumeSize U (loggedS S) ns name kind n sts)"
  using assms by (rule growth_sends_DN)

lemma syncMetricServiceLog_sends [sendsR]: "(\<And>x y. ok (SvcOwnedW x y)) \<Longrightarrow> onlySends P ok (syncMetricServiceLog (loggedS S))"
  unfolding syncMetricServiceLog_def by (rule sendsR | assumption)+

text \<open>No store of the status is overdue: a clock reading found each failed store within the failure timeout.\<close>

definition noneOverdue :: "'w senv \<Rightarrow> log_obj \<Rightarrow> bool" where
  "noneOverdue S ls \<longleftrightarrow> (\<forall>x \<in> set (fo_failed (lob_failover ls)). \<exists>t w w'. l_now (s_l S) w = (t, w') \<and>
     t - sr_lastTransition x < GetStoreFailureTimeout (partOf (lob_spec ls)))"

definition logComplete :: "tools \<Rightarrow> codec \<Rightarrow> 'w senv \<Rightarrow> log_obj \<Rightarrow> kruise_sts \<Rightarrow> log_obj \<Rightarrow> bool" where
  "logComplete U T S ls sts ls' \<longleftrightarrow>
     (let replicas = pd_replicas (logPod ls) in
      kt_replicas sts = Some replicas \<and> lob_spec ls' = lob_spec ls \<and> s_isReady S (lob_conditions ls') \<and>
      replicas \<le> int (length (fo_available (lob_failover ls'))) \<and> fo_failed (lob_failover ls') = [] \<and>
      lob_discovery ls' = Some (discoverySvcAddress (viewOf ls), logServicePort) \<and>
      (\<exists>desired sts' w w'. desiredLog U T ls sts = Inr desired \<and> s_dryRunSts S desired w = (Inr sts', w') \<and> semSts sts = semSts sts' \<and>
         replicas \<le> kt_statusUpdatedReady sts'))"

lemma config_status:
  "buildConfigMapLog U T (ls\<lparr>lob_failover := st, lob_conditions := conds, lob_discovery := d\<rparr>) = buildConfigMapLog U T ls"
  by (simp add: buildConfigMapLog_def logConfig_def logSettings_def logPod_def discoverySvcAddress_def discoverySvcName_def deploymentID_def
      configMapName_def viewOf_def resourceName_def Let_def)

lemma desiredLog_status:
  "desiredLog U T (ls\<lparr>lob_failover := st, lob_conditions := conds, lob_discovery := d\<rparr>) sts = desiredLog U T ls sts"
proof -
  let ?ls = "ls\<lparr>lob_failover := st, lob_conditions := conds, lob_discovery := d\<rparr>"
  have "logEnv U (viewOf ?ls) = logEnv U (viewOf ls)" "logVolumes U (viewOf ?ls) = logVolumes U (viewOf ls)"
    by (simp_all add: fun_eq_iff logEnv_def logVolumes_def headlessSvcName_def bootstrapConfigMapName_def gossipConfigMapName_def viewOf_def resourceName_def)
  then have "renderLog U (viewOf ?ls) = renderLog U (viewOf ls)"
    by (intro ext) (simp only: renderLog_def syncPodSpecLog_def[abs_def])
  then show ?thesis by (simp add: desiredLog_def Let_def logPod_def logLabels_def syncStatefulSetSpec_def config_status)
qed

lemma finishLog_result:
  assumes run: "finishLog U T (loggedS S) tv sts s = (Inr a, s')"
  shows "Obj s' = Obj s \<and> (\<exists>desired sts' w w'. desiredLog U T (Obj s) sts = Inr desired \<and> s_dryRunSts S desired w = (Inr sts', w') \<and>
    (case a of
       Some act \<Rightarrow> act = LogUpdate sts' \<and> semSts sts \<noteq> semSts sts'
     | None \<Rightarrow> semSts sts = semSts sts' \<and> s_isReady S (lob_conditions (Obj s)) \<and> fo_failed (lob_failover (Obj s)) = [] \<and>
         pd_replicas (logPod (Obj s)) \<le> kt_statusUpdatedReady sts'))"
proof -
  let ?ls = "Obj s"
  let ?grow = "\<lambda>sts'. SyncStsVolumeSize U (loggedS S) (lob_ns ?ls) (lob_name ?ls) (lob_kind ?ls) (vc_size (lsp_volume (lob_spec ?ls))) sts'"
  let ?claim = "\<lambda>sts'. onView (syncBucketClaim (loggedL (s_l S)) (tv (kt_template sts')))"
  let ?ever = "if fo_available (lob_failover ?ls) \<noteq> []
    then wrapE ''sync bucket ever running annotation'' (onView (syncBucketEverRunningAnn (loggedL (s_l S)))) else ret ()"
  from run obtain desired sts' s2 s3 where
      s2: "syncPodsLog U T (loggedS S) (syncStatefulSetSpec ?ls sts) s = (Inr desired, s2)"
      and s3: "callW (s_dryRunSts (loggedS S) desired) s2 = (Inr sts', s3)"
      and fin: "semSts sts \<noteq> semSts sts' \<and> a = Some (LogUpdate sts') \<and> s' = s3 \<or>
        semSts sts = semSts sts' \<and> a = None \<and> s_isReady S (lob_conditions ?ls) \<and> fo_failed (lob_failover ?ls) = [] \<and>
        pd_replicas (logPod ?ls) \<le> kt_statusUpdatedReady sts' \<and>
        (\<exists>s4 s5 s6. ?grow sts' s3 = (Inr (), s4) \<and> ?claim sts' s4 = (Inr (), s5) \<and> ?ever s5 = (Inr (), s6) \<and>
           syncMetricServiceLog (loggedS S) s6 = (Inr (), s'))"
    unfolding finishLog_def bindR_getObj
    by (elim bindR_InrE) (auto simp: ret_def throw_def ErrReSync_def elim!: bindR_InrE split: if_splits)
  have o2: "Obj s2 = ?ls" and des: "desiredLog U T ?ls sts = Inr desired" using syncPodsLog_result[OF s2] by auto
  have o3: "Obj s3 = ?ls" and dry: "\<exists>w w'. s_dryRunSts S desired w = (Inr sts', w')"
    using s3 o2 by (auto simp: callW_def readL_def split: prod.splits)
  have claim: "\<And>c. onlySends (\<lambda>x. x = c) (\<lambda>_. True) (?claim sts')"
    by (rule onView_keeps) (rule syncBucketClaim_sends, simp)
  have ever: "\<And>c. onlySends (\<lambda>x. x = c) (\<lambda>_. True) ?ever"
    by (auto intro!: onlySends_wrapE onlySends_ret onView_keeps syncBucketEverRunningAnn_sends)
  have "Obj s' = ?ls" using fin
  proof (elim disjE conjE exE)
    fix s4 s5 s6 assume s4: "?grow sts' s3 = (Inr (), s4)" and s5: "?claim sts' s4 = (Inr (), s5)" and s6: "?ever s5 = (Inr (), s6)"
      and s7: "syncMetricServiceLog (loggedS S) s6 = (Inr (), s')"
    have "Obj s4 = Obj s3" by (rule keeps_obj[where m = "?grow sts'", OF _ s4]) (rule growth_sends_DN | simp)+
    moreover have "Obj s5 = Obj s4" by (rule keeps_obj[OF claim s5])
    moreover have "Obj s6 = Obj s5" by (rule keeps_obj[OF ever s6])
    moreover have "Obj s' = Obj s6" by (rule keeps_obj[where m = "syncMetricServiceLog (loggedS S)", OF _ s7]) (rule sendsR | simp)+
    ultimately show ?thesis using o3 by simp
  qed (simp add: o3)
  with des dry fin show ?thesis by (auto split: option.split)
qed

section \<open>Repair comes first\<close>

text \<open>The cases of \<^verbatim>\<open>Observe\<close> once both objects exist; \<open>s1\<close> is the state after the status was collected.\<close>

lemma observeFoundLog_cases:
  assumes laws: "conditionLaws S" and run: "observeFoundLog U T (loggedS S) tv sts s = (Inr a, s')"
  obtains st conds where
    "Obj s' = (Obj s)\<lparr>lob_failover := st, lob_conditions := conds, lob_discovery := Some (discoverySvcAddress (viewOf (Obj s)), logServicePort)\<rparr>"
    "s_isReady S conds \<longleftrightarrow> logReady (Obj s) st"
    "a = Some (LogRepair sts) \<and> (\<exists>x \<in> set (fo_failed st). overdue (s_l S) (GetStoreFailureTimeout (partOf (lob_spec (Obj s)))) x) \<or>
     noneOverdue S (Obj s') \<and> a = Some (LogScale sts) \<and> kt_replicas sts \<noteq> Some (pd_replicas (logPod (Obj s))) \<or>
     noneOverdue S (Obj s') \<and> kt_replicas sts = Some (pd_replicas (logPod (Obj s))) \<and>
       (\<exists>desired sts' w w'. desiredLog U T (Obj s) sts = Inr desired \<and> s_dryRunSts S desired w = (Inr sts', w') \<and>
         (case a of
            Some act \<Rightarrow> act = LogUpdate sts' \<and> semSts sts \<noteq> semSts sts'
          | None \<Rightarrow> semSts sts = semSts sts' \<and> s_isReady S conds \<and> fo_failed st = [] \<and> pd_replicas (logPod (Obj s)) \<le> kt_statusUpdatedReady sts'))"
proof -
  from run obtain s1 failed s2 where s1: "syncLogStatus (loggedS S) s = (Inr (), s1)"
      and s2: "StoresFailedFor (loggedL (s_l S)) (GetStoreFailureTimeout (partOf (lob_spec (Obj s1)))) (fo_failed (lob_failover (Obj s1))) s1 = (Inr failed, s2)"
      and cs: "failed \<noteq> [] \<and> a = Some (LogRepair sts) \<and> s' = s2 \<or>
        failed = [] \<and> (\<exists>n. kt_replicas sts = Some n \<and> n \<noteq> pd_replicas (logPod (Obj s1))) \<and> a = Some (LogScale sts) \<and> s' = s2 \<or>
        failed = [] \<and> kt_replicas sts = Some (pd_replicas (logPod (Obj s1))) \<and> finishLog U T (loggedS S) tv sts s2 = (Inr a, s')"
    unfolding observeFoundLog_def
    by (elim bindR_InrE) (auto simp: getObj_def ret_def orPanic_def throw_def elim!: bindR_InrE split: if_splits option.splits)
  obtain st conds where o1: "Obj s1 = (Obj s)\<lparr>lob_failover := st, lob_conditions := conds, lob_discovery := Some (discoverySvcAddress (viewOf (Obj s)), logServicePort)\<rparr>"
      and ready: "s_isReady S conds \<longleftrightarrow> logReady (Obj s) st" using syncLogStatus_result[OF s1 laws] by blast
  note sp = StoresFailedFor_spec[OF s2]
  have quietN: "noneOverdue S (Obj s1)" if "failed = []"
    using StoresFailedFor_none[OF s2[unfolded that]] by (auto simp: noneOverdue_def)
  have pod: "logPod (Obj s1) = logPod (Obj s)" by (simp add: o1 logPod_def)
  have fields: "lob_conditions (Obj s1) = conds" "lob_failover (Obj s1) = st" by (simp_all add: o1)
  show thesis
  proof (rule that[where ?st = st and ?conds = conds])
    from cs sp finishLog_result have o': "Obj s' = Obj s1" by (metis (no_types, lifting))
    then show "Obj s' = (Obj s)\<lparr>lob_failover := st, lob_conditions := conds, lob_discovery := Some (discoverySvcAddress (viewOf (Obj s)), logServicePort)\<rparr>"
      using o1 by simp
    show "s_isReady S conds \<longleftrightarrow> logReady (Obj s) st" by (rule ready)
    show "a = Some (LogRepair sts) \<and> (\<exists>x \<in> set (fo_failed st). overdue (s_l S) (GetStoreFailureTimeout (partOf (lob_spec (Obj s)))) x) \<or>
     noneOverdue S (Obj s') \<and> a = Some (LogScale sts) \<and> kt_replicas sts \<noteq> Some (pd_replicas (logPod (Obj s))) \<or>
     noneOverdue S (Obj s') \<and> kt_replicas sts = Some (pd_replicas (logPod (Obj s))) \<and>
       (\<exists>desired sts' w w'. desiredLog U T (Obj s) sts = Inr desired \<and> s_dryRunSts S desired w = (Inr sts', w') \<and>
         (case a of
            Some act \<Rightarrow> act = LogUpdate sts' \<and> semSts sts \<noteq> semSts sts'
          | None \<Rightarrow> semSts sts = semSts sts' \<and> s_isReady S conds \<and> fo_failed st = [] \<and> pd_replicas (logPod (Obj s)) \<le> kt_statusUpdatedReady sts'))"
      using cs
    proof (elim disjE conjE)
      assume "failed \<noteq> []" "a = Some (LogRepair sts)"
      moreover then obtain x where "x \<in> set failed" by (cases failed) auto
      ultimately show ?thesis using sp by (auto simp: o1)
    next
      assume f: "failed = []" "finishLog U T (loggedS S) tv sts s2 = (Inr a, s')" "kt_replicas sts = Some (pd_replicas (logPod (Obj s1)))"
      have o2: "Obj s2 = Obj s1" using sp by simp
      from finishLog_result[OF f(2)] obtain desired sts' w w' where d: "desiredLog U T (Obj s1) sts = Inr desired" "s_dryRunSts S desired w = (Inr sts', w')"
        and c: "case a of Some act \<Rightarrow> act = LogUpdate sts' \<and> semSts sts \<noteq> semSts sts'
          | None \<Rightarrow> semSts sts = semSts sts' \<and> s_isReady S conds \<and> fo_failed st = [] \<and> pd_replicas (logPod (Obj s)) \<le> kt_statusUpdatedReady sts'"
        unfolding o2 pod fields by blast
      have "desiredLog U T (Obj s) sts = Inr desired" using d(1) by (simp add: o1 desiredLog_status)
      with d(2) c f(1,3) quietN o' pod show ?thesis by (metis (no_types, lifting))
    qed (use quietN o' pod in auto)
  qed
qed

lemma findR_None: "findR (readL (f k)) s = (Inr None, s') \<Longrightarrow> absent f k"
  by (auto simp: findR_def attempt_def callW_def readL_def bindR_def ret_def throw_def absent_def split: sum.splits prod.splits if_splits)

lemma findR_Some: "findR (readL f) s = (Inr (Some x), s') \<Longrightarrow> \<exists>w w'. f w = (Inr x, w') \<and> s' = s\<lparr>world := (w', logOf s)\<rparr>"
  by (auto simp: findR_def attempt_def callW_def readL_def bindR_def ret_def throw_def split: sum.splits prod.splits if_splits)

lemma LogObserve_cases:
  assumes run: "LogObserve U T (loggedS S) tv s = (Inr a, s')"
  obtains (create) "a = Some LogCreate" "absent (api_get (s_stss S)) (lob_ns (Obj s), stsName (viewOf (Obj s))) \<or>
       absent (api_get (s_svcs S)) (lob_ns (Obj s), discoverySvcName (viewOf (Obj s)))"
  | (found) sts w w' w0 where "api_get (s_stss S) (lob_ns (Obj s), stsName (viewOf (Obj s))) w = (Inr sts, w')"
      "observeFoundLog U T (loggedS S) tv sts (s\<lparr>world := w0\<rparr>) = (Inr a, s')"
proof -
  from run obtain svc s1 sts s2 where s1: "findR (readL (api_get (s_svcs S) (lob_ns (Obj s), discoverySvcName (viewOf (Obj s))))) s = (Inr svc, s1)"
      and s2: "findR (readL (api_get (s_stss S) (lob_ns (Obj s), stsName (viewOf (Obj s))))) s1 = (Inr sts, s2)"
      and rest: "(case (sts, svc) of (Some x, Some _) \<Rightarrow> observeFoundLog U T (loggedS S) tv x | _ \<Rightarrow> ret (Some LogCreate)) s2 = (Inr a, s')"
    unfolding LogObserve_def bindR_getObj by (auto elim!: bindR_InrE)
  show thesis
  proof (cases "sts = None \<or> svc = None")
    case True
    then have "a = Some LogCreate" using rest by (auto simp: ret_def split: option.splits)
    moreover have "absent (api_get (s_stss S)) (lob_ns (Obj s), stsName (viewOf (Obj s))) \<or>
       absent (api_get (s_svcs S)) (lob_ns (Obj s), discoverySvcName (viewOf (Obj s)))"
      using True findR_None[where f = "api_get (s_stss S)"] findR_None[where f = "api_get (s_svcs S)"] s1 s2 by blast
    ultimately show thesis by (rule create)
  next
    case False
    then obtain x y where "sts = Some x" "svc = Some y" by auto
    then show thesis using found[of _ x] findR_Some[OF s1[unfolded \<open>svc = Some y\<close>]] findR_Some[OF s2[unfolded \<open>sts = Some x\<close>]] rest by auto
  qed
qed

text \<open>C11 (\<^verbatim>\<open>Observe\<close> of the log set): repair comes before scaling and updating. Every pod of a log set holds part of the log of the
  cluster, so a set with a store that is down for longer than the failure timeout must not be scaled or rolled. Creation comes
  before all of it: \<^verbatim>\<open>Observe\<close> answers \<^verbatim>\<open>Create\<close> only if the stateful set or the discovery service was not found, and then without
  looking at the stores. It answers \<^verbatim>\<open>Repair\<close> only if the collected status has an overdue store, and scales or updates only if a
  clock reading found every failed store within the timeout; it scales only when the replicas differ, and updates only when they
  are right and the stateful set is not what the object asks for. It ends without an action only if no store is failed.\<close>

theorem log_repair_first:
  assumes laws: "conditionLaws S" and run: "LogObserve U T (loggedS S) tv s = (Inr a, s')"
  shows "case a of
     Some LogCreate \<Rightarrow> absent (api_get (s_stss S)) (lob_ns (Obj s), stsName (viewOf (Obj s))) \<or>
       absent (api_get (s_svcs S)) (lob_ns (Obj s), discoverySvcName (viewOf (Obj s)))
   | Some (LogRepair sts) \<Rightarrow> (\<exists>x \<in> set (fo_failed (lob_failover (Obj s'))). overdue (s_l S) (GetStoreFailureTimeout (partOf (lob_spec (Obj s)))) x)
   | Some (LogScale sts) \<Rightarrow> noneOverdue S (Obj s') \<and> kt_replicas sts \<noteq> Some (pd_replicas (logPod (Obj s)))
   | Some (LogUpdate sts') \<Rightarrow> noneOverdue S (Obj s') \<and> (\<exists>sts desired w w'. kt_replicas sts = Some (pd_replicas (logPod (Obj s))) \<and>
       desiredLog U T (Obj s) sts = Inr desired \<and> s_dryRunSts S desired w = (Inr sts', w') \<and> semSts sts \<noteq> semSts sts')
   | None \<Rightarrow> fo_failed (lob_failover (Obj s')) = []"
  using run
proof (cases rule: LogObserve_cases)
  case (found sts w w' w0)
  show ?thesis by (rule observeFoundLog_cases[OF laws found(2)]) (auto split: option.splits; blast)
qed simp

text \<open>C13 (\<^verbatim>\<open>Observe\<close> of the log set): a reconciliation that ends without an action or an error is complete. The stored stateful set has
  the replicas of the specification and is semantically what the object asks for, enough pods are updated and ready, at least as
  many stores are available as replicas are wanted and none is failed, the status says ready and publishes the discovery
  address of the log service.\<close>

theorem log_observe_complete:
  assumes laws: "conditionLaws S" and run: "LogObserve U T (loggedS S) tv s = (Inr None, s')"
  shows "\<exists>sts w w'. api_get (s_stss S) (lob_ns (Obj s), stsName (viewOf (Obj s))) w = (Inr sts, w') \<and> logComplete U T S (Obj s) sts (Obj s')"
  using run
proof (cases rule: LogObserve_cases)
  case (found sts w w' w0)
  have "logComplete U T S (Obj s) sts (Obj s')"
    by (rule observeFoundLog_cases[OF laws found(2)]) (auto simp: logComplete_def Let_def logReady_def)
  with found(1) show ?thesis by blast
qed simp

section \<open>The order of creation\<close>

text \<open>A step that sends exactly the event \<open>e\<close>.\<close>

definition sendsOne :: "'e \<Rightarrow> (('o, ('w, 'e) elog) ctx, unit) rm \<Rightarrow> bool" where
  "sendsOne e m \<longleftrightarrow> (\<forall>s r s'. m s = (r, s') \<longrightarrow> Obj s' = Obj s \<and> logOf s' = e # logOf s)"

lemma sendsOne_create: "sendsOne e (bindR (callW (writeL e f)) (\<lambda>_. ret ()))"
  by (auto simp: sendsOne_def bindR_def callW_def writeL_def ret_def split: prod.splits sum.splits)

lemma createAll_log:
  assumes "list_all2 sendsOne es ms" "createAll ms s = (Inr errs, s')"
  shows "Obj s' = Obj s \<and> logOf s' = rev es @ logOf s"
  using assms
proof (induction arbitrary: s errs s' rule: list_all2_induct)
  case Nil
  then show ?case by (simp add: createAll_def ret_def)
next
  case (Cons e es m ms)
  from Cons.prems obtain r s1 errs' where r: "attempt m s = (Inr r, s1)" and rest: "createAll ms s1 = (Inr errs', s')"
    by (auto simp: createAll_def ret_def elim!: bindR_InrE)
  from r Cons.hyps(1) have "Obj s1 = Obj s \<and> logOf s1 = e # logOf s"
    by (auto simp: attempt_def sendsOne_def split: prod.splits sum.splits if_splits)
  with Cons.IH[OF rest] show ?case by simp
qed

text \<open>The bootstrap decision is either already in the annotations, or it is stored with the object by the only write.\<close>

definition decided :: "logset \<Rightarrow> bool" where
  "decided ls \<longleftrightarrow> gget (lgs_annos ls) bootstrapAnnoKey \<noteq> None"

lemma bootstrap_log:
  assumes run: "bootstrap (loggedL L) s = (Inr brs, s')"
  shows "decided (Obj s) \<and> s' = s \<or> \<not> decided (Obj s) \<and> (\<exists>u. decided u \<and> logOf s' = LogSetObjW (WUpdate u) # logOf s)"
proof (cases "gget (lgs_annos (Obj s)) bootstrapAnnoKey")
  case None
  then obtain n str where "\<exists>w r. updateObj (api_update (l_logsets (loggedL L))) (s\<lparr>Obj := (Obj s)\<lparr>lgs_annos := Some ((the (gmake (lgs_annos (Obj s))))(bootstrapAnnoKey \<mapsto> str))\<rparr>\<rparr>) = (Inr r, s')"
    using run by (auto simp: bootstrap_def bindR_getObj liftE_runs modObj_def ret_def throw_def elim!: bindR_InrE split: option.splits)
  then show ?thesis using None
    by (intro disjI2) (auto simp: decided_def updateObj_def writeL_def gget_def split: prod.splits sum.splits)
next
  case (Some str)
  then show ?thesis using run by (auto simp: bootstrap_def bindR_getObj liftE_runs decided_def)
qed

fun isConfigMapW :: "event \<Rightarrow> bool" where
  "isConfigMapW (ConfigMapW _) = True"
| "isConfigMapW _ = False"

lemma SyncConfigMap_log:
  assumes "SyncConfigMap U (loggedL L) p cm spec s = (Inr spec', s')"
  shows "\<exists>es. logOf s' = es @ logOf s \<and> list_all isConfigMapW es"
proof -
  have "onlySends (\<lambda>_. True) isConfigMapW (SyncConfigMap U (loggedL L) p cm spec)" by (rule SyncConfigMap_sends) simp
  from onlySendsD[OF this _ assms] show ?thesis by (auto simp: list_all_iff)
qed

text \<open>The claims, replicas and ordinals of the stateful set that is created for \<open>ls\<close>.\<close>

definition freshSts :: "log_obj \<Rightarrow> kruise_sts \<Rightarrow> bool" where
  "freshSts ls sts \<longleftrightarrow> kt_name sts = stsName (viewOf ls) \<and> kt_replicas sts = Some (pd_replicas (logPod ls)) \<and> kt_reserveOrdinals sts = [] \<and>
     (\<exists>ovs. kt_claims sts = PersistentVolumeClaimTemplate (vc_size (lsp_volume (lob_spec ls))) (vc_class (lsp_volume (lob_spec ls))) DataVolume # ovs)"

lemma createLogObjects_log:
  assumes run: "createLogObjects U T (loggedS S) tv bc s = (Inr (), s')"
  shows "\<exists>cms gc sts. logOf s' =
      [SvcW (WCreate (buildDiscoveryService (Obj s))), KruiseStsW (WCreate sts), SvcW (WCreate (buildHeadlessSvcLog (Obj s))),
       ConfigMapW (WCreate gc), ConfigMapW (WCreate bc)] @ cms @ logOf s \<and> list_all isConfigMapW cms \<and> freshSts (Obj s) sts"
proof -
  let ?ls = "Obj s" let ?p = "logPod ?ls"
  let ?sts0 = "syncReplicasLog ?ls (buildStatefulSet ?ls)"
  let ?t1 = "syncPodMetaSet U ?p (kt_template ?sts0)"
  let ?sts1 = "\<lambda>spec. syncPersistentVolumeClaimLog ?ls (?sts0\<lparr>kt_template := ?t1\<lparr>pm_spec := spec\<rparr>\<rparr>)"
  let ?sts = "\<lambda>spec sfx spec'. (?sts1 spec)\<lparr>kt_template := (withSuffix U ?p sfx (kt_template (?sts1 spec)))\<lparr>pm_spec := spec'\<rparr>\<rparr>"
  let ?create = "\<lambda>f x. bindR (callW (f x)) (\<lambda>_. ret ())"
  let ?steps = "\<lambda>gc sts. [createCM (loggedS S) bc, createCM (loggedS S) gc, ?create (api_create (s_svcs (loggedS S))) (buildHeadlessSvcLog ?ls),
    ?create (api_create (s_stss (loggedS S))) sts, ?create (api_create (s_svcs (loggedS S))) (buildDiscoveryService ?ls)]"
  from run obtain spec gc cm sfx spec' s2 errs where s2: "SyncConfigMap U (loggedL (s_l S)) ?p cm spec s = (Inr spec', s2)"
      and all: "createAll (?steps gc (?sts spec sfx spec')) s2 = (Inr errs, s')"
    unfolding createLogObjects_def bindR_getObj Let_def
    by (auto simp: liftE_runs ret_def throw_def elim!: bindR_InrE split: if_splits)
  have "list_all2 sendsOne [ConfigMapW (WCreate bc), ConfigMapW (WCreate gc), SvcW (WCreate (buildHeadlessSvcLog ?ls)),
      KruiseStsW (WCreate (?sts spec sfx spec')), SvcW (WCreate (buildDiscoveryService ?ls))] (?steps gc (?sts spec sfx spec'))"
    by (simp add: createCM_def sendsOne_create)
  from createAll_log[OF this all] SyncConfigMap_log[OF s2] obtain cms where
      "logOf s' = [SvcW (WCreate (buildDiscoveryService ?ls)), KruiseStsW (WCreate (?sts spec sfx spec')), SvcW (WCreate (buildHeadlessSvcLog ?ls)),
       ConfigMapW (WCreate gc), ConfigMapW (WCreate bc)] @ cms @ logOf s" "list_all isConfigMapW cms" by auto
  moreover have "freshSts ?ls (?sts spec sfx spec')"
    by (simp add: freshSts_def syncPersistentVolumeClaimLog_def volumeClaims_def AppendVolumeClaims_def syncReplicasLog_def buildStatefulSet_def
        syncStatefulSetSpec_def StatefulSetTemplate_def Let_def split: option.split retention_policy.split)
  ultimately show ?thesis by blast
qed

lemma buildBootstrapConfig_log:
  assumes run: "buildBootstrapConfig T (loggedS S) s = (Inr bc, s1)"
  shows "(\<exists>st an. Obj s1 = (Obj s)\<lparr>lob_annos := an, lob_failover := st\<rparr>) \<and> cm_name bc = bootstrapConfigMapName (viewOf (Obj s)) \<and>
    (decided (viewOf (Obj s)) \<and> logOf s1 = logOf s \<or> \<not> decided (viewOf (Obj s)) \<and> (\<exists>u. decided u \<and> logOf s1 = LogSetObjW (WUpdate u) # logOf s))"
proof -
  from run obtain brs where view: "onView (bootstrap (loggedL (s_l S))) s = (Inr brs, s1)" and bc: "cm_name bc = bootstrapConfigMapName (viewOf (Obj s1))"
    by (auto simp: buildBootstrapConfig_def getObj_def liftE_runs ret_def elim!: bindR_InrE)
  from view obtain s2 where boot: "bootstrap (loggedL (s_l S)) \<lparr>Obj = viewOf (Obj s), world = world s\<rparr> = (Inr brs, s2)"
      and s1: "s1 = s\<lparr>Obj := (Obj s)\<lparr>lob_annos := lgs_annos (Obj s2), lob_failover := lgs_failover (Obj s2)\<rparr>, world := world s2\<rparr>"
    by (auto simp: onView_def split: prod.splits)
  have "cm_name bc = bootstrapConfigMapName (viewOf (Obj s))" using bc by (simp add: s1 bootstrapConfigMapName_def resourceName_def viewOf_def)
  with bootstrap_log[OF boot] show ?thesis by (auto simp: s1)
qed

text \<open>C12 (\<^verbatim>\<open>Create\<close> of the log set): what a successful creation sends, in this order: the object with the bootstrap decision, unless
  the decision is there already; writes of the configuration; then the bootstrap and gossip config maps, the headless
  service, the stateful set with the wanted number of replicas and the data volume, and the discovery service. The decision of
  which replicas form the first quorum is stored before any pod can exist, and it is made once.\<close>

theorem log_create_order:
  assumes run: "CreateLog U T (loggedS S) tv s = (Inr (), s')"
  shows "\<exists>bs cms bc gc sts dsvc hsvc. logOf s' =
      [SvcW (WCreate dsvc), KruiseStsW (WCreate sts), SvcW (WCreate hsvc), ConfigMapW (WCreate gc), ConfigMapW (WCreate bc)] @ cms @ bs @ logOf s \<and>
    list_all isConfigMapW cms \<and> cm_name bc = bootstrapConfigMapName (viewOf (Obj s)) \<and>
    (decided (viewOf (Obj s)) \<and> bs = [] \<or> \<not> decided (viewOf (Obj s)) \<and> (\<exists>u. decided u \<and> bs = [LogSetObjW (WUpdate u)])) \<and>
    freshSts (Obj s) sts \<and> hsvc = buildHeadlessSvcLog (Obj s) \<and> dsvc = buildDiscoveryService (Obj s)"
proof -
  from run obtain bc s1 where s1: "buildBootstrapConfig T (loggedS S) s = (Inr bc, s1)" and rest: "createLogObjects U T (loggedS S) tv bc s1 = (Inr (), s')"
    unfolding CreateLog_def by (auto elim!: bindR_InrE)
  note boot = buildBootstrapConfig_log[OF s1]
  from boot obtain st an where o1: "Obj s1 = (Obj s)\<lparr>lob_annos := an, lob_failover := st\<rparr>" by blast
  have same: "freshSts (Obj s1) = freshSts (Obj s)" "buildHeadlessSvcLog (Obj s1) = buildHeadlessSvcLog (Obj s)"
      "buildDiscoveryService (Obj s1) = buildDiscoveryService (Obj s)"
    by (simp_all add: fun_eq_iff o1 freshSts_def logPod_def buildHeadlessSvcLog_def buildDiscoveryService_def logLabels_def viewOf_def stsName_def
        headlessSvcName_def discoverySvcName_def resourceName_def)
  from createLogObjects_log[OF rest] boot show ?thesis unfolding same by (elim exE conjE disjE) (intro exI conjI; fastforce)+
qed

section \<open>Sample runs\<close>

definition smallLogSet :: log_obj where
  "smallLogSet = \<lparr>lob_name = ''l'', lob_ns = ''ns'', lob_uid = ''u3'', lob_kind = ''LogSet'', lob_annos = None,
     lob_spec = zeroLogSpec\<lparr>lsp_pod := samplePodSet\<lparr>pd_replicas := 1\<rparr>, lsp_volume := \<lparr>vc_size = 10, vc_class = None\<rparr>, lsp_storage := localStorage,
       lsp_initial := \<lparr>ic_logShards = Some 1, ic_dnShards = Some 1, ic_logShardReplicas = Some 1, ic_restoreFrom = None\<rparr>\<rparr>,
     lob_conditions = [], lob_failover = \<lparr>fo_available = [], fo_failed = []\<rparr>, lob_discovery = None\<rparr>"

definition logPod0 :: pod where
  "logPod0 = oldPod\<lparr>pod_name := ''l-log-0'', pod_labels := logLabels smallLogSet\<rparr>"

definition logWorld :: "kruise_sts \<Rightarrow> set_mem" where
  "logWorld sts = setWorld\<lparr>sm_base := (sm_base setWorld)\<lparr>bm_pods := [logPod0]\<rparr>, sm_stss := [sts], sm_svcs := [buildDiscoveryService smallLogSet]\<rparr>"

definition noTplView :: "pod_tpl \<Rightarrow> pod_template" where
  "noTplView t = \<lparr>pt_labels = pm_labels t, pt_containers = [], pt_restartPolicy = [], pt_volumes = []\<rparr>"

lemma log_world_reads:
  "api_list (l_pods (s_l setEnv)) ''ns'' (MatchingLabels (SubResourceLabels ''ns'' ''l'' ''LogSet'')) (logWorld sts) = (Inr [logPod0], logWorld sts)"
  "l_now (s_l setEnv) (logWorld sts) = (700 * second, logWorld sts)"
  "api_get (s_svcs setEnv) (''ns'', discoverySvcName (viewOf smallLogSet)) (logWorld sts) = (Inr (buildDiscoveryService smallLogSet), logWorld sts)"
  "kt_name sts = ''l-log'' \<Longrightarrow> kt_ns sts = ''ns'' \<Longrightarrow> api_get (s_stss setEnv) (''ns'', stsName (viewOf smallLogSet)) (logWorld sts) = (Inr sts, logWorld sts)"
  by (simp_all add: logWorld_def setEnv_def baseEnv_def baseKind_def onBase_def bucketEnv_def memKind_def Let_def podKey_def logPod0_def oldPod_def
      logLabels_def subLabels_def smallLogSet_def SubResourceLabels_def NamespaceLabelKey_def InstanceLabelKey_def ComponentLabelKey_def
      buildDiscoveryService_def viewOf_def stsName_def discoverySvcName_def resourceName_def logSuffix_def setWorld_def lateWorld_def bucketWorld_def)

text \<open>A store that has been down since the start of time.\<close>

definition deadLogSet :: log_obj where
  "deadLogSet = smallLogSet\<lparr>lob_failover := \<lparr>fo_available = [], fo_failed = [\<lparr>sr_podName = ''l-log-0'', sr_phase = StorePhaseDown, sr_lastTransition = 0\<rparr>]\<rparr>\<rparr>"

definition downEnv :: "set_mem senv" where
  "downEnv = setEnv\<lparr>s_podUp := (\<lambda>p w. (False, w))\<rparr>"

lemma log_names:
  "lob_ns smallLogSet = ''ns''" "stsName (viewOf smallLogSet) = ''l-log''" "discoverySvcName (viewOf smallLogSet) = ''l-log-discovery''"
  "viewOf (smallLogSet\<lparr>lob_failover := st, lob_conditions := cs, lob_discovery := d\<rparr>) = (viewOf smallLogSet)\<lparr>lgs_failover := st\<rparr>"
  "viewOf (smallLogSet\<lparr>lob_failover := st\<rparr>) = (viewOf smallLogSet)\<lparr>lgs_failover := st\<rparr>"
  "stsName (l\<lparr>lgs_failover := st\<rparr>) = stsName l" "discoverySvcName (l\<lparr>lgs_failover := st\<rparr>) = discoverySvcName l"
  by (simp_all add: viewOf_def smallLogSet_def stsName_def discoverySvcName_def resourceName_def logSuffix_def)

text \<open>The status step in a world with the one pod, which answers or not.\<close>

lemma log_status_runs:
  fixes up :: bool
  defines "S \<equiv> setEnv\<lparr>s_podUp := (\<lambda>p w. (up, w))\<rparr>"
  shows "\<exists>conds d. syncLogStatus (loggedS S) \<lparr>Obj = smallLogSet\<lparr>lob_failover := st0\<rparr>, world = (logWorld sts, [])\<rparr> =
    (Inr (), \<lparr>Obj = smallLogSet\<lparr>lob_failover := CollectStoreStatus st0 [(''l-log-0'', up, 700 * second)], lob_conditions := conds, lob_discovery := d\<rparr>,
      world = (logWorld sts, [])\<rparr>)"
  using log_world_reads(1,2)[of sts] set_env_answers
  by (simp add: S_def syncLogStatus_def bindR_def getObj_def modObj_def wrapE_def callW_def readW_def readL_def SetCondition_def ret_def Let_def
      smallLogSet_def logPod0_def)

theorem log_repair_first_witness:
  "\<exists>sts s'. LogObserve sampleTools sampleCodec (loggedS downEnv) noTplView \<lparr>Obj = deadLogSet, world = (logWorld sts, [])\<rparr> = (Inr (Some (LogRepair sts)), s') \<and>
     (\<exists>x \<in> set (fo_failed (lob_failover (Obj s'))). overdue (s_l downEnv) (600 * second) x)"
proof -
  let ?sts = "buildStatefulSet deadLogSet" let ?s = "\<lparr>Obj = deadLogSet, world = (logWorld ?sts, [])\<rparr>"
  let ?down = "\<lparr>fo_available = [], fo_failed = [\<lparr>sr_podName = ''l-log-0'', sr_phase = StorePhaseDown, sr_lastTransition = 0\<rparr>]\<rparr>"
  have sts: "kt_name ?sts = ''l-log''" "kt_ns ?sts = ''ns''"
    by (simp_all add: buildStatefulSet_def syncStatefulSetSpec_def StatefulSetTemplate_def Let_def deadLogSet_def smallLogSet_def viewOf_def stsName_def
        resourceName_def logSuffix_def split: retention_policy.split)
  have st: "CollectStoreStatus ?down [(''l-log-0'', False, 700 * second)] = ?down"
    by (simp add: CollectStoreStatus_def storeOf_def previousStore_def Let_def StorePhaseDown_def StorePhaseUp_def)
  obtain conds d where stat: "syncLogStatus (loggedS downEnv) ?s =
      (Inr (), \<lparr>Obj = smallLogSet\<lparr>lob_failover := ?down, lob_conditions := conds, lob_discovery := d\<rparr>, world = (logWorld ?sts, [])\<rparr>)"
    using log_status_runs[of False ?down ?sts] unfolding st downEnv_def[symmetric] deadLogSet_def[symmetric] by blast
  have limit: "GetStoreFailureTimeout (partOf (lob_spec smallLogSet)) = 600 * second"
    by (simp add: GetStoreFailureTimeout_def partOf_def smallLogSet_def zeroLogSpec_def defaultStoreFailureTimeout_def second_def)
  have obs: "fst (observeFoundLog sampleTools sampleCodec (loggedS downEnv) noTplView ?sts ?s) = Inr (Some (LogRepair ?sts))"
    using stat log_world_reads(2)[of ?sts] limit
    by (simp add: observeFoundLog_def bindR_def getObj_def readW_def readL_def ret_def downEnv_def second_def)
  have "fst (LogObserve sampleTools sampleCodec (loggedS downEnv) noTplView ?s) = Inr (Some (LogRepair ?sts))"
    unfolding LogObserve_def bindR_getObj using log_world_reads(3)[of ?sts] log_world_reads(4)[OF sts] obs
    by (simp add: findR_def bindR_def wrapE_def attempt_def callW_def readL_def ret_def downEnv_def deadLogSet_def log_names)
  then obtain s' where run: "LogObserve sampleTools sampleCodec (loggedS downEnv) noTplView ?s = (Inr (Some (LogRepair ?sts)), s')" by (metis prod.collapse)
  have "conditionLaws downEnv" using setEnv_laws by (simp add: conditionLaws_def downEnv_def)
  from log_repair_first[OF this run] limit have "\<exists>x \<in> set (fo_failed (lob_failover (Obj s'))). overdue (s_l downEnv) (600 * second) x"
    by (simp add: deadLogSet_def)
  with run show ?thesis by blast
qed

lemma log_inplace: "inplaceConfig sampleTools (logPod smallLogSet)" "opVersion sampleTools (logPod smallLogSet) = LatestOpVersion"
  using small_inplace
  by (simp_all add: inplaceConfig_def opVersion_def logPod_def smallLogSet_def drainCN_def samplePodSet_def sampleTools_def LatestOpVersion_def OpVersion1_3_0_def)

lemma log_spec_runs:
  "\<exists>spec. syncPodSpecLog sampleTools ls (logPod smallLogSet) sel localStorage s = Inr spec \<and> ps_volumes spec = logVolumes sampleTools ls"
proof -
  have "\<exists>v. GoMemLimitEnv sampleTools (logPod smallLogSet) = Inr v"
    by (simp add: GoMemLimitEnv_def logPod_def smallLogSet_def samplePodSet_def noOverlay_def noMain_def sampleTools_def or_defs)
  then show ?thesis
    by (fastforce simp: syncPodSpecLog_def finish_volumes[OF sampleTools_laws] addedVolumes_def localStorage_def logPod_def smallLogSet_def samplePodSet_def
        noOverlay_def)
qed

lemma log_volume_runs: "ps_volumes spec = logVolumes sampleTools ls \<Longrightarrow> \<exists>spec'. setConfigVolume sampleTools n spec = Inr spec'"
  by (simp add: setConfigVolume_iff[OF sampleTools_laws] configOk_def logVolumes_def ConfigVolume_def)

lemma log_config: "logPod ls = logPod smallLogSet \<Longrightarrow> \<exists>cm. buildConfigMapLog sampleTools sampleCodec ls = Inr (cm, ''2000000'')"
  using log_inplace
  by (simp add: buildConfigMapLog_def logConfigData_def ToString_def MarshalTOML_def sampleCodec_def sampleDigest thenE_def) (simp add: sampleTools_def)

lemma log_desired: "\<exists>sts'. desiredLog sampleTools sampleCodec smallLogSet sts = Inr sts'"
proof -
  obtain cm where cm: "buildConfigMapLog sampleTools sampleCodec smallLogSet = Inr (cm, ''2000000'')" using log_config[OF refl] by blast
  have storage: "lsp_storage (lob_spec smallLogSet) = localStorage" by (simp add: smallLogSet_def)
  show ?thesis
    using log_spec_runs[of "viewOf smallLogSet" "logLabels smallLogSet" "pm_spec (setAnno ConfigSuffixAnno ''2000000'' (syncPodMetaSet sampleTools (logPod smallLogSet)
      (kt_template (syncStatefulSetSpec smallLogSet sts))))"] log_volume_runs[where n = "cm_name cm"]
    by (fastforce simp: desiredLog_def cm thenE_def configMapUsed_def log_inplace renderLog_def overSpec_def Let_def storage)
qed

lemma syncPodsLog_runs:
  assumes cm: "buildConfigMapLog U T (Obj s) = Inr (cm, sfx)" and inplace: "inplaceConfig U (logPod (Obj s))"
    and ens: "ensureConfigMap U (s_l S) cm s = (Inr (cm_name cm), s2)" and des: "desiredLog U T (Obj s) sts = Inr sts'"
  shows "syncPodsLog U T S (syncStatefulSetSpec (Obj s) sts) s = (Inr sts', s2)"
proof -
  from des show ?thesis
    unfolding syncPodsLog_def bindR_getObj Let_def
    by (auto simp: desiredLog_def cm configMapUsed_def inplace renderLog_def overSpec_Inr thenE_Inr_iff Let_def ens liftE_def ret_def bindR_def SyncConfigMap_def)
qed

theorem log_observe_complete_witness:
  "\<exists>sts s'. LogObserve sampleTools sampleCodec (loggedS setEnv) noTplView \<lparr>Obj = smallLogSet, world = (logWorld sts, [])\<rparr> = (Inr None, s') \<and>
     s_isReady setEnv (lob_conditions (Obj s')) \<and> 1 \<le> int (length (fo_available (lob_failover (Obj s')))) \<and> lob_discovery (Obj s') = Some (''l-log-discovery.ns.svc'', 32001)"
proof -
  let ?sts0 = "(syncReplicasLog smallLogSet (buildStatefulSet smallLogSet))\<lparr>kt_statusUpdatedReady := 1\<rparr>"
  obtain sts where des0: "desiredLog sampleTools sampleCodec smallLogSet ?sts0 = Inr sts" using log_desired by blast
  then have sts: "kt_name sts = ''l-log''" "kt_ns sts = ''ns''" "kt_replicas sts = Some 1" "kt_statusUpdatedReady sts = 1" "kt_claims sts = []"
    using log_names(2)
    by (auto simp: desiredLog_def Let_def thenE_Inr_iff syncReplicasLog_def buildStatefulSet_def syncStatefulSetSpec_def StatefulSetTemplate_def
        smallLogSet_def logPod_def split: retention_policy.splits)
  have des: "desiredLog sampleTools sampleCodec smallLogSet sts = Inr sts"
    using desiredLog_settles[OF sampleTools_laws] des0 unfolding settles_def by blast
  let ?s = "\<lparr>Obj = smallLogSet, world = (logWorld sts, [])\<rparr>"
  let ?up = "\<lparr>fo_available = [\<lparr>sr_podName = ''l-log-0'', sr_phase = StorePhaseUp, sr_lastTransition = 700 * second\<rparr>], fo_failed = []\<rparr>"
  let ?ready = "[newCondition ConditionTypeReady ConditionTrue reasonEmpty []]"
  let ?ls = "smallLogSet\<lparr>lob_failover := ?up, lob_conditions := ?ready, lob_discovery := Some (discoverySvcAddress (viewOf smallLogSet), logServicePort)\<rparr>"
  let ?s1 = "\<lparr>Obj = ?ls, world = (logWorld sts, [])\<rparr>"
  have st: "CollectStoreStatus \<lparr>fo_available = [], fo_failed = []\<rparr> [(''l-log-0'', True, 700 * second)] = ?up"
    by (simp add: CollectStoreStatus_def storeOf_def previousStore_def Let_def)
  have stat: "syncLogStatus (loggedS setEnv) ?s = (Inr (), ?s1)"
    using log_world_reads(1,2)[of sts] set_env_answers st
    by (simp add: syncLogStatus_def bindR_def getObj_def modObj_def wrapE_def callW_def readW_def readL_def SetCondition_def ret_def Let_def
        newCondition_def logReady_def smallLogSet_def logPod_def logPod0_def)
  obtain cm where cm: "buildConfigMapLog sampleTools sampleCodec smallLogSet = Inr (cm, ''2000000'')" using log_config[OF refl] by blast
  let ?s2 = "\<lparr>Obj = ?ls, world = (withConfigMap cm (logWorld sts), [ConfigMapW (WCreate cm)])\<rparr>"
  have ens: "ensureConfigMap sampleTools (loggedL (s_l setEnv)) cm ?s1 = (Inr (cm_name cm), ?s2)"
    by (rule small_ensure) (simp add: logWorld_def setWorld_def lateWorld_def bucketWorld_def)
  have "buildConfigMapLog sampleTools sampleCodec ?ls = Inr (cm, ''2000000'')" "inplaceConfig sampleTools (logPod ?ls)"
      "desiredLog sampleTools sampleCodec ?ls sts = Inr sts"
    using cm log_inplace des by (simp_all add: config_status desiredLog_status) (simp add: logPod_def)
  with syncPodsLog_runs[of sampleTools sampleCodec ?s1 cm "''2000000''" "loggedS setEnv" ?s2 sts sts] ens
  have sync: "syncPodsLog sampleTools sampleCodec (loggedS setEnv) (syncStatefulSetSpec ?ls sts) ?s1 = (Inr sts, ?s2)" by simp
  obtain svc xs e where svc: "serviceR (loggedS setEnv) (metricSvcLog ?ls) (\<lambda>v. ret (mutateMetricSvcLog ?ls v)) ?s2 =
      (Inr svc, \<lparr>Obj = ?ls, world = ((withConfigMap cm (logWorld sts))\<lparr>sm_svcs := xs\<rparr>, e # [ConfigMapW (WCreate cm)])\<rparr>)"
    using small_service by metis
  have view: "onView (syncBucketClaim (loggedL (s_l setEnv)) t) ?s2 = (Inr (), ?s2)" "onView (syncBucketEverRunningAnn (loggedL (s_l setEnv))) ?s2 = (Inr (), ?s2)" for t
    using set_env_answers(2)
    by (simp_all add: onView_def syncBucketClaim_def syncBucketEverRunningAnn_def bindR_getObj ret_def viewOf_def partOf_def smallLogSet_def localStorage_def)
  have fin: "fst (finishLog sampleTools sampleCodec (loggedS setEnv) noTplView sts ?s1) = Inr None"
    unfolding finishLog_def bindR_getObj
    using sync svc sts set_env_answers view
    by (simp add: bindR_def wrapE_def callW_def readL_def ret_def syncMetricServiceLog_def getObj_def newCondition_def SyncStsVolumeSize_def liftE_def
        smallLogSet_def logPod_def)
  have obs: "fst (observeFoundLog sampleTools sampleCodec (loggedS setEnv) noTplView sts ?s) = Inr None"
    using stat fin sts by (simp add: observeFoundLog_def bindR_def getObj_def ret_def orPanic_def logPod_def smallLogSet_def)
  have "fst (LogObserve sampleTools sampleCodec (loggedS setEnv) noTplView ?s) = Inr None"
    unfolding LogObserve_def bindR_getObj using log_world_reads(3)[of sts] log_world_reads(4)[OF sts(1,2)] obs
    by (simp add: findR_def bindR_def wrapE_def attempt_def callW_def readL_def ret_def log_names)
  then obtain s' where run: "LogObserve sampleTools sampleCodec (loggedS setEnv) noTplView ?s = (Inr None, s')" by (metis prod.collapse)
  from log_observe_complete[OF setEnv_laws run] have "s_isReady setEnv (lob_conditions (Obj s'))" "1 \<le> int (length (fo_available (lob_failover (Obj s'))))"
      "lob_discovery (Obj s') = Some (discoverySvcAddress (viewOf smallLogSet), logServicePort)"
    by (auto simp: logComplete_def Let_def smallLogSet_def logPod_def)
  with run show ?thesis
    by (auto simp: discoverySvcAddress_def log_names logServicePort_def) (auto simp: viewOf_def smallLogSet_def)
qed

text \<open>Creation in the empty world: no request is refused.\<close>

lemma createAll_accepted: "(\<And>m s. m \<in> set ms \<Longrightarrow> \<exists>s'. m s = (Inr (), s')) \<Longrightarrow> \<exists>s'. createAll ms s = (Inr [], s')"
proof (induction ms arbitrary: s)
  case Nil
  then show ?case by (simp add: createAll_def ret_def)
next
  case (Cons m ms)
  obtain s1 where m: "m s = (Inr (), s1)" using Cons.prems[of m s] by auto
  from Cons obtain s' where "createAll ms s1 = (Inr [], s')" by (metis list.set_intros(2))
  with m show ?case by (simp add: createAll_def bindR_def attempt_def ret_def)
qed

lemma small_creates:
  "\<exists>s'. createCM (loggedS setEnv) cm s = (Inr (), s')" "\<exists>s'. bindR (callW (api_create (s_svcs (loggedS setEnv)) v)) (\<lambda>_. ret ()) s = (Inr (), s')"
  "\<exists>s'. bindR (callW (api_create (s_stss (loggedS setEnv)) sts)) (\<lambda>_. ret ()) s = (Inr (), s')"
  by (simp_all add: createCM_def setEnv_def baseEnv_def baseKind_def onBase_def bucketEnv_def memKind_def Let_def bindR_def callW_def writeL_def ret_def)

lemma small_bootstrap:
  "\<exists>bc an w l. buildBootstrapConfig sampleCodec (loggedS setEnv) \<lparr>Obj = smallLogSet, world = (setWorld, [])\<rparr> =
     (Inr bc, \<lparr>Obj = smallLogSet\<lparr>lob_annos := an\<rparr>, world = (w, l)\<rparr>) \<and> bm_cms (sm_base w) = []"
proof -
  have "pickReplicas (nat 1) 0 = Inr [(0, idRangeStart)]" by (simp add: idRangeStart_def idRangeEnd_def)
  then show ?thesis
    by (simp add: buildBootstrapConfig_def onView_def bootstrap_def bindR_def getObj_def liftE_def wrapE_def modObj_def updateObj_def ret_def gget_def gmake_def
        writeL_def ToString_def MarshalTOML_def sampleCodec_def viewOf_def partOf_def smallLogSet_def setEnv_def setWorld_def lateWorld_def bucketWorld_def
        baseEnv_def baseKind_def onBase_def bucketEnv_def memKind_def Let_def)
qed

theorem log_create_order_witness:
  "\<exists>s' u cms bc gc sts dsvc hsvc. CreateLog sampleTools sampleCodec (loggedS setEnv) noTplView \<lparr>Obj = smallLogSet, world = (setWorld, [])\<rparr> = (Inr (), s') \<and>
     decided u \<and> logOf s' = [SvcW (WCreate dsvc), KruiseStsW (WCreate sts), SvcW (WCreate hsvc), ConfigMapW (WCreate gc), ConfigMapW (WCreate bc)] @
       cms @ [LogSetObjW (WUpdate u)] \<and> freshSts smallLogSet sts"
proof -
  let ?s = "\<lparr>Obj = smallLogSet, world = (setWorld, [])\<rparr>"
  obtain bc an w l where boot: "buildBootstrapConfig sampleCodec (loggedS setEnv) ?s = (Inr bc, \<lparr>Obj = smallLogSet\<lparr>lob_annos := an\<rparr>, world = (w, l)\<rparr>)"
      and w: "bm_cms (sm_base w) = []" using small_bootstrap by blast
  let ?ls = "smallLogSet\<lparr>lob_annos := an\<rparr>" let ?s1 = "\<lparr>Obj = ?ls, world = (w, l)\<rparr>"
  let ?t = "syncPodMetaSet sampleTools (logPod smallLogSet) (kt_template (syncReplicasLog ?ls (buildStatefulSet ?ls)))"
  have pod: "logPod ?ls = logPod smallLogSet" "lsp_storage (lob_spec smallLogSet) = localStorage" by (simp_all add: logPod_def smallLogSet_def)
  obtain spec where spec: "syncPodSpecLog sampleTools (viewOf ?ls) (logPod smallLogSet) (logLabels ?ls) localStorage (pm_spec ?t) = Inr spec"
      and vols: "ps_volumes spec = logVolumes sampleTools (viewOf ?ls)" using log_spec_runs by blast
  obtain cm where cm: "buildConfigMapLog sampleTools sampleCodec ?ls = Inr (cm, ''2000000'')"
    using log_config[OF pod(1)] by blast
  from log_volume_runs[OF vols] obtain spec' where spec': "setConfigVolume sampleTools (cm_name cm) spec = Inr spec'" by blast
  have gossip: "\<exists>gc. buildGossipSeedsConfigMap sampleCodec (viewOf ?ls) v = Inr gc" for v
    by (simp add: buildGossipSeedsConfigMap_def ToString_def MarshalTOML_def sampleCodec_def)
  let ?s2 = "\<lparr>Obj = ?ls, world = (withConfigMap cm w, ConfigMapW (WCreate cm) # l)\<rparr>"
  have sync: "SyncConfigMap sampleTools (loggedL (s_l setEnv)) (logPod smallLogSet) cm spec ?s1 = (Inr spec', ?s2)"
    using small_ensure[OF w, where c = ?ls and cm = cm and l = l] by (simp add: SyncConfigMap_def log_inplace bindR_def liftE_def ret_def spec')
  have all: "\<exists>s'. createAll [createCM (loggedS setEnv) bc, createCM (loggedS setEnv) gc,
      bindR (callW (api_create (s_svcs (loggedS setEnv)) v)) (\<lambda>_. ret ()), bindR (callW (api_create (s_stss (loggedS setEnv)) sts)) (\<lambda>_. ret ()),
      bindR (callW (api_create (s_svcs (loggedS setEnv)) v')) (\<lambda>_. ret ())] ?s2 = (Inr [], s')" for gc v sts v'
    by (rule createAll_accepted) (use small_creates in auto)
  have "\<exists>s'. createLogObjects sampleTools sampleCodec (loggedS setEnv) noTplView bc ?s1 = (Inr (), s')"
  proof -
    let ?sts1 = "syncPersistentVolumeClaimLog ?ls ((syncReplicasLog ?ls (buildStatefulSet ?ls))\<lparr>kt_template := ?t\<lparr>pm_spec := spec\<rparr>\<rparr>)"
    let ?sts = "?sts1\<lparr>kt_template := (withSuffix sampleTools (logPod smallLogSet) ''2000000'' (kt_template ?sts1))\<lparr>pm_spec := spec'\<rparr>\<rparr>"
    obtain gc where gc: "buildGossipSeedsConfigMap sampleCodec (viewOf ?ls) (stsView noTplView ?sts1) = Inr gc" using gossip by blast
    obtain s' where "createAll [createCM (loggedS setEnv) bc, createCM (loggedS setEnv) gc,
      bindR (callW (api_create (s_svcs (loggedS setEnv)) (buildHeadlessSvcLog ?ls))) (\<lambda>_. ret ()), bindR (callW (api_create (s_stss (loggedS setEnv)) ?sts)) (\<lambda>_. ret ()),
      bindR (callW (api_create (s_svcs (loggedS setEnv)) (buildDiscoveryService ?ls))) (\<lambda>_. ret ())] ?s2 = (Inr [], s')" using all by blast
    then have "createLogObjects sampleTools sampleCodec (loggedS setEnv) noTplView bc ?s1 = (Inr (), s')"
      unfolding createLogObjects_def bindR_getObj Let_def
      by (simp add: pod spec gc cm sync liftE_def bindR_def[of "ret _"] bindR_def[of "SyncConfigMap _ _ _ _ _"] bindR_def[of "createAll _"] ret_def)
    then show ?thesis by blast
  qed
  then obtain s' where run: "CreateLog sampleTools sampleCodec (loggedS setEnv) noTplView ?s = (Inr (), s')"
    using boot by (auto simp: CreateLog_def bindR_def)
  have "\<not> decided (viewOf smallLogSet)" by (simp add: decided_def viewOf_def smallLogSet_def gget_def)
  with log_create_order[OF run] run show ?thesis by fastforce
qed

end
