(* ===== verification/Proxy_Control.thy ===== *)
theory Proxy_Control
  imports Cluster_Objects
begin

text \<open>
  The proxy set controller, \<^verbatim>\<open>pkg/controllers/proxyset\<close>, with \<^verbatim>\<open>SyncMOPod\<close> of \<^verbatim>\<open>common/podset.go\<close>: a clone set of proxies and the service
  clients connect to.

  The theorems: what is written is the desired clone set of this proxy and its service; the published address means ready
  proxies; the template settles after one rendering when it has labels, as every clone set of the controller does; the finalizer.
\<close>

section \<open>The proxy set\<close>

record proxy_set =
  pxo_name :: string
  pxo_ns :: string
  pxo_kind :: string
  pxo_spec :: proxy_spec
  pxo_dep :: "log_dep option option"
  pxo_conditions :: "condition list"
  pxo_host :: string
  pxo_port :: int

type_synonym 'w proxy_ctx = "(proxy_set, 'w) ctx"

definition ProxyPort :: int where "ProxyPort = 6001"
definition proxySuffix :: string where "proxySuffix = ''-proxy''"

definition proxyResourceName :: "proxy_set \<Rightarrow> string" where
  "proxyResourceName px = pxo_name px @ proxySuffix"

definition proxyLabels :: "proxy_set \<Rightarrow> gomap" where
  "proxyLabels px = subLabels (pxo_ns px) (pxo_name px) (pxo_kind px)"

definition proxyPod :: "proxy_set \<Rightarrow> pod_set" where
  "proxyPod px = psp_pod (pxo_spec px)"

definition GetServiceTypeProxy :: "proxy_spec \<Rightarrow> string" where
  "GetServiceTypeProxy sp = (if psp_serviceType sp = [] then ServiceTypeClusterIP else psp_serviceType sp)"

section \<open>Configuration\<close>

definition proxySettings :: "pod_set \<Rightarrow> (string list \<times> tval) list" where
  "proxySettings p =
     [([''service-type''], VStr ''PROXY''), ([''proxy'', ''listen-address''], VStr (''0.0.0.0:'' @ goItoa ProxyPort))] @ promConfig p"

text \<open>As for the other sets, the configuration is changed in place in the source and returned as a new value here.\<close>

definition proxyConfig :: "tools \<Rightarrow> pod_set \<Rightarrow> log_dep \<Rightarrow> string \<times> int \<Rightarrow> toml_config" where
  "proxyConfig U p ld disc =
     setAll (proxySettings p)
       (MergeDeep (setAll [([''hakeeper-client'', ''discovery-address''], VStr (discoveryStr disc))] (orNewConfig (pd_config p)))
         (FileServiceConfig U localDataPath (ld_storage ld) None))"

text \<open>\<^verbatim>\<open>strings.Join(strings.Split(addr, ":"), "/")\<close>; the script waits for the socket when there is one.\<close>

definition pluginSocket :: "string option \<Rightarrow> string" where
  "pluginSocket addr = (case addr of
      None \<Rightarrow> []
    | Some a \<Rightarrow> ''wait '' @ map (\<lambda>c. if c = CHR '':'' then CHR ''/'' else c) a)"

definition buildProxyConfigMap :: "tools \<Rightarrow> codec \<Rightarrow> proxy_set \<Rightarrow> log_dep \<Rightarrow> err + config_map \<times> string" where
  "buildProxyConfigMap U T px ld =
     (case ld_discovery ld of
        None \<Rightarrow> Inl (Err Plain ''HAKeeper discovery address not ready'')
      | Some disc \<Rightarrow>
          thenE (ToString T (Some (proxyConfig U (proxyPod px) ld disc))) (\<lambda>s.
          thenE (u_script U ''proxy'' (inplaceConfig U (proxyPod px)) False (pluginSocket (psp_waitPlugin (pxo_spec px)))) (\<lambda>script.
          configData U (proxyPod px) (proxyResourceName px @ ''-config'') (pxo_ns px) script s)))"

section \<open>Clone set and service\<close>

definition buildCloneSetProxy :: "proxy_set \<Rightarrow> clone_set" where
  "buildCloneSetProxy px = CloneSetTemplate (pxo_ns px) (pxo_name px) (pxo_kind px) (proxyResourceName px)"

text \<open>\<^verbatim>\<open>SyncMOPod\<close> on a template: the pod template first, then the configuration.\<close>

definition SyncMOPod ::
  "tools \<Rightarrow> 'w senv \<Rightarrow> pod_set \<Rightarrow> shared_storage option \<Rightarrow> config_map \<Rightarrow> string \<Rightarrow> (ctr \<Rightarrow> ctr) \<Rightarrow> pod_tpl \<Rightarrow> (('o, 'w) ctx, pod_tpl) rm" where
  "SyncMOPod U S p sp cm sfx mutateC t =
     bindR (liftE (syncPodTemplate U p sp sfx mutateC t)) (\<lambda>t1.
     bindR (wrapE ''sync configmap'' (SyncConfigMap U (s_l S) p cm (pm_spec t1))) (\<lambda>spec.
     ret (t1\<lparr>pm_spec := spec\<rparr>)))"

definition syncCloneSetProxy :: "tools \<Rightarrow> codec \<Rightarrow> 'w senv \<Rightarrow> clone_set \<Rightarrow> ('w proxy_ctx, clone_set) rm" where
  "syncCloneSetProxy U T S cs =
     bindR getObj (\<lambda>px.
     bindR (depLogSet (pxo_dep px)) (\<lambda>ld.
     bindR (wrapE ''build configmap'' (liftE (buildProxyConfigMap U T px ld))) (\<lambda>(cm, sfx).
     bindR (SyncMOPod U S (proxyPod px) (Some (ld_storage ld)) cm sfx proxyProbe (ks_template cs)) (\<lambda>t.
     ret (cs\<lparr>ks_replicas := Some (pd_replicas (proxyPod px)), ks_minReadySeconds := psp_minReadySeconds (pxo_spec px), ks_template := t\<rparr>)))))"

definition proxyPortName :: string where "proxyPortName = ''proxy''"

definition buildSvcProxy :: "proxy_set \<Rightarrow> service" where
  "buildSvcProxy px = \<lparr>vs_name = proxyResourceName px, vs_ns = pxo_ns px, vs_labels = proxyLabels px, vs_annos = Some Map.empty,
     vs_controller = None, vs_selector = proxyLabels px, vs_type = GetServiceTypeProxy (pxo_spec px),
     vs_ports = [\<lparr>spt_name = proxyPortName, spt_port = ProxyPort, spt_nodePort = orElse (psp_nodePort (pxo_spec px)) 0\<rparr>], vs_headless = False\<rparr>"

fun setNodePortProxy :: "int \<Rightarrow> svc_port list \<Rightarrow> svc_port list" where
  "setNodePortProxy n [] = []"
| "setNodePortProxy n (p # ps) = (if spt_name p = proxyPortName then p\<lparr>spt_nodePort := n\<rparr> # ps else p # setNodePortProxy n ps)"

text \<open>The port annotation stays when the scraping annotation is taken off.\<close>

definition syncSvcProxy :: "proxy_spec \<Rightarrow> service \<Rightarrow> service" where
  "syncSvcProxy sp svc =
     (let f = the (gmake (vs_annos svc));
          f1 = (case psp_serviceAnnos sp of None \<Rightarrow> f | Some g \<Rightarrow> f ++ g)
      in svc\<lparr>vs_type := psp_serviceType sp,
             vs_ports := (case psp_nodePort sp of None \<Rightarrow> vs_ports svc | Some n \<Rightarrow> setNodePortProxy n (vs_ports svc)),
             vs_annos := Some (if PromDiscoveredByService (psp_pod sp)
               then f1(PrometheusScrapeAnno \<mapsto> ''true'', PrometheusPortAnno \<mapsto> goItoa MetricsPort)
               else f1(PrometheusScrapeAnno := None))\<rparr>)"

section \<open>Observe and Finalize\<close>

definition cloneSetR :: "'w senv \<Rightarrow> clone_set \<Rightarrow> (clone_set \<Rightarrow> (('o, 'w) ctx, clone_set) rm) \<Rightarrow> (('o, 'w) ctx, clone_set) rm" where
  "cloneSetR S cs f =
     bindR (callW (s_csBegin S cs)) (\<lambda>old.
     bindR (f old) (\<lambda>new. callW (s_csCommit S old new)))"

definition proxyMsg :: "int \<Rightarrow> int \<Rightarrow> string" where
  "proxyMsg ready desired = ''proxy not ready, ready replicas: '' @ goItoa ready @ '', desired replicas: '' @ goItoa desired"

definition setProxyReady :: "'w senv \<Rightarrow> bool \<Rightarrow> string \<Rightarrow> ('w proxy_ctx, unit) rm" where
  "setProxyReady S ready msg =
     bindR getObj (\<lambda>px.
     bindR (SetCondition S (pxo_conditions px) (newCondition ConditionTypeReady (if ready then ConditionTrue else ConditionFalse) [] msg)) (\<lambda>conds.
     modObj (\<lambda>px. px\<lparr>pxo_conditions := conds\<rparr>)))"

definition publishProxy :: "'w senv \<Rightarrow> proxy_set \<Rightarrow> clone_set \<Rightarrow> service \<Rightarrow> ('w proxy_ctx, unit) rm" where
  "publishProxy S px cs svc =
     (let desired = pd_replicas (proxyPod px); msg = proxyMsg (ks_statusReady cs) desired in
      if ks_statusReady cs \<ge> desired
      then bindR (setProxyReady S True ''proxy ready'') (\<lambda>_.
           modObj (\<lambda>px. px\<lparr>pxo_host := vs_name svc @ ''.'' @ vs_ns svc, pxo_port := ProxyPort\<rparr>))
      else bindR (setProxyReady S False msg) (\<lambda>_. ErrReSync msg 0))"

definition ProxyObserve :: "tools \<Rightarrow> codec \<Rightarrow> 'w senv \<Rightarrow> ('w proxy_ctx, unit) rm" where
  "ProxyObserve U T S =
     bindR getObj (\<lambda>px.
     bindR (wrapE ''sync cloneset'' (cloneSetR S (buildCloneSetProxy px) (syncCloneSetProxy U T S))) (\<lambda>cs.
     bindR (wrapE ''sync service'' (serviceR S (buildSvcProxy px) (\<lambda>svc. ret (syncSvcProxy (pxo_spec px) svc)))) (\<lambda>svc.
     publishProxy S px cs svc)))"

definition proxyCloneSetRef :: "proxy_set \<Rightarrow> clone_set" where
  "proxyCloneSetRef px = (CloneSetTemplate (pxo_ns px) (pxo_name px) (pxo_kind px) (proxyResourceName px))
     \<lparr>ks_selector := None, ks_template := \<lparr>pm_labels = None, pm_annos = None, pm_spec = emptyPodSpec\<rparr>, ks_updateType := []\<rparr>"

definition proxySvcRef :: "proxy_set \<Rightarrow> service" where
  "proxySvcRef px = (svcRef (pxo_ns px) (proxyResourceName px))\<lparr>vs_labels := proxyLabels px, vs_annos := Some Map.empty\<rparr>"

definition deleteOwnedProxy :: "'w senv \<Rightarrow> proxy_set \<Rightarrow> ('w proxy_ctx, unit) rm list" where
  "deleteOwnedProxy S px = [callW (api_delete (s_svcs S) (proxySvcRef px)), callW (api_delete (s_clonesets S) (proxyCloneSetRef px))]"

definition existOwnedProxy :: "'w senv \<Rightarrow> proxy_set \<Rightarrow> ('w proxy_ctx, bool) rm list" where
  "existOwnedProxy S px =
     [existsR (api_get (s_svcs S) (pxo_ns px, proxyResourceName px)), existsR (api_get (s_clonesets S) (pxo_ns px, proxyResourceName px))]"

definition ProxyFinalize :: "'w senv \<Rightarrow> ('w proxy_ctx, bool) rm" where
  "ProxyFinalize S = bindR getObj (\<lambda>px. finalizeOwned (deleteOwnedProxy S px) (existOwnedProxy S px) (ret ()))"

section \<open>Rendering proxies again\<close>

definition renderProxy :: "tools \<Rightarrow> pod_set \<Rightarrow> shared_storage \<Rightarrow> string \<Rightarrow> string \<Rightarrow> pod_tpl \<Rightarrow> err + pod_tpl" where
  "renderProxy U p sp sfx desired t =
     thenE (syncPodTemplate U p (Some sp) sfx proxyProbe t) (overSpec (setConfigVolume U desired))"

text \<open>The template splits into the metadata and the specification, which shares the label map for the topology. The memory file
  system is not set up for proxies.\<close>

definition spreadLabels :: "pod_set \<Rightarrow> pod_tpl \<Rightarrow> gomap" where
  "spreadLabels p t = sharedLabels (pm_labels t) (overMap (podOv p po_labels) (pm_labels t))"

definition noMemory :: "pod_set \<Rightarrow> pod_set" where
  "noMemory p = p\<lparr>pd_memoryFs := None\<rparr>"

definition proxyEnv :: "tools \<Rightarrow> pod_set \<Rightarrow> env_var option \<Rightarrow> env_var list" where
  "proxyEnv U p memVar = [u_fieldRef U PodNameEnvKey ''metadata.name'', u_fieldRef U NamespaceEnvKey ''metadata.namespace''] @
     configSuffixEnv U p @ optList memVar"

definition proxyMain :: "tools \<Rightarrow> pod_set \<Rightarrow> env_var option \<Rightarrow> ctr \<Rightarrow> ctr" where
  "proxyMain U p memVar c = proxyProbe (setMain p ConfigPath [configMount] (proxyEnv U p memVar) c)"

definition specProxy :: "tools \<Rightarrow> pod_set \<Rightarrow> gomap \<Rightarrow> shared_storage \<Rightarrow> pod_spec \<Rightarrow> err + pod_spec" where
  "specProxy U p lbls sp s =
     thenE (GoMemLimitEnv U p) (\<lambda>memVar.
     Inr (finishPodSpec U (noMemory p) lbls sp (proxyMain U p memVar (mainRef U s)) (s\<lparr>ps_gates := [InPlaceUpdateReady]\<rparr>)))"

definition metaProxy :: "tools \<Rightarrow> pod_set \<Rightarrow> string \<Rightarrow> pod_tpl \<Rightarrow> pod_tpl" where
  "metaProxy U p sfx t = OverlayPodMeta (pd_overlay p)
     (if inplaceConfig U p then setAnno ConfigSuffixAnno sfx (SyncPodMeta U p t) else SyncPodMeta U p t)"

lemma metaStep_metaProxy: "metaStep (metaProxy U p sfx)"
proof -
  let ?ov = "case podOv p po_annos of None \<Rightarrow> Map.empty | Some m \<Rightarrow> m"
  define A where "A f = (if inplaceConfig U p then (podAnnos U p f)(ConfigSuffixAnno \<mapsto> sfx) else podAnnos U p f) ++ ?ov" for f
  have "metaProxy U p sfx t = t\<lparr>pm_annos := Some (A (annosOf t)), pm_labels := overMap (podOv p po_labels) (pm_labels t)\<rparr>" for t
    by (rule pod_tpl.equality) (simp_all add: A_def metaProxy_def OverlayPodMeta_annos[OF SyncPodMeta_annos(1)]
        OverlayPodMeta_annos[OF setAnno_fields(1)[OF SyncPodMeta_annos(1)]])
  moreover have "stamps A" unfolding A_def
    by (cases "inplaceConfig U p") (simp_all add: stamps_add stamps_upd stamps_podAnnos stamps_id)
  ultimately show ?thesis unfolding metaStep_def by blast
qed

lemma storage_topology: "SetStorageProviderConfig U sp (SyncTopology d l s) = SyncTopology d l (SetStorageProviderConfig U sp s)"
  by (simp add: SetStorageProviderConfig_def SyncTopology_def split: option.split)

lemma spec_of_metaProxy: "pm_spec (metaProxy U p sfx t) = pm_spec t" "metaProxy U p sfx (t\<lparr>pm_spec := x\<rparr>) = (metaProxy U p sfx t)\<lparr>pm_spec := x\<rparr>"
  using metaStep_spec[OF metaStep_metaProxy] by blast+

lemma gates_first: "s\<lparr>ps_containers := a, ps_gates := b\<rparr> = s\<lparr>ps_gates := b, ps_containers := a\<rparr>"
  by (rule pod_spec.equality) simp_all

lemma syncPodTemplate_proxy:
  assumes "GoMemLimitEnv U p = Inr memVar"
  shows "syncPodTemplate U p (Some sp) sfx proxyProbe t =
    Inr ((metaProxy U p sfx t)\<lparr>pm_spec := finishPodSpec U (noMemory p) (spreadLabels p t) sp (proxyMain U p memVar (mainRef U (pm_spec t)))
      ((pm_spec t)\<lparr>ps_gates := [InPlaceUpdateReady]\<rparr>)\<rparr>)"
proof -
  let ?s = "(pm_spec t)\<lparr>ps_containers := [OverlayMainContainer U (pd_overlay p) (proxyMain U p memVar (mainRef U (pm_spec t)))],
    ps_gates := [InPlaceUpdateReady], ps_nodeSelector := pd_nodeSelector p\<rparr>"
  let ?s3 = "SyncTopology (pd_topology p) (spreadLabels p t) (SetStorageProviderConfig U sp ?s)"
  have labels: "pm_labels (metaProxy U p sfx t) = overMap (podOv p po_labels) (pm_labels t)" by (simp add: metaProxy_def)
  have "syncPodTemplate U p (Some sp) sfx proxyProbe t = Inr ((metaProxy U p sfx t)\<lparr>pm_spec := OverlayPodSpec U (pd_overlay p) ?s3\<rparr>)"
    by (simp add: assms syncPodTemplate_def syncMainContainer_def storage_topology metaProxy_def[symmetric] labels spreadLabels_def Let_def proxyMain_def
        proxyEnv_def)
  then show ?thesis by (simp add: finishPodSpec_def SetupMemoryFsVolume_def noMemory_def gates_first)
qed

lemma renderProxy_eq:
  "renderProxy U p sp sfx desired t =
     thenE (withConfig U desired (specProxy U p (spreadLabels p t) sp) (pm_spec t)) (\<lambda>s. Inr ((metaProxy U p sfx t)\<lparr>pm_spec := s\<rparr>))"
proof (cases "GoMemLimitEnv U p")
  case (Inl e)
  then show ?thesis by (simp add: renderProxy_def syncPodTemplate_def withConfig_def specProxy_def thenE_def)
next
  case (Inr memVar)
  then show ?thesis
    by (simp add: renderProxy_def syncPodTemplate_proxy withConfig_def specProxy_def thenE_def overSpec_def split: sum.split)
qed

lemma finalMain_proxy_again:
  "finalMain U q sp (proxyMain U p memVar (finalMain U q sp (proxyMain U p memVar c))) = finalMain U q sp (proxyMain U p memVar c)"
proof (rule ctr.equality)
  show "kc_env (finalMain U q sp (proxyMain U p memVar (finalMain U q sp (proxyMain U p memVar c)))) = kc_env (finalMain U q sp (proxyMain U p memVar c))"
    by (rule finalMain_env) (simp_all add: proxyMain_def proxyProbe_def setMain_def)
  show "kc_mounts (finalMain U q sp (proxyMain U p memVar (finalMain U q sp (proxyMain U p memVar c)))) = kc_mounts (finalMain U q sp (proxyMain U p memVar c))"
    by (rule finalMain_mounts) (simp_all add: proxyMain_def proxyProbe_def setMain_def)
qed (simp_all add: finalMain_fields overlay_fields proxyMain_def proxyProbe_def setMain_def)

lemma finish_proxy_again:
  assumes laws: "toolLaws U" and c: "kc_name c = ContainerMain" and s1: "s1 = finishPodSpec U q sel sp (proxyMain U p memVar c) s"
  shows "finishPodSpec U q sel sp (proxyMain U p memVar (finalMain U q sp (proxyMain U p memVar c))) (s1\<lparr>ps_volumes := v, ps_gates := g\<rparr>) =
    s1\<lparr>ps_volumes := upsertAll vo_name v (addedVolumes q sp), ps_gates := g\<rparr>" (is "?again = ?s")
proof (rule pod_spec.equality)
  show "ps_volumes ?again = ps_volumes ?s" by (simp add: finish_volumes[OF laws])
  have name: "kc_name (proxyMain U p memVar x) = kc_name x" for x by (simp add: proxyMain_def proxyProbe_def)
  have "ps_containers s1 = finalMain U q sp (proxyMain U p memVar c) # sidecars U q" using c by (simp add: s1 finish_containers name)
  then show "ps_containers ?again = ps_containers ?s" using c by (simp add: finish_containers name finalMain_proxy_again)
qed (simp_all add: s1 finishPodSpec_def SyncTopology_def overlayPod_spec)

lemma spec_proxy_settles:
  assumes laws: "toolLaws U"
  shows "settles (withConfig U desired (specProxy U p lbls sp))"
proof (rule withConfig_settles[OF laws, where base = "\<lambda>v. v" and added = "addedVolumes (noMemory p) sp"])
  fix s s1 v assume run: "specProxy U p lbls sp s = Inr s1"
  then show "ps_volumes s1 = upsertAll vo_name (ps_volumes s) (addedVolumes (noMemory p) sp)"
    by (auto simp: specProxy_def thenE_Inr_iff finish_volumes[OF laws])
  from run obtain memVar where mem: "GoMemLimitEnv U p = Inr memVar"
    and s1: "s1 = finishPodSpec U (noMemory p) lbls sp (proxyMain U p memVar (mainRef U s)) (s\<lparr>ps_gates := [InPlaceUpdateReady]\<rparr>)"
    by (auto simp: specProxy_def thenE_Inr_iff)
  have name: "kc_name (proxyMain U p memVar x) = kc_name x" for x by (simp add: proxyMain_def proxyProbe_def)
  have "mainRef U (s1\<lparr>ps_volumes := v\<rparr>) = finalMain U (noMemory p) sp (proxyMain U p memVar (mainRef U s))"
    using mainRef_name[OF laws, of s] by (intro mainRef_Cons[OF laws]) (simp_all add: s1 finish_containers name)
  moreover have "ps_gates s1 = [InPlaceUpdateReady]" by (simp add: s1 finishPodSpec_def SyncTopology_def overlayPod_spec)
  ultimately show "specProxy U p lbls sp (s1\<lparr>ps_volumes := v\<rparr>) = Inr (s1\<lparr>ps_volumes := upsertAll vo_name v (addedVolumes (noMemory p) sp)\<rparr>)"
    using finish_proxy_again[OF laws mainRef_name[OF laws] s1, where v = v and g = "[InPlaceUpdateReady]"] mem
    by (simp add: specProxy_def thenE_def)
qed simp

text \<open>C30 (\<^verbatim>\<open>SyncMOPod\<close> of the proxy set): the template settles. A template with a label map, as that of every clone set the controller
  makes, is settled by one rendering: rendering it again changes nothing, and the selector of its topology spread has the labels of
  the overlay, because it shares the label map. A template without a label map does not share it; it is settled by the second
  rendering, or by the first when the overlay adds no labels.\<close>

theorem proxy_template_settles:
  assumes laws: "toolLaws U" and first: "renderProxy U p sp sfx desired t = Inr t1"
  shows "(pm_labels t \<noteq> None \<or> podOv p po_labels = None \<longrightarrow> renderProxy U p sp sfx desired t1 = Inr t1) \<and>
    (\<forall>t2. renderProxy U p sp sfx desired t1 = Inr t2 \<longrightarrow> renderProxy U p sp sfx desired t2 = Inr t2)"
proof -
  let ?R = "renderProxy U p sp sfx desired" and ?M = "metaProxy U p sfx"
  let ?g = "\<lambda>l. withConfig U desired (specProxy U p l sp)"
  have labels: "pm_labels (?M x) = overMap (podOv p po_labels) (pm_labels x)" for x by (simp add: metaProxy_def)
  have lab: "pm_labels y = overMap (podOv p po_labels) (pm_labels x)" if "?R x = Inr y" for x y
    using that by (auto simp: renderProxy_eq thenE_Inr_iff labels)
  have shared: "spreadLabels p u' = spreadLabels p u" if "?R u = Inr u'" "pm_labels u \<noteq> None \<or> podOv p po_labels = None" for u u'
    using that(2) overMap_idem[of "podOv p po_labels" "pm_labels u"]
    by (auto simp: spreadLabels_def sharedLabels_def lab[OF that(1)] overMap_def split: option.splits)
  have fixed: "?R u' = Inr u'" if run: "?R u = Inr u'" and l: "pm_labels u \<noteq> None \<or> podOv p po_labels = None" for u u'
  proof -
    from run obtain s where s: "?g (spreadLabels p u) (pm_spec u) = Inr s" and u': "u' = (?M u)\<lparr>pm_spec := s\<rparr>"
      by (auto simp: renderProxy_eq thenE_Inr_iff)
    have "?M u' = u'" by (rule metaStep_settles[OF metaStep_metaProxy, of _ _ _ _ u]) (simp_all add: u')
    moreover have "?g (spreadLabels p u) s = Inr s" using spec_proxy_settles[OF laws] s unfolding settles_def by blast
    ultimately show ?thesis using shared[OF run l] by (simp add: renderProxy_eq thenE_def) (simp add: u')
  qed
  have "pm_labels t1 \<noteq> None \<or> podOv p po_labels = None" using lab[OF first] by (cases "podOv p po_labels") (simp_all add: overMap_def)
  then show ?thesis using fixed[OF first] fixed[of t1] by blast
qed

section \<open>What a reconciliation sends\<close>

definition desiredProxy :: "tools \<Rightarrow> codec \<Rightarrow> proxy_set \<Rightarrow> log_dep \<Rightarrow> clone_set \<Rightarrow> err + clone_set" where
  "desiredProxy U T px ld cs =
     thenE (buildProxyConfigMap U T px ld) (\<lambda>(cm, sfx).
     thenE (configMapUsed U (proxyPod px) cm) (\<lambda>n.
     thenE (renderProxy U (proxyPod px) (ld_storage ld) sfx n (ks_template cs)) (\<lambda>t.
     Inr (cs\<lparr>ks_replicas := Some (pd_replicas (proxyPod px)), ks_minReadySeconds := psp_minReadySeconds (pxo_spec px), ks_template := t\<rparr>))))"

text \<open>The same proxy set up to its status.\<close>

definition sameProxy :: "proxy_set \<Rightarrow> proxy_set \<Rightarrow> bool" where
  "sameProxy px x \<longleftrightarrow> pxo_name x = pxo_name px \<and> pxo_ns x = pxo_ns px \<and> pxo_kind x = pxo_kind px \<and> pxo_spec x = pxo_spec px \<and> pxo_dep x = pxo_dep px"

lemma desiredProxy_same:
  assumes "sameProxy px x"
  shows "buildProxyConfigMap U T x = buildProxyConfigMap U T px" "desiredProxy U T x = desiredProxy U T px" "buildCloneSetProxy x = buildCloneSetProxy px" "buildSvcProxy x = buildSvcProxy px" "proxyPod x = proxyPod px"
proof -
  have same: "pxo_name x = pxo_name px" "pxo_ns x = pxo_ns px" "pxo_kind x = pxo_kind px" "pxo_spec x = pxo_spec px" using assms by (simp_all add: sameProxy_def)
  then have names: "proxyResourceName x = proxyResourceName px" "proxyLabels x = proxyLabels px" by (simp_all add: proxyResourceName_def proxyLabels_def)
  show pod: "proxyPod x = proxyPod px" using same by (simp add: proxyPod_def)
  show "buildProxyConfigMap U T x = buildProxyConfigMap U T px"
    by (intro ext) (simp add: buildProxyConfigMap_def same names pod split: option.split)
  then show "desiredProxy U T x = desiredProxy U T px" by (intro ext) (simp add: desiredProxy_def same pod)
  show "buildCloneSetProxy x = buildCloneSetProxy px" "buildSvcProxy x = buildSvcProxy px" by (simp_all add: buildCloneSetProxy_def buildSvcProxy_def same names)
qed

lemma syncCloneSetProxy_result:
  assumes "syncCloneSetProxy U T S cs s = (Inr cs', s')"
  shows "Obj s' = Obj s \<and> (\<exists>ld. pxo_dep (Obj s) = Some (Some ld) \<and> desiredProxy U T (Obj s) ld cs = Inr cs')"
proof -
  let ?px = "Obj s"
  from assms obtain ld cm sfx t1 spec s1 where ld: "pxo_dep ?px = Some (Some ld)" and cm: "buildProxyConfigMap U T ?px ld = Inr (cm, sfx)"
      and t1: "syncPodTemplate U (proxyPod ?px) (Some (ld_storage ld)) sfx proxyProbe (ks_template cs) = Inr t1"
      and spec: "SyncConfigMap U (s_l S) (proxyPod ?px) cm (pm_spec t1) s = (Inr spec, s1)"
      and cs': "cs' = cs\<lparr>ks_replicas := Some (pd_replicas (proxyPod ?px)), ks_minReadySeconds := psp_minReadySeconds (pxo_spec ?px), ks_template := t1\<lparr>pm_spec := spec\<rparr>\<rparr>"
      and s': "s' = s1"
    unfolding syncCloneSetProxy_def SyncMOPod_def bindR_getObj
    by (auto simp: liftE_runs ret_def elim!: bindR_InrE dest!: reads_keep_obj)
  from SyncConfigMap_result[OF spec] obtain n where n: "configMapUsed U (proxyPod ?px) cm = Inr n" "setConfigVolume U n (pm_spec t1) = Inr spec" by blast
  then have "desiredProxy U T ?px ld cs = Inr cs'" using cm t1 by (simp add: desiredProxy_def renderProxy_def overSpec_def thenE_def cs')
  with ld SyncConfigMap_result[OF spec] s' show ?thesis by blast
qed

fun proxyEvent :: "tools \<Rightarrow> codec \<Rightarrow> 'w senv \<Rightarrow> proxy_set \<Rightarrow> event \<Rightarrow> bool" where
  "proxyEvent U T S px (CloneSetOwnedW old new) = ((\<exists>w w'. s_csBegin S (buildCloneSetProxy px) w = (Inr old, w')) \<and>
     (\<exists>ld. pxo_dep px = Some (Some ld) \<and> desiredProxy U T px ld old = Inr new))"
| "proxyEvent U T S px (SvcOwnedW old new) = ((\<exists>w w'. s_svcBegin S (buildSvcProxy px) w = (Inr old, w')) \<and> new = syncSvcProxy (pxo_spec px) old)"
| "proxyEvent U T S px (ConfigMapW x) = (\<exists>ld cm sfx. pxo_dep px = Some (Some ld) \<and> buildProxyConfigMap U T px ld = Inr (cm, sfx) \<and>
     configWrite U (proxyPod px) cm x)"
| "proxyEvent U T S px _ = False"

lemma syncCloneSetProxy_writes: "(\<And>x. ok (ConfigMapW x)) \<Longrightarrow> onlySends P ok (syncCloneSetProxy U T (loggedS S) cs)"
  unfolding syncCloneSetProxy_def SyncMOPod_def depLogSet_def case_prod_unfold by (rule sendsR | simp only: send_simps | assumption)+

lemma syncCloneSetProxy_sends: "onlySends (sameProxy px) (proxyEvent U T S px) (syncCloneSetProxy U T (loggedS S) cs)"
  unfolding syncCloneSetProxy_def SyncMOPod_def loggedS_simps
proof (rule onlySends_getObj, rule onlySends_bind_run, goal_cases)
  case (1 c)
  show ?case by (rule sendsR)
next
  case (2 c s ld s1)
  then have dep: "pxo_dep px = Some (Some ld)" by (auto simp: sameProxy_def dest: reads_keep_obj(3))
  show ?case
  proof (rule onlySends_bind_run, goal_cases)
    case (2 s2 r s3)
    then obtain cm sfx where r: "r = (cm, sfx)" "buildProxyConfigMap U T px ld = Inr (cm, sfx)"
      using desiredProxy_same(1)[OF \<open>sameProxy px c\<close>] by (cases r) (auto simp: liftE_runs)
    with dep have "proxyEvent U T S px (ConfigMapW x)" if "configWrite U (proxyPod c) cm x" for x
      using that desiredProxy_same(5)[OF \<open>sameProxy px c\<close>] by auto
    then show ?case unfolding r prod.case by (intro onlySends_bind onlySends_wrapE SyncConfigMap_writes sendsR)
  qed (rule sendsR)+
qed

lemma cloneSetR_proxy_sends:
  "onlySends (sameProxy px) (proxyEvent U T S px) (cloneSetR (loggedS S) (buildCloneSetProxy px) (syncCloneSetProxy U T (loggedS S)))"
  unfolding cloneSetR_def loggedS_simps
proof (rule onlySends_bind_run[OF onlySends_callW_read], rule onlySends_bind_run)
  fix s old s1 assume "callW (readL (s_csBegin S (buildCloneSetProxy px))) s = (Inr old, s1)"
  then have old: "\<exists>w w'. s_csBegin S (buildCloneSetProxy px) w = (Inr old, w')" by (auto simp: callW_def readL_def split: prod.splits)
  show "onlySends (sameProxy px) (proxyEvent U T S px) (syncCloneSetProxy U T (loggedS S) old)" by (rule syncCloneSetProxy_sends)
  fix s2 new s3 assume same: "sameProxy px (Obj s2)" and run: "syncCloneSetProxy U T (loggedS S) old s2 = (Inr new, s3)"
  have "pxo_dep (Obj s2) = pxo_dep px" using same by (simp add: sameProxy_def)
  with syncCloneSetProxy_result[OF run] old have "proxyEvent U T S px (CloneSetOwnedW old new)" by (simp add: desiredProxy_same[OF same])
  then show "onlySends (sameProxy px) (proxyEvent U T S px) (callW (writeL (CloneSetOwnedW old new) (s_csCommit S old new)))" by (rule sendsR)
qed

lemma serviceR_proxy_sends:
  "onlySends (sameProxy px) (proxyEvent U T S px) (serviceR (loggedS S) (buildSvcProxy px) (\<lambda>svc. ret (syncSvcProxy (pxo_spec px) svc)))"
  unfolding serviceR_def loggedS_simps
proof (rule onlySends_bind_run[OF onlySends_callW_read])
  fix s old s1 assume "callW (readL (s_svcBegin S (buildSvcProxy px))) s = (Inr old, s1)"
  then have "proxyEvent U T S px (SvcOwnedW old (syncSvcProxy (pxo_spec px) old))" by (auto simp: callW_def readL_def split: prod.splits)
  then show "onlySends (sameProxy px) (proxyEvent U T S px) (bindR (ret (syncSvcProxy (pxo_spec px) old)) (\<lambda>new. callW (writeL (SvcOwnedW old new) (s_svcCommit S old new))))"
    by (simp add: bindR_def ret_def del: proxyEvent.simps) (rule onlySends_callW_write)
qed

lemma setProxyReady_sends: "onlySends (sameProxy px) ok (setProxyReady (loggedS S) b msg)"
  unfolding setProxyReady_def by (rule sendsR | simp only: send_simps | simp add: sameProxy_def)+

lemma publishProxy_sends: "onlySends (sameProxy px) ok (publishProxy (loggedS S) x cs svc)"
  unfolding publishProxy_def Let_def
  by (rule setProxyReady_sends onlySends_bind onlySends_if onlySends_errorf onlySends_modObj | simp add: sameProxy_def)+

lemma ProxyObserve_sends: "onlySends (sameProxy px) (proxyEvent U T S px) (ProxyObserve U T (loggedS S))"
  unfolding ProxyObserve_def
proof (rule onlySends_getObj)
  fix x assume x: "sameProxy px x"
  then have spec: "pxo_spec x = pxo_spec px" by (simp add: sameProxy_def)
  show "onlySends (sameProxy px) (proxyEvent U T S px)
     (bindR (wrapE ''sync cloneset'' (cloneSetR (loggedS S) (buildCloneSetProxy x) (syncCloneSetProxy U T (loggedS S)))) (\<lambda>cs.
      bindR (wrapE ''sync service'' (serviceR (loggedS S) (buildSvcProxy x) (\<lambda>svc. ret (syncSvcProxy (pxo_spec x) svc)))) (\<lambda>svc.
      publishProxy (loggedS S) x cs svc)))"
    unfolding desiredProxy_same[OF x] spec
    by (rule onlySends_wrapE cloneSetR_proxy_sends serviceR_proxy_sends publishProxy_sends onlySends_bind)+
qed

lemma setProxyReady_result:
  assumes "setProxyReady (loggedS S) b msg s = (Inr x, s')" and laws: "conditionLaws S"
  shows "\<exists>conds. Obj s' = (Obj s)\<lparr>pxo_conditions := conds\<rparr> \<and> (s_isReady S conds \<longleftrightarrow> b)"
proof -
  let ?c = "newCondition ConditionTypeReady (if b then ConditionTrue else ConditionFalse) reasonEmpty msg"
  from assms(1) obtain conds w w' where obj: "Obj s' = (Obj s)\<lparr>pxo_conditions := conds\<rparr>" and set: "s_setCondition S (pxo_conditions (Obj s)) ?c w = (conds, w')"
    unfolding setProxyReady_def SetCondition_def bindR_getObj
    by (auto simp: readW_def modObj_def readL_def newCondition_def elim!: bindR_InrE split: prod.splits)
  have "cd_type ?c = ConditionTypeReady" by (simp add: newCondition_def)
  then have "s_isReady S conds \<longleftrightarrow> cd_status ?c = ConditionTrue" using laws set unfolding conditionLaws_def by blast
  also have "\<dots> \<longleftrightarrow> b" by (simp add: newCondition_def)
  finally show ?thesis using obj by blast
qed

text \<open>The answer to the clone set is the answer to a write of what this proxy wants of the stored one.\<close>

lemma cloneSetR_result:
  assumes run: "cloneSetR (loggedS S) (buildCloneSetProxy (Obj s)) (syncCloneSetProxy U T (loggedS S)) s = (Inr cs, s')"
  shows "\<exists>old new w w'. proxyEvent U T S (Obj s) (CloneSetOwnedW old new) \<and> s_csCommit S old new w = (Inr cs, w')"
proof -
  from run obtain old s1 new s2 where a: "callW (s_csBegin (loggedS S) (buildCloneSetProxy (Obj s))) s = (Inr old, s1)"
      and b: "syncCloneSetProxy U T (loggedS S) old s1 = (Inr new, s2)" and c: "callW (s_csCommit (loggedS S) old new) s2 = (Inr cs, s')"
    unfolding cloneSetR_def by (auto elim!: bindR_InrE)
  from a obtain w w1 where "s_csBegin S (buildCloneSetProxy (Obj s)) w = (Inr old, w1)" and o1: "Obj s1 = Obj s"
    by (auto simp: callW_def readL_def split: prod.splits)
  then have "proxyEvent U T S (Obj s) (CloneSetOwnedW old new)" using syncCloneSetProxy_result[OF b] by auto
  moreover from c obtain w2 w3 where "s_csCommit S old new w2 = (Inr cs, w3)" by (auto simp: callW_def writeL_def split: prod.splits)
  ultimately show ?thesis by blast
qed

text \<open>The end of a reconciliation: ready with an address, or not ready and the address as it was.\<close>

lemma publishProxy_result:
  assumes laws: "conditionLaws S" and run: "publishProxy (loggedS S) px cs svc s = (r, s')"
  shows "case r of
     Inr _ \<Rightarrow> pd_replicas (proxyPod px) \<le> ks_statusReady cs \<and> s_isReady S (pxo_conditions (Obj s')) \<and>
       pxo_host (Obj s') = vs_name svc @ ''.'' @ vs_ns svc \<and> pxo_port (Obj s') = 6001
   | Inl _ \<Rightarrow> pxo_host (Obj s') = pxo_host (Obj s) \<and> pxo_port (Obj s') = pxo_port (Obj s)"
proof -
  have stat: "\<exists>s3. setProxyReady (loggedS S) b msg s = (Inr (), s3)" for b msg
    by (auto simp: setProxyReady_def SetCondition_def bindR_def getObj_def readW_def modObj_def split: prod.splits)
  show ?thesis
  proof (cases "pd_replicas (proxyPod px) \<le> ks_statusReady cs")
    case True
    from stat obtain s3 where s3: "setProxyReady (loggedS S) True ''proxy ready'' s = (Inr (), s3)" by blast
    with run True have "r = Inr ()" "Obj s' = (Obj s3)\<lparr>pxo_host := vs_name svc @ ''.'' @ vs_ns svc, pxo_port := ProxyPort\<rparr>"
      by (auto simp: publishProxy_def Let_def bindR_def modObj_def)
    with setProxyReady_result[OF s3 laws] True show ?thesis by (auto simp: ProxyPort_def)
  next
    case False
    let ?msg = "proxyMsg (ks_statusReady cs) (pd_replicas (proxyPod px))"
    from stat obtain s3 where s3: "setProxyReady (loggedS S) False ?msg s = (Inr (), s3)" by blast
    with run False have "r = Inl (Err (ReSync 0) ?msg)" "s' = s3" by (auto simp: publishProxy_def Let_def bindR_def ErrReSync_def throw_def)
    with setProxyReady_result[OF s3 laws] show ?thesis by auto
  qed
qed

text \<open>C29 (\<^verbatim>\<open>Observe\<close> of the proxy set): everything it sends is the clone set of this proxy, the stored one changed to what the
  specification asks for, its service, or the config map built from its specification: created, updated with the entries in use
  kept, or, before in-place configuration, created under its digest. It succeeds only when the clone set the server answered
  to that write has as many ready proxies as wanted; then the status says ready and publishes the address of the service the
  server answered with and the port of the proxies, and the published address does not change otherwise.\<close>

theorem proxy_observe:
  assumes laws: "conditionLaws S" and run: "ProxyObserve U T (loggedS S) s = (r, s')"
  shows "(\<exists>es. logOf s' = es @ logOf s \<and> list_all (proxyEvent U T S (Obj s)) es) \<and>
    (case r of
       Inr _ \<Rightarrow> s_isReady S (pxo_conditions (Obj s')) \<and>
         (\<exists>old new cs w w'. proxyEvent U T S (Obj s) (CloneSetOwnedW old new) \<and> s_csCommit S old new w = (Inr cs, w') \<and>
            pd_replicas (proxyPod (Obj s)) \<le> ks_statusReady cs) \<and>
         (\<exists>old new svc w w'. proxyEvent U T S (Obj s) (SvcOwnedW old new) \<and> s_svcCommit S old new w = (Inr svc, w') \<and>
            pxo_host (Obj s') = vs_name svc @ ''.'' @ vs_ns svc) \<and> pxo_port (Obj s') = 6001
     | Inl _ \<Rightarrow> pxo_host (Obj s') = pxo_host (Obj s) \<and> pxo_port (Obj s') = pxo_port (Obj s))"
  (is "?sent \<and> ?outcome")
proof -
  let ?px = "Obj s"
  have same: "sameProxy ?px ?px" by (simp add: sameProxy_def)
  obtain es where "logOf s' = es @ logOf s" "\<forall>e \<in> set es. proxyEvent U T S ?px e"
    by (rule onlySendsD[OF ProxyObserve_sends same run])
  then have sent: ?sent by (auto simp: list_all_iff)
  let ?A = "wrapE ''sync cloneset'' (cloneSetR (loggedS S) (buildCloneSetProxy ?px) (syncCloneSetProxy U T (loggedS S)))"
  let ?B = "wrapE ''sync service'' (serviceR (loggedS S) (buildSvcProxy ?px) (\<lambda>svc. ret (syncSvcProxy (pxo_spec ?px) svc)))"
  have keepA: "onlySends (\<lambda>x. x = c) (\<lambda>_. True) ?A" and keepB: "onlySends (\<lambda>x. x = c) (\<lambda>_. True) ?B" for c
    unfolding cloneSetR_def loggedS_simps by (rule sendsR syncCloneSetProxy_writes TrueI)+
  from run have "bindR ?A (\<lambda>cs. bindR ?B (publishProxy (loggedS S) ?px cs)) s = (r, s')" by (simp add: ProxyObserve_def bindR_getObj)
  then have ?outcome
  proof (cases rule: bindR_cases)
    case (err e)
    with keeps_obj[OF keepA err(1)] show ?thesis by simp
  next
    case (ok cs s1)
    have o1: "Obj s1 = ?px" by (rule keeps_obj[OF keepA ok(1)])
    from ok(1) have cs: "\<exists>old new w w'. proxyEvent U T S ?px (CloneSetOwnedW old new) \<and> s_csCommit S old new w = (Inr cs, w')"
      by (auto dest!: cloneSetR_result simp del: proxyEvent.simps)
    from ok(2) show ?thesis
    proof (cases rule: bindR_cases)
      case (err e)
      with keeps_obj[OF keepB err(1)] o1 show ?thesis by simp
    next
      case (ok svc s2)
      have o2: "Obj s2 = ?px" using keeps_obj[OF keepB ok(1)] o1 by simp
      from ok(1) have "\<exists>old w w1 w2 w3. s_svcBegin S (buildSvcProxy ?px) w = (Inr old, w1) \<and>
          s_svcCommit S old (syncSvcProxy (pxo_spec ?px) old) w2 = (Inr svc, w3)" by (auto dest!: service_written)
      then have svc: "\<exists>old new w w'. proxyEvent U T S ?px (SvcOwnedW old new) \<and> s_svcCommit S old new w = (Inr svc, w')"
        unfolding proxyEvent.simps by blast
      from publishProxy_result[OF laws ok(2)] o2 cs svc show ?thesis
        by (cases r) (simp_all del: proxyEvent.simps, blast)
    qed
  qed
  with sent show ?thesis by blast
qed

section \<open>The finalizer\<close>

definition absentProxy :: "'w senv \<Rightarrow> proxy_set \<Rightarrow> bool list" where
  "absentProxy S px = [absent (api_get (s_svcs S)) (pxo_ns px, proxyResourceName px), absent (api_get (s_clonesets S)) (pxo_ns px, proxyResourceName px)]"

fun isDelProxy :: "proxy_set \<Rightarrow> event \<Rightarrow> bool" where
  "isDelProxy px (SvcW (WDelete v)) = (v = proxySvcRef px)"
| "isDelProxy px (CloneSetW (WDelete x)) = (x = proxyCloneSetRef px)"
| "isDelProxy px _ = False"

interpretation proxyOwned: owned_objects "deleteOwnedProxy (loggedS S) px" "zip (existOwnedProxy (loggedS S) px) (absentProxy S px)"
    "ret ()" "isDelProxy px" "\<lambda>_. False" for S px
  by unfold_locales (auto simp: deleteOwnedProxy_def existOwnedProxy_def absentProxy_def intro!: onlySends_callW_write existsR_sends onlySends_ret dest!: existsR_absent)

text \<open>\<^verbatim>\<open>Finalize\<close> of the proxy set: it deletes its service and its clone set, nothing else, and reports completion only when the server
  has answered that both are gone.\<close>

theorem proxy_finalize:
  assumes run: "ProxyFinalize (loggedS S) s = (r, s')"
  shows "(r = Inr True \<longrightarrow> list_all (\<lambda>b. b) (absentProxy S (Obj s))) \<and> (\<exists>ds. logOf s' = ds @ logOf s \<and> list_all (isDelProxy (Obj s)) ds)"
proof -
  have zip: "map fst (zip (existOwnedProxy (loggedS S) (Obj s)) (absentProxy S (Obj s))) = existOwnedProxy (loggedS S) (Obj s)"
      "list_all snd (zip (existOwnedProxy (loggedS S) (Obj s)) (absentProxy S (Obj s))) \<longleftrightarrow> list_all (\<lambda>b. b) (absentProxy S (Obj s))"
    by (simp_all add: existOwnedProxy_def absentProxy_def)
  from run have "finalizeOwned (deleteOwnedProxy (loggedS S) (Obj s)) (existOwnedProxy (loggedS S) (Obj s)) (ret ()) s = (r, s')"
    unfolding ProxyFinalize_def bindR_getObj .
  from proxyOwned.finalized[where S = S and px = "Obj s", unfolded zip, OF this] show ?thesis by (auto simp: list_all_iff)
qed

section \<open>Sample runs\<close>

definition spreadSet :: pod_set where
  "spreadSet = samplePodSet\<lparr>pd_topology := Some [''zone''], pd_overlay := Some (noOverlay\<lparr>po_labels := Some [''team'' \<mapsto> ''a'']\<rparr>)\<rparr>"

definition smallProxy :: proxy_set where
  "smallProxy = \<lparr>pxo_name = ''p'', pxo_ns = ''ns'', pxo_kind = ''ProxySet'',
     pxo_spec = \<lparr>psp_pod = spreadSet\<lparr>pd_replicas := 1\<rparr>, psp_serviceType = [], psp_serviceAnnos = None, psp_nodePort = None, psp_minReadySeconds = 0,
       psp_waitPlugin = Some ''127.0.0.1:80''\<rparr>,
     pxo_dep = Some (Some sampleDep), pxo_conditions = [], pxo_host = [], pxo_port = 0\<rparr>"

lemma spread_memory: "\<exists>v. GoMemLimitEnv sampleTools spreadSet = Inr v" "\<exists>v. GoMemLimitEnv sampleTools (spreadSet\<lparr>pd_replicas := n\<rparr>) = Inr v"
  by (simp_all add: GoMemLimitEnv_def spreadSet_def samplePodSet_def noOverlay_def noMain_def sampleTools_def or_defs)

lemma finish_topology:
  "ps_topology (finishPodSpec U p sel sp c s) = orElse (podOv p po_topology) (map (\<lambda>d. TopoSpread d sel) (orElse (pd_topology p) []))"
  by (simp add: finishPodSpec_def overlayPod_spec SyncTopology_def)

lemma spread_topology: "podOv (noMemory spreadSet) po_topology = None" "pd_topology (noMemory spreadSet) = Some [''zone'']"
  "podOv spreadSet po_labels = Some [''team'' \<mapsto> ''a'']"
  by (simp_all add: noMemory_def spreadSet_def podOv_def noOverlay_def)

lemma spread_spec:
  assumes p: "p = spreadSet \<or> p = spreadSet\<lparr>pd_replicas := n\<rparr>" and vols: "configOk (ps_volumes s)"
  shows "\<exists>s'. withConfig sampleTools desired (specProxy sampleTools p l localStorage) s = Inr s'"
proof -
  obtain memVar where mem: "GoMemLimitEnv sampleTools p = Inr memVar" using p spread_memory by blast
  have "addedVolumes (noMemory p) localStorage = []"
    using p by (auto simp: addedVolumes_def noMemory_def localStorage_def spreadSet_def samplePodSet_def noOverlay_def)
  then have "configOk (ps_volumes (finishPodSpec sampleTools (noMemory p) l localStorage c (s\<lparr>ps_gates := g\<rparr>)))" for c g
    using vols by (simp add: finish_volumes[OF sampleTools_laws])
  then show ?thesis by (simp add: withConfig_def specProxy_def mem thenE_def setConfigVolume_iff[OF sampleTools_laws])
qed

text \<open>The first rendering of a new template is the last one here, and its topology has the label of the overlay.\<close>

theorem proxy_template_settles_witness:
  "\<exists>t1. renderProxy sampleTools spreadSet localStorage [] ''c'' (newTemplate (Some Map.empty)) = Inr t1 \<and>
     ps_topology (pm_spec t1) = [TopoSpread ''zone'' (Some [''team'' \<mapsto> ''a''])] \<and>
     renderProxy sampleTools spreadSet localStorage [] ''c'' t1 = Inr t1"
proof -
  let ?R = "renderProxy sampleTools spreadSet localStorage [] ''c''" let ?t = "newTemplate (Some Map.empty)"
  let ?g = "\<lambda>l. withConfig sampleTools ''c'' (specProxy sampleTools spreadSet l localStorage)"
  have top: "ps_topology s' = [TopoSpread ''zone'' l]" if "?g l s = Inr s'" for l s s'
    using that by (auto simp: withConfig_def specProxy_def thenE_Inr_iff setConfigVolume_iff[OF sampleTools_laws] finish_topology spread_topology or_defs)
  have "configOk (ps_volumes (pm_spec ?t))" by (simp add: newTemplate_def emptyPodSpec_def configOk_def)
  then obtain s1 where s1: "?g (Some [''team'' \<mapsto> ''a'']) (pm_spec ?t) = Inr s1" using spread_spec[OF disjI1[OF refl]] by blast
  have shared: "spreadLabels spreadSet ?t = Some [''team'' \<mapsto> ''a'']"
    by (simp add: spreadLabels_def sharedLabels_def newTemplate_def overMap_def gmake_def spread_topology)
  let ?t1 = "(metaProxy sampleTools spreadSet [] ?t)\<lparr>pm_spec := s1\<rparr>"
  have t1: "?R ?t = Inr ?t1" by (simp add: renderProxy_eq thenE_def shared s1)
  have "?R ?t1 = Inr ?t1" using proxy_template_settles[OF sampleTools_laws t1] by (simp add: newTemplate_def)
  then show ?thesis using t1 top[OF s1] by (intro exI[of _ ?t1]) simp
qed

text \<open>A reconciliation with one ready proxy.\<close>

definition readyProxies :: clone_set where
  "readyProxies = (buildCloneSetProxy smallProxy)\<lparr>ks_statusReady := 1\<rparr>"

definition proxyWorld :: set_mem where
  "proxyWorld = setWorld\<lparr>sm_clonesets := [readyProxies]\<rparr>"

lemma proxy_inplace: "inplaceConfig sampleTools (proxyPod smallProxy)"
  using small_inplace by (simp add: inplaceConfig_def opVersion_def proxyPod_def smallProxy_def spreadSet_def drainCN_def)

lemma proxy_config: "\<exists>cm. buildProxyConfigMap sampleTools sampleCodec smallProxy sampleDep = Inr (cm, ''2000000'')"
  using proxy_inplace
  by (simp add: buildProxyConfigMap_def configData_def sampleDep_def ToString_def MarshalTOML_def sampleCodec_def sampleDigest thenE_def) (simp add: sampleTools_def)

lemma proxy_sync:
  assumes "bm_cms (sm_base w) = []"
  shows "\<exists>cs' w' l'. syncCloneSetProxy sampleTools sampleCodec (loggedS setEnv) readyProxies \<lparr>Obj = smallProxy, world = (w, l)\<rparr> =
    (Inr cs', \<lparr>Obj = smallProxy, world = (w', l')\<rparr>) \<and> ks_statusReady cs' = 1"
proof -
  let ?p = "proxyPod smallProxy" let ?t = "ks_template readyProxies"
  obtain cm where cm: "buildProxyConfigMap sampleTools sampleCodec smallProxy sampleDep = Inr (cm, ''2000000'')" using proxy_config by blast
  have p: "?p = spreadSet\<lparr>pd_replicas := 1\<rparr>" by (simp add: proxyPod_def smallProxy_def)
  have "configOk (ps_volumes (pm_spec ?t))"
    by (simp add: readyProxies_def buildCloneSetProxy_def CloneSetTemplate_def Let_def newTemplate_def emptyPodSpec_def configOk_def)
  then obtain spec where "withConfig sampleTools (cm_name cm) (specProxy sampleTools ?p (spreadLabels ?p ?t) localStorage) (pm_spec ?t) = Inr spec"
    using spread_spec[of ?p 1] p by blast
  then have "renderProxy sampleTools ?p localStorage ''2000000'' (cm_name cm) ?t = Inr ((metaProxy sampleTools ?p ''2000000'' ?t)\<lparr>pm_spec := spec\<rparr>)"
    by (simp add: renderProxy_eq thenE_def)
  then obtain t1 where t1: "syncPodTemplate sampleTools ?p (Some localStorage) ''2000000'' proxyProbe ?t = Inr t1"
      and "\<exists>spec'. setConfigVolume sampleTools (cm_name cm) (pm_spec t1) = Inr spec'"
    by (auto simp: renderProxy_def thenE_Inr_iff overSpec_Inr)
  then obtain spec' where spec': "setConfigVolume sampleTools (cm_name cm) (pm_spec t1) = Inr spec'" by blast
  have "ks_statusReady readyProxies = 1" "ld_storage sampleDep = localStorage" "pxo_dep smallProxy = Some (Some sampleDep)"
    by (simp_all add: readyProxies_def sampleDep_def smallProxy_def)
  with cm t1 spec' small_ensure[OF assms, where c = smallProxy and l = l and cm = cm] proxy_inplace show ?thesis
    unfolding syncCloneSetProxy_def bindR_getObj
    by (simp add: depLogSet_def SyncMOPod_def SyncConfigMap_def bindR_def liftE_def wrapE_def ret_def)
qed

theorem proxy_observe_witness:
  "\<exists>s'. ProxyObserve sampleTools sampleCodec (loggedS setEnv) \<lparr>Obj = smallProxy, world = (proxyWorld, [])\<rparr> = (Inr (), s') \<and>
     s_isReady setEnv (pxo_conditions (Obj s')) \<and> pxo_port (Obj s') = 6001"
proof -
  let ?s = "\<lparr>Obj = smallProxy, world = (proxyWorld, [])\<rparr>"
  have "bm_cms (sm_base proxyWorld) = []" by (simp add: proxyWorld_def setWorld_def lateWorld_def bucketWorld_def)
  then obtain cs w l where cs: "syncCloneSetProxy sampleTools sampleCodec (loggedS setEnv) readyProxies ?s = (Inr cs, \<lparr>Obj = smallProxy, world = (w, l)\<rparr>)"
      and ready: "ks_statusReady cs = 1" using proxy_sync by blast
  have bgn: "s_csBegin setEnv (buildCloneSetProxy smallProxy) proxyWorld = (Inr readyProxies, proxyWorld)"
    by (simp add: setEnv_def proxyWorld_def readyProxies_def)
  have "\<exists>w1. cloneSetR (loggedS setEnv) (buildCloneSetProxy smallProxy) (syncCloneSetProxy sampleTools sampleCodec (loggedS setEnv)) ?s =
      (Inr cs, \<lparr>Obj = smallProxy, world = (w1, CloneSetOwnedW readyProxies cs # l)\<rparr>)"
    using bgn cs by (simp add: cloneSetR_def bindR_def callW_def readL_def writeL_def) (simp add: setEnv_def)
  then obtain w1 where A: "cloneSetR (loggedS setEnv) (buildCloneSetProxy smallProxy) (syncCloneSetProxy sampleTools sampleCodec (loggedS setEnv)) ?s =
      (Inr cs, \<lparr>Obj = smallProxy, world = (w1, CloneSetOwnedW readyProxies cs # l)\<rparr>)" by blast
  obtain svc xs e where B: "serviceR (loggedS setEnv) (buildSvcProxy smallProxy) (\<lambda>v. ret (syncSvcProxy (pxo_spec smallProxy) v))
      \<lparr>Obj = smallProxy, world = (w1, CloneSetOwnedW readyProxies cs # l)\<rparr> =
      (Inr svc, \<lparr>Obj = smallProxy, world = (w1\<lparr>sm_svcs := xs\<rparr>, e # CloneSetOwnedW readyProxies cs # l)\<rparr>)"
    using small_service by metis
  have one: "pd_replicas (proxyPod smallProxy) = 1" by (simp add: proxyPod_def smallProxy_def)
  have "\<exists>s'. ProxyObserve sampleTools sampleCodec (loggedS setEnv) ?s = (Inr (), s')"
    unfolding ProxyObserve_def bindR_getObj
    using A B ready one
    by (simp add: bindR_def wrapE_def publishProxy_def setProxyReady_def SetCondition_def getObj_def readW_def modObj_def Let_def split: prod.splits)
  then obtain s' where run: "ProxyObserve sampleTools sampleCodec (loggedS setEnv) ?s = (Inr (), s')" by blast
  from proxy_observe[OF setEnv_laws run] run show ?thesis by auto
qed

theorem proxy_finalize_witness:
  "fst (ProxyFinalize (loggedS setEnv) \<lparr>Obj = smallProxy, world = (setWorld, [])\<rparr>) = Inr True \<and> list_all (\<lambda>b. b) (absentProxy setEnv smallProxy)"
proof -
  let ?run = "ProxyFinalize (loggedS setEnv) \<lparr>Obj = smallProxy, world = (setWorld, [])\<rparr>"
  have fin: "fst ?run = Inr True"
    by (simp add: ProxyFinalize_def finalizeOwned_def deleteOwnedProxy_def existOwnedProxy_def ignoreNotFoundR_def existsR_def IsNotFound_def notFoundErr_def
        isPanic_def set_run_defs)
  with proxy_finalize[of setEnv "\<lparr>Obj = smallProxy, world = (setWorld, [])\<rparr>" "Inr True" "snd ?run"] show ?thesis by (simp add: prod_eq_iff)
qed

end
