(* ===== verification/Backup_Restore.thy ===== *)
theory Backup_Restore
  imports Cluster_Control
begin

text \<open>
  Backup and restore, \<^verbatim>\<open>pkg/controllers/br\<close> with the client of \<^verbatim>\<open>pkg/cmd\<close> and the types of \<^verbatim>\<open>br_types.go\<close>: a backup or restore job
  starts a Kubernetes job and a service in front of it, polls the command over HTTP, and ends as completed or failed; ended jobs are
  collected after their time to live. Both kinds are one generic record, as the interface \<^verbatim>\<open>JobObject\<close> of the source.

  The theorems: the phases of a job follow one machine (locale \<open>job_machine\<close>, interpreted for both controllers) and an ended job is left
  alone; a completed backup names a backup object; what the garbage collector deletes; what the finalizers wait for; and the
  credentials a restore job gets.
\<close>

section \<open>Jobs\<close>

record 'sp br_job =
  jo_name :: string
  jo_ns :: string
  jo_uid :: string
  jo_kind :: string
  jo_ttl :: "int option"
  jo_overlay :: "pod_overlay option"
  jo_spec :: 'sp
  jo_conditions :: "condition list"
  jo_phase :: string
  jo_backup :: string

record backup_spec =
  bsp_cluster :: "string option"
  bsp_cnset :: "string option"
  bsp_secret :: "string option"
  bsp_target :: shared_storage

record restore_spec =
  rsp_backup :: string
  rsp_target :: shared_storage

record backup =
  bu_name :: string
  bu_labels :: gomap
  bu_location :: shared_storage
  bu_id :: string
  bu_at :: time
  bu_complete :: time
  bu_source :: string
  bu_raw :: string

definition JobPhasePending :: string where "JobPhasePending = ''Pending''"
definition JobPhaseRunning :: string where "JobPhaseRunning = ''Running''"
definition JobConditionTypeEnded :: string where "JobConditionTypeEnded = ''Ended''"
definition defaultTTL :: int where "defaultTTL = 3600 * second"

definition GetTTL :: "'sp br_job \<Rightarrow> int" where
  "GetTTL j = orElse (jo_ttl j) defaultTTL"

definition GetSourceRef :: "backup_spec br_job \<Rightarrow> string" where
  "GetSourceRef j = (case bsp_cluster (jo_spec j) of
      Some c \<Rightarrow> ''matrixonecluster/'' @ jo_ns j @ ''/'' @ c
    | None \<Rightarrow> (case bsp_cnset (jo_spec j) of Some c \<Rightarrow> ''cnset/'' @ jo_ns j @ ''/'' @ c | None \<Rightarrow> []))"

text \<open>The Kubernetes job, with the number of failed pods of its status.\<close>

record pod_job =
  pj_name :: string
  pj_ns :: string
  pj_labels :: gomap
  pj_template :: pod_tpl
  pj_restartPolicy :: string
  pj_failed :: int

record cmd_status =
  cm_completed :: bool
  cm_stdout :: string
  cm_stderr :: string
  cm_exitCode :: int

text \<open>The world of the two controllers. \<open>b_http\<close> is \<^verbatim>\<open>http.Get\<close>, which answers with the status code and what reading the body gives;
  \<open>b_setCondition\<close> is \<^verbatim>\<open>meta.SetStatusCondition\<close>, \<open>b_getCondition\<close> is \<^verbatim>\<open>recon.GetCondition\<close>.\<close>

record 'w benv =
  b_bjobs :: "(backup_spec br_job, 'w) kind_api"
  b_rjobs :: "(restore_spec br_job, 'w) kind_api"
  b_backups :: "(backup, 'w) kind_api"
  b_jobs :: "(pod_job, 'w) kind_api"
  b_svcs :: "(service, 'w) kind_api"
  b_cnsets :: "obj_key \<Rightarrow> 'w \<Rightarrow> (err + cn_set) \<times> 'w"
  b_clusters :: "obj_key \<Rightarrow> 'w \<Rightarrow> (err + mo_cluster) \<times> 'w"
  b_http :: "string \<Rightarrow> 'w \<Rightarrow> (err + int \<times> (err + string)) \<times> 'w"
  b_unmarshal :: "string \<Rightarrow> err + cmd_status"
  b_now :: "'w \<Rightarrow> time \<times> 'w"
  b_setCondition :: "condition list \<Rightarrow> condition \<Rightarrow> 'w \<Rightarrow> condition list \<times> 'w"
  b_getCondition :: "condition list \<Rightarrow> string \<Rightarrow> condition option"

section \<open>The status of a command\<close>

definition pollPrefix :: string where "pollPrefix = ''error polling backup status''"

definition GetCmdStatus :: "'w benv \<Rightarrow> string \<Rightarrow> int \<Rightarrow> (('o, 'w) ctx, cmd_status) rm" where
  "GetCmdStatus B host port =
     bindR (wrapE pollPrefix (callW (b_http B (''http://'' @ host @ '':'' @ goItoa port @ ''/status'')))) (\<lambda>(code, body).
     if code \<noteq> 200 then errorf (pollPrefix @ '', status code '' @ goItoa code)
     else
       bindR (wrapE pollPrefix (liftE body)) (\<lambda>text.
       wrapE pollPrefix (liftE (b_unmarshal B text))))"

section \<open>Commands\<close>

definition MOUserEnvKey :: string where "MOUserEnvKey = ''MO_USER''"
definition MOPasswordEnvKey :: string where "MOPasswordEnvKey = ''MO_PASSWORD''"
definition RestoreAccessEnvKey :: string where "RestoreAccessEnvKey = ''RESTORE_ACCESS_KEY_ID''"
definition RestoreSecretEnvKey :: string where "RestoreSecretEnvKey = ''RESTORE_SECRET_ACCESS_KEY''"
definition MetaDelimiter :: string where "MetaDelimiter = ''META_DELIMITER''"
definition RawMetaEnv :: string where "RawMetaEnv = ''RAW_META''"

text \<open>The struct \<^verbatim>\<open>S3\<close> of a command.\<close>

record s3_cmd =
  sm_endpoint :: string
  sm_bucket :: string
  sm_path :: string
  sm_type :: string
  sm_readEnv :: bool

definition s3CmdOf :: "s3_provider \<Rightarrow> s3_cmd" where
  "s3CmdOf p = \<lparr>sm_endpoint = s3_endpoint p, sm_bucket = fst (splitSlash (s3_path p)), sm_path = orElse (snd (splitSlash (s3_path p))) [],
     sm_type = GetProviderType p, sm_readEnv = (s3_secretRef p \<noteq> None)\<rparr>"

definition BackupCommand :: "string \<Rightarrow> int \<Rightarrow> s3_cmd \<Rightarrow> string" where
  "BackupCommand host port s =
     ''/mo_br backup --host='' @ host @ '' --port='' @ goItoa port @ '' --user=$MO_USER --password=$MO_PASSWORD --backup_dir=s3''
     @ '' --endpoint='' @ sm_endpoint s @ '' --bucket='' @ sm_bucket s
     @ (if sm_path s \<noteq> [] then '' --filepath='' @ sm_path s else [])
     @ (if sm_type s = ''minio'' then '' --is_minio'' else [])
     @ (if sm_readEnv s then '' --access_key_id=$AWS_ACCESS_KEY_ID --secret_access_key=$AWS_SECRET_ACCESS_KEY'' else [])
     @ '' && echo '' @ MetaDelimiter @ '' && cat /mo_br.meta''"

definition RestoreCommand :: "string \<Rightarrow> bool \<Rightarrow> s3_cmd \<Rightarrow> string" where
  "RestoreCommand backupID readSource s =
     ''echo $'' @ RawMetaEnv @ '' > /mo_br.meta && sha256sum mo_br.meta | awk '' @ [CHR 0x27] @ ''{printf '' @ [CHR 0x22] @ ''%s'' @ [CHR 0x22] @ '',$1}''
     @ [CHR 0x27] @ '' > mo_br.meta.sha256 && /mo_br restore '' @ backupID @ '' --restore_dir s3''
     @ (if readSource then '' --backup_access_key_id=$AWS_ACCESS_KEY_ID --backup_secret_access_key=$AWS_SECRET_ACCESS_KEY'' else [])
     @ '' --restore_endpoint='' @ sm_endpoint s @ '' --restore_bucket='' @ sm_bucket s
     @ (if sm_path s \<noteq> [] then '' --restore_filepath='' @ sm_path s else [])
     @ (if sm_readEnv s then '' --restore_access_key_id=$'' @ RestoreAccessEnvKey @ '' --restore_secret_access_key=$'' @ RestoreSecretEnvKey else [])
     @ (if sm_type s = ''minio'' then '' --restore_is_minio'' else [])"

section \<open>The Kubernetes job and its service\<close>

definition defaultCMDRestPort :: int where "defaultCMDRestPort = 8080"

definition jobLabels :: "'sp br_job \<Rightarrow> gomap" where
  "jobLabels j = subLabels (jo_ns j) (jo_name j) (jo_kind j)"

text \<open>\<open>injectEnv\<close> of the callers replaces the environment of the container; here it is the new environment.\<close>

definition brContainer :: "tools \<Rightarrow> pod_overlay option \<Rightarrow> string \<Rightarrow> string \<Rightarrow> env_var list \<Rightarrow> ctr" where
  "brContainer U ov img command env =
     (OverlayMainContainer U ov ((emptyCtr ''br'')\<lparr>kc_image := img\<rparr>))\<lparr>kc_command := [''/cmdrest'', ''--'', command], kc_env := env\<rparr>"

text \<open>The job and its pod template have one label map, so that the labels of the overlay are on both.\<close>

definition buildJob :: "tools \<Rightarrow> 'sp br_job \<Rightarrow> string \<Rightarrow> string \<Rightarrow> env_var list \<Rightarrow> pod_job" where
  "buildJob U j img command env =
     (let t = OverlayPodMeta (jo_overlay j) \<lparr>pm_labels = jobLabels j, pm_annos = None,
                pm_spec = emptyPodSpec\<lparr>ps_containers := [brContainer U (jo_overlay j) img command env]\<rparr>\<rparr>
      in \<lparr>pj_name = jo_name j, pj_ns = jo_ns j, pj_labels = pm_labels t,
          pj_template = t\<lparr>pm_spec := OverlayPodSpec U (jo_overlay j) (pm_spec t)\<rparr>, pj_restartPolicy = ''Never'', pj_failed = 0\<rparr>)"

definition buildSvcJob :: "'sp br_job \<Rightarrow> service" where
  "buildSvcJob j = \<lparr>vs_name = jo_name j, vs_ns = jo_ns j, vs_labels = jobLabels j, vs_annos = Some Map.empty, vs_controller = None,
     vs_selector = jobLabels j, vs_type = [], vs_ports = [\<lparr>spt_name = ''rest'', spt_port = defaultCMDRestPort, spt_nodePort = 0\<rparr>], vs_headless = False\<rparr>"

definition jobRef :: "'sp br_job \<Rightarrow> pod_job" where
  "jobRef j = \<lparr>pj_name = jo_name j, pj_ns = jo_ns j, pj_labels = jobLabels j,
     pj_template = \<lparr>pm_labels = None, pm_annos = None, pm_spec = emptyPodSpec\<rparr>, pj_restartPolicy = [], pj_failed = 0\<rparr>"

definition secretEnv :: "string \<Rightarrow> string \<Rightarrow> string \<Rightarrow> env_var" where
  "secretEnv name secret key = \<lparr>ev_name = name, ev_src = EnvSecretKey secret key\<rparr>"

definition awsEnv :: "tools \<Rightarrow> string option \<Rightarrow> env_var list \<Rightarrow> env_var list" where
  "awsEnv U secret env = (case secret of
      None \<Rightarrow> env
    | Some r \<Rightarrow> u_upsertEnv U (u_upsertEnv U env (secretEnv AWSAccessKeyID r AWSAccessKeyID)) (secretEnv AWSSecretAccessKey r AWSSecretAccessKey))"

section \<open>How jobs end\<close>

text \<open>\<open>send\<close> is the status update of the kind.\<close>

definition setEnded :: "'w benv \<Rightarrow> condition_status \<Rightarrow> string \<Rightarrow> string \<Rightarrow> (('sp br_job, 'w) ctx, unit) rm" where
  "setEnded B st reason msg =
     bindR getObj (\<lambda>j.
     bindR (readW (b_setCondition B (jo_conditions j) (newCondition JobConditionTypeEnded st reason msg))) (\<lambda>conds.
     modObj (\<lambda>j. j\<lparr>jo_conditions := conds\<rparr>)))"

definition failJob :: "'w benv \<Rightarrow> ('sp br_job \<Rightarrow> 'w \<Rightarrow> (err + 'sp br_job) \<times> 'w) \<Rightarrow> string \<Rightarrow> (('sp br_job, 'w) ctx, unit) rm" where
  "failJob B send msg =
     bindR (modObj (\<lambda>j. j\<lparr>jo_phase := JobPhaseFailed\<rparr>)) (\<lambda>_.
     bindR (setEnded B ConditionTrue ''JobFailed'' msg) (\<lambda>_.
     updateObj send))"

definition completeJob :: "'w benv \<Rightarrow> ('sp br_job \<Rightarrow> 'w \<Rightarrow> (err + 'sp br_job) \<times> 'w) \<Rightarrow> string \<Rightarrow> ('sp br_job \<Rightarrow> 'sp br_job) \<Rightarrow> (('sp br_job, 'w) ctx, unit) rm" where
  "completeJob B send what result =
     bindR getObj (\<lambda>j.
     bindR (wrapE (''error finalize '' @ what @ '' job'') (ignoreNotFoundR (callW (api_delete (b_jobs B) (jobRef j))))) (\<lambda>_.
     bindR (modObj (\<lambda>j. (result j)\<lparr>jo_phase := JobPhaseCompleted\<rparr>)) (\<lambda>_.
     bindR (setEnded B ConditionTrue ''JobComplete'' []) (\<lambda>_.
     updateObj send))))"

definition failBackup :: "'w benv \<Rightarrow> string \<Rightarrow> ((backup_spec br_job, 'w) ctx, unit) rm" where
  "failBackup B = failJob B (api_updateStatus (b_bjobs B))"

definition completeBackup :: "'w benv \<Rightarrow> string \<Rightarrow> ((backup_spec br_job, 'w) ctx, unit) rm" where
  "completeBackup B backupName = completeJob B (api_updateStatus (b_bjobs B)) ''backup'' (\<lambda>j. j\<lparr>jo_backup := backupName\<rparr>)"

definition failRestore :: "'w benv \<Rightarrow> string \<Rightarrow> ((restore_spec br_job, 'w) ctx, unit) rm" where
  "failRestore B = failJob B (api_updateStatus (b_rjobs B))"

definition successRestore :: "'w benv \<Rightarrow> ((restore_spec br_job, 'w) ctx, unit) rm" where
  "successRestore B = completeJob B (api_updateStatus (b_rjobs B)) ''restore'' (\<lambda>j. j)"

section \<open>Waiting for a job\<close>

definition pollInterval :: int where "pollInterval = 15 * second"
definition PreNameLabelKey :: string where "PreNameLabelKey = ''matrixorigin.io/pre-name''"
definition PreUUIDLabelKey :: string where "PreUUIDLabelKey = ''matrixorigin.io/pre-uuid''"

text \<open>\<^verbatim>\<open>strings.Split\<close> with a separator that is not empty.\<close>

fun splitFrom :: "string \<Rightarrow> string \<Rightarrow> string \<Rightarrow> string list" where
  "splitFrom sep acc [] = [rev acc]"
| "splitFrom sep acc (c # cs) =
     (if take (length sep) (c # cs) = sep then rev acc # splitFrom sep [] (drop (length sep - 1) cs)
      else splitFrom sep (c # acc) cs)"

definition trimChar :: "char \<Rightarrow> string \<Rightarrow> string" where
  "trimChar x s = rev (dropWhile (\<lambda>c. c = x) (rev (dropWhile (\<lambda>c. c = x) s)))"

text \<open>The raw metadata and the identity of the backup in the output of the command; a short identity panics.\<close>

definition parseBackup :: "string \<Rightarrow> err + string \<times> string" where
  "parseBackup out = (case splitFrom MetaDelimiter [] out of
      [_, rest] \<Rightarrow> (let raw = trimChar (CHR 0x0A) (trimChar (CHR '' '') rest) in Inr (raw, takeWhile (\<lambda>c. c \<noteq> CHR '','') raw))
    | _ \<Rightarrow> Inl (Err Plain (''error parse backup id from stdout: '' @ out)))"

definition backupName :: "'sp br_job \<Rightarrow> string \<Rightarrow> err + string" where
  "backupName j bid = (if length bid < 5 then Inl slicePanic else Inr (jo_name j @ ''-'' @ take 5 bid))"

definition createBackup :: "'w benv \<Rightarrow> string \<Rightarrow> ((backup_spec br_job, 'w) ctx, unit) rm" where
  "createBackup B out =
     bindR getObj (\<lambda>j.
     bindR (liftE (parseBackup out)) (\<lambda>(raw, bid).
     bindR (liftE (backupName j bid)) (\<lambda>name.
     bindR (readW (b_now B)) (\<lambda>t1.
     bindR (readW (b_now B)) (\<lambda>t2.
     bindR (attempt (callW (api_create (b_backups B)
       \<lparr>bu_name = name, bu_labels = None, bu_location = bsp_target (jo_spec j), bu_id = bid, bu_at = t1, bu_complete = t2,
        bu_source = GetSourceRef j, bu_raw = raw\<rparr>))) (\<lambda>r. case r of
       Inl e \<Rightarrow> if ekind e = AlreadyExists then completeBackup B name else throw (wrapPrefix ''error ensure backup'' e)
     | Inr _ \<Rightarrow> completeBackup B name))))))"

text \<open>What both controllers ask first: the job and the status of its command. The result is a failure or the status.\<close>

definition jobStatus :: "'w benv \<Rightarrow> string \<Rightarrow> 'sp br_job \<Rightarrow> (('sp br_job, 'w) ctx, string + cmd_status) rm" where
  "jobStatus B what j =
     bindR (attempt (callW (api_get (b_jobs B) (jo_ns j, jo_name j)))) (\<lambda>r. case r of
       Inl e \<Rightarrow> if IsNotFound e then ret (Inl ''job is cleaned externally'') else throw (wrapPrefix ''error get backup job'' e)
     | Inr job \<Rightarrow>
         if pj_failed job > 0 then ret (Inl ''backup job is failed'')
         else
           let svc = buildSvcJob j in
           bindR (wrapE (''error get '' @ what @ '' status'') (GetCmdStatus B (vs_name svc @ ''.'' @ vs_ns svc) defaultCMDRestPort)) (\<lambda>st. ret (Inr st)))"

definition followBackup :: "'w benv \<Rightarrow> backup_spec br_job \<Rightarrow> ((backup_spec br_job, 'w) ctx, unit) rm" where
  "followBackup B j =
     bindR (jobStatus B ''backup'' j) (\<lambda>st. case st of
       Inl why \<Rightarrow> failBackup B why
     | Inr st \<Rightarrow>
         if \<not> cm_completed st
         then bindR (setEnded B ConditionFalse ''JobRunning'' []) (\<lambda>_. ErrReSync ''wait backup complete'' pollInterval)
         else if cm_exitCode st = 0 then createBackup B (cm_stdout st)
         else failBackup B (cm_stderr st))"

definition waitBackup :: "'w benv \<Rightarrow> ((backup_spec br_job, 'w) ctx, unit) rm" where
  "waitBackup B =
     bindR getObj (\<lambda>j.
     bindR (wrapE ''error list owned backups'' (callW (api_list (b_backups B) []
       (MatchingLabels [(PreNameLabelKey, jo_name j), (PreUUIDLabelKey, jo_uid j)])))) (\<lambda>backups. case backups of
       b # _ \<Rightarrow> completeBackup B (bu_name b)
     | [] \<Rightarrow> followBackup B j))"

definition waitRestore :: "'w benv \<Rightarrow> ((restore_spec br_job, 'w) ctx, unit) rm" where
  "waitRestore B =
     bindR getObj (\<lambda>j.
     bindR (jobStatus B ''restore'' j) (\<lambda>st. case st of
       Inl why \<Rightarrow> failRestore B why
     | Inr st \<Rightarrow>
         if \<not> cm_completed st then ErrReSync ''wait restore complete'' pollInterval
         else if cm_exitCode st = 0 then successRestore B
         else failRestore B (cm_stderr st)))"

section \<open>Starting a job\<close>

definition ignoreExistsR :: "(('o, 'w) ctx, 'a) rm \<Rightarrow> (('o, 'w) ctx, unit) rm" where
  "ignoreExistsR m = bindR (attempt m) (\<lambda>r. case r of
     Inl e \<Rightarrow> if ekind e = AlreadyExists then ret () else throw e
   | Inr _ \<Rightarrow> ret ())"

definition ensureJob :: "'w benv \<Rightarrow> pod_job \<Rightarrow> service \<Rightarrow> (('o, 'w) ctx, unit) rm" where
  "ensureJob B job svc =
     bindR (wrapE ''error ensure job'' (ignoreExistsR (callW (api_create (b_jobs B) job)))) (\<lambda>_.
     wrapE ''error ensure service'' (ignoreExistsR (callW (api_create (b_svcs B) svc))))"

definition markPending :: "(('sp br_job, 'w) ctx, unit) rm" where
  "markPending = modObj (\<lambda>j. if jo_phase j = [] then j\<lparr>jo_phase := JobPhasePending\<rparr> else j)"

text \<open>Host, port and the secret of the source.\<close>

definition backupSource :: "'w benv \<Rightarrow> backup_spec br_job \<Rightarrow> (('o, 'w) ctx, string \<times> int \<times> string) rm" where
  "backupSource B j = (case bsp_cnset (jo_spec j) of
      Some name \<Rightarrow> (case bsp_secret (jo_spec j) of
          None \<Rightarrow> errorf ''bad backup config, secretRef must be set when using cnSetRef as backup source''
        | Some secret \<Rightarrow>
            bindR (wrapE ''error get cnset'' (callW (b_cnsets B (jo_ns j, name)))) (\<lambda>cn.
            if cno_host cn = [] then errorf ''cnset host is not set'' else ret (cno_host cn, cno_port cn, secret)))
    | None \<Rightarrow> (case bsp_cluster (jo_spec j) of
          None \<Rightarrow> errorf ''bad backup config, either cnSetRef or clusterRef must be set''
        | Some name \<Rightarrow>
            bindR (wrapE ''error get MO'' (callW (b_clusters B (jo_ns j, name)))) (\<lambda>m.
            if mst_host (mo_status m) = [] then errorf ''MO host is not set''
            else (case mst_credential (mo_status m) of
                None \<Rightarrow> errorf ''MO credential is not initialized''
              | Some secret \<Rightarrow> ret (mst_host (mo_status m), mst_port (mo_status m), secret)))))"

definition derefS3 :: "shared_storage \<Rightarrow> err + s3_provider" where
  "derefS3 st = (case sh_s3 st of None \<Rightarrow> Inl nilPanic | Some p \<Rightarrow> Inr p)"

definition backupEnv :: "tools \<Rightarrow> string \<Rightarrow> string option \<Rightarrow> env_var list" where
  "backupEnv U moSecret s3Secret = awsEnv U s3Secret
     [secretEnv MOUserEnvKey moSecret ''username'', secretEnv MOPasswordEnvKey moSecret ''password'']"

definition syncBackup :: "tools \<Rightarrow> 'w benv \<Rightarrow> string \<Rightarrow> ((backup_spec br_job, 'w) ctx, unit) rm" where
  "syncBackup U B img =
     bindR markPending (\<lambda>_.
     bindR getObj (\<lambda>j.
     bindR (backupSource B j) (\<lambda>(host, port, moSecret).
     bindR (liftE (derefS3 (bsp_target (jo_spec j)))) (\<lambda>s3.
     bindR (ensureJob B (buildJob U j img (BackupCommand host port (s3CmdOf s3)) (backupEnv U moSecret (s3_secretRef s3))) (buildSvcJob j)) (\<lambda>_.
     bindR (modObj (\<lambda>j. j\<lparr>jo_phase := JobPhaseRunning\<rparr>)) (\<lambda>_.
     bindR (setEnded B ConditionFalse ''JobRunning'' []) (\<lambda>_.
     updateObj (api_updateStatus (b_bjobs B)))))))))"

text \<open>The credentials of the target are read from the secret of the source, which may be nil.\<close>

definition restoreEnv :: "tools \<Rightarrow> string \<Rightarrow> string option \<Rightarrow> string option \<Rightarrow> err + env_var list" where
  "restoreEnv U raw source target =
     (let env = awsEnv U source [\<lparr>ev_name = RawMetaEnv, ev_src = EnvValue raw\<rparr>] in
      case target of
        None \<Rightarrow> Inr env
      | Some _ \<Rightarrow> (case source of
          None \<Rightarrow> Inl nilPanic
        | Some r \<Rightarrow> Inr (u_upsertEnv U (u_upsertEnv U env (secretEnv RestoreAccessEnvKey r AWSAccessKeyID))
            (secretEnv RestoreSecretEnvKey r AWSSecretAccessKey))))"

definition syncRestore :: "tools \<Rightarrow> 'w benv \<Rightarrow> string \<Rightarrow> ((restore_spec br_job, 'w) ctx, unit) rm" where
  "syncRestore U B img =
     bindR markPending (\<lambda>_.
     bindR getObj (\<lambda>j.
     bindR (wrapE ''error get backup'' (callW (api_get (b_backups B) ([], rsp_backup (jo_spec j))))) (\<lambda>bu.
     bindR (liftE (derefS3 (bu_location bu))) (\<lambda>src.
     bindR (liftE (derefS3 (rsp_target (jo_spec j)))) (\<lambda>tgt.
     bindR (liftE (restoreEnv U (bu_raw bu) (s3_secretRef src) (s3_secretRef tgt))) (\<lambda>env.
     bindR (ensureJob B (buildJob U j img (RestoreCommand (bu_id bu) (s3_secretRef src \<noteq> None) (s3CmdOf tgt)) env) (buildSvcJob j)) (\<lambda>_.
     bindR (modObj (\<lambda>j. j\<lparr>jo_phase := JobPhaseRunning\<rparr>)) (\<lambda>_.
     updateObj (api_updateStatus (b_rjobs B))))))))))"

section \<open>Observe, Finalize and the collector\<close>

datatype job_action = WaitJob | SyncJob

definition BackupObserve :: "'w benv \<Rightarrow> backup_spec br_job \<Rightarrow> job_action option" where
  "BackupObserve B j = (case b_getCondition B (jo_conditions j) JobConditionTypeEnded of
      Some c \<Rightarrow> if cd_status c = ConditionTrue then None else Some (if jo_phase j = JobPhaseRunning then WaitJob else SyncJob)
    | None \<Rightarrow> Some (if jo_phase j = JobPhaseRunning then WaitJob else SyncJob))"

definition RestoreObserve :: "restore_spec br_job \<Rightarrow> job_action option" where
  "RestoreObserve j =
     (if jo_phase j = JobPhaseFailed \<or> jo_phase j = JobPhaseCompleted then None
      else Some (if jo_phase j = JobPhaseRunning then WaitJob else SyncJob))"

text \<open>A reconciliation: the action \<^verbatim>\<open>Observe\<close> chose is run.\<close>

definition reconcileBackup :: "tools \<Rightarrow> 'w benv \<Rightarrow> string \<Rightarrow> ((backup_spec br_job, 'w) ctx, unit) rm" where
  "reconcileBackup U B img = bindR getObj (\<lambda>j. case BackupObserve B j of
     None \<Rightarrow> ret () | Some WaitJob \<Rightarrow> waitBackup B | Some SyncJob \<Rightarrow> syncBackup U B img)"

definition reconcileRestore :: "tools \<Rightarrow> 'w benv \<Rightarrow> string \<Rightarrow> ((restore_spec br_job, 'w) ctx, unit) rm" where
  "reconcileRestore U B img = bindR getObj (\<lambda>j. case RestoreObserve j of
     None \<Rightarrow> ret () | Some WaitJob \<Rightarrow> waitRestore B | Some SyncJob \<Rightarrow> syncRestore U B img)"

definition JobFinalize :: "'w benv \<Rightarrow> (('sp br_job, 'w) ctx, bool) rm" where
  "JobFinalize B =
     bindR getObj (\<lambda>j.
     bindR (attempt (callW (api_delete (b_jobs B) (jobRef j)))) (\<lambda>r. case r of
       Inr _ \<Rightarrow> ret False
     | Inl e \<Rightarrow> if IsNotFound e then ret True else throw (wrapPrefix ''error delete job'' e)))"

text \<open>\<^verbatim>\<open>GCActor\<close>; \<open>del\<close> deletes an object of the kind.\<close>

definition GCObserve :: "'w benv \<Rightarrow> ('sp br_job \<Rightarrow> 'w \<Rightarrow> (err + unit) \<times> 'w) \<Rightarrow> (('sp br_job, 'w) ctx, unit) rm" where
  "GCObserve B del =
     bindR getObj (\<lambda>j. case b_getCondition B (jo_conditions j) JobConditionTypeEnded of
       None \<Rightarrow> ret ()
     | Some c \<Rightarrow>
         if cd_status c = ConditionFalse then ret ()
         else
           bindR (readW (b_now B)) (\<lambda>now.
           let since = now - cd_lastTransition c in
           if since > GetTTL j then callW (del j)
           else ErrReSync ''wait for ttl'' (GetTTL j - since)))"

section \<open>The log of the two controllers\<close>

datatype bevent =
    BackupJobW "backup_spec br_job kwrite"
  | RestoreJobW "restore_spec br_job kwrite"
  | BackupObjW "backup kwrite"
  | BrJobW "pod_job kwrite"
  | BrSvcW "service kwrite"

definition loggedB :: "'w benv \<Rightarrow> ('w, bevent) elog benv" where
  "loggedB B =
     \<lparr>b_bjobs = logKind BackupJobW (b_bjobs B), b_rjobs = logKind RestoreJobW (b_rjobs B), b_backups = logKind BackupObjW (b_backups B),
      b_jobs = logKind BrJobW (b_jobs B), b_svcs = logKind BrSvcW (b_svcs B), b_cnsets = (\<lambda>k. readL (b_cnsets B k)),
      b_clusters = (\<lambda>k. readL (b_clusters B k)), b_http = (\<lambda>u. readL (b_http B u)), b_unmarshal = b_unmarshal B, b_now = readL (b_now B),
      b_setCondition = (\<lambda>cs c. readL (b_setCondition B cs c)), b_getCondition = b_getCondition B\<rparr>"

lemma loggedB_simps [simp]:
  "b_bjobs (loggedB B) = logKind BackupJobW (b_bjobs B)" "b_rjobs (loggedB B) = logKind RestoreJobW (b_rjobs B)"
  "b_backups (loggedB B) = logKind BackupObjW (b_backups B)" "b_jobs (loggedB B) = logKind BrJobW (b_jobs B)"
  "b_svcs (loggedB B) = logKind BrSvcW (b_svcs B)" "b_cnsets (loggedB B) = (\<lambda>k. readL (b_cnsets B k))"
  "b_clusters (loggedB B) = (\<lambda>k. readL (b_clusters B k))" "b_http (loggedB B) = (\<lambda>u. readL (b_http B u))"
  "b_unmarshal (loggedB B) = b_unmarshal B" "b_now (loggedB B) = readL (b_now B)"
  "b_setCondition (loggedB B) = (\<lambda>cs c. readL (b_setCondition B cs c))" "b_getCondition (loggedB B) = b_getCondition B"
  by (simp_all add: loggedB_def)

section \<open>The machine of a job\<close>

datatype job_state = Waiting | Working | Ended bool

definition absPhase :: "string \<Rightarrow> job_state" where
  "absPhase p = (if p = JobPhaseRunning then Working else if p = JobPhaseCompleted then Ended True
     else if p = JobPhaseFailed then Ended False else Waiting)"

inductive jobStep :: "job_state \<Rightarrow> job_state \<Rightarrow> bool" where
  start: "jobStep Waiting Working"
| stop: "jobStep Working (Ended b)"

inductive_simps jobStep_simps [simp]: "jobStep Waiting x" "jobStep Working x" "jobStep (Ended b) x"

definition jobDone :: "'sp br_job \<Rightarrow> bool" where
  "jobDone j \<longleftrightarrow> jo_phase j = JobPhaseCompleted \<or> jo_phase j = JobPhaseFailed"

text \<open>The condition of the job agrees with its phase.\<close>

definition jobEnded :: "'w benv \<Rightarrow> 'sp br_job \<Rightarrow> bool" where
  "jobEnded B j \<longleftrightarrow> (\<exists>c. b_getCondition B (jo_conditions j) JobConditionTypeEnded = Some c \<and> cd_status c = ConditionTrue)"

definition wfJob :: "'w benv \<Rightarrow> 'sp br_job \<Rightarrow> bool" where
  "wfJob B j \<longleftrightarrow> (jobEnded B j \<longleftrightarrow> jobDone j)"

definition okStep :: "('sp br_job \<Rightarrow> bool) \<Rightarrow> 'sp br_job \<Rightarrow> 'sp br_job \<Rightarrow> bool" where
  "okStep good j j' \<longleftrightarrow> good j' \<and> jobStep\<^sup>=\<^sup>= (absPhase (jo_phase j)) (absPhase (jo_phase j'))"

text \<open>\<open>ends ok Q j m\<close>: from the object \<open>j\<close>, whatever the outcome, \<open>m\<close> leaves an object in \<open>Q\<close> and sends events in \<open>ok\<close>.\<close>

definition ends :: "('e \<Rightarrow> bool) \<Rightarrow> ('o \<Rightarrow> bool) \<Rightarrow> 'o \<Rightarrow> (('o, ('w, 'e) elog) ctx, 'a) rm \<Rightarrow> bool" where
  "ends ok Q j m \<longleftrightarrow> (\<forall>s r s'. Obj s = j \<longrightarrow> m s = (r, s') \<longrightarrow> Q (Obj s') \<and> (\<exists>es. logOf s' = es @ logOf s \<and> (\<forall>e \<in> set es. ok e)))"

text \<open>Histories: an object is reconciled again and again; the next state is one that was written or left behind.\<close>

inductive jobHistory :: "(('sp br_job, ('w, bevent) elog) ctx, unit) rm \<Rightarrow> (bevent \<Rightarrow> 'sp br_job option) \<Rightarrow> 'sp br_job \<Rightarrow> 'sp br_job \<Rightarrow> bool"
  for R :: "(('sp br_job, ('w, bevent) elog) ctx, unit) rm" and wr :: "bevent \<Rightarrow> 'sp br_job option" where
  fresh: "jobHistory R wr j j"
| reconciled: "jobHistory R wr j (Obj s) \<Longrightarrow> R s = (r, s') \<Longrightarrow> logOf s' = es @ logOf s \<Longrightarrow>
     j' = Obj s' \<or> (\<exists>e \<in> set es. wr e = Some j') \<Longrightarrow> jobHistory R wr j j'"

locale job_machine =
  fixes R :: "(('sp br_job, ('w, bevent) elog) ctx, unit) rm"
    and wr :: "bevent \<Rightarrow> 'sp br_job option"
    and good :: "'sp br_job \<Rightarrow> bool"
  assumes steps: "good j \<Longrightarrow> ends (\<lambda>e. \<forall>j'. wr e = Some j' \<longrightarrow> okStep good j j') (okStep good j) j R"
    and rest: "good j \<Longrightarrow> jobDone j \<Longrightarrow> Obj s = j \<Longrightarrow> R s = (Inr (), s)"
begin

lemma history_steps:
  assumes "jobHistory R wr j j'" and "good j"
  shows "good j' \<and> jobStep\<^sup>*\<^sup>* (absPhase (jo_phase j)) (absPhase (jo_phase j'))"
  using assms
proof (induction rule: jobHistory.induct)
  case (reconciled j s r s' es j')
  then have good: "good (Obj s)" and path: "jobStep\<^sup>*\<^sup>* (absPhase (jo_phase j)) (absPhase (jo_phase (Obj s)))" by simp_all
  have "okStep good (Obj s) j'"
    using steps[OF good] reconciled(2-4) unfolding ends_def by (auto simp: ball_Un)
  then show ?case using path by (auto simp: okStep_def)
qed simp

lemma ended_stays:
  assumes "jobHistory R wr j j'" and "good j" and "jobDone j"
  shows "j' = j"
  using assms
proof (induction rule: jobHistory.induct)
  case (reconciled j s r s' es j')
  then have "Obj s = j" by simp
  then have "s' = s" using rest[of j s] reconciled by simp
  with reconciled show ?case by auto
qed simp

end

section \<open>The calculus of endings\<close>

text \<open>What the controllers rely on: a condition that was set is the one read, and the server answers a status update with the status it was
  sent.\<close>

definition jobLaws :: "'w benv \<Rightarrow> ('sp br_job, 'w) kind_api \<Rightarrow> bool" where
  "jobLaws B a \<longleftrightarrow>
     (\<forall>cs c w cs' w'. b_setCondition B cs c w = (cs', w') \<longrightarrow> cd_type c = JobConditionTypeEnded \<longrightarrow>
        (\<exists>d. b_getCondition B cs' JobConditionTypeEnded = Some d \<and> cd_status d = cd_status c)) \<and>
     (\<forall>x w y w'. api_updateStatus a x w = (Inr y, w') \<longrightarrow>
        jo_phase y = jo_phase x \<and> jo_conditions y = jo_conditions x \<and> jo_backup y = jo_backup x)"

lemma jobLaws_update:
  "jobLaws B a \<Longrightarrow> api_updateStatus a x w = (Inr y, w') \<Longrightarrow> jo_phase y = jo_phase x \<and> jo_conditions y = jo_conditions x \<and> jo_backup y = jo_backup x"
  unfolding jobLaws_def by blast

lemma endsI:
  "(\<And>s r s'. Obj s = j \<Longrightarrow> m s = (r, s') \<Longrightarrow> Q (Obj s') \<and> (\<exists>es. logOf s' = es @ logOf s \<and> (\<forall>e \<in> set es. ok e))) \<Longrightarrow> ends ok Q j m"
  unfolding ends_def by blast

lemma endsD:
  assumes "ends ok Q j m" and "Obj s = j" and "m s = (r, s')"
  obtains es where "logOf s' = es @ logOf s" and "\<forall>e \<in> set es. ok e" and "Q (Obj s')"
  using assms unfolding ends_def by blast

lemma ends_sends:
  assumes m: "onlySends (\<lambda>x. x = j) ok m" and Q: "Q j"
  shows "ends ok Q j m"
proof (rule endsI)
  fix s r s' assume "Obj s = j" "m s = (r, s')"
  then obtain es where "logOf s' = es @ logOf s" "\<forall>e \<in> set es. ok e" "Obj s' = j" by (rule onlySendsD[OF m])
  with Q show "Q (Obj s') \<and> (\<exists>es. logOf s' = es @ logOf s \<and> (\<forall>e \<in> set es. ok e))" by simp
qed

lemma ends_bind_run:
  assumes m: "onlySends (\<lambda>x. x = j) ok m" and Q: "Q j"
    and f: "\<And>s x s1. Obj s = j \<Longrightarrow> m s = (Inr x, s1) \<Longrightarrow> ends ok Q j (f x)"
  shows "ends ok Q j (bindR m f)"
proof (rule endsI)
  fix s r s' assume s: "Obj s = j" and run: "bindR m f s = (r, s')"
  from run show "Q (Obj s') \<and> (\<exists>es. logOf s' = es @ logOf s \<and> (\<forall>e \<in> set es. ok e))"
  proof (cases rule: bindR_cases)
    case (err e)
    obtain es where "logOf s' = es @ logOf s" "\<forall>e \<in> set es. ok e" "Obj s' = j" by (rule onlySendsD[OF m s err(1)])
    with Q show ?thesis by simp
  next
    case (ok x s1)
    obtain es1 where e1: "logOf s1 = es1 @ logOf s" "\<forall>e \<in> set es1. ok e" "Obj s1 = j" by (rule onlySendsD[OF m s ok(1)])
    obtain es2 where "logOf s' = es2 @ logOf s1" "\<forall>e \<in> set es2. ok e" "Q (Obj s')" by (rule endsD[OF f[OF s ok(1)] e1(3) ok(2)])
    with e1 show ?thesis by (intro conjI exI[of _ "es2 @ es1"]) auto
  qed
qed

lemma ends_bind: "onlySends (\<lambda>x. x = j) ok m \<Longrightarrow> Q j \<Longrightarrow> (\<And>x. ends ok Q j (f x)) \<Longrightarrow> ends ok Q j (bindR m f)"
  by (rule ends_bind_run)

lemma ends_getObj: "ends ok Q j (f j) \<Longrightarrow> ends ok Q j (bindR getObj f)"
  by (simp add: ends_def bindR_getObj)

text \<open>A step that only changes the object and the world, not the log.\<close>

lemma ends_after:
  assumes m: "\<And>s. Obj s = j \<Longrightarrow> \<exists>s1. m s = (Inr x, s1) \<and> logOf s1 = logOf s \<and> P (Obj s1)" and f: "\<And>j1. P j1 \<Longrightarrow> ends ok Q j1 (f x)"
  shows "ends ok Q j (bindR m f)"
proof (rule endsI)
  fix s r s' assume s: "Obj s = j" and run: "bindR m f s = (r, s')"
  from m[OF s] obtain s1 where s1: "m s = (Inr x, s1)" "logOf s1 = logOf s" "P (Obj s1)" by blast
  with run have "f x s1 = (r, s')" by (simp add: bindR_def)
  then obtain es where "logOf s' = es @ logOf s1" "\<forall>e \<in> set es. ok e" "Q (Obj s')" by (rule endsD[OF f[OF s1(3)] refl])
  with s1 show "Q (Obj s') \<and> (\<exists>es. logOf s' = es @ logOf s \<and> (\<forall>e \<in> set es. ok e))" by auto
qed

lemma ends_modObj: "ends ok Q (g j) (f ()) \<Longrightarrow> ends ok Q j (bindR (modObj g) f)"
  by (rule ends_after[where P = "\<lambda>x. x = g j"]) (auto simp: modObj_def)

lemma setEnded_runs:
  assumes "jobLaws B a"
  shows "\<exists>s1. setEnded (loggedB B) st reason msg s = (Inr (), s1) \<and> logOf s1 = logOf s \<and>
    (\<exists>conds d. Obj s1 = (Obj s)\<lparr>jo_conditions := conds\<rparr> \<and> b_getCondition B conds JobConditionTypeEnded = Some d \<and> cd_status d = st)"
proof -
  let ?c = "newCondition JobConditionTypeEnded st reason msg"
  obtain conds w where set: "b_setCondition B (jo_conditions (Obj s)) ?c (fst (world s)) = (conds, w)" by fastforce
  have "cd_type ?c = JobConditionTypeEnded" "cd_status ?c = st" by (simp_all add: newCondition_def)
  with assms set have "\<exists>d. b_getCondition B conds JobConditionTypeEnded = Some d \<and> cd_status d = st" unfolding jobLaws_def by metis
  then obtain d where d: "b_getCondition B conds JobConditionTypeEnded = Some d" "cd_status d = st" by blast
  have "setEnded (loggedB B) st reason msg s = (Inr (), s\<lparr>Obj := (Obj s)\<lparr>jo_conditions := conds\<rparr>, world := (w, snd (world s))\<rparr>)"
    using set by (simp add: setEnded_def bindR_def getObj_def readW_def readL_def modObj_def)
  then show ?thesis using d by (intro exI conjI) (assumption | simp)+
qed

lemma ends_setEnded:
  assumes laws: "jobLaws B a"
    and f: "\<And>conds d. b_getCondition B conds JobConditionTypeEnded = Some d \<Longrightarrow> cd_status d = st \<Longrightarrow> ends ok Q (j\<lparr>jo_conditions := conds\<rparr>) (f ())"
  shows "ends ok Q j (bindR (setEnded (loggedB B) st reason msg) f)"
proof (rule ends_after[where P = "\<lambda>x. \<exists>conds d. x = j\<lparr>jo_conditions := conds\<rparr> \<and> b_getCondition B conds JobConditionTypeEnded = Some d \<and> cd_status d = st"])
  fix s :: "('c br_job, ('a, bevent) elog) ctx" assume "Obj s = j"
  then show "\<exists>s1. setEnded (loggedB B) st reason msg s = (Inr (), s1) \<and> logOf s1 = logOf s \<and>
      (\<exists>conds d. Obj s1 = j\<lparr>jo_conditions := conds\<rparr> \<and> b_getCondition B conds JobConditionTypeEnded = Some d \<and> cd_status d = st)"
    using setEnded_runs[OF laws, of st reason msg s] by simp
qed (use f in blast)

lemma ends_update:
  assumes laws: "jobLaws B a" and ok: "ok (ev (WUpdateStatus j))"
    and Q: "\<And>y. jo_phase y = jo_phase j \<Longrightarrow> jo_conditions y = jo_conditions j \<Longrightarrow> Q y"
  shows "ends ok Q j (updateObj (api_updateStatus (logKind ev a)))"
proof (rule endsI)
  fix s r s' assume s: "Obj s = j" and run: "updateObj (api_updateStatus (logKind ev a)) s = (r, s')"
  obtain x w where x: "api_updateStatus a j (fst (world s)) = (x, w)" by fastforce
  have "logOf s' = [ev (WUpdateStatus j)] @ logOf s \<and> Q (Obj s')"
  proof (cases x)
    case (Inl e)
    then show ?thesis using run x s Q by (auto simp: updateObj_def logKind_simps writeL_def)
  next
    case (Inr y)
    then have "jo_phase y = jo_phase j \<and> jo_conditions y = jo_conditions j" using jobLaws_update[OF laws] x by blast
    then show ?thesis using Inr run x s Q by (auto simp: updateObj_def logKind_simps writeL_def)
  qed
  with ok show "Q (Obj s') \<and> (\<exists>es. logOf s' = es @ logOf s \<and> (\<forall>e \<in> set es. ok e))" by (intro conjI exI[of _ "[ev (WUpdateStatus j)]"]) simp_all
qed

lemma ends_throw: "Q j \<Longrightarrow> ends ok Q j (throw e)" "Q j \<Longrightarrow> ends ok Q j (ErrReSync m d)" "Q j \<Longrightarrow> ends ok Q j (ret x)" "Q j \<Longrightarrow> ends ok Q j (errorf m)"
  by (rule ends_sends, rule sendsR, assumption)+

lemma ends_if: "(b \<Longrightarrow> ends ok Q j m) \<Longrightarrow> (\<not> b \<Longrightarrow> ends ok Q j n) \<Longrightarrow> ends ok Q j (if b then m else n)"
  by simp

lemmas endsR = ends_getObj ends_modObj ends_throw ends_if

section \<open>Both controllers follow the machine\<close>

lemma absPhase_simps [simp]:
  "absPhase [] = Waiting" "absPhase JobPhasePending = Waiting" "absPhase JobPhaseRunning = Working" "absPhase JobPhaseCompleted = Ended True"
  "absPhase JobPhaseFailed = Ended False"
  by (simp_all add: absPhase_def JobPhasePending_def JobPhaseRunning_def JobPhaseCompleted_def JobPhaseFailed_def)

lemma jobDone_abs: "jobDone j \<longleftrightarrow> (\<exists>b. absPhase (jo_phase j) = Ended b)"
  by (auto simp: jobDone_def absPhase_def JobPhaseRunning_def JobPhaseCompleted_def JobPhaseFailed_def)

lemma running_abs: "jo_phase j = JobPhaseRunning \<longleftrightarrow> absPhase (jo_phase j) = Working"
  by (simp add: absPhase_def)

lemma wfJob_cong: "jo_phase y = jo_phase x \<Longrightarrow> jo_conditions y = jo_conditions x \<Longrightarrow> wfJob B y = wfJob B x"
  by (simp add: wfJob_def jobEnded_def jobDone_def)

lemma okStep_cong: "jo_phase y = jo_phase x \<Longrightarrow> jo_conditions y = jo_conditions x \<Longrightarrow> okStep (wfJob B) j x \<Longrightarrow> okStep (wfJob B) j y"
  by (auto simp: okStep_def wfJob_cong[of y x])

lemma okStep_refl: "good j \<Longrightarrow> okStep good j j"
  by (simp add: okStep_def)

lemma wfJob_ended:
  assumes "b_getCondition B (jo_conditions x) JobConditionTypeEnded = Some d"
  shows "wfJob B x \<longleftrightarrow> (cd_status d = ConditionTrue \<longleftrightarrow> jobDone x)"
  using assms by (simp add: wfJob_def jobEnded_def)

lemma ends_store:
  assumes laws: "jobLaws B a" and step: "okStep (wfJob B) j0 j" and ok: "\<And>x. okStep (wfJob B) j0 x \<Longrightarrow> ok (ev (WUpdateStatus x))"
  shows "ends ok (okStep (wfJob B) j0) j (updateObj (api_updateStatus (logKind ev a)))"
  by (rule ends_update[where ok = ok and ev = ev, OF laws ok[OF step]]) (rule okStep_cong[OF _ _ step])

lemma ends_failJob:
  assumes laws: "jobLaws B a" and working: "absPhase (jo_phase j) = Working"
    and ok: "\<And>x. okStep (wfJob B) j x \<Longrightarrow> ok (ev (WUpdateStatus x))"
  shows "ends ok (okStep (wfJob B) j) j (failJob (loggedB B) (api_updateStatus (logKind ev a)) msg)"
  unfolding failJob_def
proof (rule ends_modObj, rule ends_setEnded[OF laws], rule ends_store[where ok = ok and ev = ev, OF laws _ ok])
  fix conds d assume "b_getCondition B conds JobConditionTypeEnded = Some d" "cd_status d = ConditionTrue"
  then show "okStep (wfJob B) j (j\<lparr>jo_phase := JobPhaseFailed, jo_conditions := conds\<rparr>)"
    using working by (simp add: okStep_def wfJob_ended[of B _ d] jobDone_def jobStep.stop del: jobStep_simps)
qed

lemma ends_completeJob:
  assumes laws: "jobLaws B a" and good: "wfJob B j" and working: "absPhase (jo_phase j) = Working" and res: "jo_conditions (result j) = jo_conditions j"
    and ok: "\<And>x. okStep (wfJob B) j x \<Longrightarrow> ok (ev (WUpdateStatus x))" and del: "\<And>x. ok (BrJobW x)"
  shows "ends ok (okStep (wfJob B) j) j (completeJob (loggedB B) (api_updateStatus (logKind ev a)) what result)"
  unfolding completeJob_def
proof (rule ends_getObj, rule ends_bind)
  show "onlySends (\<lambda>x. x = j) ok (wrapE (''error finalize '' @ what @ '' job'') (ignoreNotFoundR (callW (api_delete (b_jobs (loggedB B)) (jobRef j)))))"
    unfolding ignoreNotFoundR_def loggedB_simps by (rule sendsR del | simp only: send_simps)+
  show "okStep (wfJob B) j j" by (rule okStep_refl[where good = "wfJob B", OF good])
  show "ends ok (okStep (wfJob B) j) j (bindR (modObj (\<lambda>j. (result j)\<lparr>jo_phase := JobPhaseCompleted\<rparr>)) (\<lambda>_.
     bindR (setEnded (loggedB B) ConditionTrue ''JobComplete'' []) (\<lambda>_. updateObj (api_updateStatus (logKind ev a)))))"
  proof (rule ends_modObj, rule ends_setEnded[OF laws], rule ends_store[where ok = ok and ev = ev, OF laws _ ok])
    fix conds d assume "b_getCondition B conds JobConditionTypeEnded = Some d" "cd_status d = ConditionTrue"
    then show "okStep (wfJob B) j ((result j)\<lparr>jo_phase := JobPhaseCompleted, jo_conditions := conds\<rparr>)"
      using working by (simp add: okStep_def wfJob_ended[of B _ d] jobDone_def jobStep.stop del: jobStep_simps)
  qed
qed

lemma ends_option: "(x = None \<Longrightarrow> ends ok Q j m) \<Longrightarrow> (\<And>y. x = Some y \<Longrightarrow> ends ok Q j (f y)) \<Longrightarrow> ends ok Q j (case x of None \<Rightarrow> m | Some y \<Rightarrow> f y)"
  by (cases x) simp_all

lemma ends_sum: "(\<And>y. ends ok Q j (f y)) \<Longrightarrow> (\<And>y. ends ok Q j (g y)) \<Longrightarrow> ends ok Q j (case x of Inl y \<Rightarrow> f y | Inr y \<Rightarrow> g y)"
  by (cases x) simp_all

lemma ends_list: "ends ok Q j m \<Longrightarrow> (\<And>y ys. ends ok Q j (f y ys)) \<Longrightarrow> ends ok Q j (case x of [] \<Rightarrow> m | y # ys \<Rightarrow> f y ys)"
  by (cases x) simp_all

lemma ends_prod: "(\<And>a b. ends ok Q j (f a b)) \<Longrightarrow> ends ok Q j (case x of (a, b) \<Rightarrow> f a b)"
  by (cases x) simp_all

lemma jobStatus_sends: "onlySends P ok (jobStatus (loggedB B) what j)"
  unfolding jobStatus_def GetCmdStatus_def Let_def loggedB_simps case_prod_unfold by (rule sendsR | simp only: send_simps)+

lemma backupSource_sends: "onlySends P ok (backupSource (loggedB B) j)"
  unfolding backupSource_def loggedB_simps by (rule sendsR | simp only: send_simps)+

lemma ensureJob_sends: "(\<And>x. ok (BrJobW x)) \<Longrightarrow> (\<And>x. ok (BrSvcW x)) \<Longrightarrow> onlySends P ok (ensureJob (loggedB B) job svc)"
  unfolding ensureJob_def ignoreExistsR_def loggedB_simps by (rule sendsR | simp only: send_simps | assumption)+

lemma ends_polling:
  assumes laws: "jobLaws B a" and working: "absPhase (jo_phase j) = Working"
  shows "ends ok (okStep (wfJob B) j) j (bindR (setEnded (loggedB B) ConditionFalse reason msg) (\<lambda>_. ErrReSync m d))"
proof (rule ends_setEnded[OF laws], rule ends_throw)
  fix conds d' assume "b_getCondition B conds JobConditionTypeEnded = Some d'" "cd_status d' = ConditionFalse"
  then show "okStep (wfJob B) j (j\<lparr>jo_conditions := conds\<rparr>)"
    using working by (simp add: okStep_def wfJob_ended[of B _ d'] jobDone_abs)
qed

lemma ends_waitBackup:
  assumes laws: "jobLaws B (b_bjobs B)" and good: "wfJob B j" and working: "absPhase (jo_phase j) = Working"
    and ok: "\<And>x. okStep (wfJob B) j x \<Longrightarrow> ok (BackupJobW (WUpdateStatus x))" "\<And>x. ok (BrJobW x)" "\<And>x. ok (BackupObjW x)"
  shows "ends ok (okStep (wfJob B) j) j (waitBackup (loggedB B))"
proof -
  have keep: "okStep (wfJob B) j j" by (rule okStep_refl[where good = "wfJob B", OF good])
  have complete: "ends ok (okStep (wfJob B) j) j (completeBackup (loggedB B) name)" for name
    unfolding completeBackup_def loggedB_simps by (rule ends_completeJob[where ok = ok and ev = BackupJobW, OF laws good working _ ok(1,2)]) simp_all
  have failed: "ends ok (okStep (wfJob B) j) j (failBackup (loggedB B) msg)" for msg
    unfolding failBackup_def loggedB_simps by (rule ends_failJob[where ok = ok and ev = BackupJobW, OF laws working ok(1)])
  have create: "ends ok (okStep (wfJob B) j) j (createBackup (loggedB B) out)" for out
    unfolding createBackup_def loggedB_simps
    by (rule ends_getObj ends_bind[where Q = "okStep (wfJob B) j" and j = j, OF _ keep] ends_prod ends_sum ends_if ends_throw complete keep ok sendsR | simp only: send_simps)+
  show ?thesis unfolding waitBackup_def followBackup_def loggedB_simps
    by (rule ends_getObj ends_list complete failed create ends_polling[OF laws working] jobStatus_sends ends_sum ends_if ends_bind[where Q = "okStep (wfJob B) j" and j = j, OF _ keep] sendsR | simp only: send_simps)+
qed

lemma ends_waitRestore:
  assumes laws: "jobLaws B (b_rjobs B)" and good: "wfJob B j" and working: "absPhase (jo_phase j) = Working"
    and ok: "\<And>x. okStep (wfJob B) j x \<Longrightarrow> ok (RestoreJobW (WUpdateStatus x))" "\<And>x. ok (BrJobW x)"
  shows "ends ok (okStep (wfJob B) j) j (waitRestore (loggedB B))"
proof -
  have keep: "okStep (wfJob B) j j" by (rule okStep_refl[where good = "wfJob B", OF good])
  have complete: "ends ok (okStep (wfJob B) j) j (successRestore (loggedB B))"
    unfolding successRestore_def loggedB_simps by (rule ends_completeJob[where ok = ok and ev = RestoreJobW, OF laws good working _ ok(1,2)]) simp_all
  have failed: "ends ok (okStep (wfJob B) j) j (failRestore (loggedB B) msg)" for msg
    unfolding failRestore_def loggedB_simps by (rule ends_failJob[where ok = ok and ev = RestoreJobW, OF laws working ok(1)])
  show ?thesis unfolding waitRestore_def
    by (rule ends_getObj complete failed jobStatus_sends ends_sum ends_if ends_throw keep ends_bind[where Q = "okStep (wfJob B) j" and j = j, OF _ keep])+
qed

lemma ends_started:
  assumes laws: "jobLaws B a" and good: "wfJob B j" and waiting: "absPhase (jo_phase j) = Waiting"
    and ok: "\<And>x. okStep (wfJob B) j x \<Longrightarrow> ok (ev (WUpdateStatus x))" and j1: "jo_conditions j1 = jo_conditions j" "jo_phase j1 = JobPhaseRunning"
  shows "ends ok (okStep (wfJob B) j) j1 (updateObj (api_updateStatus (logKind ev a)))"
    and "ends ok (okStep (wfJob B) j) j1 (bindR (setEnded (loggedB B) ConditionFalse reason msg) (\<lambda>_. updateObj (api_updateStatus (logKind ev a))))"
proof -
  have run: "\<not> jobDone (j1\<lparr>jo_conditions := conds\<rparr>)" "\<not> jobDone j1" for conds using j1 by (simp_all add: jobDone_abs)
  have "\<not> jobDone j" using waiting by (simp add: jobDone_abs)
  then have "wfJob B j1" using good j1 run by (simp add: wfJob_def jobEnded_def)
  then show "ends ok (okStep (wfJob B) j) j1 (updateObj (api_updateStatus (logKind ev a)))"
    by (intro ends_store[where ok = ok and ev = ev, OF laws _ ok]) (simp_all add: okStep_def waiting j1)
  show "ends ok (okStep (wfJob B) j) j1 (bindR (setEnded (loggedB B) ConditionFalse reason msg) (\<lambda>_. updateObj (api_updateStatus (logKind ev a))))"
  proof (rule ends_setEnded[OF laws], rule ends_store[where ok = ok and ev = ev, OF laws _ ok])
    fix conds d assume "b_getCondition B conds JobConditionTypeEnded = Some d" "cd_status d = ConditionFalse"
    then show "okStep (wfJob B) j (j1\<lparr>jo_conditions := conds\<rparr>)" using run by (simp add: okStep_def wfJob_ended[of B _ d] waiting j1)
  qed
qed

text \<open>A pending job is a waiting one with the same conditions.\<close>

lemma pending_job:
  assumes good: "wfJob B j" and waiting: "absPhase (jo_phase j) = Waiting" and j1: "j1 = (if jo_phase j = [] then j\<lparr>jo_phase := JobPhasePending\<rparr> else j)"
  shows "okStep (wfJob B) j j1" "jo_conditions j1 = jo_conditions j" "wfJob B j1" "absPhase (jo_phase j1) = Waiting"
proof -
  show cond: "jo_conditions j1 = jo_conditions j" and abs: "absPhase (jo_phase j1) = Waiting" using waiting j1 by simp_all
  then have "jobDone j1 = jobDone j" using waiting by (simp add: jobDone_abs)
  with good cond show wf: "wfJob B j1" by (simp add: wfJob_def jobEnded_def)
  with abs waiting show "okStep (wfJob B) j j1" by (simp add: okStep_def)
qed

lemma ends_syncBackup:
  assumes laws: "jobLaws B (b_bjobs B)" and good: "wfJob B j" and waiting: "absPhase (jo_phase j) = Waiting"
    and ok: "\<And>x. okStep (wfJob B) j x \<Longrightarrow> ok (BackupJobW (WUpdateStatus x))" "\<And>x. ok (BrJobW x)" "\<And>x. ok (BrSvcW x)"
  shows "ends ok (okStep (wfJob B) j) j (syncBackup U (loggedB B) img)"
  unfolding syncBackup_def markPending_def loggedB_simps
proof (rule ends_modObj)
  define j1 where "j1 = (if jo_phase j = [] then j\<lparr>jo_phase := JobPhasePending\<rparr> else j)"
  note pend = pending_job[OF good waiting j1_def]
  show "ends ok (okStep (wfJob B) j) (if jo_phase j = [] then j\<lparr>jo_phase := JobPhasePending\<rparr> else j) (bindR getObj (\<lambda>j.
     bindR (backupSource (loggedB B) j) (\<lambda>(host, port, moSecret).
     bindR (liftE (derefS3 (bsp_target (jo_spec j)))) (\<lambda>s3.
     bindR (ensureJob (loggedB B) (buildJob U j img (BackupCommand host port (s3CmdOf s3)) (backupEnv U moSecret (s3_secretRef s3))) (buildSvcJob j)) (\<lambda>_.
     bindR (modObj (\<lambda>j. j\<lparr>jo_phase := JobPhaseRunning\<rparr>)) (\<lambda>_.
     bindR (setEnded (loggedB B) ConditionFalse ''JobRunning'' []) (\<lambda>_.
     updateObj (api_updateStatus (logKind BackupJobW (b_bjobs B))))))))))"
    unfolding j1_def[symmetric]
    by (rule ends_getObj ends_modObj ends_prod backupSource_sends onlySends_liftE ensureJob_sends[OF ok(2,3)] ends_bind[where Q = "okStep (wfJob B) j" and j = j1, OF _ pend(1)]
        ends_started(2)[where ok = ok and ev = BackupJobW, OF laws good waiting ok(1)] | simp add: pend)+
qed

lemma ends_syncRestore:
  assumes laws: "jobLaws B (b_rjobs B)" and good: "wfJob B j" and waiting: "absPhase (jo_phase j) = Waiting"
    and ok: "\<And>x. okStep (wfJob B) j x \<Longrightarrow> ok (RestoreJobW (WUpdateStatus x))" "\<And>x. ok (BrJobW x)" "\<And>x. ok (BrSvcW x)"
  shows "ends ok (okStep (wfJob B) j) j (syncRestore U (loggedB B) img)"
  unfolding syncRestore_def markPending_def loggedB_simps
proof (rule ends_modObj)
  define j1 where "j1 = (if jo_phase j = [] then j\<lparr>jo_phase := JobPhasePending\<rparr> else j)"
  note pend = pending_job[OF good waiting j1_def]
  show "ends ok (okStep (wfJob B) j) (if jo_phase j = [] then j\<lparr>jo_phase := JobPhasePending\<rparr> else j) (bindR getObj (\<lambda>j.
     bindR (wrapE ''error get backup'' (callW (api_get (logKind BackupObjW (b_backups B)) ([], rsp_backup (jo_spec j))))) (\<lambda>bu.
     bindR (liftE (derefS3 (bu_location bu))) (\<lambda>src.
     bindR (liftE (derefS3 (rsp_target (jo_spec j)))) (\<lambda>tgt.
     bindR (liftE (restoreEnv U (bu_raw bu) (s3_secretRef src) (s3_secretRef tgt))) (\<lambda>env.
     bindR (ensureJob (loggedB B) (buildJob U j img (RestoreCommand (bu_id bu) (s3_secretRef src \<noteq> None) (s3CmdOf tgt)) env) (buildSvcJob j)) (\<lambda>_.
     bindR (modObj (\<lambda>j. j\<lparr>jo_phase := JobPhaseRunning\<rparr>)) (\<lambda>_.
     updateObj (api_updateStatus (logKind RestoreJobW (b_rjobs B)))))))))))"
    unfolding j1_def[symmetric]
    by (rule ends_getObj ends_modObj onlySends_wrapE onlySends_callW_read onlySends_liftE onlySends_orPanic ensureJob_sends[OF ok(2,3)]
        ends_bind[where Q = "okStep (wfJob B) j" and j = j1, OF _ pend(1)] ends_started(1)[where ok = ok and ev = RestoreJobW, OF laws good waiting ok(1)]
      | simp only: send_simps | simp add: pend)+
qed

lemma waiting_or_working: "\<not> jobDone j \<Longrightarrow> absPhase (jo_phase j) = Working \<or> absPhase (jo_phase j) = Waiting"
  by (cases "absPhase (jo_phase j)") (simp_all add: jobDone_abs)

text \<open>The job object in a write.\<close>

primrec written :: "'a kwrite \<Rightarrow> 'a" where
  "written (WCreate x) = x"
| "written (WUpdate x) = x"
| "written (WPatch x y) = y"
| "written (WUpdateStatus x) = x"
| "written (WPatchStatus x y) = y"
| "written (WDelete x) = x"

fun backupWr :: "bevent \<Rightarrow> backup_spec br_job option" where
  "backupWr (BackupJobW w) = Some (written w)"
| "backupWr _ = None"

fun restoreWr :: "bevent \<Rightarrow> restore_spec br_job option" where
  "restoreWr (RestoreJobW w) = Some (written w)"
| "restoreWr _ = None"

definition goodBackup :: "'w benv \<Rightarrow> backup_spec br_job \<Rightarrow> bool" where
  "goodBackup B j \<longleftrightarrow> jobLaws B (b_bjobs B) \<and> wfJob B j"

definition goodRestore :: "'w benv \<Rightarrow> restore_spec br_job \<Rightarrow> bool" where
  "goodRestore B j \<longleftrightarrow> jobLaws B (b_rjobs B) \<and> wfJob B j"

lemma okStep_good: "jobLaws B (b_bjobs B) \<Longrightarrow> okStep (goodBackup B) = okStep (wfJob B)" "jobLaws B (b_rjobs B) \<Longrightarrow> okStep (goodRestore B) = okStep (wfJob B)"
  by (auto simp: okStep_def goodBackup_def goodRestore_def fun_eq_iff)

interpretation backupMachine: job_machine "reconcileBackup U (loggedB B) img" backupWr "goodBackup B" for U B img
proof
  fix j :: "backup_spec br_job" assume "goodBackup B j"
  then have laws: "jobLaws B (b_bjobs B)" and good: "wfJob B j" by (simp_all add: goodBackup_def)
  let ?ok = "\<lambda>e. \<forall>j'. backupWr e = Some j' \<longrightarrow> okStep (wfJob B) j j'"
  have keep: "okStep (wfJob B) j j" by (rule okStep_refl[where good = "wfJob B", OF good])
  have "ends ?ok (okStep (wfJob B) j) j (reconcileBackup U (loggedB B) img)"
  proof (cases "jobDone j")
    case True
    then have "BackupObserve B j = None" using good by (auto simp: BackupObserve_def wfJob_def jobEnded_def split: option.splits)
    then show ?thesis by (simp add: reconcileBackup_def BackupObserve_def) (rule ends_getObj, simp add: BackupObserve_def ends_throw keep)
  next
    case False
    then have "BackupObserve B j = Some (if jo_phase j = JobPhaseRunning then WaitJob else SyncJob)"
      using good by (auto simp: BackupObserve_def wfJob_def jobEnded_def split: option.splits)
    moreover have "ends ?ok (okStep (wfJob B) j) j (waitBackup (loggedB B))" if "absPhase (jo_phase j) = Working"
      by (rule ends_waitBackup[OF laws good that]) simp_all
    moreover have "ends ?ok (okStep (wfJob B) j) j (syncBackup U (loggedB B) img)" if "absPhase (jo_phase j) = Waiting"
      by (rule ends_syncBackup[OF laws good that]) simp_all
    ultimately show ?thesis using waiting_or_working[OF False]
      by (auto simp: reconcileBackup_def BackupObserve_def running_abs intro!: ends_getObj)
  qed
  then show "ends (\<lambda>e. \<forall>j'. backupWr e = Some j' \<longrightarrow> okStep (goodBackup B) j j') (okStep (goodBackup B) j) j (reconcileBackup U (loggedB B) img)"
    by (simp add: okStep_good(1)[OF laws])
next
  fix j :: "backup_spec br_job" and s :: "(backup_spec br_job, ('a, bevent) elog) ctx" assume "goodBackup B j" "jobDone j" "Obj s = j"
  then show "reconcileBackup U (loggedB B) img s = (Inr (), s)"
    by (auto simp: reconcileBackup_def bindR_getObj goodBackup_def wfJob_def jobEnded_def BackupObserve_def ret_def)
qed

interpretation restoreMachine: job_machine "reconcileRestore U (loggedB B) img" restoreWr "goodRestore B" for U B img
proof
  fix j :: "restore_spec br_job" assume "goodRestore B j"
  then have laws: "jobLaws B (b_rjobs B)" and good: "wfJob B j" by (simp_all add: goodRestore_def)
  let ?ok = "\<lambda>e. \<forall>j'. restoreWr e = Some j' \<longrightarrow> okStep (wfJob B) j j'"
  have keep: "okStep (wfJob B) j j" by (rule okStep_refl[where good = "wfJob B", OF good])
  have "ends ?ok (okStep (wfJob B) j) j (reconcileRestore U (loggedB B) img)"
  proof (cases "jobDone j")
    case True
    then show ?thesis unfolding reconcileRestore_def by (intro ends_getObj) (simp add: RestoreObserve_def jobDone_def disj_commute ends_throw keep)
  next
    case False
    then have "RestoreObserve j = Some (if jo_phase j = JobPhaseRunning then WaitJob else SyncJob)" by (simp add: RestoreObserve_def jobDone_def)
    moreover have "ends ?ok (okStep (wfJob B) j) j (waitRestore (loggedB B))" if "absPhase (jo_phase j) = Working"
      by (rule ends_waitRestore[OF laws good that]) simp_all
    moreover have "ends ?ok (okStep (wfJob B) j) j (syncRestore U (loggedB B) img)" if "absPhase (jo_phase j) = Waiting"
      by (rule ends_syncRestore[OF laws good that]) simp_all
    ultimately show ?thesis using waiting_or_working[OF False]
      by (auto simp: reconcileRestore_def running_abs intro!: ends_getObj)
  qed
  then show "ends (\<lambda>e. \<forall>j'. restoreWr e = Some j' \<longrightarrow> okStep (goodRestore B) j j') (okStep (goodRestore B) j) j (reconcileRestore U (loggedB B) img)"
    by (simp add: okStep_good(2)[OF laws])
next
  fix j :: "restore_spec br_job" and s :: "(restore_spec br_job, ('a, bevent) elog) ctx" assume "goodRestore B j" "jobDone j" "Obj s = j"
  then show "reconcileRestore U (loggedB B) img s = (Inr (), s)"
    by (auto simp: reconcileRestore_def bindR_getObj jobDone_def RestoreObserve_def ret_def)
qed

text \<open>C31 (backup jobs): along any history of reconciliations, with any answers of the server, a backup job goes from waiting to working and
  from there to completed or failed and never back; its condition \<^verbatim>\<open>Ended\<close> is true exactly when its phase is completed or failed; and
  a job that has ended is not changed any more.\<close>

theorem backup_history:
  assumes "jobLaws B (b_bjobs B)" and "wfJob B j" and "jobHistory (reconcileBackup U (loggedB B) img) backupWr j j'"
  shows "wfJob B j' \<and> jobStep\<^sup>*\<^sup>* (absPhase (jo_phase j)) (absPhase (jo_phase j')) \<and> (jobDone j \<longrightarrow> j' = j)"
proof -
  have good: "goodBackup B j" using assms(1,2) by (simp add: goodBackup_def)
  from backupMachine.history_steps[OF assms(3) good] backupMachine.ended_stays[OF assms(3) good] show ?thesis by (simp add: goodBackup_def)
qed

text \<open>C32 (restore jobs): the same machine for restore jobs, whose controller looks at the phase only.\<close>

theorem restore_history:
  assumes "jobLaws B (b_rjobs B)" and "wfJob B j" and "jobHistory (reconcileRestore U (loggedB B) img) restoreWr j j'"
  shows "wfJob B j' \<and> jobStep\<^sup>*\<^sup>* (absPhase (jo_phase j)) (absPhase (jo_phase j')) \<and> (jobDone j \<longrightarrow> j' = j)"
proof -
  have good: "goodRestore B j" using assms(1,2) by (simp add: goodRestore_def)
  from restoreMachine.history_steps[OF assms(3) good] restoreMachine.ended_stays[OF assms(3) good] show ?thesis by (simp add: goodRestore_def)
qed

section \<open>What a completed backup means\<close>

lemma wrapE_state: "wrapE p m s = (r, s') \<Longrightarrow> \<exists>r'. m s = (r', s')"
  by (auto simp: monad_simps split: prod.splits sum.splits)

lemma writeL_state: "callW (writeL e f) s = (r, s') \<Longrightarrow> Obj s' = Obj s \<and> logOf s' = e # logOf s"
  by (auto simp: callW_def writeL_def split: prod.splits)

lemma attempt_state: "attempt m s = (r, s') \<Longrightarrow> \<exists>r'. m s = (r', s')"
  by (auto simp: monad_simps split: prod.splits sum.splits if_splits)

lemma ignoreNotFoundR_state: "ignoreNotFoundR m s = (r, s') \<Longrightarrow> \<exists>r'. m s = (r', s')"
  unfolding ignoreNotFoundR_def
  by (erule bindR_cases; drule attempt_state) (auto simp: ret_def throw_def split: sum.splits if_splits)

lemma completeJob_result:
  assumes laws: "jobLaws B a" and run: "completeJob (loggedB B) (api_updateStatus (logKind ev a)) what result s = (r, s')"
    and before: "jo_phase (Obj s) \<noteq> JobPhaseCompleted" and after: "jo_phase (Obj s') = JobPhaseCompleted"
  shows "\<exists>x. jo_phase x = JobPhaseCompleted \<and> jo_backup x = jo_backup (result (Obj s)) \<and> jo_backup (Obj s') = jo_backup x \<and>
    logOf s' = [ev (WUpdateStatus x), BrJobW (WDelete (jobRef (Obj s)))] @ logOf s"
proof -
  let ?del = "wrapE (''error finalize '' @ what @ '' job'') (ignoreNotFoundR (callW (api_delete (b_jobs (loggedB B)) (jobRef (Obj s)))))"
  let ?fin = "bindR (modObj (\<lambda>j. (result j)\<lparr>jo_phase := JobPhaseCompleted\<rparr>)) (\<lambda>_. bindR (setEnded (loggedB B) ConditionTrue ''JobComplete'' []) (\<lambda>_.
     updateObj (api_updateStatus (logKind ev a))))"
  from run have "bindR ?del (\<lambda>_. ?fin) s = (r, s')" by (simp add: completeJob_def bindR_getObj)
  then show ?thesis
  proof (cases rule: bindR_cases)
    case (err e)
    then have "Obj s' = Obj s" by (auto dest!: wrapE_state ignoreNotFoundR_state simp: logKind_simps dest: writeL_state)
    with before after show ?thesis by simp
  next
    case (ok u s1)
    then have s1: "Obj s1 = Obj s" "logOf s1 = BrJobW (WDelete (jobRef (Obj s))) # logOf s"
      by (auto dest!: ignoreNotFoundR_state simp: logKind_simps dest: writeL_state)
    let ?s2 = "s1\<lparr>Obj := (result (Obj s))\<lparr>jo_phase := JobPhaseCompleted\<rparr>\<rparr>"
    obtain s3 where s3: "setEnded (loggedB B) ConditionTrue ''JobComplete'' [] ?s2 = (Inr (), s3)" "logOf s3 = logOf s1"
        and obj: "jo_phase (Obj s3) = JobPhaseCompleted" "jo_backup (Obj s3) = jo_backup (result (Obj s))"
      using setEnded_runs[OF laws, of ConditionTrue "''JobComplete''" "[]" ?s2] by auto
    from ok(2) s1 s3 have upd: "updateObj (api_updateStatus (logKind ev a)) s3 = (r, s')" by (simp add: bindR_def modObj_def)
    have "jo_backup (Obj s') = jo_backup (Obj s3) \<and> logOf s' = ev (WUpdateStatus (Obj s3)) # logOf s3"
    proof (cases "api_updateStatus a (Obj s3) (fst (world s3))")
      case (Pair x w)
      then show ?thesis using upd jobLaws_update[OF laws, of "Obj s3"]
        by (cases x) (auto simp: updateObj_def logKind_simps writeL_def)
    qed
    with obj s1 s3 show ?thesis by (intro exI[of _ "Obj s3"]) simp
  qed
qed

text \<open>A successful command: the answer of the pod is a finished command that returned zero.\<close>

definition commandSucceeded :: "'w benv \<Rightarrow> 'sp br_job \<Rightarrow> cmd_status \<Rightarrow> bool" where
  "commandSucceeded B j st \<longleftrightarrow> cm_completed st \<and> cm_exitCode st = 0 \<and>
     (\<exists>w w' text. b_http B (''http://'' @ jo_name j @ ''.'' @ jo_ns j @ '':'' @ goItoa defaultCMDRestPort @ ''/status'') w = (Inr (200, Inr text), w') \<and> b_unmarshal B text = Inr st)"

lemma GetCmdStatus_result:
  assumes "GetCmdStatus (loggedB B) host port s = (Inr st, s')"
  shows "\<exists>w w' text. b_http B (''http://'' @ host @ '':'' @ goItoa port @ ''/status'') w = (Inr (200, Inr text), w') \<and> b_unmarshal B text = Inr st"
proof -
  let ?url = "''http://'' @ host @ '':'' @ goItoa port @ ''/status''"
  from assms obtain ans s1 where http: "callW (readL (b_http B ?url)) s = (Inr ans, s1)"
      and rest: "(if fst ans \<noteq> 200 then errorf (pollPrefix @ '', status code '' @ goItoa (fst ans))
        else bindR (wrapE pollPrefix (liftE (snd ans))) (\<lambda>text. wrapE pollPrefix (liftE (b_unmarshal B text)))) s1 = (Inr st, s')"
    unfolding GetCmdStatus_def case_prod_unfold loggedB_simps by (elim bindR_InrE) (simp only: wrapE_Inr_iff)
  from rest have "fst ans = 200" by (cases "fst ans = 200") (simp_all add: errorf_def throw_def)
  moreover from rest this obtain body where "snd ans = Inr body" "b_unmarshal B body = Inr st"
    by (auto elim!: bindR_InrE simp: liftE_runs)
  moreover from http obtain w w' where "b_http B ?url w = (Inr ans, w')" by (auto simp: callW_def readL_def split: prod.splits)
  ultimately show ?thesis by (cases ans) auto
qed

lemma jobStatus_result:
  assumes "jobStatus (loggedB B) what j s = (Inr (Inr st), s')"
  shows "\<exists>w w' text. b_http B (''http://'' @ jo_name j @ ''.'' @ jo_ns j @ '':'' @ goItoa defaultCMDRestPort @ ''/status'') w = (Inr (200, Inr text), w') \<and> b_unmarshal B text = Inr st"
proof -
  let ?poll = "\<lambda>job. if pj_failed job > 0 then ret (Inl ''backup job is failed'')
      else bindR (wrapE (''error get '' @ what @ '' status'') (GetCmdStatus (loggedB B) (jo_name j @ ''.'' @ jo_ns j) defaultCMDRestPort)) (\<lambda>st. ret (Inr st))"
  from assms obtain x :: "err + pod_job" and s1 where x: "(case x of Inl e \<Rightarrow> if IsNotFound e then ret (Inl ''job is cleaned externally'') else throw (wrapPrefix ''error get backup job'' e)
      | Inr job \<Rightarrow> ?poll job) s1 = (Inr (Inr st), s')"
    unfolding jobStatus_def Let_def buildSvcJob_def service.simps by (elim bindR_InrE) (rule that, assumption)
  obtain job :: pod_job where "?poll job s1 = (Inr (Inr st), s')"
  proof (cases x)
    case (Inl e)
    with x show ?thesis by (cases "IsNotFound e") (simp_all add: ret_def throw_def)
  qed (use x that in simp)
  then obtain s2 where "GetCmdStatus (loggedB B) (jo_name j @ ''.'' @ jo_ns j) defaultCMDRestPort s1 = (Inr st, s2)"
    by (auto simp: ret_def elim!: bindR_InrE split: if_splits)
  from GetCmdStatus_result[OF this] show ?thesis by simp
qed

lemma failJob_result:
  assumes laws: "jobLaws B a" and run: "failJob (loggedB B) (api_updateStatus (logKind ev a)) msg s = (r, s')"
  shows "jo_phase (Obj s') = JobPhaseFailed"
proof -
  have "ends (\<lambda>_. True) (\<lambda>x. jo_phase x = JobPhaseFailed) (Obj s) (failJob (loggedB B) (api_updateStatus (logKind ev a)) msg)"
    unfolding failJob_def by (rule ends_modObj ends_setEnded[OF laws] ends_update[OF laws] TrueI)+ simp
  then show ?thesis using run unfolding ends_def by blast
qed

text \<open>The backup object a job creates from the output of its command.\<close>

definition backupOf :: "backup_spec br_job \<Rightarrow> string \<Rightarrow> backup \<Rightarrow> bool" where
  "backupOf j out bu \<longleftrightarrow> parseBackup out = Inr (bu_raw bu, bu_id bu) \<and> 5 \<le> length (bu_id bu) \<and> bu_name bu = jo_name j @ ''-'' @ take 5 (bu_id bu) \<and>
     bu_location bu = bsp_target (jo_spec j) \<and> bu_source bu = GetSourceRef j"

lemma createBackup_result:
  assumes laws: "jobLaws B (b_bjobs B)" and run: "createBackup (loggedB B) out s = (r, s')"
    and before: "jo_phase (Obj s) \<noteq> JobPhaseCompleted" and after: "jo_phase (Obj s') = JobPhaseCompleted"
  shows "\<exists>x bu. backupOf (Obj s) out bu \<and> jo_phase x = JobPhaseCompleted \<and> jo_backup x = bu_name bu \<and> jo_backup (Obj s') = bu_name bu \<and>
    logOf s' = [BackupJobW (WUpdateStatus x), BrJobW (WDelete (jobRef (Obj s))), BackupObjW (WCreate bu)] @ logOf s"
proof (cases "parseBackup out")
  case (Inl e)
  with run before after show ?thesis by (simp add: createBackup_def bindR_def getObj_def liftE_def throw_def)
next
  case (Inr rb)
  obtain raw bid where rb: "rb = (raw, bid)" by fastforce
  show ?thesis
  proof (cases "length bid < 5")
    case True
    with run Inr rb before after show ?thesis by (simp add: createBackup_def bindR_def getObj_def liftE_def backupName_def throw_def ret_def)
  next
    case False
    define name where "name = jo_name (Obj s) @ ''-'' @ take 5 bid"
    have named: "backupName (Obj s) bid = Inr name" using False by (simp add: backupName_def name_def)
    obtain t1 w1 t2 w2 where now: "b_now B (fst (world s)) = (t1, w1)" "b_now B w1 = (t2, w2)" by fastforce
    define bu where "bu = \<lparr>bu_name = name, bu_labels = None, bu_location = bsp_target (jo_spec (Obj s)), bu_id = bid, bu_at = t1, bu_complete = t2,
        bu_source = GetSourceRef (Obj s), bu_raw = raw\<rparr>"
    let ?s1 = "s\<lparr>world := (w2, logOf s)\<rparr>"
    have "bindR (attempt (callW (writeL (BackupObjW (WCreate bu)) (api_create (b_backups B) bu)))) (\<lambda>r. case r of
       Inl e \<Rightarrow> if ekind e = AlreadyExists then completeBackup (loggedB B) name else throw (wrapPrefix ''error ensure backup'' e)
     | Inr _ \<Rightarrow> completeBackup (loggedB B) name) ?s1 = (r, s')"
      using run Inr rb named now
      by (simp add: createBackup_def bindR_getObj bindR_def[of "liftE _"] bindR_def[of "readW _"] liftE_def ret_def readW_def readL_def bu_def logKind_simps)
    then obtain s2 where s2: "Obj s2 = Obj s" "logOf s2 = BackupObjW (WCreate bu) # logOf s"
        and comp: "Obj s' = Obj s \<or> completeBackup (loggedB B) name s2 = (r, s')"
      by (elim bindR_cases) (auto dest!: attempt_state dest: writeL_state simp: throw_def split: sum.splits if_splits)
    from comp before after have "completeBackup (loggedB B) name s2 = (r, s')" by auto
    then obtain x where "jo_phase x = JobPhaseCompleted" "jo_backup x = name" "jo_backup (Obj s') = jo_backup x"
        "logOf s' = [BackupJobW (WUpdateStatus x), BrJobW (WDelete (jobRef (Obj s)))] @ logOf s2"
      using completeJob_result[where ev = BackupJobW, OF laws, of "''backup''" "\<lambda>j. j\<lparr>jo_backup := name\<rparr>" s2 r s'] before after s2
      by (auto simp: completeBackup_def)
    moreover have "backupOf (Obj s) out bu" using Inr rb False by (simp add: backupOf_def bu_def name_def)
    ultimately show ?thesis using s2 by (intro exI[of _ x] exI[of _ bu]) (simp add: bu_def)
  qed
qed

text \<open>What the controllers read first leaves the object and the log alone.\<close>

lemma quietly:
  assumes "onlySends (\<lambda>x. x = Obj s) (\<lambda>_. False) m" and "m s = (r, s')"
  shows "Obj s' = Obj s \<and> logOf s' = logOf s"
proof -
  obtain es where "logOf s' = es @ logOf s" "\<forall>e \<in> set es. False" "Obj s' = Obj s" by (rule onlySendsD[OF assms(1) refl assms(2)])
  then show ?thesis by (cases es) auto
qed

lemma polling_result:
  assumes laws: "jobLaws B a" and run: "bindR (setEnded (loggedB B) st reason msg) (\<lambda>_. ErrReSync m d) s = (r, s')"
  shows "jo_phase (Obj s') = jo_phase (Obj s)"
proof -
  obtain s1 conds where "setEnded (loggedB B) st reason msg s = (Inr (), s1)" "Obj s1 = (Obj s)\<lparr>jo_conditions := conds\<rparr>"
    using setEnded_runs[OF laws, of st reason msg s] by blast
  then show ?thesis using run by (auto simp: bindR_def ErrReSync_def throw_def)
qed

lemma followBackup_result:
  assumes laws: "jobLaws B (b_bjobs B)" and run: "followBackup (loggedB B) (Obj s) s = (r, s')"
    and before: "jo_phase (Obj s) \<noteq> JobPhaseCompleted" and after: "jo_phase (Obj s') = JobPhaseCompleted"
  shows "\<exists>st. commandSucceeded B (Obj s) st \<and> (\<exists>s2. Obj s2 = Obj s \<and> logOf s2 = logOf s \<and> createBackup (loggedB B) (cm_stdout st) s2 = (r, s'))"
  using run unfolding followBackup_def
proof (cases rule: bindR_cases)
  case (err e)
  with quietly[OF jobStatus_sends err(1)] before after show ?thesis by simp
next
  case (ok st s2)
  have s2: "Obj s2 = Obj s" "logOf s2 = logOf s" using quietly[OF jobStatus_sends ok(1)] by simp_all
  have fails: "failBackup (loggedB B) msg s2 \<noteq> (r, s')" for msg
    using failJob_result[OF laws, where ev = BackupJobW] after by (auto simp: failBackup_def JobPhaseFailed_def JobPhaseCompleted_def)
  have polls: "bindR (setEnded (loggedB B) ConditionFalse ''JobRunning'' []) (\<lambda>_. ErrReSync ''wait backup complete'' pollInterval) s2 \<noteq> (r, s')"
    using polling_result[OF laws, of ConditionFalse "''JobRunning''" "[]" "''wait backup complete''" pollInterval s2 r s'] s2 before after by auto
  obtain st' where st': "st = Inr st'" using ok(2) fails by (cases st) auto
  with ok(2) fails polls have "cm_completed st' \<and> cm_exitCode st' = 0 \<and> createBackup (loggedB B) (cm_stdout st') s2 = (r, s')"
    by (simp split: if_splits)
  with jobStatus_result ok(1) st' s2 show ?thesis unfolding commandSucceeded_def by blast
qed

text \<open>C33 (\<^verbatim>\<open>waitJob\<close> of backups): when a running backup job becomes completed, it names a backup that exists. Either a backup with the
  labels of the job was listed, or the command in the pod of the job finished with exit code zero and printed the identity of
  the backup, an object with this identity, the raw metadata, the target and the source of the job was created (or was there
  already), the Kubernetes job was deleted and only then the status was stored.\<close>

theorem backup_completed:
  assumes laws: "jobLaws B (b_bjobs B)" and run: "waitBackup (loggedB B) s = (r, s')"
    and before: "jo_phase (Obj s) = JobPhaseRunning" and after: "jo_phase (Obj s') = JobPhaseCompleted"
  shows "\<exists>x. jo_phase x = JobPhaseCompleted \<and> jo_backup x = jo_backup (Obj s') \<and>
    ((\<exists>b bs w w'. api_list (b_backups B) [] (MatchingLabels [(PreNameLabelKey, jo_name (Obj s)), (PreUUIDLabelKey, jo_uid (Obj s))]) w = (Inr (b # bs), w') \<and>
        jo_backup x = bu_name b \<and> logOf s' = [BackupJobW (WUpdateStatus x), BrJobW (WDelete (jobRef (Obj s)))] @ logOf s) \<or>
     (\<exists>st bu. commandSucceeded B (Obj s) st \<and> backupOf (Obj s) (cm_stdout st) bu \<and> jo_backup x = bu_name bu \<and>
        logOf s' = [BackupJobW (WUpdateStatus x), BrJobW (WDelete (jobRef (Obj s))), BackupObjW (WCreate bu)] @ logOf s))"
proof -
  let ?opt = "MatchingLabels [(PreNameLabelKey, jo_name (Obj s)), (PreUUIDLabelKey, jo_uid (Obj s))]"
  let ?list = "wrapE ''error list owned backups'' (callW (readL (api_list (b_backups B) [] ?opt)))"
  have diff: "jo_phase (Obj s) \<noteq> JobPhaseCompleted" using before by (simp add: JobPhaseRunning_def JobPhaseCompleted_def)
  have quiet: "onlySends (\<lambda>x. x = Obj s) (\<lambda>_. False) ?list" by (rule sendsR)+
  from run have "bindR ?list (\<lambda>bs. case bs of b # _ \<Rightarrow> completeBackup (loggedB B) (bu_name b) | [] \<Rightarrow> followBackup (loggedB B) (Obj s)) s = (r, s')"
    by (simp add: waitBackup_def bindR_getObj logKind_simps)
  then show ?thesis
  proof (cases rule: bindR_cases)
    case (err e)
    with quietly[OF quiet err(1)] diff after show ?thesis by simp
  next
    case (ok bs s1)
    have s1: "Obj s1 = Obj s" "logOf s1 = logOf s" using quietly[OF quiet ok(1)] by simp_all
    show ?thesis
    proof (cases bs)
      case (Cons b bs')
      with ok(2) completeJob_result[where ev = BackupJobW, OF laws, of "''backup''" "\<lambda>j. j\<lparr>jo_backup := bu_name b\<rparr>" s1 r s'] diff after s1
      obtain x where "jo_phase x = JobPhaseCompleted" "jo_backup x = bu_name b" "jo_backup (Obj s') = jo_backup x"
          "logOf s' = [BackupJobW (WUpdateStatus x), BrJobW (WDelete (jobRef (Obj s)))] @ logOf s" by (auto simp: completeBackup_def)
      moreover from ok(1) Cons obtain w w' where "api_list (b_backups B) [] ?opt w = (Inr (b # bs'), w')" by (auto simp: callW_def readL_def split: prod.splits)
      ultimately show ?thesis by (intro exI[of _ x]) (simp, blast)
    next
      case Nil
      with ok(2) s1 followBackup_result[OF laws, of s1 r s'] diff after obtain st s2 where st: "commandSucceeded B (Obj s) st"
        and s2: "Obj s2 = Obj s" "logOf s2 = logOf s" "createBackup (loggedB B) (cm_stdout st) s2 = (r, s')" by auto
      from createBackup_result[OF laws s2(3)] diff after s2 obtain x bu where "backupOf (Obj s) (cm_stdout st) bu" "jo_phase x = JobPhaseCompleted"
          "jo_backup x = bu_name bu" "jo_backup (Obj s') = bu_name bu"
          "logOf s' = [BackupJobW (WUpdateStatus x), BrJobW (WDelete (jobRef (Obj s))), BackupObjW (WCreate bu)] @ logOf s" by auto
      with st show ?thesis by (intro exI[of _ x]) metis
    qed
  qed
qed

section \<open>Restores, the collector and the finalizers\<close>

lemma upsertKey_set: "x \<in> set (upsertKey key ys x)" "v \<in> set (upsertKey key ys x) \<Longrightarrow> v = x \<or> v \<in> set ys"
  "y \<in> set ys \<Longrightarrow> key y \<noteq> key x \<Longrightarrow> y \<in> set (upsertKey key ys x)"
  by (induction ys) (auto split: if_splits)

text \<open>The environment of a restore whose source has the secret \<open>r\<close> and whose target has some secret.\<close>

lemma restoreEnv_source:
  assumes laws: "toolLaws U" and env: "restoreEnv U raw (Some r) (Some t) = Inr env"
  shows "secretEnv RestoreAccessEnvKey r AWSAccessKeyID \<in> set env" "secretEnv RestoreSecretEnvKey r AWSSecretAccessKey \<in> set env"
    "v \<in> set env \<Longrightarrow> ev_src v = EnvSecretKey x k \<Longrightarrow> x = r"
proof -
  have up: "u_upsertEnv U = upsertKey ev_name" using laws by (simp add: toolLaws_def)
  let ?raw = "\<lparr>ev_name = RawMetaEnv, ev_src = EnvValue raw\<rparr>"
  define base where "base = upsertKey ev_name (upsertKey ev_name [?raw] (secretEnv AWSAccessKeyID r AWSAccessKeyID)) (secretEnv AWSSecretAccessKey r AWSSecretAccessKey)"
  have eq: "env = upsertKey ev_name (upsertKey ev_name base (secretEnv RestoreAccessEnvKey r AWSAccessKeyID)) (secretEnv RestoreSecretEnvKey r AWSSecretAccessKey)"
    using env by (simp add: restoreEnv_def Let_def awsEnv_def up base_def del: upsertKey.simps)
  show "secretEnv RestoreSecretEnvKey r AWSSecretAccessKey \<in> set env" unfolding eq by (rule upsertKey_set(1))
  show "secretEnv RestoreAccessEnvKey r AWSAccessKeyID \<in> set env"
    unfolding eq by (intro upsertKey_set(3) upsertKey_set(1)) (simp add: secretEnv_def RestoreAccessEnvKey_def RestoreSecretEnvKey_def)
  show "x = r" if v: "v \<in> set env" "ev_src v = EnvSecretKey x k"
  proof -
    have "v \<in> {secretEnv RestoreSecretEnvKey r AWSSecretAccessKey, secretEnv RestoreAccessEnvKey r AWSAccessKeyID,
        secretEnv AWSSecretAccessKey r AWSSecretAccessKey, secretEnv AWSAccessKeyID r AWSAccessKeyID, ?raw}"
      using v(1) unfolding eq base_def by (auto dest!: upsertKey_set(2) simp del: upsertKey.simps)
    with v(2) show ?thesis by (auto simp: secretEnv_def)
  qed
qed

lemma ignoreExists_write:
  assumes "wrapE m (ignoreExistsR (callW (writeL e g))) s = (r, s1)"
  shows "logOf s1 = e # logOf s"
proof -
  obtain y w' where "g (fst (world s)) = (y, w')" by fastforce
  with assms show ?thesis
    by (cases y) (auto simp: ignoreExistsR_def wrapE_def attempt_def callW_def writeL_def ret_def throw_def bindR_def split: if_splits)
qed

lemma ensureJob_first:
  assumes f: "\<And>x. onlySends (\<lambda>_. True) ok (f x)" and svc: "ok (BrSvcW (WCreate svc))"
    and run: "bindR (ensureJob (loggedB B) job svc) f s = (r, s')"
  shows "\<exists>es. logOf s' = es @ BrJobW (WCreate job) # logOf s \<and> list_all ok es"
proof -
  let ?create = "wrapE ''error ensure job'' (ignoreExistsR (callW (writeL (BrJobW (WCreate job)) (api_create (b_jobs B) job))))"
  let ?rest = "\<lambda>_. bindR (wrapE ''error ensure service'' (ignoreExistsR (callW (writeL (BrSvcW (WCreate svc)) (api_create (b_svcs B) svc))))) f"
  have "bindR ?create ?rest s = (r, s')" using run by (simp add: ensureJob_def bindR_assoc)
  moreover have rest: "onlySends (\<lambda>_. True) ok (?rest x)" for x
    unfolding ignoreExistsR_def using svc by (intro onlySends_bind f) (rule sendsR | assumption)+
  ultimately show ?thesis
  proof (cases rule: bindR_cases)
    case (err e)
    then show ?thesis using ignoreExists_write[OF err(1)] by (intro exI[of _ "[]"]) simp
  next
    case (ok x s1)
    from onlySends_log[OF rest _ ok(2)] ignoreExists_write[OF ok(1)] show ?thesis by auto
  qed
qed

fun noJobW :: "bevent \<Rightarrow> bool" where
  "noJobW (BrJobW _) = False"
| "noJobW _ = True"

text \<open>C34 (\<^verbatim>\<open>syncJob\<close> of restores): the credentials of the target of a restore are never used. When the target names a secret, the restore job
  that is sent has the credentials of the target from the secret of the backup location, and none of its variables is read from any
  other secret, whatever the secret of the target is; and when the location of the backup has no secret, the controller panics before
  it sends anything.\<close>

theorem restore_ignores_target_secret:
  assumes laws: "toolLaws U"
    and bu: "api_get (b_backups B) ([], rsp_backup (jo_spec (Obj s))) (fst (world s)) = (Inr bu, w')" and src: "sh_s3 (bu_location bu) = Some src"
    and tgt: "sh_s3 (rsp_target (jo_spec (Obj s))) = Some tgt" "s3_secretRef tgt = Some mine"
    and run: "syncRestore U (loggedB B) img s = (r, s')"
  shows "case s3_secretRef src of
       None \<Rightarrow> r = Inl nilPanic \<and> logOf s' = logOf s
     | Some theirs \<Rightarrow> \<exists>env es. logOf s' = es @ BrJobW (WCreate (buildJob U (Obj s) img (RestoreCommand (bu_id bu) True (s3CmdOf tgt)) env)) # logOf s \<and>
         list_all noJobW es \<and> secretEnv RestoreAccessEnvKey theirs AWSAccessKeyID \<in> set env \<and>
         secretEnv RestoreSecretEnvKey theirs AWSSecretAccessKey \<in> set env \<and>
         (\<forall>v \<in> set env. \<forall>x k. ev_src v = EnvSecretKey x k \<longrightarrow> x = theirs)"
proof -
  let ?j = "if jo_phase (Obj s) = [] then (Obj s)\<lparr>jo_phase := JobPhasePending\<rparr> else Obj s"
  let ?s1 = "s\<lparr>Obj := ?j, world := (w', logOf s)\<rparr>"
  have l1: "logOf ?s1 = logOf s" by simp
  have job: "buildJob U ?j = buildJob U (Obj s)" by (intro ext) (simp add: buildJob_def jobLabels_def Let_def)
  let ?tail = "\<lambda>env. bindR (ensureJob (loggedB B) (buildJob U ?j img (RestoreCommand (bu_id bu) (s3_secretRef src \<noteq> None) (s3CmdOf tgt)) env) (buildSvcJob ?j)) (\<lambda>_.
     bindR (modObj (\<lambda>j. j\<lparr>jo_phase := JobPhaseRunning\<rparr>)) (\<lambda>_. updateObj (api_updateStatus (b_rjobs (loggedB B)))))"
  have steps: "syncRestore U (loggedB B) img s = bindR (liftE (restoreEnv U (bu_raw bu) (s3_secretRef src) (s3_secretRef tgt))) ?tail ?s1"
    using bu src tgt
    by (simp add: syncRestore_def markPending_def derefS3_def bindR_def modObj_def getObj_def wrapE_def callW_def logKind_simps readL_def liftE_def ret_def)
  show ?thesis
  proof (cases "s3_secretRef src")
    case None
    with run steps tgt show ?thesis by (auto simp: restoreEnv_def liftE_def throw_def bindR_def)
  next
    case (Some theirs)
    obtain env where env: "restoreEnv U (bu_raw bu) (Some theirs) (Some mine) = Inr env" by (simp add: restoreEnv_def)
    with Some run steps tgt have tail: "?tail env ?s1 = (r, s')" by (simp add: liftE_def ret_def bindR_def)
    have "onlySends (\<lambda>_. True) noJobW (bindR (modObj (\<lambda>j. j\<lparr>jo_phase := JobPhaseRunning\<rparr>)) (\<lambda>_. updateObj (api_updateStatus (b_rjobs (loggedB B)))))"
      by (rule sendsR | simp only: loggedB_simps logKind_simps | simp)+
    then have "\<exists>es. logOf s' = es @ BrJobW (WCreate (buildJob U ?j img (RestoreCommand (bu_id bu) (s3_secretRef src \<noteq> None) (s3CmdOf tgt)) env)) # logOf ?s1 \<and>
        list_all noJobW es"
      by (rule ensureJob_first[OF _ _ tail]) simp
    then obtain es where
        log: "logOf s' = es @ BrJobW (WCreate (buildJob U (Obj s) img (RestoreCommand (bu_id bu) True (s3CmdOf tgt)) env)) # logOf s" and "list_all noJobW es"
      unfolding job Some using l1 by auto
    with restoreEnv_source[OF laws env] show ?thesis unfolding Some option.case
      by (intro exI[of _ env] exI[of _ es] conjI ballI allI impI) assumption+
  qed
qed

text \<open>\<^verbatim>\<open>buildJob\<close>: the pod of a job has the container of the command, unless the overlay has sidecars. Then the containers are the
  sidecars alone: the overlay keeps the container named \<^verbatim>\<open>main\<close>, and the one of the command is named \<^verbatim>\<open>br\<close>.\<close>

theorem job_containers:
  "ps_containers (pm_spec (pj_template (buildJob U j img command env))) =
     (case jo_overlay j of None \<Rightarrow> [brContainer U (jo_overlay j) img command env]
      | Some x \<Rightarrow> (case po_sidecars x of None \<Rightarrow> [brContainer U (jo_overlay j) img command env] | Some cs \<Rightarrow> cs))"
proof -
  have spec: "pm_spec (OverlayPodMeta ov t) = pm_spec t" for ov t by (simp add: OverlayPodMeta_def Let_def split: option.split)
  have "kc_name (brContainer U ov img command env) = ''br''" for ov by (simp add: brContainer_def overlay_fields emptyCtr_def)
  then have "findMainContainer [brContainer U ov img command env] = None" for ov by (simp add: findMainContainer_def ContainerMain_def)
  then show ?thesis by (simp add: buildJob_def Let_def spec OverlayPodSpec_def split: option.split)
qed

text \<open>\<^verbatim>\<open>GCActor\<close>: the collector deletes only the job it was called with, only when the job has the condition \<^verbatim>\<open>Ended\<close> and it is not false, and only when more
  than the time to live has passed since the condition changed; otherwise it sends nothing, and a job that ended is looked at again when its time is up.\<close>

theorem gc_only_expired:
  assumes run: "GCObserve (loggedB B) (api_delete (logKind ev a)) s = (r, s')"
  shows "Obj s' = Obj s \<and>
    (case b_getCondition B (jo_conditions (Obj s)) JobConditionTypeEnded of
       None \<Rightarrow> r = Inr () \<and> s' = s
     | Some c \<Rightarrow>
         if cd_status c = ConditionFalse then r = Inr () \<and> s' = s
         else (let since = fst (b_now B (fst (world s))) - cd_lastTransition c in
           if GetTTL (Obj s) < since then logOf s' = ev (WDelete (Obj s)) # logOf s
           else r = Inl (Err (ReSync (GetTTL (Obj s) - since)) ''wait for ttl'') \<and> 0 \<le> GetTTL (Obj s) - since \<and> logOf s' = logOf s))"
proof (cases "b_getCondition B (jo_conditions (Obj s)) JobConditionTypeEnded")
  case None
  then show ?thesis using run by (simp add: GCObserve_def bindR_getObj ret_def)
next
  case (Some c)
  obtain now w where now: "b_now B (fst (world s)) = (now, w)" by fastforce
  obtain x w2 where del: "api_delete a (Obj s) w = (x, w2)" by fastforce
  show ?thesis using run Some now del
    by (auto simp: GCObserve_def bindR_def getObj_def readW_def readL_def callW_def logKind_simps writeL_def ret_def ErrReSync_def throw_def Let_def split: if_splits)
qed

text \<open>\<^verbatim>\<open>Finalize\<close> of backup and restore jobs: the finalizer deletes the Kubernetes job of the job, nothing else, and is done only when the
  server answers that there is no such job.\<close>

theorem job_finalize:
  assumes run: "JobFinalize (loggedB B) s = (r, s')"
  shows "Obj s' = Obj s \<and> logOf s' = BrJobW (WDelete (jobRef (Obj s))) # logOf s \<and>
    (r = Inr True \<longrightarrow> (\<exists>w w' e. api_delete (b_jobs B) (jobRef (Obj s)) w = (Inl e, w') \<and> IsNotFound e))"
proof -
  obtain x w2 where del: "api_delete (b_jobs B) (jobRef (Obj s)) (fst (world s)) = (x, w2)" by fastforce
  then show ?thesis using run
    by (cases x) (auto simp: JobFinalize_def bindR_def getObj_def attempt_def callW_def logKind_simps writeL_def ret_def throw_def split: if_splits)
qed

section \<open>Sample runs\<close>

text \<open>A server that answers every write, with one job that has finished; no backup is listed. \<open>b_now\<close> is the state of this world.\<close>

definition echoApi :: "(err + 'o) \<Rightarrow> (err + unit) \<Rightarrow> ('o, 'w) kind_api" where
  "echoApi found deleted = \<lparr>api_get = (\<lambda>_ w. (found, w)), api_list = (\<lambda>_ _ w. (Inr [], w)), api_create = (\<lambda>x w. (Inr x, w)), api_update = (\<lambda>x w. (Inr x, w)),
     api_patch = (\<lambda>x y w. (Inr y, w)), api_updateStatus = (\<lambda>x w. (Inr x, w)), api_patchStatus = (\<lambda>x y w. (Inr y, w)), api_delete = (\<lambda>x w. (deleted, w))\<rparr>"

definition demoJob :: "'sp \<Rightarrow> 'sp br_job" where
  "demoJob sp = \<lparr>jo_name = ''job'', jo_ns = ''ns'', jo_uid = ''u'', jo_kind = ''Job'', jo_ttl = None, jo_overlay = None, jo_spec = sp, jo_conditions = [],
     jo_phase = JobPhaseRunning, jo_backup = []\<rparr>"

definition demoS3 :: "string option \<Rightarrow> shared_storage" where
  "demoS3 secret = \<lparr>sh_s3 = Some \<lparr>s3_path = ''bucket/dir'', s3_type = None, s3_region = [], s3_endpoint = [], s3_secretRef = secret, s3_certificateRef = None,
     s3_retention = None\<rparr>, sh_fs = None\<rparr>"

definition demoBJ :: "backup_spec br_job" where
  "demoBJ = demoJob \<lparr>bsp_cluster = Some ''mo'', bsp_cnset = None, bsp_secret = None, bsp_target = demoS3 None\<rparr>"

definition demoRJ :: "restore_spec br_job" where
  "demoRJ = demoJob \<lparr>rsp_backup = ''b'', rsp_target = demoS3 (Some ''mine'')\<rparr>"

definition demoOut :: string where "demoOut = ''ok META_DELIMITER abcdefg,meta''"

definition demoB :: "time benv" where
  "demoB = \<lparr>b_bjobs = echoApi (Inl notFoundErr) (Inr ()), b_rjobs = echoApi (Inl notFoundErr) (Inr ()),
     b_backups = echoApi (Inr \<lparr>bu_name = ''b'', bu_labels = None, bu_location = demoS3 None, bu_id = ''abcdefg'', bu_at = 0, bu_complete = 0, bu_source = [], bu_raw = []\<rparr>) (Inr ()),
     b_jobs = echoApi (Inr (jobRef demoBJ)) (Inl notFoundErr), b_svcs = echoApi (Inl notFoundErr) (Inr ()),
     b_cnsets = (\<lambda>_ w. (Inl notFoundErr, w)), b_clusters = (\<lambda>_ w. (Inl notFoundErr, w)), b_http = (\<lambda>_ w. (Inr (200, Inr ''{}''), w)),
     b_unmarshal = (\<lambda>_. Inr \<lparr>cm_completed = True, cm_stdout = demoOut, cm_stderr = [], cm_exitCode = 0\<rparr>), b_now = (\<lambda>w. (w, w)),
     b_setCondition = (\<lambda>cs c w. (c # filter (\<lambda>d. cd_type d \<noteq> cd_type c) cs, w)),
     b_getCondition = (\<lambda>cs ty. find (\<lambda>c. cd_type c = ty) cs)\<rparr>"

lemma demoB_laws: "jobLaws demoB (b_bjobs demoB)" "jobLaws demoB (b_rjobs demoB)"
  by (auto simp: jobLaws_def demoB_def echoApi_def)

lemma demo_wf: "wfJob demoB demoBJ" "wfJob demoB demoRJ"
  by (simp_all add: wfJob_def jobEnded_def jobDone_def demoB_def demoBJ_def demoRJ_def demoJob_def JobPhaseRunning_def JobPhaseCompleted_def JobPhaseFailed_def)

definition demoStart :: "'o \<Rightarrow> ('o, (time, bevent) elog) ctx" where
  "demoStart x = \<lparr>Obj = x, world = (0, [])\<rparr>"

lemma demo_backup_phase: "jo_phase (Obj (snd (waitBackup (loggedB demoB) (demoStart demoBJ)))) = JobPhaseCompleted"
proof -
  have parse: "parseBackup demoOut = Inr (''abcdefg,meta'', ''abcdefg'')" by (simp add: parseBackup_def demoOut_def MetaDelimiter_def trimChar_def Let_def)
  show ?thesis
    by (simp add: waitBackup_def followBackup_def demoStart_def demoB_def echoApi_def jobStatus_def GetCmdStatus_def createBackup_def completeBackup_def completeJob_def setEnded_def
        bindR_def getObj_def wrapE_def attempt_def callW_def readW_def modObj_def updateObj_def liftE_def ret_def logKind_simps readL_def writeL_def
        jobRef_def parse backupName_def ignoreNotFoundR_def IsNotFound_def notFoundErr_def isPanic_def Let_def)
qed

lemma demo_restore_phase: "jo_phase (Obj (snd (waitRestore (loggedB demoB) (demoStart demoRJ)))) = JobPhaseCompleted"
  by (simp add: waitRestore_def demoStart_def demoB_def echoApi_def jobStatus_def GetCmdStatus_def successRestore_def completeJob_def setEnded_def
      bindR_def getObj_def wrapE_def attempt_def callW_def readW_def modObj_def updateObj_def liftE_def ret_def logKind_simps readL_def writeL_def
      jobRef_def ignoreNotFoundR_def IsNotFound_def notFoundErr_def isPanic_def Let_def)

lemma demo_phases [simp]: "jo_phase demoBJ = JobPhaseRunning" "jo_phase demoRJ = JobPhaseRunning" "jo_conditions demoBJ = []" "Obj (demoStart x) = x" "logOf (demoStart x) = []"
  by (simp_all add: demoBJ_def demoRJ_def demoJob_def demoStart_def)

lemma history_of_run: "jobHistory R wr (Obj s) (Obj (snd (R s)))" if "logOf s = []"
  by (rule jobHistory.reconciled[OF jobHistory.fresh, of R s "fst (R s)" "snd (R s)" "logOf (snd (R s))"]) (simp_all add: that)

lemma demo_reconcile:
  "reconcileBackup U (loggedB demoB) img (demoStart demoBJ) = waitBackup (loggedB demoB) (demoStart demoBJ)"
  "reconcileRestore U (loggedB demoB) img (demoStart demoRJ) = waitRestore (loggedB demoB) (demoStart demoRJ)"
  by (simp_all add: reconcileBackup_def reconcileRestore_def bindR_getObj BackupObserve_def RestoreObserve_def)
    (simp_all add: demoB_def JobPhaseRunning_def JobPhaseFailed_def JobPhaseCompleted_def)

theorem backup_history_witness:
  "wfJob demoB (Obj (snd (waitBackup (loggedB demoB) (demoStart demoBJ)))) \<and> jobStep\<^sup>*\<^sup>* Working (Ended True)"
  using backup_history[OF demoB_laws(1) demo_wf(1), of sampleTools "[]"] history_of_run[of "demoStart demoBJ" "reconcileBackup sampleTools (loggedB demoB) []" backupWr]
  by (simp add: demo_reconcile demo_backup_phase) (metis absPhase_simps(3,4) demo_backup_phase)

theorem restore_history_witness:
  "wfJob demoB (Obj (snd (waitRestore (loggedB demoB) (demoStart demoRJ)))) \<and> jobStep\<^sup>*\<^sup>* Working (Ended True)"
  using restore_history[OF demoB_laws(2) demo_wf(2), of sampleTools "[]"] history_of_run[of "demoStart demoRJ" "reconcileRestore sampleTools (loggedB demoB) []" restoreWr]
  by (simp add: demo_reconcile demo_restore_phase) (metis absPhase_simps(3,4) demo_restore_phase)

theorem backup_completed_witness:
  "\<exists>x st bu. commandSucceeded demoB demoBJ st \<and> backupOf demoBJ (cm_stdout st) bu \<and>
     logOf (snd (waitBackup (loggedB demoB) (demoStart demoBJ))) = [BackupJobW (WUpdateStatus x), BrJobW (WDelete (jobRef demoBJ)), BackupObjW (WCreate bu)]"
proof -
  have none: "fst (api_list (b_backups demoB) ns opt w) = Inr []" for ns opt w by (simp add: demoB_def echoApi_def)
  then have "api_list (b_backups demoB) ns opt w \<noteq> (Inr (b # bs), w')" for ns opt w b bs w' by (metis fst_conv list.distinct(1) sum.inject(2))
  then show ?thesis
    using backup_completed[OF demoB_laws(1), of "demoStart demoBJ" "fst (waitBackup (loggedB demoB) (demoStart demoBJ))" "snd (waitBackup (loggedB demoB) (demoStart demoBJ))"]
      demo_backup_phase by auto
qed

theorem restore_ignores_target_secret_witness:
  "fst (syncRestore sampleTools (loggedB demoB) [] (demoStart demoRJ)) = Inl nilPanic \<and> logOf (snd (syncRestore sampleTools (loggedB demoB) [] (demoStart demoRJ))) = []"
proof -
  let ?bu = "\<lparr>bu_name = ''b'', bu_labels = None, bu_location = demoS3 None, bu_id = ''abcdefg'', bu_at = 0, bu_complete = 0, bu_source = [], bu_raw = []\<rparr>"
  let ?p = "\<lambda>secret. \<lparr>s3_path = ''bucket/dir'', s3_type = None, s3_region = [], s3_endpoint = [], s3_secretRef = secret, s3_certificateRef = None, s3_retention = None\<rparr>"
  have "api_get (b_backups demoB) ([], rsp_backup (jo_spec (Obj (demoStart demoRJ)))) (fst (world (demoStart demoRJ))) = (Inr ?bu, fst (world (demoStart demoRJ)))"
    by (simp add: demoB_def echoApi_def)
  from restore_ignores_target_secret[OF sampleTools_laws this, of "?p None" "?p (Some ''mine'')" "''mine''" "[]"
      "fst (syncRestore sampleTools (loggedB demoB) [] (demoStart demoRJ))" "snd (syncRestore sampleTools (loggedB demoB) [] (demoStart demoRJ))"]
  show ?thesis by (simp add: demoS3_def demoRJ_def demoJob_def)
qed

definition endedJob :: "backup_spec br_job" where
  "endedJob = demoBJ\<lparr>jo_phase := JobPhaseCompleted, jo_conditions := [newCondition JobConditionTypeEnded ConditionTrue [] []]\<rparr>"

theorem gc_only_expired_witness:
  "logOf (snd (GCObserve (loggedB demoB) (api_delete (logKind BackupJobW (b_bjobs demoB))) \<lparr>Obj = endedJob, world = (3601 * second, [])\<rparr>)) = [BackupJobW (WDelete endedJob)]"
proof -
  let ?s = "\<lparr>Obj = endedJob, world = (3601 * second, [])\<rparr>"
  let ?run = "GCObserve (loggedB demoB) (api_delete (logKind BackupJobW (b_bjobs demoB))) ?s"
  have "GetTTL endedJob = 3600 * second" by (simp add: GetTTL_def endedJob_def demoBJ_def demoJob_def defaultTTL_def orElse_def)
  then show ?thesis using gc_only_expired[of demoB BackupJobW "b_bjobs demoB" ?s "fst ?run" "snd ?run"]
    by (simp add: endedJob_def demoB_def newCondition_def second_def)
qed

theorem job_finalize_witness:
  "fst (JobFinalize (loggedB demoB) (demoStart demoBJ)) = Inr True \<and> logOf (snd (JobFinalize (loggedB demoB) (demoStart demoBJ))) = [BrJobW (WDelete (jobRef demoBJ))] \<and>
   (\<exists>w w' e. api_delete (b_jobs demoB) (jobRef demoBJ) w = (Inl e, w') \<and> IsNotFound e)"
proof -
  let ?run = "JobFinalize (loggedB demoB) (demoStart demoBJ)"
  have "fst ?run = Inr True"
    by (simp add: JobFinalize_def bindR_def getObj_def attempt_def callW_def logKind_simps writeL_def ret_def) (simp add: demoB_def echoApi_def notFoundErr_def IsNotFound_def isPanic_def ret_def)
  then show ?thesis using job_finalize[of demoB "demoStart demoBJ" "fst ?run" "snd ?run"] by (simp add: prod_eq_iff)
qed

end
