(* ===== verification/Spec2Isabelle.thy ===== *)
theory Spec2Isabelle
  imports CNClaim CNClaimSet CNStore CNPool Pod_Phases CNSet_Control DNSet_Control Webhooks Log_Control Proxy_Control Backup_Restore
begin

text \<open>
  Verification of the MatrixOne operator, a Kubernetes operator written in Go.

  \<^bold>\<open>The program.\<close> The operator runs one controller per custom resource. A controller is called with an
  object of its kind, reads other objects from a cache of the Kubernetes API, talks to HAKeeper (the
  cluster manager of MatrixOne) and writes objects back; several controllers write the same pods. The core
  is the life of a compute node (CN) pod: a \<^verbatim>\<open>CNPool\<close> keeps idle pods, a \<^verbatim>\<open>CNClaim\<close> takes one, a
  \<^verbatim>\<open>CNClaimSet\<close> owns many claims, the \<^verbatim>\<open>CNStore\<close> controller drains a pod before it is reused or let go.
  A \<^verbatim>\<open>MatrixOneCluster\<close> is built from a \<^verbatim>\<open>LogSet\<close> (the log and HAKeeper), a \<^verbatim>\<open>DNSet\<close>, groups of \<^verbatim>\<open>CNSet\<close>s, a proxy
  and a web UI: the cluster controller derives the specification of each set, the controllers of the sets keep a
  stateful set or clone set of pods with their services, configuration and volumes, a \<^verbatim>\<open>BucketClaim\<close> stands for
  the data of the cluster, backup and restore jobs copy it. Admission hooks default and validate what users write.

  \<^bold>\<open>How it is modelled.\<close> A handler of the source is a function in a state and error monad
  (\<open>('s, 'a) rm\<close> of \<open>Op_Prelude\<close>): the state is a context record with the object under reconciliation
  (\<open>ctx.Obj\<close>) and the world behind the client. Errors, early returns, nil-map writes and other panics are
  values. What is not in the repository is a parameter: the records \<open>'w env\<close> (\<open>Kube_Objects\<close>),
  \<open>'w lenv\<close> (\<open>Log_Objects\<close>), \<open>'w senv\<close> (\<open>Set_Objects\<close>) and \<open>'w cenv\<close> (\<open>Cluster_Objects\<close>) hold the API of each kind (get, list, create, update, patch, delete), HAKeeper
  and the query service, the clock, the random strings, hashes and parsers. Every call changes the world in
  an arbitrary way, so interference by others is part of every statement. Go maps are \<open>gomap\<close> (nil or a
  finite map), \<^verbatim>\<open>int32\<close> arithmetic wraps, times are integers in nanoseconds.

  \<^bold>\<open>Theories.\<close>
  \<^item> \<open>Op_Prelude\<close>: the monad with its rules, Go maps, strings, \<open>int32\<close>; the locale \<open>comparator\<close> for sort
    functions (a strict weak order gives what a sort by it returns), interpreted for the claim priority
    (\<open>CNClaim\<close>), the claim deletion order (\<open>CNClaimSet\<close>) and the pod deletion order (\<open>CNPool\<close>).
  \<^item> \<open>Kube_Objects\<close>, \<open>Log_Objects\<close>: the structs of \<^verbatim>\<open>api/core/v1alpha1\<close> as records, their getters and
    defaults, the store status of \<^verbatim>\<open>common/failover.go\<close>.
  \<^item> \<open>Semver\<close>: \<^verbatim>\<open>semver.go\<close>, \<^verbatim>\<open>operator_version.go\<close>.
  \<^item> \<open>CN_Common\<close>: \<^verbatim>\<open>common/cnstore.go\<close>, \<^verbatim>\<open>common/selector.go\<close> and the pod UUID.
  \<^item> \<open>Kube_Laws\<close>: environments that log what is sent (\<open>logged\<close>, \<open>loggedL\<close>), the calculus of what a handler can
    send (\<open>onlySends\<close>, \<open>sendsFrom\<close>, \<open>clean\<close>), and the API laws theorems name as hypotheses: optimistic
    concurrency of updates, lists served from a cache, one content per resource version.
  \<^item> \<open>Mem_World\<close>: an API server in memory that obeys the laws, for the witnesses.
  \<^item> \<open>CNClaim\<close>: \<^verbatim>\<open>cnclaim/controller.go\<close> and \<^verbatim>\<open>migrate.go\<close>, every handler. Of racing claims at most one takes a
    pod; a pod taken was free; deleting a claim drains only pods nobody else names; a bind records what it
    did; a migration drains after the propagation delay; the claim index (locale \<open>claim_index\<close>) agrees
    with the scan.
  \<^item> \<open>CNClaimSet\<close>: \<^verbatim>\<open>cnclaimset/controller.go\<close>. Fresh identities (the loop ends), the size after each scale
    step, which claims a scale-in deletes, the status counts, no write on a stale cache.
  \<^item> \<open>CNStore\<close>: \<^verbatim>\<open>cnstore/controller.go\<close> and \<^verbatim>\<open>pooling.go\<close>. When a pod is let go, what a safe score means, when
    the lock service restarts, when a pooled pod changes phase.
  \<^item> \<open>CNPool\<close>: \<^verbatim>\<open>cnpool/controller.go\<close>. Only idle pods are retired, the pod limit, the victims of a scale-in,
    former sets shrink to the pods in use, the revision hash.
  \<^item> \<open>Pod_Phases\<close>: the composition of these controllers. \<open>controllerSends\<close> collects the pod writes of every
    run of a controller together with the phase the controller went by; each of them is a step of the abstract
    machine \<open>phaseStep\<close> from that phase (\<open>pod_writes_refine\<close>), whatever the server answers. A history
    interleaves such writes in any order and with copies of any age; updates are refused on an old copy, patches
    are not. A pod that serves a claim is drained before it is reused or removed, except for a phase patch of the
    store controller that was computed from an older copy (\<open>bound_leaves_through_draining\<close>).
  \<^item> \<open>Bucket\<close>: \<^verbatim>\<open>bucketclaim_helpers.go\<close>, \<^verbatim>\<open>bucketclaim/\<close>, \<^verbatim>\<open>logset/bucketclaim.go\<close>. When the data of a cluster may
    be deleted.
  \<^item> \<open>LogSet\<close>: \<^verbatim>\<open>logset/controller.go\<close> (\<^verbatim>\<open>Scale\<close>, \<^verbatim>\<open>Repair\<close>, \<^verbatim>\<open>Finalize\<close>), \<^verbatim>\<open>bootstrap.go\<close> and the addresses of
    \<^verbatim>\<open>configmap.go\<close>. Failover stays within a minority, the failure clock, the address loop, the bootstrap
    decision.
  \<^item> \<open>Toml_Config\<close>: \<^verbatim>\<open>toml_config.go\<close>. Deep merge, merge of named sections, set and get.
  \<^item> \<open>Set_Objects\<close>: pod templates, overlays, pod sets, CN and DN sets, clone sets, stateful sets, services and
    volume claims; \<open>'w senv\<close>, the world of the set controllers.
  \<^item> \<open>Pod_Template\<close>: the overlay and helpers of \<^verbatim>\<open>common_helpers.go\<close>, \<^verbatim>\<open>common/podset.go\<close>, \<^verbatim>\<open>template.go\<close> and the pod specs
    of log, DN, CN and proxy sets. Every rendering settles: rendering its own result changes nothing.
  \<^item> \<open>Config_Sync\<close>: \<^verbatim>\<open>common/configmap.go\<close>, \<^verbatim>\<open>fileservice.go\<close>, \<^verbatim>\<open>volume.go\<close>, \<^verbatim>\<open>statefulset_predicate.go\<close>. A configuration in use is
    kept; volumes only grow.
  \<^item> \<open>Set_Templates\<close>: what the set controllers share; the locale \<open>owned_objects\<close> states the contract of a finalizer
    (completion is reported only when no owned object exists) and is interpreted for CN, DN and proxy sets.
  \<^item> \<open>CNSet_Control\<close>, \<open>DNSet_Control\<close>, \<open>Log_Control\<close>: \<^verbatim>\<open>cnset/\<close>, \<^verbatim>\<open>dnset/\<close> and the rest of \<^verbatim>\<open>logset/\<close>. For each set: a reconciliation
    that ends without an action means a complete set; what is written is the desired object; the order of
    creation, repair, scaling, updates and finalization; a paused CN set keeps its pods, but for a cache volume
    that grows; a CN set with the drain policy is deleted without draining.
  \<^item> \<open>Cluster_Objects\<close>, \<open>Cluster_Control\<close>: the types of a cluster and \<^verbatim>\<open>mocluster/controller.go\<close> with \<^verbatim>\<open>CreateOwnedOrUpdate\<close>. What a
    complete cluster is, everything a reconciliation sends, what the finalizer waits for, and the credential that can
    get stuck.
  \<^item> \<open>Webhooks\<close>: \<^verbatim>\<open>pkg/webhook\<close> and \<^verbatim>\<open>pkg/hook\<close>. Defaulting is stable and agrees with the cluster controller on log, DN and CN
    sets, but not on the arguments of a proxy; which specifications are accepted; what an accepted update keeps.
  \<^item> \<open>Proxy_Control\<close>: \<^verbatim>\<open>proxyset/\<close> and \<^verbatim>\<open>SyncMOPod\<close>. What a reconciliation sends, what a published address means, that the pod template
    settles after one rendering (its topology selector shares the label map), the finalizer.
  \<^item> \<open>Backup_Restore\<close>: \<^verbatim>\<open>br/\<close> and \<^verbatim>\<open>pkg/cmd/client.go\<close>. The locale \<open>job_machine\<close> states the contract of a job controller (every
    reconciliation is a step of the machine waiting, working, ended, and an ended job is left alone), interpreted for backups and
    restores; what a completed backup means; the credentials of a restore; the containers of a job; the garbage collector.

  \<^bold>\<open>Bounds and loops.\<close> Loops over lists are structural recursion. The one loop that may not end, the choice of
  a fresh identity, is a \<^verbatim>\<open>partial_function\<close> to option; it returns if the generator leaves small sets
  (\<open>genAvailableIds_fresh\<close>). The loop over pod ordinals ends because each round finds a pod or passes one
  of finitely many reserved ordinals; the TOML merge terminates by the size of the trees. No fuel is used.

  \<^bold>\<open>Simplifications.\<close> Objects are values, so sharing between Go pointers is not modelled except where the
  source depends on it (the label map of a claim set template, that of a proxy template and its topology selector,
  that of a job and its pods). In particular the controllers set keys of \<^verbatim>\<open>Spec.Config\<close> and of the overlays in the object
  in memory (\<open>logConfig\<close>, \<open>cnConfig\<close>, \<open>dnConfig\<close>, \<open>proxyConfig\<close>, \<open>setOverlay\<close>, \<open>groupSpec\<close>); they do so once per reconciliation
  and write only the status of that object, and the model returns the new value and leaves the object as it was read. Log lines, events and metrics are left
  out. A list of a Go map is visited in an order given as an argument. \<^verbatim>\<open>CreateOwnedOrUpdate\<close> is split
  around the closure it is given; \<^verbatim>\<open>CreateOwned\<close> is a create. Fields of the structs that no modelled code
  reads are dropped; parts of Kubernetes objects that are only copied (probes, affinity, resources) are strings.
  The text of the start scripts is a parameter that depends on what the templates depend on. Of a condition
  the type, status, reason and message are kept. A handler of \<open>LogSet\<close> and \<open>Bucket\<close> sees the part \<open>viewOf\<close> of a log set.

  \<^bold>\<open>Not modelled.\<close> The web UI controller only builds a deployment and a service from templates; the cluster controller sees the
  web UI through its object. \<^verbatim>\<open>webhook/corevalidation\<close> is a vendored copy
  of Kubernetes code, a parameter of \<open>Webhooks\<close>; \<^verbatim>\<open>zz_generated.deepcopy.go\<close> is generated, and values need no copies.
  The RPC and SQL clients are the parameter of the model; the command line and the operator configuration are
  read once at start-up.
\<close>

end
